(* ===== verification/Prelude.thy ===== *)
theory Prelude
  imports Main
begin

section \<open>Prelude: Go values, strings and shared lemmas\<close>

text \<open>
  What the components share.  A Go \<open>string\<close> is the list of its bytes (\<^typ>\<open>string\<close>), an
  \<open>error\<close> result is a sum with the error on the left, \<open>time.Time\<close> and \<open>time.Duration\<close> are
  integers (nanoseconds), and a Go \<open>map\<close> is a partial function.  The functions below are the
  ones of Go's \<open>strings\<close>, \<open>strconv\<close>, \<open>encoding/hex\<close> and \<open>unicode/utf8\<close> packages that the
  sources call.  \<open>strings.ToLower\<close> and \<open>strings.TrimSpace\<close> are modelled on ASCII bytes, which is
  the domain the sources compare their results on.

  Three collections of facts drive the component proofs: \<open>vibed_defs\<close> (definitions that are
  always unfolded), \<open>inv_intros\<close> (rules that re-establish an invariant) and \<open>frame\<close> (what an
  operation leaves alone).
\<close>

named_theorems vibed_defs
named_theorems inv_intros
named_theorems frame

type_synonym time = int
type_synonym duration = int
type_synonym ('e, 'a) result = "'e + 'a"
type_synonym byte = char

abbreviation Err :: "'e \<Rightarrow> ('e, 'a) result" where
  "Err \<equiv> Inl"

abbreviation Ok :: "'a \<Rightarrow> ('e, 'a) result" where
  "Ok \<equiv> Inr"

definition second :: duration where
  "second = 1000000000"

definition millisecond :: duration where
  "millisecond = 1000000"

definition minute :: duration where
  "minute = 60 * second"

subsection \<open>Package strings\<close>

definition HasPrefix :: "string \<Rightarrow> string \<Rightarrow> bool" where
  "HasPrefix s p \<longleftrightarrow> take (length p) s = p"

definition HasSuffix :: "string \<Rightarrow> string \<Rightarrow> bool" where
  "HasSuffix s p \<longleftrightarrow> length p \<le> length s \<and> drop (length s - length p) s = p"

definition TrimPrefix :: "string \<Rightarrow> string \<Rightarrow> string" where
  "TrimPrefix s p = (if HasPrefix s p then drop (length p) s else s)"

definition TrimSuffix :: "string \<Rightarrow> string \<Rightarrow> string" where
  "TrimSuffix s p = (if HasSuffix s p then take (length s - length p) s else s)"

fun Contains :: "string \<Rightarrow> string \<Rightarrow> bool" where
  "Contains [] p \<longleftrightarrow> p = []"
| "Contains (c # cs) p \<longleftrightarrow> HasPrefix (c # cs) p \<or> Contains cs p"

fun IndexByte :: "string \<Rightarrow> byte \<Rightarrow> nat option" where
  "IndexByte [] b = None"
| "IndexByte (c # cs) b = (if c = b then Some 0 else map_option Suc (IndexByte cs b))"

definition LastIndexByte :: "string \<Rightarrow> byte \<Rightarrow> nat option" where
  "LastIndexByte s b = map_option (\<lambda>i. length s - 1 - i) (IndexByte (rev s) b)"

text \<open>\<open>strings.Split(s, string(c))\<close>: never empty, and one element longer than the number of
  separators.\<close>

fun split_on :: "byte \<Rightarrow> string \<Rightarrow> string list" where
  "split_on b [] = [[]]"
| "split_on b (c # cs) =
     (if c = b then [] # split_on b cs
      else (case split_on b cs of [] \<Rightarrow> [[c]] | w # ws \<Rightarrow> (c # w) # ws))"

fun join_with :: "string \<Rightarrow> string list \<Rightarrow> string" where
  "join_with sep [] = []"
| "join_with sep [w] = w"
| "join_with sep (w # v # ws) = w @ sep @ join_with sep (v # ws)"

definition is_upper :: "byte \<Rightarrow> bool" where
  "is_upper c \<longleftrightarrow> 65 \<le> (of_char c :: nat) \<and> (of_char c :: nat) \<le> 90"

definition lower_byte :: "byte \<Rightarrow> byte" where
  "lower_byte c = (if is_upper c then char_of (of_char c + (32::nat)) else c)"

definition ToLower :: "string \<Rightarrow> string" where
  "ToLower s = map lower_byte s"

definition is_space :: "byte \<Rightarrow> bool" where
  "is_space c \<longleftrightarrow> (of_char c :: nat) = 32 \<or> (9 \<le> (of_char c :: nat) \<and> (of_char c :: nat) \<le> 13)"

definition TrimSpace :: "string \<Rightarrow> string" where
  "TrimSpace s = rev (dropWhile is_space (rev (dropWhile is_space s)))"

definition is_digit :: "byte \<Rightarrow> bool" where
  "is_digit c \<longleftrightarrow> 48 \<le> (of_char c :: nat) \<and> (of_char c :: nat) \<le> 57"

subsection \<open>Packages strconv and encoding/hex\<close>

definition digit_char :: "nat \<Rightarrow> byte" where
  "digit_char d = char_of (48 + d)"

fun itoa_nat :: "nat \<Rightarrow> string" where
  "itoa_nat n = (if n < 10 then [digit_char n] else itoa_nat (n div 10) @ [digit_char (n mod 10)])"

declare itoa_nat.simps [simp del]

definition Itoa :: "int \<Rightarrow> string" where
  "Itoa i = (if i < 0 then CHR ''-'' # itoa_nat (nat (- i)) else itoa_nat (nat i))"

definition digits_value :: "string \<Rightarrow> nat" where
  "digits_value s = foldl (\<lambda>n c. 10 * n + (of_char c - 48)) 0 s"

text \<open>\<open>strconv.Atoi\<close> with its error dropped: 0 for what is no number, the nearest \<open>int64\<close> for what is out of range.\<close>

definition atoi :: "string \<Rightarrow> int" where
  "atoi s =
     (let (neg, ds) = (case s of c # cs \<Rightarrow> if c = CHR ''-'' then (True, cs) else if c = CHR ''+'' then (False, cs) else (False, s)
                                 | [] \<Rightarrow> (False, [])) in
      if ds = [] \<or> \<not> list_all is_digit ds then 0
      else let v = int (digits_value ds) in
           if neg then max (- (2 ^ 63)) (- v) else min (2 ^ 63 - 1) v)"

definition hex_digit :: "nat \<Rightarrow> byte" where
  "hex_digit d = (if d < 10 then char_of (48 + d) else char_of (87 + d))"

definition hex_byte :: "byte \<Rightarrow> string" where
  "hex_byte c = (let n = (of_char c :: nat) in [hex_digit (n div 16), hex_digit (n mod 16)])"

definition EncodeToString :: "string \<Rightarrow> string" where
  "EncodeToString bs = concat (map hex_byte bs)"

text \<open>\<open>fmt.Sprintf("%q", s)\<close> on ASCII strings; bytes above 127 are passed on, as printable runes are.\<close>

definition quote_byte :: "byte \<Rightarrow> string" where
  "quote_byte c =
     (let n = (of_char c :: nat); bs = CHR 0x5C in
      if n = 34 \<or> n = 92 then [bs, c]
      else if n = 7 then [bs, CHR ''a''] else if n = 8 then [bs, CHR ''b''] else if n = 9 then [bs, CHR ''t'']
      else if n = 10 then [bs, CHR ''n''] else if n = 11 then [bs, CHR ''v''] else if n = 12 then [bs, CHR ''f'']
      else if n = 13 then [bs, CHR ''r'']
      else if n < 32 \<or> n = 127 then [bs, CHR ''x''] @ hex_byte c
      else [c])"

definition Quote :: "string \<Rightarrow> string" where
  "Quote s = [CHR 0x22] @ concat (map quote_byte s) @ [CHR 0x22]"

subsection \<open>Ranging over a string: package unicode/utf8\<close>

text \<open>
  \<open>for _, r := range s\<close> decodes UTF-8: a valid sequence is one rune, and every byte that does not
  start a valid sequence is one \<open>RuneError\<close> (U+FFFD).
\<close>

definition RuneError :: nat where
  "RuneError = 65533"

definition cont_byte :: "nat \<Rightarrow> bool" where
  "cont_byte b \<longleftrightarrow> 128 \<le> b \<and> b \<le> 191"

definition between :: "nat \<Rightarrow> nat \<Rightarrow> nat \<Rightarrow> bool" where
  "between lo hi b \<longleftrightarrow> lo \<le> b \<and> b \<le> hi"

definition decode_rune :: "nat list \<Rightarrow> nat \<times> nat" where
  "decode_rune bs = (case bs of
      [] \<Rightarrow> (RuneError, 1)
    | b0 # rest \<Rightarrow>
       if b0 < 128 then (b0, 1)
       else (case rest of
          [] \<Rightarrow> (RuneError, 1)
        | b1 # rest1 \<Rightarrow>
           if between 194 223 b0 \<and> cont_byte b1
           then ((b0 mod 32) * 64 + b1 mod 64, 2)
           else (case rest1 of
              [] \<Rightarrow> (RuneError, 1)
            | b2 # rest2 \<Rightarrow>
               if between 224 239 b0 \<and> cont_byte b1 \<and> cont_byte b2
                  \<and> (b0 = 224 \<longrightarrow> 160 \<le> b1) \<and> (b0 = 237 \<longrightarrow> b1 \<le> 159)
               then ((b0 mod 16) * 4096 + (b1 mod 64) * 64 + b2 mod 64, 3)
               else (case rest2 of
                  [] \<Rightarrow> (RuneError, 1)
                | b3 # _ \<Rightarrow>
                   if between 240 244 b0 \<and> cont_byte b1 \<and> cont_byte b2 \<and> cont_byte b3
                      \<and> (b0 = 240 \<longrightarrow> 144 \<le> b1) \<and> (b0 = 244 \<longrightarrow> b1 \<le> 143)
                   then ((b0 mod 8) * 262144 + (b1 mod 64) * 4096 + (b2 mod 64) * 64 + b3 mod 64, 4)
                   else (RuneError, 1)))))"

lemma decode_rune_width: "0 < snd (decode_rune bs)"
  by (simp add: decode_rune_def split: list.split)

function runes_of :: "nat list \<Rightarrow> nat list" where
  "runes_of bs =
     (if bs = [] then [] else fst (decode_rune bs) # runes_of (drop (snd (decode_rune bs)) bs))"
  by pat_completeness auto
termination
  by (relation "measure length") (auto simp: decode_rune_width)

declare runes_of.simps [simp del]

definition runes :: "string \<Rightarrow> nat list" where
  "runes s = runes_of (map of_char s)"

subsection \<open>Slices\<close>

text \<open>\<open>xs[lo:]\<close> and \<open>xs[:hi]\<close> after the sources have clamped the bound.\<close>

abbreviation slice_from :: "'a list \<Rightarrow> nat \<Rightarrow> 'a list" where
  "slice_from xs n \<equiv> drop n xs"

abbreviation slice_to :: "'a list \<Rightarrow> nat \<Rightarrow> 'a list" where
  "slice_to xs n \<equiv> take n xs"

subsection \<open>Lemmas on strings\<close>

lemma HasPrefix_append [simp]: "HasPrefix (p @ s) p"
  by (simp add: HasPrefix_def)

lemma HasPrefixD: "HasPrefix s p \<Longrightarrow> \<exists>t. s = p @ t"
  by (metis HasPrefix_def append_take_drop_id)

lemma HasPrefix_iff: "HasPrefix s p \<longleftrightarrow> (\<exists>t. s = p @ t)"
  using HasPrefixD HasPrefix_append by blast

lemma HasSuffix_append [simp]: "HasSuffix (s @ p) p"
  by (simp add: HasSuffix_def)

lemma HasSuffix_iff: "HasSuffix s p \<longleftrightarrow> (\<exists>t. s = t @ p)"
proof
  assume "HasSuffix s p"
  then have "s = take (length s - length p) s @ p"
    by (metis HasSuffix_def append_take_drop_id)
  then show "\<exists>t. s = t @ p" by blast
qed (auto simp: HasSuffix_def)

lemma TrimPrefix_append [simp]: "TrimPrefix (p @ s) p = s"
  by (simp add: TrimPrefix_def)

lemma TrimPrefix_noop: "\<not> HasPrefix s p \<Longrightarrow> TrimPrefix s p = s"
  by (simp add: TrimPrefix_def)

lemma IndexByte_None: "IndexByte s b = None \<longleftrightarrow> b \<notin> set s"
  by (induction s) auto

lemma IndexByte_Some:
  "IndexByte s b = Some i \<Longrightarrow> i < length s \<and> s ! i = b \<and> b \<notin> set (take i s)"
  by (induction s arbitrary: i) (auto split: if_splits)

lemma split_on_nonempty [simp]: "split_on b s \<noteq> []"
  by (induction s) (auto split: list.splits)

lemma join_with_Cons: "ws \<noteq> [] \<Longrightarrow> join_with sep (w # ws) = w @ sep @ join_with sep ws"
  by (cases ws) auto

lemma join_split_on: "join_with [b] (split_on b s) = s"
proof (induction s)
  case (Cons c cs)
  then show ?case
    by (cases "split_on b cs") (auto simp: join_with_Cons split: list.splits,
        cases "tl (split_on b cs)", auto simp: join_with_Cons)
qed simp

lemma split_on_no_sep: "b \<notin> set s \<Longrightarrow> split_on b s = [s]"
  by (induction s) auto

lemma split_on_parts: "w \<in> set (split_on b s) \<Longrightarrow> b \<notin> set w"
proof (induction s arbitrary: w)
  case (Cons c cs)
  then show ?case
    by (cases "split_on b cs") (auto split: if_splits)
qed simp

lemma split_on_append:
  "b \<notin> set w \<Longrightarrow> split_on b (w @ b # s) = w # split_on b s"
  by (induction w) auto

lemma split_on_join:
  assumes "ws \<noteq> []" and "\<forall>w \<in> set ws. b \<notin> set w"
  shows "split_on b (join_with [b] ws) = ws"
  using assms
proof (induction ws)
  case (Cons w ws)
  then show ?case
    by (cases "ws = []") (auto simp: join_with_Cons split_on_no_sep split_on_append)
qed simp

lemma itoa_nat_digits: "c \<in> set (itoa_nat n) \<Longrightarrow> is_digit c"
proof (induction n rule: itoa_nat.induct)
  case (1 n)
  have d: "is_digit (digit_char k)" if "k < 10" for k
    using that by (simp add: is_digit_def digit_char_def)
  show ?case
  proof (cases "n < 10")
    case True
    with "1.prems" show ?thesis by (simp add: itoa_nat.simps [of n] d)
  next
    case False
    with "1.prems" have "c \<in> set (itoa_nat (n div 10)) \<or> c = digit_char (n mod 10)"
      by (auto simp: itoa_nat.simps [of n])
    with False "1.IH" show ?thesis by (auto simp: d)
  qed
qed

lemma itoa_nat_nonempty [simp]: "itoa_nat n \<noteq> []"
  by (subst itoa_nat.simps) simp

lemma length_hex_byte [simp]: "length (hex_byte c) = 2"
  by (simp add: hex_byte_def Let_def)

lemma length_EncodeToString [simp]: "length (EncodeToString bs) = 2 * length bs"
  by (induction bs) (auto simp: EncodeToString_def)

lemma hex_digit_range: "d < 16 \<Longrightarrow> is_digit (hex_digit d) \<or> (of_char (hex_digit d) :: nat) \<in> {97..102}"
  by (auto simp: hex_digit_def is_digit_def)

subsection \<open>Lemmas on lists\<close>

lemma length_filter_mono:
  "(\<And>x. x \<in> set xs \<Longrightarrow> P x \<Longrightarrow> Q x) \<Longrightarrow> length (filter P xs) \<le> length (filter Q xs)"
  by (induction xs) (auto simp: le_SucI)

lemma option_eqI:
  assumes "\<And>x. p = Some x \<longleftrightarrow> q = Some x"
  shows "p = q"
proof (cases p)
  case None
  then show ?thesis using assms by (cases q) auto
next
  case (Some x)
  then show ?thesis using assms [of x] by simp
qed

lemma map_eqI: "(\<And>k x. m k = Some x \<longleftrightarrow> m' k = Some x) \<Longrightarrow> m = m'"
  by (intro ext option_eqI)

end
