(* ===== verification/Api_Types.thy ===== *)
theory Api_Types
  imports Prelude
begin

section \<open>The API types\<close>

text \<open>
  The data the components exchange: the VibedApp custom resource and its labels
  (\<open>src/pkg/vibedapi/v1alpha1\<close>), the artifact vocabulary and the error values of
  \<open>src/pkg/api\<close>, and the tenant a request runs in (\<open>src/internal/tenant\<close>).

  Go's typed strings \<open>Lane\<close> and \<open>Phase\<close> have the source's constants as constructors, a
  constructor for the empty string and one for any other string, so that a default branch of a
  \<open>switch\<close> is a branch of the model.  A Kubernetes object keeps the fields the sources read:
  name, namespace, UID, generation, labels and deletion timestamp.  The JSON annotation that
  carries the version history is kept decoded (see \<open>Versions\<close>).
\<close>

subsection \<open>Lanes and phases\<close>

datatype Lane = LaneEmpty | LaneFast | LaneGeneral | LaneOther string

datatype Phase =
    PhaseEmpty | PhasePending | PhaseClaiming | PhaseStarting | PhaseReady
  | PhaseSuspended | PhaseFailed | PhaseOther string

definition lane_string :: "Lane \<Rightarrow> string" where
  "lane_string l = (case l of
      LaneEmpty \<Rightarrow> '''' | LaneFast \<Rightarrow> ''fast'' | LaneGeneral \<Rightarrow> ''general'' | LaneOther s \<Rightarrow> s)"

definition lane_of_string :: "string \<Rightarrow> Lane" where
  "lane_of_string s =
     (if s = '''' then LaneEmpty else if s = ''fast'' then LaneFast
      else if s = ''general'' then LaneGeneral else LaneOther s)"

text \<open>A lane value whose \<open>LaneOther\<close> string is not one of the named constants: the values that
  stand for exactly one Go string.\<close>

definition lane_wf :: "Lane \<Rightarrow> bool" where
  "lane_wf l \<longleftrightarrow> (case l of LaneOther s \<Rightarrow> s \<notin> {'''', ''fast'', ''general''} | _ \<Rightarrow> True)"

lemma lane_of_string_wf [simp]: "lane_wf (lane_of_string s)"
  by (simp add: lane_wf_def lane_of_string_def)

lemma lane_string_of_string [simp]: "lane_string (lane_of_string s) = s"
  by (simp add: lane_string_def lane_of_string_def)

lemma lane_of_string_string: "lane_wf l \<Longrightarrow> lane_of_string (lane_string l) = l"
  by (cases l) (auto simp: lane_wf_def lane_string_def lane_of_string_def)

subsection \<open>The VibedApp resource\<close>

record EnvVar =
  env_Name :: string
  env_Value :: string

record Source =
  source_TarballRef :: string
  source_GitRef :: string

record Egress =
  egress_AllowedHosts :: "string list"

record Runtime =
  rt_Lane :: Lane
  rt_Template :: string
  rt_Entrypoint :: string
  rt_Env :: "EnvVar list"

record Resources =
  res_CPU :: string
  res_Memory :: string

record VibedAppSpec =
  spec_Owner :: string
  spec_Source :: Source
  spec_Runtime :: Runtime
  spec_Egress :: Egress
  spec_Resources :: Resources
  spec_TTL :: string
  spec_Suspended :: bool

datatype ConditionStatus = ConditionTrue | ConditionFalse | ConditionUnknown

text \<open>A \<open>metav1.Condition\<close>; the zero \<open>LastTransitionTime\<close> is \<open>None\<close>.\<close>

record Condition =
  cond_Type :: string
  cond_Status :: ConditionStatus
  cond_Reason :: string
  cond_Message :: string
  cond_LastTransitionTime :: "time option"

record VibedAppStatus =
  st_Phase :: Phase
  st_URL :: string
  st_SandboxRef :: string
  st_PodIP :: string
  st_RouteTarget :: string
  st_LastDeployedAt :: "time option"
  st_SnapshotRef :: string
  st_Conditions :: "Condition list"

text \<open>One entry of the deploy history (\<open>src/internal/deploy/versions.go\<close>); it is declared here
  because the resource carries it in an annotation.\<close>

record VersionRecord =
  vr_Version :: int
  vr_Timestamp :: string
  vr_Template :: string
  vr_Lane :: string
  vr_SourceHash :: string
  vr_TarballKey :: string
  vr_TarballRef :: string
  vr_RolledBackFrom :: int

text \<open>The content of the annotation \<open>vibed.dev/versions\<close>: absent or empty, not parseable as
  JSON, or a list of records, oldest first.\<close>

datatype versions_annotation = AnnMissing | AnnMalformed | AnnRecords "VersionRecord list"

record VibedApp =
  app_Name :: string
  app_Namespace :: string
  app_UID :: string
  app_Generation :: int
  app_Labels :: "string \<rightharpoonup> string"
  app_Versions :: versions_annotation
  app_DeletionTimestamp :: "time option"
  app_Spec :: VibedAppSpec
  app_Status :: VibedAppStatus

definition ConditionReady :: string where
  "ConditionReady = ''Ready''"

definition ConditionSourceValid :: string where
  "ConditionSourceValid = ''SourceValid''"

lemma condition_types_distinct [simp]:
  "ConditionReady \<noteq> ConditionSourceValid" "ConditionSourceValid \<noteq> ConditionReady"
  by (simp_all add: ConditionReady_def ConditionSourceValid_def)

definition empty_status :: VibedAppStatus where
  "empty_status =
     \<lparr>st_Phase = PhaseEmpty, st_URL = '''', st_SandboxRef = '''', st_PodIP = '''',
      st_RouteTarget = '''', st_LastDeployedAt = None, st_SnapshotRef = '''', st_Conditions = []\<rparr>"

definition empty_resources :: Resources where
  "empty_resources = \<lparr>res_CPU = '''', res_Memory = ''''\<rparr>"

subsection \<open>Labels\<close>

definition LabelOwner :: string where
  "LabelOwner = ''vibed.dev/owner''"

definition LabelDepartment :: string where
  "LabelDepartment = ''vibed.dev/department''"

definition LabelTenant :: string where
  "LabelTenant = ''vibed.dev/tenant''"

lemma labels_distinct [simp]:
  "LabelOwner \<noteq> LabelDepartment" "LabelDepartment \<noteq> LabelOwner"
  "LabelOwner \<noteq> LabelTenant" "LabelTenant \<noteq> LabelOwner"
  "LabelDepartment \<noteq> LabelTenant" "LabelTenant \<noteq> LabelDepartment"
  by (simp_all add: LabelOwner_def LabelDepartment_def LabelTenant_def)

text \<open>A missing key of a \<open>map[string]string\<close> reads as the empty string.\<close>

definition label_get :: "(string \<rightharpoonup> string) \<Rightarrow> string \<Rightarrow> string" where
  "label_get m k = (case m k of None \<Rightarrow> '''' | Some v \<Rightarrow> v)"

definition label_rune :: "nat \<Rightarrow> bool" where
  "label_rune r \<longleftrightarrow>
     (97 \<le> r \<and> r \<le> 122) \<or> (65 \<le> r \<and> r \<le> 90) \<or> (48 \<le> r \<and> r \<le> 57) \<or> r = 45 \<or> r = 95 \<or> r = 46"

definition SanitizeLabel :: "string \<Rightarrow> string" where
  "SanitizeLabel s =
     (let out = map (\<lambda>r. if label_rune r then char_of r else CHR ''_'') (runes s) in
      if length out > 63 then slice_to out 63 else out)"

lemma label_rune_small: "label_rune r \<Longrightarrow> r < 128"
  by (auto simp: label_rune_def)

lemma SanitizeLabel_length: "length (SanitizeLabel s) \<le> 63"
  by (simp add: SanitizeLabel_def Let_def)

lemma SanitizeLabel_chars: "c \<in> set (SanitizeLabel s) \<Longrightarrow> label_rune (of_char c)"
proof -
  assume "c \<in> set (SanitizeLabel s)"
  then have "c \<in> set (map (\<lambda>r. if label_rune r then char_of r else CHR ''_'') (runes s))"
    by (auto simp: SanitizeLabel_def Let_def split: if_splits dest: in_set_takeD)
  then obtain r where "c = (if label_rune r then char_of r else CHR ''_'')"
    unfolding set_map by blast
  moreover have "label_rune (of_char (CHR ''_''))" by (simp add: label_rune_def)
  moreover have "of_char (char_of r :: char) = r" if "label_rune r"
    using label_rune_small [OF that] by simp
  ultimately show ?thesis by (auto split: if_splits)
qed

lemma runes_of_ascii: "\<forall>b \<in> set bs. b < 128 \<Longrightarrow> runes_of bs = bs"
proof (induction bs)
  case Nil
  show ?case by (subst runes_of.simps) simp
next
  case (Cons b bs)
  then have "decode_rune (b # bs) = (b, 1)" by (simp add: decode_rune_def)
  with Cons show ?case by (subst runes_of.simps) simp
qed

lemma runes_label: "\<forall>c \<in> set s. label_rune (of_char c) \<Longrightarrow> runes s = map of_char s"
  unfolding runes_def by (rule runes_of_ascii) (auto dest: label_rune_small)

text \<open>An identity that is already a legal label value is left alone; in particular sanitizing
  twice is sanitizing once.\<close>

lemma SanitizeLabel_legal:
  assumes "\<forall>c \<in> set s. label_rune (of_char c)" and "length s \<le> 63"
  shows "SanitizeLabel s = s"
proof -
  have "map (\<lambda>r. if label_rune r then char_of r else CHR ''_'') (map of_char s) = s"
    using assms(1) by (induction s) auto
  then show ?thesis using assms by (simp add: SanitizeLabel_def Let_def runes_label del: map_map)
qed

lemma SanitizeLabel_idem: "SanitizeLabel (SanitizeLabel s) = SanitizeLabel s"
  by (rule SanitizeLabel_legal) (auto dest: SanitizeLabel_chars simp: SanitizeLabel_length)

subsection \<open>Artifacts, users and their errors\<close>

datatype ArtifactStatus =
    StatusPending | StatusBuilding | StatusDeploying | StatusRunning | StatusFailed
  | StatusDeleted | StatusOther string

definition status_string :: "ArtifactStatus \<Rightarrow> string" where
  "status_string s = (case s of
      StatusPending \<Rightarrow> ''pending'' | StatusBuilding \<Rightarrow> ''building''
    | StatusDeploying \<Rightarrow> ''deploying'' | StatusRunning \<Rightarrow> ''running''
    | StatusFailed \<Rightarrow> ''failed'' | StatusDeleted \<Rightarrow> ''deleted'' | StatusOther t \<Rightarrow> t)"

definition StatusFromPhase :: "Phase \<Rightarrow> ArtifactStatus" where
  "StatusFromPhase p = (case p of
      PhasePending \<Rightarrow> StatusPending
    | PhaseClaiming \<Rightarrow> StatusPending
    | PhaseStarting \<Rightarrow> StatusDeploying
    | PhaseReady \<Rightarrow> StatusRunning
    | PhaseSuspended \<Rightarrow> StatusRunning
    | PhaseFailed \<Rightarrow> StatusFailed
    | _ \<Rightarrow> StatusPending)"

record Artifact =
  art_ID :: string
  art_Name :: string
  art_OwnerID :: string
  art_Namespace :: string
  art_Status :: ArtifactStatus
  art_Target :: string
  art_ImageRef :: string
  art_URL :: string
  art_Port :: int
  art_EnvVars :: "string \<rightharpoonup> string"
  art_SecretRefs :: "string \<rightharpoonup> string"
  art_Language :: string
  art_Mode :: string
  art_StaticFiles :: string
  art_Error :: string
  art_CreatedAt :: time
  art_UpdatedAt :: time
  art_StorageRef :: string
  art_Version :: int
  art_VersionID :: string
  art_SharedWith :: "string list"

record ArtifactSummary =
  sum_ID :: string
  sum_Name :: string
  sum_OwnerID :: string
  sum_Namespace :: string
  sum_Status :: ArtifactStatus
  sum_Target :: string
  sum_Mode :: string
  sum_URL :: string
  sum_CreatedAt :: time
  sum_UpdatedAt :: time
  sum_Version :: int
  sum_SharedWith :: "string list"

text \<open>\<open>ToSummary\<close> leaves \<open>Namespace\<close> at its zero value.\<close>

definition ToSummary :: "Artifact \<Rightarrow> ArtifactSummary" where
  "ToSummary a =
     \<lparr>sum_ID = art_ID a, sum_Name = art_Name a, sum_OwnerID = art_OwnerID a, sum_Namespace = '''',
      sum_Status = art_Status a, sum_Target = art_Target a, sum_Mode = art_Mode a,
      sum_URL = art_URL a, sum_CreatedAt = art_CreatedAt a, sum_UpdatedAt = art_UpdatedAt a,
      sum_Version = art_Version a, sum_SharedWith = art_SharedWith a\<rparr>"

record ArtifactVersion =
  av_VersionID :: string
  av_ArtifactID :: string
  av_Version :: int
  av_ImageRef :: string
  av_StorageRef :: string
  av_EnvVars :: "string \<rightharpoonup> string"
  av_SecretRefs :: "string \<rightharpoonup> string"
  av_Status :: ArtifactStatus
  av_URL :: string
  av_CreatedAt :: time
  av_CreatedBy :: string

record User =
  user_ID :: string
  user_Name :: string
  user_Email :: string
  user_Role :: string
  user_Status :: string
  user_Provider :: string
  user_DepartmentID :: string
  user_APIKeyHash :: string
  user_CreatedAt :: time
  user_UpdatedAt :: time

record Department =
  dept_ID :: string
  dept_Name :: string
  dept_Namespace :: string
  dept_CreatedAt :: time
  dept_UpdatedAt :: time

record AuditEvent =
  ae_ID :: string
  ae_Time :: time
  ae_Actor :: string
  ae_Action :: string
  ae_Target :: string
  ae_Outcome :: string
  ae_Detail :: string
  ae_TenantID :: string
  ae_SessionID :: string
  ae_SourceHash :: string
  ae_PolicyDecision :: string
  ae_Before :: string
  ae_After :: string

record MeterEvent =
  me_Kind :: string
  me_Tenant :: string
  me_Owner :: string
  me_App :: string
  me_Namespace :: string

record ShareLink =
  sl_Token :: string
  sl_ArtifactID :: string
  sl_CreatedBy :: string
  sl_HasPassword :: bool
  sl_ExpiresAt :: "time option"
  sl_CreatedAt :: time
  sl_Revoked :: bool
  sl_URL :: string

datatype api_error =
    ErrNotFound string
  | ErrAlreadyExists string
  | ErrVersionNotFound string int
  | ErrShareLinkNotFound string
  | ErrPasswordRequired

subsection \<open>Tenants\<close>

record Limits =
  lim_MaxApps :: int

record Tenant =
  tenant_ID :: string
  tenant_Namespace :: string
  tenant_Limits :: Limits

definition zero_tenant :: Tenant where
  "zero_tenant = \<lparr>tenant_ID = '''', tenant_Namespace = '''', tenant_Limits = \<lparr>lim_MaxApps = 0\<rparr>\<rparr>"

text \<open>The owner labels of two identities that agree on their sanitized form collide; an exact
  comparison of \<open>spec.owner\<close> is what tells them apart.\<close>

lemma sanitize_collision:
  "SanitizeLabel ''alice@corp'' = SanitizeLabel ''alice_corp''"
  by code_simp

end
