(* ===== verification/Versions.thy ===== *)
theory Versions
  imports Api_Types
begin

section \<open>Deploy history and source keys\<close>

text \<open>
  \<open>src/internal/deploy/versions.go\<close>: the bounded deploy history an app carries in an annotation,
  the store key minted for each version's source tarball, and which keys are dropped when old
  records age out.  The invariant is \<open>history_wf\<close> (strictly increasing positive versions, at most
  \<open>maxVersions\<close> of them); \<open>appendCapped\<close> keeps it when the new record is numbered by
  \<open>nextVersion\<close>, which is what \<open>Deploy\<close> and \<open>Rollback\<close> do.
\<close>

definition maxVersions :: nat where
  "maxVersions = 20"

text \<open>The 16 random bytes are an argument: the error \<open>crypto/rand\<close> returned, or the bytes.\<close>

definition newVersionKey :: "(string, string) result \<Rightarrow> string \<Rightarrow> int \<Rightarrow> (string, string) result" where
  "newVersionKey rnd name v = (case rnd of
      Err e \<Rightarrow> Err (''generating source key: '' @ e)
    | Ok buf \<Rightarrow> Ok (name @ ''.v'' @ Itoa v @ ''.'' @ EncodeToString buf))"

definition loadVersions :: "VibedApp \<Rightarrow> VersionRecord list" where
  "loadVersions app = (case app_Versions app of
      AnnMissing \<Rightarrow> [] | AnnMalformed \<Rightarrow> [] | AnnRecords recs \<Rightarrow> recs)"

text \<open>The loop of \<open>nextVersion\<close>: keep the largest version seen, starting from 0.\<close>

fun max_version :: "int \<Rightarrow> VersionRecord list \<Rightarrow> int" where
  "max_version n [] = n"
| "max_version n (r # rs) = max_version (if vr_Version r > n then vr_Version r else n) rs"

definition nextVersion :: "VersionRecord list \<Rightarrow> int" where
  "nextVersion history = max_version 0 history + 1"

definition appendCapped ::
  "VersionRecord list \<Rightarrow> VersionRecord \<Rightarrow> nat \<Rightarrow> VersionRecord list \<times> string list" where
  "appendCapped history rec mx =
     (let all = history @ [rec] in
      if length all \<le> mx then (all, [])
      else
        (let dropped = slice_to all (length all - mx);
             kept = slice_from all (length all - mx);
             keptKeys = map vr_TarballKey kept
         in (kept, map vr_TarballKey
               (filter (\<lambda>r. vr_TarballKey r \<noteq> '''' \<and> vr_TarballKey r \<notin> set keptKeys) dropped))))"

definition marshalVersions :: "VersionRecord list \<Rightarrow> versions_annotation" where
  "marshalVersions recs = AnnRecords recs"

definition history_wf :: "VersionRecord list \<Rightarrow> bool" where
  "history_wf h \<longleftrightarrow>
     sorted_wrt (<) (map vr_Version h) \<and> (\<forall>r \<in> set h. 0 < vr_Version r) \<and> length h \<le> maxVersions"

definition keys_of :: "VersionRecord list \<Rightarrow> string set" where
  "keys_of h = {k. k \<noteq> '''' \<and> k \<in> vr_TarballKey ` set h}"

subsection \<open>Numbering\<close>

lemma max_version_lower: "n \<le> max_version n h"
  by (induction n h rule: max_version.induct) auto

lemma max_version_ge: "r \<in> set h \<Longrightarrow> vr_Version r \<le> max_version n h"
proof (induction n h rule: max_version.induct)
  case (2 n x rs)
  then show ?case
    using max_version_lower [of "if vr_Version x > n then vr_Version x else n" rs]
    by (auto split: if_splits)
qed simp

lemma nextVersion_fresh: "r \<in> set h \<Longrightarrow> vr_Version r < nextVersion h"
  unfolding nextVersion_def using max_version_ge [of r h 0] by linarith

lemma nextVersion_pos: "0 < nextVersion h"
  unfolding nextVersion_def using max_version_lower [of 0 h] by linarith

lemma max_version_sorted:
  "sorted_wrt (<) (map vr_Version h) \<Longrightarrow> h \<noteq> [] \<Longrightarrow>
   max_version n h = (if vr_Version (last h) > n then vr_Version (last h) else n)"
proof (induction h arbitrary: n)
  case (Cons r rs)
  show ?case
  proof (cases "rs = []")
    case False
    then have lt: "vr_Version r < vr_Version (last rs)" using Cons.prems(1) by simp
    have "max_version k rs = (if vr_Version (last rs) > k then vr_Version (last rs) else k)" for k
      using Cons.IH Cons.prems(1) False by simp
    then show ?thesis using lt False by simp
  qed simp
qed simp

subsection \<open>Appending and evicting\<close>

lemma fst_appendCapped:
  "fst (appendCapped h r m) = drop (length (h @ [r]) - m) (h @ [r])"
  by (simp add: appendCapped_def Let_def)

lemma appendCapped_length: "length (fst (appendCapped h r m)) = min m (Suc (length h))"
  by (simp add: fst_appendCapped)

lemma appendCapped_last: "0 < m \<Longrightarrow> last (fst (appendCapped h r m)) = r"
  by (simp add: fst_appendCapped last_drop)

lemma appendCapped_subset: "set (fst (appendCapped h r m)) \<subseteq> insert r (set h)"
  unfolding fst_appendCapped using set_drop_subset [of _ "h @ [r]"] by fastforce

lemma appendCapped_keys_kept:
  "k \<in> set (snd (appendCapped h r m)) \<Longrightarrow> k \<notin> keys_of (fst (appendCapped h r m))"
  by (auto simp: appendCapped_def Let_def keys_of_def image_iff simp del: drop_append
      split: if_splits)

lemma appendCapped_evicted_old:
  "k \<in> set (snd (appendCapped h r m)) \<Longrightarrow> k \<in> keys_of (h @ [r])"
  by (auto simp: appendCapped_def Let_def keys_of_def split: if_splits dest: in_set_takeD)

text \<open>No key is lost: a key that was referenced before the append is either still referenced or
  handed back for deletion.\<close>

lemma appendCapped_accounting:
  "keys_of (h @ [r]) = keys_of (fst (appendCapped h r m)) \<union> set (snd (appendCapped h r m))"
proof (cases "length (h @ [r]) \<le> m")
  case True
  then show ?thesis by (simp add: appendCapped_def Let_def)
next
  case False
  let ?all = "h @ [r]" and ?n = "length (h @ [r]) - m"
  have "set ?all = set (take ?n ?all) \<union> set (drop ?n ?all)"
    by (metis append_take_drop_id set_append)
  with False show ?thesis
    unfolding appendCapped_def Let_def keys_of_def by (simp only: if_False fst_conv snd_conv) auto
qed

lemma history_wf_Nil [simp]: "history_wf []"
  by (simp add: history_wf_def)

lemma appendCapped_sorted:
  assumes "history_wf h" and "vr_Version r = nextVersion h"
  shows "sorted_wrt (<) (map vr_Version (fst (appendCapped h r m)))"
proof -
  have "sorted_wrt (<) (map vr_Version (h @ [r]))"
    using assms nextVersion_fresh [of _ h] by (auto simp: history_wf_def sorted_wrt_append)
  then show ?thesis
    unfolding fst_appendCapped drop_map [symmetric] by (rule sorted_wrt_drop)
qed

lemma history_wf_append [inv_intros]:
  assumes "history_wf h" and "vr_Version r = nextVersion h"
  shows "history_wf (fst (appendCapped h r maxVersions))"
proof -
  have "sorted_wrt (<) (map vr_Version (fst (appendCapped h r maxVersions)))"
    using assms by (rule appendCapped_sorted)
  moreover have "\<forall>x \<in> set (fst (appendCapped h r maxVersions)). 0 < vr_Version x"
    using assms appendCapped_subset [of h r maxVersions] nextVersion_pos [of h]
    by (auto simp: history_wf_def)
  ultimately show ?thesis
    by (simp add: history_wf_def appendCapped_length)
qed

text \<open>Eviction drops the oldest records, so the counter never goes back.\<close>

lemma nextVersion_append:
  assumes "history_wf h" and "vr_Version r = nextVersion h" and "0 < m"
  shows "nextVersion (fst (appendCapped h r m)) = nextVersion h + 1"
proof -
  let ?k = "fst (appendCapped h r m)"
  have s: "sorted_wrt (<) (map vr_Version ?k)"
    using assms(1,2) by (rule appendCapped_sorted)
  have "?k \<noteq> []" using assms(3) appendCapped_length [of h r m] by auto
  with s have "max_version 0 ?k = (if vr_Version r > 0 then vr_Version r else 0)"
    by (simp add: max_version_sorted appendCapped_last [OF assms(3)])
  then show ?thesis using assms(2) nextVersion_pos [of h] by (simp add: nextVersion_def)
qed

subsection \<open>Source keys\<close>

lemma Itoa_no_dot: "CHR ''.'' \<notin> set (Itoa v)"
  by (auto simp: Itoa_def is_digit_def dest: itoa_nat_digits)

lemma hex_byte_chars: "c \<in> set (hex_byte b) \<Longrightarrow> is_digit c \<or> (of_char c :: nat) \<in> {97..102}"
proof -
  have "(of_char b :: nat) < 256" by simp
  then have "(of_char b :: nat) div 16 < 16" "(of_char b :: nat) mod 16 < 16" by linarith+
  then have "\<forall>d \<in> {of_char b div 16, of_char b mod 16}.
      is_digit (hex_digit d) \<or> (of_char (hex_digit d) :: nat) \<in> {97..102}"
    using hex_digit_range by blast
  then show "c \<in> set (hex_byte b) \<Longrightarrow> ?thesis"
    unfolding hex_byte_def Let_def by auto
qed

lemma EncodeToString_no_dot: "CHR ''.'' \<notin> set (EncodeToString bs)"
  by (auto simp: EncodeToString_def is_digit_def dest: hex_byte_chars)

lemma hex_digit_inject: "a < 16 \<Longrightarrow> b < 16 \<Longrightarrow> hex_digit a = hex_digit b \<Longrightarrow> a = b"
  by (drule arg_cong [of _ _ "of_char :: char \<Rightarrow> nat"]) (auto simp: hex_digit_def split: if_splits)

lemma hex_byte_inject: "hex_byte a = hex_byte b \<Longrightarrow> a = b"
proof -
  assume eq: "hex_byte a = hex_byte b"
  let ?x = "of_char a :: nat" and ?y = "of_char b :: nat"
  have "?x < 256" "?y < 256" by simp_all
  then have "?x div 16 < 16" "?y div 16 < 16" by linarith+
  with eq have "?x div 16 = ?y div 16" "?x mod 16 = ?y mod 16"
    by (auto simp: hex_byte_def Let_def intro: hex_digit_inject)
  then have "?x = ?y" by (metis div_mult_mod_eq)
  then show "a = b" by simp
qed

lemma EncodeToString_inject: "EncodeToString a = EncodeToString b \<Longrightarrow> a = b"
proof (induction a arbitrary: b)
  case Nil
  then show ?case by (cases b) (auto simp: EncodeToString_def hex_byte_def Let_def)
next
  case (Cons x a)
  then obtain y c where b: "b = y # c"
    by (cases b) (auto simp: EncodeToString_def hex_byte_def Let_def)
  with Cons.prems have "hex_byte x = hex_byte y" and "EncodeToString a = EncodeToString c"
    by (auto simp: EncodeToString_def append_eq_append_conv)
  with b Cons.IH show ?case by (auto dest: hex_byte_inject)
qed

lemma digit_char_inject: "a < 10 \<Longrightarrow> b < 10 \<Longrightarrow> digit_char a = digit_char b \<Longrightarrow> a = b"
  by (drule arg_cong [of _ _ "of_char :: char \<Rightarrow> nat"]) (simp add: digit_char_def)

lemma itoa_nat_inject: "itoa_nat a = itoa_nat b \<Longrightarrow> a = b"
proof (induction a arbitrary: b rule: itoa_nat.induct)
  case (1 n)
  consider "n < 10" "b < 10" | "n < 10" "\<not> b < 10" | "\<not> n < 10" "b < 10" | "\<not> n < 10" "\<not> b < 10"
    by blast
  then show ?case
  proof cases
    case 4
    with "1.prems" have "itoa_nat (n div 10) = itoa_nat (b div 10)"
      and "digit_char (n mod 10) = digit_char (b mod 10)"
      by (simp_all add: itoa_nat.simps [of n] itoa_nat.simps [of b])
    with "1.IH" 4 have "n div 10 = b div 10" "n mod 10 = b mod 10"
      by (auto intro: digit_char_inject)
    then show ?thesis by (metis div_mult_mod_eq)
  qed (use "1.prems" in \<open>auto simp: itoa_nat.simps [of n] itoa_nat.simps [of b]
         append_eq_Cons_conv Cons_eq_append_conv intro: digit_char_inject\<close>)
qed

lemma Itoa_inject: "Itoa a = Itoa b \<Longrightarrow> a = b"
proof -
  assume eq: "Itoa a = Itoa b"
  have minus: "CHR ''-'' \<notin> set (itoa_nat n)" for n
    by (auto simp: is_digit_def dest: itoa_nat_digits)
  have "CHR ''-'' # x \<noteq> itoa_nat n" "itoa_nat n \<noteq> CHR ''-'' # x" for x n
    using minus [of n] by (metis list.set_intros(1))+
  then show ?thesis using eq
    by (auto simp: Itoa_def split: if_splits dest!: itoa_nat_inject)
qed

lemma split_key:
  assumes "CHR ''.'' \<notin> set name"
  shows "split_on (CHR ''.'') (name @ ''.v'' @ Itoa v @ ''.'' @ EncodeToString buf) =
           [name, CHR ''v'' # Itoa v, EncodeToString buf]"
proof -
  have v: "CHR ''.'' \<notin> set (CHR ''v'' # Itoa v)" using Itoa_no_dot by auto
  have "split_on (CHR ''.'') (name @ CHR ''.'' # (CHR ''v'' # Itoa v) @ CHR ''.'' # EncodeToString buf)
          = [name, CHR ''v'' # Itoa v, EncodeToString buf]"
    by (simp only: split_on_append [OF assms] split_on_append [OF v]
          split_on_no_sep [OF EncodeToString_no_dot])
  then show ?thesis by simp
qed

lemma newVersionKey_inject:
  assumes "CHR ''.'' \<notin> set n" and "CHR ''.'' \<notin> set n'"
    and "newVersionKey (Ok b) n v = newVersionKey (Ok b') n' v'"
  shows "n = n' \<and> v = v' \<and> b = b'"
proof -
  let ?key = "\<lambda>n v b. n @ ''.v'' @ Itoa v @ ''.'' @ EncodeToString b"
  have "?key n v b = ?key n' v' b'" using assms(3) by (simp add: newVersionKey_def)
  then have "split_on (CHR ''.'') (?key n v b) = split_on (CHR ''.'') (?key n' v' b')" by (rule arg_cong)
  then have "n = n'" "Itoa v = Itoa v'" "EncodeToString b = EncodeToString b'"
    unfolding split_key [OF assms(1)] split_key [OF assms(2)] by simp_all
  then show ?thesis by (auto dest: Itoa_inject EncodeToString_inject)
qed

end
