(* ===== verification/Kube.thy ===== *)
theory Kube
  imports Api_Types
begin

section \<open>The Kubernetes client as a parameter\<close>

text \<open>
  The API server and its client library are not part of the repository.  The components take the
  calls they make as arguments: a lister for \<open>List\<close>, and functions on an abstract state for
  \<open>Get\<close>, \<open>Create\<close>, \<open>Update\<close> and \<open>Delete\<close>.  An API error is its reason and its text, which is
  what \<open>apierrors.IsNotFound\<close>, \<open>apierrors.IsAlreadyExists\<close> and \<open>Error()\<close> read.

  \<open>faithful_list\<close> is what the sources rely on: a \<open>List\<close> in a namespace returns the objects of that
  namespace that carry the requested label value, and nothing else.
\<close>

datatype kerr = KNotFound string | KAlreadyExists string | KConflict string | KOther string

fun kerr_Error :: "kerr \<Rightarrow> string" where
  "kerr_Error (KNotFound m) = m"
| "kerr_Error (KAlreadyExists m) = m"
| "kerr_Error (KConflict m) = m"
| "kerr_Error (KOther m) = m"

fun IsNotFound :: "kerr \<Rightarrow> bool" where
  "IsNotFound (KNotFound _) = True"
| "IsNotFound _ = False"

fun IsAlreadyExists :: "kerr \<Rightarrow> bool" where
  "IsAlreadyExists (KAlreadyExists _) = True"
| "IsAlreadyExists _ = False"

text \<open>\<open>List(ns)\<close> with an optional \<open>MatchingLabels\<close> requirement.\<close>

type_synonym selector = "(string \<times> string) option"
type_synonym lister = "string \<Rightarrow> selector \<Rightarrow> (kerr, VibedApp list) result"

definition sel_match :: "selector \<Rightarrow> VibedApp \<Rightarrow> bool" where
  "sel_match sel a \<longleftrightarrow> (case sel of None \<Rightarrow> True | Some (k, v) \<Rightarrow> app_Labels a k = Some v)"

definition list_of :: "VibedApp list \<Rightarrow> lister" where
  "list_of apps ns sel = Ok (filter (\<lambda>a. app_Namespace a = ns \<and> sel_match sel a) apps)"

definition faithful_list :: "lister \<Rightarrow> VibedApp list \<Rightarrow> bool" where
  "faithful_list L apps \<longleftrightarrow> (\<forall>ns sel. L ns sel = list_of apps ns sel)"

text \<open>The deploy path stamps the sanitized owner as a label on every app it writes.\<close>

definition owner_labelled :: "VibedApp \<Rightarrow> bool" where
  "owner_labelled a \<longleftrightarrow> app_Labels a LabelOwner = Some (SanitizeLabel (spec_Owner (app_Spec a)))"

lemma faithful_listD: "faithful_list L apps \<Longrightarrow> L ns sel = list_of apps ns sel"
  by (simp add: faithful_list_def)

lemma faithful_list_of [simp]: "faithful_list (list_of apps) apps"
  by (simp add: faithful_list_def)

text \<open>The label is a lossless pre-filter for the exact owner comparison: it can only return too
  much, and the exact comparison removes the rest.\<close>

lemma owner_prefilter:
  assumes "list_all owner_labelled apps"
  shows "filter (\<lambda>a. spec_Owner (app_Spec a) = owner)
           (filter (\<lambda>a. app_Namespace a = ns \<and>
              sel_match (Some (LabelOwner, SanitizeLabel owner)) a) apps) =
         filter (\<lambda>a. app_Namespace a = ns \<and> spec_Owner (app_Spec a) = owner) apps"
  using assms by (induction apps) (auto simp: sel_match_def owner_labelled_def)

subsection \<open>Sandbox claims\<close>

text \<open>
  The claim of a warm-pool pod, an object of agent-sandbox that the controller reads and writes as an
  unstructured document: a nested field is of the wrong type, missing, or there.
\<close>

datatype 'a nested = NestedErr string | NestedMissing | Nested 'a

record OwnerReference =
  or_Kind :: string
  or_Name :: string
  or_UID :: string

record SandboxClaim =
  cl_Name :: string
  cl_Namespace :: string
  cl_Labels :: "string \<rightharpoonup> string"
  cl_CreationTimestamp :: time
  cl_OwnerReferences :: "OwnerReference list"
  cl_WarmPool :: string
  cl_Env :: "EnvVar list"
  cl_SandboxName :: "string nested"
  cl_PodIPs :: "string list nested"

text \<open>\<open>appLabelKey\<close> in \<open>src/internal/controller/cachescope.go\<close>, \<open>labelApp\<close> in \<open>src/internal/gc/collector.go\<close>.\<close>

definition labelApp :: string where
  "labelApp = ''vibed.dev/app''"

text \<open>A minimal app as the deploy path writes it, for concrete inputs.\<close>

definition sample_app :: "string \<Rightarrow> string \<Rightarrow> string \<Rightarrow> VibedApp" where
  "sample_app ns name owner =
     \<lparr>app_Name = name, app_Namespace = ns, app_UID = ''u1'', app_Generation = 1,
      app_Labels = [LabelOwner \<mapsto> SanitizeLabel owner], app_Versions = AnnMissing,
      app_DeletionTimestamp = None,
      app_Spec = \<lparr>spec_Owner = owner, spec_Source = \<lparr>source_TarballRef = ''http://s/k'', source_GitRef = ''''\<rparr>,
        spec_Runtime = \<lparr>rt_Lane = LaneFast, rt_Template = ''vibed-static-http'', rt_Entrypoint = '''', rt_Env = []\<rparr>,
        spec_Egress = \<lparr>egress_AllowedHosts = []\<rparr>, spec_Resources = empty_resources, spec_TTL = '''',
        spec_Suspended = False\<rparr>,
      app_Status = empty_status\<rparr>"

lemma sample_app_labelled [simp]: "owner_labelled (sample_app ns name owner)"
  by (simp add: owner_labelled_def sample_app_def)

lemma sample_app_fields [simp]:
  "app_Namespace (sample_app ns name owner) = ns" "app_Name (sample_app ns name owner) = name"
  "spec_Owner (app_Spec (sample_app ns name owner)) = owner"
  by (simp_all add: sample_app_def)

end
