(* ===== verification/Quota.thy ===== *)
theory Quota
  imports Kube
begin

section \<open>The quota enforcer\<close>

text \<open>
  \<open>src/internal/quota/enforcer.go\<close>: ceilings per tenant, owner and department for new deploys.  A
  reservation covers the window between counting the live apps and the new app becoming visible to
  \<open>List\<close>.  The state is the enforcer's reservation table, its id counter and the rejection
  counters; a \<open>release\<close> closure is the pair of the key and the id it deletes.  Reservation ids are
  natural numbers (the counter is a \<open>uint64\<close> that grows by one per reservation).  The calls on the API server and the
  user store are arguments.

  The interface \<open>reservation_table\<close> states what a client of the table relies on; the enforcer's
  table implements it for every instant.  The last part runs whole deploys against each other as
  a step relation.
\<close>

subsection \<open>State\<close>

datatype resKey = ResKey (rk_ns: string) (rk_scope: string) (rk_id: string)

record QuotasConfig =
  q_MaxAppsPerOwner :: int
  q_MaxAppsPerDepartment :: int
  q_PerDepartment :: "string \<rightharpoonup> int"

record Enforcer =
  enf_namespace :: string
  enf_cfg :: QuotasConfig
  enf_reservationTTL :: duration
  enf_nextResID :: nat
  enf_reservations :: "resKey \<rightharpoonup> (nat \<times> time) list"
  enf_rejections :: "string \<Rightarrow> nat"

datatype quota_error =
    ExceededError (qe_Scope: string) (qe_Tenant: string) (qe_Owner: string)
      (qe_Department: string) (qe_Limit: int) (qe_Current: int)
  | CountError string kerr

text \<open>The slice of the user store the enforcer needs; \<open>None\<close> is a nil resolver.\<close>

record UserResolver =
  ur_GetUser :: "string \<Rightarrow> (string, User option) result"
  ur_GetDepartment :: "string \<Rightarrow> (string, Department option) result"

definition defaultReservationTTL :: duration where
  "defaultReservationTTL = 2 * minute"

definition NewEnforcer :: "string \<Rightarrow> QuotasConfig \<Rightarrow> Enforcer" where
  "NewEnforcer namespace cfg =
     \<lparr>enf_namespace = namespace, enf_cfg = cfg, enf_reservationTTL = defaultReservationTTL,
      enf_nextResID = 0, enf_reservations = Map.empty, enf_rejections = (\<lambda>_. 0)\<rparr>"

subsection \<open>Reservations\<close>

definition reservedCountLocked :: "Enforcer \<Rightarrow> resKey \<Rightarrow> time \<Rightarrow> Enforcer \<times> int" where
  "reservedCountLocked e key now = (case enf_reservations e key of
      None \<Rightarrow> (e, 0)
    | Some m \<Rightarrow>
        let m' = filter (\<lambda>(rid, exp). \<not> exp \<le> now) m in
        if m' = [] then (e\<lparr>enf_reservations := (enf_reservations e)(key := None)\<rparr>, 0)
        else (e\<lparr>enf_reservations := (enf_reservations e)(key \<mapsto> m')\<rparr>, int (length m')))"

text \<open>The part of \<open>tryReserve\<close> that records a reservation.\<close>

definition addReservation :: "Enforcer \<Rightarrow> resKey \<Rightarrow> time \<Rightarrow> Enforcer \<times> nat" where
  "addReservation e key now =
     (let rid = enf_nextResID e + 1;
          m = (case enf_reservations e key of None \<Rightarrow> [] | Some m \<Rightarrow> m);
          m' = (rid, now + enf_reservationTTL e) # filter (\<lambda>(i, _). i \<noteq> rid) m
      in (e\<lparr>enf_nextResID := rid, enf_reservations := (enf_reservations e)(key \<mapsto> m')\<rparr>, rid))"

text \<open>\<open>None\<close> as the id is \<open>ok = false\<close>.\<close>

definition tryReserve ::
  "Enforcer \<Rightarrow> resKey \<Rightarrow> int \<Rightarrow> int \<Rightarrow> time \<Rightarrow> Enforcer \<times> int \<times> nat option" where
  "tryReserve e key listed mx now =
     (let (e1, reserved) = reservedCountLocked e key now; tot = listed + reserved in
      if tot \<ge> mx then (e1, tot, None)
      else let (e2, rid) = addReservation e1 key now in (e2, tot + 1, Some rid))"

definition release :: "resKey \<Rightarrow> nat \<Rightarrow> Enforcer \<Rightarrow> Enforcer" where
  "release key rid e = (case enf_reservations e key of
      None \<Rightarrow> e
    | Some mm \<Rightarrow>
        let mm' = filter (\<lambda>(i, _). i \<noteq> rid) mm in
        if mm' = [] then e\<lparr>enf_reservations := (enf_reservations e)(key := None)\<rparr>
        else e\<lparr>enf_reservations := (enf_reservations e)(key \<mapsto> mm')\<rparr>)"

text \<open>\<open>releaseAll\<close> runs the collected releases last to first.\<close>

definition releaseAll :: "(resKey \<times> nat) list \<Rightarrow> Enforcer \<Rightarrow> Enforcer" where
  "releaseAll rels e = fold (\<lambda>(k, i). release k i) (rev rels) e"

subsection \<open>Counting\<close>

definition countByOwner :: "lister \<Rightarrow> string \<Rightarrow> string \<Rightarrow> (quota_error, int) result" where
  "countByOwner L namespace owner = (case L namespace (Some (LabelOwner, SanitizeLabel owner)) of
      Err er \<Rightarrow> Err (CountError ''owner'' er)
    | Ok items \<Rightarrow> Ok (int (length (filter (\<lambda>a. spec_Owner (app_Spec a) = owner) items))))"

definition count :: "lister \<Rightarrow> string \<Rightarrow> string \<Rightarrow> string \<Rightarrow> (quota_error, int) result" where
  "count L namespace key val = (case L namespace (Some (key, val)) of
      Err er \<Rightarrow> Err (CountError key er) | Ok items \<Rightarrow> Ok (int (length items)))"

definition countAll :: "lister \<Rightarrow> string \<Rightarrow> (quota_error, int) result" where
  "countAll L namespace = (case L namespace None of
      Err er \<Rightarrow> Err (CountError ''all'' er) | Ok items \<Rightarrow> Ok (int (length items)))"

definition departmentFor :: "UserResolver option \<Rightarrow> string \<Rightarrow> string" where
  "departmentFor users owner = (case users of
      None \<Rightarrow> ''''
    | Some u \<Rightarrow> (case ur_GetUser u owner of
        Err _ \<Rightarrow> ''''
      | Ok None \<Rightarrow> ''''
      | Ok (Some usr) \<Rightarrow>
          if user_DepartmentID usr = '''' then ''''
          else (case ur_GetDepartment u (user_DepartmentID usr) of
              Err _ \<Rightarrow> '''' | Ok None \<Rightarrow> '''' | Ok (Some d) \<Rightarrow> dept_Name d)))"

definition deptCeiling :: "Enforcer \<Rightarrow> string \<Rightarrow> int" where
  "deptCeiling e dept = (case q_PerDepartment (enf_cfg e) dept of
      Some v \<Rightarrow> v | None \<Rightarrow> q_MaxAppsPerDepartment (enf_cfg e))"

subsection \<open>Authorize\<close>

definition rejected :: "string \<Rightarrow> Enforcer \<Rightarrow> Enforcer" where
  "rejected scope e =
     e\<lparr>enf_rejections := (enf_rejections e)(scope := enf_rejections e scope + 1)\<rparr>"

text \<open>
  One ceiling of \<open>Authorize\<close>: nothing when the ceiling is off, else count, reserve, and on an error
  or a full ceiling give back every reservation taken so far.
\<close>

definition ceiling ::
  "bool \<Rightarrow> int \<Rightarrow> (quota_error, int) result \<Rightarrow> resKey \<Rightarrow> (int \<Rightarrow> quota_error) \<Rightarrow> time \<Rightarrow>
   Enforcer \<times> (resKey \<times> nat) list \<Rightarrow>
   Enforcer \<times> (quota_error, (resKey \<times> nat) list) result" where
  "ceiling active mx counted key exceeded now st =
     (let (e, rels) = st in
      if active \<and> mx > 0 then
        (case counted of
           Err er \<Rightarrow> (releaseAll rels e, Err er)
         | Ok n \<Rightarrow>
            (case tryReserve e key n mx now of
               (e1, tot, None) \<Rightarrow> (rejected (rk_scope key) (releaseAll rels e1), Err (exceeded tot))
             | (e1, tot, Some rid) \<Rightarrow> (e1, Ok (rels @ [(key, rid)]))))
      else (e, Ok rels))"

definition Authorize ::
  "lister \<Rightarrow> UserResolver option \<Rightarrow> Enforcer \<Rightarrow> Tenant \<Rightarrow> string \<Rightarrow> bool \<Rightarrow> time \<Rightarrow>
   Enforcer \<times> string \<times> (quota_error, (resKey \<times> nat) list) result" where
  "Authorize L users e t owner isNew now =
     (let ns = (if tenant_Namespace t = '''' then enf_namespace e else tenant_Namespace t);
          department = departmentFor users owner
      in if \<not> isNew then (e, department, Ok []) else
      (let mxT = lim_MaxApps (tenant_Limits t); mxO = q_MaxAppsPerOwner (enf_cfg e);
           mxD = deptCeiling e department in
       case ceiling True mxT (countAll L ns) (ResKey ns ''tenant'' (tenant_ID t))
              (\<lambda>c. ExceededError ''tenant'' (tenant_ID t) '''' '''' mxT c) now (e, []) of
         (e1, Err er) \<Rightarrow> (e1, department, Err er)
       | (e1, Ok r1) \<Rightarrow>
          (case ceiling True mxO (countByOwner L ns owner) (ResKey ns ''owner'' owner)
                  (\<lambda>c. ExceededError ''owner'' '''' owner '''' mxO c) now (e1, r1) of
             (e2, Err er) \<Rightarrow> (e2, department, Err er)
           | (e2, Ok r2) \<Rightarrow>
              (case ceiling (department \<noteq> '''') mxD
                      (count L ns LabelDepartment (SanitizeLabel department))
                      (ResKey ns ''department'' department)
                      (\<lambda>c. ExceededError ''department'' '''' '''' department mxD c) now (e2, r2) of
                 (e3, Err er) \<Rightarrow> (e3, department, Err er)
               | (e3, Ok r3) \<Rightarrow> (e3, department, Ok r3)))))"

subsection \<open>The reservation table as an interface\<close>

locale reservation_table =
  fixes live :: "'s \<Rightarrow> 'k \<Rightarrow> nat set"
    and invar :: "'s \<Rightarrow> bool"
    and acquire :: "'s \<Rightarrow> 'k \<Rightarrow> 's \<times> nat"
    and give_back :: "'k \<Rightarrow> nat \<Rightarrow> 's \<Rightarrow> 's"
  assumes acquire_invar: "invar s \<Longrightarrow> invar (fst (acquire s k))"
    and acquire_fresh: "invar s \<Longrightarrow> snd (acquire s k) \<notin> live s k'"
    and acquire_live: "invar s \<Longrightarrow>
      live (fst (acquire s k)) k' = (if k' = k then insert (snd (acquire s k)) (live s k) else live s k')"
    and give_back_invar: "invar s \<Longrightarrow> invar (give_back k i s)"
    and give_back_live: "invar s \<Longrightarrow>
      live (give_back k i s) k' = (if k' = k then live s k - {i} else live s k')"
begin

lemma give_back_all_invar: "invar s \<Longrightarrow> invar (fold (\<lambda>(k, i). give_back k i) rels s)"
  by (induction rels arbitrary: s) (auto simp: give_back_invar)

lemma give_back_all_live:
  "invar s \<Longrightarrow> live (fold (\<lambda>(k, i). give_back k i) rels s) k = live s k - {i. (k, i) \<in> set rels}"
proof (induction rels arbitrary: s)
  case (Cons r rels)
  obtain k' i where "r = (k', i)" by (cases r)
  with Cons show ?case by (auto simp: give_back_invar give_back_live)
qed simp

text \<open>Giving a reservation back undoes acquiring it, for every key.\<close>

lemma acquire_give_back: "invar s \<Longrightarrow> acquire s k = (s', i) \<Longrightarrow> live (give_back k i s') k' = live s k'"
  using acquire_invar [of s k] acquire_live [of s k] acquire_fresh [of s k k] give_back_live [of s' k i k']
  by auto

text \<open>Giving back twice is giving back once.\<close>

lemma give_back_idem: "invar s \<Longrightarrow> live (give_back k i (give_back k i s)) k' = live (give_back k i s) k'"
  by (simp add: give_back_live give_back_invar)

end

definition res_list :: "Enforcer \<Rightarrow> resKey \<Rightarrow> (nat \<times> time) list" where
  "res_list e k = (case enf_reservations e k of None \<Rightarrow> [] | Some m \<Rightarrow> m)"

text \<open>The ids that still count against \<open>k\<close> at \<open>now\<close>.\<close>

definition live_ids :: "time \<Rightarrow> Enforcer \<Rightarrow> resKey \<Rightarrow> nat set" where
  "live_ids now e k = {i. \<exists>exp. (i, exp) \<in> set (res_list e k) \<and> now < exp}"

text \<open>Ids are unique per key and never ahead of the counter, and reservations last.\<close>

definition enf_inv :: "Enforcer \<Rightarrow> bool" where
  "enf_inv e \<longleftrightarrow>
     0 < enf_reservationTTL e \<and>
     (\<forall>k. distinct (map fst (res_list e k))) \<and>
     (\<forall>k i exp. (i, exp) \<in> set (res_list e k) \<longrightarrow> i \<le> enf_nextResID e)"

lemma res_list_NewEnforcer [simp]: "res_list (NewEnforcer ns cfg) k = []"
  by (simp add: res_list_def NewEnforcer_def)

lemma NewEnforcer_inv: "enf_inv (NewEnforcer ns cfg)"
  by (simp add: enf_inv_def NewEnforcer_def res_list_def defaultReservationTTL_def minute_def second_def)

lemma res_list_release:
  "res_list (release k i e) k' =
     (if k' = k then filter (\<lambda>(j, _). j \<noteq> i) (res_list e k) else res_list e k')"
  by (auto simp: release_def res_list_def Let_def split: option.split)

lemma res_list_reservedCount:
  "res_list (fst (reservedCountLocked e k now)) k' =
     (if k' = k then filter (\<lambda>(j, exp). \<not> exp \<le> now) (res_list e k) else res_list e k')"
  by (auto simp: reservedCountLocked_def res_list_def Let_def split: option.split)

lemma reservedCount_value:
  "snd (reservedCountLocked e k now) = int (length (filter (\<lambda>(j, exp). \<not> exp \<le> now) (res_list e k)))"
  by (auto simp: reservedCountLocked_def res_list_def Let_def split: option.split)

lemma res_list_add:
  "res_list (fst (addReservation e k now)) k' =
     (if k' = k
      then (enf_nextResID e + 1, now + enf_reservationTTL e) #
           filter (\<lambda>(i, _). i \<noteq> enf_nextResID e + 1) (res_list e k)
      else res_list e k')"
  by (auto simp: addReservation_def res_list_def Let_def split: option.split)

lemma snd_addReservation [simp]: "snd (addReservation e k now) = enf_nextResID e + 1"
  by (simp add: addReservation_def Let_def)

lemma scalars_add [frame]:
  "enf_nextResID (fst (addReservation e k now)) = enf_nextResID e + 1"
  "enf_reservationTTL (fst (addReservation e k now)) = enf_reservationTTL e"
  "enf_cfg (fst (addReservation e k now)) = enf_cfg e"
  "enf_rejections (fst (addReservation e k now)) = enf_rejections e"
  by (simp_all add: addReservation_def Let_def)

lemma scalars_release [frame]:
  "enf_nextResID (release k i e) = enf_nextResID e"
  "enf_reservationTTL (release k i e) = enf_reservationTTL e"
  "enf_cfg (release k i e) = enf_cfg e"
  "enf_rejections (release k i e) = enf_rejections e"
  by (simp_all add: release_def Let_def split: option.split)

lemma scalars_reservedCount [frame]:
  "enf_nextResID (fst (reservedCountLocked e k now)) = enf_nextResID e"
  "enf_reservationTTL (fst (reservedCountLocked e k now)) = enf_reservationTTL e"
  "enf_cfg (fst (reservedCountLocked e k now)) = enf_cfg e"
  "enf_rejections (fst (reservedCountLocked e k now)) = enf_rejections e"
  by (simp_all add: reservedCountLocked_def Let_def split: option.split)

lemma distinct_fst_filter: "distinct (map fst xs) \<Longrightarrow> distinct (map fst (filter P xs))"
  by (rule distinct_map_filter)

lemma enf_inv_release [inv_intros]: "enf_inv e \<Longrightarrow> enf_inv (release k i e)"
  by (auto simp: enf_inv_def res_list_release frame distinct_fst_filter)

lemma enf_inv_reservedCount [inv_intros]: "enf_inv e \<Longrightarrow> enf_inv (fst (reservedCountLocked e k now))"
  by (auto simp: enf_inv_def res_list_reservedCount frame distinct_fst_filter)

lemma enf_inv_idD: "enf_inv e \<Longrightarrow> (i, x) \<in> set (res_list e k) \<Longrightarrow> i \<le> enf_nextResID e"
  unfolding enf_inv_def by blast

lemma enf_inv_add [inv_intros]: "enf_inv e \<Longrightarrow> enf_inv (fst (addReservation e k now))"
  unfolding enf_inv_def [of "fst _"]
  by (auto simp: res_list_add frame dest: enf_inv_idD intro: le_SucI)
    (auto simp: enf_inv_def distinct_fst_filter)

lemma enf_inv_next_fresh: "enf_inv e \<Longrightarrow> (Suc (enf_nextResID e), x) \<notin> set (res_list e k)"
  using enf_inv_idD [of e "Suc (enf_nextResID e)" x k] by auto

interpretation res: reservation_table "live_ids now" enf_inv "\<lambda>e k. addReservation e k now" release
  for now
proof unfold_locales
  fix s :: Enforcer and k k' i
  assume inv: "enf_inv s"
  show "enf_inv (fst (addReservation s k now))" using inv by (rule enf_inv_add)
  show "snd (addReservation s k now) \<notin> live_ids now s k'"
    using enf_inv_next_fresh [OF inv] by (simp add: live_ids_def)
  show "live_ids now (fst (addReservation s k now)) k' =
      (if k' = k then insert (snd (addReservation s k now)) (live_ids now s k) else live_ids now s k')"
    using inv enf_inv_next_fresh [OF inv] unfolding live_ids_def res_list_add
    by (auto simp: enf_inv_def)
  show "enf_inv (release k i s)" using inv by (rule enf_inv_release)
  show "live_ids now (release k i s) k' =
      (if k' = k then live_ids now s k - {i} else live_ids now s k')"
    by (auto simp: live_ids_def res_list_release)
qed


subsection \<open>What a reservation guarantees\<close>

lemma live_reservedCount [simp]: "live_ids now (fst (reservedCountLocked e k now)) k' = live_ids now e k'"
  by (auto simp: live_ids_def res_list_reservedCount)

lemma card_live:
  assumes "enf_inv e"
  shows "snd (reservedCountLocked e k now) = int (card (live_ids now e k))"
proof -
  let ?l = "filter (\<lambda>(j, exp). \<not> exp \<le> now) (res_list e k)"
  have "distinct (map fst ?l)" using assms by (simp add: enf_inv_def distinct_fst_filter)
  then have "card (fst ` set ?l) = length ?l" by (metis distinct_card length_map set_map)
  moreover have "fst ` set ?l = live_ids now e k" by (force simp: live_ids_def)
  ultimately show ?thesis by (simp add: reservedCount_value)
qed

lemma finite_live: "finite (live_ids now e k)"
proof -
  have "live_ids now e k \<subseteq> fst ` set (res_list e k)" by (force simp: live_ids_def)
  then show ?thesis by (rule finite_subset) simp
qed

lemma tryReserve_Some:
  assumes "enf_inv e" and "tryReserve e k n mx now = (e', tot, Some rid)"
  shows "enf_inv e'" "n + int (card (live_ids now e k)) < mx"
    "tot = n + int (card (live_ids now e k)) + 1"
    "live_ids now e' k' = (if k' = k then insert rid (live_ids now e k) else live_ids now e k')"
    "rid \<notin> live_ids now e k'"
proof -
  let ?e1 = "fst (reservedCountLocked e k now)"
  have inv1: "enf_inv ?e1" using assms(1) by (rule enf_inv_reservedCount)
  have e': "e' = fst (addReservation ?e1 k now)" "rid = snd (addReservation ?e1 k now)"
    and lt: "n + snd (reservedCountLocked e k now) < mx"
    and t: "tot = n + snd (reservedCountLocked e k now) + 1"
    using assms(2)
    by (auto simp: tryReserve_def Let_def simp del: snd_addReservation split: prod.splits if_splits)
  show "enf_inv e'" unfolding e' using inv1 by (rule res.acquire_invar)
  show "n + int (card (live_ids now e k)) < mx" using lt by (simp add: card_live [OF assms(1)])
  show "tot = n + int (card (live_ids now e k)) + 1" using t by (simp add: card_live [OF assms(1)])
  show "live_ids now e' k' = (if k' = k then insert rid (live_ids now e k) else live_ids now e k')"
    unfolding e' by (simp add: res.acquire_live [OF inv1])
  show "rid \<notin> live_ids now e k'"
    unfolding e' using res.acquire_fresh [OF inv1, where now = now and k = k and k' = k'] by simp
qed

lemma tryReserve_None:
  assumes "enf_inv e" and "tryReserve e k n mx now = (e', tot, None)"
  shows "enf_inv e'" "live_ids now e' k' = live_ids now e k'"
    "tot = n + int (card (live_ids now e k))" "mx \<le> tot"
proof -
  have e': "e' = fst (reservedCountLocked e k now)"
    and t: "tot = n + snd (reservedCountLocked e k now)" "mx \<le> tot"
    using assms(2) by (auto simp: tryReserve_def Let_def split: prod.splits if_splits)
  show "enf_inv e'" unfolding e' using assms(1) by (rule enf_inv_reservedCount)
  show "live_ids now e' k' = live_ids now e k'" unfolding e' by simp
  show "tot = n + int (card (live_ids now e k))" "mx \<le> tot"
    using t by (simp_all add: card_live [OF assms(1)])
qed

lemma live_rejected [simp]: "live_ids now (rejected s e) k = live_ids now e k"
  by (simp add: live_ids_def res_list_def rejected_def)

lemma enf_inv_rejected [simp]: "enf_inv (rejected s e) = enf_inv e"
  by (simp add: enf_inv_def res_list_def rejected_def)

text \<open>While \<open>Authorize\<close> runs, the table is the one it started from plus what it holds.\<close>

definition holding :: "time \<Rightarrow> Enforcer \<Rightarrow> Enforcer \<Rightarrow> (resKey \<times> nat) list \<Rightarrow> bool" where
  "holding now e0 e rels \<longleftrightarrow> enf_inv e \<and>
     (\<forall>k. live_ids now e k = live_ids now e0 k \<union> {i. (k, i) \<in> set rels} \<and>
          live_ids now e0 k \<inter> {i. (k, i) \<in> set rels} = {})"

lemma holding_start: "enf_inv e \<Longrightarrow> holding now e e []"
  by (simp add: holding_def)

lemma holding_releaseAll:
  assumes "holding now e0 e rels"
  shows "enf_inv (releaseAll rels e)" "live_ids now (releaseAll rels e) k = live_ids now e0 k"
proof -
  have inv: "enf_inv e" using assms by (simp add: holding_def)
  show "enf_inv (releaseAll rels e)"
    unfolding releaseAll_def using inv by (rule res.give_back_all_invar)
  show "live_ids now (releaseAll rels e) k = live_ids now e0 k"
    unfolding releaseAll_def res.give_back_all_live [OF inv] using assms
    by (auto simp: holding_def)
qed

lemma holding_cong:
  "holding now e0 e rels \<Longrightarrow> enf_inv e' \<Longrightarrow> (\<And>k. live_ids now e' k = live_ids now e k) \<Longrightarrow>
   holding now e0 e' rels"
  by (simp add: holding_def)

lemma holding_reserve:
  assumes "holding now e0 e rels" and "tryReserve e k n mx now = (e', tot, Some rid)"
  shows "holding now e0 e' (rels @ [(k, rid)])"
proof -
  have inv: "enf_inv e" using assms(1) by (simp add: holding_def)
  note T = tryReserve_Some [OF inv assms(2)]
  show ?thesis using assms(1) T(1) T(4) T(5) by (auto simp: holding_def)
qed

lemma ceiling_Err:
  assumes "holding now e0 e rels" and "ceiling act mx counted k ex now (e, rels) = (e', Err er)"
  shows "enf_inv e' \<and> (\<forall>k'. live_ids now e' k' = live_ids now e0 k')"
proof -
  have inv: "enf_inv e" using assms(1) by (simp add: holding_def)
  consider "e' = releaseAll rels e"
    | e1 n tot where "tryReserve e k n mx now = (e1, tot, None)"
        "e' = rejected (rk_scope k) (releaseAll rels e1)"
    using assms(2) by (auto simp: ceiling_def split: if_splits sum.splits prod.splits option.splits)
  then show ?thesis
  proof cases
    case 1
    then show ?thesis using holding_releaseAll [OF assms(1)] by simp
  next
    case 2
    have "holding now e0 e1 rels"
      using assms(1) tryReserve_None(1,2) [OF inv 2(1)] by (rule holding_cong)
    then show ?thesis using 2(2) holding_releaseAll by simp
  qed
qed

lemma ceiling_Ok:
  assumes "holding now e0 e rels" and "ceiling act mx counted k ex now (e, rels) = (e', Ok rels')"
  shows "holding now e0 e' rels'"
    "act \<Longrightarrow> 0 < mx \<Longrightarrow> \<exists>n. counted = Ok n \<and> n + int (card (live_ids now e k)) < mx"
proof -
  have inv: "enf_inv e" using assms(1) by (simp add: holding_def)
  have cases: "(e' = e \<and> rels' = rels \<and> \<not> (act \<and> mx > 0)) \<or>
    (\<exists>n tot rid. counted = Ok n \<and> tryReserve e k n mx now = (e', tot, Some rid) \<and> rels' = rels @ [(k, rid)])"
    using assms(2) by (auto simp: ceiling_def split: if_splits sum.splits prod.splits option.splits)
  show "holding now e0 e' rels'" using cases assms(1) holding_reserve by blast
  show "act \<Longrightarrow> 0 < mx \<Longrightarrow> \<exists>n. counted = Ok n \<and> n + int (card (live_ids now e k)) < mx"
    using cases tryReserve_Some(2) [OF inv] by blast
qed

text \<open>Live reservations of a key not yet reserved are those of the start.\<close>

lemma holding_card_mono:
  assumes "holding now e0 e rels"
  shows "card (live_ids now e0 k) \<le> card (live_ids now e k)"
  using assms by (intro card_mono finite_live) (auto simp: holding_def)

subsection \<open>Authorize as a whole\<close>

lemma ceiling_exceeded:
  assumes "holding now e0 e rels" and "ceiling act mx counted k ex now (e, rels) = (e', Err er)"
  shows "(\<exists>c. er = ex c \<and> 0 < mx \<and> mx \<le> c) \<or> counted = Err er"
proof -
  have inv: "enf_inv e" using assms(1) by (simp add: holding_def)
  show ?thesis using assms(2) tryReserve_None(4) [OF inv]
    by (auto simp: ceiling_def split: if_splits sum.splits prod.splits option.splits)
qed

lemma count_no_exceeded:
  "countAll L ns \<noteq> Err (ExceededError sc tn ow dp lim cur)"
  "countByOwner L ns owner \<noteq> Err (ExceededError sc tn ow dp lim cur)"
  "count L ns k v \<noteq> Err (ExceededError sc tn ow dp lim cur)"
  by (auto simp: countAll_def countByOwner_def count_def split: sum.splits)

text \<open>The three ceilings of a new deploy, in the order they are tried.\<close>

definition auth_ns :: "Enforcer \<Rightarrow> Tenant \<Rightarrow> string" where
  "auth_ns e t = (if tenant_Namespace t = '''' then enf_namespace e else tenant_Namespace t)"

text \<open>The three ceilings of \<open>Authorize\<close>, in its order.\<close>

definition tenant_ceiling where
  "tenant_ceiling L e t now st = ceiling True (lim_MaxApps (tenant_Limits t)) (countAll L (auth_ns e t))
     (ResKey (auth_ns e t) ''tenant'' (tenant_ID t))
     (\<lambda>c. ExceededError ''tenant'' (tenant_ID t) '''' '''' (lim_MaxApps (tenant_Limits t)) c) now st"

definition owner_ceiling where
  "owner_ceiling L e t owner now st =
     ceiling True (q_MaxAppsPerOwner (enf_cfg e)) (countByOwner L (auth_ns e t) owner)
       (ResKey (auth_ns e t) ''owner'' owner)
       (\<lambda>c. ExceededError ''owner'' '''' owner '''' (q_MaxAppsPerOwner (enf_cfg e)) c) now st"

definition department_ceiling where
  "department_ceiling L e t d now st = ceiling (d \<noteq> '''') (deptCeiling e d)
       (count L (auth_ns e t) LabelDepartment (SanitizeLabel d)) (ResKey (auth_ns e t) ''department'' d)
       (\<lambda>c. ExceededError ''department'' '''' '''' d (deptCeiling e d) c) now st"

lemmas ceilings = tenant_ceiling_def owner_ceiling_def department_ceiling_def

lemma Authorize_new:
  "Authorize L users e t owner True now =
     (let d = departmentFor users owner in
      case tenant_ceiling L e t now (e, []) of (e1, Err er) \<Rightarrow> (e1, d, Err er) | (e1, Ok r1) \<Rightarrow>
      (case owner_ceiling L e t owner now (e1, r1) of (e2, Err er) \<Rightarrow> (e2, d, Err er) | (e2, Ok r2) \<Rightarrow>
      (case department_ceiling L e t d now (e2, r2) of (e3, res) \<Rightarrow> (e3, d, res))))"
  by (auto simp: Authorize_def ceilings auth_ns_def Let_def split: prod.splits sum.splits)

lemma Authorize_update:
  "Authorize L users e t owner False now = (e, departmentFor users owner, Ok [])"
  by (simp add: Authorize_def Let_def)

lemma Authorize_cases:
  assumes "Authorize L users e t owner isNew now = (e', d, res)"
  obtains (update) "\<not> isNew" "e' = e" "res = Ok []"
  | (tenant) er where "isNew" "res = Err er" "tenant_ceiling L e t now (e, []) = (e', Err er)"
  | (owner) e1 r1 er where "isNew" "res = Err er" "tenant_ceiling L e t now (e, []) = (e1, Ok r1)"
      "owner_ceiling L e t owner now (e1, r1) = (e', Err er)"
  | (department) e1 r1 e2 r2 where "isNew" "tenant_ceiling L e t now (e, []) = (e1, Ok r1)"
      "owner_ceiling L e t owner now (e1, r1) = (e2, Ok r2)"
      "department_ceiling L e t d now (e2, r2) = (e', res)" "d = departmentFor users owner"
proof (cases isNew)
  case False
  with assms update show thesis by (simp add: Authorize_update)
next
  case True
  from assms True have "Authorize L users e t owner True now = (e', d, res)" by simp
  note A = this [unfolded Authorize_new Let_def]
  obtain e1 x1 where 1: "tenant_ceiling L e t now (e, []) = (e1, x1)" by fastforce
  show thesis
  proof (cases x1)
    case (Inl er)
    with A 1 True show thesis by (auto intro: tenant)
  next
    case (Inr r1)
    obtain e2 x2 where 2: "owner_ceiling L e t owner now (e1, r1) = (e2, x2)" by fastforce
    show thesis
    proof (cases x2)
      case Inl
      with A 1 2 Inr True show thesis by (auto intro: owner)
    next
      case (Inr r2)
      with A 1 2 \<open>x1 = Inr r1\<close> True show thesis
        by (intro department [of e1 r1 e2 r2]) (auto split: prod.splits)
    qed
  qed
qed

text \<open>What an admitted new deploy was checked against, ceiling by ceiling.\<close>

lemma Authorize_Ok:
  assumes "enf_inv e" "Authorize L users e t owner isNew now = (e', d, Ok rels)"
  shows "holding now e e' rels"
proof -
  note start = holding_start [OF assms(1), of now]
  from assms(2) show ?thesis
  proof (cases rule: Authorize_cases)
    case update
    with start show ?thesis by simp
  next
    case (department e1 r1 e2 r2)
    show ?thesis
      by (rule ceiling_Ok(1) [OF ceiling_Ok(1) [OF ceiling_Ok(1) [OF start department(2) [unfolded ceilings]]
            department(3) [unfolded ceilings]] department(4) [unfolded ceilings]])
  qed simp_all
qed

lemma Authorize_Err:
  assumes "enf_inv e" "Authorize L users e t owner isNew now = (e', d, Err er)"
  shows "enf_inv e' \<and> (\<forall>k. live_ids now e' k = live_ids now e k)"
proof -
  note start = holding_start [OF assms(1), of now]
  from assms(2) show ?thesis
  proof (cases rule: Authorize_cases)
    case (tenant er')
    show ?thesis using ceiling_Err [OF start tenant(3) [unfolded ceilings]] .
  next
    case (owner e1 r1 er')
    show ?thesis
      using ceiling_Err [OF ceiling_Ok(1) [OF start owner(3) [unfolded ceilings]] owner(4) [unfolded ceilings]] .
  next
    case (department e1 r1 e2 r2)
    show ?thesis
      using ceiling_Err [OF ceiling_Ok(1) [OF ceiling_Ok(1) [OF start department(2) [unfolded ceilings]]
            department(3) [unfolded ceilings]] department(4) [unfolded ceilings]] .
  qed simp
qed

lemma Authorize_Exceeded:
  assumes "enf_inv e"
    and "Authorize L users e t owner isNew now = (e', d, Err (ExceededError sc tn ow dp lim cur))"
  shows "isNew \<and> 0 < lim \<and> lim \<le> cur"
proof -
  note start = holding_start [OF assms(1), of now]
  from assms(2) show ?thesis
  proof (cases rule: Authorize_cases)
    case (tenant er')
    show ?thesis
      using ceiling_exceeded [OF start tenant(3) [unfolded ceilings]] tenant(1,2) count_no_exceeded by auto
  next
    case (owner e1 r1 er')
    show ?thesis
      using ceiling_exceeded [OF ceiling_Ok(1) [OF start owner(3) [unfolded ceilings]]
          owner(4) [unfolded ceilings]] owner(1,2) count_no_exceeded by auto
  next
    case (department e1 r1 e2 r2)
    show ?thesis
      using ceiling_exceeded [OF ceiling_Ok(1) [OF ceiling_Ok(1) [OF start department(2) [unfolded ceilings]]
            department(3) [unfolded ceilings]] department(4) [unfolded ceilings]]
        department(1) count_no_exceeded by auto
  qed simp
qed

text \<open>C15: A deploy the enforcer turns away, for a full ceiling or because a count failed, leaves
  the reservations that count against every ceiling exactly as they were: whatever was reserved on
  the way is given back.\<close>

theorem authorize_reject_restores:
  assumes "enf_inv e" and "Authorize L users e t owner isNew now = (e', d, Err er)"
  shows "enf_inv e' \<and> (\<forall>k. live_ids now e' k = live_ids now e k)"
  using assms by (rule Authorize_Err)

text \<open>An admitted deploy holds exactly the reservations it returns, on top of those already
  there, and invoking the returned release gives all of them back.\<close>

theorem authorize_holds_until_release:
  assumes "enf_inv e" and "Authorize L users e t owner isNew now = (e', d, Ok rels)"
  shows "enf_inv e' \<and>
    (\<forall>k. live_ids now e' k = live_ids now e k \<union> {i. (k, i) \<in> set rels} \<and>
         live_ids now e k \<inter> {i. (k, i) \<in> set rels} = {} \<and>
         live_ids now (releaseAll rels e') k = live_ids now e k)"
  using Authorize_Ok [OF assms] holding_releaseAll (2) [OF Authorize_Ok [OF assms]]
  by (simp add: holding_def)

text \<open>A deploy is only rejected as over quota when it is a new app, the reported ceiling is on
  and the reported count has reached it.\<close>

theorem authorize_rejects_only_at_ceiling:
  assumes "enf_inv e"
    and "Authorize L users e t owner isNew now = (e', d, Err (ExceededError sc tn ow dp lim cur))"
  shows "isNew \<and> 0 < lim \<and> lim \<le> cur"
  using assms by (rule Authorize_Exceeded)

lemma Authorize_owner_room:
  assumes "enf_inv e" "Authorize L users e t owner True now = (e', d, Ok rels)"
    and "faithful_list L apps" "list_all owner_labelled apps" "0 < q_MaxAppsPerOwner (enf_cfg e)"
  shows "int (length (filter (\<lambda>a. app_Namespace a = auth_ns e t \<and> spec_Owner (app_Spec a) = owner) apps))
         + int (card (live_ids now e (ResKey (auth_ns e t) ''owner'' owner))) < q_MaxAppsPerOwner (enf_cfg e)"
proof -
  note start = holding_start [OF assms(1), of now]
  let ?n = "int (length (filter (\<lambda>a. app_Namespace a = auth_ns e t \<and> spec_Owner (app_Spec a) = owner) apps))"
  have n: "countByOwner L (auth_ns e t) owner = Ok ?n"
    using owner_prefilter [OF assms(4)] faithful_listD [OF assms(3)]
    by (simp add: countByOwner_def list_of_def)
  from assms(2) show ?thesis
  proof (cases rule: Authorize_cases)
    case (department e1 r1 e2 r2)
    have h: "holding now e e1 r1" using ceiling_Ok(1) [OF start department(2) [unfolded ceilings]] .
    from ceiling_Ok(2) [OF h department(3) [unfolded ceilings]] assms(5) n
    have "?n + int (card (live_ids now e1 (ResKey (auth_ns e t) ''owner'' owner))) < q_MaxAppsPerOwner (enf_cfg e)"
      by simp
    then show ?thesis
      using holding_card_mono [OF h, of "ResKey (auth_ns e t) ''owner'' owner"] by linarith
  qed simp_all
qed

lemma Authorize_tenant_room:
  assumes "enf_inv e" "Authorize L users e t owner True now = (e', d, Ok rels)"
    and "faithful_list L apps" "0 < lim_MaxApps (tenant_Limits t)"
  shows "int (length (filter (\<lambda>a. app_Namespace a = auth_ns e t) apps))
         + int (card (live_ids now e (ResKey (auth_ns e t) ''tenant'' (tenant_ID t)))) < lim_MaxApps (tenant_Limits t)"
proof -
  note start = holding_start [OF assms(1), of now]
  have n: "countAll L (auth_ns e t) = Ok (int (length (filter (\<lambda>a. app_Namespace a = auth_ns e t) apps)))"
    using faithful_listD [OF assms(3)] by (simp add: countAll_def list_of_def sel_match_def)
  from assms(2) show ?thesis
  proof (cases rule: Authorize_cases)
    case (department e1 r1 e2 r2)
    from ceiling_Ok(2) [OF start department(2) [unfolded ceilings]] assms(4) n show ?thesis by simp
  qed simp_all
qed

text \<open>When the list the enforcer counts is the current one and every app carries its owner
  label, a new deploy is admitted only if the apps the tenant and the owner really have, plus the
  deploys already admitted and not yet visible, are below every ceiling that is on.  Owners whose
  labels collide after sanitizing do not count against each other.\<close>

theorem authorize_admits_below_ceiling:
  assumes "enf_inv e" and "Authorize L users e t owner True now = (e', d, Ok rels)"
    and "faithful_list L apps" and "list_all owner_labelled apps"
  shows "(0 < lim_MaxApps (tenant_Limits t) \<longrightarrow>
       int (length (filter (\<lambda>a. app_Namespace a = auth_ns e t) apps))
       + int (card (live_ids now e (ResKey (auth_ns e t) ''tenant'' (tenant_ID t)))) < lim_MaxApps (tenant_Limits t)) \<and>
     (0 < q_MaxAppsPerOwner (enf_cfg e) \<longrightarrow>
       int (length (filter (\<lambda>a. app_Namespace a = auth_ns e t \<and> spec_Owner (app_Spec a) = owner) apps))
       + int (card (live_ids now e (ResKey (auth_ns e t) ''owner'' owner))) < q_MaxAppsPerOwner (enf_cfg e))"
  using Authorize_tenant_room [OF assms(1-3)] Authorize_owner_room [OF assms] by blast

subsection \<open>Deploys running against each other\<close>

text \<open>
  One ceiling, any number of deploys.  A deploy lists the apps, reserves under the lock, creates its
  app and releases; listing and reserving are separate steps, as they are in \<open>Authorize\<close>, where
  the lock covers only \<open>tryReserve\<close>.  A create can fail, apps can be deleted and time passes, but
  no deploy sits between reserving and creating longer than its reservation lives.  With
  \<open>fresh\<close> a deploy only reserves with a count that is not behind the apps that exist.
\<close>

datatype pc = PIdle | PListed int | PReserved nat | PCreated nat | PDone | PRejected

datatype action = AList nat | AReserve nat | ACreate nat | ACreateFails nat | ARelease nat | ADelete | ATick time

record qsys =
  qs_apps :: int
  qs_enf :: Enforcer
  qs_pc :: "nat \<Rightarrow> pc"
  qs_now :: time
  qs_ids :: "nat list"

definition qset :: "nat \<Rightarrow> pc \<Rightarrow> qsys \<Rightarrow> qsys" where
  "qset i p s = s\<lparr>qs_pc := (qs_pc s)(i := p), qs_ids := List.insert i (qs_ids s)\<rparr>"

fun qdo :: "bool \<Rightarrow> resKey \<Rightarrow> int \<Rightarrow> action \<Rightarrow> qsys \<Rightarrow> qsys option" where
  "qdo fresh k mx (AList i) s =
     (case qs_pc s i of PIdle \<Rightarrow> Some (qset i (PListed (qs_apps s)) s) | _ \<Rightarrow> None)"
| "qdo fresh k mx (AReserve i) s = (case qs_pc s i of
     PListed n \<Rightarrow>
       if fresh \<and> n < qs_apps s then None
       else (case tryReserve (qs_enf s) k n mx (qs_now s) of
           (e', tot, Some rid) \<Rightarrow> Some (qset i (PReserved rid) (s\<lparr>qs_enf := e'\<rparr>))
         | (e', tot, None) \<Rightarrow> Some (qset i PRejected (s\<lparr>qs_enf := e'\<rparr>)))
   | _ \<Rightarrow> None)"
| "qdo fresh k mx (ACreate i) s = (case qs_pc s i of
     PReserved rid \<Rightarrow> Some (qset i (PCreated rid) (s\<lparr>qs_apps := qs_apps s + 1\<rparr>)) | _ \<Rightarrow> None)"
| "qdo fresh k mx (ACreateFails i) s = (case qs_pc s i of
     PReserved rid \<Rightarrow> Some (qset i PDone (s\<lparr>qs_enf := release k rid (qs_enf s)\<rparr>)) | _ \<Rightarrow> None)"
| "qdo fresh k mx (ARelease i) s = (case qs_pc s i of
     PCreated rid \<Rightarrow> Some (qset i PDone (s\<lparr>qs_enf := release k rid (qs_enf s)\<rparr>)) | _ \<Rightarrow> None)"
| "qdo fresh k mx ADelete s = (if 0 < qs_apps s then Some (s\<lparr>qs_apps := qs_apps s - 1\<rparr>) else None)"
| "qdo fresh k mx (ATick t) s =
     (if qs_now s \<le> t \<and>
         list_all (\<lambda>i. case qs_pc s i of
             PReserved rid \<Rightarrow> list_ex (\<lambda>(j, exp). j = rid \<and> t < exp) (res_list (qs_enf s) k)
           | _ \<Rightarrow> True) (qs_ids s)
      then Some (s\<lparr>qs_now := t\<rparr>) else None)"

fun qrun :: "bool \<Rightarrow> resKey \<Rightarrow> int \<Rightarrow> action list \<Rightarrow> qsys \<Rightarrow> qsys option" where
  "qrun fresh k mx [] s = Some s"
| "qrun fresh k mx (a # as) s = (case qdo fresh k mx a s of None \<Rightarrow> None | Some s' \<Rightarrow> qrun fresh k mx as s')"

definition qinit :: "Enforcer \<Rightarrow> int \<Rightarrow> time \<Rightarrow> qsys" where
  "qinit e n now = \<lparr>qs_apps = n, qs_enf = e, qs_pc = (\<lambda>_. PIdle), qs_now = now, qs_ids = []\<rparr>"

text \<open>The reservations whose app already exists.\<close>

definition created :: "qsys \<Rightarrow> nat set" where
  "created s = {rid. \<exists>i. qs_pc s i = PCreated rid}"

definition holds_id :: "qsys \<Rightarrow> nat \<Rightarrow> nat \<Rightarrow> bool" where
  "holds_id s i rid \<longleftrightarrow> qs_pc s i = PReserved rid \<or> qs_pc s i = PCreated rid"

definition qs_inv :: "resKey \<Rightarrow> int \<Rightarrow> qsys \<Rightarrow> bool" where
  "qs_inv k mx s \<longleftrightarrow> enf_inv (qs_enf s) \<and>
     (\<forall>i. qs_pc s i \<noteq> PIdle \<longrightarrow> i \<in> set (qs_ids s)) \<and>
     (\<forall>i j rid. holds_id s i rid \<longrightarrow> holds_id s j rid \<longrightarrow> i = j) \<and>
     (\<forall>i rid. holds_id s i rid \<longrightarrow> rid \<le> enf_nextResID (qs_enf s)) \<and>
     (\<forall>i rid. qs_pc s i = PReserved rid \<longrightarrow> rid \<in> live_ids (qs_now s) (qs_enf s) k) \<and>
     qs_apps s + int (card (live_ids (qs_now s) (qs_enf s) k - created s)) \<le> mx"

lemma tryReserve_ids:
  "tryReserve e k n mx now = (e', tot, Some rid) \<Longrightarrow> rid = enf_nextResID e + 1 \<and> enf_nextResID e' = rid"
  "tryReserve e k n mx now = (e', tot, None) \<Longrightarrow> enf_nextResID e' = enf_nextResID e"
  using scalars_reservedCount(1) [of e k now]
    scalars_add(1) [of "fst (reservedCountLocked e k now)" k now]
    snd_addReservation [of "fst (reservedCountLocked e k now)" k now]
  by (auto simp: tryReserve_def Let_def simp del: snd_addReservation split: prod.splits if_splits)

lemma live_mono: "now \<le> t \<Longrightarrow> live_ids t e k \<subseteq> live_ids now e k"
  by (auto simp: live_ids_def intro: le_less_trans)

lemma qs_proj [simp]:
  "qs_apps (qset i p s) = qs_apps s" "qs_enf (qset i p s) = qs_enf s" "qs_now (qset i p s) = qs_now s"
  "qs_pc (qset i p s) j = (if j = i then p else qs_pc s j)" "set (qs_ids (qset i p s)) = insert i (set (qs_ids s))"
  by (simp_all add: qset_def)

lemma created_set:
  "created (qset i p s) = {r. p = PCreated r} \<union> {r. \<exists>j. j \<noteq> i \<and> qs_pc s j = PCreated r}"
  by (auto simp: created_def)

lemma created_split: "created s = {r. qs_pc s i = PCreated r} \<union> {r. \<exists>j. j \<noteq> i \<and> qs_pc s j = PCreated r}"
  unfolding created_def by auto

lemma created_same [simp]:
  "created (s\<lparr>qs_apps := x\<rparr>) = created s" "created (s\<lparr>qs_enf := e\<rparr>) = created s" "created (s\<lparr>qs_now := t\<rparr>) = created s"
  by (simp_all add: created_def)

text \<open>A deploy that holds no id moves to a state in which it holds none.\<close>

lemma created_inactive:
  "(\<And>r. qs_pc s i \<noteq> PCreated r) \<Longrightarrow> (\<And>r. p \<noteq> PCreated r) \<Longrightarrow> created (qset i p s) = created s"
  unfolding created_set created_split [of s i] by simp

lemma qs_invD:
  assumes "qs_inv k mx s"
  shows "enf_inv (qs_enf s)" "qs_pc s i = PReserved r \<Longrightarrow> r \<in> live_ids (qs_now s) (qs_enf s) k"
    "qs_apps s + int (card (live_ids (qs_now s) (qs_enf s) k - created s)) \<le> mx"
    "holds_id s i r \<Longrightarrow> r \<le> enf_nextResID (qs_enf s)" "holds_id s i r \<Longrightarrow> holds_id s j r \<Longrightarrow> i = j"
  using assms unfolding qs_inv_def by blast+

text \<open>The invariant over a deploy's move: what has to be shown of the new table and counter.\<close>

lemma qs_inv_move:
  assumes inv: "qs_inv k mx s" and e: "enf_inv e'"
    and grow: "enf_nextResID (qs_enf s) \<le> enf_nextResID e'"
    and new: "\<And>r. p = PReserved r \<or> p = PCreated r \<Longrightarrow>
       r \<le> enf_nextResID e' \<and> (\<forall>j. j \<noteq> i \<longrightarrow> \<not> holds_id s j r)"
    and live: "\<And>j r. j \<noteq> i \<Longrightarrow> qs_pc s j = PReserved r \<Longrightarrow> r \<in> live_ids (qs_now s) e' k"
      "\<And>r. p = PReserved r \<Longrightarrow> r \<in> live_ids (qs_now s) e' k"
    and room: "a + int (card (live_ids (qs_now s) e' k - created (qset i p s))) \<le> mx"
  shows "qs_inv k mx (qset i p (s\<lparr>qs_enf := e', qs_apps := a\<rparr>))"
proof -
  let ?s = "qset i p (s\<lparr>qs_enf := e', qs_apps := a\<rparr>)"
  have h: "holds_id ?s j r = (if j = i then p = PReserved r \<or> p = PCreated r else holds_id s j r)" for j r
    by (simp add: holds_id_def)
  have c: "created ?s = created (qset i p s)" by (simp add: created_set)
  show ?thesis unfolding qs_inv_def
  proof (intro conjI allI impI)
    show "enf_inv (qs_enf ?s)" using e by simp
    show "qs_pc ?s j \<noteq> PIdle \<Longrightarrow> j \<in> set (qs_ids ?s)" for j
      using inv by (auto simp: qs_inv_def split: if_splits)
    show "holds_id ?s j r \<Longrightarrow> holds_id ?s j' r \<Longrightarrow> j = j'" for j j' r
      using inv new [of r] unfolding h by (auto simp: qs_inv_def split: if_splits)
    show "holds_id ?s j r \<Longrightarrow> r \<le> enf_nextResID (qs_enf ?s)" for j r
      using qs_invD(4) [OF inv, of j r] new [of r] grow unfolding h by (auto split: if_splits)
    show "qs_pc ?s j = PReserved r \<Longrightarrow> r \<in> live_ids (qs_now ?s) (qs_enf ?s) k" for j r
      using live by (auto split: if_splits)
    show "qs_apps ?s + int (card (live_ids (qs_now ?s) (qs_enf ?s) k - created ?s)) \<le> mx"
      using room by (simp add: c)
  qed
qed

lemma qs_inv_AReserve:
  assumes inv: "qs_inv k mx s" and "qdo True k mx (AReserve i) s = Some s'"
  shows "qs_inv k mx s'"
proof -
  obtain n where n: "qs_pc s i = PListed n" "qs_apps s \<le> n"
    using assms(2) by (auto split: pc.splits if_splits)
  note nc = created_inactive [of s i] n(1)
  obtain e' tot x where t: "tryReserve (qs_enf s) k n mx (qs_now s) = (e', tot, x)" by (metis prod_cases3)
  note D = qs_invD [OF inv]
  show ?thesis
  proof (cases x)
    case None
    note T = tryReserve_None [OF D(1) t [unfolded None]] and I = tryReserve_ids(2) [OF t [unfolded None]]
    have "qs_inv k mx (qset i PRejected (s\<lparr>qs_enf := e', qs_apps := qs_apps s\<rparr>))"
      using T I D nc by (intro qs_inv_move [OF inv]) auto
    then show ?thesis using assms(2) n t None by auto
  next
    case (Some rid)
    note T = tryReserve_Some [OF D(1) t [unfolded Some]] and I = tryReserve_ids(1) [OF t [unfolded Some]]
    have fresh: "\<not> holds_id s j rid" for j using D(4) [of j rid] I by auto
    have "card (live_ids (qs_now s) e' k - created s) \<le> card (live_ids (qs_now s) e' k)"
      by (intro card_mono finite_live) auto
    also have "\<dots> = card (live_ids (qs_now s) (qs_enf s) k) + 1"
      using T(4) [of k] T(5) [of k] by (simp add: finite_live)
    finally have "qs_apps s + int (card (live_ids (qs_now s) e' k - created s)) \<le> mx"
      using T(2) n(2) by linarith
    then have "qs_inv k mx (qset i (PReserved rid) (s\<lparr>qs_enf := e', qs_apps := qs_apps s\<rparr>))"
      using T(1) T(4) [of k] I D(2) nc fresh by (intro qs_inv_move [OF inv]) auto
    then show ?thesis using assms(2) n t Some by auto
  qed
qed

lemma created_of_holder:
  assumes "qs_inv k mx s" "qs_pc s i = PCreated rid" "\<And>r. p \<noteq> PCreated r"
  shows "created (qset i p s) = created s - {rid}"
proof -
  have "j = i" if "qs_pc s j = PCreated rid" for j
    using qs_invD(5) [OF assms(1), of j rid i] that assms(2) by (simp add: holds_id_def)
  then have "rid \<notin> {r. \<exists>j. j \<noteq> i \<and> qs_pc s j = PCreated r}" by auto
  then show ?thesis using assms(2,3) unfolding created_set created_split [of s i] by auto
qed

lemma qs_inv_ACreate:
  assumes inv: "qs_inv k mx s" and pc: "qs_pc s i = PReserved rid"
  shows "qs_inv k mx (qset i (PCreated rid) (s\<lparr>qs_apps := qs_apps s + 1\<rparr>))"
proof -
  note D = qs_invD [OF inv]
  have c: "created (qset i (PCreated rid) s) = insert rid (created s)"
    unfolding created_set created_split [of s i] using pc by auto
  have "rid \<notin> created s"
    using D(5) [of i rid] pc by (fastforce simp: created_def holds_id_def)
  moreover have "live_ids (qs_now s) (qs_enf s) k - insert rid (created s)
      = live_ids (qs_now s) (qs_enf s) k - created s - {rid}" by auto
  ultimately have "card (live_ids (qs_now s) (qs_enf s) k - insert rid (created s)) + 1
      = card (live_ids (qs_now s) (qs_enf s) k - created s)"
    using D(2) [OF pc] card_Suc_Diff1 [of "live_ids (qs_now s) (qs_enf s) k - created s" rid]
    by (metis DiffI Suc_eq_plus1 finite_Diff finite_live)
  then have "qs_inv k mx (qset i (PCreated rid) (s\<lparr>qs_enf := qs_enf s, qs_apps := qs_apps s + 1\<rparr>))"
    using D c pc by (intro qs_inv_move [OF inv]) (auto simp: holds_id_def)
  then show ?thesis by simp
qed

lemma qs_inv_give_back:
  assumes inv: "qs_inv k mx s" and pc: "holds_id s i rid"
  shows "qs_inv k mx (qset i PDone (s\<lparr>qs_enf := release k rid (qs_enf s)\<rparr>))"
proof -
  note D = qs_invD [OF inv]
  have l: "live_ids (qs_now s) (release k rid (qs_enf s)) k = live_ids (qs_now s) (qs_enf s) k - {rid}"
    using res.give_back_live [OF D(1)] by simp
  have "created s - {rid} \<subseteq> created (qset i PDone s)"
    using created_of_holder [OF inv, of i rid PDone] created_inactive [of s i PDone] pc
    by (auto simp: holds_id_def)
  then have "card (live_ids (qs_now s) (qs_enf s) k - {rid} - created (qset i PDone s))
      \<le> card (live_ids (qs_now s) (qs_enf s) k - created s)"
    by (intro card_mono) (auto simp: finite_live)
  moreover have "r \<noteq> rid" if "j \<noteq> i" "qs_pc s j = PReserved r" for j r
    using D(5) [of j r i] that pc by (auto simp: holds_id_def)
  ultimately have "qs_inv k mx (qset i PDone (s\<lparr>qs_enf := release k rid (qs_enf s), qs_apps := qs_apps s\<rparr>))"
    using D(1-3) l by (intro qs_inv_move [OF inv]) (auto simp: frame enf_inv_release)
  then show ?thesis by simp
qed

lemma qs_inv_AList:
  assumes inv: "qs_inv k mx s" and pc: "qs_pc s i = PIdle"
  shows "qs_inv k mx (qset i (PListed n) s)"
proof -
  have "qs_inv k mx (qset i (PListed n) (s\<lparr>qs_enf := qs_enf s, qs_apps := qs_apps s\<rparr>))"
    using qs_invD(1-3) [OF inv] pc created_inactive [of s i] by (intro qs_inv_move [OF inv]) auto
  then show ?thesis by simp
qed

lemma qs_inv_ATick:
  assumes inv: "qs_inv k mx s" and q: "qdo True k mx (ATick t) s = Some s'"
  shows "qs_inv k mx s'"
proof -
  from q have s': "s' = s\<lparr>qs_now := t\<rparr>" and t: "qs_now s \<le> t"
    and keep: "\<And>i rid. i \<in> set (qs_ids s) \<Longrightarrow> qs_pc s i = PReserved rid \<Longrightarrow> rid \<in> live_ids t (qs_enf s) k"
    by (auto simp: list_all_iff list_ex_iff live_ids_def split: if_splits pc.splits)
  have "card (live_ids t (qs_enf s) k - created s) \<le> card (live_ids (qs_now s) (qs_enf s) k - created s)"
    using live_mono [OF t, of "qs_enf s" k] by (intro card_mono) (auto simp: finite_live)
  moreover have "rid \<in> live_ids t (qs_enf s) k" if "qs_pc s i = PReserved rid" for i rid
    using keep [of i rid] that inv by (auto simp: qs_inv_def)
  ultimately show ?thesis using inv unfolding s' qs_inv_def by (auto simp: holds_id_def)
qed

lemma qs_inv_qdo: "qs_inv k mx s \<Longrightarrow> qdo True k mx a s = Some s' \<Longrightarrow> qs_inv k mx s'"
proof (cases a)
  case ADelete
  assume "qs_inv k mx s" "qdo True k mx a s = Some s'"
  with ADelete show ?thesis by (auto simp: qs_inv_def holds_id_def split: if_splits)
qed (auto simp del: qdo.simps(2,7) simp: holds_id_def intro: qs_inv_AList qs_inv_AReserve qs_inv_ACreate qs_inv_give_back
      qs_inv_ATick split: pc.splits)

lemma qs_inv_qrun: "qs_inv k mx s \<Longrightarrow> qrun True k mx as s = Some s' \<Longrightarrow> qs_inv k mx s'"
  by (induction as arbitrary: s) (auto split: option.splits dest: qs_inv_qdo)

lemma qs_inv_init: "enf_inv e \<Longrightarrow> n + int (card (live_ids now e k)) \<le> mx \<Longrightarrow> qs_inv k mx (qinit e n now)"
  by (simp add: qs_inv_def qinit_def holds_id_def created_def)



text \<open>With a list taken before another deploy created its app, the reservation is no help: the
  first deploy has released by the time the second reserves, and a ceiling of one admits two apps.\<close>

theorem stale_list_overshoots:
  "\<exists>s. qrun False (ResKey ns ''owner'' owner) 1
        [AList 0, AList 1, AReserve 0, ACreate 0, ARelease 0, AReserve 1, ACreate 1, ARelease 1]
        (qinit (NewEnforcer ns cfg) 0 now) = Some s \<and> qs_apps s = 2"
  by (simp add: qinit_def NewEnforcer_def qset_def tryReserve_def reservedCountLocked_def addReservation_def
      release_def)

subsection \<open>Concrete runs\<close>

definition quota_example :: "int \<Rightarrow> Enforcer" where
  "quota_example n = NewEnforcer ''ns''
     \<lparr>q_MaxAppsPerOwner = n, q_MaxAppsPerDepartment = 0, q_PerDepartment = Map.empty\<rparr>"

lemma quota_example_inv: "enf_inv (quota_example n)"
  by (simp add: quota_example_def NewEnforcer_inv)

lemmas quota_run = Authorize_def ceiling_def quota_example_def NewEnforcer_def zero_tenant_def departmentFor_def
  countByOwner_def list_of_def sel_match_def sample_app_def tryReserve_def reservedCountLocked_def
  addReservation_def releaseAll_def rejected_def LabelOwner_def Let_def

lemma quota_full_example:
  "Authorize (list_of [sample_app ''ns'' ''a'' ''al'']) None (quota_example 1) zero_tenant ''al'' True 0 =
     (rejected ''owner'' (quota_example 1), '''', Err (ExceededError ''owner'' '''' ''al'' '''' 1 1))"
  by (simp add: quota_run)

lemma quota_room_example:
  "\<exists>e'. Authorize (list_of [sample_app ''ns'' ''a'' ''al'']) None (quota_example 2) zero_tenant ''al'' True 0 =
     (e', '''', Ok [(ResKey ''ns'' ''owner'' ''al'', 1)])"
  by (simp add: quota_run)

theorem authorize_reject_restores_witness:
  "enf_inv (rejected ''owner'' (quota_example 1)) \<and>
   (\<forall>k. live_ids 0 (rejected ''owner'' (quota_example 1)) k = live_ids 0 (quota_example 1) k)"
  by (rule authorize_reject_restores [OF quota_example_inv quota_full_example])

theorem authorize_holds_until_release_witness:
  "\<exists>e'. Authorize (list_of [sample_app ''ns'' ''a'' ''al'']) None (quota_example 2) zero_tenant ''al'' True 0 =
       (e', '''', Ok [(ResKey ''ns'' ''owner'' ''al'', 1)]) \<and>
     live_ids 0 e' (ResKey ''ns'' ''owner'' ''al'') = {1} \<and>
     live_ids 0 (releaseAll [(ResKey ''ns'' ''owner'' ''al'', 1)] e') (ResKey ''ns'' ''owner'' ''al'') = {}"
proof -
  obtain e' where e': "Authorize (list_of [sample_app ''ns'' ''a'' ''al'']) None (quota_example 2) zero_tenant
      ''al'' True 0 = (e', '''', Ok [(ResKey ''ns'' ''owner'' ''al'', 1)])"
    using quota_room_example by blast
  have "live_ids 0 (quota_example 2) k = {}" for k by (simp add: live_ids_def quota_example_def)
  with authorize_holds_until_release [OF quota_example_inv e'] e' show ?thesis by auto
qed

theorem authorize_rejects_only_at_ceiling_witness: "True \<and> (0::int) < 1 \<and> (1::int) \<le> 1"
  by (rule authorize_rejects_only_at_ceiling [OF quota_example_inv quota_full_example])

theorem authorize_admits_below_ceiling_witness:
  "\<exists>e'. Authorize (list_of [sample_app ''ns'' ''a'' ''al'']) None (quota_example 2) zero_tenant ''al'' True 0 =
       (e', '''', Ok [(ResKey ''ns'' ''owner'' ''al'', 1)]) \<and>
     int (length (filter (\<lambda>a. app_Namespace a = ''ns'' \<and> spec_Owner (app_Spec a) = ''al'')
        [sample_app ''ns'' ''a'' ''al''])) < 2"
proof -
  obtain e' where e': "Authorize (list_of [sample_app ''ns'' ''a'' ''al'']) None (quota_example 2) zero_tenant
      ''al'' True 0 = (e', '''', Ok [(ResKey ''ns'' ''owner'' ''al'', 1)])"
    using quota_room_example by blast
  have c: "q_MaxAppsPerOwner (enf_cfg (quota_example 2)) = 2" "auth_ns (quota_example 2) zero_tenant = ''ns''"
    by (simp_all add: quota_example_def NewEnforcer_def auth_ns_def zero_tenant_def)
  show ?thesis
    using authorize_admits_below_ceiling [OF quota_example_inv e' faithful_list_of] e'
    by (simp add: c)
qed

end
