(* ===== verification/Deploy_Env.thy ===== *)
theory Deploy_Env
  imports Versions Quota
begin

section \<open>The deploy service and the collaborators it calls\<close>

text \<open>
  The service of \<open>src/internal/deploy\<close> owns no state: it drives collaborators (the API server, the
  blob store, the quota enforcer, the policy gate, the authorizer, the auditor, the meter, the
  share-link store, the clock and the random source).  A run of an operation is modelled by the
  sequence of calls it makes.  The answer a collaborator gives may depend on every call made before,
  so an environment is one function per call, from the calls so far and the arguments to the answer;
  nothing is assumed about it unless a theorem says so.  The records of a nil interface are \<open>None\<close>.

  A program is a function from the calls so far to a result and the calls after it; \<open>bindE\<close> is the
  \<open>if err != nil { return err }\<close> of the source, and \<open>spec\<close> is the program logic the theorems use:
  every run extends the calls, and the result and the calls added satisfy the postcondition.
\<close>

subsection \<open>Authorization requests and policy inputs\<close>

datatype Action = ActionAppGet | ActionAppList | ActionAppDeploy | ActionAppDelete | ActionAppRollback
  | ActionAppSuspend | ActionAppShare | ActionUserManage | ActionAuditRead

fun action_string :: "Action \<Rightarrow> string" where
  "action_string ActionAppGet = ''app.get''"
| "action_string ActionAppList = ''app.list''"
| "action_string ActionAppDeploy = ''app.deploy''"
| "action_string ActionAppDelete = ''app.delete''"
| "action_string ActionAppRollback = ''app.rollback''"
| "action_string ActionAppSuspend = ''app.suspend''"
| "action_string ActionAppShare = ''app.share''"
| "action_string ActionUserManage = ''user.manage''"
| "action_string ActionAuditRead = ''audit.read''"

record AuthzResource =
  ar_Kind :: string
  ar_ID :: string
  ar_Owner :: string
  ar_Namespace :: string
  ar_Department :: string
  ar_SharedWith :: "string list"

record AuthzRequest =
  aq_Subject :: string
  aq_Role :: string
  aq_Action :: Action
  aq_Resource :: AuthzResource

definition DeniedError_Error :: "Action \<Rightarrow> string \<Rightarrow> string" where
  "DeniedError_Error action reason =
     (if reason \<noteq> '''' then ''authorization denied: '' @ action_string action @ '': '' @ reason
      else ''authorization denied: '' @ action_string action)"

record PolicyInput =
  pi_Tenant :: Tenant
  pi_Owner :: string
  pi_Name :: string
  pi_Lane :: Lane
  pi_Template :: string
  pi_AllowedHosts :: "string list"
  pi_Env :: "EnvVar list"
  pi_IsNew :: bool
  pi_Source :: "byte list"

record Decision =
  dec_Lane :: Lane
  dec_Template :: string
  dec_Rule :: nat
  dec_BuildAsync :: bool

subsection \<open>Calls\<close>

text \<open>A list selector: none, the owner label, or the opaque selector of a \<open>ListScoper\<close>.\<close>

datatype list_sel = SelAll | SelLabel string string | SelScope string

datatype call =
    CTenant
  | CSpool | CRewind | CSpoolRemove
  | CClassify "byte list"
  | CGet string string
  | CList string list_sel
  | CCreate VibedApp
  | CUpdate VibedApp
  | CDelete VibedApp
  | CPolicy PolicyInput
  | CAuthz AuthzRequest
  | CAuthzBatch "AuthzRequest list"
  | CScopeList AuthzRequest
  | CQuotaAuthorize Tenant string bool
  | CQuotaRelease
  | CRand nat
  | CNow
  | CPut string "byte list"
  | CBlobDelete string
  | CAudit string string string string
  | CMeter MeterEvent
  | CMetric string string
  | CActive int string
  | CWatch | CEvents | CSleep
  | CLinkCreate ShareLink string | CLinkGet string | CLinkList string int int | CLinkRevoke string
  | CHash string

type_synonym trace = "call list"

text \<open>What can arrive on the watch channel before the deadline timer fires.\<close>

datatype wevent = EvDone string | EvClosed | EvOther | EvDeleted VibedApp | EvApp VibedApp

record env =
  e_Tenants :: "(trace \<Rightarrow> Tenant \<times> string option) option"
  e_Namespace :: string
  e_DeployTimeout :: duration
  e_PollInterval :: duration
  e_Role :: string
  e_sha256 :: "byte list \<Rightarrow> byte list"
  e_CreateTemp :: "trace \<Rightarrow> string option"
  e_SpoolWrite :: "trace \<Rightarrow> string option"
  e_Rewind :: "trace \<Rightarrow> string option"
  e_Classify :: "trace \<Rightarrow> byte list \<Rightarrow> (string, Decision) result"
  e_Get :: "trace \<Rightarrow> string \<Rightarrow> string \<Rightarrow> (kerr, VibedApp) result"
  e_List :: "trace \<Rightarrow> string \<Rightarrow> list_sel \<Rightarrow> (kerr, VibedApp list) result"
  e_Create :: "trace \<Rightarrow> VibedApp \<Rightarrow> kerr option"
  e_Update :: "trace \<Rightarrow> VibedApp \<Rightarrow> (kerr, VibedApp) result"
  e_Delete :: "trace \<Rightarrow> VibedApp \<Rightarrow> kerr option"
  e_Policy :: "(trace \<Rightarrow> PolicyInput \<Rightarrow> string option) option"
  e_Authz :: "(trace \<Rightarrow> AuthzRequest \<Rightarrow> string option) option"
  e_Batch :: "(trace \<Rightarrow> AuthzRequest list \<Rightarrow> string option list) option"
  e_Scope :: "(trace \<Rightarrow> AuthzRequest \<Rightarrow> (string, string option) result) option"
  e_Quota :: "(trace \<Rightarrow> Tenant \<Rightarrow> string \<Rightarrow> bool \<Rightarrow> (string, string) result) option"
  e_Rand :: "trace \<Rightarrow> nat \<Rightarrow> (string, string) result"
  e_Now :: "trace \<Rightarrow> time"
  e_Format :: "time \<Rightarrow> string"
  e_Put :: "trace \<Rightarrow> string \<Rightarrow> byte list \<Rightarrow> (string, string) result"
  e_Audit :: "(trace \<Rightarrow> string \<Rightarrow> string \<Rightarrow> string \<Rightarrow> string \<Rightarrow> string option) option"
  e_Meter :: bool
  e_Metrics :: bool
  e_Watch :: "(trace \<Rightarrow> string option) option"
  e_Events :: "trace \<Rightarrow> wevent list"
  e_Sleep :: "trace \<Rightarrow> string option \<times> nat"
  e_Links :: bool
  e_BaseURL :: string
  e_LinkCreate :: "trace \<Rightarrow> ShareLink \<Rightarrow> string \<Rightarrow> string option"
  e_LinkGet :: "trace \<Rightarrow> string \<Rightarrow> (string, ShareLink \<times> string) result"
  e_LinkList :: "trace \<Rightarrow> string \<Rightarrow> int \<Rightarrow> int \<Rightarrow> (string, ShareLink list) result"
  e_LinkRevoke :: "trace \<Rightarrow> string \<Rightarrow> string option"
  e_Bcrypt :: "trace \<Rightarrow> string \<Rightarrow> (string, string) result"
  e_BcryptOk :: "string \<Rightarrow> string \<Rightarrow> bool"

subsection \<open>Errors and programs\<close>

datatype derr =
    DInvalidName string | DOwnerRequired | DTenant string
  | DReadSource string | DTooLarge int | DEmpty | DSpool string | DRewind string
  | DClassify string | DGet kerr
  | DPolicy string | DNotOwner | DAuthz string | DQuota string
  | DKey string | DStore string
  | DCreate kerr | DUpdate kerr | DDelete kerr | DAudit string
  | DWait kerr | DContext string
  | DNotFound | DList kerr | DScope string
  | DVersion int | DNoShareLinks | DLinkStore string | DRand string | DHash string
  | DLinkNotFound string | DPasswordRequired

type_synonym 'a prog = "trace \<Rightarrow> (derr, 'a) result \<times> trace"

definition retE :: "'a \<Rightarrow> 'a prog" where
  "retE x tr = (Ok x, tr)"

definition failE :: "derr \<Rightarrow> 'a prog" where
  "failE e tr = (Err e, tr)"

definition bindE :: "'a prog \<Rightarrow> ('a \<Rightarrow> 'b prog) \<Rightarrow> 'b prog" where
  "bindE m f tr = (case m tr of (Err e, tr') \<Rightarrow> (Err e, tr') | (Ok x, tr') \<Rightarrow> f x tr')"

text \<open>A call whose answer is given by \<open>ans\<close> on the calls before it.\<close>

definition callE :: "call \<Rightarrow> (trace \<Rightarrow> (derr, 'a) result) \<Rightarrow> 'a prog" where
  "callE c ans tr = (ans tr, tr @ [c])"

text \<open>A call whose answer the source ignores, or that has none.\<close>

definition tell :: "call \<Rightarrow> unit prog" where
  "tell c tr = (Ok (), tr @ [c])"

text \<open>A \<open>defer\<close>: \<open>d\<close> runs after \<open>m\<close>, on every path, with its result.\<close>

definition deferE :: "((derr, 'a) result \<Rightarrow> trace \<Rightarrow> trace) \<Rightarrow> 'a prog \<Rightarrow> 'a prog" where
  "deferE d m tr = (let (r, tr') = m tr in (r, d r tr'))"

definition errE :: "(string \<Rightarrow> derr) \<Rightarrow> string option \<Rightarrow> (derr, unit) result" where
  "errE f x = (case x of None \<Rightarrow> Ok () | Some e \<Rightarrow> Err (f e))"

definition mapE :: "('e \<Rightarrow> derr) \<Rightarrow> ('e, 'a) result \<Rightarrow> (derr, 'a) result" where
  "mapE f x = (case x of Err e \<Rightarrow> Err (f e) | Ok y \<Rightarrow> Ok y)"

fun forE :: "('x \<Rightarrow> unit prog) \<Rightarrow> 'x list \<Rightarrow> unit prog" where
  "forE f [] = retE ()"
| "forE f (x # xs) = bindE (f x) (\<lambda>_. forE f xs)"

subsection \<open>The program logic\<close>

definition spec :: "'a prog \<Rightarrow> (trace \<Rightarrow> (derr, 'a) result \<Rightarrow> trace \<Rightarrow> bool) \<Rightarrow> bool" where
  "spec m Q \<longleftrightarrow> (\<forall>tr. \<exists>new. snd (m tr) = tr @ new \<and> Q tr (fst (m tr)) new)"

lemma specI: "(\<And>tr. \<exists>new. snd (m tr) = tr @ new \<and> Q tr (fst (m tr)) new) \<Longrightarrow> spec m Q"
  by (simp add: spec_def)

lemma specD:
  assumes "spec m Q" "m tr = (r, tr')"
  obtains new where "tr' = tr @ new" "Q tr r new"
proof -
  from assms(1) obtain new where "snd (m tr) = tr @ new" "Q tr (fst (m tr)) new"
    unfolding spec_def by meson
  with that [of new] assms(2) show thesis by simp
qed

lemma spec_mono: "spec m Q \<Longrightarrow> (\<And>tr r new. Q tr r new \<Longrightarrow> Q' tr r new) \<Longrightarrow> spec m Q'"
  unfolding spec_def by meson

lemma spec_conj: "spec m Q \<Longrightarrow> spec m Q' \<Longrightarrow> spec m (\<lambda>tr r new. Q tr r new \<and> Q' tr r new)"
  unfolding spec_def by (metis same_append_eq)

lemma spec_retE: "(\<And>tr. Q tr (Ok x) []) \<Longrightarrow> spec (retE x) Q"
  by (simp add: spec_def retE_def)

lemma spec_failE: "(\<And>tr. Q tr (Err e) []) \<Longrightarrow> spec (failE e) Q"
  by (simp add: spec_def failE_def)

lemma spec_callE: "(\<And>tr. Q tr (ans tr) [c]) \<Longrightarrow> spec (callE c ans) Q"
  by (simp add: spec_def callE_def)

lemma spec_tell: "(\<And>tr. Q tr (Ok ()) [c]) \<Longrightarrow> spec (tell c) Q"
  by (simp add: spec_def tell_def)

lemma spec_bindE:
  assumes m: "spec m Q1" and f: "\<And>x. spec (f x) (Q2 x)"
    and err: "\<And>tr e new. Q1 tr (Err e) new \<Longrightarrow> Q tr (Err e) new"
    and ok: "\<And>tr x new r new'. Q1 tr (Ok x) new \<Longrightarrow> Q2 x (tr @ new) r new' \<Longrightarrow> Q tr r (new @ new')"
  shows "spec (bindE m f) Q"
proof (rule specI)
  fix tr
  obtain r tr1 where r: "m tr = (r, tr1)" by fastforce
  from m r obtain n1 where n1: "tr1 = tr @ n1" "Q1 tr r n1" by (rule specD)
  show "\<exists>new. snd (bindE m f tr) = tr @ new \<and> Q tr (fst (bindE m f tr)) new"
  proof (cases r)
    case (Inl e)
    with r n1 err show ?thesis by (auto simp: bindE_def)
  next
    case (Inr x)
    obtain r2 tr2 where r2: "f x tr1 = (r2, tr2)" by fastforce
    from f r2 obtain n2 where "tr2 = tr1 @ n2" "Q2 x tr1 r2 n2" by (rule specD)
    with r r2 n1 Inr ok show ?thesis by (auto simp: bindE_def)
  qed
qed

text \<open>Properties of the calls alone, and of the calls given the outcome.\<close>

definition emits :: "'a prog \<Rightarrow> (call \<Rightarrow> bool) \<Rightarrow> bool" where
  "emits m P = spec m (\<lambda>tr r new. list_all P new)"

named_theorems emits_intros

lemma emits_retE [emits_intros]: "emits (retE x) P"
  by (simp add: emits_def spec_retE)

lemma emits_failE [emits_intros]: "emits (failE e) P"
  by (simp add: emits_def spec_failE)

lemma emits_callE [emits_intros]: "P c \<Longrightarrow> emits (callE c ans) P"
  by (simp add: emits_def spec_callE)

lemma emits_tell [emits_intros]: "P c \<Longrightarrow> emits (tell c) P"
  by (simp add: emits_def spec_tell)

lemma emits_bindE [emits_intros]: "emits m P \<Longrightarrow> (\<And>x. emits (f x) P) \<Longrightarrow> emits (bindE m f) P"
  unfolding emits_def by (erule spec_bindE) auto

lemma emits_if [emits_intros]: "(b \<Longrightarrow> emits m P) \<Longrightarrow> (\<not> b \<Longrightarrow> emits m' P) \<Longrightarrow> emits (if b then m else m') P"
  by simp

lemma emits_option [emits_intros]:
  "emits m P \<Longrightarrow> (\<And>y. emits (f y) P) \<Longrightarrow> emits (case x of None \<Rightarrow> m | Some y \<Rightarrow> f y) P"
  by (simp split: option.split)

lemma emits_sum [emits_intros]:
  "(\<And>y. emits (f y) P) \<Longrightarrow> (\<And>y. emits (g y) P) \<Longrightarrow> emits (case x of Err y \<Rightarrow> f y | Ok y \<Rightarrow> g y) P"
  by (simp split: sum.split)

lemma emits_forE [emits_intros]: "(\<And>x. x \<in> set xs \<Longrightarrow> emits (f x) P) \<Longrightarrow> emits (forE f xs) P"
  by (induction xs) (auto intro!: emits_intros)

lemma emits_mono: "emits m P \<Longrightarrow> (\<And>c. P c \<Longrightarrow> P' c) \<Longrightarrow> emits m P'"
  unfolding emits_def by (erule spec_mono) (simp add: list_all_iff)

lemma emitsD:
  assumes "emits m P" "m tr = (r, tr')"
  obtains new where "tr' = tr @ new" "list_all P new"
  using specD [OF assms(1) [unfolded emits_def] assms(2)] by blast

end
