(* ===== verification/Deploy.thy ===== *)
theory Deploy
  imports Deploy_Env
begin

section \<open>Deploy\<close>

text \<open>
  \<open>src/internal/deploy/service.go\<close>: the source is read, capped and hashed; the request is classified,
  gated (policy, ownership, authorizer, quota), versioned, stored and written to the API server; then
  the call waits for the app to become ready.  The request's reader is its bytes, the error it ends
  with (if any) and whether it can be rewound.  The pieces of \<open>Deploy\<close> are definitions of their own,
  in the order of the source.
\<close>

definition MaxTarballBytes :: int where
  "MaxTarballBytes = 50 * 1024 * 1024"

definition dns_alnum :: "char \<Rightarrow> bool" where
  "dns_alnum c \<longleftrightarrow> (97 \<le> (of_char c :: nat) \<and> of_char c \<le> (122 :: nat)) \<or> is_digit c"

definition dnsName :: "string \<Rightarrow> bool" where
  "dnsName s \<longleftrightarrow> s \<noteq> [] \<and> list_all (\<lambda>c. dns_alnum c \<or> c = CHR ''-'') s \<and> dns_alnum (hd s) \<and> dns_alnum (last s)"

record reader =
  rd_bytes :: "byte list"
  rd_err :: "string option"
  rd_seekable :: bool

record Request =
  rq_Name :: string
  rq_Owner :: string
  rq_Tarball :: reader
  rq_LaneOverride :: Lane
  rq_TemplateOverride :: string
  rq_Entrypoint :: string
  rq_Env :: "EnvVar list"
  rq_TTL :: string
  rq_AllowedHosts :: "string list"

record Result =
  r_AppID :: string
  r_Phase :: Phase
  r_URL :: string
  r_Ready :: bool
  r_Reason :: string
  r_Message :: string

definition defaults :: "env \<Rightarrow> env" where
  "defaults s =
     (let s1 = (if e_DeployTimeout s = 0 then s\<lparr>e_DeployTimeout := 10 * second\<rparr> else s);
          s2 = (if e_PollInterval s1 = 0 then s1\<lparr>e_PollInterval := 250 * millisecond\<rparr> else s1)
      in if e_Namespace s2 = '''' then s2\<lparr>e_Namespace := ''vibed-apps''\<rparr> else s2)"

subsection \<open>Reading the source\<close>

text \<open>Reading through \<open>io.LimitReader(r, n)\<close> to the end: the reader's error is only seen when the
  limit is not reached first.\<close>

definition read_limited :: "reader \<Rightarrow> int \<Rightarrow> (string, byte list) result" where
  "read_limited r n =
     (if n \<le> int (length (rd_bytes r)) then Ok (take (nat n) (rd_bytes r))
      else case rd_err r of Some e \<Rightarrow> Err e | None \<Rightarrow> Ok (rd_bytes r))"

definition checkSize :: "int \<Rightarrow> int \<Rightarrow> (derr, unit) result" where
  "checkSize n mx =
     (if n > mx then Err (DTooLarge (mx div (1024 * 1024)))
      else if n = 0 then Err DEmpty else Ok ())"

definition readCapped :: "reader \<Rightarrow> int \<Rightarrow> (derr, byte list) result" where
  "readCapped r mx = (case read_limited r (mx + 1) of
      Err e \<Rightarrow> Err (DReadSource e)
    | Ok buf \<Rightarrow> (case checkSize (int (length buf)) mx of Err e \<Rightarrow> Err e | Ok _ \<Rightarrow> Ok buf))"

text \<open>
  The source of a deploy once acquired: its bytes, and where \<open>openSource\<close> reads them from: the
  buffer, the rewound reader, or the spool file (which \<open>cleanup\<close> removes).
\<close>

datatype origin = FromBuffer | FromSeeker | FromSpool

definition streamSource :: "env \<Rightarrow> reader \<Rightarrow> int \<Rightarrow> (byte list \<times> origin) prog" where
  "streamSource s r mx =
     (if rd_seekable r then
        (case read_limited r (mx + 1) of
           Err e \<Rightarrow> failE (DReadSource e)
         | Ok b \<Rightarrow> (case checkSize (int (length b)) mx of
              Err e \<Rightarrow> failE e | Ok _ \<Rightarrow> retE (b, FromSeeker)))
      else bindE (callE CSpool (\<lambda>tr. errE DSpool (e_CreateTemp s tr))) (\<lambda>_ tr.
        case e_SpoolWrite s tr of
          Some e \<Rightarrow> bindE (tell CSpoolRemove) (\<lambda>_. failE (DSpool e)) tr
        | None \<Rightarrow> (case read_limited r (mx + 1) of
            Err e \<Rightarrow> bindE (tell CSpoolRemove) (\<lambda>_. failE (DReadSource e)) tr
          | Ok b \<Rightarrow> (case checkSize (int (length b)) mx of
              Err e \<Rightarrow> bindE (tell CSpoolRemove) (\<lambda>_. failE e) tr
            | Ok _ \<Rightarrow> retE (b, FromSpool) tr))))"

definition cleanup :: "origin \<Rightarrow> trace \<Rightarrow> trace" where
  "cleanup org tr = (if org = FromSpool then tr @ [CSpoolRemove] else tr)"

definition acquireSource :: "env \<Rightarrow> reader \<Rightarrow> (byte list \<times> origin) prog" where
  "acquireSource s r = (case e_Policy s of
      Some _ \<Rightarrow> (case readCapped r MaxTarballBytes of Err e \<Rightarrow> failE e | Ok b \<Rightarrow> retE (b, FromBuffer))
    | None \<Rightarrow> streamSource s r MaxTarballBytes)"

definition openSource :: "env \<Rightarrow> byte list \<times> origin \<Rightarrow> byte list prog" where
  "openSource s src =
     (if snd src = FromBuffer then retE (fst src)
      else callE CRewind (\<lambda>tr. case e_Rewind s tr of Some e \<Rightarrow> Err (DRewind e) | None \<Rightarrow> Ok (fst src)))"

subsection \<open>Helpers\<close>

text \<open>\<open>tenant\<close> returns the tenant it has even when it fails; callers that drop the error use it.\<close>

definition tenantOf :: "env \<Rightarrow> trace \<Rightarrow> (Tenant \<times> derr option) \<times> trace" where
  "tenantOf s tr =
     (let finish = (\<lambda>t. if tenant_ID t \<noteq> '''' \<and> tenant_Namespace t = ''''
            then (t, Some (DTenant (''tenant '' @ tenant_ID t @ '' resolved without a namespace'')))
            else (if tenant_Namespace t = '''' then t\<lparr>tenant_Namespace := e_Namespace s\<rparr> else t, None))
      in case e_Tenants s of
           None \<Rightarrow> (finish zero_tenant, tr)
         | Some f \<Rightarrow> (case f tr of
             (t, Some e) \<Rightarrow> ((t, Some (DTenant e)), tr @ [CTenant])
           | (t, None) \<Rightarrow> (finish t, tr @ [CTenant])))"

definition resolveTenant :: "env \<Rightarrow> Tenant prog" where
  "resolveTenant s tr = (case tenantOf s tr of
      ((t, None), tr') \<Rightarrow> (Ok t, tr') | ((t, Some e), tr') \<Rightarrow> (Err e, tr'))"

definition recordAudit :: "env \<Rightarrow> string \<Rightarrow> string \<Rightarrow> string \<Rightarrow> string \<Rightarrow> unit prog" where
  "recordAudit s action target outcome detail = (case e_Audit s of
      None \<Rightarrow> retE ()
    | Some f \<Rightarrow> callE (CAudit action target outcome detail)
        (\<lambda>tr. errE DAudit (f tr action target outcome detail)))"

text \<open>A failure path: the event is recorded, the recorder's own error is dropped.\<close>

definition recordFail :: "env \<Rightarrow> string \<Rightarrow> string \<Rightarrow> string \<Rightarrow> string \<Rightarrow> derr \<Rightarrow> 'a prog" where
  "recordFail s action target outcome detail e tr =
     failE e (snd (recordAudit s action target outcome detail tr))"

definition meter :: "env \<Rightarrow> MeterEvent \<Rightarrow> unit prog" where
  "meter s ev = (if e_Meter s then tell (CMeter ev) else retE ())"

subsection \<open>Waiting for the app\<close>

definition FindStatusCondition :: "Condition list \<Rightarrow> string \<Rightarrow> Condition option" where
  "FindStatusCondition cs t = find (\<lambda>c. cond_Type c = t) cs"

definition withReadyCondition :: "Result \<Rightarrow> VibedApp \<Rightarrow> Result" where
  "withReadyCondition res app = (case FindStatusCondition (st_Conditions (app_Status app)) ConditionReady of
      None \<Rightarrow> res
    | Some c \<Rightarrow> res\<lparr>r_Reason := cond_Reason c, r_Message := cond_Message c\<rparr>)"

definition mkResult :: "string \<Rightarrow> Phase \<Rightarrow> string \<Rightarrow> bool \<Rightarrow> Result" where
  "mkResult name ph url ready =
     \<lparr>r_AppID = name, r_Phase = ph, r_URL = url, r_Ready = ready, r_Reason = '''', r_Message = ''''\<rparr>"

definition phaseResult :: "string \<Rightarrow> VibedApp \<Rightarrow> Result option" where
  "phaseResult name app = (case st_Phase (app_Status app) of
      PhaseReady \<Rightarrow> Some (withReadyCondition
        (mkResult name PhaseReady (st_URL (app_Status app)) True) app)
    | PhaseFailed \<Rightarrow> Some (withReadyCondition
        (mkResult name PhaseFailed (st_URL (app_Status app)) False) app)
    | _ \<Rightarrow> None)"

definition getApp :: "env \<Rightarrow> (kerr \<Rightarrow> derr) \<Rightarrow> string \<Rightarrow> string \<Rightarrow> VibedApp prog" where
  "getApp s f ns name = callE (CGet ns name) (\<lambda>tr. mapE f (e_Get s tr ns name))"

text \<open>
  One turn of the poll loop takes the poll interval, and whatever time the calls take on top of it;
  \<open>now\<close> is the clock when the turn starts.  The turn ends the loop when the context is done while
  waiting.
\<close>

function pollReady :: "env \<Rightarrow> string \<Rightarrow> string \<Rightarrow> time \<Rightarrow> time \<Rightarrow> Result prog" where
  "pollReady s ns name deadline now tr = (case getApp s DWait ns name tr of
      (Err e, tr1) \<Rightarrow> (Err e, tr1)
    | (Ok app, tr1) \<Rightarrow> (case phaseResult name app of
        Some res \<Rightarrow> (Ok res, tr1)
      | None \<Rightarrow>
          if now > deadline
          then (Ok (mkResult name (st_Phase (app_Status app)) '''' False), tr1)
          else (case e_Sleep s tr1 of
              (Some e, _) \<Rightarrow> (Err (DContext e), tr1 @ [CSleep])
            | (None, late) \<Rightarrow>
                pollReady s ns name deadline (now + max 1 (e_PollInterval s) + int late) (tr1 @ [CSleep]))))"
  by pat_completeness auto
termination
  by (relation "measure (\<lambda>(s, ns, name, deadline, now, tr). nat (deadline + 1 - now))") auto

text \<open>The event loop of \<open>watchReady\<close>: \<open>evs\<close> is what arrives before the timer fires.\<close>

fun watchLoop ::
  "env \<Rightarrow> string \<Rightarrow> string \<Rightarrow> time \<Rightarrow> time \<Rightarrow> Phase \<Rightarrow> wevent list \<Rightarrow> Result prog" where
  "watchLoop s ns name deadline now lastPhase [] tr = (Ok (mkResult name lastPhase '''' False), tr)"
| "watchLoop s ns name deadline now lastPhase (EvDone e # evs) tr = (Err (DContext e), tr)"
| "watchLoop s ns name deadline now lastPhase (EvClosed # evs) tr = pollReady s ns name deadline now tr"
| "watchLoop s ns name deadline now lastPhase (EvOther # evs) tr =
     watchLoop s ns name deadline now lastPhase evs tr"
| "watchLoop s ns name deadline now lastPhase (EvDeleted app # evs) tr =
     (if app_Name app \<noteq> name \<or> app_Namespace app \<noteq> ns
      then watchLoop s ns name deadline now lastPhase evs tr
      else (Err (DWait (KNotFound name)), tr))"
| "watchLoop s ns name deadline now lastPhase (EvApp app # evs) tr =
     (if app_Name app \<noteq> name \<or> app_Namespace app \<noteq> ns
      then watchLoop s ns name deadline now lastPhase evs tr
      else (case phaseResult name app of
          Some res \<Rightarrow> (Ok res, tr)
        | None \<Rightarrow> watchLoop s ns name deadline now (st_Phase (app_Status app)) evs tr))"

definition watchReady :: "env \<Rightarrow> string \<Rightarrow> string \<Rightarrow> time \<Rightarrow> time \<Rightarrow> Result prog" where
  "watchReady s ns name deadline now =
     bindE (getApp s DWait ns name) (\<lambda>app. case phaseResult name app of
         Some res \<Rightarrow> retE res
       | None \<Rightarrow> bindE (callE CEvents (\<lambda>tr. Ok (e_Events s tr)))
           (\<lambda>evs. watchLoop s ns name deadline now (st_Phase (app_Status app)) evs))"

definition waitReady :: "env \<Rightarrow> string \<Rightarrow> string \<Rightarrow> Result prog" where
  "waitReady s ns name = bindE (callE CNow (\<lambda>tr. Ok (e_Now s tr))) (\<lambda>now.
     let deadline = now + e_DeployTimeout s in
     case e_Watch s of
       None \<Rightarrow> pollReady s ns name deadline now
     | Some w \<Rightarrow> (\<lambda>tr. case w tr of
           None \<Rightarrow> watchReady s ns name deadline now (tr @ [CWatch])
         | Some _ \<Rightarrow> pollReady s ns name deadline now (tr @ [CWatch])))"

subsection \<open>Deploy\<close>

definition classify :: "env \<Rightarrow> Request \<Rightarrow> byte list \<times> origin \<Rightarrow> (Lane \<times> string) prog" where
  "classify s req src =
     (let lane = rq_LaneOverride req; template = rq_TemplateOverride req in
      if lane = LaneEmpty \<or> template = '''' then
        bindE (openSource s src) (\<lambda>b.
        bindE (callE (CClassify b) (\<lambda>tr. mapE DClassify (e_Classify s tr b))) (\<lambda>dec.
        retE (if lane = LaneEmpty then dec_Lane dec else lane,
              if template = '''' then dec_Template dec else template)))
      else retE (lane, template))"

text \<open>The lookup that tells a new app (\<open>None\<close>) from a redeploy.\<close>

definition lookupExisting :: "env \<Rightarrow> string \<Rightarrow> string \<Rightarrow> VibedApp option prog" where
  "lookupExisting s ns name = callE (CGet ns name) (\<lambda>tr. case e_Get s tr ns name of
      Ok app \<Rightarrow> Ok (Some app)
    | Err e \<Rightarrow> if IsNotFound e then Ok None else Err (DGet e))"

definition gatePolicy ::
  "env \<Rightarrow> Request \<Rightarrow> Tenant \<Rightarrow> Lane \<Rightarrow> string \<Rightarrow> VibedApp option \<Rightarrow> byte list \<Rightarrow> unit prog" where
  "gatePolicy s req t lane template existing b = (case e_Policy s of
      None \<Rightarrow> retE ()
    | Some f \<Rightarrow>
        let inp = \<lparr>pi_Tenant = t, pi_Owner = rq_Owner req, pi_Name = rq_Name req, pi_Lane = lane,
                   pi_Template = template, pi_AllowedHosts = rq_AllowedHosts req, pi_Env = rq_Env req,
                   pi_IsNew = (existing = None), pi_Source = b\<rparr>
        in bindE (callE (CPolicy inp) (\<lambda>tr. Ok (f tr inp))) (\<lambda>perr. case perr of
             None \<Rightarrow> retE ()
           | Some e \<Rightarrow> recordFail s ''deploy'' (rq_Name req) ''denied'' e (DPolicy e)))"

definition gateOwner :: "env \<Rightarrow> Request \<Rightarrow> VibedApp option \<Rightarrow> unit prog" where
  "gateOwner s req existing = (case existing of
      None \<Rightarrow> retE ()
    | Some app \<Rightarrow>
        if spec_Owner (app_Spec app) \<noteq> '''' \<and> spec_Owner (app_Spec app) \<noteq> rq_Owner req \<and> e_Role s \<noteq> ''admin''
        then recordFail s ''deploy'' (rq_Name req) ''denied''
               (DeniedError_Error ActionAppDeploy ''app is owned by another user'') DNotOwner
        else retE ())"

definition resourceOwner :: "Request \<Rightarrow> VibedApp option \<Rightarrow> string" where
  "resourceOwner req existing = (case existing of
      None \<Rightarrow> rq_Owner req
    | Some app \<Rightarrow> if spec_Owner (app_Spec app) \<noteq> '''' then spec_Owner (app_Spec app) else rq_Owner req)"

definition gateAuthz :: "env \<Rightarrow> Request \<Rightarrow> Tenant \<Rightarrow> VibedApp option \<Rightarrow> unit prog" where
  "gateAuthz s req t existing = (case e_Authz s of
      None \<Rightarrow> retE ()
    | Some f \<Rightarrow>
        let q = \<lparr>aq_Subject = rq_Owner req, aq_Role = e_Role s, aq_Action = ActionAppDeploy,
                 aq_Resource = \<lparr>ar_Kind = ''app'', ar_ID = rq_Name req, ar_Owner = resourceOwner req existing,
                   ar_Namespace = tenant_Namespace t, ar_Department = '''', ar_SharedWith = []\<rparr>\<rparr>
        in bindE (callE (CAuthz q) (\<lambda>tr. Ok (f tr q))) (\<lambda>aerr. case aerr of
             None \<Rightarrow> retE ()
           | Some e \<Rightarrow> recordFail s ''deploy'' (rq_Name req) ''denied'' e (DAuthz e)))"

text \<open>The department of the owner, and whether a reservation is held from here on.\<close>

definition gateQuota :: "env \<Rightarrow> Request \<Rightarrow> Tenant \<Rightarrow> VibedApp option \<Rightarrow> (string \<times> bool) prog" where
  "gateQuota s req t existing = (case e_Quota s of
      None \<Rightarrow> retE ('''', False)
    | Some f \<Rightarrow>
        bindE (callE (CQuotaAuthorize t (rq_Owner req) (existing = None))
                 (\<lambda>tr. Ok (f tr t (rq_Owner req) (existing = None)))) (\<lambda>q. case q of
             Ok dept \<Rightarrow> retE (dept, True)
           | Err e \<Rightarrow> recordFail s ''deploy'' (rq_Name req) ''denied'' e (DQuota e)))"

definition releaseQuota :: "bool \<Rightarrow> trace \<Rightarrow> trace" where
  "releaseQuota held tr = (if held then tr @ [CQuotaRelease] else tr)"

definition deployLabels :: "Request \<Rightarrow> Tenant \<Rightarrow> string \<Rightarrow> string \<rightharpoonup> string" where
  "deployLabels req t department =
     (let l1 = [LabelOwner \<mapsto> SanitizeLabel (rq_Owner req)];
          l2 = (if department \<noteq> '''' then l1(LabelDepartment \<mapsto> SanitizeLabel department) else l1)
      in if tenant_ID t \<noteq> '''' then l2(LabelTenant \<mapsto> SanitizeLabel (tenant_ID t)) else l2)"

definition deploySpec :: "Request \<Rightarrow> Lane \<Rightarrow> string \<Rightarrow> string \<Rightarrow> VibedAppSpec" where
  "deploySpec req lane template refURL =
     \<lparr>spec_Owner = rq_Owner req, spec_Source = \<lparr>source_TarballRef = refURL, source_GitRef = ''''\<rparr>,
      spec_Runtime = \<lparr>rt_Lane = lane, rt_Template = template, rt_Entrypoint = rq_Entrypoint req, rt_Env = rq_Env req\<rparr>,
      spec_Egress = \<lparr>egress_AllowedHosts = rq_AllowedHosts req\<rparr>, spec_Resources = empty_resources,
      spec_TTL = rq_TTL req, spec_Suspended = False\<rparr>"

definition newApp :: "string \<Rightarrow> string \<Rightarrow> (string \<rightharpoonup> string) \<Rightarrow> versions_annotation \<Rightarrow> VibedAppSpec \<Rightarrow> VibedApp" where
  "newApp name ns labels anns sp =
     \<lparr>app_Name = name, app_Namespace = ns, app_UID = '''', app_Generation = 0, app_Labels = labels,
      app_Versions = anns, app_DeletionTimestamp = None, app_Spec = sp, app_Status = empty_status\<rparr>"

text \<open>Version, key, blob: what this deploy adds to the app's history.\<close>

definition storeVersion ::
  "env \<Rightarrow> Request \<Rightarrow> Lane \<Rightarrow> string \<Rightarrow> byte list \<times> origin \<Rightarrow> VersionRecord list \<Rightarrow>
   (string \<times> string \<times> VersionRecord list \<times> string list) prog" where
  "storeVersion s req lane template src history =
     (let version = nextVersion history in
      bindE (callE (CRand 16) (\<lambda>tr. Ok (newVersionKey (e_Rand s tr 16) (rq_Name req) version))) (\<lambda>kr. case kr of
        Err e \<Rightarrow> recordFail s ''deploy'' (rq_Name req) ''error'' e (DKey e)
      | Ok key \<Rightarrow>
        (\<lambda>tr. case openSource s src tr of
            (Err e, tr1) \<Rightarrow> (case e of
                DRewind m \<Rightarrow> recordFail s ''deploy'' (rq_Name req) ''error'' (''rewind source: '' @ m) (DStore m) tr1
              | _ \<Rightarrow> (Err e, tr1))
          | (Ok b, tr1) \<Rightarrow>
              bindE (callE (CPut key b) (\<lambda>tr. Ok (e_Put s tr key b))) (\<lambda>pr. case pr of
                Err e \<Rightarrow> recordFail s ''deploy'' (rq_Name req) ''error'' e (DStore e)
              | Ok refURL \<Rightarrow>
                  bindE (callE CNow (\<lambda>tr. Ok (e_Now s tr))) (\<lambda>now.
                  let rec = \<lparr>vr_Version = version, vr_Timestamp = e_Format s now, vr_Template = template,
                             vr_Lane = lane_string lane, vr_SourceHash = EncodeToString (e_sha256 s (fst src)),
                             vr_TarballKey = key, vr_TarballRef = refURL, vr_RolledBackFrom = 0\<rparr>;
                      (kept, evicted) = appendCapped history rec maxVersions
                  in retE (key, refURL, kept, evicted))) tr1)))"

definition writeApp ::
  "env \<Rightarrow> Request \<Rightarrow> Tenant \<Rightarrow> Lane \<Rightarrow> string \<Rightarrow> string \<Rightarrow> VibedApp option \<Rightarrow>
   string \<times> string \<times> VersionRecord list \<times> string list \<Rightarrow> unit prog" where
  "writeApp s req t lane template department existing v =
     (case v of (key, refURL, kept, evicted) \<Rightarrow>
      let labels = deployLabels req t department; sp = deploySpec req lane template refURL in
      case existing of
        None \<Rightarrow>
          let app = newApp (rq_Name req) (tenant_Namespace t) labels (marshalVersions kept) sp in
          bindE (callE (CCreate app) (\<lambda>tr. Ok (e_Create s tr app))) (\<lambda>cerr. case cerr of
            None \<Rightarrow> retE ()
          | Some e \<Rightarrow> bindE (tell (CBlobDelete key))
              (\<lambda>_. recordFail s ''deploy'' (rq_Name req) ''error'' (kerr_Error e) (DCreate e)))
      | Some ex \<Rightarrow>
          let app = ex\<lparr>app_Spec := sp, app_Labels := app_Labels ex ++ labels,
                       app_Versions := marshalVersions kept\<rparr> in
          bindE (callE (CUpdate app) (\<lambda>tr. Ok (e_Update s tr app))) (\<lambda>ur. case ur of
            Ok _ \<Rightarrow> retE ()
          | Err e \<Rightarrow> recordFail s ''deploy'' (rq_Name req) ''error'' (kerr_Error e) (DUpdate e)))"

text \<open>After the write: the reservation is dropped, aged-out blobs are pruned, the deploy is recorded
  and metered.\<close>

definition afterWrite :: "env \<Rightarrow> Request \<Rightarrow> Tenant \<Rightarrow> bool \<Rightarrow> string list \<Rightarrow> unit prog" where
  "afterWrite s req t held evicted tr =
     bindE (forE (\<lambda>k. tell (CBlobDelete k)) evicted) (\<lambda>_.
     bindE (recordAudit s ''deploy'' (rq_Name req) ''ok'' '''') (\<lambda>_.
     meter s \<lparr>me_Kind = ''deploy'', me_Tenant = tenant_ID t, me_Owner = rq_Owner req,
              me_App = rq_Name req, me_Namespace = tenant_Namespace t\<rparr>)) (releaseQuota held tr)"

text \<open>Everything after the gates, up to \<open>deployed = true\<close>.\<close>

definition commit ::
  "env \<Rightarrow> Request \<Rightarrow> Tenant \<Rightarrow> Lane \<Rightarrow> string \<Rightarrow> byte list \<times> origin \<Rightarrow> VibedApp option \<Rightarrow>
   string \<times> bool \<Rightarrow> unit prog" where
  "commit s req t lane template src existing q =
     bindE (storeVersion s req lane template src (case existing of None \<Rightarrow> [] | Some app \<Rightarrow> loadVersions app)) (\<lambda>v.
     bindE (writeApp s req t lane template (fst q) existing v) (\<lambda>_.
     afterWrite s req t (snd q) (snd (snd (snd v)))))"

definition gates ::
  "env \<Rightarrow> Request \<Rightarrow> Tenant \<Rightarrow> Lane \<Rightarrow> string \<Rightarrow> byte list \<times> origin \<Rightarrow> VibedApp option \<Rightarrow> (string \<times> bool) prog" where
  "gates s req t lane template src existing =
     bindE (gatePolicy s req t lane template existing (fst src)) (\<lambda>_.
     bindE (gateOwner s req existing) (\<lambda>_.
     bindE (gateAuthz s req t existing) (\<lambda>_.
     gateQuota s req t existing)))"

definition deployMetrics :: "env \<Rightarrow> bool \<Rightarrow> bool \<Rightarrow> string \<Rightarrow> trace \<Rightarrow> trace" where
  "deployMetrics s deployed isNew template tr =
     (if \<not> e_Metrics s then tr
      else (let tr1 = tr @ [CMetric (if deployed then ''success'' else ''failed'') template] in
            if deployed \<and> isNew then tr1 @ [CActive 1 template] else tr1))"

text \<open>The body after the lookup, with the deferred release and metrics in the order they run.\<close>

definition deployBody ::
  "env \<Rightarrow> Request \<Rightarrow> Tenant \<Rightarrow> Lane \<Rightarrow> string \<Rightarrow> byte list \<times> origin \<Rightarrow> VibedApp option \<Rightarrow> Result prog" where
  "deployBody s req t lane template src existing tr =
     (let metrics = (\<lambda>deployed. deployMetrics s deployed (existing = None) template) in
      case gates s req t lane template src existing tr of
           (Err e, tr1) \<Rightarrow> (Err e, metrics False tr1)
         | (Ok q, tr1) \<Rightarrow> (case commit s req t lane template src existing q tr1 of
             (Err e, tr2) \<Rightarrow> (Err e, metrics False (releaseQuota (snd q) tr2))
           | (Ok _, tr2) \<Rightarrow> (case waitReady s (tenant_Namespace t) (rq_Name req) tr2 of
               (r, tr3) \<Rightarrow> (r, metrics True (releaseQuota (snd q) tr3)))))"

definition Deploy :: "env \<Rightarrow> Request \<Rightarrow> Result prog" where
  "Deploy s0 req =
     (let s = defaults s0 in
      if \<not> dnsName (rq_Name req) then failE (DInvalidName (rq_Name req))
      else if rq_Owner req = '''' then failE DOwnerRequired
      else bindE (resolveTenant s) (\<lambda>t.
           bindE (acquireSource s (rq_Tarball req)) (\<lambda>src.
           deferE (\<lambda>_. cleanup (snd src))
             (bindE (classify s req src) (\<lambda>(lane, template).
              bindE (lookupExisting s (tenant_Namespace t) (rq_Name req)) (\<lambda>existing.
              deployBody s req t lane template src existing))))))"

end
