(* ===== verification/Deploy_Facts.thy ===== *)
theory Deploy_Facts
  imports Deploy
begin

section \<open>What a deploy does and does not do\<close>

text \<open>
  The theorems about \<open>Deploy\<close>.  Each stage has a \<open>spec\<close> lemma; \<open>Deploy_spec\<close> composes them, and
  \<open>Deploy_cases\<close> and \<open>commit_effects\<close> are the case analyses the properties use.
\<close>

subsection \<open>What each stage does\<close>

fun mutating :: "call \<Rightarrow> bool" where
  "mutating (CPut _ _) = True"
| "mutating (CBlobDelete _) = True"
| "mutating (CCreate _) = True"
| "mutating (CUpdate _) = True"
| "mutating (CDelete _) = True"
| "mutating (CLinkCreate _ _) = True"
| "mutating (CLinkRevoke _) = True"
| "mutating _ = False"

fun audit_outcomes :: "trace \<Rightarrow> string list" where
  "audit_outcomes [] = []"
| "audit_outcomes (CAudit _ _ o' _ # tr) = o' # audit_outcomes tr"
| "audit_outcomes (_ # tr) = audit_outcomes tr"

lemma audit_outcomes_append [simp]: "audit_outcomes (a @ b) = audit_outcomes a @ audit_outcomes b"
  by (induction a rule: audit_outcomes.induct) auto

definition audited :: "env \<Rightarrow> string \<Rightarrow> string list" where
  "audited s o' = (case e_Audit s of None \<Rightarrow> [] | Some _ \<Rightarrow> [o'])"

text \<open>A call that neither changes anything, nor is an audit event, nor touches the quota.\<close>

fun quiet :: "call \<Rightarrow> bool" where
  "quiet (CAudit _ _ _ _) = False"
| "quiet (CQuotaAuthorize _ _ _) = False"
| "quiet CQuotaRelease = False"
| "quiet c = (\<not> mutating c)"

lemma quiet_not_mutating: "quiet c \<Longrightarrow> \<not> mutating c"
  by (cases c) auto

lemma quiet_audits: "list_all quiet tr \<Longrightarrow> audit_outcomes tr = []"
  by (induction tr rule: audit_outcomes.induct) auto

lemma quiet_unmutating: "list_all quiet tr \<Longrightarrow> list_all (\<lambda>c. \<not> mutating c) tr"
  by (auto simp: list_all_iff quiet_not_mutating)

lemmas prog_defs = bindE_def callE_def tell_def retE_def failE_def errE_def mapE_def

lemma recordFail_run:
  "recordFail s a t o' d e tr = (Err e, tr @ (case e_Audit s of None \<Rightarrow> [] | Some _ \<Rightarrow> [CAudit a t o' d]))"
  by (simp add: recordFail_def recordAudit_def prog_defs split: option.split)

lemma quiet_resolveTenant [emits_intros]: "emits (resolveTenant s) quiet"
  unfolding emits_def by (rule specI) (auto simp: resolveTenant_def tenantOf_def Let_def split: option.split prod.split)

lemma quiet_openSource [emits_intros]: "emits (openSource s src) quiet"
  unfolding openSource_def by (intro emits_intros) simp_all

lemma quiet_classify [emits_intros]: "emits (classify s req src) quiet"
  unfolding classify_def Let_def by (intro emits_intros) simp_all

lemma quiet_lookup [emits_intros]: "emits (lookupExisting s ns name) quiet"
  unfolding lookupExisting_def by (intro emits_intros) simp

lemma quiet_streamSource: "emits (streamSource s r mx) quiet"
  unfolding emits_def
  by (rule specI)
    (auto simp: streamSource_def prog_defs split: option.splits sum.splits)

lemma quiet_acquire [emits_intros]: "emits (acquireSource s r) quiet"
  unfolding acquireSource_def by (intro emits_intros quiet_streamSource)

lemma quiet_getApp [emits_intros]: "emits (getApp s f ns name) quiet"
  unfolding getApp_def by (intro emits_intros) simp

lemma getApp_run: "getApp s f ns name tr = (mapE f (e_Get s tr ns name), tr @ [CGet ns name])"
  by (simp add: getApp_def callE_def)

declare pollReady.simps [simp del]

text \<open>The calls a wait makes.\<close>

fun waiting :: "call \<Rightarrow> bool" where
  "waiting (CGet _ _) = True"
| "waiting CNow = True"
| "waiting CWatch = True"
| "waiting CEvents = True"
| "waiting CSleep = True"
| "waiting _ = False"

lemma waiting_quiet: "list_all waiting tr \<Longrightarrow> list_all quiet tr"
proof (induction tr)
  case (Cons c tr)
  then show ?case by (cases c) simp_all
qed simp

text \<open>What waiting guarantees: it only reads, it fails only with a failed read or a cancelled
  context, and a ready result is one the API server reported, or a watch event carried.\<close>

definition wait_post :: "env \<Rightarrow> string \<Rightarrow> string \<Rightarrow> trace \<Rightarrow> (derr, Result) result \<Rightarrow> trace \<Rightarrow> bool" where
  "wait_post s ns name tr r new \<longleftrightarrow> list_all waiting new \<and>
     (case r of
        Err e \<Rightarrow> (\<exists>k. e = DWait k) \<or> (\<exists>m. e = DContext m)
      | Ok res \<Rightarrow> r_AppID res = name \<and> (r_Ready res \<longrightarrow> r_Phase res = PhaseReady \<and> (\<exists>pre app.
          (e_Get s (tr @ pre) ns name = Ok app \<or> EvApp app \<in> set (e_Events s (tr @ pre))) \<and>
          phaseResult name app = Some res \<and> st_Phase (app_Status app) = PhaseReady)))"

lemma phaseResult_Some:
  "phaseResult name app = Some res \<Longrightarrow> r_AppID res = name \<and> r_Phase res = st_Phase (app_Status app) \<and>
     r_URL res = st_URL (app_Status app) \<and> r_Ready res = (st_Phase (app_Status app) = PhaseReady)"
  by (auto simp: phaseResult_def withReadyCondition_def mkResult_def split: Phase.splits option.splits)

lemma wait_post_seen:
  assumes "phaseResult name app = Some res" "list_all waiting new"
    "e_Get s (tr @ pre) ns name = Ok app \<or> EvApp app \<in> set (e_Events s (tr @ pre))"
  shows "wait_post s ns name tr (Ok res) new"
  using phaseResult_Some [OF assms(1)] assms unfolding wait_post_def by auto

lemma wait_post_shift:
  assumes "wait_post s ns name (tr @ a) r new" "list_all waiting a"
  shows "wait_post s ns name tr r (a @ new)"
  using assms unfolding wait_post_def by (auto split: sum.splits)

lemma pollReady_post:
  "\<exists>new. snd (pollReady s ns name deadline now tr) = tr @ new \<and>
      wait_post s ns name tr (fst (pollReady s ns name deadline now tr)) new"
proof (induction s ns name deadline now tr rule: pollReady.induct)
  case (1 s ns name deadline now tr)
  let ?tr1 = "tr @ [CGet ns name]"
  note unf = pollReady.simps [of s ns name deadline now tr] getApp_run
  show ?case
  proof (cases "e_Get s tr ns name")
    case (Inl e)
    then show ?thesis by (auto simp: unf mapE_def wait_post_def)
  next
    case ok: (Inr app)
    show ?thesis
    proof (cases "phaseResult name app")
      case (Some res)
      with ok wait_post_seen [OF Some, of "[CGet ns name]" s tr "[]" ns] show ?thesis
        by (auto simp: unf mapE_def)
    next
      case None
      obtain c late where sl: "e_Sleep s ?tr1 = (c, late)" by fastforce
      show ?thesis
      proof (cases "deadline < now \<or> c \<noteq> None")
        case True
        with ok None sl show ?thesis
          by (cases c) (auto simp: unf mapE_def wait_post_def mkResult_def)
      next
        case False
        then have "pollReady s ns name deadline now tr =
            pollReady s ns name deadline (now + max 1 (e_PollInterval s) + int late) (?tr1 @ [CSleep])"
          using ok None sl by (simp add: unf mapE_def)
        moreover have "getApp s DWait ns name tr = (Ok app, ?tr1)"
          using ok by (simp add: getApp_run mapE_def)
        with 1 [of "Ok app" ?tr1 app c late] ok None sl False obtain new where
          "snd (pollReady s ns name deadline (now + max 1 (e_PollInterval s) + int late) (?tr1 @ [CSleep]))
             = tr @ [CGet ns name, CSleep] @ new"
          "wait_post s ns name (tr @ [CGet ns name, CSleep])
             (fst (pollReady s ns name deadline (now + max 1 (e_PollInterval s) + int late) (?tr1 @ [CSleep]))) new"
          by auto
        ultimately show ?thesis using wait_post_shift [of s ns name tr "[CGet ns name, CSleep]"] by fastforce
      qed
    qed
  qed
qed

lemma pollReady_spec: "spec (pollReady s ns name deadline now) (wait_post s ns name)"
  by (rule specI) (rule pollReady_post)

lemma watchLoop_post:
  "\<exists>new. snd (watchLoop s ns name deadline now lp evs tr) = tr @ new \<and>
     (set evs \<subseteq> set (e_Events s tr0) \<longrightarrow> tr = tr0 @ [CEvents] \<longrightarrow>
      wait_post s ns name tr0 (fst (watchLoop s ns name deadline now lp evs tr)) (CEvents # new))"
proof (induction s ns name deadline now lp evs tr rule: watchLoop.induct)
  case (3 s ns name deadline now lp evs tr)
  from pollReady_post [of s ns name deadline now tr] wait_post_shift [of s ns name tr0 "[CEvents]"]
  show ?case by fastforce
next
  case (6 s ns name deadline now lp app evs tr)
  show ?case
  proof (cases "app_Name app \<noteq> name \<or> app_Namespace app \<noteq> ns \<or> phaseResult name app = None")
    case True
    with 6 show ?thesis by auto
  next
    case False
    then obtain res where res: "phaseResult name app = Some res" by auto
    with False wait_post_seen [OF res, of "[CEvents]" s tr0 "[]" ns] show ?thesis by auto
  qed
qed (auto simp: wait_post_def mkResult_def)

lemma watchReady_spec: "spec (watchReady s ns name deadline now) (wait_post s ns name)"
proof (rule specI)
  fix tr
  let ?w = "watchReady s ns name deadline now tr" and ?tr1 = "tr @ [CGet ns name]"
  note unf = watchReady_def bindE_def getApp_run mapE_def
  show "\<exists>new. snd ?w = tr @ new \<and> wait_post s ns name tr (fst ?w) new"
  proof (cases "e_Get s tr ns name")
    case (Inl e)
    then show ?thesis by (auto simp: unf wait_post_def)
  next
    case ok: (Inr app)
    show ?thesis
    proof (cases "phaseResult name app")
      case (Some res)
      with ok wait_post_seen [OF Some, of "[CGet ns name]" s tr "[]" ns] show ?thesis
        by (auto simp: unf retE_def)
    next
      case None
      have "?w = watchLoop s ns name deadline now (st_Phase (app_Status app)) (e_Events s ?tr1) (?tr1 @ [CEvents])"
        using ok None by (simp add: unf callE_def)
      with watchLoop_post [of s ns name deadline now "st_Phase (app_Status app)" "e_Events s ?tr1"
          "?tr1 @ [CEvents]" ?tr1] wait_post_shift [of s ns name tr "[CGet ns name]"]
      show ?thesis by fastforce
    qed
  qed
qed

lemma waitReady_spec: "spec (waitReady s ns name) (wait_post s ns name)"
proof (rule specI)
  fix tr
  let ?w = "waitReady s ns name tr"
  let ?n = "e_Now s tr" and ?t = "tr @ [CNow]"
  obtain m a where am: "?w = m (tr @ a)" "list_all waiting a" "spec m (wait_post s ns name)"
  proof (cases "e_Watch s")
    case None
    then have "?w = pollReady s ns name (?n + e_DeployTimeout s) ?n (tr @ [CNow])"
      by (simp add: waitReady_def bindE_def callE_def Let_def)
    then show thesis using pollReady_spec by (intro that) auto
  next
    case (Some w)
    show thesis
    proof (cases "w ?t")
      case None
      with Some have "?w = watchReady s ns name (?n + e_DeployTimeout s) ?n (tr @ [CNow, CWatch])"
        by (simp add: waitReady_def bindE_def callE_def Let_def)
      then show thesis using watchReady_spec by (intro that) auto
    next
      case (Some e)
      with \<open>e_Watch s = Some w\<close> have "?w = pollReady s ns name (?n + e_DeployTimeout s) ?n (tr @ [CNow, CWatch])"
        by (simp add: waitReady_def bindE_def callE_def Let_def)
      then show thesis using pollReady_spec by (intro that) auto
    qed
  qed
  from am(3) obtain new where "snd ?w = (tr @ a) @ new" "wait_post s ns name (tr @ a) (fst ?w) new"
    unfolding am(1) spec_def by blast
  with wait_post_shift [OF _ am(2), of s ns name tr] show "\<exists>new. snd ?w = tr @ new \<and> wait_post s ns name tr (fst ?w) new"
    by fastforce
qed

subsection \<open>The gates\<close>

fun denial :: "derr \<Rightarrow> bool" where
  "denial (DPolicy _) = True"
| "denial DNotOwner = True"
| "denial (DAuthz _) = True"
| "denial (DQuota _) = True"
| "denial _ = False"

definition may_replace :: "env \<Rightarrow> Request \<Rightarrow> VibedApp option \<Rightarrow> bool" where
  "may_replace s req existing \<longleftrightarrow> (case existing of None \<Rightarrow> True | Some app \<Rightarrow>
     spec_Owner (app_Spec app) = '''' \<or> spec_Owner (app_Spec app) = rq_Owner req \<or> e_Role s = ''admin'')"

definition gate_post :: "env \<Rightarrow> (derr, 'a) result \<Rightarrow> trace \<Rightarrow> bool" where
  "gate_post s r new \<longleftrightarrow> list_all (\<lambda>c. \<not> mutating c \<and> c \<noteq> CQuotaRelease) new \<and>
     (case r of Ok _ \<Rightarrow> audit_outcomes new = [] | Err e \<Rightarrow> denial e \<and> audit_outcomes new = audited s ''denied'')"

lemma gatePolicy_spec: "spec (gatePolicy s req t lane template ex b) (\<lambda>tr r new. gate_post s r new)"
  by (rule specI)
    (auto simp: gatePolicy_def prog_defs recordFail_run gate_post_def audited_def Let_def split: option.splits)

lemma gateOwner_spec:
  "spec (gateOwner s req ex) (\<lambda>tr r new. gate_post s r new \<and> (r = Ok () \<longrightarrow> may_replace s req ex))"
  by (rule specI)
    (auto simp: gateOwner_def prog_defs recordFail_run gate_post_def audited_def may_replace_def split: option.splits)

lemma gateAuthz_spec: "spec (gateAuthz s req t ex) (\<lambda>tr r new. gate_post s r new)"
  by (rule specI)
    (auto simp: gateAuthz_def prog_defs recordFail_run gate_post_def audited_def Let_def split: option.splits)

lemma gateQuota_spec:
  "spec (gateQuota s req t ex) (\<lambda>tr r new. gate_post s r new \<and>
     (\<forall>q. r = Ok q \<longrightarrow> snd q = (e_Quota s \<noteq> None) \<and> (snd q \<longrightarrow> CQuotaAuthorize t (rq_Owner req) (ex = None) \<in> set new)))"
  by (rule specI)
    (auto simp: gateQuota_def prog_defs recordFail_run gate_post_def audited_def split: option.splits sum.splits)

lemma gate_post_append:
  "gate_post s (Ok x) a \<Longrightarrow> gate_post s r b \<Longrightarrow> gate_post s r (a @ b)"
  by (auto simp: gate_post_def split: sum.splits)

lemma gate_post_Err: "gate_post s (Err e :: (derr, 'a) result) new \<Longrightarrow> gate_post s (Err e :: (derr, 'b) result) new"
  by (simp add: gate_post_def)

lemma gates_spec:
  "spec (gates s req t lane template src ex) (\<lambda>tr r new. gate_post s r new \<and>
     (\<forall>q. r = Ok q \<longrightarrow> may_replace s req ex \<and> snd q = (e_Quota s \<noteq> None) \<and>
        (snd q \<longrightarrow> CQuotaAuthorize t (rq_Owner req) (ex = None) \<in> set new)))"
proof -
  let ?Q = "\<lambda>tr (r :: (derr, string \<times> bool) result) new. gate_post s r new \<and>
     (\<forall>q. r = Ok q \<longrightarrow> snd q = (e_Quota s \<noteq> None) \<and> (snd q \<longrightarrow> CQuotaAuthorize t (rq_Owner req) (ex = None) \<in> set new))"
  have authz: "spec (bindE (gateAuthz s req t ex) (\<lambda>_. gateQuota s req t ex)) ?Q"
    by (rule spec_bindE [OF gateAuthz_spec gateQuota_spec]) (auto intro: gate_post_append gate_post_Err)
  have owner: "spec (bindE (gateOwner s req ex) (\<lambda>_. bindE (gateAuthz s req t ex) (\<lambda>_. gateQuota s req t ex)))
      (\<lambda>tr r new. ?Q tr r new \<and> (\<forall>q. r = Ok q \<longrightarrow> may_replace s req ex))"
    by (rule spec_bindE [OF gateOwner_spec authz]) (auto intro: gate_post_append gate_post_Err)
  show ?thesis unfolding gates_def
    by (rule spec_bindE [OF gatePolicy_spec owner]) (auto intro: gate_post_append gate_post_Err)
qed

subsection \<open>Storing and writing\<close>

definition history_of :: "VibedApp option \<Rightarrow> VersionRecord list" where
  "history_of existing = (case existing of None \<Rightarrow> [] | Some app \<Rightarrow> loadVersions app)"

lemma openSource_run:
  "openSource s src tr =
     (if snd src = FromBuffer then (Ok (fst src), tr)
      else (case e_Rewind s tr of Some e \<Rightarrow> Err (DRewind e) | None \<Rightarrow> Ok (fst src), tr @ [CRewind]))"
  by (simp add: openSource_def prog_defs split: option.split)

definition stored :: "Request \<Rightarrow> byte list \<Rightarrow> VersionRecord list \<Rightarrow> string \<Rightarrow> VersionRecord list \<Rightarrow> string list \<Rightarrow> bool" where
  "stored req b h key kept ev \<longleftrightarrow> (\<exists>rec buf. appendCapped h rec maxVersions = (kept, ev) \<and>
     vr_TarballKey rec = key \<and> vr_Version rec = nextVersion h \<and>
     Ok key = newVersionKey (Ok buf) (rq_Name req) (nextVersion h))"

lemma storeVersion_spec:
  "spec (storeVersion s req lane template src h) (\<lambda>tr r new. list_all (\<lambda>c. c \<noteq> CQuotaRelease) new \<and>
     (case r of
        Ok (key, ref, kept, ev) \<Rightarrow> audit_outcomes new = [] \<and> filter mutating new = [CPut key (fst src)] \<and>
          stored req (fst src) h key kept ev
      | Err e \<Rightarrow> audit_outcomes new = audited s ''error'' \<and>
          ((\<exists>m. e = DKey m) \<and> filter mutating new = [] \<or>
           (\<exists>m. e = DStore m) \<and> (filter mutating new = [] \<or> (\<exists>key. filter mutating new = [CPut key (fst src)])))))"
proof (rule specI)
  fix tr
  show "\<exists>new. snd (storeVersion s req lane template src h tr) = tr @ new \<and> list_all (\<lambda>c. c \<noteq> CQuotaRelease) new \<and>
     (case fst (storeVersion s req lane template src h tr) of
        Ok (key, ref, kept, ev) \<Rightarrow> audit_outcomes new = [] \<and> filter mutating new = [CPut key (fst src)] \<and>
          stored req (fst src) h key kept ev
      | Err e \<Rightarrow> audit_outcomes new = audited s ''error'' \<and>
          ((\<exists>m. e = DKey m) \<and> filter mutating new = [] \<or>
           (\<exists>m. e = DStore m) \<and> (filter mutating new = [] \<or> (\<exists>key. filter mutating new = [CPut key (fst src)]))))"
  proof (cases "newVersionKey (e_Rand s tr 16) (rq_Name req) (nextVersion h)")
    case (Inl e)
    then show ?thesis
      by (auto simp: storeVersion_def prog_defs recordFail_run audited_def Let_def split: option.splits)
  next
    case key: (Inr key)
    then obtain buf where buf: "e_Rand s tr 16 = Ok buf" by (auto simp: newVersionKey_def split: sum.splits)
    have k: "Ok key = newVersionKey (Ok buf) (rq_Name req) (nextVersion h)" using key buf by simp
    have st: "stored req (fst src) h key (fst (appendCapped h rec maxVersions)) (snd (appendCapped h rec maxVersions))"
      if "vr_TarballKey rec = key" "vr_Version rec = nextVersion h" for rec
      using that k unfolding stored_def by (intro exI [of _ rec] exI [of _ buf]) simp
    show ?thesis
    proof (cases "fst (openSource s src (tr @ [CRand 16]))")
      case (Inl e)
      with key show ?thesis
        by (auto simp: storeVersion_def prog_defs openSource_run recordFail_run audited_def Let_def
            split: option.splits if_splits)
    next
      case (Inr b)
      with key show ?thesis
        by (auto simp: storeVersion_def prog_defs openSource_run recordFail_run audited_def Let_def case_prod_beta
            intro!: st split: option.splits if_splits sum.splits)
    qed
  qed
qed

definition write_call :: "VibedApp option \<Rightarrow> VibedApp \<Rightarrow> call" where
  "write_call existing app = (case existing of None \<Rightarrow> CCreate app | Some _ \<Rightarrow> CUpdate app)"

text \<open>What the written app is: the requester's, labelled with its owner, carrying the new history.\<close>

definition written :: "Request \<Rightarrow> Tenant \<Rightarrow> VibedApp option \<Rightarrow> VersionRecord list \<Rightarrow> VibedApp \<Rightarrow> bool" where
  "written req t existing kept app \<longleftrightarrow> loadVersions app = kept \<and> spec_Owner (app_Spec app) = rq_Owner req \<and>
     owner_labelled app \<and>
     (case existing of None \<Rightarrow> app_Name app = rq_Name req \<and> app_Namespace app = tenant_Namespace t
      | Some ex \<Rightarrow> app_Name app = app_Name ex \<and> app_Namespace app = app_Namespace ex \<and> app_UID app = app_UID ex)"

lemma deployLabels_owner: "deployLabels req t d LabelOwner = Some (SanitizeLabel (rq_Owner req))"
  by (simp add: deployLabels_def Let_def LabelOwner_def LabelDepartment_def LabelTenant_def)

lemma writeApp_spec:
  "spec (writeApp s req t lane template dept ex (key, ref, kept, ev)) (\<lambda>tr r new.
     list_all (\<lambda>c. c \<noteq> CQuotaRelease) new \<and>
     (\<exists>app. written req t ex kept app \<and>
       (case r of
          Ok _ \<Rightarrow> audit_outcomes new = [] \<and> filter mutating new = [write_call ex app]
        | Err e \<Rightarrow> audit_outcomes new = audited s ''error'' \<and>
            ((\<exists>k. e = DCreate k) \<and> ex = None \<and> filter mutating new = [CCreate app, CBlobDelete key] \<or>
             (\<exists>k. e = DUpdate k) \<and> ex \<noteq> None \<and> filter mutating new = [CUpdate app]))))"
proof (cases ex)
  case None
  let ?app = "newApp (rq_Name req) (tenant_Namespace t) (deployLabels req t dept) (marshalVersions kept)
      (deploySpec req lane template ref)"
  have w: "written req t ex kept ?app"
    by (simp add: written_def newApp_def deploySpec_def loadVersions_def marshalVersions_def owner_labelled_def
        deployLabels_owner None)
  show ?thesis
    by (rule specI) (use w None in \<open>auto simp: writeApp_def prog_defs recordFail_run audited_def write_call_def Let_def
        split: option.splits intro!: exI [of _ ?app]\<close>)
next
  case (Some x)
  let ?app = "x\<lparr>app_Spec := deploySpec req lane template ref, app_Labels := app_Labels x ++ deployLabels req t dept,
      app_Versions := marshalVersions kept\<rparr>"
  have w: "written req t ex kept ?app"
    by (simp add: written_def deploySpec_def loadVersions_def marshalVersions_def owner_labelled_def
        deployLabels_owner Some map_add_def)
  show ?thesis
    by (rule specI) (use w Some in \<open>auto simp: writeApp_def prog_defs recordFail_run audited_def write_call_def Let_def
        split: option.splits sum.splits intro!: exI [of _ ?app]\<close>)
qed

lemma forE_blobs:
  "forE (\<lambda>k. tell (CBlobDelete k)) ks tr = (Ok (), tr @ map CBlobDelete ks)"
  by (induction ks arbitrary: tr) (simp_all add: prog_defs)

lemma filter_mutating_blobs [simp]:
  "filter mutating (map CBlobDelete ks) = map CBlobDelete ks" "audit_outcomes (map CBlobDelete ks) = []"
  by (induction ks) simp_all

lemma afterWrite_spec:
  "spec (afterWrite s req t held ev) (\<lambda>tr r new.
     filter mutating new = map CBlobDelete ev \<and> audit_outcomes new = audited s ''ok'' \<and>
     (held \<longrightarrow> (\<exists>c. new = CQuotaRelease # c)) \<and>
     (r = Ok () \<or> (\<exists>m. r = Err (DAudit m))))"
proof (rule specI)
  fix tr
  let ?new = "(if held then [CQuotaRelease] else []) @ map CBlobDelete ev @
     (case e_Audit s of None \<Rightarrow> [] | Some _ \<Rightarrow> [CAudit ''deploy'' (rq_Name req) ''ok'' ''''])"
  let ?m = "if e_Meter s then [CMeter \<lparr>me_Kind = ''deploy'', me_Tenant = tenant_ID t, me_Owner = rq_Owner req,
              me_App = rq_Name req, me_Namespace = tenant_Namespace t\<rparr>] else []"
  note unf = afterWrite_def bindE_def forE_blobs recordAudit_def meter_def releaseQuota_def callE_def
    retE_def tell_def errE_def
  have "snd (afterWrite s req t held ev tr) = tr @ ?new @ (if fst (afterWrite s req t held ev tr) = Ok () then ?m else [])
     \<and> (fst (afterWrite s req t held ev tr) = Ok () \<or> (\<exists>m. fst (afterWrite s req t held ev tr) = Err (DAudit m)))"
    by (auto simp: unf split: option.split)
  then show "\<exists>new. snd (afterWrite s req t held ev tr) = tr @ new \<and>
     filter mutating new = map CBlobDelete ev \<and> audit_outcomes new = audited s ''ok'' \<and>
     (held \<longrightarrow> (\<exists>c. new = CQuotaRelease # c)) \<and>
     (fst (afterWrite s req t held ev tr) = Ok () \<or> (\<exists>m. fst (afterWrite s req t held ev tr) = Err (DAudit m)))"
    by (intro exI [of _ "?new @ (if fst (afterWrite s req t held ev tr) = Ok () then ?m else [])"] conjI)
      (auto simp: audited_def split: option.splits)
qed

text \<open>The possible courses of the write, given the version that was stored, and of the whole
  commit: which calls change something, in which order, and what is recorded.\<close>

definition write_post ::
  "env \<Rightarrow> VibedApp option \<Rightarrow> bool \<Rightarrow> string \<Rightarrow> string list \<Rightarrow> VibedApp \<Rightarrow> (derr, unit) result \<Rightarrow> trace \<Rightarrow> bool" where
  "write_post s ex held key ev app r new \<longleftrightarrow>
     (\<exists>k. r = Err (DCreate k)) \<and> audit_outcomes new = audited s ''error'' \<and> ex = None \<and>
       filter mutating new = [CCreate app, CBlobDelete key] \<or>
     (\<exists>k. r = Err (DUpdate k)) \<and> audit_outcomes new = audited s ''error'' \<and> ex \<noteq> None \<and>
       filter mutating new = [CUpdate app] \<or>
     (r = Ok () \<or> (\<exists>m. r = Err (DAudit m))) \<and> audit_outcomes new = audited s ''ok'' \<and>
       filter mutating new = write_call ex app # map CBlobDelete ev \<and>
       (held \<longrightarrow> (\<exists>a c. new = a @ CQuotaRelease # c \<and> filter mutating a = [write_call ex app]))"

definition commit_post ::
  "env \<Rightarrow> Request \<Rightarrow> Tenant \<Rightarrow> byte list \<Rightarrow> VibedApp option \<Rightarrow> bool \<Rightarrow> (derr, unit) result \<Rightarrow> trace \<Rightarrow> bool" where
  "commit_post s req t b ex held r new \<longleftrightarrow>
     (\<exists>m. r = Err (DKey m)) \<and> audit_outcomes new = audited s ''error'' \<and> filter mutating new = [] \<or>
     (\<exists>m. r = Err (DStore m)) \<and> audit_outcomes new = audited s ''error'' \<and>
       (filter mutating new = [] \<or> (\<exists>key. filter mutating new = [CPut key b])) \<or>
     (\<exists>key kept ev app a c. stored req b (history_of ex) key kept ev \<and> written req t ex kept app \<and>
       new = a @ c \<and> filter mutating a = [CPut key b] \<and> audit_outcomes a = [] \<and>
       write_post s ex held key ev app r c)"

lemma write_spec:
  "spec (bindE (writeApp s req t lane template dept ex (key, ref, kept, ev)) (\<lambda>_. afterWrite s req t held ev))
     (\<lambda>tr r new. \<exists>app. written req t ex kept app \<and> write_post s ex held key ev app r new)"
proof (rule spec_bindE [OF writeApp_spec afterWrite_spec])
  fix tr :: trace and x and new r new'
  assume "list_all (\<lambda>c. c \<noteq> CQuotaRelease) new \<and> (\<exists>app. written req t ex kept app \<and>
       (case Ok x of
          Ok _ \<Rightarrow> audit_outcomes new = [] \<and> filter mutating new = [write_call ex app]
        | Err e \<Rightarrow> audit_outcomes new = audited s ''error'' \<and>
            ((\<exists>k. e = DCreate k) \<and> ex = None \<and> filter mutating new = [CCreate app, CBlobDelete key] \<or>
             (\<exists>k. e = DUpdate k) \<and> ex \<noteq> None \<and> filter mutating new = [CUpdate app])))"
    and "filter mutating new' = map CBlobDelete ev \<and> audit_outcomes new' = audited s ''ok'' \<and>
     (held \<longrightarrow> (\<exists>c. new' = CQuotaRelease # c)) \<and> (r = Ok () \<or> (\<exists>m. r = Err (DAudit m)))"
  then show "\<exists>app. written req t ex kept app \<and> write_post s ex held key ev app r (new @ new')"
    unfolding write_post_def by auto
next
  fix tr :: trace and e new
  assume "list_all (\<lambda>c. c \<noteq> CQuotaRelease) new \<and> (\<exists>app. written req t ex kept app \<and>
       (case Err e of
          Ok _ \<Rightarrow> audit_outcomes new = [] \<and> filter mutating new = [write_call ex app]
        | Err e \<Rightarrow> audit_outcomes new = audited s ''error'' \<and>
            ((\<exists>k. e = DCreate k) \<and> ex = None \<and> filter mutating new = [CCreate app, CBlobDelete key] \<or>
             (\<exists>k. e = DUpdate k) \<and> ex \<noteq> None \<and> filter mutating new = [CUpdate app])))"
  then show "\<exists>app. written req t ex kept app \<and> write_post s ex held key ev app (Err e) new"
    unfolding write_post_def by auto
qed

lemma commit_spec:
  "spec (commit s req t lane template src ex q) (\<lambda>tr r new. commit_post s req t (fst src) ex (snd q) r new)"
  unfolding commit_def
proof (rule spec_bindE [OF storeVersion_spec, where ?Q2.0 = "\<lambda>v tr r new.
    \<exists>app. written req t ex (fst (snd (snd v))) app \<and>
      write_post s ex (snd q) (fst v) (snd (snd (snd v))) app r new"])
  fix v
  show "spec (bindE (writeApp s req t lane template (fst q) ex v) (\<lambda>_. afterWrite s req t (snd q) (snd (snd (snd v)))))
     (\<lambda>tr r new. \<exists>app. written req t ex (fst (snd (snd v))) app \<and>
      write_post s ex (snd q) (fst v) (snd (snd (snd v))) app r new)"
    using write_spec by (cases v) auto
qed (auto simp: commit_post_def history_of_def split: prod.splits)

subsection \<open>A whole deploy\<close>

text \<open>Failures before anything is decided about the app: a bad request, an unreadable source, an
  unclassifiable one, or an API server that does not answer.\<close>

fun early :: "derr \<Rightarrow> bool" where
  "early (DInvalidName _) = True"
| "early DOwnerRequired = True"
| "early (DTenant _) = True"
| "early (DReadSource _) = True"
| "early (DTooLarge _) = True"
| "early DEmpty = True"
| "early (DSpool _) = True"
| "early (DRewind _) = True"
| "early (DClassify _) = True"
| "early (DGet _) = True"
| "early _ = False"

lemma early_resolveTenant: "spec (resolveTenant s) (\<lambda>tr r new. list_all quiet new \<and> (\<forall>e. r = Err e \<longrightarrow> early e))"
  by (rule specI) (auto simp: resolveTenant_def tenantOf_def Let_def split: option.split prod.split)

lemma checkSize_Err: "checkSize n mx = Err e \<Longrightarrow> early e"
  by (auto simp: checkSize_def split: if_splits)

lemma early_acquire: "spec (acquireSource s r) (\<lambda>tr x new. list_all quiet new \<and> (\<forall>e. x = Err e \<longrightarrow> early e))"
  by (rule specI)
    (auto simp: acquireSource_def streamSource_def readCapped_def prog_defs
      split: option.splits sum.splits dest: checkSize_Err)

lemma early_classify: "spec (classify s req src) (\<lambda>tr r new. list_all quiet new \<and> (\<forall>e. r = Err e \<longrightarrow> early e))"
  by (rule specI)
    (auto simp: classify_def prog_defs openSource_def Let_def split: option.splits sum.splits)

definition looked_up :: "env \<Rightarrow> string \<Rightarrow> string \<Rightarrow> trace \<Rightarrow> VibedApp option \<Rightarrow> bool" where
  "looked_up s ns name tr ex \<longleftrightarrow> (case ex of
     Some app \<Rightarrow> e_Get s tr ns name = Ok app
   | None \<Rightarrow> \<exists>k. e_Get s tr ns name = Err k \<and> IsNotFound k)"

lemma lookup_spec:
  "spec (lookupExisting s ns name) (\<lambda>tr r new. list_all quiet new \<and>
     (case r of Err e \<Rightarrow> early e | Ok ex \<Rightarrow> looked_up s ns name tr ex))"
  by (rule specI) (auto simp: lookupExisting_def prog_defs looked_up_def split: sum.splits)

definition quota_held :: "bool \<Rightarrow> trace" where
  "quota_held held = (if held then [CQuotaRelease] else [])"

definition body_post ::
  "env \<Rightarrow> Request \<Rightarrow> Tenant \<Rightarrow> byte list \<Rightarrow> VibedApp option \<Rightarrow> (derr, Result) result \<Rightarrow> trace \<Rightarrow> bool" where
  "body_post s req t b ex r new \<longleftrightarrow> (\<exists>g m. list_all quiet m \<and>
     ((\<exists>e. r = Err e \<and> denial e \<and> gate_post s r g \<and> new = g @ m) \<or>
      (\<exists>(q :: string \<times> bool) c. gate_post s (Ok q) g \<and> may_replace s req ex \<and> snd q = (e_Quota s \<noteq> None) \<and>
         (snd q \<longrightarrow> CQuotaAuthorize t (rq_Owner req) (ex = None) \<in> set g) \<and>
         ((\<exists>e. r = Err e \<and> commit_post s req t b ex (snd q) (Err e) c \<and> new = g @ c @ quota_held (snd q) @ m) \<or>
          (\<exists>w tr'. commit_post s req t b ex (snd q) (Ok ()) c \<and>
              wait_post s (tenant_Namespace t) (rq_Name req) tr' r w \<and>
              new = g @ c @ w @ quota_held (snd q) @ m)))))"

lemma metrics_quiet: "\<exists>m. deployMetrics s d isNew template tr = tr @ m \<and> list_all quiet m"
  by (simp add: deployMetrics_def Let_def)

lemma releaseQuota_held: "releaseQuota held tr = tr @ quota_held held"
  by (simp add: releaseQuota_def quota_held_def)

lemma body_spec:
  "spec (deployBody s req t lane template src ex) (\<lambda>tr r new. body_post s req t (fst src) ex r new)"
proof (rule specI)
  fix tr
  let ?d = "deployBody s req t lane template src ex tr" and ?mx = "\<lambda>d. deployMetrics s d (ex = None) template"
  obtain rg trg where g: "gates s req t lane template src ex tr = (rg, trg)" by fastforce
  from specD [OF gates_spec g] obtain ng where ng: "trg = tr @ ng" "gate_post s rg ng"
    "\<forall>q. rg = Ok q \<longrightarrow> may_replace s req ex \<and> snd q = (e_Quota s \<noteq> None) \<and> (snd q \<longrightarrow> CQuotaAuthorize t (rq_Owner req) (ex = None) \<in> set ng)"
    by metis
  show "\<exists>new. snd ?d = tr @ new \<and> body_post s req t (fst src) ex (fst ?d) new"
  proof (cases rg)
    case (Inl e)
    obtain m where m: "?mx False trg = trg @ m" "list_all quiet m" using metrics_quiet by blast
    from Inl g m ng show ?thesis
      by (intro exI [of _ "ng @ m"]) (auto simp: deployBody_def body_post_def gate_post_def Let_def)
  next
    case ok: (Inr q)
    obtain rc trc where c: "commit s req t lane template src ex q trg = (rc, trc)" by fastforce
    from specD [OF commit_spec c] obtain nc where nc: "trc = trg @ nc" "commit_post s req t (fst src) ex (snd q) rc nc"
      by metis
    show ?thesis
    proof (cases rc)
      case (Inl e)
      obtain m where m: "?mx False (releaseQuota (snd q) trc) = releaseQuota (snd q) trc @ m" "list_all quiet m"
        using metrics_quiet by blast
      have "?d = (Err e, tr @ ng @ nc @ quota_held (snd q) @ m)"
        using ok g c Inl m(1) ng(1) nc(1) by (simp add: deployBody_def Let_def releaseQuota_held)
      moreover have "body_post s req t (fst src) ex (Err e) (ng @ nc @ quota_held (snd q) @ m)"
        using m(2) ng nc(2) ok Inl unfolding body_post_def by blast
      ultimately show ?thesis by simp
    next
      case (Inr u)
      obtain rw trw where w: "waitReady s (tenant_Namespace t) (rq_Name req) trc = (rw, trw)" by fastforce
      from specD [OF waitReady_spec w] obtain nw where nw: "trw = trc @ nw"
        "wait_post s (tenant_Namespace t) (rq_Name req) trc rw nw" by metis
      obtain m where m: "?mx True (releaseQuota (snd q) trw) = releaseQuota (snd q) trw @ m" "list_all quiet m"
        using metrics_quiet by blast
      have "?d = (rw, tr @ ng @ nc @ nw @ quota_held (snd q) @ m)"
        using ok g c Inr w m(1) ng(1) nc(1) nw(1) by (simp add: deployBody_def Let_def releaseQuota_held)
      moreover have "body_post s req t (fst src) ex rw (ng @ nc @ nw @ quota_held (snd q) @ m)"
        using m(2) ng nc(2) nw(2) ok Inr unfolding body_post_def by (metis (full_types) old.unit.exhaust)
      ultimately show ?thesis by simp
    qed
  qed
qed

text \<open>Every deploy: an early failure that only reads, or a lookup followed by the body.\<close>

definition deploy_post :: "env \<Rightarrow> Request \<Rightarrow> trace \<Rightarrow> (derr, Result) result \<Rightarrow> trace \<Rightarrow> bool" where
  "deploy_post s req tr r new \<longleftrightarrow>
     (\<exists>e. r = Err e \<and> early e) \<and> list_all quiet new \<or>
     (\<exists>t b ex pre body post tr0. new = pre @ body @ post \<and> list_all quiet pre \<and> list_all quiet post \<and>
        looked_up s (tenant_Namespace t) (rq_Name req) tr0 ex \<and> body_post s req t b ex r body)"

lemma deploy_post_early: "early e \<Longrightarrow> list_all quiet new \<Longrightarrow> deploy_post s req tr (Err e) new"
  by (simp add: deploy_post_def)

lemma deploy_post_quiet_pre:
  assumes "deploy_post s req tr' r new" "list_all quiet a"
  shows "deploy_post s req tr r (a @ new)"
proof -
  from assms(1) [unfolded deploy_post_def] show ?thesis
  proof (elim disjE exE conjE)
    fix t b ex pre body post tr0
    assume *: "new = pre @ body @ post" "list_all quiet pre" "list_all quiet post"
      "looked_up s (tenant_Namespace t) (rq_Name req) tr0 ex" "body_post s req t b ex r body"
    have "a @ new = (a @ pre) @ body @ post" "list_all quiet (a @ pre)" using * assms(2) by auto
    with * show ?thesis unfolding deploy_post_def by blast
  qed (use assms(2) in \<open>auto simp: deploy_post_def\<close>)
qed

lemma deploy_post_defer:
  assumes "deploy_post s req tr r new" "list_all quiet a"
  shows "deploy_post s req tr r (new @ a)"
proof -
  from assms(1) [unfolded deploy_post_def] show ?thesis
  proof (elim disjE exE conjE)
    fix t b ex pre body post tr0
    assume *: "new = pre @ body @ post" "list_all quiet pre" "list_all quiet post"
      "looked_up s (tenant_Namespace t) (rq_Name req) tr0 ex" "body_post s req t b ex r body"
    have "new @ a = pre @ body @ (post @ a)" "list_all quiet (post @ a)" using * assms(2) by auto
    with * show ?thesis unfolding deploy_post_def by blast
  qed (use assms(2) in \<open>auto simp: deploy_post_def\<close>)
qed

lemma spec_deferE:
  assumes "spec m Q" "\<And>r tr. \<exists>a. d r tr = tr @ a \<and> P a"
    and "\<And>tr r new a. Q tr r new \<Longrightarrow> P a \<Longrightarrow> Q' tr r (new @ a)"
  shows "spec (deferE d m) Q'"
proof (rule specI)
  fix tr
  obtain r tr1 where r: "m tr = (r, tr1)" by fastforce
  from specD [OF assms(1) r] obtain new where new: "tr1 = tr @ new" "Q tr r new" by metis
  obtain a where "d r tr1 = tr1 @ a" "P a" using assms(2) by blast
  with r new assms(3) show "\<exists>new. snd (deferE d m tr) = tr @ new \<and> Q' tr (fst (deferE d m tr)) new"
    by (auto simp: deferE_def)
qed

lemma cleanup_quiet: "\<exists>a. cleanup org tr = tr @ a \<and> list_all quiet a"
  by (simp add: cleanup_def)

lemma inner_spec:
  "spec (bindE (classify s req src) (\<lambda>(lane, template).
     bindE (lookupExisting s (tenant_Namespace t) (rq_Name req)) (\<lambda>existing.
       deployBody s req t lane template src existing))) (deploy_post s req)"
proof (rule spec_bindE [OF early_classify])
  show "spec (case x of (lane, template) \<Rightarrow>
     bindE (lookupExisting s (tenant_Namespace t) (rq_Name req)) (\<lambda>existing.
       deployBody s req t lane template src existing)) (deploy_post s req)" for x
  proof (cases x)
    case (Pair lane template)
    have "spec (bindE (lookupExisting s (tenant_Namespace t) (rq_Name req)) (\<lambda>existing.
       deployBody s req t lane template src existing)) (deploy_post s req)"
    proof (rule spec_bindE [OF lookup_spec body_spec])
      fix tr :: trace and e new
      assume "list_all quiet new \<and> (case (Err e :: (derr, VibedApp option) result) of Err e \<Rightarrow> early e
          | Ok ex \<Rightarrow> looked_up s (tenant_Namespace t) (rq_Name req) tr ex)"
      then show "deploy_post s req tr (Err e) new" by (simp add: deploy_post_def)
    next
      fix tr :: trace and ex new r new'
      assume "list_all quiet new \<and> (case (Ok ex :: (derr, VibedApp option) result) of Err e \<Rightarrow> early e
          | Ok ex \<Rightarrow> looked_up s (tenant_Namespace t) (rq_Name req) tr ex)"
        and "body_post s req t (fst src) ex r new'"
      then have "new @ new' = new @ new' @ []" "list_all quiet new" "list_all quiet []"
        "looked_up s (tenant_Namespace t) (rq_Name req) tr ex" "body_post s req t (fst src) ex r new'" by simp_all
      then show "deploy_post s req tr r (new @ new')" unfolding deploy_post_def by blast
    qed
    with Pair show ?thesis by simp
  qed
qed (auto intro: deploy_post_early deploy_post_quiet_pre)

lemma Deploy_spec: "spec (Deploy s0 req) (deploy_post (defaults s0) req)"
proof -
  let ?s = "defaults s0"
  have a: "spec (bindE (acquireSource ?s (rq_Tarball req)) (\<lambda>src.
           deferE (\<lambda>_. cleanup (snd src))
             (bindE (classify ?s req src) (\<lambda>(lane, template).
              bindE (lookupExisting ?s (tenant_Namespace t) (rq_Name req)) (\<lambda>existing.
              deployBody ?s req t lane template src existing))))) (deploy_post ?s req)" for t
  proof (rule spec_bindE [OF early_acquire])
    show "spec (deferE (\<lambda>_. cleanup (snd src)) (bindE (classify ?s req src) (\<lambda>(lane, template).
              bindE (lookupExisting ?s (tenant_Namespace t) (rq_Name req)) (\<lambda>existing.
              deployBody ?s req t lane template src existing)))) (deploy_post ?s req)" for src
      by (rule spec_deferE [where P = "list_all quiet" and Q = "deploy_post ?s req"])
        (rule inner_spec, rule cleanup_quiet, erule (1) deploy_post_defer)
  qed (auto intro: deploy_post_early deploy_post_quiet_pre)
  have "spec (bindE (resolveTenant ?s) (\<lambda>t. bindE (acquireSource ?s (rq_Tarball req)) (\<lambda>src.
           deferE (\<lambda>_. cleanup (snd src))
             (bindE (classify ?s req src) (\<lambda>(lane, template).
              bindE (lookupExisting ?s (tenant_Namespace t) (rq_Name req)) (\<lambda>existing.
              deployBody ?s req t lane template src existing)))))) (deploy_post ?s req)"
    by (rule spec_bindE [OF early_resolveTenant a]) (auto intro: deploy_post_early deploy_post_quiet_pre)
  moreover have "spec (failE e) (deploy_post ?s req)" if "early e" for e
    using that by (intro spec_failE) (simp add: deploy_post_def)
  ultimately show ?thesis by (simp add: Deploy_def Let_def)
qed

lemma defaults_frame [simp]:
  "e_Get (defaults s) = e_Get s" "e_Role (defaults s) = e_Role s" "e_Audit (defaults s) = e_Audit s"
  "e_Quota (defaults s) = e_Quota s" "e_Events (defaults s) = e_Events s" "e_Tenants (defaults s) = e_Tenants s"
  "e_Authz (defaults s) = e_Authz s" "e_Links (defaults s) = e_Links s" "e_Update (defaults s) = e_Update s"
  by (simp_all add: defaults_def Let_def)

lemma looked_up_defaults: "looked_up (defaults s) ns name tr ex = looked_up s ns name tr ex"
  by (simp add: looked_up_def split: option.split)

lemma may_replace_defaults: "may_replace (defaults s) req ex = may_replace s req ex"
  by (simp add: may_replace_def split: option.split)

lemma Deploy_post:
  assumes "Deploy s req tr = (r, tr @ new)"
  shows "deploy_post (defaults s) req tr r new"
  using specD [OF Deploy_spec assms] by (metis same_append_eq)

text \<open>The courses of a deploy that reached the write, and of one that did not.\<close>

lemma filter_quiet [simp]: "list_all quiet tr \<Longrightarrow> filter mutating tr = []"
  by (auto simp: filter_empty_conv list_all_iff quiet_not_mutating)

lemma gate_post_filter: "gate_post s r g \<Longrightarrow> filter mutating g = []"
  by (auto simp: gate_post_def filter_empty_conv list_all_iff)

lemma wait_post_quiet: "wait_post s ns name tr r w \<Longrightarrow> list_all quiet w"
  by (simp add: wait_post_def waiting_quiet)

lemma quota_held_quiet [simp]: "filter mutating (quota_held h) = []" "audit_outcomes (quota_held h) = []"
  by (simp_all add: quota_held_def)

definition late :: "derr \<Rightarrow> bool" where
  "late e \<longleftrightarrow> (\<exists>k. e = DWait k) \<or> (\<exists>m. e = DContext m)"

lemma Deploy_cases:
  assumes "Deploy s req tr = (r, tr @ new)"
  obtains (turned_away) e where "r = Err e" "early e" "list_all quiet new"
  | (denied) e where "r = Err e" "denial e" "filter mutating new = []" "audit_outcomes new = audited s ''denied''"
  | (failed) e t b ex tr0 c where "r = Err e" "looked_up s (tenant_Namespace t) (rq_Name req) tr0 ex"
      "may_replace s req ex" "commit_post (defaults s) req t b ex (e_Quota s \<noteq> None) (Err e) c"
      "filter mutating new = filter mutating c" "audit_outcomes new = audit_outcomes c"
      "e_Quota s \<noteq> None \<Longrightarrow> \<exists>g m. new = g @ c @ CQuotaRelease # m \<and> list_all quiet m \<and>
         CQuotaAuthorize t (rq_Owner req) (ex = None) \<in> set g"
  | (committed) t b ex tr0 c w tr' where "looked_up s (tenant_Namespace t) (rq_Name req) tr0 ex"
      "may_replace s req ex" "commit_post (defaults s) req t b ex (e_Quota s \<noteq> None) (Ok ()) c"
      "wait_post (defaults s) (tenant_Namespace t) (rq_Name req) tr' r w"
      "filter mutating new = filter mutating c" "audit_outcomes new = audit_outcomes c"
      "e_Quota s \<noteq> None \<Longrightarrow> \<exists>g m. new = g @ c @ m \<and> filter mutating m = [] \<and>
         CQuotaAuthorize t (rq_Owner req) (ex = None) \<in> set g"
proof -
  from Deploy_post [OF assms] consider
      (a) e where "r = Err e" "early e" "list_all quiet new"
    | (b) t b ex pre body post tr0 where "new = pre @ body @ post" "list_all quiet pre" "list_all quiet post"
        "looked_up s (tenant_Namespace t) (rq_Name req) tr0 ex" "body_post (defaults s) req t b ex r body"
    unfolding deploy_post_def looked_up_defaults by blast
  then show thesis
  proof cases
    case a
    then show thesis by (rule turned_away)
  next
    case (b t b ex pre body post tr0)
    from b(5) consider
        (d) g m e where "list_all quiet m" "r = Err e" "denial e" "gate_post (defaults s) r g" "body = g @ m"
      | (f) g m q c e where "list_all quiet m" "gate_post (defaults s) (Ok (q :: string \<times> bool)) g"
          "may_replace (defaults s) req ex" "snd q = (e_Quota s \<noteq> None)"
          "snd q \<longrightarrow> CQuotaAuthorize t (rq_Owner req) (ex = None) \<in> set g"
          "r = Err e" "commit_post (defaults s) req t b ex (snd q) (Err e) c" "body = g @ c @ quota_held (snd q) @ m"
      | (w) g m q c w tr' where "list_all quiet m" "gate_post (defaults s) (Ok (q :: string \<times> bool)) g"
          "may_replace (defaults s) req ex" "snd q = (e_Quota s \<noteq> None)"
          "snd q \<longrightarrow> CQuotaAuthorize t (rq_Owner req) (ex = None) \<in> set g"
          "commit_post (defaults s) req t b ex (snd q) (Ok ()) c"
          "wait_post (defaults s) (tenant_Namespace t) (rq_Name req) tr' r w"
          "body = g @ c @ w @ quota_held (snd q) @ m"
      unfolding body_post_def defaults_frame by blast
    then show thesis
    proof cases
      case d
      then show thesis using b gate_post_filter [of "defaults s" r g]
        by (intro denied [of e]) (auto simp: gate_post_def audited_def quiet_audits)
    next
      case f
      show thesis
      proof (rule failed [of e t tr0 ex b c])
        show "e_Quota s \<noteq> None \<Longrightarrow> \<exists>g m. new = g @ c @ CQuotaRelease # m \<and> list_all quiet m \<and>
          CQuotaAuthorize t (rq_Owner req) (ex = None) \<in> set g"
          using f b(1-3) by (intro exI [of _ "pre @ g"] exI [of _ "m @ post"]) (simp add: quota_held_def)
      qed (use f b gate_post_filter [OF f(2)] in \<open>auto simp: may_replace_defaults gate_post_def quiet_audits\<close>)
    next
      case w
      show thesis
      proof (rule committed [of t tr0 ex b c tr' w])
        show "e_Quota s \<noteq> None \<Longrightarrow> \<exists>g m. new = g @ c @ m \<and> filter mutating m = [] \<and>
          CQuotaAuthorize t (rq_Owner req) (ex = None) \<in> set g"
          using w b(1-3) wait_post_quiet [OF w(7)]
          by (intro exI [of _ "pre @ g"] exI [of _ "w @ quota_held (snd q) @ m @ post"]) simp
      qed (use w b gate_post_filter [OF w(2)] wait_post_quiet [OF w(7)] in
          \<open>auto simp: may_replace_defaults gate_post_def quiet_audits\<close>)
    qed
  qed
qed

lemma audited_defaults [simp]: "audited (defaults s) = audited s"
  by (simp add: audited_def fun_eq_iff)

lemma commit_Err_late: "commit_post s req t b ex h (Err e) c \<Longrightarrow> \<not> early e \<and> \<not> denial e"
  by (auto simp: commit_post_def write_post_def)

lemma wait_Err_late: "wait_post s ns name tr (Err e) w \<Longrightarrow> \<not> early e \<and> \<not> denial e"
  by (auto simp: wait_post_def)


text \<open>The calls of a commit that change something, read off its outcome.\<close>

lemma commit_effects:
  assumes "commit_post s req t b ex h r c"
  obtains (none) "filter mutating c = []" "\<exists>e. r = Err e \<and> e \<notin> range DCreate \<union> range DUpdate \<union> range DAudit"
  | (put) key where "filter mutating c = [CPut key b]" "\<exists>e. r = Err e \<and> e \<notin> range DCreate \<union> range DUpdate \<union> range DAudit"
  | (uncreated) key kept ev app where "stored req b (history_of ex) key kept ev" "written req t ex kept app"
      "r \<in> range (Err \<circ> DCreate)" "ex = None" "filter mutating c = [CPut key b, CCreate app, CBlobDelete key]"
  | (unupdated) key kept ev app where "stored req b (history_of ex) key kept ev" "written req t ex kept app"
      "r \<in> range (Err \<circ> DUpdate)" "ex \<noteq> None" "filter mutating c = [CPut key b, CUpdate app]"
  | (complete) key kept ev app where "stored req b (history_of ex) key kept ev" "written req t ex kept app"
      "r = Ok () \<or> r \<in> range (Err \<circ> DAudit)"
      "filter mutating c = CPut key b # write_call ex app # map CBlobDelete ev"
proof -
  from assms consider "filter mutating c = []" "\<exists>m. r = Err (DKey m) \<or> r = Err (DStore m)"
    | key where "filter mutating c = [CPut key b]" "\<exists>m. r = Err (DKey m) \<or> r = Err (DStore m)"
    | key kept ev app a c' where "stored req b (history_of ex) key kept ev" "written req t ex kept app"
       "c = a @ c'" "filter mutating a = [CPut key b]" "write_post s ex h key ev app r c'"
    unfolding commit_post_def by blast
  then show thesis
  proof cases
    case 1
    then show thesis by (intro none) auto
  next
    case (2 key)
    then show thesis by (intro put [of key]) auto
  next
    case (3 key kept ev app a c')
    from 3(5) show thesis unfolding write_post_def
      by (elim disjE conjE exE)
        (use 3(1-4) in \<open>auto intro: uncreated [of key kept ev app] unupdated [of key kept ev app] complete [of key kept ev app]\<close>)
  qed
qed

lemma updates_of_commit:
  assumes "commit_post s req t b ex h r c" "CUpdate app \<in> set (filter mutating c)"
  shows "\<exists>x kept. ex = Some x \<and> written req t ex kept app"
  using assms(1)
proof (cases rule: commit_effects)
  case none
  with assms(2) show ?thesis unfolding none(1) by simp
next
  case (put key)
  with assms(2) show ?thesis unfolding put(1) by simp
next
  case (uncreated key kept ev app')
  with assms(2) show ?thesis unfolding uncreated(5) by simp
next
  case (unupdated key kept ev app')
  with assms(2) show ?thesis unfolding unupdated(5) by auto
next
  case (complete key kept ev app')
  with assms(2) show ?thesis unfolding complete(4) by (auto simp: write_call_def split: option.splits)
qed

text \<open>C1: A redeploy never takes over somebody else's app: whenever a deploy updates an app, the API
  server had reported that app under the requested name, and its recorded owner was empty or the
  requester, or the requester is an admin.\<close>

theorem deploy_never_takes_over:
  assumes "Deploy s req tr = (r, tr @ new)" and "CUpdate app \<in> set new"
  shows "\<exists>ns tr0 ex. e_Get s tr0 ns (rq_Name req) = Ok ex \<and>
     app_Name app = app_Name ex \<and> app_Namespace app = app_Namespace ex \<and> app_UID app = app_UID ex \<and>
     (spec_Owner (app_Spec ex) = '''' \<or> spec_Owner (app_Spec ex) = rq_Owner req \<or> e_Role s = ''admin'')"
proof -
  have m: "CUpdate app \<in> set (filter mutating new)" using assms(2) by simp
  have *: ?thesis if "looked_up s ns (rq_Name req) tr0 ex" "may_replace s req ex"
    "commit_post (defaults s) req t b ex h r' c" "filter mutating new = filter mutating c" for ns tr0 ex t b h r' c
    using updates_of_commit [OF that(3)] m that unfolding looked_up_def may_replace_def written_def
    by (fastforce split: option.splits)
  from assms(1) show ?thesis
  proof (cases rule: Deploy_cases)
    case (turned_away e)
    with m show ?thesis by simp
  next
    case (denied e)
    with m show ?thesis by simp
  next
    case (failed e t b ex tr0 c)
    then show ?thesis using * by blast
  next
    case (committed t b ex tr0 c w tr')
    then show ?thesis using * by blast
  qed
qed

definition expected_audit :: "(derr, 'a) result \<Rightarrow> string list" where
  "expected_audit r = (case r of
     Ok _ \<Rightarrow> [''ok'']
   | Err e \<Rightarrow> if early e then [] else if denial e then [''denied'']
       else case e of DAudit _ \<Rightarrow> [''ok''] | DWait _ \<Rightarrow> [''ok''] | DContext _ \<Rightarrow> [''ok''] | _ \<Rightarrow> [''error''])"

text \<open>With an auditor configured, every deploy that gets past reading and classifying its source
  is recorded exactly once, as denied when a gate denies it, as an error when storing or writing
  fails, and as ok when the app was written; a deploy that fails earlier is not recorded.\<close>

theorem deploy_audited_once:
  assumes "Deploy s req tr = (r, tr @ new)" and "e_Audit s \<noteq> None"
  shows "audit_outcomes new = expected_audit r"
proof -
  have a: "audited s o' = [o']" for o' using assms(2) by (auto simp: audited_def)
  from assms(1) show ?thesis
  proof (cases rule: Deploy_cases)
    case (turned_away e)
    then show ?thesis by (simp add: expected_audit_def quiet_audits)
  next
    case (denied e)
    then have "\<not> early e" by (cases e) auto
    with denied show ?thesis by (simp add: expected_audit_def a)
  next
    case (failed e t b ex tr0 c)
    note commit_Err_late [OF failed(4)]
    with failed show ?thesis
      by (auto simp: expected_audit_def commit_post_def write_post_def a)
  next
    case (committed t b ex tr0 c w tr')
    from committed(3) have "audit_outcomes c = [''ok'']" by (auto simp: commit_post_def write_post_def a)
    with committed(4,6) show ?thesis by (auto simp: expected_audit_def wait_post_def split: sum.splits)
  qed
qed

lemma newVersionKey_nonempty: "Ok key = newVersionKey (Ok buf) n v \<Longrightarrow> key \<noteq> ''''"
  by (simp add: newVersionKey_def)

lemma stored_accounting:
  assumes "stored req b h key kept ev"
  shows "insert key (keys_of h) = keys_of kept \<union> set ev" "set ev \<inter> keys_of kept = {}"
    "key \<noteq> ''''" "history_wf h \<Longrightarrow> history_wf kept" "vr_Version (last kept) = nextVersion h"
proof -
  from assms obtain rec buf where r: "appendCapped h rec maxVersions = (kept, ev)" "vr_TarballKey rec = key"
    "vr_Version rec = nextVersion h" "Ok key = newVersionKey (Ok buf) (rq_Name req) (nextVersion h)"
    unfolding stored_def by blast
  show key: "key \<noteq> ''''" using newVersionKey_nonempty [OF r(4)] .
  show "insert key (keys_of h) = keys_of kept \<union> set ev"
    using appendCapped_accounting [of h rec maxVersions] r key by (auto simp: keys_of_def)
  show "set ev \<inter> keys_of kept = {}" using appendCapped_keys_kept [of _ h rec maxVersions] r(1) by auto
  show "history_wf h \<Longrightarrow> history_wf kept" using history_wf_append [of h rec] r by simp
  show "vr_Version (last kept) = nextVersion h"
    using appendCapped_last [of maxVersions h rec] r by (simp add: maxVersions_def)
qed

text \<open>C4: A deploy that returns a result has stored exactly one blob, written exactly one app whose
  history ends with the new version, and pruned only blobs that history no longer references; and it
  pruned all of those: the keys of the old history and the new key are exactly the keys of the
  written history and the deleted keys.  The written history stays well-formed.\<close>

theorem deploy_history_and_blobs_agree:
  assumes "Deploy s req tr = (Ok res, tr @ new)"
  shows "\<exists>ns tr0 ex key b app ev. looked_up s ns (rq_Name req) tr0 ex \<and>
     filter mutating new = CPut key b # write_call ex app # map CBlobDelete ev \<and>
     insert key (keys_of (history_of ex)) = keys_of (loadVersions app) \<union> set ev \<and>
     set ev \<inter> keys_of (loadVersions app) = {} \<and>
     vr_Version (last (loadVersions app)) = nextVersion (history_of ex) \<and>
     (history_wf (history_of ex) \<longrightarrow> history_wf (loadVersions app))"
  using assms
proof (cases rule: Deploy_cases)
  case (committed t b ex tr0 c w tr')
  from committed(3) show ?thesis
  proof (cases rule: commit_effects)
    case (complete key kept ev app)
    have "loadVersions app = kept" using complete(2) by (simp add: written_def)
    then show ?thesis using committed(1,5) complete(4) stored_accounting [OF complete(1)] by metis
  qed auto
qed simp_all

text \<open>A deploy whose create fails removes the blob it had stored: the only blob it deletes is its
  own, and nothing is left behind.\<close>

theorem deploy_create_failure_removes_blob:
  assumes "Deploy s req tr = (Err (DCreate k), tr @ new)"
  shows "\<exists>key b app. filter mutating new = [CPut key b, CCreate app, CBlobDelete key]"
  using assms
proof (cases rule: Deploy_cases)
  case (failed e t b ex tr0 c)
  from failed(4) show ?thesis
    by (cases rule: commit_effects) (use failed(1,5) in \<open>auto simp: image_iff\<close>)
next
  case (committed t b ex tr0 c w tr')
  then show ?thesis by (simp add: wait_post_def)
qed simp_all

text \<open>A redeploy whose update fails leaves the blob it had stored behind: no history references it
  and nothing deletes it.\<close>

theorem deploy_update_failure_leaves_blob:
  assumes "Deploy s req tr = (Err (DUpdate k), tr @ new)"
  shows "\<exists>key b app. filter mutating new = [CPut key b, CUpdate app]"
  using assms
proof (cases rule: Deploy_cases)
  case (failed e t b ex tr0 c)
  from failed(4) show ?thesis
    by (cases rule: commit_effects) (use failed(1,5) in \<open>auto simp: image_iff\<close>)
next
  case (committed t b ex tr0 c w tr')
  then show ?thesis by (simp add: wait_post_def)
qed simp_all

definition writes :: "call \<Rightarrow> bool" where
  "writes c \<longleftrightarrow> (\<exists>app. c = CCreate app \<or> c = CUpdate app)"

lemma writes_mutating: "writes c \<Longrightarrow> mutating c"
  by (auto simp: writes_def)

lemma no_writes: "filter mutating tr = xs \<Longrightarrow> list_all (\<lambda>c. \<not> writes c) xs \<Longrightarrow> list_all (\<lambda>c. \<not> writes c) tr"
  using writes_mutating by (fastforce simp: list_all_iff)

lemma commit_releases:
  assumes "commit_post s req t b ex True (Ok ()) c"
  shows "\<exists>a c'. c = a @ CQuotaRelease # c' \<and> list_all (\<lambda>x. \<not> writes x) c'"
proof -
  from assms obtain key kept ev app a c' where c: "c = a @ c'" "filter mutating a = [CPut key b]"
    "write_post s ex True key ev app (Ok ()) c'"
    unfolding commit_post_def by blast
  from c(3) obtain a' d where d: "c' = a' @ CQuotaRelease # d" "filter mutating a' = [write_call ex app]"
    "filter mutating c' = write_call ex app # map CBlobDelete ev"
    unfolding write_post_def by blast
  then have "filter mutating d = map CBlobDelete ev" by simp
  then have "list_all (\<lambda>x. \<not> writes x) d" by (rule no_writes) (auto simp: list_all_iff writes_def)
  then show ?thesis using c(1) d(1) by (metis append.assoc)
qed

text \<open>A deploy that the quota admitted gives its reservation back on every path, whether it
  succeeds or fails, and never before its app is written: no app is created or updated after the
  release.\<close>

theorem deploy_releases_quota_after_write:
  assumes "Deploy s req tr = (r, tr @ new)" and "e_Quota s \<noteq> None" and "\<And>e. r = Err e \<Longrightarrow> \<not> early e \<and> \<not> denial e"
  shows "\<exists>a c. new = a @ CQuotaRelease # c \<and> list_all (\<lambda>x. \<not> writes x) c \<and>
     (\<exists>t isNew. CQuotaAuthorize t (rq_Owner req) isNew \<in> set a)"
  using assms(1)
proof (cases rule: Deploy_cases)
  case (turned_away e)
  with assms(3) show ?thesis by blast
next
  case (denied e)
  with assms(3) show ?thesis by blast
next
  case (failed e t b ex tr0 c)
  from failed(7) [OF assms(2)] obtain g m where "new = (g @ c) @ CQuotaRelease # m" "list_all quiet m"
    "CQuotaAuthorize t (rq_Owner req) (ex = None) \<in> set (g @ c)" by auto
  moreover from this(2) have "list_all (\<lambda>x. \<not> writes x) m"
    by (auto simp: list_all_iff dest: quiet_not_mutating writes_mutating)
  ultimately show ?thesis by blast
next
  case (committed t b ex tr0 c w tr')
  from committed(3) assms(2) obtain a c' where c: "c = a @ CQuotaRelease # c'" "list_all (\<lambda>x. \<not> writes x) c'"
    using commit_releases by fastforce
  from committed(7) [OF assms(2)] obtain g m where g: "new = g @ c @ m" "filter mutating m = []"
    "CQuotaAuthorize t (rq_Owner req) (ex = None) \<in> set g" by blast
  have "list_all (\<lambda>x. \<not> writes x) m" using g(2) by (rule no_writes) simp
  with c g have "new = (g @ a) @ CQuotaRelease # (c' @ m)" "list_all (\<lambda>x. \<not> writes x) (c' @ m)"
    "CQuotaAuthorize t (rq_Owner req) (ex = None) \<in> set (g @ a)" by simp_all
  then show ?thesis by blast
qed

text \<open>A deploy that reports an app as ready saw it ready: the API server, or an event of the
  watch on it, carried the app in phase Ready, and the result has that app's URL and name.\<close>

theorem deploy_ready_was_observed:
  assumes "Deploy s req tr = (Ok res, tr @ new)" and "r_Ready res"
  shows "r_AppID res = rq_Name req \<and> (\<exists>ns tr0 app.
     (e_Get s tr0 ns (rq_Name req) = Ok app \<or> EvApp app \<in> set (e_Events s tr0)) \<and>
     st_Phase (app_Status app) = PhaseReady \<and> r_URL res = st_URL (app_Status app))"
  using assms(1)
proof (cases rule: Deploy_cases)
  case (committed t b ex tr0 c w tr')
  then show ?thesis using assms(2) phaseResult_Some unfolding wait_post_def by auto blast+
qed simp_all

subsection \<open>Reading the source\<close>

text \<open>The buffered and the streaming way of reading the source agree: with a seekable reader, or a
  spool file that can be created and written, they accept the same sources with the same bytes and
  reject the others with the same error, for every size limit.\<close>

theorem stream_agrees_with_buffer:
  assumes "rd_seekable r \<or> (\<forall>t. e_CreateTemp s t = None \<and> e_SpoolWrite s t = None)"
  shows "(case fst (streamSource s r mx tr) of Err e \<Rightarrow> Err e | Ok (b, _) \<Rightarrow> Ok b) = readCapped r mx"
  using assms
  by (auto simp: streamSource_def readCapped_def prog_defs split: sum.splits option.splits)

text \<open>A source is accepted exactly when it can be read to its end, is not empty and is at most
  the limit long; an accepted source is the whole of what the reader holds.\<close>

theorem readCapped_accepts_iff:
  assumes "0 \<le> mx"
  shows "readCapped r mx = Ok b \<longleftrightarrow>
     b = rd_bytes r \<and> rd_err r = None \<and> rd_bytes r \<noteq> [] \<and> int (length (rd_bytes r)) \<le> mx"
  using assms
  by (auto simp: readCapped_def read_limited_def checkSize_def split: option.splits if_splits sum.splits)

subsection \<open>Polling\<close>

fun gets :: "trace \<Rightarrow> nat" where
  "gets [] = 0"
| "gets (CGet _ _ # tr) = Suc (gets tr)"
| "gets (_ # tr) = gets tr"

lemma gets_append [simp]: "gets (a @ b) = gets a + gets b"
  by (induction a rule: gets.induct) auto

text \<open>The poll loop always ends, and reads the app at most once per poll interval until the
  deadline, plus the first read and the one after the deadline.\<close>

theorem pollReady_bounded:
  assumes "0 < e_PollInterval s"
  shows "\<exists>new. snd (pollReady s ns name deadline now tr) = tr @ new \<and>
     int (gets new) \<le> (if now > deadline then 1 else (deadline - now) div e_PollInterval s + 2)"
  using assms
proof (induction s ns name deadline now tr rule: pollReady.induct)
  case (1 s ns name deadline now tr)
  let ?tr1 = "tr @ [CGet ns name]" and ?p = "e_PollInterval s"
  note unf = pollReady.simps [of s ns name deadline now tr] getApp_run
  have pos: "1 \<le> (if now > deadline then 1 else (deadline - now) div ?p + 2)"
    using "1.prems" by (auto simp: pos_imp_zdiv_nonneg_iff intro: order_trans [of _ 2])
  obtain c late where sl: "e_Sleep s ?tr1 = (c, late)" by fastforce
  show ?case
  proof (cases "\<exists>app. e_Get s tr ns name = Ok app \<and> phaseResult name app = None \<and> now \<le> deadline \<and> c = None")
    case False
    then have "\<exists>new. snd (pollReady s ns name deadline now tr) = tr @ CGet ns name # new \<and> gets new = 0"
      using sl by (auto simp: unf mapE_def split: sum.split option.split)
    then show ?thesis using pos by (metis gets.simps(2) of_nat_1 One_nat_def)
  next
    case True
    then obtain app where app: "e_Get s tr ns name = Ok app" "phaseResult name app = None" "now \<le> deadline" "c = None"
      by blast
    let ?now = "now + max 1 ?p + int late"
    have step: "pollReady s ns name deadline now tr = pollReady s ns name deadline ?now (?tr1 @ [CSleep])"
      using app sl by (simp add: unf mapE_def)
    have "getApp s DWait ns name tr = (Ok app, ?tr1)" using app by (simp add: getApp_run mapE_def)
    with "1.IH" [of "Ok app" ?tr1 app c late] "1.prems" app sl obtain new where
      new: "snd (pollReady s ns name deadline ?now (?tr1 @ [CSleep])) = (?tr1 @ [CSleep]) @ new"
      "int (gets new) \<le> (if ?now > deadline then 1 else (deadline - ?now) div ?p + 2)" by auto
    have p: "max 1 ?p = ?p" using "1.prems" by simp
    have "(if ?now > deadline then 1 else (deadline - ?now) div ?p + 2) + 1 \<le> (deadline - now) div ?p + 2"
    proof (cases "?now > deadline")
      case True
      then show ?thesis using app(3) "1.prems" by (simp add: pos_imp_zdiv_nonneg_iff)
    next
      case False
      have "(deadline - ?now) div ?p \<le> (deadline - now - ?p) div ?p"
        using "1.prems" p by (intro zdiv_mono1) auto
      also have "\<dots> = (deadline - now) div ?p - 1"
        using "1.prems" div_add_self2 [of ?p "deadline - now - ?p"] by simp
      finally show ?thesis using False by simp
    qed
    with new app(3) step show ?thesis by (intro exI [of _ "[CGet ns name, CSleep] @ new"]) auto
  qed
qed

end
