(* ===== verification/Query.thy ===== *)
theory Query
  imports Deploy_Facts
begin

section \<open>Reading, listing, suspending, deleting, rolling back and sharing apps\<close>

text \<open>
  \<open>src/internal/deploy/query.go\<close>, the operations of \<open>versions.go\<close> and \<open>sharelinks.go\<close>, over the
  environment and the program logic of the deploy path.
\<close>

subsection \<open>Get and authorize\<close>

definition appRequest :: "env \<Rightarrow> Action \<Rightarrow> VibedApp option \<Rightarrow> string \<Rightarrow> AuthzRequest" where
  "appRequest s action app owner =
     \<lparr>aq_Subject = owner, aq_Role = e_Role s, aq_Action = action,
      aq_Resource = (case app of
          None \<Rightarrow> \<lparr>ar_Kind = ''app'', ar_ID = '''', ar_Owner = '''', ar_Namespace = '''', ar_Department = '''',
                   ar_SharedWith = []\<rparr>
        | Some a \<Rightarrow> \<lparr>ar_Kind = ''app'', ar_ID = app_Name a, ar_Owner = spec_Owner (app_Spec a),
                     ar_Namespace = app_Namespace a, ar_Department = label_get (app_Labels a) LabelDepartment,
                     ar_SharedWith = []\<rparr>)\<rparr>"

text \<open>The answer is the error text, \<open>None\<close> for allow.\<close>

definition authorize :: "env \<Rightarrow> Action \<Rightarrow> VibedApp \<Rightarrow> string \<Rightarrow> string option prog" where
  "authorize s action app owner = (case e_Authz s of
      None \<Rightarrow> retE None
    | Some f \<Rightarrow> let q = appRequest s action (Some app) owner in callE (CAuthz q) (\<lambda>tr. Ok (f tr q)))"

definition Get :: "env \<Rightarrow> string \<Rightarrow> string \<Rightarrow> VibedApp prog" where
  "Get s0 owner appid =
     (let s = defaults s0 in
      bindE (resolveTenant s) (\<lambda>t.
      bindE (callE (CGet (tenant_Namespace t) appid) (\<lambda>tr. Ok (e_Get s tr (tenant_Namespace t) appid))) (\<lambda>g.
      case g of
        Err e \<Rightarrow> failE (if IsNotFound e then DNotFound else DGet e)
      | Ok app \<Rightarrow>
          if e_Authz s \<noteq> None then
            bindE (authorize s ActionAppGet app owner) (\<lambda>aerr. case aerr of
                Some _ \<Rightarrow> failE DNotFound | None \<Rightarrow> retE app)
          else if spec_Owner (app_Spec app) \<noteq> owner then failE DNotFound
          else retE app)))"

subsection \<open>List\<close>

fun filter_each :: "env \<Rightarrow> string \<Rightarrow> VibedApp list \<Rightarrow> VibedApp list prog" where
  "filter_each s owner [] = retE []"
| "filter_each s owner (a # as) =
     bindE (authorize s ActionAppGet a owner) (\<lambda>aerr.
     bindE (filter_each s owner as) (\<lambda>out. retE (if aerr = None then a # out else out)))"

definition filterAuthorized :: "env \<Rightarrow> VibedApp list \<Rightarrow> string \<Rightarrow> VibedApp list prog" where
  "filterAuthorized s apps owner = (case e_Batch s of
      None \<Rightarrow> filter_each s owner apps
    | Some ba \<Rightarrow>
        let reqs = map (\<lambda>a. appRequest s ActionAppGet (Some a) owner) apps in
        bindE (callE (CAuthzBatch reqs) (\<lambda>tr. Ok (ba tr reqs))) (\<lambda>errs.
          if length errs = length reqs
          then retE (map fst (filter (\<lambda>(a, e). e = None) (zip apps errs)))
          else filter_each s owner apps))"

definition paginate :: "int \<Rightarrow> int \<Rightarrow> 'a list \<Rightarrow> 'a list" where
  "paginate limit offset out =
     (let tot = int (length out);
          offset1 = (if offset < 0 then 0 else offset);
          offset2 = (if offset1 > tot then tot else offset1);
          out1 = drop (nat offset2) out
      in if limit > 0 \<and> limit < int (length out1) then take (nat limit) out1 else out1)"

definition listSelector :: "env \<Rightarrow> Tenant \<Rightarrow> string \<Rightarrow> list_sel prog" where
  "listSelector s t owner =
     (if e_Authz s = None then retE (SelLabel LabelOwner (SanitizeLabel owner))
      else case e_Scope s of
        None \<Rightarrow> retE SelAll
      | Some sc \<Rightarrow>
          let q0 = appRequest s ActionAppList None owner;
              q = q0\<lparr>aq_Resource := (aq_Resource q0)\<lparr>ar_Namespace := tenant_Namespace t\<rparr>\<rparr>
          in bindE (callE (CScopeList q) (\<lambda>tr. mapE DScope (sc tr q))) (\<lambda>sel. case sel of
               None \<Rightarrow> retE SelAll | Some x \<Rightarrow> retE (SelScope x)))"

definition ListApps :: "env \<Rightarrow> string \<Rightarrow> int \<Rightarrow> int \<Rightarrow> (VibedApp list \<times> int) prog" where
  "ListApps s0 owner limit offset =
     (let s = defaults s0 in
      bindE (resolveTenant s) (\<lambda>t.
      bindE (listSelector s t owner) (\<lambda>sel.
      bindE (callE (CList (tenant_Namespace t) sel) (\<lambda>tr. mapE DList (e_List s tr (tenant_Namespace t) sel))) (\<lambda>items.
      bindE (if e_Authz s \<noteq> None then filterAuthorized s items owner
             else retE (filter (\<lambda>a. spec_Owner (app_Spec a) = owner) items)) (\<lambda>out.
      retE (paginate limit offset out, int (length out)))))))"

subsection \<open>Suspend and delete\<close>

definition SetSuspended :: "env \<Rightarrow> string \<Rightarrow> string \<Rightarrow> bool \<Rightarrow> VibedApp prog" where
  "SetSuspended s owner appid suspended =
     (let action = (if suspended then ''suspend'' else ''resume'') in
      bindE (Get s owner appid) (\<lambda>app.
      bindE (authorize s ActionAppSuspend app owner) (\<lambda>aerr. case aerr of
        Some e \<Rightarrow> recordFail s action appid ''denied'' e (DAuthz e)
      | None \<Rightarrow>
          if spec_Suspended (app_Spec app) = suspended then retE app
          else let app1 = app\<lparr>app_Spec := (app_Spec app)\<lparr>spec_Suspended := suspended\<rparr>\<rparr> in
            bindE (callE (CUpdate app1) (\<lambda>tr. Ok (e_Update s tr app1))) (\<lambda>ur. case ur of
              Err e \<Rightarrow> recordFail s action appid ''error'' (kerr_Error e) (DUpdate e)
            | Ok app2 \<Rightarrow> bindE (recordAudit s action appid ''ok'' '''') (\<lambda>_. retE app2)))))"

definition revokeLinks :: "env \<Rightarrow> string \<Rightarrow> unit prog" where
  "revokeLinks s appid =
     (if \<not> e_Links s then retE ()
      else bindE (callE (CLinkList appid 0 0) (\<lambda>tr. Ok (case e_LinkList s tr appid 0 0 of Err _ \<Rightarrow> [] | Ok ls \<Rightarrow> ls))) (\<lambda>links.
        forE (\<lambda>l. if sl_Revoked l then retE () else tell (CLinkRevoke (sl_Token l))) links))"

definition deleteBlobs :: "VibedApp \<Rightarrow> string \<Rightarrow> unit prog" where
  "deleteBlobs app appid =
     bindE (forE (\<lambda>r. if vr_TarballKey r \<noteq> '''' then tell (CBlobDelete (vr_TarballKey r)) else retE ())
              (loadVersions app)) (\<lambda>_. tell (CBlobDelete appid))"

text \<open>The tail of \<open>Delete\<close> once the API server has dropped the app.\<close>

definition delete_tail :: "env \<Rightarrow> Tenant \<Rightarrow> string \<Rightarrow> VibedApp \<Rightarrow> string \<Rightarrow> unit prog" where
  "delete_tail s t owner app appid =
     bindE (revokeLinks s appid) (\<lambda>_.
     bindE (deleteBlobs app appid) (\<lambda>_.
     bindE (recordAudit s ''delete'' appid ''ok'' '''') (\<lambda>_.
     bindE (if e_Metrics s then tell (CActive (-1) (rt_Template (spec_Runtime (app_Spec app)))) else retE ()) (\<lambda>_.
     meter s \<lparr>me_Kind = ''delete'', me_Tenant = tenant_ID t, me_Owner = owner, me_App = appid,
              me_Namespace = tenant_Namespace t\<rparr>))))"

definition Delete :: "env \<Rightarrow> string \<Rightarrow> string \<Rightarrow> unit prog" where
  "Delete s0 owner appid tr0 =
     (let ((t, _), tr1) = tenantOf s0 tr0; s = defaults s0 in
      bindE (Get s0 owner appid) (\<lambda>app.
      bindE (authorize s ActionAppDelete app owner) (\<lambda>aerr. case aerr of
        Some e \<Rightarrow> recordFail s ''delete'' appid ''denied'' e (DAuthz e)
      | None \<Rightarrow>
          bindE (callE (CDelete app) (\<lambda>tr. Ok (e_Delete s tr app))) (\<lambda>derr.
          if (case derr of None \<Rightarrow> False | Some e \<Rightarrow> \<not> IsNotFound e)
          then recordFail s ''delete'' appid ''error'' (kerr_Error (the derr)) (DDelete (the derr))
          else
            delete_tail s t owner app appid))) tr1)"

subsection \<open>Versions and rollback\<close>

definition Versions :: "env \<Rightarrow> string \<Rightarrow> string \<Rightarrow> VersionRecord list prog" where
  "Versions s owner appid = bindE (Get s owner appid) (\<lambda>app. retE (rev (loadVersions app)))"

text \<open>The loop keeps the last record with the version asked for.\<close>

definition find_version :: "int \<Rightarrow> VersionRecord list \<Rightarrow> VersionRecord option" where
  "find_version v history = find (\<lambda>r. vr_Version r = v) (rev history)"

definition rollbackRecord :: "VersionRecord list \<Rightarrow> string \<Rightarrow> VersionRecord \<Rightarrow> int \<Rightarrow> VersionRecord" where
  "rollbackRecord history now target version =
     \<lparr>vr_Version = nextVersion history, vr_Timestamp = now, vr_Template = vr_Template target,
      vr_Lane = vr_Lane target, vr_SourceHash = vr_SourceHash target, vr_TarballKey = vr_TarballKey target,
      vr_TarballRef = vr_TarballRef target, vr_RolledBackFrom = version\<rparr>"

definition rollbackApp :: "VibedApp \<Rightarrow> VersionRecord \<Rightarrow> VersionRecord list \<Rightarrow> VibedApp" where
  "rollbackApp app target kept =
     app\<lparr>app_Spec := (app_Spec app)
            \<lparr>spec_Source := (spec_Source (app_Spec app))\<lparr>source_TarballRef := vr_TarballRef target\<rparr>,
             spec_Runtime := (spec_Runtime (app_Spec app))
               \<lparr>rt_Template := vr_Template target, rt_Lane := lane_of_string (vr_Lane target)\<rparr>\<rparr>,
         app_Versions := marshalVersions kept\<rparr>"

text \<open>The tail of \<open>Rollback\<close> from the update on.\<close>

definition rollback_write :: "env \<Rightarrow> Tenant \<Rightarrow> string \<Rightarrow> string \<Rightarrow> int \<Rightarrow> VibedApp \<Rightarrow> string list \<Rightarrow> Result prog" where
  "rollback_write s t owner appid version app1 evicted =
     bindE (callE (CUpdate app1) (\<lambda>tr. Ok (e_Update s tr app1))) (\<lambda>ur. case ur of
       Err e \<Rightarrow> recordFail s ''rollback'' appid ''error'' (kerr_Error e) (DUpdate e)
     | Ok app2 \<Rightarrow>
         bindE (forE (\<lambda>k. tell (CBlobDelete k)) evicted) (\<lambda>_.
         bindE (recordAudit s ''rollback'' appid ''ok'' (''to v'' @ Itoa version)) (\<lambda>_.
         bindE (meter s \<lparr>me_Kind = ''rollback'', me_Tenant = tenant_ID t, me_Owner = owner, me_App = appid,
            me_Namespace = app_Namespace app2\<rparr>) (\<lambda>_.
         waitReady s (app_Namespace app2) appid))))"

definition Rollback :: "env \<Rightarrow> string \<Rightarrow> string \<Rightarrow> int \<Rightarrow> Result prog" where
  "Rollback s0 owner appid version tr0 =
     (let s = defaults s0; ((t, _), tr1) = tenantOf s tr0 in
      bindE (Get s owner appid) (\<lambda>app.
      let history = loadVersions app in
      case find_version version history of
        None \<Rightarrow> failE (DVersion version)
      | Some target \<Rightarrow>
          if vr_TarballRef target = '''' then failE (DVersion version)
          else bindE (callE CNow (\<lambda>tr. Ok (e_Now s tr))) (\<lambda>now.
            let (kept, evicted) = appendCapped history (rollbackRecord history (e_Format s now) target version) maxVersions;
                app1 = rollbackApp app target kept
            in rollback_write s t owner appid version app1 evicted)) tr1)"

subsection \<open>Share links\<close>

definition CreateShareLink :: "env \<Rightarrow> string \<Rightarrow> string \<Rightarrow> string \<Rightarrow> duration \<Rightarrow> ShareLink prog" where
  "CreateShareLink s owner appID password expiresIn =
     (if \<not> e_Links s then failE DNoShareLinks
      else bindE (Get s owner appID) (\<lambda>_.
        bindE (callE (CRand 32) (\<lambda>tr. mapE DRand (e_Rand s tr 32))) (\<lambda>tokenBytes.
        let token = EncodeToString tokenBytes in
        bindE (if password \<noteq> '''' then callE (CHash password) (\<lambda>tr. mapE DHash (e_Bcrypt s tr password)) else retE '''') (\<lambda>passwordHash.
        bindE (callE CNow (\<lambda>tr. Ok (e_Now s tr))) (\<lambda>now.
        let link = \<lparr>sl_Token = token, sl_ArtifactID = appID, sl_CreatedBy = owner, sl_HasPassword = (password \<noteq> ''''),
                    sl_ExpiresAt = (if expiresIn > 0 then Some (now + expiresIn) else None), sl_CreatedAt = now,
                    sl_Revoked = False,
                    sl_URL = (if e_BaseURL s \<noteq> '''' then e_BaseURL s @ ''/share/'' @ token else '''')\<rparr>
        in bindE (callE (CLinkCreate link passwordHash) (\<lambda>tr. errE DLinkStore (e_LinkCreate s tr link passwordHash)))
             (\<lambda>_. retE link))))))"

definition ListShareLinks :: "env \<Rightarrow> string \<Rightarrow> string \<Rightarrow> int \<Rightarrow> int \<Rightarrow> ShareLink list prog" where
  "ListShareLinks s owner appID limit offset =
     (if \<not> e_Links s then failE DNoShareLinks
      else bindE (Get s owner appID) (\<lambda>_.
        callE (CLinkList appID limit offset) (\<lambda>tr. mapE DLinkStore (e_LinkList s tr appID limit offset))))"

definition RevokeShareLink :: "env \<Rightarrow> string \<Rightarrow> string \<Rightarrow> unit prog" where
  "RevokeShareLink s owner token =
     (if \<not> e_Links s then failE DNoShareLinks
      else bindE (callE (CLinkGet token) (\<lambda>tr. mapE DLinkStore (e_LinkGet s tr token))) (\<lambda>(link, _).
        bindE (Get s owner (sl_ArtifactID link)) (\<lambda>_.
        callE (CLinkRevoke token) (\<lambda>tr. errE DLinkStore (e_LinkRevoke s tr token)))))"

definition ResolveShareLink :: "env \<Rightarrow> string \<Rightarrow> string \<Rightarrow> VibedApp prog" where
  "ResolveShareLink s0 token password =
     (if \<not> e_Links s0 then failE DNoShareLinks
      else let s = defaults s0 in
        bindE (callE (CLinkGet token) (\<lambda>tr. mapE DLinkStore (e_LinkGet s tr token))) (\<lambda>(link, passwordHash).
        bindE (callE CNow (\<lambda>tr. Ok (e_Now s tr))) (\<lambda>now.
        if sl_Revoked link \<or> (case sl_ExpiresAt link of None \<Rightarrow> False | Some exp \<Rightarrow> now > exp)
        then failE (DLinkNotFound token)
        else if passwordHash \<noteq> '''' \<and> (password = '''' \<or> \<not> e_BcryptOk s passwordHash password)
        then failE DPasswordRequired
        else callE (CGet (e_Namespace s) (sl_ArtifactID link))
               (\<lambda>tr. case e_Get s tr (e_Namespace s) (sl_ArtifactID link) of
                  Err _ \<Rightarrow> Err (DLinkNotFound token) | Ok app \<Rightarrow> Ok app))))"

subsection \<open>Who sees what\<close>

definition visible :: "env \<Rightarrow> string \<Rightarrow> VibedApp \<Rightarrow> trace \<Rightarrow> bool" where
  "visible s owner app tr \<longleftrightarrow> (case e_Authz s of
     None \<Rightarrow> spec_Owner (app_Spec app) = owner
   | Some f \<Rightarrow> f tr (appRequest s ActionAppGet (Some app) owner) = None)"

text \<open>The API server reported the app under that name, and the caller may see it.\<close>

definition granted :: "env \<Rightarrow> string \<Rightarrow> string \<Rightarrow> VibedApp \<Rightarrow> bool" where
  "granted s owner appid app \<longleftrightarrow>
     (\<exists>ns tr0 tr1. e_Get s tr0 ns appid = Ok app \<and> visible s owner app tr1)"

fun only_read :: "call \<Rightarrow> bool" where
  "only_read (CAuthz q) = (aq_Action q = ActionAppGet)"
| "only_read _ = True"

lemma grantedI: "e_Get s tr0 ns appid = Ok app \<Longrightarrow> visible s owner app tr1 \<Longrightarrow> granted s owner appid app"
  unfolding granted_def by blast

lemma appRequest_defaults [simp]: "appRequest (defaults s) = appRequest s"
  by (simp add: appRequest_def fun_eq_iff)

lemma aq_Action_appRequest [simp]: "aq_Action (appRequest s a app owner) = a"
  by (simp add: appRequest_def)

lemma authorize_run:
  "authorize s a app owner tr = (case e_Authz s of None \<Rightarrow> (Ok None, tr)
     | Some f \<Rightarrow> (Ok (f tr (appRequest s a (Some app) owner)), tr @ [CAuthz (appRequest s a (Some app) owner)]))"
  by (simp add: authorize_def prog_defs Let_def split: option.split)

lemma Get_run:
  "Get s owner appid tr = (case resolveTenant (defaults s) tr of
     (Err e, tr1) \<Rightarrow> (Err e, tr1)
   | (Ok t, tr1) \<Rightarrow>
      let tr2 = tr1 @ [CGet (tenant_Namespace t) appid] in
      (case e_Get s tr1 (tenant_Namespace t) appid of
         Err e \<Rightarrow> (Err (if IsNotFound e then DNotFound else DGet e), tr2)
       | Ok app \<Rightarrow>
           (if visible s owner app tr2 then Ok app else Err DNotFound,
            if e_Authz s = None then tr2 else tr2 @ [CAuthz (appRequest s ActionAppGet (Some app) owner)])))"
  by (auto simp: Get_def Let_def prog_defs authorize_run visible_def split: sum.split option.split prod.split)

lemma Get_spec:
  "spec (Get s owner appid) (\<lambda>tr r new. list_all (\<lambda>c. quiet c \<and> only_read c) new \<and>
     (case r of Ok app \<Rightarrow> granted s owner appid app | Err e \<Rightarrow> e \<in> {DNotFound} \<union> range DGet \<union> range DTenant))"
proof (rule specI)
  fix tr
  obtain rt tr1 where t: "resolveTenant (defaults s) tr = (rt, tr1)" by fastforce
  from t have "tr1 = tr \<or> tr1 = tr @ [CTenant]" and "rt \<in> range Ok \<union> range (Err \<circ> DTenant)"
    by (auto simp: resolveTenant_def tenantOf_def Let_def split: option.splits prod.splits if_splits)
  then show "\<exists>new. snd (Get s owner appid tr) = tr @ new \<and> list_all (\<lambda>c. quiet c \<and> only_read c) new \<and>
     (case fst (Get s owner appid tr) of Ok app \<Rightarrow> granted s owner appid app
      | Err e \<Rightarrow> e \<in> {DNotFound} \<union> range DGet \<union> range DTenant)"
    by (cases rt) (auto simp: Get_run t Let_def intro: grantedI split: sum.split)
qed

text \<open>An app is returned exactly to the callers who may see it: without an authorizer its
  recorded owner, with one a caller the authorizer allows to read this app.  For anybody else the
  answer is the one for an app that does not exist.\<close>

theorem Get_hides_foreign_apps:
  assumes "resolveTenant (defaults s) tr = (Ok t, tr1)"
  shows "fst (Get s owner appid tr) = (case e_Get s tr1 (tenant_Namespace t) appid of
      Ok app \<Rightarrow> if visible s owner app (tr1 @ [CGet (tenant_Namespace t) appid]) then Ok app else Err DNotFound
    | Err e \<Rightarrow> Err (if IsNotFound e then DNotFound else DGet e))"
  using assms by (simp add: Get_run Let_def split: sum.split)

subsection \<open>Listing\<close>

lemma filter_each_run:
  assumes "e_Authz s = Some f" and "\<And>tr q. f tr q = f0 q"
  shows "\<exists>new. filter_each s owner apps tr =
     (Ok (filter (\<lambda>a. f0 (appRequest s ActionAppGet (Some a) owner) = None) apps), tr @ new)"
proof (induction apps arbitrary: tr)
  case (Cons a as)
  let ?q = "appRequest s ActionAppGet (Some a) owner"
  from Cons [of "tr @ [CAuthz ?q]"] obtain new where
    "filter_each s owner as (tr @ [CAuthz ?q]) =
      (Ok (filter (\<lambda>a. f0 (appRequest s ActionAppGet (Some a) owner) = None) as), (tr @ [CAuthz ?q]) @ new)"
    by blast
  then show ?case using assms by (simp add: prog_defs authorize_run)
qed (simp add: retE_def)

lemma filter_zip: "map fst (filter (\<lambda>(a, e). e = None) (zip xs (map g xs))) = filter (\<lambda>a. g a = None) xs"
  by (induction xs) simp_all

text \<open>Deciding a listing in one batch gives what deciding app by app gives: when the authorizer
  decides by the request alone, and its batch answer, if it has the right length, repeats its
  single answers, the apps kept are exactly those it allows, in the order they came; an answer of
  the wrong length is ignored.\<close>

theorem batch_agrees_with_single:
  assumes "e_Authz s = Some f" and "\<And>tr q. f tr q = f0 q"
    and "\<And>ba tr qs. e_Batch s = Some ba \<Longrightarrow> length (ba tr qs) = length qs \<Longrightarrow> ba tr qs = map f0 qs"
  shows "fst (filterAuthorized s apps owner tr) =
     Ok (filter (\<lambda>a. f0 (appRequest s ActionAppGet (Some a) owner) = None) apps)"
proof (cases "e_Batch s")
  case None
  then show ?thesis using filter_each_run [OF assms(1,2), of owner apps tr] by (auto simp: filterAuthorized_def)
next
  case (Some ba)
  let ?qs = "map (\<lambda>a. appRequest s ActionAppGet (Some a) owner) apps"
  show ?thesis
  proof (cases "length (ba tr ?qs) = length ?qs")
    case True
    with assms(3) [OF Some True] Some show ?thesis
      by (simp add: filterAuthorized_def prog_defs Let_def filter_zip [of apps, symmetric] comp_def del: length_map)
  next
    case False
    with Some filter_each_run [OF assms(1,2), of owner apps "tr @ [CAuthzBatch ?qs]"] show ?thesis
      by (auto simp: filterAuthorized_def prog_defs Let_def)
  qed
qed

lemma paginate_take_drop:
  "paginate limit offset xs =
     (if limit > 0 then take (nat limit) (drop (nat (max 0 offset)) xs) else drop (nat (max 0 offset)) xs)"
  by (cases xs) (auto simp: paginate_def Let_def max_def)

text \<open>Walking a listing page by page shows every app exactly once, in order: the pages of size
  \<open>k\<close> put together are the whole listing.\<close>

theorem pages_cover_listing:
  assumes "0 < k" and "length xs \<le> n * k"
  shows "concat (map (\<lambda>i. paginate (int k) (int (i * k)) xs) [0..<n]) = xs"
proof -
  have "concat (map (\<lambda>i. take k (drop (i * k) xs)) [0..<m]) = take (m * k) xs" for m
  proof (induction m)
    case (Suc m)
    have "take (Suc m * k) xs = take (m * k) xs @ take k (drop (m * k) xs)"
      by (metis add.commute mult_Suc take_add)
    with Suc show ?case by simp
  qed simp
  then show ?thesis using assms by (simp add: paginate_take_drop del: of_nat_mult)
qed

text \<open>Without an authorizer a listing is exact: when the API server returns the apps that carry
  the owner label asked for, and every app carries its owner's label, the caller gets the requested
  page of the apps of the tenant's namespace that record the caller as owner, and their number,
  although different owners can share a label.\<close>

theorem list_is_exact:
  assumes "e_Authz s = None" and "resolveTenant (defaults s) tr = (Ok t, tr1)"
    and "\<And>tr ns k v. e_List s tr ns (SelLabel k v) = list_of apps ns (Some (k, v))"
    and "list_all owner_labelled apps"
  shows "fst (ListApps s owner limit offset tr) =
     (let mine = filter (\<lambda>a. app_Namespace a = tenant_Namespace t \<and> spec_Owner (app_Spec a) = owner) apps
      in Ok (paginate limit offset mine, int (length mine)))"
proof -
  have e: "e_List (defaults s) = e_List s" by (simp add: defaults_def Let_def)
  show ?thesis
    using assms(1,2) owner_prefilter [OF assms(4), of owner "tenant_Namespace t"]
    by (simp add: ListApps_def Let_def prog_defs listSelector_def e assms(3) list_of_def)
qed

subsection \<open>Changing an app\<close>

lemma quiet_and [simp]: "list_all (\<lambda>c. quiet c \<and> only_read c) tr \<longleftrightarrow> list_all quiet tr \<and> list_all only_read tr"
  by (auto simp: list_all_iff)

lemma Get_cases:
  obtains (missing) e new where "Get s owner appid tr = (Err e, tr @ new)" "list_all quiet new" "list_all only_read new"
      "e \<in> {DNotFound} \<union> range DGet \<union> range DTenant"
  | (found) app new where "Get s owner appid tr = (Ok app, tr @ new)" "list_all quiet new" "list_all only_read new"
      "granted s owner appid app"
proof -
  obtain r tr' where r: "Get s owner appid tr = (r, tr')" by fastforce
  from specD [OF Get_spec r] obtain new where "tr' = tr @ new" "list_all (\<lambda>c. quiet c \<and> only_read c) new"
    "case r of Ok app \<Rightarrow> granted s owner appid app | Err e \<Rightarrow> e \<in> {DNotFound} \<union> range DGet \<union> range DTenant"
    by metis
  with r that show thesis by (cases r) auto
qed

definition allowed :: "env \<Rightarrow> Action \<Rightarrow> string \<Rightarrow> VibedApp \<Rightarrow> bool" where
  "allowed s action owner app \<longleftrightarrow> (case e_Authz s of None \<Rightarrow> True
     | Some f \<Rightarrow> \<exists>tr. f tr (appRequest s action (Some app) owner) = None)"

lemma authorize_cases:
  obtains (deny) e new where "authorize s a app owner tr = (Ok (Some e), tr @ new)" "list_all quiet new"
  | (allow) new where "authorize s a app owner tr = (Ok None, tr @ new)" "list_all quiet new" "allowed s a owner app"
proof (cases "e_Authz s")
  case None
  then show thesis using allow [of "[]"] by (simp add: authorize_run allowed_def)
next
  case (Some f)
  let ?q = "appRequest s a (Some app) owner"
  show thesis
  proof (cases "f tr ?q")
    case None
    with Some show thesis using allow [of "[CAuthz ?q]"] by (auto simp: authorize_run allowed_def)
  next
    case (Some e)
    with \<open>e_Authz s = Some f\<close> show thesis using deny [of e "[CAuthz ?q]"] by (simp add: authorize_run)
  qed
qed

lemma recordAudit_run:
  "recordAudit s a t o' d tr =
     (case e_Audit s of None \<Rightarrow> (Ok (), tr)
      | Some f \<Rightarrow> (errE DAudit (f tr a t o' d), tr @ [CAudit a t o' d]))"
  by (simp add: recordAudit_def prog_defs split: option.split)

text \<open>Suspending or resuming touches an app only when the caller may see it and the authorizer
  allows the action, changes nothing but the suspended flag, and does nothing when the app already is
  in the state asked for.\<close>

theorem suspend_changes_only_the_flag:
  assumes "SetSuspended s owner appid b tr = (r, tr @ new)"
  shows "filter mutating new = [] \<or>
     (\<exists>app. granted s owner appid app \<and> allowed s ActionAppSuspend owner app \<and> spec_Suspended (app_Spec app) \<noteq> b \<and>
        filter mutating new = [CUpdate (app\<lparr>app_Spec := (app_Spec app)\<lparr>spec_Suspended := b\<rparr>\<rparr>)])"
proof (cases rule: Get_cases [of s owner appid tr])
  case (missing e n)
  with assms show ?thesis by (auto simp: SetSuspended_def Let_def bindE_def)
next
  case (found app n)
  show ?thesis
  proof (cases rule: authorize_cases [of s ActionAppSuspend app owner "tr @ n"])
    case (deny e n')
    with found assms show ?thesis
      by (auto simp: SetSuspended_def Let_def bindE_def recordFail_run split: option.splits)
  next
    case (allow n')
    with found assms show ?thesis
      by (auto simp: SetSuspended_def Let_def prog_defs recordFail_run recordAudit_run
          split: option.splits if_splits sum.splits)
  qed
qed

definition link_tokens :: "ShareLink list \<Rightarrow> string list" where
  "link_tokens ls = map sl_Token (filter (\<lambda>l. \<not> sl_Revoked l) ls)"

lemma revoke_loop:
  "forE (\<lambda>l. if sl_Revoked l then retE () else tell (CLinkRevoke (sl_Token l))) ls tr =
     (Ok (), tr @ map CLinkRevoke (link_tokens ls))"
  by (induction ls arbitrary: tr) (simp_all add: prog_defs link_tokens_def)

lemma revokeLinks_run:
  "revokeLinks s appid tr =
     (if \<not> e_Links s then (Ok (), tr)
      else (Ok (), tr @ CLinkList appid 0 0 #
        map CLinkRevoke (link_tokens (case e_LinkList s tr appid 0 0 of Err _ \<Rightarrow> [] | Ok ls \<Rightarrow> ls))))"
  by (simp add: revokeLinks_def bindE_def callE_def retE_def revoke_loop)

lemma blob_loop:
  "forE (\<lambda>r. if vr_TarballKey r \<noteq> '''' then tell (CBlobDelete (vr_TarballKey r)) else retE ()) rs tr =
     (Ok (), tr @ map CBlobDelete (filter (\<lambda>k. k \<noteq> '''') (map vr_TarballKey rs)))"
  by (induction rs arbitrary: tr) (simp_all add: prog_defs)

lemma deleteBlobs_run:
  "deleteBlobs app appid tr =
     (Ok (), tr @ map CBlobDelete (filter (\<lambda>k. k \<noteq> '''') (map vr_TarballKey (loadVersions app))) @ [CBlobDelete appid])"
  by (simp add: deleteBlobs_def bindE_def blob_loop tell_def)

lemma tenantOf_calls: "\<exists>new. snd (tenantOf s tr) = tr @ new \<and> set new \<subseteq> {CTenant}"
  by (auto simp: tenantOf_def Let_def split: option.split prod.split)

lemma tenantOf_extends: "\<exists>new. snd (tenantOf s tr) = tr @ new \<and> list_all quiet new"
  using tenantOf_calls [of s tr] by (force simp: list_all_iff)

lemma filter_mutating_revokes [simp]: "filter mutating (map CLinkRevoke ts) = map CLinkRevoke ts"
  by (induction ts) simp_all

lemma defaults_frame2 [simp]:
  "e_Delete (defaults s) = e_Delete s" "e_LinkList (defaults s) = e_LinkList s" "e_LinkGet (defaults s) = e_LinkGet s"
  "e_Now (defaults s) = e_Now s" "e_Format (defaults s) = e_Format s" "e_BcryptOk (defaults s) = e_BcryptOk s"
  "e_Metrics (defaults s) = e_Metrics s" "e_Meter (defaults s) = e_Meter s"
  by (simp_all add: defaults_def Let_def)

lemma defaults_idem: "e_DeployTimeout s \<noteq> 0 \<Longrightarrow> e_PollInterval s \<noteq> 0 \<Longrightarrow> e_Namespace s \<noteq> '''' \<Longrightarrow> defaults s = s"
  by (simp add: defaults_def)

lemma defaults_defaults [simp]: "defaults (defaults s) = defaults s"
  by (rule defaults_idem) (simp_all add: defaults_def Let_def second_def millisecond_def)

lemma allowed_defaults [simp]: "allowed (defaults s) = allowed s"
  by (simp add: allowed_def fun_eq_iff split: option.split)

lemma granted_defaults [simp]: "granted (defaults s) = granted s"
  by (auto simp: granted_def visible_def fun_eq_iff split: option.splits)

lemma delete_tail_effects:
  "\<exists>new. snd (delete_tail s t owner app appid tr) = tr @ new \<and>
     filter mutating new =
       map CLinkRevoke (if e_Links s then link_tokens (case e_LinkList s tr appid 0 0 of Err _ \<Rightarrow> [] | Ok ls \<Rightarrow> ls) else []) @
       map CBlobDelete (filter (\<lambda>k. k \<noteq> '''') (map vr_TarballKey (loadVersions app)) @ [appid])"
  by (simp add: delete_tail_def bindE_def revokeLinks_run deleteBlobs_run recordAudit_run meter_def errE_def
      tell_def retE_def split: option.split)

lemma Delete_found:
  assumes "snd (tenantOf s tr) = tr1" "Get s owner appid tr1 = (Ok app, tr2)"
    "authorize (defaults s) ActionAppDelete app owner tr2 = (Ok None, tr3)"
    "e_Delete s tr3 app = None \<or> (\<exists>m. e_Delete s tr3 app = Some (KNotFound m))"
  shows "Delete s owner appid tr = delete_tail (defaults s) (fst (fst (tenantOf s tr))) owner app appid (tr3 @ [CDelete app])"
  using assms
  by (cases "tenantOf s tr") (auto simp: Delete_def bindE_def callE_def Let_def)

text \<open>Deleting an app is only done for a caller who may see it and whom the authorizer allows to
  delete it.  Once the app is gone, every share link of that name that is not yet revoked is revoked
  and every blob its history references is deleted, whatever the single calls answer; a delete that
  is refused or fails at the API server touches neither links nor blobs.\<close>

theorem delete_revokes_links_and_blobs:
  assumes "Delete s owner appid tr = (r, tr @ new)"
  shows "filter mutating new = [] \<or>
     (\<exists>app. granted s owner appid app \<and> allowed s ActionAppDelete owner app \<and>
       ((\<exists>e. r = Err (DDelete e)) \<and> filter mutating new = [CDelete app] \<or>
        (\<exists>tr0 ts ks. filter mutating new = CDelete app # map CLinkRevoke ts @ map CBlobDelete ks \<and>
           (e_Links s \<longrightarrow> ts = link_tokens (case e_LinkList s tr0 appid 0 0 of Err _ \<Rightarrow> [] | Ok ls \<Rightarrow> ls)) \<and>
           keys_of (loadVersions app) \<subseteq> set ks)))"
proof -
  obtain n0 where n0: "snd (tenantOf s tr) = tr @ n0" "list_all quiet n0" using tenantOf_extends by blast
  obtain x where x: "tenantOf s tr = (x, tr @ n0)" using n0(1) by (cases "tenantOf s tr") simp
  note start = Delete_def [of s owner appid tr] x
  show ?thesis
  proof (cases rule: Get_cases [of s owner appid "tr @ n0"])
    case (missing e n)
    with assms n0 show ?thesis by (auto simp: start Let_def bindE_def split: prod.splits)
  next
    case (found app n)
    show ?thesis
    proof (cases rule: authorize_cases [of "defaults s" ActionAppDelete app owner "tr @ n0 @ n"])
      case (deny e n')
      with found n0 assms show ?thesis
        by (auto simp: start Let_def bindE_def recordFail_run split: option.splits prod.splits)
    next
      case (allow n')
      let ?tr3 = "tr @ n0 @ n @ n'"
      show ?thesis
      proof (cases "e_Delete s ?tr3 app = None \<or> (\<exists>m. e_Delete s ?tr3 app = Some (KNotFound m))")
        case True
        then have D: "Delete s owner appid tr =
            delete_tail (defaults s) (fst (fst (tenantOf s tr))) owner app appid (?tr3 @ [CDelete app])"
          using Delete_found [OF n0(1), of owner appid app "tr @ n0 @ n" ?tr3] found(1) allow(1) by simp
        from delete_tail_effects [of "defaults s" "fst (fst (tenantOf s tr))" owner app appid "?tr3 @ [CDelete app]"]
        obtain m where m: "new = n0 @ n @ n' @ CDelete app # m" "filter mutating m =
            map CLinkRevoke (if e_Links s then link_tokens
              (case e_LinkList s (?tr3 @ [CDelete app]) appid 0 0 of Err _ \<Rightarrow> [] | Ok ls \<Rightarrow> ls) else []) @
            map CBlobDelete (filter (\<lambda>k. k \<noteq> '''') (map vr_TarballKey (loadVersions app)) @ [appid])"
          using assms D by auto
        have "filter mutating new = CDelete app # filter mutating m"
          using m(1) n0(2) found(2) allow(2) by simp
        moreover have "keys_of (loadVersions app)
            \<subseteq> set (filter (\<lambda>k. k \<noteq> '''') (map vr_TarballKey (loadVersions app)) @ [appid])"
          by (auto simp: keys_of_def)
        moreover have "allowed s ActionAppDelete owner app" using allow(3) by simp
        ultimately show ?thesis using found(4) unfolding m(2)
          by (intro disjI2 exI [of _ app] conjI exI [of _ "?tr3 @ [CDelete app]"] exI)
            (assumption, assumption, assumption, simp_all)
      next
        case False
        then obtain e where e: "e_Delete s ?tr3 app = Some e" "\<not> IsNotFound e"
          by (cases "e_Delete s ?tr3 app") (auto elim: IsNotFound.elims)
        with found allow n0 assms show ?thesis
          by (auto simp: start Let_def bindE_def callE_def recordFail_run split: prod.splits option.splits)
      qed
    qed
  qed
qed

subsection \<open>Rolling back\<close>

lemma find_version_SomeD: "find_version v h = Some r \<Longrightarrow> r \<in> set h \<and> vr_Version r = v"
  by (auto simp: find_version_def find_Some_iff) (metis length_rev nth_mem set_rev)

lemma find_version_unique:
  assumes "history_wf h" "r \<in> set h"
  shows "find_version (vr_Version r) h = Some r"
proof -
  have "r' = r" if "r' \<in> set h" "vr_Version r' = vr_Version r" for r'
    using assms that unfolding history_wf_def
    by (auto simp: in_set_conv_nth sorted_wrt_iff_nth_less) (metis linorder_neqE_nat nth_map order_less_irrefl)
  moreover obtain r' where r': "find_version (vr_Version r) h = Some r'"
    using assms(2) by (cases "find_version (vr_Version r) h") (auto simp: find_version_def find_None_iff)
  ultimately show ?thesis using find_version_SomeD [OF r'] by auto
qed

lemma rollback_accounting:
  assumes "target \<in> set h" "appendCapped h (rollbackRecord h now target v) maxVersions = (kept, ev)"
  shows "keys_of h = keys_of kept \<union> set ev" "set ev \<inter> keys_of kept = {}" "vr_TarballKey target \<notin> set ev"
    "history_wf h \<Longrightarrow> history_wf kept" "vr_TarballKey (last kept) = vr_TarballKey target"
    "vr_Version (last kept) = nextVersion h"
proof -
  let ?rec = "rollbackRecord h now target v"
  have rec: "vr_TarballKey ?rec = vr_TarballKey target" "vr_Version ?rec = nextVersion h"
    by (simp_all add: rollbackRecord_def)
  have "keys_of (h @ [?rec]) = keys_of h" using assms(1) rec(1) by (auto simp: keys_of_def)
  then show "keys_of h = keys_of kept \<union> set ev"
    using appendCapped_accounting [of h ?rec maxVersions] assms(2) by simp
  show dis: "set ev \<inter> keys_of kept = {}" using appendCapped_keys_kept [of _ h ?rec maxVersions] assms(2) by auto
  show last: "vr_TarballKey (last kept) = vr_TarballKey target" "vr_Version (last kept) = nextVersion h"
    using appendCapped_last [of maxVersions h ?rec] assms(2) rec by (simp_all add: maxVersions_def)
  have "kept \<noteq> []" using appendCapped_length [of h ?rec maxVersions] assms(2) by (auto simp: maxVersions_def)
  then have "vr_TarballKey target \<in> vr_TarballKey ` set kept" using last(1) by (metis imageI last_in_set)
  moreover have "'''' \<notin> set ev"
    using appendCapped_evicted_old [of "''''" h ?rec maxVersions] assms(2) by (auto simp: keys_of_def)
  ultimately show "vr_TarballKey target \<notin> set ev" using dis by (auto simp: keys_of_def)
  show "history_wf h \<Longrightarrow> history_wf kept" using history_wf_append [of h ?rec] assms(2) rec(2) by simp
qed

lemma waitReady_quiet: "\<exists>new. snd (waitReady s ns name tr) = tr @ new \<and> list_all quiet new \<and>
    (\<forall>e. fst (waitReady s ns name tr) = Err e \<longrightarrow> late e)"
proof -
  obtain r tr' where r: "waitReady s ns name tr = (r, tr')" by fastforce
  from specD [OF waitReady_spec r] obtain new where "tr' = tr @ new" "wait_post s ns name tr r new" by metis
  then show ?thesis using r by (auto simp: wait_post_def late_def waiting_quiet)
qed

lemma rollback_write_effects:
  "\<exists>new. snd (rollback_write s t owner appid version app1 ev tr) = tr @ new \<and>
     filter mutating new =
       (case fst (rollback_write s t owner appid version app1 ev tr) of
          Err (DUpdate _) \<Rightarrow> [CUpdate app1] | _ \<Rightarrow> CUpdate app1 # map CBlobDelete ev)"
proof (cases "e_Update s tr app1")
  case (Inl e)
  then show ?thesis by (simp add: rollback_write_def bindE_def callE_def recordFail_run split: option.split)
next
  case (Inr app2)
  let ?m = "\<lparr>me_Kind = ''rollback'', me_Tenant = tenant_ID t, me_Owner = owner, me_App = appid,
            me_Namespace = app_Namespace app2\<rparr>"
  let ?tr1 = "tr @ CUpdate app1 # map CBlobDelete ev"
  let ?tr2 = "?tr1 @ (case e_Audit s of None \<Rightarrow> [] | Some _ \<Rightarrow> [CAudit ''rollback'' appid ''ok'' (''to v'' @ Itoa version)])
     @ (if e_Meter s then [CMeter ?m] else [])"
  obtain n where n: "snd (waitReady s (app_Namespace app2) appid ?tr2) = ?tr2 @ n" "list_all quiet n"
    "\<forall>e. fst (waitReady s (app_Namespace app2) appid ?tr2) = Err e \<longrightarrow> late e"
    using waitReady_quiet by blast
  show ?thesis
  proof (cases "\<exists>f e. e_Audit s = Some f \<and> f ?tr1 ''rollback'' appid ''ok'' (''to v'' @ Itoa version) = Some e")
    case True
    then show ?thesis using Inr
      by (auto simp: rollback_write_def bindE_def callE_def forE_blobs recordAudit_run errE_def)
  next
    case False
    have "rollback_write s t owner appid version app1 ev tr = waitReady s (app_Namespace app2) appid ?tr2"
      using Inr False
      by (auto simp: rollback_write_def bindE_def callE_def forE_blobs recordAudit_run errE_def meter_def tell_def
          retE_def split: option.splits)
    with n show ?thesis
      by (cases "fst (waitReady s (app_Namespace app2) appid ?tr2)")
        (auto simp: late_def split: option.split)
  qed
qed

text \<open>A rollback that returns a result made the app run a source it already had: the target was in
  the history of an app the caller may see, the app now points at the target's blob, the written
  history ends with a new version number carrying the target's blob, and no blob is deleted that the
  written history needs, the target's least of all, even when the target itself aged out.\<close>

theorem rollback_reuses_retained_source:
  assumes "Rollback s owner appid version tr = (Ok res, tr @ new)"
  shows "\<exists>app target app1 ev. granted s owner appid app \<and>
     target \<in> set (loadVersions app) \<and> vr_Version target = version \<and> vr_TarballRef target \<noteq> '''' \<and>
     filter mutating new = CUpdate app1 # map CBlobDelete ev \<and>
     source_TarballRef (spec_Source (app_Spec app1)) = vr_TarballRef target \<and>
     vr_TarballKey (last (loadVersions app1)) = vr_TarballKey target \<and>
     vr_Version (last (loadVersions app1)) = nextVersion (loadVersions app) \<and>
     keys_of (loadVersions app) = keys_of (loadVersions app1) \<union> set ev \<and>
     set ev \<inter> keys_of (loadVersions app1) = {} \<and> vr_TarballKey target \<notin> set ev \<and>
     (history_wf (loadVersions app) \<longrightarrow> history_wf (loadVersions app1))"
proof -
  let ?s = "defaults s"
  obtain n0 where n0: "snd (tenantOf ?s tr) = tr @ n0" "list_all quiet n0" using tenantOf_extends by blast
  obtain t x where x: "tenantOf ?s tr = ((t, x), tr @ n0)" using n0(1) by (cases "tenantOf ?s tr") auto
  show ?thesis
  proof (cases rule: Get_cases [of ?s owner appid "tr @ n0"])
    case (missing e n)
    with assms x show ?thesis by (simp add: Rollback_def Let_def bindE_def)
  next
    case (found app n)
    let ?h = "loadVersions app"
    obtain target where target: "find_version version ?h = Some target" "vr_TarballRef target \<noteq> ''''"
      using assms x found(1)
      by (cases "find_version version ?h") (auto simp: Rollback_def Let_def bindE_def failE_def split: if_splits)
    let ?now = "e_Format s (e_Now s (tr @ n0 @ n))"
    obtain kept ev where ke: "appendCapped ?h (rollbackRecord ?h ?now target version) maxVersions = (kept, ev)"
      by fastforce
    let ?app1 = "rollbackApp app target kept"
    have "Rollback s owner appid version tr =
        rollback_write ?s t owner appid version ?app1 ev (tr @ n0 @ n @ [CNow])"
      using x found(1) target ke by (simp add: Rollback_def Let_def bindE_def callE_def)
    with rollback_write_effects [of ?s t owner appid version ?app1 ev "tr @ n0 @ n @ [CNow]"] assms
    obtain m where "new = n0 @ n @ CNow # m" "filter mutating m = CUpdate ?app1 # map CBlobDelete ev" by auto
    then have "filter mutating new = CUpdate ?app1 # map CBlobDelete ev" using n0(2) found(2) by simp
    moreover have "loadVersions ?app1 = kept" "source_TarballRef (spec_Source (app_Spec ?app1)) = vr_TarballRef target"
      by (simp_all add: rollbackApp_def loadVersions_def marshalVersions_def)
    moreover note find_version_SomeD [OF target(1)] target(2) found(4)
    ultimately show ?thesis
      using rollback_accounting [OF _ ke] by (intro exI [of _ app] exI [of _ target] exI [of _ ?app1] exI [of _ ev]) simp
  qed
qed

lemma only_read_record [emits_intros]: "emits (recordAudit s a t o' d) only_read"
  unfolding recordAudit_def by (intro emits_intros) simp

lemma only_read_recordFail [emits_intros]: "emits (recordFail s a t o' d e) only_read"
  unfolding emits_def by (rule specI) (simp add: recordFail_run split: option.split)

lemma only_read_meter [emits_intros]: "emits (meter s ev) only_read"
  unfolding meter_def by (intro emits_intros) simp_all

lemma only_read_Get [emits_intros]: "emits (Get s owner appid) only_read"
  unfolding emits_def by (rule spec_mono [OF Get_spec]) (simp add: list_all_iff)

lemma waiting_only_read: "list_all waiting tr \<Longrightarrow> list_all only_read tr"
proof (induction tr)
  case (Cons c tr)
  then show ?case by (cases c) simp_all
qed simp

lemma only_read_waitReady [emits_intros]: "emits (waitReady s ns name) only_read"
  unfolding emits_def
  by (rule spec_mono [OF waitReady_spec]) (simp add: wait_post_def waiting_only_read)

lemma only_read_rollback_write [emits_intros]:
  "emits (rollback_write s t owner appid v app1 ev) only_read"
  unfolding rollback_write_def by (intro emits_intros) simp_all

lemma emits_from:
  assumes "emits m P" "list_all P a"
  shows "\<exists>new. snd (m (tr @ a)) = tr @ new \<and> list_all P new"
proof -
  obtain r tr' where r: "m (tr @ a) = (r, tr')" by fastforce
  from emitsD [OF assms(1) r] obtain n where "tr' = (tr @ a) @ n" "list_all P n" .
  then show ?thesis using r assms(2) by simp
qed

lemma only_read_Rollback: "emits (Rollback s owner appid version) only_read"
  unfolding emits_def
proof (rule specI)
  fix tr
  let ?s = "defaults s"
  obtain n0 where n0: "snd (tenantOf ?s tr) = tr @ n0" "set n0 \<subseteq> {CTenant}" using tenantOf_calls by blast
  then obtain x where x: "tenantOf ?s tr = (x, tr @ n0)" by (cases "tenantOf ?s tr") simp
  have or: "list_all only_read n0" using n0(2) by (auto simp: list_all_iff)
  obtain t e where t: "x = (t, e)" by fastforce
  let ?m = "bindE (Get ?s owner appid) (\<lambda>app.
      let history = loadVersions app in
      case find_version version history of
        None \<Rightarrow> failE (DVersion version)
      | Some target \<Rightarrow>
          if vr_TarballRef target = '''' then failE (DVersion version)
          else bindE (callE CNow (\<lambda>tr. Ok (e_Now ?s tr))) (\<lambda>now.
            let (kept, evicted) = appendCapped history (rollbackRecord history (e_Format ?s now) target version) maxVersions;
                app1 = rollbackApp app target kept
            in rollback_write ?s t owner appid version app1 evicted))"
  have m: "emits ?m only_read" unfolding Let_def case_prod_beta by (intro emits_intros) simp_all
  have R: "Rollback s owner appid version tr = ?m (tr @ n0)" by (simp add: Rollback_def x t Let_def)
  show "\<exists>new. snd (Rollback s owner appid version tr) = tr @ new \<and> list_all only_read new"
    unfolding R by (rule emits_from [OF m or])
qed

lemma only_read_CreateShareLink: "emits (CreateShareLink s owner appid pw ex) only_read"
  unfolding CreateShareLink_def Let_def by (intro emits_intros) simp_all

lemma only_read_RevokeShareLink: "emits (RevokeShareLink s owner token) only_read"
  unfolding RevokeShareLink_def case_prod_beta by (intro emits_intros) simp_all

text \<open>Rolling back an app and creating or revoking its share links ask the authorizer only for
  the right to read the app: a caller granted nothing but reading can do all three.\<close>

theorem rollback_and_share_need_only_read:
  "emits (Rollback s owner appid version) only_read \<and>
   emits (CreateShareLink s owner appid password expiresIn) only_read \<and>
   emits (RevokeShareLink s owner token) only_read"
  by (simp add: only_read_Rollback only_read_CreateShareLink only_read_RevokeShareLink)

subsection \<open>Share links\<close>

text \<open>A share link opens an app only while it is neither revoked nor expired and, if it has a
  password, to somebody who knows it; the app is the one of the link's name.\<close>

theorem share_link_opens_only_live:
  assumes "ResolveShareLink s token password tr = (Ok app, tr')"
  shows "\<exists>link h now. e_LinkGet s tr token = Ok (link, h) \<and> \<not> sl_Revoked link \<and>
     now = e_Now s (tr @ [CLinkGet token]) \<and>
     (\<forall>ex. sl_ExpiresAt link = Some ex \<longrightarrow> now \<le> ex) \<and>
     (h \<noteq> '''' \<longrightarrow> password \<noteq> '''' \<and> e_BcryptOk s h password) \<and>
     (\<exists>tr0. e_Get s tr0 (e_Namespace (defaults s)) (sl_ArtifactID link) = Ok app)"
  using assms
  by (auto simp: ResolveShareLink_def prog_defs Let_def split: if_splits sum.splits option.splits)

text \<open>A link is created only for an app its creator may see, with 32 random bytes as its token,
  not revoked, and expiring exactly when a positive lifetime was asked for.\<close>

theorem share_link_created_for_visible_app:
  assumes "CreateShareLink s owner appid password expiresIn tr = (Ok link, tr @ new)"
  shows "(\<exists>app. granted s owner appid app) \<and> (\<exists>h. filter mutating new = [CLinkCreate link h]) \<and>
     (\<exists>tr0 b. e_Rand s tr0 32 = Ok b \<and> sl_Token link = EncodeToString b) \<and>
     sl_ArtifactID link = appid \<and> \<not> sl_Revoked link \<and> sl_HasPassword link = (password \<noteq> '''') \<and>
     (sl_ExpiresAt link = (if expiresIn > 0 then Some (sl_CreatedAt link + expiresIn) else None))"
proof (cases rule: Get_cases [of s owner appid tr])
  case (missing e n)
  with assms show ?thesis by (auto simp: CreateShareLink_def prog_defs split: if_splits)
next
  case (found app n)
  with assms show ?thesis
    by (auto simp: CreateShareLink_def prog_defs Let_def split: if_splits sum.splits option.splits) blast+
qed

end
