(* ===== verification/Deploy_Examples.thy ===== *)
theory Deploy_Examples
  imports Query
begin

section \<open>Concrete deploys\<close>

text \<open>
  A small environment and the runs that instantiate the theorems about the deploy service: a fixed
  app (or none) under every name, an API server whose create or update may fail, an auditor, a
  quota, and an app that is ready at the first look.
\<close>

definition sample_ready :: "string \<Rightarrow> string \<Rightarrow> VibedApp" where
  "sample_ready ns name = (sample_app ns name ''al'')
     \<lparr>app_Status := empty_status\<lparr>st_Phase := PhaseReady, st_URL := ''http://a''\<rparr>\<rparr>"

fun is_write :: "call \<Rightarrow> bool" where
  "is_write (CCreate _) = True"
| "is_write (CUpdate _) = True"
| "is_write _ = False"

definition sample_env :: "VibedApp option \<Rightarrow> kerr option \<Rightarrow> string option \<Rightarrow> env" where
  "sample_env existing werr qerr =
     \<lparr>e_Tenants = None, e_Namespace = ''ns'', e_DeployTimeout = 10, e_PollInterval = 1, e_Role = ''user'',
      e_sha256 = (\<lambda>_. ''h''), e_CreateTemp = (\<lambda>_. None), e_SpoolWrite = (\<lambda>_. None), e_Rewind = (\<lambda>_. None),
      e_Classify = (\<lambda>_ _. Err ''no''),
      e_Get = (\<lambda>tr ns name. if list_ex is_write tr then Ok (sample_ready ns name)
                 else case existing of None \<Rightarrow> Err (KNotFound ''nf'') | Some a \<Rightarrow> Ok a),
      e_List = (\<lambda>_ ns sel. list_of (case existing of None \<Rightarrow> [] | Some a \<Rightarrow> [a]) ns
                 (case sel of SelLabel k v \<Rightarrow> Some (k, v) | _ \<Rightarrow> None)),
      e_Create = (\<lambda>_ _. werr), e_Update = (\<lambda>_ a. case werr of None \<Rightarrow> Ok a | Some e \<Rightarrow> Err e), e_Delete = (\<lambda>_ _. werr),
      e_Policy = None, e_Authz = None, e_Batch = None, e_Scope = None,
      e_Quota = Some (\<lambda>_ _ _ _. case qerr of None \<Rightarrow> Ok '''' | Some e \<Rightarrow> Err e),
      e_Rand = (\<lambda>_ n. Ok ''r''), e_Now = (\<lambda>_. 0), e_Format = (\<lambda>_. ''t''), e_Put = (\<lambda>_ k _. Ok ''u''),
      e_Audit = Some (\<lambda>_ _ _ _ _. None), e_Meter = False, e_Metrics = False, e_Watch = None, e_Events = (\<lambda>_. []),
      e_Sleep = (\<lambda>_. (None, 0)), e_Links = True, e_BaseURL = '''', e_LinkCreate = (\<lambda>_ _ _. None),
      e_LinkGet = (\<lambda>_ t. Ok (\<lparr>sl_Token = t, sl_ArtifactID = ''a'', sl_CreatedBy = ''al'', sl_HasPassword = False,
         sl_ExpiresAt = Some 5, sl_CreatedAt = 0, sl_Revoked = False, sl_URL = ''''\<rparr>, '''')),
      e_LinkList = (\<lambda>_ _ _ _. Ok []), e_LinkRevoke = (\<lambda>_ _. None), e_Bcrypt = (\<lambda>_ p. Ok p), e_BcryptOk = (\<lambda>_ _. True)\<rparr>"

definition sample_req :: Request where
  "sample_req = \<lparr>rq_Name = ''a'', rq_Owner = ''al'',
     rq_Tarball = \<lparr>rd_bytes = ''x'', rd_err = None, rd_seekable = True\<rparr>,
     rq_LaneOverride = LaneFast, rq_TemplateOverride = ''static'', rq_Entrypoint = '''', rq_Env = [], rq_TTL = '''',
     rq_AllowedHosts = []\<rparr>"

lemma sample_sel [simp]:
  "e_Tenants (sample_env existing werr qerr) = None"
  "e_Namespace (sample_env existing werr qerr) = ''ns''"
  "e_DeployTimeout (sample_env existing werr qerr) = 10"
  "e_PollInterval (sample_env existing werr qerr) = 1"
  "e_Role (sample_env existing werr qerr) = ''user''"
  "e_sha256 (sample_env existing werr qerr) = (\<lambda>_. ''h'')"
  "e_CreateTemp (sample_env existing werr qerr) = (\<lambda>_. None)"
  "e_SpoolWrite (sample_env existing werr qerr) = (\<lambda>_. None)"
  "e_Rewind (sample_env existing werr qerr) = (\<lambda>_. None)"
  "e_Classify (sample_env existing werr qerr) = (\<lambda>_ _. Err ''no'')"
  "e_Get (sample_env existing werr qerr) = (\<lambda>tr ns name. if list_ex is_write tr then Ok (sample_ready ns name) else case existing of None \<Rightarrow> Err (KNotFound ''nf'') | Some a \<Rightarrow> Ok a)"
  "e_List (sample_env existing werr qerr) = (\<lambda>_ ns sel. list_of (case existing of None \<Rightarrow> [] | Some a \<Rightarrow> [a]) ns (case sel of SelLabel k v \<Rightarrow> Some (k, v) | _ \<Rightarrow> None))"
  "e_Create (sample_env existing werr qerr) = (\<lambda>_ _. werr)"
  "e_Update (sample_env existing werr qerr) = (\<lambda>_ a. case werr of None \<Rightarrow> Ok a | Some e \<Rightarrow> Err e)"
  "e_Delete (sample_env existing werr qerr) = (\<lambda>_ _. werr)"
  "e_Policy (sample_env existing werr qerr) = None"
  "e_Authz (sample_env existing werr qerr) = None"
  "e_Batch (sample_env existing werr qerr) = None"
  "e_Scope (sample_env existing werr qerr) = None"
  "e_Quota (sample_env existing werr qerr) = Some (\<lambda>_ _ _ _. case qerr of None \<Rightarrow> Ok '''' | Some e \<Rightarrow> Err e)"
  "e_Rand (sample_env existing werr qerr) = (\<lambda>_ n. Ok ''r'')"
  "e_Now (sample_env existing werr qerr) = (\<lambda>_. 0)"
  "e_Format (sample_env existing werr qerr) = (\<lambda>_. ''t'')"
  "e_Put (sample_env existing werr qerr) = (\<lambda>_ k _. Ok ''u'')"
  "e_Audit (sample_env existing werr qerr) = Some (\<lambda>_ _ _ _ _. None)"
  "e_Meter (sample_env existing werr qerr) = False"
  "e_Metrics (sample_env existing werr qerr) = False"
  "e_Watch (sample_env existing werr qerr) = None"
  "e_Events (sample_env existing werr qerr) = (\<lambda>_. [])"
  "e_Sleep (sample_env existing werr qerr) = (\<lambda>_. (None, 0))"
  "e_Links (sample_env existing werr qerr) = True"
  "e_BaseURL (sample_env existing werr qerr) = ''''"
  "e_LinkCreate (sample_env existing werr qerr) = (\<lambda>_ _ _. None)"
  "e_LinkGet (sample_env existing werr qerr) = (\<lambda>_ t. Ok (\<lparr>sl_Token = t, sl_ArtifactID = ''a'', sl_CreatedBy = ''al'', sl_HasPassword = False, sl_ExpiresAt = Some 5, sl_CreatedAt = 0, sl_Revoked = False, sl_URL = ''''\<rparr>, ''''))"
  "e_LinkList (sample_env existing werr qerr) = (\<lambda>_ _ _ _. Ok [])"
  "e_LinkRevoke (sample_env existing werr qerr) = (\<lambda>_ _. None)"
  "e_Bcrypt (sample_env existing werr qerr) = (\<lambda>_ p. Ok p)"
  "e_BcryptOk (sample_env existing werr qerr) = (\<lambda>_ _. True)"
  by (simp_all add: sample_env_def)

lemma sample_defaults [simp]: "defaults (sample_env ex w q) = sample_env ex w q"
  by (simp add: defaults_def)

lemmas run_defs = Deploy_def sample_req_def prog_defs Let_def deferE_def resolveTenant_def
  tenantOf_def zero_tenant_def acquireSource_def streamSource_def read_limited_def checkSize_def
  MaxTarballBytes_def classify_def lookupExisting_def deployBody_def gates_def gatePolicy_def gateOwner_def
  gateAuthz_def gateQuota_def recordFail_run commit_def storeVersion_def openSource_def newVersionKey_def
  nextVersion_def writeApp_def afterWrite_def recordAudit_def meter_def deployMetrics_def releaseQuota_def
  waitReady_def pollReady.simps getApp_run phaseResult_def withReadyCondition_def FindStatusCondition_def
  mkResult_def cleanup_def dnsName_def dns_alnum_def is_digit_def

lemma created_run:
  "\<exists>new. Deploy (sample_env None None None) sample_req [] =
     (Ok (mkResult ''a'' PhaseReady ''http://a'' True), [] @ new)"
  by (simp add: run_defs sample_ready_def sample_app_def empty_status_def appendCapped_def maxVersions_def)

lemmas app_defs = sample_ready_def sample_app_def empty_status_def appendCapped_def maxVersions_def loadVersions_def
  audited_def

lemma updated_run:
  "\<exists>app. CUpdate app \<in> set (snd (Deploy (sample_env (Some (sample_app ''ns'' ''a'' ''al'')) None None) sample_req []))"
  by (simp add: run_defs app_defs)

lemma quota_denied_run:
  "\<exists>new. Deploy (sample_env None None (Some ''q'')) sample_req [] = (Err (DQuota ''q''), [] @ new)"
  by (simp add: run_defs)

lemma create_failed_run:
  "\<exists>new. Deploy (sample_env None (Some (KOther ''x'')) None) sample_req [] = (Err (DCreate (KOther ''x'')), [] @ new)"
  by (simp add: run_defs app_defs)

lemma update_failed_run:
  "\<exists>new. Deploy (sample_env (Some (sample_app ''ns'' ''a'' ''al'')) (Some (KConflict ''x'')) None) sample_req []
     = (Err (DUpdate (KConflict ''x'')), [] @ new)"
  by (simp add: run_defs app_defs)


theorem deploy_never_takes_over_witness:
  "\<exists>ns tr0 ex. e_Get (sample_env (Some (sample_app ''ns'' ''a'' ''al'')) None None) tr0 ns ''a'' = Ok ex \<and>
     (spec_Owner (app_Spec ex) = '''' \<or> spec_Owner (app_Spec ex) = ''al'')"
proof -
  let ?s = "sample_env (Some (sample_app ''ns'' ''a'' ''al'')) None None"
  obtain app where app: "CUpdate app \<in> set (snd (Deploy ?s sample_req []))" using updated_run by blast
  have "Deploy ?s sample_req [] = (fst (Deploy ?s sample_req []), [] @ snd (Deploy ?s sample_req []))" by simp
  from deploy_never_takes_over [OF this app] show ?thesis by (auto simp: sample_req_def)
qed

theorem deploy_audited_once_witness:
  "\<exists>new. Deploy (sample_env None None (Some ''q'')) sample_req [] = (Err (DQuota ''q''), [] @ new) \<and>
     audit_outcomes new = [''denied'']"
proof -
  obtain new where new: "Deploy (sample_env None None (Some ''q'')) sample_req [] = (Err (DQuota ''q''), [] @ new)"
    using quota_denied_run by blast
  from new deploy_audited_once [OF new] show ?thesis by (auto simp: expected_audit_def)
qed

theorem deploy_history_and_blobs_agree_witness:
  "\<exists>new key b app ev. Deploy (sample_env None None None) sample_req [] =
       (Ok (mkResult ''a'' PhaseReady ''http://a'' True), [] @ new) \<and>
     (\<exists>ex. filter mutating new = CPut key b # write_call ex app # map CBlobDelete ev) \<and>
     set ev \<inter> keys_of (loadVersions app) = {}"
proof -
  obtain new where new: "Deploy (sample_env None None None) sample_req [] =
      (Ok (mkResult ''a'' PhaseReady ''http://a'' True), [] @ new)" using created_run by blast
  from new deploy_history_and_blobs_agree [OF new] show ?thesis by blast
qed

theorem deploy_create_failure_removes_blob_witness:
  "\<exists>new key b app. Deploy (sample_env None (Some (KOther ''x'')) None) sample_req [] =
       (Err (DCreate (KOther ''x'')), [] @ new) \<and> filter mutating new = [CPut key b, CCreate app, CBlobDelete key]"
proof -
  obtain new where new: "Deploy (sample_env None (Some (KOther ''x'')) None) sample_req [] =
      (Err (DCreate (KOther ''x'')), [] @ new)" using create_failed_run by blast
  from new deploy_create_failure_removes_blob [OF new] show ?thesis by blast
qed

theorem deploy_update_failure_leaves_blob_witness:
  "\<exists>new key b app. Deploy (sample_env (Some (sample_app ''ns'' ''a'' ''al'')) (Some (KConflict ''x'')) None) sample_req [] =
       (Err (DUpdate (KConflict ''x'')), [] @ new) \<and> filter mutating new = [CPut key b, CUpdate app]"
proof -
  obtain new where new: "Deploy (sample_env (Some (sample_app ''ns'' ''a'' ''al'')) (Some (KConflict ''x'')) None) sample_req [] =
      (Err (DUpdate (KConflict ''x'')), [] @ new)" using update_failed_run by blast
  from new deploy_update_failure_leaves_blob [OF new] show ?thesis by blast
qed

theorem deploy_releases_quota_after_write_witness:
  "\<exists>new a c. Deploy (sample_env None None None) sample_req [] =
       (Ok (mkResult ''a'' PhaseReady ''http://a'' True), [] @ new) \<and>
     new = a @ CQuotaRelease # c \<and> list_all (\<lambda>x. \<not> writes x) c"
proof -
  obtain new where new: "Deploy (sample_env None None None) sample_req [] =
      (Ok (mkResult ''a'' PhaseReady ''http://a'' True), [] @ new)" using created_run by blast
  from new deploy_releases_quota_after_write [OF new] show ?thesis by auto
qed

theorem deploy_ready_was_observed_witness:
  "\<exists>new. Deploy (sample_env None None None) sample_req [] =
       (Ok (mkResult ''a'' PhaseReady ''http://a'' True), [] @ new) \<and> r_AppID (mkResult ''a'' PhaseReady ''http://a'' True) = ''a''"
proof -
  obtain new where new: "Deploy (sample_env None None None) sample_req [] =
      (Ok (mkResult ''a'' PhaseReady ''http://a'' True), [] @ new)" using created_run by blast
  from new deploy_ready_was_observed [OF new] show ?thesis by (simp add: mkResult_def sample_req_def)
qed

theorem stream_agrees_with_buffer_witness:
  "(case fst (streamSource (sample_env None None None) \<lparr>rd_bytes = ''xy'', rd_err = None, rd_seekable = False\<rparr> 1 []) of
      Err e \<Rightarrow> Err e | Ok (b, _) \<Rightarrow> Ok b) = Err (DTooLarge 0)"
  by (subst stream_agrees_with_buffer) (simp_all add: readCapped_def read_limited_def checkSize_def)

theorem readCapped_accepts_iff_witness:
  "readCapped \<lparr>rd_bytes = ''xy'', rd_err = None, rd_seekable = False\<rparr> 2 = Ok ''xy''"
  by (subst readCapped_accepts_iff) simp_all

theorem pollReady_bounded_witness:
  "\<exists>new. snd (pollReady (sample_env (Some (sample_app ''ns'' ''a'' ''al'')) None None) ''ns'' ''a'' 10 0 []) = [] @ new \<and>
     int (gets new) \<le> 12"
  using pollReady_bounded [of "sample_env (Some (sample_app ''ns'' ''a'' ''al'')) None None" "''ns''" "''a''" 10 0 "[]"]
  by simp

subsection \<open>Reading and changing apps\<close>

abbreviation al_env :: env where
  "al_env \<equiv> sample_env (Some (sample_app ''ns'' ''a'' ''al'')) None None"

lemma al_tenant: "resolveTenant (defaults al_env) [] =
    (Ok \<lparr>tenant_ID = '''', tenant_Namespace = ''ns'', tenant_Limits = \<lparr>lim_MaxApps = 0\<rparr>\<rparr>, [])"
  by (simp add: resolveTenant_def tenantOf_def zero_tenant_def)

theorem Get_hides_foreign_apps_witness:
  "fst (Get al_env ''bo'' ''a'' []) = Err DNotFound \<and> fst (Get al_env ''al'' ''a'' []) = Ok (sample_app ''ns'' ''a'' ''al'')"
  using Get_hides_foreign_apps [OF al_tenant, of "''bo''" "''a''"] Get_hides_foreign_apps [OF al_tenant, of "''al''" "''a''"]
  by (simp add: visible_def)

definition al_authz :: env where
  "al_authz = al_env\<lparr>e_Authz := Some (\<lambda>_ q. if ar_Owner (aq_Resource q) = ''al'' then None else Some ''no''),
     e_Batch := Some (\<lambda>_ qs. map (\<lambda>q. if ar_Owner (aq_Resource q) = ''al'' then None else Some ''no'') qs)\<rparr>"

theorem batch_agrees_with_single_witness:
  "fst (filterAuthorized al_authz [sample_app ''ns'' ''a'' ''al'', sample_app ''ns'' ''b'' ''bo''] ''x'' []) =
     Ok [sample_app ''ns'' ''a'' ''al'']"
  by (subst batch_agrees_with_single [where ?f0.0 = "\<lambda>q. if ar_Owner (aq_Resource q) = ''al'' then None else Some ''no''"])
    (auto simp: al_authz_def appRequest_def)

theorem pages_cover_listing_witness:
  "concat (map (\<lambda>i. paginate (int 2) (int (i * 2)) [1, 2, 3 :: nat]) [0..<2]) = [1, 2, 3]"
  by (rule pages_cover_listing) simp_all

theorem list_is_exact_witness:
  "fst (ListApps al_env ''al'' 1 0 []) = Ok ([sample_app ''ns'' ''a'' ''al''], 1)"
  by (subst list_is_exact [OF _ al_tenant, where apps = "[sample_app ''ns'' ''a'' ''al'']"])
    (simp_all add: Let_def paginate_def)

lemma Get_al: "Get al_env ''al'' ''a'' [] = (Ok (sample_app ''ns'' ''a'' ''al''), [CGet ''ns'' ''a''])"
  using al_tenant by (simp add: Get_run visible_def Let_def)

lemma al_not_suspended [simp]: "\<not> spec_Suspended (app_Spec (sample_app ns name owner))"
  by (simp add: sample_app_def)

theorem suspend_changes_only_the_flag_witness:
  "\<exists>new. SetSuspended al_env ''al'' ''a'' True [] = (fst (SetSuspended al_env ''al'' ''a'' True []), [] @ new) \<and>
     new \<noteq> [] \<and> (filter mutating new = [] \<or> (\<exists>app. granted al_env ''al'' ''a'' app))"
proof -
  let ?r = "SetSuspended al_env ''al'' ''a'' True []"
  have r: "?r = (fst ?r, [] @ snd ?r)" by simp
  have "snd ?r \<noteq> []"
    by (simp add: SetSuspended_def Get_al prog_defs authorize_run recordAudit_run Let_def)
  with r suspend_changes_only_the_flag [OF r] show ?thesis by blast
qed

theorem delete_revokes_links_and_blobs_witness:
  "\<exists>new. Delete al_env ''al'' ''a'' [] = (Ok (), [] @ new) \<and> filter mutating new \<noteq> [] \<and>
     (\<exists>app. granted al_env ''al'' ''a'' app)"
proof -
  let ?d = "Delete al_env ''al'' ''a'' []"
  have "fst ?d = Ok ()" and m: "filter mutating (snd ?d) \<noteq> []"
    by (simp_all add: Delete_def tenantOf_def zero_tenant_def Let_def Get_al prog_defs authorize_run delete_tail_def
        revokeLinks_run deleteBlobs_run recordAudit_run meter_def link_tokens_def)
  then have d: "?d = (Ok (), [] @ snd ?d)" by (cases ?d) simp
  from d m delete_revokes_links_and_blobs [OF d] show ?thesis by blast
qed

definition al_versioned :: env where
  "al_versioned = sample_env (Some ((sample_app ''ns'' ''a'' ''al'')\<lparr>app_Versions := AnnRecords
     [\<lparr>vr_Version = 1, vr_Timestamp = '''', vr_Template = ''static'', vr_Lane = ''fast'', vr_SourceHash = ''h'',
       vr_TarballKey = ''k1'', vr_TarballRef = ''u1'', vr_RolledBackFrom = 0\<rparr>]\<rparr>)) None None"

lemma rollback_run:
  "\<exists>new. Rollback al_versioned ''al'' ''a'' 1 [] = (Ok (mkResult ''a'' PhaseReady ''http://a'' True), [] @ new)"
  by (simp add: al_versioned_def Rollback_def tenantOf_def zero_tenant_def Let_def Get_run resolveTenant_def visible_def
      bindE_def callE_def loadVersions_def find_version_def appendCapped_def maxVersions_def rollback_write_def forE_blobs
      recordAudit_run errE_def meter_def retE_def waitReady_def pollReady.simps getApp_run mapE_def phaseResult_def
      sample_ready_def sample_app_def empty_status_def withReadyCondition_def FindStatusCondition_def mkResult_def)

theorem rollback_reuses_retained_source_witness:
  "\<exists>new ev app1. Rollback al_versioned ''al'' ''a'' 1 [] = (Ok (mkResult ''a'' PhaseReady ''http://a'' True), [] @ new) \<and>
     filter mutating new = CUpdate app1 # map CBlobDelete ev \<and> set ev \<inter> keys_of (loadVersions app1) = {}"
proof -
  obtain new where new: "Rollback al_versioned ''al'' ''a'' 1 [] =
      (Ok (mkResult ''a'' PhaseReady ''http://a'' True), [] @ new)" using rollback_run by blast
  from new rollback_reuses_retained_source [OF new] show ?thesis by blast
qed

theorem share_link_opens_only_live_witness:
  "\<exists>link h. e_LinkGet al_env [] ''t'' = Ok (link, h) \<and> \<not> sl_Revoked link"
proof -
  have "ResolveShareLink al_env ''t'' '''' [] = (Ok (sample_app ''ns'' ''a'' ''al''), [CLinkGet ''t'', CNow, CGet ''ns'' ''a''])"
    by (simp add: ResolveShareLink_def prog_defs Let_def)
  from share_link_opens_only_live [OF this] show ?thesis by auto
qed

theorem share_link_created_for_visible_app_witness:
  "\<exists>link new. CreateShareLink al_env ''al'' ''a'' ''pw'' 5 [] = (Ok link, [] @ new) \<and> sl_HasPassword link \<and>
     sl_ExpiresAt link = Some (sl_CreatedAt link + 5)"
proof -
  have "\<exists>link new. CreateShareLink al_env ''al'' ''a'' ''pw'' 5 [] = (Ok link, [] @ new)"
    by (simp add: CreateShareLink_def prog_defs Get_al Let_def)
  then obtain link new where l: "CreateShareLink al_env ''al'' ''a'' ''pw'' 5 [] = (Ok link, [] @ new)" by blast
  from l share_link_created_for_visible_app [OF l] show ?thesis by auto
qed

end
