(* ===== verification/Async_Inject.thy ===== *)
theory Async_Inject
  imports Prelude
begin

section \<open>Asynchronous source injection\<close>

text \<open>
  \<open>src/internal/controller/asyncinject.go\<close>: at most one tracked inject attempt per app.  Attempts
  are heap objects (the goroutine keeps its own pointer to the entry while the map may already point
  elsewhere), so the tracker is a map from app UIDs to addresses and a store of entries.  Every
  method runs under the mutex and is one step; the goroutine's only step on the tracker is \<open>record\<close>.
  Times are nanoseconds.
\<close>

type_synonym uid = string

datatype injectState = injectNone | injectInflight | injectDone

record injectResult =
  ir_running :: bool
  ir_err :: "string option"
  ir_completedAt :: time

record injectEntry =
  ie_token :: string
  ie_state :: injectState
  ie_result :: injectResult
  ie_cancelled :: bool

record asyncInjector =
  ai_entries :: "uid \<rightharpoonup> nat"
  ai_heap :: "nat \<rightharpoonup> injectEntry"
  ai_next :: nat

definition injectResultTTL :: duration where
  "injectResultTTL = 5 * minute"

definition no_result :: injectResult where
  "no_result = \<lparr>ir_running = False, ir_err = None, ir_completedAt = 0\<rparr>"

definition newAsyncInjector :: asyncInjector where
  "newAsyncInjector = \<lparr>ai_entries = Map.empty, ai_heap = Map.empty, ai_next = 0\<rparr>"

text \<open>\<open>fmt.Sprintf("%s|%d|%s", target, generation, tarballRef)\<close>.\<close>

definition injectToken :: "string \<Rightarrow> int \<Rightarrow> string \<Rightarrow> string" where
  "injectToken target generation ref = target @ ''|'' @ Itoa generation @ ''|'' @ ref"

definition expired :: "time \<Rightarrow> injectEntry \<Rightarrow> bool" where
  "expired now e \<longleftrightarrow> ie_state e = injectDone \<and> now - ir_completedAt (ie_result e) > injectResultTTL"

definition evictExpiredLocked :: "time \<Rightarrow> asyncInjector \<Rightarrow> asyncInjector" where
  "evictExpiredLocked now a = a\<lparr>ai_entries := (\<lambda>uid. case ai_entries a uid of
      None \<Rightarrow> None
    | Some p \<Rightarrow> (case ai_heap a p of
        Some e \<Rightarrow> if expired now e then None else Some p
      | None \<Rightarrow> Some p))\<rparr>"

definition cancel_at :: "nat \<Rightarrow> asyncInjector \<Rightarrow> asyncInjector" where
  "cancel_at p a = (case ai_heap a p of
      None \<Rightarrow> a
    | Some e \<Rightarrow> a\<lparr>ai_heap := (ai_heap a)(p \<mapsto> e\<lparr>ie_cancelled := True\<rparr>)\<rparr>)"

definition peek :: "time \<Rightarrow> uid \<Rightarrow> string \<Rightarrow> asyncInjector \<Rightarrow> asyncInjector \<times> injectState \<times> injectResult" where
  "peek now uid token a0 =
     (let a = evictExpiredLocked now a0 in
      case ai_entries a uid of
        None \<Rightarrow> (a, injectNone, no_result)
      | Some p \<Rightarrow> (case ai_heap a p of
          None \<Rightarrow> (a, injectNone, no_result)
        | Some e \<Rightarrow>
            if ie_token e \<noteq> token then (a, injectNone, no_result)
            else if ie_state e \<noteq> injectDone then (a, injectInflight, no_result)
            else (a\<lparr>ai_entries := (ai_entries a)(uid := None)\<rparr>, injectDone, ie_result e)))"

text \<open>The address of the attempt, and whether it was started by this call.\<close>

definition launch :: "time \<Rightarrow> uid \<Rightarrow> string \<Rightarrow> asyncInjector \<Rightarrow> asyncInjector \<times> nat \<times> bool" where
  "launch now uid token a0 =
     (let a = evictExpiredLocked now a0;
          fresh = (\<lambda>b. let p = ai_next b in
             (b\<lparr>ai_entries := (ai_entries b)(uid \<mapsto> p),
                ai_heap := (ai_heap b)(p \<mapsto> \<lparr>ie_token = token, ie_state = injectInflight, ie_result = no_result,
                                              ie_cancelled = False\<rparr>),
                ai_next := Suc p\<rparr>, p, True))
      in case ai_entries a uid of
           None \<Rightarrow> fresh a
         | Some p \<Rightarrow> (case ai_heap a p of
             None \<Rightarrow> fresh a
           | Some e \<Rightarrow> if ie_token e = token then (a, p, False) else fresh (cancel_at p a)))"

definition forget :: "uid \<Rightarrow> asyncInjector \<Rightarrow> asyncInjector" where
  "forget uid a = (case ai_entries a uid of
      None \<Rightarrow> a
    | Some p \<Rightarrow> (cancel_at p a)\<lparr>ai_entries := (ai_entries a)(uid := None)\<rparr>)"

definition record_at :: "time \<Rightarrow> nat \<Rightarrow> bool \<Rightarrow> string option \<Rightarrow> asyncInjector \<Rightarrow> asyncInjector" where
  "record_at now p running err a = (case ai_heap a p of
      None \<Rightarrow> a
    | Some e \<Rightarrow> a\<lparr>ai_heap := (ai_heap a)(p \<mapsto> e\<lparr>
        ie_result := \<lparr>ir_running = running, ir_err = err, ir_completedAt = now\<rparr>,
        ie_state := injectDone, ie_cancelled := True\<rparr>)\<rparr>)"

definition done_at :: "nat \<Rightarrow> asyncInjector \<Rightarrow> bool" where
  "done_at p a \<longleftrightarrow> (case ai_heap a p of None \<Rightarrow> False | Some e \<Rightarrow> ie_state e = injectDone)"

text \<open>
  \<open>step\<close>: between the launch and the end of the grace window other workers and the goroutine run;
  \<open>during\<close> is what they do to the tracker, \<open>later\<close> the time the window ends.
\<close>

definition step ::
  "time \<Rightarrow> time \<Rightarrow> (asyncInjector \<Rightarrow> asyncInjector) \<Rightarrow> uid \<Rightarrow> string \<Rightarrow> asyncInjector \<Rightarrow>
   asyncInjector \<times> injectState \<times> injectResult" where
  "step now later during uid token a =
     (case peek now uid token a of
        (a1, st, res) \<Rightarrow>
          if st \<noteq> injectNone then (a1, st, res)
          else (case launch now uid token a1 of
            (a2, p, _) \<Rightarrow>
              let a3 = during a2 in
              if done_at p a3 then
                (case peek later uid token a3 of
                   (a4, st2, res2) \<Rightarrow>
                     if st2 \<noteq> injectNone then (a4, st2, res2) else (a4, injectInflight, no_result))
              else (a3, injectInflight, no_result)))"

subsection \<open>Runs of the tracker\<close>

text \<open>Everything that can happen to the tracker, in any order.  \<open>ARecord\<close> is a goroutine finishing
  the attempt at an address: it reports once per attempt, since one goroutine runs it.\<close>

datatype iaction =
    IPeek time uid string
  | ILaunch time uid string
  | IForget uid
  | IRecord time nat bool "string option"

fun iact :: "iaction \<Rightarrow> asyncInjector \<Rightarrow> asyncInjector" where
  "iact (IPeek now uid token) a = fst (peek now uid token a)"
| "iact (ILaunch now uid token) a = fst (launch now uid token a)"
| "iact (IForget uid) a = forget uid a"
| "iact (IRecord now p r e) a = (if done_at p a then a else record_at now p r e a)"

definition irun :: "iaction list \<Rightarrow> asyncInjector" where
  "irun as = fold iact as newAsyncInjector"

text \<open>What the history says of the attempt at an address: for whom and what it was started, and the
  result its goroutine reported.\<close>

definition started :: "iaction list \<Rightarrow> nat \<Rightarrow> uid \<Rightarrow> string \<Rightarrow> bool" where
  "started as p uid token \<longleftrightarrow>
     (\<exists>pre now post. as = pre @ ILaunch now uid token # post \<and>
        snd (launch now uid token (irun pre)) = (p, True))"

definition reported :: "iaction list \<Rightarrow> nat \<Rightarrow> injectResult \<Rightarrow> bool" where
  "reported as p r \<longleftrightarrow> (\<exists>now run err. IRecord now p run err \<in> set as \<and>
     r = \<lparr>ir_running = run, ir_err = err, ir_completedAt = now\<rparr>)"

definition ai_inv :: "iaction list \<Rightarrow> asyncInjector \<Rightarrow> bool" where
  "ai_inv as a \<longleftrightarrow>
     (\<forall>p e. ai_heap a p = Some e \<longrightarrow> p < ai_next a \<and>
        (\<exists>uid. started as p uid (ie_token e)) \<and>
        (ie_state e = injectDone \<longrightarrow> reported as p (ie_result e))) \<and>
     (\<forall>uid p. ai_entries a uid = Some p \<longrightarrow> (\<exists>e. ai_heap a p = Some e \<and> started as p uid (ie_token e))) \<and>
     (\<forall>u v p. ai_entries a u = Some p \<longrightarrow> ai_entries a v = Some p \<longrightarrow> u = v)"

lemma irun_snoc: "irun (as @ [x]) = iact x (irun as)"
  by (simp add: irun_def)

lemma started_mono: "started as p u t \<Longrightarrow> started (as @ bs) p u t"
  unfolding started_def by (metis append.assoc append_Cons)

lemma reported_mono: "reported as p r \<Longrightarrow> reported (as @ bs) p r"
  unfolding reported_def by auto

lemma evict_heap [simp]: "ai_heap (evictExpiredLocked now a) = ai_heap a" "ai_next (evictExpiredLocked now a) = ai_next a"
  by (simp_all add: evictExpiredLocked_def)

lemma evict_entries:
  "ai_entries (evictExpiredLocked now a) u = Some p \<Longrightarrow>
     ai_entries a u = Some p \<and> (\<forall>e. ai_heap a p = Some e \<longrightarrow> \<not> expired now e)"
  by (auto simp: evictExpiredLocked_def split: option.splits if_splits)

lemma cancel_fields [simp]:
  "ai_entries (cancel_at p a) = ai_entries a" "ai_next (cancel_at p a) = ai_next a"
  by (simp_all add: cancel_at_def split: option.split)

lemma cancel_heap:
  "ai_heap (cancel_at p a) q = Some e \<Longrightarrow> \<exists>e0. ai_heap a q = Some e0 \<and> ie_token e = ie_token e0 \<and>
     ie_state e = ie_state e0 \<and> ie_result e = ie_result e0"
  by (auto simp: cancel_at_def split: option.splits if_splits)

lemma cancel_heap_dom: "ai_heap a q = Some e0 \<Longrightarrow> \<exists>e. ai_heap (cancel_at p a) q = Some e \<and> ie_token e = ie_token e0"
  by (auto simp: cancel_at_def split: option.splits)

text \<open>A step that keeps the heap up to cancelling and only drops map entries keeps the invariant.\<close>

lemma ai_inv_drop:
  assumes inv: "ai_inv as a"
    and n: "ai_next b = ai_next a"
    and h: "\<And>q e. ai_heap b q = Some e \<Longrightarrow> \<exists>e0. ai_heap a q = Some e0 \<and> ie_token e = ie_token e0 \<and>
       ie_state e = ie_state e0 \<and> ie_result e = ie_result e0"
    and h': "\<And>q e0. ai_heap a q = Some e0 \<Longrightarrow> \<exists>e. ai_heap b q = Some e \<and> ie_token e = ie_token e0"
    and m: "\<And>u q. ai_entries b u = Some q \<Longrightarrow> ai_entries a u = Some q"
  shows "ai_inv as b"
  unfolding ai_inv_def
proof (intro conjI allI impI)
  fix q e assume "ai_heap b q = Some e"
  from h [OF this] obtain e0 where e0: "ai_heap a q = Some e0" "ie_token e = ie_token e0"
    "ie_state e = ie_state e0" "ie_result e = ie_result e0" by blast
  show "q < ai_next b" "\<exists>uid. started as q uid (ie_token e)"
    using inv e0 n unfolding ai_inv_def by auto
  show "ie_state e = injectDone \<Longrightarrow> reported as q (ie_result e)"
    using inv e0 unfolding ai_inv_def by auto
next
  fix u q assume "ai_entries b u = Some q"
  then have "ai_entries a u = Some q" by (rule m)
  then obtain e0 where "ai_heap a q = Some e0" "started as q u (ie_token e0)" using inv unfolding ai_inv_def by blast
  with h' [of q e0] show "\<exists>e. ai_heap b q = Some e \<and> started as q u (ie_token e)" by auto
next
  fix u v q assume "ai_entries b u = Some q" "ai_entries b v = Some q"
  then show "u = v" using m [of u q] m [of v q] inv unfolding ai_inv_def by blast
qed

lemma ai_inv_evict: "ai_inv as a \<Longrightarrow> ai_inv as (evictExpiredLocked now a)"
  by (erule ai_inv_drop) (auto dest: evict_entries)

lemma ai_inv_cancel: "ai_inv as a \<Longrightarrow> ai_inv as (cancel_at p a)"
  by (erule ai_inv_drop) (auto dest: cancel_heap cancel_heap_dom)

lemma ai_inv_unmap: "ai_inv as a \<Longrightarrow> ai_inv as (a\<lparr>ai_entries := (ai_entries a)(uid := None)\<rparr>)"
  by (erule ai_inv_drop) (auto split: if_splits)

lemma ai_inv_more:
  assumes "ai_inv as a" shows "ai_inv (as @ bs) a"
  using assms started_mono reported_mono unfolding ai_inv_def by meson

lemma ai_inv_peek: "ai_inv as a \<Longrightarrow> ai_inv as (fst (peek now uid token a))"
  using ai_inv_unmap [OF ai_inv_evict [of as a now]] ai_inv_evict [of as a now]
  by (auto simp: peek_def Let_def split: option.split)

lemma ai_inv_forget: "ai_inv as a \<Longrightarrow> ai_inv as (forget uid a)"
  using ai_inv_unmap [OF ai_inv_cancel]
  by (auto simp: forget_def split: option.split)

text \<open>The fresh attempt of a launch.\<close>

lemma ai_inv_fresh:
  assumes inv: "ai_inv as b" and st: "started as' (ai_next b) uid token"
    and ext: "as' = as @ [x]"
  shows "ai_inv as' (b\<lparr>ai_entries := (ai_entries b)(uid \<mapsto> ai_next b),
     ai_heap := (ai_heap b)(ai_next b \<mapsto> \<lparr>ie_token = token, ie_state = injectInflight, ie_result = no_result,
        ie_cancelled = False\<rparr>), ai_next := Suc (ai_next b)\<rparr>)"
proof -
  have inv': "ai_inv as' b" using ai_inv_more [OF inv] ext by simp
  have new: "ai_entries b u \<noteq> Some (ai_next b)" for u
    using inv unfolding ai_inv_def by (metis less_irrefl)
  show ?thesis unfolding ai_inv_def
    using inv' st new unfolding ai_inv_def by (auto simp: less_Suc_eq split: if_splits)
qed

definition fresh_attempt :: "uid \<Rightarrow> string \<Rightarrow> asyncInjector \<Rightarrow> asyncInjector" where
  "fresh_attempt uid token b = b\<lparr>ai_entries := (ai_entries b)(uid \<mapsto> ai_next b),
     ai_heap := (ai_heap b)(ai_next b \<mapsto> \<lparr>ie_token = token, ie_state = injectInflight, ie_result = no_result,
        ie_cancelled = False\<rparr>), ai_next := Suc (ai_next b)\<rparr>"

lemma launch_cases:
  obtains (kept) p e where "launch now uid token a = (evictExpiredLocked now a, p, False)"
      "ai_entries (evictExpiredLocked now a) uid = Some p" "ai_heap a p = Some e" "ie_token e = token"
  | (fresh) b where "launch now uid token a = (fresh_attempt uid token b, ai_next a, True)" "ai_next b = ai_next a"
      "b = evictExpiredLocked now a \<or> (\<exists>p. b = cancel_at p (evictExpiredLocked now a))"
proof (cases "ai_entries (evictExpiredLocked now a) uid")
  case None
  then show thesis using fresh [of "evictExpiredLocked now a"] by (simp add: launch_def Let_def fresh_attempt_def)
next
  case (Some p)
  show thesis
  proof (cases "ai_heap a p")
    case None
    with Some show thesis using fresh [of "evictExpiredLocked now a"] by (simp add: launch_def Let_def fresh_attempt_def)
  next
    case (Some e)
    with \<open>ai_entries (evictExpiredLocked now a) uid = Some p\<close> show thesis
      using fresh [of "cancel_at p (evictExpiredLocked now a)"] kept [of p e]
      by (cases "ie_token e = token") (auto simp: launch_def Let_def fresh_attempt_def)
  qed
qed

lemma ai_inv_launch:
  assumes "ai_inv as (irun as)"
  shows "ai_inv (as @ [ILaunch now uid token]) (fst (launch now uid token (irun as)))"
proof (cases rule: launch_cases [of now uid token "irun as"])
  case (kept p e)
  then show ?thesis using ai_inv_more [OF ai_inv_evict [OF assms]] by simp
next
  case (fresh b)
  have st: "started (as @ [ILaunch now uid token]) (ai_next b) uid token"
    unfolding started_def using fresh(1,2) by (metis append_Nil2 snd_conv append.left_neutral)
  have "ai_inv as b" using fresh(3) ai_inv_evict [OF assms] ai_inv_cancel by blast
  from ai_inv_fresh [OF this st refl] show ?thesis using fresh(1) by (simp add: fresh_attempt_def)
qed

lemma ai_inv_record:
  assumes "ai_inv as a"
  shows "ai_inv (as @ [IRecord now p r e]) (record_at now p r e a)"
proof (cases "ai_heap a p")
  case None
  then show ?thesis using ai_inv_more [OF assms] by (simp add: record_at_def)
next
  case (Some e0)
  have "reported (as @ [IRecord now p r e]) p \<lparr>ir_running = r, ir_err = e, ir_completedAt = now\<rparr>"
    by (auto simp: reported_def)
  with Some ai_inv_more [OF assms, of "[IRecord now p r e]"] show ?thesis
    unfolding ai_inv_def record_at_def by (auto split: if_splits) (metis option.inject)
qed

lemma ai_inv_irun: "ai_inv as (irun as)"
proof (induction as rule: rev_induct)
  case Nil
  show ?case by (simp add: ai_inv_def irun_def newAsyncInjector_def)
next
  case (snoc x as)
  then show ?case unfolding irun_snoc
    by (cases x) (auto intro: ai_inv_more ai_inv_peek ai_inv_forget ai_inv_launch ai_inv_record)
qed

lemma ai_invD:
  "ai_inv as a \<Longrightarrow> ai_heap a p = Some e \<Longrightarrow> p < ai_next a"
  "ai_inv as a \<Longrightarrow> ai_heap a p = Some e \<Longrightarrow> ie_state e = injectDone \<Longrightarrow> reported as p (ie_result e)"
  "ai_inv as a \<Longrightarrow> ai_entries a u = Some p \<Longrightarrow> ai_heap a p = Some e \<Longrightarrow> started as p u (ie_token e)"
  "ai_inv as a \<Longrightarrow> ai_entries a u = Some p \<Longrightarrow> ai_entries a v = Some p \<Longrightarrow> u = v"
  unfolding ai_inv_def by (blast, blast, metis option.inject, blast)

lemma peek_done:
  assumes "peek now uid token a = (a', injectDone, r)"
  obtains p e where "ai_entries a uid = Some p" "ai_heap a p = Some e" "ie_token e = token" "ie_state e = injectDone"
    "ie_result e = r" "\<not> expired now e" "ai_entries a' = (ai_entries (evictExpiredLocked now a))(uid := None)"
    "ai_next a' = ai_next a"
proof -
  from assms obtain p e where "ai_entries (evictExpiredLocked now a) uid = Some p" "ai_heap a p = Some e"
    "ie_token e = token" "ie_state e = injectDone" "ie_result e = r"
    "a' = (evictExpiredLocked now a)\<lparr>ai_entries := (ai_entries (evictExpiredLocked now a))(uid := None)\<rparr>"
    by (auto simp: peek_def Let_def split: option.splits if_splits)
  with evict_entries [of now a uid p] that [of p e] show thesis by auto
qed

text \<open>An address the map no longer points at is never pointed at again: addresses are not reused.\<close>

definition dead :: "nat \<Rightarrow> asyncInjector \<Rightarrow> bool" where
  "dead p a \<longleftrightarrow> p < ai_next a \<and> (\<forall>u. ai_entries a u \<noteq> Some p)"

lemma dead_evict: "dead p a \<Longrightarrow> dead p (evictExpiredLocked now a)"
  unfolding dead_def by (auto dest: evict_entries)

lemma dead_peek:
  assumes "dead p a" shows "dead p (fst (peek now uid token a))"
proof -
  have "dead p (a'\<lparr>ai_entries := (ai_entries a')(uid := None)\<rparr>)" if "dead p a'" for a'
    using that by (simp add: dead_def)
  with dead_evict [OF assms, of now] show ?thesis by (auto simp: peek_def Let_def split: option.split)
qed

lemma dead_launch:
  assumes "dead p a" shows "dead p (fst (launch now uid token a))"
proof (cases rule: launch_cases [of now uid token a])
  case (kept q e)
  then show ?thesis using dead_evict [OF assms] by simp
next
  case (fresh b)
  have "dead p b" using fresh(3) dead_evict [OF assms, of now] by (auto simp: dead_def)
  then show ?thesis using fresh(1) by (auto simp: dead_def fresh_attempt_def)
qed

lemma dead_iact: "dead p a \<Longrightarrow> dead p (iact x a)"
proof (cases x)
  case (IForget uid)
  assume "dead p a"
  with IForget show ?thesis by (auto simp: forget_def dead_def split: option.splits)
next
  case (IRecord now q r e)
  assume "dead p a"
  with IRecord show ?thesis by (auto simp: record_at_def dead_def split: option.splits)
qed (auto intro: dead_peek dead_launch)

lemma dead_fold: "dead p a \<Longrightarrow> dead p (fold iact as a)"
  by (induction as arbitrary: a) (auto intro: dead_iact)

text \<open>C19: However deploys, pod replacements, suspensions and finishing injects interleave, the
  controller is only handed the result of an attempt that was started for exactly this app, target,
  generation and source, that its goroutine reported at most five minutes ago, and that is still the
  app's tracked attempt: a result for an earlier source or pod is never taken for the current one.\<close>

theorem inject_result_is_current:
  assumes "peek now uid token (irun as) = (a', injectDone, r)"
  shows "\<exists>p. ai_entries (irun as) uid = Some p \<and> started as p uid token \<and> reported as p r \<and>
     now - ir_completedAt r \<le> injectResultTTL"
  using assms
proof (cases rule: peek_done)
  case (1 p e)
  have "started as p uid token" "reported as p r"
    using ai_invD(3) [OF ai_inv_irun 1(1,2)] ai_invD(2) [OF ai_inv_irun 1(2)] 1(3-5) by simp_all
  moreover have "now - ir_completedAt r \<le> injectResultTTL" using 1 by (simp add: expired_def)
  ultimately show ?thesis using 1(1) by blast
qed

text \<open>The result of an attempt is consumed at most once: after it was handed out, no later state of
  the tracker, whatever happens, tracks that attempt again, for any app.\<close>

theorem inject_result_consumed_once:
  assumes "peek now uid token (irun as) = (a', injectDone, r)" and "ai_entries (irun as) uid = Some p"
  shows "\<forall>v. ai_entries (irun (as @ IPeek now uid token # later)) v \<noteq> Some p"
  using assms(1)
proof (cases rule: peek_done)
  case (1 q e)
  have q: "q = p" using 1(1) assms(2) by simp
  have lt: "p < ai_next (irun as)" using ai_invD(1) [OF ai_inv_irun 1(2)] q by simp
  have uniq: "v = uid" if "ai_entries (irun as) v = Some p" for v
    using ai_invD(4) [OF ai_inv_irun that assms(2)] .
  have "ai_entries a' v \<noteq> Some p" for v
    using 1(7) uniq [of v] evict_entries [of now "irun as" v p] by (auto split: if_splits)
  then have "dead p a'" using lt 1(8) by (simp add: dead_def)
  then have "dead p (fold iact later a')" by (rule dead_fold)
  moreover have "irun (as @ IPeek now uid token # later) = fold iact later a'"
    using assms(1) by (simp add: irun_def)
  ultimately show ?thesis by (simp add: dead_def)
qed

text \<open>A token names its target, generation and source: targets have no bar in them.\<close>

lemma injectToken_inject:
  assumes "CHR ''|'' \<notin> set t" "CHR ''|'' \<notin> set t'" "injectToken t g r = injectToken t' g' r'"
  shows "t = t' \<and> Itoa g = Itoa g' \<and> r = r'"
proof -
  have bar: "CHR ''|'' \<notin> set (Itoa g)" for g
    by (auto simp: Itoa_def is_digit_def dest: itoa_nat_digits)
  have tw: "takeWhile (\<lambda>c. c \<noteq> CHR ''|'') (x @ CHR ''|'' # y) = x" if "CHR ''|'' \<notin> set x" for x y
    using that by (induction x) auto
  have "t @ CHR ''|'' # (Itoa g @ CHR ''|'' # r) = t' @ CHR ''|'' # (Itoa g' @ CHR ''|'' # r')"
    using assms(3) by (simp add: injectToken_def)
  then have 1: "t = t'" "Itoa g @ CHR ''|'' # r = Itoa g' @ CHR ''|'' # r'"
    using tw [OF assms(1)] tw [OF assms(2)] by (metis, metis append_same_eq same_append_eq list.inject assms tw)
  then show ?thesis using tw [OF bar] by (metis list.inject same_append_eq)
qed

text \<open>What the controller gets from one pass, whatever ran during the grace window.\<close>

lemma step_done:
  assumes "step now later (fold iact acts) uid token (irun as) = (a', injectDone, r)"
  shows "\<exists>bs p. started bs p uid token \<and> reported bs p r"
proof -
  let ?a1 = "fst (peek now uid token (irun as))"
  have "\<exists>t bs a''. peek t uid token (irun bs) = (a'', injectDone, r)"
  proof (cases "fst (snd (peek now uid token (irun as)))")
    case injectDone
    with assms have "peek now uid token (irun as) = (a', injectDone, r)"
      by (auto simp: step_def split: prod.splits if_splits)
    then show ?thesis by blast
  next
    case injectInflight
    with assms show ?thesis by (auto simp: step_def split: prod.splits if_splits)
  next
    case injectNone
    let ?bs = "as @ [IPeek now uid token, ILaunch now uid token] @ acts"
    have "irun ?bs = fold iact acts (fst (launch now uid token ?a1))"
      by (simp add: irun_def)
    with assms injectNone have "\<exists>a''. peek later uid token (irun ?bs) = (a'', injectDone, r)"
      by (auto simp: step_def Let_def split: prod.splits if_splits)
    then show ?thesis by blast
  qed
  then show ?thesis
  proof (elim exE)
    fix t bs a''
    assume d: "peek t uid token (irun bs) = (a'', injectDone, r)"
    from d show ?thesis
    proof (cases rule: peek_done)
      case (1 p e)
      then show ?thesis
        using ai_invD(3) [OF ai_inv_irun 1(1,2)] ai_invD(2) [OF ai_inv_irun 1(2)] by auto
    qed
  qed
qed

lemma inject_example:
  "peek 9 ''u'' ''t'' (irun [ILaunch 0 ''u'' ''old'', ILaunch 1 ''u'' ''t'', IRecord 2 0 True None, IRecord 3 1 True None])
     = (fst (peek 9 ''u'' ''t'' (irun [ILaunch 0 ''u'' ''old'', ILaunch 1 ''u'' ''t'', IRecord 2 0 True None, IRecord 3 1 True None])),
        injectDone, \<lparr>ir_running = True, ir_err = None, ir_completedAt = 3\<rparr>)"
  "ai_entries (irun [ILaunch 0 ''u'' ''old'', ILaunch 1 ''u'' ''t'', IRecord 2 0 True None, IRecord 3 1 True None]) ''u'' = Some 1"
  by (simp_all add: irun_def newAsyncInjector_def launch_def evictExpiredLocked_def cancel_at_def done_at_def record_at_def
      peek_def Let_def expired_def injectResultTTL_def minute_def second_def)

theorem inject_result_is_current_witness:
  "\<exists>p. started [ILaunch 0 ''u'' ''old'', ILaunch 1 ''u'' ''t'', IRecord 2 0 True None, IRecord 3 1 True None] p ''u'' ''t''"
  using inject_result_is_current [OF inject_example(1)] by blast

theorem inject_result_consumed_once_witness:
  "ai_entries (irun ([ILaunch 0 ''u'' ''old'', ILaunch 1 ''u'' ''t'', IRecord 2 0 True None, IRecord 3 1 True None]
     @ IPeek 9 ''u'' ''t'' # [ILaunch 10 ''u'' ''t''])) ''u'' \<noteq> Some 1"
  using inject_result_consumed_once [OF inject_example, of "[ILaunch 10 ''u'' ''t'']"] by blast

end
