(* ===== verification/Controller.thy ===== *)
theory Controller
  imports Api_Types Async_Inject Kube
begin

section \<open>The VibedApp controller\<close>

text \<open>
  \<open>src/internal/controller/vibedapp_controller.go\<close>: one pass of \<open>Reconcile\<close> reads an app, does at
  most one hop of its phase machine and writes its status back.  The collaborators' answers of a pass
  are a record (\<open>answers\<close>); a pass returns the reconcile result, the calls it made, in order, and the
  state of the inject tracker.  The clock does not move during a pass.  The claimer, the probe, the
  services, the router and the fast-lane deployer are interfaces of the source; their answers are
  arbitrary.
\<close>

subsection \<open>Conditions\<close>

definition set_nth_cond :: "time \<Rightarrow> ConditionStatus \<Rightarrow> string \<Rightarrow> string \<Rightarrow> Condition \<Rightarrow> Condition" where
  "set_nth_cond now status reason message c =
     c\<lparr>cond_LastTransitionTime := (if cond_Status c \<noteq> status then Some now else cond_LastTransitionTime c),
       cond_Status := status, cond_Reason := reason, cond_Message := message\<rparr>"

fun merge_condition ::
  "time \<Rightarrow> string \<Rightarrow> ConditionStatus \<Rightarrow> string \<Rightarrow> string \<Rightarrow> Condition list \<Rightarrow> Condition list" where
  "merge_condition now t status reason message [] =
     [\<lparr>cond_Type = t, cond_Status = status, cond_Reason = reason, cond_Message = message,
       cond_LastTransitionTime = Some now\<rparr>]"
| "merge_condition now t status reason message (c # cs) =
     (if cond_Type c = t then set_nth_cond now status reason message c # cs
      else c # merge_condition now t status reason message cs)"

definition set_status :: "(VibedAppStatus \<Rightarrow> VibedAppStatus) \<Rightarrow> VibedApp \<Rightarrow> VibedApp" where
  "set_status f app = app\<lparr>app_Status := f (app_Status app)\<rparr>"

definition setCondition ::
  "time \<Rightarrow> string \<Rightarrow> ConditionStatus \<Rightarrow> string \<Rightarrow> string \<Rightarrow> VibedApp \<Rightarrow> VibedApp" where
  "setCondition now t status reason message =
     set_status (\<lambda>st. st\<lparr>st_Conditions := merge_condition now t status reason message (st_Conditions st)\<rparr>)"

definition setPhase :: "Phase \<Rightarrow> VibedApp \<Rightarrow> VibedApp" where
  "setPhase p = set_status (\<lambda>st. st\<lparr>st_Phase := p\<rparr>)"

definition timePtrEqual :: "time option \<Rightarrow> time option \<Rightarrow> bool" where
  "timePtrEqual a b \<longleftrightarrow> a = b"

definition condEqual :: "Condition \<Rightarrow> Condition \<Rightarrow> bool" where
  "condEqual a b \<longleftrightarrow> cond_Type a = cond_Type b \<and> cond_Status a = cond_Status b \<and>
     cond_Reason a = cond_Reason b \<and> cond_Message a = cond_Message b"

definition statusEqual :: "VibedAppStatus \<Rightarrow> VibedAppStatus \<Rightarrow> bool" where
  "statusEqual a b \<longleftrightarrow> st_Phase a = st_Phase b \<and> st_URL a = st_URL b \<and> st_SandboxRef a = st_SandboxRef b \<and>
     st_PodIP a = st_PodIP b \<and> st_RouteTarget a = st_RouteTarget b \<and> st_SnapshotRef a = st_SnapshotRef b \<and>
     timePtrEqual (st_LastDeployedAt a) (st_LastDeployedAt b) \<and> list_all2 condEqual (st_Conditions a) (st_Conditions b)"

subsection \<open>Validation\<close>

definition validateSpec :: "VibedAppSpec \<Rightarrow> string option" where
  "validateSpec sp =
     (let hasTarball = source_TarballRef (spec_Source sp) \<noteq> ''''; hasGit = source_GitRef (spec_Source sp) \<noteq> '''' in
      if \<not> hasTarball \<and> \<not> hasGit then Some ''spec.source must set tarballRef or gitRef''
      else if hasTarball \<and> hasGit then Some ''spec.source must set exactly one of tarballRef or gitRef''
      else if rt_Lane (spec_Runtime sp) = LaneEmpty then Some ''spec.runtime.lane is required''
      else None)"

definition reasonFromErr :: "string \<Rightarrow> string" where
  "reasonFromErr msg = (if Contains msg ''exactly one'' then ''SourceAmbiguous'' else ''SourceMissing'')"

subsection \<open>Backoff\<close>

definition maxRequeueDelay :: duration where
  "maxRequeueDelay = 60 * second"

fun notReadyConds :: "Condition list \<Rightarrow> time \<Rightarrow> duration" where
  "notReadyConds [] now = 0"
| "notReadyConds (c # cs) now =
     (if cond_Type c \<noteq> ConditionReady then notReadyConds cs now
      else if cond_Status c = ConditionTrue then 0
      else (case cond_LastTransitionTime c of
          None \<Rightarrow> 0
        | Some t \<Rightarrow> if now - t > 0 then now - t else 0))"

definition notReadyFor :: "VibedApp \<Rightarrow> time \<Rightarrow> duration" where
  "notReadyFor app now = notReadyConds (st_Conditions (app_Status app)) now"

fun backoff :: "nat \<Rightarrow> duration \<Rightarrow> duration" where
  "backoff 0 d = d"
| "backoff (Suc periods) d = (if d < maxRequeueDelay then backoff periods (d * 2) else d)"

definition transitionalRequeueAfter :: "duration \<Rightarrow> VibedApp \<Rightarrow> time \<Rightarrow> duration" where
  "transitionalRequeueAfter requeueDelay app now =
     (let base = (if requeueDelay \<le> 0 then 2 * second else requeueDelay);
          d = backoff (nat (notReadyFor app now div base)) base
      in if d > maxRequeueDelay then maxRequeueDelay else d)"

subsection \<open>One pass\<close>

datatype claim_answer = ClaimNoTemplate string | ClaimError string | ClaimUnbound | ClaimBound string string

datatype ccall =
    KGate string | KEnsureClaim | KReleaseClaim | KProbe string | KInject string string | KForget uid
  | KService | KPublish string | KFastDeploy | KFastRemove
  | KStatusUpdate VibedApp
  | KMeter MeterEvent

record answers =
  n_Get :: "(kerr, VibedApp) result"
  n_now :: time
  n_Gate :: "string \<Rightarrow> bool \<times> string"
  n_EnsureClaim :: "VibedApp \<Rightarrow> claim_answer"
  n_ReleaseClaim :: "VibedApp \<Rightarrow> string option"
  n_Probe :: "string \<Rightarrow> (string, bool) result"
  n_during :: "asyncInjector \<Rightarrow> asyncInjector"
  n_later :: time
  n_EnsureService :: "VibedApp \<Rightarrow> (string, string) result"
  n_Publish :: "VibedApp \<Rightarrow> string \<Rightarrow> (string, string) result"
  n_FastDeploy :: "VibedApp \<Rightarrow> (string, string) result"
  n_FastRemove :: "VibedApp \<Rightarrow> string option"
  n_StatusUpdate :: "VibedApp \<Rightarrow> string option"
  n_RequeueDelay :: duration
  n_Meter :: bool

text \<open>The result of a pass: an error, done, or requeue after a delay; the calls; the tracker.\<close>

type_synonym rresult = "(string, duration option) result"
type_synonym outcome = "rresult \<times> ccall list \<times> asyncInjector"

definition applyDelay :: "answers \<Rightarrow> answers" where
  "applyDelay n = (if n_RequeueDelay n = 0 then n\<lparr>n_RequeueDelay := 2 * second\<rparr> else n)"

definition emitLifecycle :: "answers \<Rightarrow> VibedApp \<Rightarrow> Phase \<Rightarrow> Phase \<Rightarrow> ccall list" where
  "emitLifecycle n app old current =
     (if \<not> n_Meter n \<or> old = current then []
      else let ev = (\<lambda>kind. [KMeter \<lparr>me_Kind = kind, me_Tenant = label_get (app_Labels app) LabelTenant,
               me_Owner = spec_Owner (app_Spec app), me_App = app_Name app, me_Namespace = app_Namespace app\<rparr>]) in
        if current = PhaseReady then ev ''app.ready''
        else if old = PhaseReady then ev ''app.stopped'' else [])"

text \<open>The calls made, and the error.\<close>

definition patchStatusIfChanged :: "answers \<Rightarrow> VibedAppStatus \<Rightarrow> VibedApp \<Rightarrow> ccall list \<times> string option" where
  "patchStatusIfChanged n before app =
     (if statusEqual before (app_Status app) then ([], None)
      else case n_StatusUpdate n app of
        Some e \<Rightarrow> ([KStatusUpdate app], Some e)
      | None \<Rightarrow> (KStatusUpdate app # emitLifecycle n app (st_Phase before) (st_Phase (app_Status app)), None))"

text \<open>Patch, then return \<open>requeue\<close>: the tail of every branch.\<close>

definition patchThen ::
  "answers \<Rightarrow> VibedAppStatus \<Rightarrow> VibedApp \<Rightarrow> duration option \<Rightarrow> ccall list \<Rightarrow> asyncInjector \<Rightarrow> outcome" where
  "patchThen n before app requeue calls a =
     (case patchStatusIfChanged n before app of
        (cs, Some e) \<Rightarrow> (Err e, calls @ cs, a)
      | (cs, None) \<Rightarrow> (Ok requeue, calls @ cs, a))"

definition finish ::
  "answers \<Rightarrow> VibedAppStatus \<Rightarrow> VibedApp \<Rightarrow> bool \<Rightarrow> ccall list \<Rightarrow> asyncInjector \<Rightarrow> outcome" where
  "finish n before app requeue calls a =
     patchThen n before app
       (if requeue then Some (transitionalRequeueAfter (n_RequeueDelay n) app (n_now n)) else None) calls a"

definition WorkerdTemplate :: string where
  "WorkerdTemplate = ''workerd''"

definition isWorkerdFastLane :: "VibedApp \<Rightarrow> bool" where
  "isWorkerdFastLane app \<longleftrightarrow>
     rt_Lane (spec_Runtime (app_Spec app)) = LaneFast \<and> rt_Template (spec_Runtime (app_Spec app)) = WorkerdTemplate"

definition notReady :: "answers \<Rightarrow> string \<Rightarrow> string \<Rightarrow> VibedApp \<Rightarrow> VibedApp" where
  "notReady n reason message = setCondition (n_now n) ConditionReady ConditionFalse reason message"

definition reconcileSuspension :: "answers \<Rightarrow> VibedAppStatus \<Rightarrow> VibedApp \<Rightarrow> asyncInjector \<Rightarrow> outcome option" where
  "reconcileSuspension n before app a =
     (let requeueAfter = transitionalRequeueAfter (n_RequeueDelay n) app (n_now n) in
      if spec_Suspended (app_Spec app) then
        if st_Phase (app_Status app) = PhaseSuspended then Some (Ok None, [], a)
        else
          let fast = isWorkerdFastLane app;
              relErr = (if fast then n_FastRemove n app else n_ReleaseClaim n app);
              c = (if fast then KFastRemove else KReleaseClaim)
          in case relErr of
               Some e \<Rightarrow> Some (patchThen n before (notReady n ''Suspended'' (''releasing compute: '' @ e) app)
                  (Some requeueAfter) [c] a)
             | None \<Rightarrow>
                 let app1 = set_status (\<lambda>st. st\<lparr>st_PodIP := '''', st_SandboxRef := '''', st_RouteTarget := '''',
                              st_Phase := PhaseSuspended\<rparr>) app;
                     app2 = notReady n ''Suspended'' ''app suspended; compute released'' app1
                 in Some (finish n before app2 False [c, KForget (app_UID app)] (forget (app_UID app) a))
      else if st_Phase (app_Status app) = PhaseSuspended then
        Some (finish n before (notReady n ''Claiming'' ''restoring; re-claiming warm pool'' (setPhase PhaseClaiming app))
          True [] a)
      else None)"

definition reconcileFastLane :: "answers \<Rightarrow> VibedAppStatus \<Rightarrow> VibedApp \<Rightarrow> asyncInjector \<Rightarrow> outcome" where
  "reconcileFastLane n before app a =
     (let requeueAfter = transitionalRequeueAfter (n_RequeueDelay n) app (n_now n) in
      if st_Phase (app_Status app) = PhaseReady then (Ok None, [], a)
      else case n_FastDeploy n app of
        Err e \<Rightarrow> patchThen n before (notReady n ''ClaimFailed'' e (setPhase PhaseClaiming app)) (Some requeueAfter)
                   [KFastDeploy] a
      | Ok target \<Rightarrow> (case n_Publish n app target of
          Err e \<Rightarrow> patchThen n before (notReady n ''RouterFailed'' e app) (Some requeueAfter)
                     [KFastDeploy, KPublish target] a
        | Ok url \<Rightarrow>
            let app1 = set_status (\<lambda>st. st\<lparr>st_RouteTarget := target, st_URL := url, st_Phase := PhaseReady,
                          st_LastDeployedAt := Some (n_now n)\<rparr>) app;
                app2 = setCondition (n_now n) ConditionReady ConditionTrue ''Running'' ''worker deployed'' app1
            in finish n before app2 False [KFastDeploy, KPublish target] a))"

definition reconcileClaiming :: "answers \<Rightarrow> VibedAppStatus \<Rightarrow> duration \<Rightarrow> VibedApp \<Rightarrow> asyncInjector \<Rightarrow> outcome" where
  "reconcileClaiming n before requeueAfter app a =
     (let template = rt_Template (spec_Runtime (app_Spec app)) in
      case n_Gate n template of
        (False, reason) \<Rightarrow>
          finish n before (setPhase PhaseFailed (notReady n ''TemplateInvalid''
            (''template '' @ Quote template @ '' image failed validation: '' @ reason) app)) False [KGate template] a
      | (True, _) \<Rightarrow> (case n_EnsureClaim n app of
          ClaimNoTemplate e \<Rightarrow>
            finish n before (setPhase PhaseFailed (notReady n ''TemplateMissing'' e app)) False
              [KGate template, KEnsureClaim] a
        | ClaimError e \<Rightarrow>
            patchThen n before (notReady n ''ClaimFailed'' e app) (Some requeueAfter) [KGate template, KEnsureClaim] a
        | ClaimUnbound \<Rightarrow>
            patchThen n before (notReady n ''Claiming'' ''waiting on warm pool'' app) (Some requeueAfter)
              [KGate template, KEnsureClaim] a
        | ClaimBound sandboxRef podIP \<Rightarrow>
            let app1 = set_status (\<lambda>st. st\<lparr>st_SandboxRef := sandboxRef, st_PodIP := podIP, st_Phase := PhaseStarting\<rparr>) app
            in finish n before (notReady n ''Starting'' ''waiting for agent'' app1) True [KGate template, KEnsureClaim] a))"

text \<open>The end of the Starting phase, once the process runs: service, route, Ready.\<close>

definition goReady :: "answers \<Rightarrow> VibedAppStatus \<Rightarrow> duration \<Rightarrow> VibedApp \<Rightarrow> ccall list \<Rightarrow> asyncInjector \<Rightarrow> outcome" where
  "goReady n before requeueAfter app calls a =
     (case n_EnsureService n app of
        Err e \<Rightarrow> patchThen n before (notReady n ''ServiceFailed'' e app) (Some requeueAfter) (calls @ [KService]) a
      | Ok routeTarget \<Rightarrow>
          let app1 = set_status (\<lambda>st. st\<lparr>st_RouteTarget := routeTarget\<rparr>) app;
              ref = st_SandboxRef (app_Status app1)
          in case n_Publish n app1 ref of
               Err e \<Rightarrow> patchThen n before (notReady n ''RouterFailed'' e app1) (Some requeueAfter)
                          (calls @ [KService, KPublish ref]) a
             | Ok url \<Rightarrow>
                 let app2 = set_status (\<lambda>st. st\<lparr>st_URL := url, st_Phase := PhaseReady,
                               st_LastDeployedAt := Some (n_now n)\<rparr>) app1;
                     app3 = setCondition (n_now n) ConditionReady ConditionTrue ''Running'' ''user process listening'' app2
                 in finish n before app3 False (calls @ [KService, KPublish ref]) a)"

definition reconcileStarting :: "answers \<Rightarrow> VibedAppStatus \<Rightarrow> duration \<Rightarrow> VibedApp \<Rightarrow> asyncInjector \<Rightarrow> outcome" where
  "reconcileStarting n before requeueAfter app a =
     (if st_PodIP (app_Status app) = '''' then
        finish n before (setPhase PhaseClaiming app) True [KForget (app_UID app)] (forget (app_UID app) a)
      else
        let target = st_PodIP (app_Status app) @ '':9000'';
            token = injectToken target (app_Generation app) (source_TarballRef (spec_Source (app_Spec app)))
        in case n_Probe n target of
             Err e \<Rightarrow> patchThen n before (notReady n ''AgentUnreachable'' e app) (Some requeueAfter) [KProbe target] a
           | Ok False \<Rightarrow> (Ok (Some requeueAfter), [KProbe target], a)
           | Ok True \<Rightarrow> (case step (n_now n) (n_later n) (n_during n) (app_UID app) token a of
               (a1, state, res) \<Rightarrow>
                 let calls = [KProbe target, KInject target token] in
                 if state = injectInflight then
                   patchThen n before (notReady n ''Injecting'' ''injecting source into sandbox'' app) (Some requeueAfter) calls a1
                 else (case ir_err res of
                   Some e \<Rightarrow> patchThen n before (notReady n ''InjectFailed'' e app) (Some requeueAfter) calls a1
                 | None \<Rightarrow>
                     if \<not> ir_running res then
                       patchThen n before (notReady n ''Starting'' ''user process starting'' app) (Some requeueAfter) calls a1
                     else goReady n before requeueAfter app calls a1)))"

definition reconcileReady :: "answers \<Rightarrow> VibedAppStatus \<Rightarrow> VibedApp \<Rightarrow> asyncInjector \<Rightarrow> outcome" where
  "reconcileReady n before app a =
     (case n_EnsureClaim n app of
        ClaimBound sandboxRef podIP \<Rightarrow>
          if podIP \<noteq> '''' \<and> podIP \<noteq> st_PodIP (app_Status app) then
            let app1 = set_status (\<lambda>st. st\<lparr>st_PodIP := podIP, st_SandboxRef := sandboxRef, st_Phase := PhaseStarting\<rparr>) app
            in finish n before (notReady n ''Starting'' ''sandbox pod replaced; re-injecting source'' app1) True [KEnsureClaim] a
          else (Ok None, [KEnsureClaim], a)
      | _ \<Rightarrow> (Ok None, [KEnsureClaim], a))"

definition reconcilePhase :: "answers \<Rightarrow> VibedAppStatus \<Rightarrow> duration \<Rightarrow> VibedApp \<Rightarrow> asyncInjector \<Rightarrow> outcome" where
  "reconcilePhase n before requeueAfter app a = (case st_Phase (app_Status app) of
      PhaseEmpty \<Rightarrow> finish n before (notReady n ''Claiming'' ''waiting on warm pool'' (setPhase PhaseClaiming app)) True [] a
    | PhasePending \<Rightarrow> finish n before (notReady n ''Claiming'' ''waiting on warm pool'' (setPhase PhaseClaiming app)) True [] a
    | PhaseClaiming \<Rightarrow> reconcileClaiming n before requeueAfter app a
    | PhaseStarting \<Rightarrow> reconcileStarting n before requeueAfter app a
    | PhaseReady \<Rightarrow> reconcileReady n before app a
    | PhaseSuspended \<Rightarrow> (Ok None, [], a)
    | PhaseFailed \<Rightarrow> (Ok None, [], a)
    | PhaseOther _ \<Rightarrow> finish n before (setPhase PhasePending app) True [] a)"

definition Reconcile :: "answers \<Rightarrow> asyncInjector \<Rightarrow> outcome" where
  "Reconcile n0 a =
     (let n = applyDelay n0 in
      case n_Get n of
        Err e \<Rightarrow> (if IsNotFound e then Ok None else Err (kerr_Error e), [], a)
      | Ok app \<Rightarrow>
          if app_DeletionTimestamp app \<noteq> None then (Ok None, [KForget (app_UID app)], forget (app_UID app) a)
          else
            let before = app_Status app;
                requeueAfter = transitionalRequeueAfter (n_RequeueDelay n) app (n_now n)
            in case validateSpec (app_Spec app) of
                 Some e \<Rightarrow>
                   patchThen n before
                     (setPhase PhaseFailed
                       (notReady n (reasonFromErr e) ''spec is invalid''
                         (setCondition (n_now n) ConditionSourceValid ConditionFalse (reasonFromErr e) e app))) None [] a
               | None \<Rightarrow>
                   let app1 = setCondition (n_now n) ConditionSourceValid ConditionTrue ''Valid'' '''' app in
                   case reconcileSuspension n before app1 a of
                     Some out \<Rightarrow> out
                   | None \<Rightarrow>
                       if isWorkerdFastLane app1 then reconcileFastLane n before app1 a
                       else reconcilePhase n before requeueAfter app1 a)"

end
