(* ===== verification/Controller_Facts.thy ===== *)
theory Controller_Facts
  imports Controller
begin

section \<open>What the controller guarantees\<close>

text \<open>
  The phase machine as an inductive relation and the proof that a pass follows it, the Ready
  condition, injection, metering over sequences of passes, and the requeue delays.
\<close>

lemma applyDelay_fields [simp]:
  "n_Get (applyDelay n) = n_Get n" "n_now (applyDelay n) = n_now n" "n_Gate (applyDelay n) = n_Gate n"
  "n_EnsureClaim (applyDelay n) = n_EnsureClaim n" "n_ReleaseClaim (applyDelay n) = n_ReleaseClaim n"
  "n_Probe (applyDelay n) = n_Probe n" "n_during (applyDelay n) = n_during n" "n_later (applyDelay n) = n_later n"
  "n_EnsureService (applyDelay n) = n_EnsureService n" "n_Publish (applyDelay n) = n_Publish n"
  "n_FastDeploy (applyDelay n) = n_FastDeploy n" "n_FastRemove (applyDelay n) = n_FastRemove n"
  "n_StatusUpdate (applyDelay n) = n_StatusUpdate n" "n_Meter (applyDelay n) = n_Meter n"
  by (simp_all add: applyDelay_def)

lemma Reconcile_deleted:
  "n_Get n = Ok app \<Longrightarrow> app_DeletionTimestamp app = Some d \<Longrightarrow>
     Reconcile n a = (Ok None, [KForget (app_UID app)], forget (app_UID app) a)"
  by (simp add: Reconcile_def Let_def)

subsection \<open>What a pass may touch\<close>

lemma set_status_fields [simp]:
  "app_Status (set_status f app) = f (app_Status app)" "app_Spec (set_status f app) = app_Spec app"
  "app_UID (set_status f app) = app_UID app" "app_Name (set_status f app) = app_Name app"
  "app_Generation (set_status f app) = app_Generation app" "app_Labels (set_status f app) = app_Labels app"
  "app_Namespace (set_status f app) = app_Namespace app" "app_Versions (set_status f app) = app_Versions app"
  by (simp_all add: set_status_def)

lemma setCondition_fields [simp]:
  "st_Phase (app_Status (setCondition now t s r m app)) = st_Phase (app_Status app)"
  "st_PodIP (app_Status (setCondition now t s r m app)) = st_PodIP (app_Status app)"
  "st_SandboxRef (app_Status (setCondition now t s r m app)) = st_SandboxRef (app_Status app)"
  "st_RouteTarget (app_Status (setCondition now t s r m app)) = st_RouteTarget (app_Status app)"
  "st_URL (app_Status (setCondition now t s r m app)) = st_URL (app_Status app)"
  "st_LastDeployedAt (app_Status (setCondition now t s r m app)) = st_LastDeployedAt (app_Status app)"
  "app_Spec (setCondition now t s r m app) = app_Spec app" "app_UID (setCondition now t s r m app) = app_UID app"
  "app_Generation (setCondition now t s r m app) = app_Generation app"
  "app_Labels (setCondition now t s r m app) = app_Labels app" "app_Name (setCondition now t s r m app) = app_Name app"
  "app_Namespace (setCondition now t s r m app) = app_Namespace app"
  by (simp_all add: setCondition_def)

lemma setPhase_fields [simp]:
  "st_Phase (app_Status (setPhase p app)) = p" "st_PodIP (app_Status (setPhase p app)) = st_PodIP (app_Status app)"
  "st_Conditions (app_Status (setPhase p app)) = st_Conditions (app_Status app)"
  "app_Spec (setPhase p app) = app_Spec app" "app_UID (setPhase p app) = app_UID app"
  by (simp_all add: setPhase_def)

lemma notReady_fields [simp]:
  "st_Phase (app_Status (notReady n r m app)) = st_Phase (app_Status app)"
  "st_PodIP (app_Status (notReady n r m app)) = st_PodIP (app_Status app)"
  "st_SandboxRef (app_Status (notReady n r m app)) = st_SandboxRef (app_Status app)"
  "st_RouteTarget (app_Status (notReady n r m app)) = st_RouteTarget (app_Status app)"
  "app_Spec (notReady n r m app) = app_Spec app" "app_UID (notReady n r m app) = app_UID app"
  by (simp_all add: notReady_def)

lemma isWorkerd_setCondition [simp]: "isWorkerdFastLane (setCondition now t s r m app) = isWorkerdFastLane app"
  by (simp add: isWorkerdFastLane_def)

text \<open>The apps a pass writes.\<close>

definition writes_of :: "outcome \<Rightarrow> VibedApp set" where
  "writes_of out = {x. KStatusUpdate x \<in> set (fst (snd out))}"

lemma emit_no_write [simp]: "KStatusUpdate x \<notin> set (emitLifecycle n app old current)"
  by (simp add: emitLifecycle_def Let_def)

lemma writes_patchThen:
  "writes_of (patchThen n before app rq calls a) =
     {x. KStatusUpdate x \<in> set calls} \<union> (if statusEqual before (app_Status app) then {} else {app})"
  by (auto simp: writes_of_def patchThen_def patchStatusIfChanged_def split: option.split)

lemma writes_finish:
  "writes_of (finish n before app rq calls a) =
     {x. KStatusUpdate x \<in> set calls} \<union> (if statusEqual before (app_Status app) then {} else {app})"
  by (simp add: finish_def writes_patchThen)

lemma writes_triple [simp]: "writes_of (r, cs, a) = {x. KStatusUpdate x \<in> set cs}"
  by (simp add: writes_of_def)

lemma step_state: "fst (snd (step now later during uid token a)) \<noteq> injectNone"
  by (auto simp: step_def Let_def split: prod.splits)

text \<open>The hops of the phase machine, by whether the spec is valid, whether the app is to be
  suspended, and whether it takes the workerd fast lane.\<close>

inductive hop :: "bool \<Rightarrow> bool \<Rightarrow> bool \<Rightarrow> Phase \<Rightarrow> Phase \<Rightarrow> bool" where
  stay: "hop v s f p p"
| invalid: "hop False s f p PhaseFailed"
| suspend: "p \<noteq> PhaseSuspended \<Longrightarrow> hop True True f p PhaseSuspended"
| restore: "hop True False f PhaseSuspended PhaseClaiming"
| fast_retry: "p \<noteq> PhaseReady \<Longrightarrow> hop True False True p PhaseClaiming"
| fast_ready: "p \<noteq> PhaseReady \<Longrightarrow> hop True False True p PhaseReady"
| claim: "p = PhaseEmpty \<or> p = PhasePending \<Longrightarrow> hop True False False p PhaseClaiming"
| refuse: "hop True False False PhaseClaiming PhaseFailed"
| bind: "hop True False False PhaseClaiming PhaseStarting"
| lost: "hop True False False PhaseStarting PhaseClaiming"
| up: "hop True False False PhaseStarting PhaseReady"
| replaced: "hop True False False PhaseReady PhaseStarting"
| unknown: "hop True False False (PhaseOther q) PhasePending"

inductive_cases hop_failed: "hop v s f PhaseFailed p"
inductive_cases hop_to_ready: "hop v s f p PhaseReady"

definition hop_of :: "VibedApp \<Rightarrow> Phase \<Rightarrow> Phase \<Rightarrow> bool" where
  "hop_of app = hop (validateSpec (app_Spec app) = None) (spec_Suspended (app_Spec app)) (isWorkerdFastLane app)"

lemmas branch_defs = reconcileSuspension_def reconcileFastLane_def reconcilePhase_def reconcileClaiming_def
  reconcileStarting_def reconcileReady_def goReady_def

lemma hop_suspension:
  assumes "reconcileSuspension n before app a = Some out" "x \<in> writes_of out"
  shows "hop True (spec_Suspended (app_Spec app)) f (st_Phase (app_Status app)) (st_Phase (app_Status x))"
  using assms
  by (auto simp: reconcileSuspension_def Let_def writes_patchThen writes_finish intro: hop.intros
      split: if_splits option.splits)

lemma hop_fast:
  "x \<in> writes_of (reconcileFastLane n before app a) \<Longrightarrow>
     hop True False True (st_Phase (app_Status app)) (st_Phase (app_Status x))"
  by (auto simp: reconcileFastLane_def Let_def writes_patchThen writes_finish intro: hop.intros
      split: if_splits sum.splits)

lemma hop_claiming:
  "x \<in> writes_of (reconcileClaiming n before rq app a) \<Longrightarrow> st_Phase (app_Status app) = PhaseClaiming \<Longrightarrow>
     hop True False False PhaseClaiming (st_Phase (app_Status x))"
  by (auto simp: reconcileClaiming_def Let_def writes_patchThen writes_finish intro: hop.intros
      split: if_splits prod.splits bool.splits claim_answer.splits)

lemma hop_starting:
  "x \<in> writes_of (reconcileStarting n before rq app a) \<Longrightarrow> st_Phase (app_Status app) = PhaseStarting \<Longrightarrow>
     hop True False False PhaseStarting (st_Phase (app_Status x))"
  by (auto simp: reconcileStarting_def goReady_def Let_def writes_patchThen writes_finish intro: hop.intros
      split: if_splits prod.splits sum.splits bool.splits option.splits)

lemma hop_ready:
  "x \<in> writes_of (reconcileReady n before app a) \<Longrightarrow>
     hop True False False PhaseReady (st_Phase (app_Status x))"
  by (auto simp: reconcileReady_def Let_def writes_finish intro: hop.intros
      split: if_splits claim_answer.splits)

lemma hop_phase:
  "x \<in> writes_of (reconcilePhase n before rq app a) \<Longrightarrow>
     hop True False False (st_Phase (app_Status app)) (st_Phase (app_Status x))"
  using hop_claiming hop_starting hop_ready
  by (auto simp: reconcilePhase_def writes_finish intro: hop.intros split: Phase.splits if_splits)

text \<open>The shape of a pass on an app that is not being deleted.\<close>

lemma Reconcile_cases:
  assumes "n_Get n = Ok app" "app_DeletionTimestamp app = None"
  obtains (invalid) e where "validateSpec (app_Spec app) = Some e"
      "Reconcile n a = patchThen (applyDelay n) (app_Status app)
         (setPhase PhaseFailed (notReady (applyDelay n) (reasonFromErr e) ''spec is invalid''
           (setCondition (n_now n) ConditionSourceValid ConditionFalse (reasonFromErr e) e app))) None [] a"
  | (suspension) out where "validateSpec (app_Spec app) = None"
      "reconcileSuspension (applyDelay n) (app_Status app)
         (setCondition (n_now n) ConditionSourceValid ConditionTrue ''Valid'' '''' app) a = Some out"
      "Reconcile n a = out"
  | (fast) "validateSpec (app_Spec app) = None" "\<not> spec_Suspended (app_Spec app)"
      "st_Phase (app_Status app) \<noteq> PhaseSuspended" "isWorkerdFastLane app"
      "Reconcile n a = reconcileFastLane (applyDelay n) (app_Status app)
         (setCondition (n_now n) ConditionSourceValid ConditionTrue ''Valid'' '''' app) a"
  | (general) rq where "validateSpec (app_Spec app) = None" "\<not> spec_Suspended (app_Spec app)"
      "st_Phase (app_Status app) \<noteq> PhaseSuspended" "\<not> isWorkerdFastLane app"
      "Reconcile n a = reconcilePhase (applyDelay n) (app_Status app) rq
         (setCondition (n_now n) ConditionSourceValid ConditionTrue ''Valid'' '''' app) a"
proof -
  note n = assms(1)
  let ?app1 = "setCondition (n_now n) ConditionSourceValid ConditionTrue ''Valid'' '''' app"
  show thesis
  proof (cases "validateSpec (app_Spec app)")
    case (Some e)
    then show thesis using n assms(2) by (intro invalid [of e]) (simp_all add: Reconcile_def Let_def)
  next
    case None
    show thesis
    proof (cases "reconcileSuspension (applyDelay n) (app_Status app) ?app1 a")
      case (Some out)
      then show thesis using n assms(2) None by (intro suspension [of out]) (simp_all add: Reconcile_def Let_def)
    next
      case no: None
      then have s: "\<not> spec_Suspended (app_Spec app)" "st_Phase (app_Status app) \<noteq> PhaseSuspended"
        by (auto simp: reconcileSuspension_def Let_def split: if_splits option.splits)
      with n assms(2) None no show thesis
        by (cases "isWorkerdFastLane app") (auto simp: Reconcile_def Let_def intro: fast general)
    qed
  qed
qed

text \<open>C5: Whatever its collaborators answer, a pass of the controller moves an app only along the hops
  of its phase machine, at most one hop at a time: Pending, Claiming, Starting, Ready, back to
  Starting when the pod is replaced, to Suspended and back on request, and to Failed for an invalid
  spec or a refused template.\<close>

theorem reconcile_follows_phase_machine:
  assumes "n_Get n = Ok app" and "KStatusUpdate x \<in> set (fst (snd (Reconcile n a)))"
  shows "hop_of app (st_Phase (app_Status app)) (st_Phase (app_Status x))"
proof (cases "app_DeletionTimestamp app")
  case (Some d)
  with assms show ?thesis by (simp add: Reconcile_deleted)
next
  case None
  have x: "x \<in> writes_of (Reconcile n a)" using assms(2) by (simp add: writes_of_def)
  from assms(1) None show ?thesis
  proof (cases rule: Reconcile_cases [where a = a])
    case (invalid e)
    with x show ?thesis by (auto simp: writes_patchThen hop_of_def intro: hop.intros split: if_splits)
  next
    case (suspension out)
    with x hop_suspension [OF suspension(2), of x] show ?thesis by (simp add: hop_of_def)
  next
    case fast
    with x hop_fast show ?thesis by (fastforce simp: hop_of_def)
  next
    case (general rq)
    with x hop_phase show ?thesis by (fastforce simp: hop_of_def)
  qed
qed

subsection \<open>The Ready condition\<close>

definition cond_status :: "string \<Rightarrow> Condition list \<Rightarrow> ConditionStatus option" where
  "cond_status t cs = map_option cond_Status (find (\<lambda>c. cond_Type c = t) cs)"

lemma cond_status_merge:
  "cond_status t (merge_condition now t' s r m cs) = (if t = t' then Some s else cond_status t cs)"
  by (induction cs) (auto simp: cond_status_def set_nth_cond_def)

definition ready_true :: "VibedApp \<Rightarrow> bool" where
  "ready_true app \<longleftrightarrow> cond_status ConditionReady (st_Conditions (app_Status app)) = Some ConditionTrue"

lemma ready_true_setCondition [simp]:
  "ready_true (setCondition now t s r m app) = (if t = ConditionReady then s = ConditionTrue else ready_true app)"
  by (simp add: ready_true_def setCondition_def cond_status_merge)

lemma ready_true_notReady [simp]: "\<not> ready_true (notReady n r m app)"
  by (simp add: notReady_def)

lemma ready_true_setPhase [simp]: "ready_true (setPhase p app) = ready_true app"
  by (simp add: ready_true_def)

lemma ready_true_set_status:
  "st_Conditions (f (app_Status app)) = st_Conditions (app_Status app) \<Longrightarrow> ready_true (set_status f app) = ready_true app"
  by (simp add: ready_true_def)

lemma conditions_differ [simp]: "ConditionReady \<noteq> ConditionSourceValid" "ConditionSourceValid \<noteq> ConditionReady"
  by (simp_all add: ConditionReady_def ConditionSourceValid_def)

definition ready_honest :: "VibedApp \<Rightarrow> bool" where
  "ready_honest app \<longleftrightarrow> (ready_true app \<longrightarrow> st_Phase (app_Status app) = PhaseReady)"

lemma honest_suspension:
  "reconcileSuspension n before app a = Some out \<Longrightarrow> x \<in> writes_of out \<Longrightarrow> \<not> ready_true x"
  by (auto simp: reconcileSuspension_def Let_def writes_patchThen writes_finish split: if_splits option.splits)

lemma honest_fast: "x \<in> writes_of (reconcileFastLane n before app a) \<Longrightarrow> ready_honest x"
  by (auto simp: reconcileFastLane_def Let_def writes_patchThen writes_finish ready_honest_def split: if_splits sum.splits)

lemma honest_phase:
  assumes "x \<in> writes_of (reconcilePhase n before rq app a)" "ready_honest app"
  shows "ready_honest x"
  using assms
  by (auto simp: reconcilePhase_def reconcileClaiming_def reconcileStarting_def reconcileReady_def goReady_def Let_def
      writes_patchThen writes_finish ready_honest_def
      split: Phase.splits if_splits prod.splits sum.splits bool.splits option.splits claim_answer.splits)

text \<open>The controller never reports an app as ready in another phase than Ready: if the app it
  reads has its Ready condition true only in phase Ready, so has the app it writes, on every branch
  and for every answer of its collaborators.\<close>

theorem ready_condition_only_in_ready_phase:
  assumes "n_Get n = Ok app" and "ready_honest app" and "KStatusUpdate x \<in> set (fst (snd (Reconcile n a)))"
  shows "ready_honest x"
proof (cases "app_DeletionTimestamp app")
  case (Some d)
  with assms show ?thesis by (simp add: Reconcile_deleted)
next
  case None
  have x: "x \<in> writes_of (Reconcile n a)" using assms(3) by (simp add: writes_of_def)
  have h: "ready_honest (setCondition (n_now n) ConditionSourceValid s r m app)" for s r m
    using assms(2) by (simp add: ready_honest_def)
  from assms(1) None show ?thesis
  proof (cases rule: Reconcile_cases [where a = a])
    case (invalid e)
    with x show ?thesis by (auto simp: writes_patchThen ready_honest_def split: if_splits)
  next
    case (suspension out)
    with x honest_suspension [OF suspension(2), of x] show ?thesis by (simp add: ready_honest_def)
  next
    case fast
    with x honest_fast show ?thesis by simp
  next
    case (general rq)
    with x h honest_phase show ?thesis by fastforce
  qed
qed

subsection \<open>Going Ready\<close>

lemma goReady_calls:
  "KStatusUpdate x \<in> set (fst (snd (goReady n before rq app calls a))) \<Longrightarrow> set calls \<subseteq> set (fst (snd (goReady n before rq app calls a)))"
  by (auto simp: goReady_def finish_def patchThen_def Let_def split: sum.splits prod.splits option.splits)

lemma starting_to_ready:
  assumes "x \<in> writes_of (reconcileStarting n before rq app a)" "st_Phase (app_Status app) = PhaseStarting"
    "st_Phase (app_Status x) = PhaseReady"
  defines "target \<equiv> st_PodIP (app_Status app) @ '':9000''"
  shows "st_PodIP (app_Status app) \<noteq> '''' \<and> n_Probe n target = Ok True \<and> ready_true x \<and>
    (\<exists>a' r. step (n_now n) (n_later n) (n_during n) (app_UID app)
       (injectToken target (app_Generation app) (source_TarballRef (spec_Source (app_Spec app)))) a = (a', injectDone, r) \<and>
     ir_running r \<and> ir_err r = None) \<and>
    (\<exists>rt. n_EnsureService n app = Ok rt \<and> st_RouteTarget (app_Status x) = rt) \<and>
    (\<exists>app1. n_Publish n app1 (st_SandboxRef (app_Status app)) = Ok (st_URL (app_Status x)))"
proof -
  let ?tok = "injectToken target (app_Generation app) (source_TarballRef (spec_Source (app_Spec app)))"
  obtain a' st r where s: "step (n_now n) (n_later n) (n_during n) (app_UID app) ?tok a = (a', st, r)"
    by (metis prod_cases3)
  have st: "st \<noteq> injectNone" using step_state [of "n_now n" "n_later n" "n_during n" "app_UID app" ?tok a] s by simp
  show ?thesis using assms(1-3) s st unfolding target_def
    by (cases st) (auto simp: reconcileStarting_def goReady_def Let_def writes_patchThen writes_finish
        split: if_splits prod.splits sum.splits bool.splits option.splits)
qed

lemma phase_to_ready:
  assumes "x \<in> writes_of (reconcilePhase n before rq app a)" "st_Phase (app_Status app) \<noteq> PhaseReady"
    "st_Phase (app_Status x) = PhaseReady"
  shows "x \<in> writes_of (reconcileStarting n before rq app a) \<and> st_Phase (app_Status app) = PhaseStarting"
  using assms hop_claiming [of x n before rq app a]
  by (auto simp: reconcilePhase_def writes_finish split: Phase.splits if_splits elim: hop_to_ready)

lemma suspension_not_ready:
  "reconcileSuspension n before app a = Some out \<Longrightarrow> x \<in> writes_of out \<Longrightarrow> st_Phase (app_Status x) = PhaseReady \<Longrightarrow>
     st_Phase (app_Status app) = PhaseReady"
  by (auto simp: reconcileSuspension_def Let_def writes_patchThen writes_finish split: if_splits option.splits)


subsection \<open>Metering\<close>

fun meter_kinds :: "ccall list \<Rightarrow> string list" where
  "meter_kinds [] = []"
| "meter_kinds (KMeter ev # cs) = me_Kind ev # meter_kinds cs"
| "meter_kinds (_ # cs) = meter_kinds cs"

text \<open>The status an app has after a pass: what was written, if the write succeeded.\<close>

fun after_calls :: "answers \<Rightarrow> VibedAppStatus \<Rightarrow> ccall list \<Rightarrow> VibedAppStatus" where
  "after_calls n st [] = st"
| "after_calls n st (KStatusUpdate x # cs) =
     after_calls n (if n_StatusUpdate n x = None then app_Status x else st) cs"
| "after_calls n st (_ # cs) = after_calls n st cs"

definition status_after :: "answers \<Rightarrow> VibedAppStatus \<Rightarrow> outcome \<Rightarrow> VibedAppStatus" where
  "status_after n st out = after_calls n st (fst (snd out))"

definition edge :: "Phase \<Rightarrow> Phase \<Rightarrow> string list" where
  "edge old new = (if old \<noteq> PhaseReady \<and> new = PhaseReady then [''app.ready'']
     else if old = PhaseReady \<and> new \<noteq> PhaseReady then [''app.stopped''] else [])"

definition metered :: "answers \<Rightarrow> VibedAppStatus \<Rightarrow> outcome \<Rightarrow> bool" where
  "metered n st out \<longleftrightarrow> meter_kinds (fst (snd out)) = edge (st_Phase st) (st_Phase (status_after n st out))"

fun plain :: "ccall \<Rightarrow> bool" where
  "plain (KStatusUpdate _) = False"
| "plain (KMeter _) = False"
| "plain _ = True"

lemma plain_calls:
  "list_all plain cs \<Longrightarrow> after_calls n st (cs @ ds) = after_calls n st ds"
  "list_all plain cs \<Longrightarrow> meter_kinds (cs @ ds) = meter_kinds ds"
proof (induction cs arbitrary: st)
  case (Cons c cs)
  { case 1 then show ?case using Cons by (cases c) auto }
  { case 2 then show ?case using Cons by (cases c) auto }
qed simp_all

lemmas plain_calls_end = plain_calls [where ds = "[]", simplified]

lemma metered_plain: "list_all plain cs \<Longrightarrow> metered n st (r, cs, a)"
  using plain_calls_end by (simp add: metered_def status_after_def edge_def)

lemma metered_patchThen:
  assumes "n_Meter n" "list_all plain calls"
  shows "metered n before (patchThen n before app rq calls a)"
proof -
  have ph: "statusEqual before st \<Longrightarrow> st_Phase before = st_Phase st" for st by (simp add: statusEqual_def)
  show ?thesis
    by (auto simp: metered_def status_after_def patchThen_def patchStatusIfChanged_def emitLifecycle_def edge_def
        Let_def plain_calls [OF assms(2)] plain_calls_end [OF assms(2)] assms(1) split: option.split)
qed

lemma metered_finish: "n_Meter n \<Longrightarrow> list_all plain calls \<Longrightarrow> metered n before (finish n before app rq calls a)"
  by (simp add: finish_def metered_patchThen)

lemma metered_suspension:
  assumes "n_Meter n" "reconcileSuspension n before app a = Some out"
  shows "metered n before out"
  using assms
  by (auto simp: reconcileSuspension_def Let_def intro!: metered_patchThen metered_finish metered_plain
      split: if_splits option.splits)

lemma metered_fast: "n_Meter n \<Longrightarrow> metered n before (reconcileFastLane n before app a)"
  by (auto simp: reconcileFastLane_def Let_def intro!: metered_patchThen metered_finish metered_plain split: sum.split)

lemma metered_goReady: "n_Meter n \<Longrightarrow> list_all plain calls \<Longrightarrow> metered n before (goReady n before rq app calls a)"
  by (auto simp: goReady_def Let_def intro!: metered_patchThen metered_finish split: sum.split)

lemma metered_claiming: "n_Meter n \<Longrightarrow> metered n before (reconcileClaiming n before rq app a)"
  by (simp add: reconcileClaiming_def Let_def metered_patchThen metered_finish
      split: prod.split bool.split claim_answer.split)

lemma metered_starting: "n_Meter n \<Longrightarrow> metered n before (reconcileStarting n before rq app a)"
  by (simp add: reconcileStarting_def Let_def metered_patchThen metered_finish metered_plain metered_goReady
      split: prod.split bool.split sum.split option.split)

lemma metered_ready: "n_Meter n \<Longrightarrow> metered n before (reconcileReady n before app a)"
  by (simp add: reconcileReady_def Let_def metered_finish metered_plain split: claim_answer.split)

lemma metered_phase: "n_Meter n \<Longrightarrow> metered n before (reconcilePhase n before rq app a)"
  by (simp add: reconcilePhase_def metered_claiming metered_starting metered_ready metered_finish metered_plain
      split: Phase.split)

lemma after_applyDelay [simp]: "after_calls (applyDelay n) st cs = after_calls n st cs"
  by (induction n st cs rule: after_calls.induct) simp_all

lemma metered_applyDelay: "metered (applyDelay n) = metered n"
  by (simp add: metered_def status_after_def fun_eq_iff)

lemma metered_Reconcile:
  assumes "n_Get n = Ok app" "n_Meter n"
  shows "metered n (app_Status app) (Reconcile n a)"
proof (cases "app_DeletionTimestamp app")
  case (Some d)
  with assms show ?thesis by (simp add: Reconcile_deleted metered_plain)
next
  case None
  have m: "n_Meter (applyDelay n)" using assms(2) by simp
  from assms(1) None show ?thesis
  proof (cases rule: Reconcile_cases [where a = a])
    case (invalid e)
    then show ?thesis using metered_patchThen [OF m] by (simp add: metered_applyDelay)
  next
    case (suspension out)
    then show ?thesis using metered_suspension [OF m suspension(2)] by (simp add: metered_applyDelay)
  next
    case fast
    then show ?thesis using metered_fast [OF m] by (simp add: metered_applyDelay)
  next
    case (general rq)
    then show ?thesis using metered_phase [OF m] by (simp add: metered_applyDelay)
  qed
qed

text \<open>
  A life of an app: passes one after another, each reading the status the last one left; everything
  else about the app and every answer may change from pass to pass.
\<close>

fun life :: "(answers \<times> VibedApp) list \<Rightarrow> VibedAppStatus \<Rightarrow> asyncInjector \<Rightarrow> string list" where
  "life [] st a = []"
| "life ((n, app) # ps) st a =
     (let n' = n\<lparr>n_Get := Ok (app\<lparr>app_Status := st\<rparr>)\<rparr>; out = Reconcile n' a
      in meter_kinds (fst (snd out)) @ life ps (status_after n' st out) (snd (snd out)))"

fun alternates :: "bool \<Rightarrow> string list \<Rightarrow> bool" where
  "alternates running [] = True"
| "alternates running (k # ks) \<longleftrightarrow> k = (if running then ''app.stopped'' else ''app.ready'') \<and> alternates (\<not> running) ks"

lemma edge_alternates:
  "alternates (new = PhaseReady) ks \<Longrightarrow> alternates (old = PhaseReady) (edge old new @ ks)"
  by (auto simp: edge_def)

text \<open>C20: Over any sequence of passes, with failed status writes, suspensions, pod replacements and spec
  changes in between, the usage events of an app alternate between ready and stopped, so that they
  pair up into disjoint running intervals: it is never started twice or stopped while not running.\<close>

theorem meter_events_alternate:
  assumes "list_all (\<lambda>(n, app). n_Meter n) ps"
  shows "alternates (st_Phase st = PhaseReady) (life ps st a)"
  using assms
proof (induction ps arbitrary: st a)
  case (Cons q ps)
  obtain n app where q: "q = (n, app)" by (cases q)
  let ?n = "n\<lparr>n_Get := Ok (app\<lparr>app_Status := st\<rparr>)\<rparr>"
  have "metered ?n st (Reconcile ?n a)"
    using metered_Reconcile [of ?n "app\<lparr>app_Status := st\<rparr>" a] Cons.prems q by simp
  then show ?case
    using Cons.IH [of "status_after ?n st (Reconcile ?n a)" "snd (snd (Reconcile ?n a))"] Cons.prems
    by (simp add: q Let_def metered_def edge_alternates)
qed simp

subsection \<open>Requeue delays\<close>

lemma backoff_closed: "0 < d \<Longrightarrow> min maxRequeueDelay (backoff k d) = min maxRequeueDelay (d * 2 ^ k)"
proof (induction k arbitrary: d)
  case (Suc k)
  show ?case
  proof (cases "d < maxRequeueDelay")
    case True
    with Suc show ?thesis by (simp add: mult.assoc)
  next
    case False
    have "(1::int) \<le> 2 ^ Suc k" by (rule one_le_power) simp
    then have "d * 1 \<le> d * 2 ^ Suc k" using Suc.prems by (intro mult_left_mono) simp_all
    with False show ?thesis by (simp add: min_def del: power_Suc)
  qed
qed simp

lemma backoff_lower: "0 < d \<Longrightarrow> d \<le> backoff k d"
proof (induction k arbitrary: d)
  case (Suc k)
  then have "d * 2 \<le> backoff k (d * 2)" by simp
  with Suc.prems show ?case by simp
qed simp

text \<open>The requeue delay is the base delay doubled once for every base delay the app has been
  waiting, cut off at a minute; it is positive, never above a minute, and the loop that computes it
  never doubles a value that has reached the cap.\<close>

theorem requeue_delay_closed_form:
  assumes "0 < requeueDelay"
  shows "transitionalRequeueAfter requeueDelay app now =
       min maxRequeueDelay (requeueDelay * 2 ^ nat (notReadyFor app now div requeueDelay)) \<and>
     0 < transitionalRequeueAfter requeueDelay app now \<and>
     transitionalRequeueAfter requeueDelay app now \<le> maxRequeueDelay"
proof -
  let ?k = "nat (notReadyFor app now div requeueDelay)"
  have t: "transitionalRequeueAfter requeueDelay app now = min maxRequeueDelay (backoff ?k requeueDelay)"
    using assms by (auto simp: transitionalRequeueAfter_def Let_def min_def)
  have "0 < maxRequeueDelay" by (simp add: maxRequeueDelay_def second_def)
  with backoff_lower [OF assms, of ?k] assms show ?thesis
    unfolding t backoff_closed [OF assms] by (simp add: min_def)
qed

subsection \<open>Templates, suspension, and what a pass leaves alone\<close>

text \<open>An app whose template image is known to be bad is never given a pod: when the gate refuses the
  template, a pass in phase Claiming does not touch the warm pool and fails the app with the reason.\<close>

theorem refused_template_is_never_claimed:
  assumes "n_Get n = Ok app" and "app_DeletionTimestamp app = None" and "validateSpec (app_Spec app) = None"
    and "\<not> spec_Suspended (app_Spec app)" and "\<not> isWorkerdFastLane app"
    and "st_Phase (app_Status app) = PhaseClaiming" and "n_Gate n (rt_Template (spec_Runtime (app_Spec app))) = (False, reason)"
    and "Reconcile n a = (r, calls, a')"
  shows "KEnsureClaim \<notin> set calls \<and> (\<exists>x. KStatusUpdate x \<in> set calls \<and> st_Phase (app_Status x) = PhaseFailed)"
  using assms(1,2)
proof (cases rule: Reconcile_cases [where a = a])
  case (suspension out)
  with assms(4,6) show ?thesis by (simp add: reconcileSuspension_def Let_def)
next
  case (general rq)
  have out: "(r, calls, a') = reconcileClaiming (applyDelay n) (app_Status app) rq
      (setCondition (n_now n) ConditionSourceValid ConditionTrue ''Valid'' '''' app) a"
    using general(5) assms(6,8) by (simp add: reconcilePhase_def)
  have "KEnsureClaim \<notin> set (emitLifecycle m b old cur)" for m b old cur
    by (simp add: emitLifecycle_def Let_def)
  then show ?thesis
    using out assms(6,7)
    by (auto simp: reconcileClaiming_def Let_def finish_def patchThen_def patchStatusIfChanged_def statusEqual_def
        split: option.splits)
qed (use assms in simp_all)

text \<open>A suspended app holds no compute: when a pass parks an app, its claim (or its worker) was
  released without error in that pass, its pod address, sandbox and route target are cleared, and any
  inject still under way for it is dropped.\<close>

theorem suspended_app_holds_no_compute:
  assumes "n_Get n = Ok app" and "st_Phase (app_Status app) \<noteq> PhaseSuspended"
    and "Reconcile n a = (r, calls, a')" and "KStatusUpdate x \<in> set calls" and "st_Phase (app_Status x) = PhaseSuspended"
  shows "spec_Suspended (app_Spec app) \<and> st_PodIP (app_Status x) = '''' \<and> st_SandboxRef (app_Status x) = '''' \<and>
     st_RouteTarget (app_Status x) = '''' \<and> \<not> ready_true x \<and> ai_entries a' (app_UID app) = None \<and>
     (if isWorkerdFastLane app then KFastRemove \<in> set calls \<and> (\<exists>b. n_FastRemove n b = None)
      else KReleaseClaim \<in> set calls \<and> (\<exists>b. n_ReleaseClaim n b = None))"
proof (cases "app_DeletionTimestamp app")
  case (Some d)
  with assms show ?thesis by (auto simp: Reconcile_deleted)
next
  case None
  have x: "x \<in> writes_of (Reconcile n a)" using assms(3,4) by (simp add: writes_of_def)
  have f: "ai_entries (forget u b) u = None" for u b by (simp add: forget_def split: option.split)
  from assms(1) None show ?thesis
  proof (cases rule: Reconcile_cases [where a = a])
    case (invalid e)
    with x assms(5) show ?thesis by (auto simp: writes_patchThen split: if_splits)
  next
    case (suspension out)
    then show ?thesis using assms(2-5)
      by (auto simp: reconcileSuspension_def Let_def finish_def patchThen_def patchStatusIfChanged_def f
          split: if_splits option.splits)
  next
    case fast
    with x hop_fast [of x] assms(2,5) show ?thesis by (fastforce elim: hop.cases)
  next
    case (general rq)
    with x hop_phase [of x] assms(2,5) show ?thesis by (fastforce elim: hop.cases)
  qed
qed

text \<open>A redeploy of an app that is Ready and keeps its pod is not picked up: whatever source and
  generation the app now has, the pass only looks at the claim (and at nothing in the fast lane), so
  the new source is neither injected nor deployed.\<close>

theorem ready_app_ignores_new_source:
  assumes "n_Get n = Ok app" and "app_DeletionTimestamp app = None" and "validateSpec (app_Spec app) = None"
    and "\<not> spec_Suspended (app_Spec app)" and "st_Phase (app_Status app) = PhaseReady"
    and "\<And>b. n_EnsureClaim n b = ClaimBound (st_SandboxRef (app_Status app)) (st_PodIP (app_Status app))"
  shows "Reconcile n a = (Ok None, if isWorkerdFastLane app then [] else [KEnsureClaim], a)"
  using assms(1,2)
proof (cases rule: Reconcile_cases [where a = a])
  case (suspension out)
  with assms(4,5) show ?thesis by (simp add: reconcileSuspension_def Let_def)
next
  case fast
  with assms(5) show ?thesis by (simp add: reconcileFastLane_def)
next
  case (general rq)
  with assms(5,6) show ?thesis by (simp add: reconcilePhase_def reconcileReady_def)
qed (use assms in simp_all)

text \<open>A failed app of the general lane stays failed: once its spec is valid again, a pass does
  nothing, whatever the collaborators would answer.\<close>

theorem failed_app_stays_failed:
  assumes "n_Get n = Ok app" and "app_DeletionTimestamp app = None" and "validateSpec (app_Spec app) = None"
    and "\<not> spec_Suspended (app_Spec app)" and "\<not> isWorkerdFastLane app" and "st_Phase (app_Status app) = PhaseFailed"
  shows "Reconcile n a = (Ok None, [], a)"
  using assms(1,2)
proof (cases rule: Reconcile_cases [where a = a])
  case (suspension out)
  with assms(4,6) show ?thesis by (simp add: reconcileSuspension_def Let_def)
next
  case (general rq)
  with assms(6) show ?thesis by (simp add: reconcilePhase_def)
qed (use assms in simp_all)

subsection \<open>Getting to Ready\<close>

definition pass :: "answers \<Rightarrow> VibedApp \<Rightarrow> VibedAppStatus \<times> asyncInjector \<Rightarrow> VibedAppStatus \<times> asyncInjector" where
  "pass n app s = (let n' = n\<lparr>n_Get := Ok (app\<lparr>app_Status := fst s\<rparr>)\<rparr>; out = Reconcile n' (snd s)
     in (status_after n' (fst s) out, snd (snd out)))"

text \<open>Collaborators that do what they are for: the gate allows the template, the warm pool binds a pod,
  the agent answers, the inject finishes within the grace window with the process running, service and
  route can be published, and the status is written.\<close>

definition cooperative :: "answers \<Rightarrow> bool" where
  "cooperative n \<longleftrightarrow> (\<forall>t. fst (n_Gate n t)) \<and>
     (\<exists>ref ip. ip \<noteq> '''' \<and> (\<forall>b. n_EnsureClaim n b = ClaimBound ref ip)) \<and> (\<forall>t. n_Probe n t = Ok True) \<and>
     (\<forall>a. n_during n a = record_at (n_now n) (ai_next a - 1) True None a) \<and> n_later n = n_now n \<and>
     (\<exists>rt. \<forall>b. n_EnsureService n b = Ok rt) \<and> (\<exists>url. \<forall>b ref. n_Publish n b ref = Ok url) \<and>
     (\<forall>b. n_StatusUpdate n b = None)"

lemma step_cooperative:
  assumes "ai_entries a uid = None" and "\<And>b. during b = record_at now (ai_next b - 1) True None b"
  shows "\<exists>a'. step now now during uid token a = (a', injectDone, \<lparr>ir_running = True, ir_err = None, ir_completedAt = now\<rparr>)"
  using assms(1)
  by (simp add: step_def peek_def launch_def evictExpiredLocked_def Let_def assms(2) record_at_def done_at_def expired_def
      injectResultTTL_def minute_def second_def)

lemma after_finish:
  "(\<forall>b. n_StatusUpdate n b = None) \<Longrightarrow> list_all plain calls \<Longrightarrow> \<not> statusEqual before (app_Status app) \<Longrightarrow>
     status_after n before (finish n before app rq calls a) = app_Status app \<and> snd (snd (finish n before app rq calls a)) = a"
  by (simp add: status_after_def finish_def patchThen_def patchStatusIfChanged_def plain_calls emitLifecycle_def Let_def)

definition runnable :: "VibedApp \<Rightarrow> bool" where
  "runnable app \<longleftrightarrow> app_DeletionTimestamp app = None \<and> validateSpec (app_Spec app) = None \<and>
     \<not> spec_Suspended (app_Spec app) \<and> \<not> isWorkerdFastLane app"

lemma isWorkerd_status [simp]: "isWorkerdFastLane (app\<lparr>app_Status := st\<rparr>) = isWorkerdFastLane app"
  by (simp add: isWorkerdFastLane_def)

lemma pass_general:
  assumes "runnable app" "st_Phase st \<noteq> PhaseSuspended"
  shows "\<exists>rq. pass n app (st, a) =
    (let n' = applyDelay (n\<lparr>n_Get := Ok (app\<lparr>app_Status := st\<rparr>)\<rparr>);
         out = reconcilePhase n' st rq
           (setCondition (n_now n) ConditionSourceValid ConditionTrue ''Valid'' '''' (app\<lparr>app_Status := st\<rparr>)) a
     in (status_after n' st out, snd (snd out)))"
proof -
  let ?app = "app\<lparr>app_Status := st\<rparr>" and ?n = "n\<lparr>n_Get := Ok (app\<lparr>app_Status := st\<rparr>)\<rparr>"
  have g: "n_Get ?n = Ok ?app" "app_DeletionTimestamp ?app = None" using assms by (simp_all add: runnable_def)
  then show ?thesis
  proof (cases rule: Reconcile_cases [where a = a])
    case (suspension out)
    with assms show ?thesis by (simp add: reconcileSuspension_def Let_def runnable_def)
  next
    case (general rq)
    then show ?thesis by (auto simp: pass_def Let_def status_after_def)
  qed (use assms in \<open>auto simp: runnable_def\<close>)
qed

lemma pass_pending:
  assumes "cooperative n" "runnable app" "st_Phase st = PhaseEmpty \<or> st_Phase st = PhasePending"
  shows "\<exists>st'. pass n app (st, a) = (st', a) \<and> st_Phase st' = PhaseClaiming"
proof -
  have u: "\<forall>b. n_StatusUpdate n b = None" using assms(1) by (simp add: cooperative_def)
  from assms(3) have "st_Phase st \<noteq> PhaseSuspended" by auto
  from pass_general [OF assms(2) this, of n a] assms(3) show ?thesis
    by (auto simp: Let_def reconcilePhase_def after_finish u statusEqual_def)
qed

lemma pass_claiming:
  assumes "cooperative n" "runnable app" "st_Phase st = PhaseClaiming"
  shows "\<exists>st'. pass n app (st, a) = (st', a) \<and> st_Phase st' = PhaseStarting \<and> st_PodIP st' \<noteq> ''''"
proof -
  from assms(1) obtain ref ip where c: "ip \<noteq> ''''" "\<forall>b. n_EnsureClaim n b = ClaimBound ref ip" "\<forall>b. n_StatusUpdate n b = None"
    "\<forall>t. fst (n_Gate n t)"
    unfolding cooperative_def by blast
  obtain y where g: "n_Gate n (rt_Template (spec_Runtime (app_Spec app))) = (True, y)"
    using c(4) by (metis prod.collapse)
  from assms(3) have "st_Phase st \<noteq> PhaseSuspended" by auto
  from pass_general [OF assms(2) this, of n a] assms(3) c(1-3) g show ?thesis
    by (auto simp: Let_def reconcilePhase_def reconcileClaiming_def after_finish statusEqual_def)
qed

lemma pass_starting:
  assumes "cooperative n" "runnable app" "st_Phase st = PhaseStarting" "st_PodIP st \<noteq> ''''" "ai_entries a (app_UID app) = None"
  shows "\<exists>st' a'. pass n app (st, a) = (st', a') \<and> st_Phase st' = PhaseReady"
proof -
  from assms(1) obtain rt url where c: "\<forall>t. n_Probe n t = Ok True" "n_later n = n_now n"
    "\<forall>b. n_EnsureService n b = Ok rt" "\<forall>b ref. n_Publish n b ref = Ok url" "\<forall>b. n_StatusUpdate n b = None"
    "\<And>b. n_during n b = record_at (n_now n) (ai_next b - 1) True None b"
    unfolding cooperative_def by blast
  let ?tok = "injectToken (st_PodIP st @ '':9000'') (app_Generation app) (source_TarballRef (spec_Source (app_Spec app)))"
  obtain a' where s: "step (n_now n) (n_now n) (n_during n) (app_UID app) ?tok a =
      (a', injectDone, \<lparr>ir_running = True, ir_err = None, ir_completedAt = n_now n\<rparr>)"
    using step_cooperative [OF assms(5) c(6)] by blast
  from assms(3) have "st_Phase st \<noteq> PhaseSuspended" by auto
  from pass_general [OF assms(2) this, of n a] assms(3,4) c(1-5) s show ?thesis
    by (auto simp: Let_def reconcilePhase_def reconcileStarting_def goReady_def after_finish statusEqual_def)
qed

text \<open>C14: With cooperating collaborators a new app is Ready after three passes, whatever its source,
  owner and template are, as long as it takes the general lane.\<close>

theorem new_app_becomes_ready:
  assumes "cooperative n" and "runnable app" and "st_Phase st = PhaseEmpty" and "ai_entries a (app_UID app) = None"
  shows "st_Phase (fst (pass n app (pass n app (pass n app (st, a))))) = PhaseReady"
proof -
  obtain st1 where 1: "pass n app (st, a) = (st1, a)" "st_Phase st1 = PhaseClaiming"
    using pass_pending [OF assms(1,2)] assms(3) by blast
  obtain st2 where 2: "pass n app (st1, a) = (st2, a)" "st_Phase st2 = PhaseStarting" "st_PodIP st2 \<noteq> ''''"
    using pass_claiming [OF assms(1,2) 1(2)] by blast
  obtain st3 a3 where "pass n app (st2, a) = (st3, a3)" "st_Phase st3 = PhaseReady"
    using pass_starting [OF assms(1,2) 2(2,3) assms(4)] by blast
  with 1 2 show ?thesis by simp
qed

subsection \<open>Concrete passes\<close>

definition sample_answers :: "VibedApp \<Rightarrow> answers" where
  "sample_answers app =
     \<lparr>n_Get = Ok app, n_now = 7, n_Gate = (\<lambda>_. (True, '''')), n_EnsureClaim = (\<lambda>_. ClaimBound ''sb'' ''10.0.0.1''),
      n_ReleaseClaim = (\<lambda>_. None), n_Probe = (\<lambda>_. Ok True),
      n_during = (\<lambda>a. record_at 7 (ai_next a - 1) True None a), n_later = 7,
      n_EnsureService = (\<lambda>_. Ok ''svc''), n_Publish = (\<lambda>_ _. Ok ''http://a''), n_FastDeploy = (\<lambda>_. Ok ''w:1''),
      n_FastRemove = (\<lambda>_. None), n_StatusUpdate = (\<lambda>_. None), n_RequeueDelay = 0, n_Meter = True\<rparr>"

definition in_phase :: "Phase \<Rightarrow> VibedApp" where
  "in_phase p = set_status (\<lambda>st. st\<lparr>st_Phase := p, st_PodIP := ''10.0.0.1'', st_SandboxRef := ''sb''\<rparr>) (sample_app ''ns'' ''a'' ''al'')"

lemma in_phase_fields [simp]:
  "st_Phase (app_Status (in_phase p)) = p" "validateSpec (app_Spec (in_phase p)) = None"
  "\<not> spec_Suspended (app_Spec (in_phase p))" "\<not> isWorkerdFastLane (in_phase p)" "app_DeletionTimestamp (in_phase p) = None"
  "st_PodIP (app_Status (in_phase p)) = ''10.0.0.1''" "st_SandboxRef (app_Status (in_phase p)) = ''sb''" "ready_honest (in_phase p)"
  by (simp_all add: in_phase_def sample_app_def validateSpec_def isWorkerdFastLane_def WorkerdTemplate_def set_status_def
      empty_status_def ready_honest_def ready_true_def cond_status_def)

lemmas pass_run = Reconcile_def applyDelay_def sample_answers_def Let_def reconcileSuspension_def reconcilePhase_def
  reconcileClaiming_def reconcileStarting_def goReady_def finish_def patchThen_def patchStatusIfChanged_def statusEqual_def

lemma claiming_writes:
  "\<exists>x. KStatusUpdate x \<in> set (fst (snd (Reconcile (sample_answers (in_phase PhaseClaiming)) (irun [])))) \<and>
     st_Phase (app_Status x) = PhaseStarting"
  by (auto simp: pass_run)

lemma starting_step:
  "\<exists>a'. step 7 7 (\<lambda>a. record_at 7 (ai_next a - 1) True None a) uid token (irun []) =
     (a', injectDone, \<lparr>ir_running = True, ir_err = None, ir_completedAt = 7\<rparr>)"
  by (rule step_cooperative) (simp_all add: irun_def newAsyncInjector_def)

theorem reconcile_follows_phase_machine_witness:
  "hop_of (in_phase PhaseClaiming) PhaseClaiming PhaseStarting"
proof -
  obtain x where x: "KStatusUpdate x \<in> set (fst (snd (Reconcile (sample_answers (in_phase PhaseClaiming)) (irun []))))"
    "st_Phase (app_Status x) = PhaseStarting" using claiming_writes by blast
  from reconcile_follows_phase_machine [OF _ x(1)] x(2) show ?thesis by (simp add: sample_answers_def)
qed

theorem ready_condition_only_in_ready_phase_witness:
  "\<exists>x. st_Phase (app_Status x) = PhaseStarting \<and> ready_honest x"
proof -
  obtain x where x: "KStatusUpdate x \<in> set (fst (snd (Reconcile (sample_answers (in_phase PhaseClaiming)) (irun []))))"
    "st_Phase (app_Status x) = PhaseStarting" using claiming_writes by blast
  from ready_condition_only_in_ready_phase [OF _ _ x(1), of "in_phase PhaseClaiming"] x(2) show ?thesis
    by (auto simp: sample_answers_def)
qed

definition racing :: answers where
  "racing = (sample_answers (in_phase PhaseStarting))\<lparr>n_during := iact (IRecord 7 0 True None)\<rparr>"

lemma racing_step:
  "step 7 7 (iact (IRecord 7 0 True None)) uid token (irun []) =
     ((irun [])\<lparr>ai_heap := [0 \<mapsto> \<lparr>ie_token = token, ie_state = injectDone,
        ie_result = \<lparr>ir_running = True, ir_err = None, ir_completedAt = 7\<rparr>, ie_cancelled = True\<rparr>], ai_next := 1\<rparr>,
      injectDone, \<lparr>ir_running = True, ir_err = None, ir_completedAt = 7\<rparr>)"
  by (simp add: step_def peek_def launch_def evictExpiredLocked_def Let_def irun_def newAsyncInjector_def record_at_def
      done_at_def expired_def injectResultTTL_def minute_def second_def fun_eq_iff)


theorem meter_events_alternate_witness:
  "alternates False (life [(sample_answers (in_phase PhaseStarting), in_phase PhaseStarting)] (app_Status (in_phase PhaseStarting)) (irun []))"
  using meter_events_alternate [of "[(sample_answers (in_phase PhaseStarting), in_phase PhaseStarting)]"
      "app_Status (in_phase PhaseStarting)" "irun []"]
  by (simp add: sample_answers_def)

theorem requeue_delay_closed_form_witness:
  "transitionalRequeueAfter (2 * second) (sample_app ''ns'' ''a'' ''al'') 9 = 2 * second"
  using requeue_delay_closed_form [of "2 * second" "sample_app ''ns'' ''a'' ''al''" 9]
  by (simp add: notReadyFor_def sample_app_def empty_status_def second_def maxRequeueDelay_def)

definition refusing :: answers where
  "refusing = (sample_answers (in_phase PhaseClaiming))\<lparr>n_Gate := (\<lambda>_. (False, ''bad''))\<rparr>"

theorem refused_template_is_never_claimed_witness:
  "KEnsureClaim \<notin> set (fst (snd (Reconcile refusing (irun []))))"
proof -
  have r: "n_Get refusing = Ok (in_phase PhaseClaiming)" "n_Gate refusing t = (False, ''bad'')" for t
    by (simp_all add: refusing_def sample_answers_def)
  show ?thesis
    using refused_template_is_never_claimed [OF r(1) _ _ _ _ _ r(2), of "irun []" "fst (Reconcile refusing (irun []))"
        "fst (snd (Reconcile refusing (irun [])))" "snd (snd (Reconcile refusing (irun [])))"] by simp
qed

definition to_suspend :: VibedApp where
  "to_suspend = (in_phase PhaseReady)\<lparr>app_Spec := (app_Spec (in_phase PhaseReady))\<lparr>spec_Suspended := True\<rparr>\<rparr>"

theorem suspended_app_holds_no_compute_witness:
  "\<exists>x. KStatusUpdate x \<in> set (fst (snd (Reconcile (sample_answers to_suspend) (irun [])))) \<and> st_PodIP (app_Status x) = ''''"
proof -
  have s: "st_Phase (app_Status to_suspend) = PhaseReady" "spec_Suspended (app_Spec to_suspend)"
    "validateSpec (app_Spec to_suspend) = None" "\<not> isWorkerdFastLane to_suspend" "app_DeletionTimestamp to_suspend = None"
    by (simp_all add: to_suspend_def in_phase_def set_status_def sample_app_def validateSpec_def isWorkerdFastLane_def
        WorkerdTemplate_def)
  have "\<exists>x. KStatusUpdate x \<in> set (fst (snd (Reconcile (sample_answers to_suspend) (irun [])))) \<and>
      st_Phase (app_Status x) = PhaseSuspended"
    using s by (auto simp: pass_run)
  then obtain x where x: "KStatusUpdate x \<in> set (fst (snd (Reconcile (sample_answers to_suspend) (irun []))))"
    "st_Phase (app_Status x) = PhaseSuspended" by blast
  from suspended_app_holds_no_compute [of "sample_answers to_suspend" to_suspend "irun []"
      "fst (Reconcile (sample_answers to_suspend) (irun []))" "fst (snd (Reconcile (sample_answers to_suspend) (irun [])))"
      "snd (snd (Reconcile (sample_answers to_suspend) (irun [])))" x] x s show ?thesis
    by (auto simp: sample_answers_def)
qed

theorem ready_app_ignores_new_source_witness:
  "Reconcile (sample_answers ((in_phase PhaseReady)\<lparr>app_Generation := 2\<rparr>)) (irun []) = (Ok None, [KEnsureClaim], irun [])"
proof -
  let ?app = "(in_phase PhaseReady)\<lparr>app_Generation := 2\<rparr>"
  have f: "\<not> isWorkerdFastLane ?app" using in_phase_fields(4) [of PhaseReady] by (simp add: isWorkerdFastLane_def)
  have "n_Get (sample_answers ?app) = Ok ?app" by (simp add: sample_answers_def)
  from ready_app_ignores_new_source [OF this, of "irun []"] f show ?thesis by (simp add: sample_answers_def)
qed

theorem failed_app_stays_failed_witness:
  "Reconcile (sample_answers (in_phase PhaseFailed)) (irun []) = (Ok None, [], irun [])"
  by (rule failed_app_stays_failed [where app = "in_phase PhaseFailed"]) (simp_all add: sample_answers_def)

theorem new_app_becomes_ready_witness:
  "st_Phase (fst (pass (sample_answers (in_phase PhaseEmpty)) (in_phase PhaseEmpty)
     (pass (sample_answers (in_phase PhaseEmpty)) (in_phase PhaseEmpty)
       (pass (sample_answers (in_phase PhaseEmpty)) (in_phase PhaseEmpty) (empty_status, irun []))))) = PhaseReady"
  by (rule new_app_becomes_ready)
    (auto simp: cooperative_def sample_answers_def runnable_def empty_status_def irun_def newAsyncInjector_def)

end
