(* ===== verification/Sandbox.thy ===== *)
theory Sandbox
  imports Controller "HOL-Library.Word"
begin

section \<open>Claims, services, names and injection\<close>

text \<open>
  The controller's collaborators: \<open>src/internal/controller/claim.go\<close> (one sandbox claim per app),
  \<open>service.go\<close> (one Kubernetes Service per app that selects the bound pod), \<open>inject.go\<close> (the request
  sent to the agent) and the naming of \<open>vibedapp_controller.go\<close> (\<open>AppLabel\<close>, \<open>DeterministicRouter\<close>).

  The API server is a client over an abstract state (\<open>kube_client\<close>); \<open>honest\<close> states what its
  documentation promises of writes: a successful create stores the object as requested, a failed write
  changes nothing, \<open>AlreadyExists\<close> means that the object is there.  SHA-256 is a function argument: only
  the length of its digest is used.
\<close>

unbundle bit_operations_syntax

subsection \<open>Names\<close>

text \<open>\<open>base32.HexEncoding\<close> without padding: the bits of the bytes, most significant first, in groups of
  five.\<close>

definition byte_bits :: "byte \<Rightarrow> bool list" where
  "byte_bits c = map (\<lambda>i. bit (of_char c :: nat) (7 - i)) [0..<8]"

definition bits_of :: "string \<Rightarrow> bool list" where
  "bits_of bs = concat (map byte_bits bs)"

definition bits_value :: "bool list \<Rightarrow> nat" where
  "bits_value bs = foldl (\<lambda>n b. 2 * n + (if b then 1 else 0)) 0 bs"

definition base32hex_digit :: "nat \<Rightarrow> byte" where
  "base32hex_digit d = (if d < 10 then char_of (48 + d) else char_of (55 + d))"

function base32hex_bits :: "bool list \<Rightarrow> string" where
  "base32hex_bits bs = (if bs = [] then []
     else base32hex_digit (bits_value (take 5 (bs @ replicate 4 False))) # base32hex_bits (drop 5 bs))"
  by pat_completeness auto
termination
  by (relation "measure length") auto

declare base32hex_bits.simps [simp del]

definition base32hex :: "string \<Rightarrow> string" where
  "base32hex bs = base32hex_bits (bits_of bs)"

definition AppLabel :: "(string \<Rightarrow> string) \<Rightarrow> VibedApp \<Rightarrow> string" where
  "AppLabel sha256 app =
     ToLower (take 12 (base32hex (take 8 (sha256 (app_Namespace app @ ''/'' @ app_Name app)))))"

record DeterministicRouter =
  dr_Domain :: string
  dr_Scheme :: string
  dr_Port :: string

definition Publish :: "(string \<Rightarrow> string) \<Rightarrow> DeterministicRouter \<Rightarrow> VibedApp \<Rightarrow> string" where
  "Publish sha256 d app =
     (let domain = (if dr_Domain d = '''' then ''vibed.example.com'' else dr_Domain d);
          scheme = (if dr_Scheme d = '''' then ''https'' else dr_Scheme d);
          host = AppLabel sha256 app @ ''.'' @ domain;
          host' = (if dr_Port d \<noteq> '''' then host @ '':'' @ dr_Port d else host)
      in scheme @ ''://'' @ host')"

definition ServiceName :: "(string \<Rightarrow> string) \<Rightarrow> VibedApp \<Rightarrow> string" where
  "ServiceName sha256 app = ''vibed-app-'' @ AppLabel sha256 app"

text \<open>\<open>fnv.New32a\<close> and \<open>%08x\<close>.\<close>

definition fnv32a :: "string \<Rightarrow> 32 word" where
  "fnv32a s = fold (\<lambda>c h. (h XOR of_nat (of_char c)) * 16777619) s 2166136261"

definition hex8 :: "32 word \<Rightarrow> string" where
  "hex8 w = map (\<lambda>i. hex_digit (unat w div 16 ^ (7 - i) mod 16)) [0..<8]"

definition sandboxNameHash :: "string \<Rightarrow> string" where
  "sandboxNameHash sandboxName = hex8 (fnv32a sandboxName)"

subsection \<open>Claims\<close>

record Service =
  svc_Name :: string
  svc_Namespace :: string
  svc_Labels :: "string \<rightharpoonup> string"
  svc_OwnerReferences :: "OwnerReference list"
  svc_Selector :: "string \<rightharpoonup> string"
  svc_Port :: int

record 's kube_client =
  k_GetTemplate :: "'s \<Rightarrow> string \<Rightarrow> string \<Rightarrow> kerr option"
  k_GetClaim :: "'s \<Rightarrow> string \<Rightarrow> string \<Rightarrow> (kerr, SandboxClaim) result"
  k_CreateClaim :: "SandboxClaim \<Rightarrow> 's \<Rightarrow> 's \<times> kerr option"
  k_DeleteClaim :: "string \<Rightarrow> string \<Rightarrow> 's \<Rightarrow> 's \<times> kerr option"
  k_GetService :: "'s \<Rightarrow> string \<Rightarrow> string \<Rightarrow> (kerr, Service) result"
  k_CreateService :: "Service \<Rightarrow> 's \<Rightarrow> 's \<times> kerr option"
  k_UpdateService :: "Service \<Rightarrow> 's \<Rightarrow> 's \<times> kerr option"

definition obj :: "VibedApp \<Rightarrow> string" where
  "obj app = app_Namespace app @ ''/'' @ app_Name app"

definition ownerRef :: "VibedApp \<Rightarrow> OwnerReference" where
  "ownerRef app = \<lparr>or_Kind = ''VibedApp'', or_Name = app_Name app, or_UID = app_UID app\<rparr>"

definition buildClaim :: "VibedApp \<Rightarrow> string \<Rightarrow> SandboxClaim" where
  "buildClaim app template =
     \<lparr>cl_Name = app_Name app, cl_Namespace = app_Namespace app,
      cl_Labels = [labelApp \<mapsto> app_Name app, ''vibed.dev/owner'' \<mapsto> spec_Owner (app_Spec app), ''vibed.dev/template'' \<mapsto> template],
      cl_CreationTimestamp = 0, cl_OwnerReferences = [ownerRef app], cl_WarmPool = template,
      cl_Env = rt_Env (spec_Runtime (app_Spec app)), cl_SandboxName = NestedMissing, cl_PodIPs = NestedMissing\<rparr>"

definition readClaimStatus :: "SandboxClaim \<Rightarrow> claim_answer" where
  "readClaimStatus u = (case cl_SandboxName u of
      NestedErr e \<Rightarrow> ClaimError (''read claim status.sandbox.name: '' @ e)
    | NestedMissing \<Rightarrow> ClaimUnbound
    | Nested name \<Rightarrow>
        if name = '''' then ClaimUnbound
        else (case cl_PodIPs u of
            NestedErr e \<Rightarrow> ClaimError (''read claim status.sandbox.podIPs: '' @ e)
          | NestedMissing \<Rightarrow> ClaimUnbound
          | Nested ips \<Rightarrow> (case ips of [] \<Rightarrow> ClaimUnbound | ip # _ \<Rightarrow> ClaimBound name ip)))"

definition EnsureClaim :: "'s kube_client \<Rightarrow> VibedApp \<Rightarrow> 's \<Rightarrow> 's \<times> claim_answer" where
  "EnsureClaim k app s =
     (let template = rt_Template (spec_Runtime (app_Spec app)); ns = app_Namespace app in
      if template = '''' then (s, ClaimError (''VibedApp '' @ obj app @ '': spec.runtime.template is required to claim''))
      else case k_GetTemplate k s ns template of
        Some e \<Rightarrow>
          if IsNotFound e then
            (s, ClaimNoTemplate (''no SandboxTemplate for template '' @ Quote template @ '' (no warm pool configured for it)''))
          else (s, ClaimError (''get SandboxTemplate '' @ ns @ ''/'' @ template @ '': '' @ kerr_Error e))
      | None \<Rightarrow> (case k_GetClaim k s ns (app_Name app) of
          Inr got \<Rightarrow> (s, readClaimStatus got)
        | Inl e \<Rightarrow>
            if IsNotFound e then
              (case k_CreateClaim k (buildClaim app template) s of
                 (s', Some ce) \<Rightarrow>
                   if IsAlreadyExists ce then (s', ClaimUnbound)
                   else (s', ClaimError (''create SandboxClaim '' @ obj app @ '': '' @ kerr_Error ce))
               | (s', None) \<Rightarrow> (s', ClaimUnbound))
            else (s, ClaimError (''get SandboxClaim '' @ obj app @ '': '' @ kerr_Error e))))"

definition ReleaseClaim :: "'s kube_client \<Rightarrow> VibedApp \<Rightarrow> 's \<Rightarrow> 's \<times> string option" where
  "ReleaseClaim k app s = (case k_DeleteClaim k (app_Namespace app) (app_Name app) s of
      (s', None) \<Rightarrow> (s', None)
    | (s', Some e) \<Rightarrow>
        if IsNotFound e then (s', None) else (s', Some (''delete SandboxClaim '' @ obj app @ '': '' @ kerr_Error e)))"

subsection \<open>Services\<close>

definition sandboxPodLabelKey :: string where
  "sandboxPodLabelKey = ''agents.x-k8s.io/sandbox-name-hash''"

definition boundPodSelector :: "'s kube_client \<Rightarrow> VibedApp \<Rightarrow> 's \<Rightarrow> (string, string \<rightharpoonup> string) result" where
  "boundPodSelector k app s = (case k_GetClaim k s (app_Namespace app) (app_Name app) of
      Inl e \<Rightarrow> Err (''get SandboxClaim '' @ obj app @ '' for service selector: '' @ kerr_Error e)
    | Inr claim \<Rightarrow> (case cl_SandboxName claim of
        NestedErr e \<Rightarrow> Err (''read SandboxClaim '' @ obj app @ '' status.sandbox.name: '' @ e)
      | NestedMissing \<Rightarrow> Err (''SandboxClaim '' @ obj app @ '' has no bound sandbox yet'')
      | Nested name \<Rightarrow>
          if name = '''' then Err (''SandboxClaim '' @ obj app @ '' has no bound sandbox yet'')
          else Ok [sandboxPodLabelKey \<mapsto> sandboxNameHash name]))"

definition reconcileSelector :: "'s kube_client \<Rightarrow> VibedApp \<Rightarrow> string \<Rightarrow> (string \<rightharpoonup> string) \<Rightarrow> 's \<Rightarrow> 's \<times> string option" where
  "reconcileSelector k app name sel s = (case k_GetService k s (app_Namespace app) name of
      Inl e \<Rightarrow> (s, Some (''get Service '' @ app_Namespace app @ ''/'' @ name @ '': '' @ kerr_Error e))
    | Inr existing \<Rightarrow>
        if svc_Selector existing = sel then (s, None)
        else (case k_UpdateService k (existing\<lparr>svc_Selector := sel\<rparr>) s of
            (s', None) \<Rightarrow> (s', None)
          | (s', Some e) \<Rightarrow> (s', Some (''update Service selector '' @ app_Namespace app @ ''/'' @ name @ '': '' @ kerr_Error e))))"

definition buildService :: "VibedApp \<Rightarrow> string \<Rightarrow> (string \<rightharpoonup> string) \<Rightarrow> int \<Rightarrow> Service" where
  "buildService app name sel port =
     \<lparr>svc_Name = name, svc_Namespace = app_Namespace app, svc_Labels = [labelApp \<mapsto> app_Name app],
      svc_OwnerReferences = [ownerRef app], svc_Selector = sel, svc_Port = port\<rparr>"

definition EnsureService ::
  "(string \<Rightarrow> string) \<Rightarrow> int \<Rightarrow> 's kube_client \<Rightarrow> VibedApp \<Rightarrow> 's \<Rightarrow> 's \<times> (string, string) result" where
  "EnsureService sha256 appPort k app s =
     (let port = (if appPort = 0 then 8080 else appPort) in
      case boundPodSelector k app s of
        Inl e \<Rightarrow> (s, Err e)
      | Inr sel \<Rightarrow>
          let name = ServiceName sha256 app;
              target = name @ ''.'' @ app_Namespace app @ ''.svc.cluster.local:'' @ Itoa port
          in case k_CreateService k (buildService app name sel port) s of
               (s1, None) \<Rightarrow> (s1, Ok target)
             | (s1, Some e) \<Rightarrow>
                 if \<not> IsAlreadyExists e then
                   (s1, Err (''create Service '' @ app_Namespace app @ ''/'' @ name @ '': '' @ kerr_Error e))
                 else (case reconcileSelector k app name sel s1 of
                     (s2, Some e2) \<Rightarrow> (s2, Err e2)
                   | (s2, None) \<Rightarrow> (s2, Ok target)))"

subsection \<open>Injection\<close>

record InjectRequest =
  inj_SourceURL :: string
  inj_Command :: "string list"
  inj_Env :: "string \<rightharpoonup> string"

definition TemplateEntrypoint :: string where
  "TemplateEntrypoint = ''/etc/vibed/entrypoint.sh''"

definition injectRequest :: "VibedApp \<Rightarrow> InjectRequest" where
  "injectRequest app =
     (let ep = rt_Entrypoint (spec_Runtime (app_Spec app)) in
      \<lparr>inj_SourceURL = source_TarballRef (spec_Source (app_Spec app)),
       inj_Command = (if ep \<noteq> '''' then [''sh'', ''-c'', ep] else [TemplateEntrypoint]),
       inj_Env = fold (\<lambda>e m. m(env_Name e \<mapsto> env_Value e)) (rt_Env (spec_Runtime (app_Spec app))) Map.empty\<rparr>)"

text \<open>\<open>call\<close> is the agent's answer to the request: an error or the state of the user process.\<close>

definition Inject :: "(string \<Rightarrow> InjectRequest \<Rightarrow> (string, string) result) \<Rightarrow> string \<Rightarrow> VibedApp \<Rightarrow> (string, bool) result" where
  "Inject call target app =
     (if source_TarballRef (spec_Source (app_Spec app)) = '''' then
        Err ''inject: spec.source.tarballRef is empty (only tarball sources are supported)''
      else case call target (injectRequest app) of Inl e \<Rightarrow> Err e | Inr state \<Rightarrow> Ok (state = ''running''))"

subsection \<open>Labels\<close>

definition label_char :: "byte \<Rightarrow> bool" where
  "label_char c \<longleftrightarrow> is_digit c \<or> (97 \<le> (of_char c :: nat) \<and> (of_char c :: nat) \<le> 122)"

lemma lower_digits: "map (\<lambda>d. lower_byte (base32hex_digit d)) [0..<32] = ''0123456789abcdefghijklmnopqrstuv''"
  by (simp add: upt_rec base32hex_digit_def lower_byte_def is_upper_def char_of_def bit_0)

lemma lower_digit:
  assumes "d < 32"
  shows "label_char (lower_byte (base32hex_digit d))"
    "e < 32 \<Longrightarrow> lower_byte (base32hex_digit d) = lower_byte (base32hex_digit e) \<longleftrightarrow> d = e"
proof -
  have nth: "lower_byte (base32hex_digit i) = ''0123456789abcdefghijklmnopqrstuv'' ! i" if "i < 32" for i
    using that arg_cong [OF lower_digits, of "\<lambda>xs. xs ! i"] by (simp add: nth_map)
  have all: "list_all label_char ''0123456789abcdefghijklmnopqrstuv''" "distinct ''0123456789abcdefghijklmnopqrstuv''"
    by (simp_all add: label_char_def is_digit_def)
  show "label_char (lower_byte (base32hex_digit d))"
    unfolding nth [OF assms] using all(1) assms by (metis list_all_length lower_digits length_map length_upt minus_nat.diff_0)
  show "lower_byte (base32hex_digit d) = lower_byte (base32hex_digit e) \<longleftrightarrow> d = e" if "e < 32"
    unfolding nth [OF assms] nth [OF that] using nth_eq_iff_index_eq [OF all(2), of d e] assms that by simp
qed

lemma bits_value_snoc: "bits_value (bs @ [b]) = 2 * bits_value bs + (if b then 1 else 0)"
  by (simp add: bits_value_def)

lemma bits_value_less: "bits_value bs < 2 ^ length bs"
  by (induction bs rule: rev_induct) (auto simp: bits_value_snoc bits_value_def [of "[]"])

lemma bits_value_inj: "length bs = length cs \<Longrightarrow> bits_value bs = bits_value cs \<Longrightarrow> bs = cs"
proof (induction bs arbitrary: cs rule: rev_induct)
  case (snoc b bs)
  then obtain c cs' where cs: "cs = cs' @ [c]" by (metis length_append_singleton length_Suc_conv_rev)
  with snoc.prems have "bits_value bs = bits_value cs' \<and> b = c" by (auto simp: bits_value_snoc split: if_splits) presburger+
  with snoc cs show ?case by simp
qed simp

lemma length_bits_of [simp]: "length (bits_of bs) = 8 * length bs"
  by (induction bs) (simp_all add: bits_of_def byte_bits_def)

lemma base32hex_bits_5:
  assumes "5 \<le> length bs"
  shows "base32hex_bits bs = base32hex_digit (bits_value (take 5 bs)) # base32hex_bits (drop 5 bs)"
  using assms by (subst base32hex_bits.simps) auto

lemma base32hex_group_less: "5 \<le> length bs \<Longrightarrow> bits_value (take 5 bs) < 32"
  using bits_value_less [of "take 5 bs"] by simp

lemma base32hex_prefix_chars:
  "5 * k \<le> length bs \<Longrightarrow>
   length (take k (base32hex_bits bs)) = k \<and> list_all label_char (map lower_byte (take k (base32hex_bits bs)))"
proof (induction k arbitrary: bs)
  case (Suc k)
  then have "5 \<le> length bs" "5 * k \<le> length (drop 5 bs)" by simp_all
  then show ?case
    using Suc.IH [of "drop 5 bs"] lower_digit base32hex_group_less [of bs] by (simp add: base32hex_bits_5)
qed simp

lemma base32hex_prefix_inj:
  "5 * k \<le> length bs \<Longrightarrow> 5 * k \<le> length cs \<Longrightarrow>
   map lower_byte (take k (base32hex_bits bs)) = map lower_byte (take k (base32hex_bits cs)) \<longleftrightarrow> take (5 * k) bs = take (5 * k) cs"
proof (induction k arbitrary: bs cs)
  case (Suc k)
  then have l: "5 \<le> length bs" "5 \<le> length cs" "5 * k \<le> length (drop 5 bs)" "5 * k \<le> length (drop 5 cs)" by simp_all
  have "lower_byte (base32hex_digit (bits_value (take 5 bs))) = lower_byte (base32hex_digit (bits_value (take 5 cs))) \<longleftrightarrow>
      take 5 bs = take 5 cs"
    using lower_digit base32hex_group_less [OF l(1)] base32hex_group_less [OF l(2)]
      bits_value_inj [of "take 5 bs" "take 5 cs"] l by auto
  moreover have "take (5 * Suc k) xs = take 5 xs @ take (5 * k) (drop 5 xs)" for xs :: "bool list"
    by (metis add.commute mult_Suc_right take_add)
  ultimately show ?case using Suc.IH [OF l(3,4)] l by (simp add: base32hex_bits_5)
qed simp

text \<open>The label of an app is twelve characters from \<open>[a-z0-9]\<close>, and two apps have the same label exactly
  if the first 60 bits of the digests of their qualified names agree.\<close>

theorem app_label_is_60_bit_name:
  assumes "\<And>s. length (sha256 s) = 32"
  shows "length (AppLabel sha256 a) = 12 \<and> list_all label_char (AppLabel sha256 a) \<and>
    (AppLabel sha256 a = AppLabel sha256 b \<longleftrightarrow>
       take 60 (bits_of (sha256 (app_Namespace a @ ''/'' @ app_Name a))) =
       take 60 (bits_of (sha256 (app_Namespace b @ ''/'' @ app_Name b))))"
proof -
  let ?d = "\<lambda>x. sha256 (app_Namespace x @ ''/'' @ app_Name x)"
  have l: "5 * 12 \<le> length (bits_of (take 8 (?d x)))" for x using assms by simp
  have b: "take 60 (bits_of (take 8 s)) = take 60 (bits_of s)" if "8 \<le> length s" for s
  proof -
    have "bits_of s = bits_of (take 8 s) @ bits_of (drop 8 s)"
      by (metis append_take_drop_id bits_of_def concat_append map_append)
    with that show ?thesis by simp
  qed
  have "AppLabel sha256 x = map lower_byte (take 12 (base32hex_bits (bits_of (take 8 (?d x)))))" for x
    by (simp add: AppLabel_def ToLower_def base32hex_def)
  then show ?thesis
    using base32hex_prefix_chars [OF l, of a] base32hex_prefix_inj [OF l l, of a b] b assms by simp
qed

text \<open>The selector value is eight lowercase hexadecimal digits.\<close>

lemma sandboxNameHash_shape:
  "length (sandboxNameHash n) = 8 \<and> list_all (\<lambda>c. c \<in> set ''0123456789abcdef'') (sandboxNameHash n)"
proof -
  have "map hex_digit [0..<16] = ''0123456789abcdef''" by code_simp
  then have "hex_digit d \<in> set ''0123456789abcdef''" if "d < 16" for d
    using that by (metis atLeastLessThan_iff image_eqI list.set_map set_upt zero_le)
  then show ?thesis by (auto simp: sandboxNameHash_def hex8_def list_all_iff)
qed

subsection \<open>What the API server promises\<close>

text \<open>The object a server stores for a create is the one requested, with fields of its own filled in.\<close>

definition stored_as :: "SandboxClaim \<Rightarrow> SandboxClaim \<Rightarrow> bool" where
  "stored_as c c' \<longleftrightarrow> cl_Name c' = cl_Name c \<and> cl_Namespace c' = cl_Namespace c \<and> cl_Labels c' = cl_Labels c \<and>
     cl_OwnerReferences c' = cl_OwnerReferences c \<and> cl_WarmPool c' = cl_WarmPool c \<and> cl_Env c' = cl_Env c"

type_synonym 'o store = "string \<times> string \<rightharpoonup> 'o"

definition claim_writes_ok :: "'s kube_client \<Rightarrow> ('s \<Rightarrow> SandboxClaim store) \<Rightarrow> ('s \<Rightarrow> Service store) \<Rightarrow> bool" where
  "claim_writes_ok k claims services \<longleftrightarrow> (\<forall>s.
     (\<forall>c. case k_CreateClaim k c s of
        (s', None) \<Rightarrow> services s' = services s \<and> claims s (cl_Namespace c, cl_Name c) = None \<and>
          (\<exists>c'. stored_as c c' \<and> claims s' = (claims s)((cl_Namespace c, cl_Name c) \<mapsto> c'))
      | (s', Some e) \<Rightarrow> services s' = services s \<and> claims s' = claims s \<and>
          (IsAlreadyExists e \<longrightarrow> claims s (cl_Namespace c, cl_Name c) \<noteq> None)) \<and>
     (\<forall>ns name. case k_DeleteClaim k ns name s of
        (s', None) \<Rightarrow> services s' = services s \<and> claims s' = (claims s)((ns, name) := None)
      | (s', Some e) \<Rightarrow> services s' = services s \<and> claims s' = claims s \<and>
          (IsNotFound e \<longrightarrow> claims s (ns, name) = None)))"

definition service_writes_ok :: "'s kube_client \<Rightarrow> ('s \<Rightarrow> SandboxClaim store) \<Rightarrow> ('s \<Rightarrow> Service store) \<Rightarrow> bool" where
  "service_writes_ok k claims services \<longleftrightarrow> (\<forall>s svc.
     (case k_CreateService k svc s of
        (s', None) \<Rightarrow> claims s' = claims s \<and> services s' = (services s)((svc_Namespace svc, svc_Name svc) \<mapsto> svc)
      | (s', Some e) \<Rightarrow> claims s' = claims s \<and> services s' = services s) \<and>
     (case k_UpdateService k svc s of
        (s', None) \<Rightarrow> claims s' = claims s \<and> services s' = (services s)((svc_Namespace svc, svc_Name svc) \<mapsto> svc)
      | (s', Some e) \<Rightarrow> claims s' = claims s \<and> services s' = services s))"

text \<open>A read of a Service returns what is stored under its name.\<close>

definition service_reads_ok :: "'s kube_client \<Rightarrow> ('s \<Rightarrow> Service store) \<Rightarrow> bool" where
  "service_reads_ok k services \<longleftrightarrow> (\<forall>s ns name svc. k_GetService k s ns name = Ok svc \<longrightarrow>
     services s (ns, name) = Some svc \<and> svc_Namespace svc = ns \<and> svc_Name svc = name)"

lemma CreateClaim_ok:
  assumes "claim_writes_ok k claims services" "k_CreateClaim k c s = (s', r)"
  shows "services s' = services s"
    "r = None \<Longrightarrow> claims s (cl_Namespace c, cl_Name c) = None \<and>
       (\<exists>c'. stored_as c c' \<and> claims s' = (claims s)((cl_Namespace c, cl_Name c) \<mapsto> c'))"
    "r = Some e \<Longrightarrow> claims s' = claims s \<and> (IsAlreadyExists e \<longrightarrow> claims s (cl_Namespace c, cl_Name c) \<noteq> None)"
  using assms(1) [unfolded claim_writes_ok_def, THEN spec [of _ s], THEN conjunct1, THEN spec [of _ c]] assms(2)
  by (cases r; simp)+

lemma DeleteClaim_ok:
  assumes "claim_writes_ok k claims services" "k_DeleteClaim k ns name s = (s', r)"
  shows "services s' = services s" "r = None \<Longrightarrow> claims s' = (claims s)((ns, name) := None)"
    "r = Some e \<Longrightarrow> claims s' = claims s \<and> (IsNotFound e \<longrightarrow> claims s (ns, name) = None)"
  using assms(1) [unfolded claim_writes_ok_def, THEN spec [of _ s], THEN conjunct2, rule_format, of ns name] assms(2)
  by (cases r; simp)+

lemma CreateService_ok:
  assumes "service_writes_ok k claims services" "k_CreateService k svc s = (s', r)"
  shows "claims s' = claims s" "r = None \<Longrightarrow> services s' = (services s)((svc_Namespace svc, svc_Name svc) \<mapsto> svc)"
    "r = Some e \<Longrightarrow> services s' = services s"
  using assms(1) [unfolded service_writes_ok_def, rule_format, of s svc, THEN conjunct1] assms(2) by (cases r; simp)+

lemma UpdateService_ok:
  assumes "service_writes_ok k claims services" "k_UpdateService k svc s = (s', r)"
  shows "claims s' = claims s" "r = None \<Longrightarrow> services s' = (services s)((svc_Namespace svc, svc_Name svc) \<mapsto> svc)"
    "r = Some e \<Longrightarrow> services s' = services s"
  using assms(1) [unfolded service_writes_ok_def, rule_format, of s svc, THEN conjunct2] assms(2) by (cases r; simp)+

subsection \<open>One claim per app\<close>

abbreviation app_key :: "VibedApp \<Rightarrow> string \<times> string" where
  "app_key app \<equiv> (app_Namespace app, app_Name app)"

lemma buildClaim_key [simp]:
  "cl_Namespace (buildClaim app t) = app_Namespace app" "cl_Name (buildClaim app t) = app_Name app"
  by (simp_all add: buildClaim_def)

text \<open>Ensuring a claim changes at most one object: it adds the app's own claim, labelled with the app's
  name, where there was none.  It never replaces a claim and never touches another app's.  A bound
  answer is the sandbox and the first address of the claim that was read; when the claim was not found
  and no error is reported, the app has a claim afterwards.\<close>

theorem ensure_claim_adds_at_most_its_own:
  assumes "claim_writes_ok k claims services" and "EnsureClaim k app s = (s', r)"
  shows "services s' = services s \<and>
    (claims s' = claims s \<or>
      claims s (app_key app) = None \<and> r = ClaimUnbound \<and>
      (\<exists>c. claims s' = (claims s)(app_key app \<mapsto> c) \<and> cl_Labels c labelApp = Some (app_Name app) \<and>
         cl_WarmPool c = rt_Template (spec_Runtime (app_Spec app)) \<and> cl_OwnerReferences c = [ownerRef app])) \<and>
    (\<forall>ref ip. r = ClaimBound ref ip \<longrightarrow> ref \<noteq> '''' \<and>
      (\<exists>c ips. k_GetClaim k s (app_Namespace app) (app_Name app) = Ok c \<and> cl_SandboxName c = Nested ref \<and>
         cl_PodIPs c = Nested (ip # ips))) \<and>
    (r = ClaimUnbound \<and> isl (k_GetClaim k s (app_Namespace app) (app_Name app)) \<longrightarrow> claims s' (app_key app) \<noteq> None)"
proof (cases "k_CreateClaim k (buildClaim app (rt_Template (spec_Runtime (app_Spec app)))) s")
  case (Pair s1 cr)
  note ok = CreateClaim_ok [OF assms(1) Pair]
  have lab: "cl_Labels c labelApp = Some (app_Name app) \<and> cl_WarmPool c = t \<and> cl_OwnerReferences c = [ownerRef app]"
    if "stored_as (buildClaim app t) c" for c t
    using that by (simp add: stored_as_def buildClaim_def labelApp_def)
  from assms(2) show ?thesis
    using ok lab Pair
    by (auto simp: EnsureClaim_def readClaimStatus_def Let_def split: if_splits option.splits sum.splits nested.splits
        list.splits)
qed

text \<open>Releasing removes the app's claim, or reports an error and changes nothing.\<close>

lemma release_claim_removes:
  assumes "claim_writes_ok k claims services" and "ReleaseClaim k app s = (s', r)"
  shows "services s' = services s \<and>
    (if r = None then claims s' = (claims s)(app_key app := None) else claims s' = claims s)"
proof (cases "k_DeleteClaim k (app_Namespace app) (app_Name app) s")
  case (Pair s1 dr)
  from assms(2) show ?thesis
    using DeleteClaim_ok [OF assms(1) Pair] Pair by (auto simp: ReleaseClaim_def split: if_splits option.splits)
qed

subsection \<open>The Service follows the sandbox\<close>

lemma reconcileSelector_ok:
  assumes "service_writes_ok k claims services" "service_reads_ok k services" "reconcileSelector k app name sel s = (s', None)"
  shows "claims s' = claims s \<and> (\<exists>svc. services s' (app_Namespace app, name) = Some svc \<and> svc_Selector svc = sel)"
proof (cases "k_GetService k s (app_Namespace app) name")
  case (Inl e)
  with assms(3) show ?thesis by (simp add: reconcileSelector_def)
next
  case (Inr svc)
  with assms(2) have r: "services s (app_Namespace app, name) = Some svc" "svc_Namespace svc = app_Namespace app" "svc_Name svc = name"
    by (auto simp: service_reads_ok_def)
  show ?thesis
    using assms(3) Inr r UpdateService_ok [OF assms(1)]
    by (cases "k_UpdateService k (svc\<lparr>svc_Selector := sel\<rparr>) s") (auto simp: reconcileSelector_def split: if_splits option.splits)
qed

text \<open>After \<open>EnsureService\<close> the app has a Service whose selector is the hash of the sandbox its claim is
  bound to, also when the Service existed for an older sandbox; the route target names that Service.\<close>

theorem service_selects_bound_sandbox:
  assumes "service_writes_ok k claims services" and "service_reads_ok k services"
    and "EnsureService sha256 port k app s = (s', Ok target)"
  shows "claims s' = claims s \<and> (\<exists>c sandbox svc.
     k_GetClaim k s (app_Namespace app) (app_Name app) = Ok c \<and> cl_SandboxName c = Nested sandbox \<and> sandbox \<noteq> '''' \<and>
     services s' (app_Namespace app, ServiceName sha256 app) = Some svc \<and>
     svc_Selector svc = [sandboxPodLabelKey \<mapsto> sandboxNameHash sandbox]) \<and>
     HasPrefix target (ServiceName sha256 app @ ''.'' @ app_Namespace app @ ''.svc.cluster.local:'')"
proof -
  let ?name = "ServiceName sha256 app"
  obtain sel where sel: "boundPodSelector k app s = Ok sel"
    using assms(3) by (auto simp: EnsureService_def Let_def split: sum.splits)
  then obtain c sandbox where c: "k_GetClaim k s (app_Namespace app) (app_Name app) = Ok c" "cl_SandboxName c = Nested sandbox"
    "sandbox \<noteq> ''''" "sel = [sandboxPodLabelKey \<mapsto> sandboxNameHash sandbox]"
    by (auto simp: boundPodSelector_def split: sum.splits nested.splits if_splits)
  let ?svc = "buildService app ?name sel (if port = 0 then 8080 else port)"
  obtain s1 cr where cr: "k_CreateService k ?svc s = (s1, cr)" by (cases "k_CreateService k ?svc s")
  note ok = CreateService_ok [OF assms(1) cr]
  have "claims s' = claims s \<and> (\<exists>svc. services s' (app_Namespace app, ?name) = Some svc \<and> svc_Selector svc = sel)"
  proof (cases cr)
    case None
    with assms(3) sel cr ok show ?thesis by (simp add: EnsureService_def Let_def buildService_def)
  next
    case (Some e)
    with assms(3) sel cr have "reconcileSelector k app ?name sel s1 = (s', None)"
      by (auto simp: EnsureService_def Let_def split: if_splits prod.splits option.splits)
    from reconcileSelector_ok [OF assms(1,2) this] ok(1) show ?thesis by simp
  qed
  moreover have "HasPrefix target (?name @ ''.'' @ app_Namespace app @ ''.svc.cluster.local:'')"
    using assms(3) sel by (auto simp: EnsureService_def Let_def HasPrefix_iff split: if_splits prod.splits option.splits)
  ultimately show ?thesis using c by blast
qed

subsection \<open>A server that keeps its promises\<close>

definition map_client :: "(SandboxClaim store \<times> Service store) kube_client" where
  "map_client =
     \<lparr>k_GetTemplate = (\<lambda>_ _ _. None),
      k_GetClaim = (\<lambda>s ns n. case fst s (ns, n) of None \<Rightarrow> Err (KNotFound '''') | Some c \<Rightarrow> Ok c),
      k_CreateClaim = (\<lambda>c s. if fst s (cl_Namespace c, cl_Name c) = None
         then (((fst s)((cl_Namespace c, cl_Name c) \<mapsto> c), snd s), None) else (s, Some (KAlreadyExists ''''))),
      k_DeleteClaim = (\<lambda>ns n s. if fst s (ns, n) = None then (s, Some (KNotFound '''')) else (((fst s)((ns, n) := None), snd s), None)),
      k_GetService = (\<lambda>s ns n. case snd s (ns, n) of None \<Rightarrow> Err (KNotFound '''')
         | Some v \<Rightarrow> if svc_Namespace v = ns \<and> svc_Name v = n then Ok v else Err (KOther '''')),
      k_CreateService = (\<lambda>v s. if snd s (svc_Namespace v, svc_Name v) = None
         then ((fst s, (snd s)((svc_Namespace v, svc_Name v) \<mapsto> v)), None) else (s, Some (KAlreadyExists ''''))),
      k_UpdateService = (\<lambda>v s. ((fst s, (snd s)((svc_Namespace v, svc_Name v) \<mapsto> v)), None))\<rparr>"

lemma map_client_ok:
  "claim_writes_ok map_client fst snd" "service_writes_ok map_client fst snd" "service_reads_ok map_client snd"
  by (auto simp: claim_writes_ok_def service_writes_ok_def service_reads_ok_def map_client_def stored_as_def
      split: option.splits if_splits)

definition bound_claim :: SandboxClaim where
  "bound_claim = (buildClaim (sample_app ''ns'' ''a'' ''al'') ''node-24'')
     \<lparr>cl_SandboxName := Nested ''sb-2'', cl_PodIPs := Nested [''10.0.0.2'']\<rparr>"

text \<open>A claim bound to a second sandbox, and the Service still selecting the first one.\<close>

definition rebound :: "SandboxClaim store \<times> Service store" where
  "rebound = ([(''ns'', ''a'') \<mapsto> bound_claim],
     [(''ns'', ServiceName (\<lambda>_. []) (sample_app ''ns'' ''a'' ''al'')) \<mapsto>
        buildService (sample_app ''ns'' ''a'' ''al'') (ServiceName (\<lambda>_. []) (sample_app ''ns'' ''a'' ''al''))
          [sandboxPodLabelKey \<mapsto> sandboxNameHash ''sb-1''] 8080])"

theorem ensure_claim_adds_at_most_its_own_witness:
  "\<exists>c. fst (fst (EnsureClaim map_client (sample_app ''ns'' ''a'' ''al'') (Map.empty, Map.empty))) (''ns'', ''a'') = Some c \<and>
     cl_Labels c labelApp = Some ''a''"
proof -
  let ?a = "sample_app ''ns'' ''a'' ''al''" let ?s = "(Map.empty, Map.empty) :: SandboxClaim store \<times> Service store"
  obtain s' r where e: "EnsureClaim map_client ?a ?s = (s', r)" by (cases "EnsureClaim map_client ?a ?s")
  then have "fst s' \<noteq> fst ?s"
    by (auto simp: EnsureClaim_def map_client_def sample_app_def Let_def buildClaim_def split: if_splits)
  with ensure_claim_adds_at_most_its_own [OF map_client_ok(1) e] e show ?thesis by auto
qed

theorem service_selects_bound_sandbox_witness:
  "\<exists>svc. snd (fst (EnsureService (\<lambda>_. []) 0 map_client (sample_app ''ns'' ''a'' ''al'') rebound))
       (''ns'', ServiceName (\<lambda>_. []) (sample_app ''ns'' ''a'' ''al'')) = Some svc \<and>
     svc_Selector svc = [sandboxPodLabelKey \<mapsto> sandboxNameHash ''sb-2'']"
proof -
  let ?a = "sample_app ''ns'' ''a'' ''al''"
  have "\<exists>s' t. EnsureService (\<lambda>_. []) 0 map_client ?a rebound = (s', Ok t)"
    by (simp add: EnsureService_def boundPodSelector_def reconcileSelector_def buildService_def map_client_def rebound_def
        bound_claim_def Let_def)
  then obtain s' t where e: "EnsureService (\<lambda>_. []) 0 map_client ?a rebound = (s', Ok t)" by blast
  from service_selects_bound_sandbox [OF map_client_ok(2,3) e] e show ?thesis
    by (auto simp: map_client_def rebound_def bound_claim_def)
qed

theorem app_label_is_60_bit_name_witness:
  "length (AppLabel (\<lambda>_. replicate 32 (CHR ''x'')) (sample_app ''ns'' ''a'' ''al'')) = 12"
  using app_label_is_60_bit_name [of "\<lambda>_. replicate 32 (CHR ''x'')" "sample_app ''ns'' ''a'' ''al''"] by simp

end
