(* ===== verification/Template_Gate.thy ===== *)
theory Template_Gate
  imports Kube
begin

section \<open>Template validation and the claim gate\<close>

text \<open>
  \<open>src/internal/templatevalidate/validate.go\<close>: the validator reads, for every template slot, a warm
  pod's \<open>/info\<close> and records whether the image keeps the bring-your-own contract.
  \<open>src/internal/controller/gate.go\<close>: before a sandbox is claimed the gate reads the recorded result
  and, in strict mode, compares it with the pod that runs now.  The API server and the pods' agents are
  arguments: what a \<open>List\<close>, a \<open>Get\<close> or \<open>GET /info\<close> answered.  A value of the results' ConfigMap is the
  JSON of a result or malformed; the formatted time of a result is kept as the instant.
\<close>

text \<open>The dash in the messages, in UTF-8.\<close>

abbreviation em_dash :: string where
  "em_dash \<equiv> [CHR 0xE2, CHR 0x80, CHR 0x94]"

record InfoResponse =
  inf_AgentContract :: string
  inf_Language :: string
  inf_RuntimeProbe :: string
  inf_RuntimeProbeOK :: bool
  inf_RuntimeProbeOutput :: string

definition AgentContract :: string where
  "AgentContract = ''1''"

record Pod =
  pod_Phase :: string
  pod_PodIP :: string
  pod_DeletionTimestamp :: "time option"
  pod_Conditions :: "(string \<times> string) list"
  pod_ContainerStatuses :: "string list"

text \<open>A container of the template's pod: not a map, a map without an image string, or its image.\<close>

record SandboxTemplate =
  tm_Name :: string
  tm_Containers :: "string option option list nested"

record ValidationResult =
  vres_Template :: string
  vres_Image :: string
  vres_ImageID :: string
  vres_Language :: string
  vres_Valid :: bool
  vres_Reason :: string
  vres_CheckedAt :: time

datatype result_json = ResultJson ValidationResult | BadJson string

definition slotLanguage :: "string \<rightharpoonup> string" where
  "slotLanguage = [''static-nginx'' \<mapsto> ''static'', ''node-24'' \<mapsto> ''node'', ''python-313'' \<mapsto> ''python'',
     ''go-123'' \<mapsto> ''go'', ''base-al2023'' \<mapsto> ''base'']"

definition ExpectedLanguage :: "string \<Rightarrow> string option" where
  "ExpectedLanguage slot = slotLanguage slot"

definition newResult :: "string \<Rightarrow> string \<Rightarrow> string \<Rightarrow> time \<Rightarrow> ValidationResult" where
  "newResult slot img imageID now =
     \<lparr>vres_Template = slot, vres_Image = img, vres_ImageID = imageID, vres_Language = '''', vres_Valid = False,
      vres_Reason = '''', vres_CheckedAt = now\<rparr>"

definition evaluate :: "string \<Rightarrow> string \<Rightarrow> string \<Rightarrow> (string, InfoResponse) result \<Rightarrow> time \<Rightarrow> ValidationResult" where
  "evaluate slot img imageID answer now =
     (let r = newResult slot img imageID now in
      case answer of
        Inl e \<Rightarrow> r\<lparr>vres_Reason := ''agent /info unreachable (image may not embed vibed-agent or failed to start): '' @ e\<rparr>
      | Inr info \<Rightarrow>
          let r1 = r\<lparr>vres_Language := inf_Language info\<rparr> in
          if inf_AgentContract info \<noteq> AgentContract then
            r1\<lparr>vres_Reason := ''agent contract '' @ Quote (inf_AgentContract info) @ '' does not match vibeD's '' @ Quote AgentContract\<rparr>
          else if (case ExpectedLanguage slot of None \<Rightarrow> False | Some want \<Rightarrow> inf_Language info \<noteq> want) then
            r1\<lparr>vres_Reason := ''expected language '' @ Quote (the (ExpectedLanguage slot)) @ '' for slot '' @ Quote slot @
              '' but image declares '' @ Quote (inf_Language info)\<rparr>
          else if inf_RuntimeProbe info = '''' then
            r1\<lparr>vres_Reason := ''image declares no VIBED_RUNTIME_PROBE (cannot prove the language runtime is present)''\<rparr>
          else if \<not> inf_RuntimeProbeOK info then
            r1\<lparr>vres_Reason := ''runtime probe '' @ Quote (inf_RuntimeProbe info) @ '' failed: '' @ inf_RuntimeProbeOutput info\<rparr>
          else r1\<lparr>vres_Valid := True\<rparr>)"

definition firstContainerImageID :: "Pod \<Rightarrow> string" where
  "firstContainerImageID p = (case pod_ContainerStatuses p of [] \<Rightarrow> '''' | i # _ \<Rightarrow> i)"

definition firstContainerImage :: "SandboxTemplate \<Rightarrow> string" where
  "firstContainerImage t = (case tm_Containers t of
      Nested cs \<Rightarrow> (case cs of [] \<Rightarrow> '''' | c # _ \<Rightarrow> (case c of Some (Some img) \<Rightarrow> img | _ \<Rightarrow> ''''))
    | _ \<Rightarrow> '''')"

fun podReady :: "(string \<times> string) list \<Rightarrow> bool" where
  "podReady [] = False"
| "podReady ((t, s) # cs) = (if t = ''Ready'' \<and> s = ''True'' then True else podReady cs)"

fun pickReady :: "Pod list \<Rightarrow> (string \<times> string) option" where
  "pickReady [] = None"
| "pickReady (p # ps) =
     (if pod_Phase p \<noteq> ''Running'' \<or> pod_PodIP p = '''' \<or> pod_DeletionTimestamp p \<noteq> None then pickReady ps
      else if \<not> podReady (pod_Conditions p) then pickReady ps
      else Some (pod_PodIP p, firstContainerImageID p))"

text \<open>\<open>pods slot\<close>: the answer to listing the pods that carry the slot's label.\<close>

definition readyPod :: "(string \<Rightarrow> (kerr, Pod list) result) \<Rightarrow> string \<Rightarrow> (string \<times> string) option" where
  "readyPod pods slot = (case pods slot of Inl e \<Rightarrow> None | Inr ps \<Rightarrow> pickReady ps)"

definition CurrentImageID :: "(string \<Rightarrow> (kerr, Pod list) result) \<Rightarrow> string \<Rightarrow> string option" where
  "CurrentImageID pods slot = map_option snd (readyPod pods slot)"

record validator_world =
  vw_Templates :: "(kerr, SandboxTemplate list) result"
  vw_Pods :: "string \<Rightarrow> (kerr, Pod list) result"
  vw_Info :: "string \<Rightarrow> (string, InfoResponse) result"
  vw_Now :: "string \<Rightarrow> time"
  vw_AppPort :: int

definition validateSlot :: "validator_world \<Rightarrow> SandboxTemplate \<Rightarrow> ValidationResult" where
  "validateSlot w t =
     (let slot = tm_Name t; img = firstContainerImage t; port = (if vw_AppPort w = 0 then 9000 else vw_AppPort w) in
      case readyPod (vw_Pods w) slot of
        None \<Rightarrow> (newResult slot img '''' (vw_Now w slot))
          \<lparr>vres_Reason := ''no Ready warm-pool pod for this slot (image may be failing to start '' @ em_dash @ '' check the pod)''\<rparr>
      | Some (podIP, imageID) \<Rightarrow> evaluate slot img imageID (vw_Info w (podIP @ '':'' @ Itoa port)) (vw_Now w slot))"

definition ValidateAll :: "validator_world \<Rightarrow> (string, ValidationResult list) result" where
  "ValidateAll w = (case vw_Templates w of
      Inl e \<Rightarrow> Err (''list SandboxTemplates: '' @ kerr_Error e)
    | Inr ts \<Rightarrow> Ok (map (validateSlot w) ts))"

subsection \<open>Recording and reading results\<close>

type_synonym validation_data = "string \<rightharpoonup> result_json"

datatype cm_call = CMCreate validation_data | CMUpdate validation_data

definition resultData :: "ValidationResult list \<Rightarrow> validation_data" where
  "resultData results = fold (\<lambda>r d. d(vres_Template r \<mapsto> ResultJson r)) results Map.empty"

definition Persist :: "(kerr, validation_data) result \<Rightarrow> ValidationResult list \<Rightarrow> cm_call" where
  "Persist got results = (case got of
      Inl e \<Rightarrow> CMCreate (resultData results)
    | Inr cm \<Rightarrow> CMUpdate (resultData results))"

definition LoadResult :: "(kerr, validation_data) result \<Rightarrow> string \<Rightarrow> (string, ValidationResult option) result" where
  "LoadResult got slot = (case got of
      Inl e \<Rightarrow> Err (kerr_Error e)
    | Inr cm \<Rightarrow> (case cm slot of
        None \<Rightarrow> Ok None
      | Some (BadJson e) \<Rightarrow> Err e
      | Some (ResultJson r) \<Rightarrow> Ok (Some r)))"

subsection \<open>The gate\<close>

definition shortID :: "string \<Rightarrow> string" where
  "shortID i = (if length i > 12 then [CHR 0xE2, CHR 0x80, CHR 0xA6] @ drop (length i - 12) i else i)"

definition Allowed ::
  "bool \<Rightarrow> (kerr, validation_data) result \<Rightarrow> (string \<Rightarrow> (kerr, Pod list) result) \<Rightarrow> string \<Rightarrow> bool \<times> string" where
  "Allowed strict got pods template = (case LoadResult got template of
      Inl e \<Rightarrow> if strict then (False, ''template validation ConfigMap unreadable: '' @ e) else (True, '''')
    | Inr None \<Rightarrow>
        if strict then (False, ''template not yet validated (strict mode); the validator runs on a 2-minute interval'')
        else (True, '''')
    | Inr (Some res) \<Rightarrow>
        if \<not> vres_Valid res then (False, vres_Reason res)
        else if strict then
          if vres_ImageID res = '''' then
            (False, ''validation result has no recorded ImageID '' @ em_dash @ '' awaiting re-validation (strict mode)'')
          else (case CurrentImageID pods template of
              None \<Rightarrow> (False, ''no Ready warm-pool pod to check image identity against (strict mode)'')
            | Some liveID \<Rightarrow>
                if liveID \<noteq> vres_ImageID res then
                  (False, ''warm-pool pod image has changed since validation (was '' @ shortID (vres_ImageID res) @
                     '', now '' @ shortID liveID @ '') '' @ em_dash @ '' awaiting re-validation'')
                else (True, ''''))
        else (True, ''''))"

subsection \<open>What the gate promises\<close>

text \<open>A pod a sandbox can be claimed from.\<close>

definition usable :: "Pod \<Rightarrow> bool" where
  "usable p \<longleftrightarrow> pod_Phase p = ''Running'' \<and> pod_PodIP p \<noteq> '''' \<and> pod_DeletionTimestamp p = None \<and>
     (''Ready'', ''True'') \<in> set (pod_Conditions p)"

text \<open>The image keeps the contract of its slot.\<close>

definition contract_ok :: "string \<Rightarrow> InfoResponse \<Rightarrow> bool" where
  "contract_ok slot info \<longleftrightarrow> inf_AgentContract info = AgentContract \<and>
     (\<forall>want. ExpectedLanguage slot = Some want \<longrightarrow> inf_Language info = want) \<and>
     inf_RuntimeProbe info \<noteq> '''' \<and> inf_RuntimeProbeOK info"

lemma podReady_iff: "podReady cs \<longleftrightarrow> (''Ready'', ''True'') \<in> set cs"
  by (induction cs rule: podReady.induct) auto

lemma pickReady_Some:
  "pickReady ps = Some (ip, i) \<Longrightarrow> \<exists>p \<in> set ps. usable p \<and> pod_PodIP p = ip \<and> firstContainerImageID p = i"
  by (induction ps) (auto simp: usable_def podReady_iff split: if_splits)

lemma readyPod_Some:
  "readyPod pods slot = Some (ip, i) \<Longrightarrow>
   \<exists>ps p. pods slot = Ok ps \<and> p \<in> set ps \<and> usable p \<and> pod_PodIP p = ip \<and> firstContainerImageID p = i"
  using pickReady_Some by (fastforce simp: readyPod_def split: sum.splits)

lemma evaluate_Template [simp]: "vres_Template (evaluate slot img i answer now) = slot"
  by (simp add: evaluate_def newResult_def Let_def split: sum.split)

lemma evaluate_ImageID [simp]: "vres_ImageID (evaluate slot img i answer now) = i"
  by (simp add: evaluate_def newResult_def Let_def split: sum.split)

lemma evaluate_Valid: "vres_Valid (evaluate slot img i answer now) \<longleftrightarrow> (\<exists>info. answer = Ok info \<and> contract_ok slot info)"
  by (auto simp: evaluate_def newResult_def contract_ok_def Let_def split: sum.split option.split)

lemma validateSlot_Template [simp]: "vres_Template (validateSlot w t) = tm_Name t"
  by (simp add: validateSlot_def newResult_def Let_def split: option.split prod.split)

lemma validateSlot_Valid:
  assumes "vres_Valid (validateSlot w t)"
  obtains ps p info port where "vw_Pods w (tm_Name t) = Ok ps" "p \<in> set ps" "usable p"
    "vw_Info w (pod_PodIP p @ '':'' @ port) = Ok info" "contract_ok (tm_Name t) info"
    "vres_ImageID (validateSlot w t) = firstContainerImageID p"
proof (cases "readyPod (vw_Pods w) (tm_Name t)")
  case None
  with assms show thesis by (simp add: validateSlot_def newResult_def Let_def)
next
  case (Some q)
  obtain ip i where q: "q = (ip, i)" by (cases q)
  with readyPod_Some Some obtain ps p where p: "vw_Pods w (tm_Name t) = Ok ps" "p \<in> set ps" "usable p" "pod_PodIP p = ip"
    "firstContainerImageID p = i" by metis
  show thesis
    using that [OF p(1-3), of "Itoa (if vw_AppPort w = 0 then 9000 else vw_AppPort w)"] assms Some q p(4,5)
    by (auto simp: validateSlot_def Let_def evaluate_Valid simp del: append_assoc)
qed

lemma resultData_Some:
  "resultData rs slot = Some j \<Longrightarrow> \<exists>r \<in> set rs. vres_Template r = slot \<and> j = ResultJson r"
  unfolding resultData_def by (induction rs rule: rev_induct) (auto split: if_splits)

lemma Allowed_strict:
  assumes "Allowed True got pods slot = (True, reason)"
  obtains d res ps p where "got = Ok d" "d slot = Some (ResultJson res)" "vres_Valid res" "vres_ImageID res \<noteq> ''''"
    "pods slot = Ok ps" "p \<in> set ps" "usable p" "firstContainerImageID p = vres_ImageID res"
proof -
  from assms obtain d res ip where d: "got = Ok d" "d slot = Some (ResultJson res)" "vres_Valid res" "vres_ImageID res \<noteq> ''''"
    "readyPod pods slot = Some (ip, vres_ImageID res)"
    by (auto simp: Allowed_def LoadResult_def CurrentImageID_def split: sum.splits option.splits if_splits result_json.splits)
  from readyPod_Some [OF d(5)] d that show thesis by blast
qed

text \<open>In strict mode the gate admits a template only if the recorded result stems from a usable pod of
  that slot whose agent answered, spoke vibeD's contract, declared the slot's language and passed its
  runtime probe, and a usable pod of the slot runs the very same image now.\<close>

theorem strict_gate_admits_only_validated:
  assumes "ValidateAll w = Ok results" and "Persist got results \<in> {CMCreate d, CMUpdate d}"
    and "Allowed True (Ok d) pods slot = (True, reason)"
  shows "\<exists>ps p info port now_ps q. vw_Pods w slot = Ok ps \<and> p \<in> set ps \<and> usable p \<and>
     vw_Info w (pod_PodIP p @ '':'' @ port) = Ok info \<and> contract_ok slot info \<and>
     pods slot = Ok now_ps \<and> q \<in> set now_ps \<and> usable q \<and>
     firstContainerImageID q = firstContainerImageID p \<and> firstContainerImageID p \<noteq> ''''"
proof -
  have d: "d = resultData results" using assms(2) by (auto simp: Persist_def split: sum.splits)
  from assms(3) obtain d' res ps q where g: "Ok d = (Ok d' :: (kerr, validation_data) result)" "d' slot = Some (ResultJson res)"
    "vres_Valid res" "vres_ImageID res \<noteq> ''''" "pods slot = Ok ps" "q \<in> set ps" "usable q"
    "firstContainerImageID q = vres_ImageID res" by (rule Allowed_strict)
  from g(1,2) d resultData_Some obtain t where t: "res = validateSlot w t" "tm_Name t = slot"
    using assms(1) by (fastforce simp: ValidateAll_def split: sum.splits)
  from g(3) t(1) validateSlot_Valid [of w t] t(2) g(4-8) show ?thesis by metis
qed

text \<open>In the default mode the gate blocks exactly the templates that are on record as invalid, with the
  recorded reason.\<close>

theorem default_gate_blocks_only_known_bad:
  "Allowed False got pods slot = (False, reason) \<longleftrightarrow>
   (\<exists>d res. got = Ok d \<and> d slot = Some (ResultJson res) \<and> \<not> vres_Valid res \<and> reason = vres_Reason res)"
  by (auto simp: Allowed_def LoadResult_def split: sum.splits option.splits if_splits result_json.splits)

definition sample_pod :: Pod where
  "sample_pod = \<lparr>pod_Phase = ''Running'', pod_PodIP = ''10.0.0.1'', pod_DeletionTimestamp = None,
     pod_Conditions = [(''Ready'', ''True'')], pod_ContainerStatuses = [''sha256:1'']\<rparr>"

definition sample_world :: validator_world where
  "sample_world = \<lparr>vw_Templates = Ok [\<lparr>tm_Name = ''node-24'', tm_Containers = Nested [Some (Some ''img'')]\<rparr>],
     vw_Pods = (\<lambda>_. Ok [sample_pod]),
     vw_Info = (\<lambda>_. Ok \<lparr>inf_AgentContract = ''1'', inf_Language = ''node'', inf_RuntimeProbe = ''node --version'',
       inf_RuntimeProbeOK = True, inf_RuntimeProbeOutput = ''''\<rparr>),
     vw_Now = (\<lambda>_. 7), vw_AppPort = 0\<rparr>"

theorem strict_gate_admits_only_validated_witness:
  "\<exists>info port. vw_Info sample_world (''10.0.0.1'' @ '':'' @ port) = Ok info \<and> contract_ok ''node-24'' info"
proof -
  obtain rs where rs: "ValidateAll sample_world = Ok rs" by (simp add: ValidateAll_def sample_world_def)
  have "Persist (Inl (KNotFound '''')) rs = CMCreate (resultData rs)" by (simp add: Persist_def)
  moreover have "Allowed True (Ok (resultData rs)) (\<lambda>_. Ok [sample_pod]) ''node-24'' = (True, '''')"
    using rs
    by (auto simp: ValidateAll_def sample_world_def sample_pod_def validateSlot_def readyPod_def evaluate_def newResult_def
        Let_def ExpectedLanguage_def slotLanguage_def AgentContract_def resultData_def Allowed_def LoadResult_def
        CurrentImageID_def firstContainerImageID_def)
  ultimately show ?thesis
    using strict_gate_admits_only_validated [OF rs, of "Inl (KNotFound '''')" "resultData rs" "\<lambda>_. Ok [sample_pod]" "''node-24''" "''''"]
    by (auto simp: sample_world_def sample_pod_def)
qed

end
