(* ===== verification/Garbage_Collector.thy ===== *)
theory Garbage_Collector
  imports Kube
begin

section \<open>The claim garbage collector\<close>

text \<open>
  \<open>src/internal/gc/collector.go\<close>: a cycle lists the live apps, page by page, and then deletes the
  sandbox claims whose app is gone.  The API server is a pair of paged listings: the answer to the
  \<open>i\<close>-th call of a cycle with a continue token is an error or a page and the next token.  Nothing bounds
  the number of pages, so the two loops are partial functions; \<open>serves\<close> says that a listing comes to an
  end, and the loops are shown to return then.  \<open>clock c\<close> is the time at which claim \<open>c\<close> is examined.
  The deletes of a cycle run in a pool and are best effort; the result of a cycle is the number of claims
  reaped and the names whose deletion was scheduled.
\<close>

type_synonym 'a paged = "nat \<Rightarrow> string \<Rightarrow> (kerr, 'a list \<times> string) result"

record GarbageCollector =
  gc_dynamicClient :: bool
  gc_maxAge :: duration
  gc_dryRun :: bool

partial_function (option) activeLoop ::
  "VibedApp paged \<Rightarrow> nat \<Rightarrow> string \<Rightarrow> string set \<Rightarrow> (kerr, string set) result option" where
  "activeLoop apps i cont active = (case apps i cont of
      Inl e \<Rightarrow> Some (Inl e)
    | Inr (items, next) \<Rightarrow>
        (let active' = active \<union> set (map app_Name items) in
         if next = '''' then Some (Inr active') else activeLoop apps (i + 1) next active'))"

definition listActiveApps :: "VibedApp paged \<Rightarrow> (kerr, string set) result option" where
  "listActiveApps apps = activeLoop apps 0 '''' {}"

text \<open>One claim: skipped, or reaped with its deletion scheduled unless this is a dry run.\<close>

definition sweepClaim ::
  "GarbageCollector \<Rightarrow> (SandboxClaim \<Rightarrow> time) \<Rightarrow> string set \<Rightarrow> SandboxClaim \<Rightarrow> nat \<times> string list \<Rightarrow> nat \<times> string list" where
  "sweepClaim gc clock active claim acc =
     (case acc of (reaped, dels) \<Rightarrow>
      let app = label_get (cl_Labels claim) labelApp in
      if app = '''' \<or> app \<in> active then (reaped, dels)
      else if clock claim - cl_CreationTimestamp claim < gc_maxAge gc then (reaped, dels)
      else if gc_dryRun gc then (reaped + 1, dels)
      else (reaped + 1, dels @ [cl_Name claim]))"

partial_function (option) sweepLoop ::
  "GarbageCollector \<Rightarrow> (SandboxClaim \<Rightarrow> time) \<Rightarrow> string set \<Rightarrow> SandboxClaim paged \<Rightarrow> nat \<Rightarrow> string \<Rightarrow>
   nat \<times> string list \<Rightarrow> (nat \<times> string list) option" where
  "sweepLoop gc clock active claims i cont acc = (case claims i cont of
      Inl e \<Rightarrow> Some acc
    | Inr (items, next) \<Rightarrow>
        (let acc' = fold (sweepClaim gc clock active) items acc in
         if next = '''' then Some acc' else sweepLoop gc clock active claims (i + 1) next acc'))"

definition cleanOrphanedClaims ::
  "GarbageCollector \<Rightarrow> (SandboxClaim \<Rightarrow> time) \<Rightarrow> SandboxClaim paged \<Rightarrow> string set \<Rightarrow> (nat \<times> string list) option" where
  "cleanOrphanedClaims gc clock claims active =
     (if \<not> gc_dynamicClient gc then Some (0, []) else sweepLoop gc clock active claims 0 '''' (0, []))"

definition collect ::
  "GarbageCollector \<Rightarrow> (SandboxClaim \<Rightarrow> time) \<Rightarrow> VibedApp paged \<Rightarrow> SandboxClaim paged \<Rightarrow> (nat \<times> string list) option" where
  "collect gc clock apps claims = (case listActiveApps apps of
      None \<Rightarrow> None
    | Some (Inl e) \<Rightarrow> Some (0, [])
    | Some (Inr active) \<Rightarrow> cleanOrphanedClaims gc clock claims active)"

subsection \<open>Listings that end\<close>

text \<open>\<open>serves l i cont pages stop\<close>: from call \<open>i\<close> with token \<open>cont\<close> the listing gives these pages and then
  ends, regularly (\<open>None\<close>) or with an error.\<close>

inductive serves :: "'a paged \<Rightarrow> nat \<Rightarrow> string \<Rightarrow> 'a list list \<Rightarrow> kerr option \<Rightarrow> bool" where
  fails: "l i cont = Inl e \<Longrightarrow> serves l i cont [] (Some e)"
| final: "l i cont = Inr (items, '''') \<Longrightarrow> serves l i cont [items] None"
| more: "l i cont = Inr (items, next) \<Longrightarrow> next \<noteq> '''' \<Longrightarrow> serves l (i + 1) next pages stop \<Longrightarrow>
     serves l i cont (items # pages) stop"

definition claim_app :: "SandboxClaim \<Rightarrow> string" where
  "claim_app c = label_get (cl_Labels c) labelApp"

text \<open>What the collector is for: a claim that names an app, whose app is not live, and that is old enough.\<close>

definition orphan :: "GarbageCollector \<Rightarrow> (SandboxClaim \<Rightarrow> time) \<Rightarrow> string set \<Rightarrow> SandboxClaim \<Rightarrow> bool" where
  "orphan gc clock live c \<longleftrightarrow> claim_app c \<noteq> '''' \<and> claim_app c \<notin> live \<and>
     gc_maxAge gc \<le> clock c - cl_CreationTimestamp c"

lemma sweepClaim_orphan:
  "sweepClaim gc clock live c (n, ds) =
     (if orphan gc clock live c then (n + 1, if gc_dryRun gc then ds else ds @ [cl_Name c]) else (n, ds))"
  by (auto simp: sweepClaim_def orphan_def claim_app_def Let_def split: option.split)

lemma fold_sweepClaim:
  "fold (sweepClaim gc clock live) cs (n, ds) =
     (n + length (filter (orphan gc clock live) cs),
      ds @ (if gc_dryRun gc then [] else map cl_Name (filter (orphan gc clock live) cs)))"
  by (induction cs arbitrary: n ds) (simp_all add: sweepClaim_orphan)

lemma activeLoop_serves:
  "serves apps i cont pages stop \<Longrightarrow>
   activeLoop apps i cont active = Some (case stop of
       Some e \<Rightarrow> Inl e
     | None \<Rightarrow> Inr (active \<union> app_Name ` set (concat pages)))"
  by (induction arbitrary: active rule: serves.induct)
     (simp_all add: activeLoop.simps Let_def Un_assoc image_Un split: option.split)

lemma sweepLoop_serves:
  "serves claims i cont pages stop \<Longrightarrow>
   sweepLoop gc clock live claims i cont (n, ds) =
     Some (n + length (filter (orphan gc clock live) (concat pages)),
       ds @ (if gc_dryRun gc then [] else map cl_Name (filter (orphan gc clock live) (concat pages))))"
proof (induction arbitrary: n ds rule: serves.induct)
  case (more l i cont items "next" pages stop)
  show ?case
    using more.IH [of "n + length (filter (orphan gc clock live) items)"
        "ds @ (if gc_dryRun gc then [] else map cl_Name (filter (orphan gc clock live) items))"] more.hyps
    by (simp add: sweepLoop.simps [of gc clock live l i cont] Let_def fold_sweepClaim add.assoc)
qed (simp_all add: sweepLoop.simps Let_def fold_sweepClaim)

text \<open>C31: A cycle over listings that end returns.  If the app listing fails it does nothing; otherwise it
  reaps exactly the orphans among the claims it was shown, also when the claim listing fails half-way,
  and schedules their deletion unless it is a dry run.\<close>

theorem gc_cycle_exact:
  assumes "serves apps 0 '''' apages astop" and "serves claims 0 '''' cpages cstop" and "gc_dynamicClient gc"
  shows "collect gc clock apps claims = Some (if astop \<noteq> None then (0, [])
     else let os = filter (orphan gc clock (app_Name ` set (concat apages))) (concat cpages)
          in (length os, if gc_dryRun gc then [] else map cl_Name os))"
  using activeLoop_serves [OF assms(1), of "{}"] sweepLoop_serves [OF assms(2), of gc clock _ 0 "[]"] assms(3)
  by (cases astop) (simp_all add: collect_def listActiveApps_def cleanOrphanedClaims_def Let_def)
subsection \<open>No live app loses its claim\<close>

text \<open>Was shown to the sweep.\<close>

definition served :: "'a paged \<Rightarrow> 'a \<Rightarrow> bool" where
  "served l x \<longleftrightarrow> (\<exists>i cont items nxt. l i cont = Inr (items, nxt) \<and> x \<in> set items)"

lemma servedI: "l i cont = Inr (items, nxt) \<Longrightarrow> x \<in> set items \<Longrightarrow> served l x"
  by (auto simp: served_def)

lemma sweepLoop_only_orphans:
  assumes "sweepLoop gc clock live claims i cont (n, ds) = Some out" and "name \<in> set (snd out)" "name \<notin> set ds"
  shows "\<not> gc_dryRun gc \<and> (\<exists>c. served claims c \<and> cl_Name c = name \<and> orphan gc clock live c)"
proof -
  have "name \<in> set (snd out) \<longrightarrow> name \<notin> set (snd acc) \<longrightarrow>
      \<not> gc_dryRun gc \<and> (\<exists>c. served claims c \<and> cl_Name c = name \<and> orphan gc clock live c)"
    if "sweepLoop gc clock live claims i cont acc = Some out" for acc
    using that
  proof (induction rule: sweepLoop.raw_induct [rotated, consumes 1, case_names step])
    case (step loop gc clock live claims i cont acc out)
    obtain n ds where acc: "acc = (n, ds)" by (cases acc)
    show ?case
    proof (cases "claims i cont")
      case (Inl e)
      with step(2) acc show ?thesis by auto
    next
      case (Inr page)
      obtain items nxt where p: "page = (items, nxt)" by (cases page)
      let ?os = "filter (orphan gc clock live) items"
      let ?acc = "(n + length ?os, ds @ (if gc_dryRun gc then [] else map cl_Name ?os))"
      have here: "name \<in> set (snd ?acc) \<Longrightarrow> name \<notin> set ds \<Longrightarrow>
          \<not> gc_dryRun gc \<and> (\<exists>c. served claims c \<and> cl_Name c = name \<and> orphan gc clock live c)"
        using servedI [of claims i cont items nxt] Inr p by (auto split: if_splits)
      show ?thesis
      proof (cases "nxt = ''''")
        case True
        with step(2) Inr p acc have "out = ?acc" by (simp add: fold_sweepClaim Let_def)
        with here acc show ?thesis by auto
      next
        case False
        with step(2) Inr p acc have "loop gc clock live claims (i + 1) nxt ?acc = Some out"
          by (simp add: fold_sweepClaim Let_def)
        from step(1) [OF this] here acc show ?thesis by auto
      qed
    qed
  qed
  from this [of "(n, ds)"] assms show ?thesis by simp
qed

text \<open>Whatever the API server answers: a claim is deleted only by a real run, after the live apps were
  listed to the end, and only if the claim names an app that is not among them and has reached the
  maximal age.\<close>

theorem gc_deletes_only_orphans:
  assumes "collect gc clock apps claims = Some (n, ds)" and "name \<in> set ds"
  shows "\<not> gc_dryRun gc \<and> (\<exists>live c. listActiveApps apps = Some (Ok live) \<and> served claims c \<and>
     cl_Name c = name \<and> claim_app c \<noteq> '''' \<and> claim_app c \<notin> live \<and>
     gc_maxAge gc \<le> clock c - cl_CreationTimestamp c)"
proof -
  obtain live where l: "listActiveApps apps = Some (Ok live)" "cleanOrphanedClaims gc clock claims live = Some (n, ds)"
    using assms by (auto simp: collect_def split: option.splits sum.splits)
  with assms(2) have "sweepLoop gc clock live claims 0 '''' (0, []) = Some (n, ds)"
    by (auto simp: cleanOrphanedClaims_def split: if_splits)
  from sweepLoop_only_orphans [OF this] assms(2) l(1) show ?thesis by (auto simp: orphan_def)
qed

subsection \<open>A cycle on concrete listings\<close>

definition sample_claim :: "string \<Rightarrow> time \<Rightarrow> SandboxClaim" where
  "sample_claim app created =
     \<lparr>cl_Name = app, cl_Namespace = ''ns'', cl_Labels = [labelApp \<mapsto> app], cl_CreationTimestamp = created,
      cl_OwnerReferences = [], cl_WarmPool = ''p'', cl_Env = [], cl_SandboxName = NestedMissing, cl_PodIPs = NestedMissing\<rparr>"

definition sample_apps :: "VibedApp paged" where
  "sample_apps i cont = (if cont = '''' then Ok ([sample_app ''ns'' ''a'' ''al''], ''t'') else Ok ([sample_app ''ns'' ''b'' ''al''], ''''))"

definition sample_claims :: "SandboxClaim paged" where
  "sample_claims i cont = Ok ([sample_claim ''b'' 0, sample_claim ''c'' 0, sample_claim ''d'' 95], '''')"

definition sample_gc :: GarbageCollector where
  "sample_gc = \<lparr>gc_dynamicClient = True, gc_maxAge = 10, gc_dryRun = False\<rparr>"

lemma sample_apps_served: "serves sample_apps 0 '''' [[sample_app ''ns'' ''a'' ''al''], [sample_app ''ns'' ''b'' ''al'']] None"
  by (rule serves.more [where ?next = "''t''"], simp_all add: sample_apps_def)
     (rule serves.final, simp add: sample_apps_def)

lemma sample_claims_served: "serves sample_claims 0 '''' [[sample_claim ''b'' 0, sample_claim ''c'' 0, sample_claim ''d'' 95]] None"
  by (rule serves.final) (simp add: sample_claims_def)

theorem gc_cycle_exact_witness: "collect sample_gc (\<lambda>_. 100) sample_apps sample_claims = Some (1, [''c''])"
  using gc_cycle_exact [OF sample_apps_served sample_claims_served, of sample_gc "\<lambda>_. 100"]
  by (simp add: sample_gc_def orphan_def claim_app_def sample_claim_def label_get_def)

theorem gc_deletes_only_orphans_witness:
  "\<exists>live. listActiveApps sample_apps = Some (Ok live) \<and> ''c'' \<notin> live"
proof -
  have "collect sample_gc (\<lambda>_. 100) sample_apps sample_claims = Some (1, [''c''])"
    by (simp add: collect_def listActiveApps_def cleanOrphanedClaims_def sample_gc_def sample_apps_def sample_claims_def
        activeLoop.simps sweepLoop.simps sweepClaim_def sample_claim_def Let_def label_get_def)
  from gc_deletes_only_orphans [OF this, of "''c''"] show ?thesis
    by (auto simp: served_def sample_claims_def sample_claim_def claim_app_def label_get_def split: if_splits)
qed

end
