(* ===== verification/Ring_Buffer.thy ===== *)
theory Ring_Buffer
  imports Prelude
begin

section \<open>The log buffer of the runner agent\<close>

text \<open>
  \<open>src/internal/runneragent/ringbuffer.go\<close>: the last \<open>capacity\<close> complete lines a user process
  wrote, in a slice used circularly, and the bytes after the last newline.  The mutex makes every
  operation atomic, so a use of the buffer is a sequence of operations.  The contract of the buffer is
  the locale \<open>bounded_log\<close>, stated over the lines written so far with no indices in it; the circular
  slice is its instance \<open>ring\<close>.
\<close>

record ringBuffer =
  rb_capacity :: nat
  rb_buf :: "string list"
  rb_start :: nat
  rb_count :: nat
  rb_partial :: string

abbreviation newline :: byte where
  "newline \<equiv> CHR 0x0A"

definition newRingBuffer :: "int \<Rightarrow> ringBuffer" where
  "newRingBuffer capacity =
     (let c = (if capacity < 1 then 1 else nat capacity) in
      \<lparr>rb_capacity = c, rb_buf = replicate c '''', rb_start = 0, rb_count = 0, rb_partial = ''''\<rparr>)"

definition appendLine :: "string \<Rightarrow> ringBuffer \<Rightarrow> ringBuffer" where
  "appendLine line r =
     (let e = (rb_start r + rb_count r) mod rb_capacity r;
          r1 = r\<lparr>rb_buf := (rb_buf r)[e := line]\<rparr>
      in if rb_count r < rb_capacity r then r1\<lparr>rb_count := rb_count r + 1\<rparr>
         else r1\<lparr>rb_start := (rb_start r + 1) mod rb_capacity r\<rparr>)"

text \<open>The loop of \<open>Write\<close>: one round per newline in \<open>partial\<close>.\<close>

function writeLoop :: "ringBuffer \<Rightarrow> ringBuffer" where
  "writeLoop r = (case IndexByte (rb_partial r) newline of
      None \<Rightarrow> r
    | Some i \<Rightarrow> writeLoop ((appendLine (take i (rb_partial r)) r)\<lparr>rb_partial := drop (i + 1) (rb_partial r)\<rparr>))"
  by auto
termination
  by (relation "measure (\<lambda>r. length (rb_partial r))") (auto dest: IndexByte_Some)

declare writeLoop.simps [simp del]

definition maxPartial :: nat where
  "maxPartial = 64 * 1024"

definition Write :: "string \<Rightarrow> ringBuffer \<Rightarrow> ringBuffer" where
  "Write p r =
     (let r1 = writeLoop (r\<lparr>rb_partial := rb_partial r @ p\<rparr>) in
      if length (rb_partial r1) > maxPartial
      then (appendLine (rb_partial r1) r1)\<lparr>rb_partial := ''''\<rparr>
      else r1)"

definition snapshot :: "int \<Rightarrow> ringBuffer \<Rightarrow> string list" where
  "snapshot n r =
     (let hasPartial = (length (rb_partial r) > 0);
          total = (if hasPartial then rb_count r + 1 else rb_count r);
          tk = (if n > 0 \<and> n < int total then nat n else total)
      in if tk = 0 then []
         else let commitTake = (if hasPartial then tk - 1 else tk);
                  skip = rb_count r - commitTake
              in map (\<lambda>i. rb_buf r ! ((rb_start r + skip + i) mod rb_capacity r)) [0..<commitTake]
                 @ (if hasPartial then [rb_partial r] else []))"

definition reset :: "ringBuffer \<Rightarrow> ringBuffer" where
  "reset r = r\<lparr>rb_buf := map (\<lambda>_. '''') (rb_buf r), rb_start := 0, rb_count := 0, rb_partial := ''''\<rparr>"

subsection \<open>The contract\<close>

text \<open>The end of a list.\<close>

definition last_n :: "nat \<Rightarrow> 'a list \<Rightarrow> 'a list" where
  "last_n k xs = drop (length xs - k) xs"

lemma last_n_last_n_append: "last_n k (last_n k xs @ ys) = last_n k (xs @ ys)"
  by (cases "length xs \<le> k") (simp_all add: last_n_def add.commute)

lemma last_n_all [simp]: "length xs \<le> k \<Longrightarrow> last_n k xs = xs"
  by (simp add: last_n_def)

lemma length_last_n [simp]: "length (last_n k xs) = min k (length xs)"
  by (auto simp: last_n_def)

text \<open>
  A log that forgets nothing: all complete lines so far, and the open line.  An open line longer than
  \<open>maxPartial\<close> is closed at the end of a write.
\<close>

type_synonym full_log = "string list \<times> string"

definition log_write :: "string \<Rightarrow> full_log \<Rightarrow> full_log" where
  "log_write p l = (case l of (ls, part) \<Rightarrow>
     let ws = split_on newline (part @ p) in
     if length (last ws) > maxPartial then (ls @ ws, '''') else (ls @ butlast ws, last ws))"

datatype log_op = LWrite string | LReset

fun log_do :: "log_op \<Rightarrow> full_log \<Rightarrow> full_log" where
  "log_do (LWrite p) l = log_write p l"
| "log_do LReset l = ([], '''')"

text \<open>What a reader is shown of a full log by a buffer of \<open>cap\<close> lines.\<close>

definition log_view :: "nat \<Rightarrow> int \<Rightarrow> full_log \<Rightarrow> string list" where
  "log_view cap n l = (case l of (ls, part) \<Rightarrow>
     let shown = last_n cap ls @ (if part = '''' then [] else [part]) in
     if n > 0 then last_n (nat n) shown else shown)"

locale bounded_log =
  fixes inv :: "'b \<Rightarrow> bool"
    and cap :: "'b \<Rightarrow> nat"
    and kept :: "'b \<Rightarrow> full_log"
    and new :: "int \<Rightarrow> 'b"
    and wr :: "string \<Rightarrow> 'b \<Rightarrow> 'b"
    and rs :: "'b \<Rightarrow> 'b"
    and snap :: "int \<Rightarrow> 'b \<Rightarrow> string list"
  assumes inv_new: "inv (new c)" and kept_new: "kept (new c) = ([], '''')" and cap_new: "cap (new c) = nat (max 1 c)"
    and inv_wr: "inv b \<Longrightarrow> inv (wr p b)" and cap_wr: "inv b \<Longrightarrow> cap (wr p b) = cap b"
    and kept_wr: "inv b \<Longrightarrow> kept (wr p b) = apfst (last_n (cap b)) (log_write p (kept b))"
    and inv_rs: "inv b \<Longrightarrow> inv (rs b)" and cap_rs: "inv b \<Longrightarrow> cap (rs b) = cap b"
    and kept_rs: "inv b \<Longrightarrow> kept (rs b) = ([], '''')"
    and snap_view: "inv b \<Longrightarrow> snap n b = log_view (cap b) n (kept b)"
    and kept_bound: "inv b \<Longrightarrow> length (fst (kept b)) \<le> cap b"
begin

fun op_do :: "log_op \<Rightarrow> 'b \<Rightarrow> 'b" where
  "op_do (LWrite p) b = wr p b"
| "op_do LReset b = rs b"

text \<open>The buffer keeps the end of the full log, whatever was done to both.\<close>

lemma op_do_refines:
  assumes "inv b" "kept b = apfst (last_n (cap b)) l"
  shows "inv (op_do x b) \<and> cap (op_do x b) = cap b \<and> kept (op_do x b) = apfst (last_n (cap b)) (log_do x l)"
proof (cases x)
  case (LWrite p)
  obtain ls part where l: "l = (ls, part)" by (cases l)
  show ?thesis using assms LWrite l
    by (auto simp: inv_wr cap_wr kept_wr log_write_def Let_def last_n_last_n_append)
next
  case LReset
  with assms show ?thesis by (simp add: inv_rs cap_rs kept_rs)
qed

lemma run_refines:
  assumes "inv b" "kept b = apfst (last_n (cap b)) l"
  shows "inv (fold op_do xs b) \<and> cap (fold op_do xs b) = cap b \<and>
     kept (fold op_do xs b) = apfst (last_n (cap b)) (fold log_do xs l)"
  using assms
proof (induction xs arbitrary: b l)
  case (Cons x xs)
  from op_do_refines [OF Cons.prems, of x]
  have "inv (op_do x b)" "kept (op_do x b) = apfst (last_n (cap (op_do x b))) (log_do x l)" "cap (op_do x b) = cap b"
    by simp_all
  with Cons.IH [of "op_do x b" "log_do x l"] show ?case by simp
qed simp

lemma view_last_n: "log_view k n (apfst (last_n k) l) = log_view k n l"
  by (cases l) (simp add: log_view_def)

theorem snap_run:
  "snap n (fold op_do xs (new c)) = log_view (nat (max 1 c)) n (fold log_do xs ([], ''''))"
proof -
  have "kept (new c) = apfst (last_n (cap (new c))) ([], '''')" by (simp add: kept_new last_n_def)
  from run_refines [OF inv_new this, of xs] show ?thesis by (simp add: snap_view view_last_n cap_new)
qed

end

subsection \<open>The circular slice meets it\<close>

definition rb_inv :: "ringBuffer \<Rightarrow> bool" where
  "rb_inv r \<longleftrightarrow> length (rb_buf r) = rb_capacity r \<and> rb_start r < rb_capacity r \<and> rb_count r \<le> rb_capacity r"

definition rb_lines :: "ringBuffer \<Rightarrow> string list" where
  "rb_lines r = map (\<lambda>i. rb_buf r ! ((rb_start r + i) mod rb_capacity r)) [0..<rb_count r]"

definition rb_kept :: "ringBuffer \<Rightarrow> full_log" where
  "rb_kept r = (rb_lines r, rb_partial r)"

lemma length_rb_lines [simp]: "length (rb_lines r) = rb_count r"
  by (simp add: rb_lines_def)

lemma rb_lines_nth: "i < rb_count r \<Longrightarrow> rb_lines r ! i = rb_buf r ! ((rb_start r + i) mod rb_capacity r)"
  by (simp add: rb_lines_def)

lemma rb_partial_update [simp]:
  "rb_inv (r\<lparr>rb_partial := p\<rparr>) = rb_inv r" "rb_lines (r\<lparr>rb_partial := p\<rparr>) = rb_lines r"
  by (simp_all add: rb_inv_def rb_lines_def)

text \<open>Two live positions never share a slot.\<close>

lemma slot_inj:
  fixes i j c :: nat
  assumes "(s + i) mod c = (s + j) mod c" "i < c" "j < c"
  shows "i = j"
proof (rule ccontr)
  assume "i \<noteq> j"
  have *: False if "(s + m) mod c = (s + k) mod c" "m < k" "k < c" for m k
  proof -
    from that have "c dvd k - m" using mod_eq_dvd_iff_nat [of "s + m" "s + k" c] by simp
    with that show False by (simp add: nat_dvd_not_less)
  qed
  from \<open>i \<noteq> j\<close> consider "i < j" | "j < i" by linarith
  then show False using * [of i j] * [of j i] assms by cases auto
qed

lemma appendLine_room:
  assumes "rb_inv r" "rb_count r < rb_capacity r"
  shows "rb_lines (appendLine l r) = rb_lines r @ [l]"
proof (rule nth_equalityI)
  show "length (rb_lines (appendLine l r)) = length (rb_lines r @ [l])"
    using assms by (simp add: appendLine_def Let_def)
  fix i assume i: "i < length (rb_lines (appendLine l r))"
  then have le: "i \<le> rb_count r" using assms by (simp add: appendLine_def Let_def)
  have slot: "(rb_start r + i) mod rb_capacity r < length (rb_buf r)" using assms by (simp add: rb_inv_def)
  show "rb_lines (appendLine l r) ! i = (rb_lines r @ [l]) ! i"
  proof (cases "i = rb_count r")
    case True
    then show ?thesis using assms slot by (simp add: appendLine_def Let_def rb_lines_nth nth_append)
  next
    case False
    with le assms have "(rb_start r + rb_count r) mod rb_capacity r \<noteq> (rb_start r + i) mod rb_capacity r"
      using slot_inj [of "rb_start r" "rb_count r" "rb_capacity r" i] by auto
    then show ?thesis using False le assms by (simp add: appendLine_def Let_def rb_lines_nth nth_append)
  qed
qed

lemma appendLine_full:
  assumes "rb_inv r" "rb_count r = rb_capacity r"
  shows "rb_lines (appendLine l r) = tl (rb_lines r) @ [l]"
proof (rule nth_equalityI)
  let ?c = "rb_capacity r"
  have c: "0 < ?c" "rb_start r < ?c" "length (rb_buf r) = ?c" using assms by (simp_all add: rb_inv_def)
  show "length (rb_lines (appendLine l r)) = length (tl (rb_lines r) @ [l])"
    using assms c by (simp add: appendLine_def Let_def)
  fix i assume "i < length (rb_lines (appendLine l r))"
  then have i: "i < ?c" using assms by (simp add: appendLine_def Let_def)
  have shift: "((rb_start r + 1) mod ?c + i) mod ?c = (rb_start r + (i + 1)) mod ?c"
    by (simp add: mod_add_left_eq)
  show "rb_lines (appendLine l r) ! i = (tl (rb_lines r) @ [l]) ! i"
  proof (cases "i + 1 = ?c")
    case True
    then have "((rb_start r + 1) mod ?c + i) mod ?c = rb_start r" "\<not> i < ?c - Suc 0" using shift c by simp_all
    then show ?thesis using True assms c i by (simp add: appendLine_def Let_def rb_lines_nth nth_append)
  next
    case False
    have "(rb_start r + (i + 1)) mod ?c \<noteq> rb_start r"
      using slot_inj [of "rb_start r" "i + 1" ?c 0] False i c by auto
    moreover have "i < ?c - Suc 0" using False i by simp
    ultimately show ?thesis using assms c shift
      by (simp add: appendLine_def Let_def rb_lines_nth nth_append nth_tl)
  qed
qed

lemma appendLine_keeps:
  assumes "rb_inv r"
  shows "rb_inv (appendLine l r)" "rb_capacity (appendLine l r) = rb_capacity r"
    "rb_partial (appendLine l r) = rb_partial r" "rb_lines (appendLine l r) = last_n (rb_capacity r) (rb_lines r @ [l])"
proof -
  show "rb_inv (appendLine l r)" "rb_capacity (appendLine l r) = rb_capacity r" "rb_partial (appendLine l r) = rb_partial r"
    using assms by (auto simp: appendLine_def rb_inv_def Let_def)
  show "rb_lines (appendLine l r) = last_n (rb_capacity r) (rb_lines r @ [l])"
  proof (cases "rb_count r < rb_capacity r")
    case True
    then show ?thesis using assms by (simp add: appendLine_room)
  next
    case False
    with assms have f: "rb_count r = rb_capacity r" "0 < rb_capacity r" by (auto simp: rb_inv_def)
    then have "rb_lines r \<noteq> []" by (metis length_rb_lines list.size(3) less_numeral_extra(3))
    with f assms show ?thesis by (simp add: appendLine_full last_n_def drop_Suc tl_append split: list.split)
  qed
qed

lemma IndexByte_split:
  assumes "IndexByte s b = Some i"
  shows "split_on b s = take i s # split_on b (drop (Suc i) s)"
proof -
  from IndexByte_Some [OF assms] have "s = take i s @ b # drop (Suc i) s" "b \<notin> set (take i s)"
    using id_take_nth_drop by fastforce+
  then show ?thesis by (metis split_on_append)
qed

lemma writeLoop_keeps:
  assumes "rb_inv r"
  shows "rb_inv (writeLoop r) \<and> rb_capacity (writeLoop r) = rb_capacity r \<and>
     rb_kept (writeLoop r) =
       (last_n (rb_capacity r) (rb_lines r @ butlast (split_on newline (rb_partial r))),
        last (split_on newline (rb_partial r)))"
  using assms
proof (induction r rule: writeLoop.induct)
  case (1 r)
  show ?case
  proof (cases "IndexByte (rb_partial r) newline")
    case None
    then have "split_on newline (rb_partial r) = [rb_partial r]" by (simp add: IndexByte_None split_on_no_sep)
    with None 1(2) show ?thesis by (simp add: writeLoop.simps [of r] rb_kept_def rb_inv_def)
  next
    case (Some i)
    let ?r = "(appendLine (take i (rb_partial r)) r)\<lparr>rb_partial := drop (i + 1) (rb_partial r)\<rparr>"
    have "rb_inv ?r" using 1(2) by (simp add: appendLine_keeps)
    from 1(1) [OF Some this] show ?thesis
      using Some 1(2)
      by (simp add: writeLoop.simps [of r] IndexByte_split [OF Some] appendLine_keeps last_n_last_n_append
          del: split_on.simps)
  qed
qed

lemma Write_keeps:
  assumes "rb_inv r"
  shows "rb_inv (Write p r) \<and> rb_capacity (Write p r) = rb_capacity r \<and>
     rb_kept (Write p r) = apfst (last_n (rb_capacity r)) (log_write p (rb_kept r))"
proof -
  let ?r0 = "r\<lparr>rb_partial := rb_partial r @ p\<rparr>" let ?r1 = "writeLoop ?r0"
  let ?ws = "split_on newline (rb_partial r @ p)"
  have k: "rb_inv ?r1" "rb_capacity ?r1 = rb_capacity r" "rb_partial ?r1 = last ?ws"
    "rb_lines ?r1 = last_n (rb_capacity r) (rb_lines r @ butlast ?ws)"
    using writeLoop_keeps [of ?r0] assms by (simp_all add: rb_kept_def)
  show ?thesis
    using k by (simp add: Write_def Let_def rb_kept_def log_write_def appendLine_keeps last_n_last_n_append)
qed

lemma reset_keeps:
  assumes "rb_inv r"
  shows "rb_inv (reset r) \<and> rb_capacity (reset r) = rb_capacity r \<and> rb_kept (reset r) = ([], '''')"
  using assms by (auto simp: reset_def rb_inv_def rb_kept_def rb_lines_def)

lemma snapshot_view:
  assumes "rb_inv r"
  shows "snapshot n r = log_view (rb_capacity r) n (rb_kept r)"
proof -
  have slots: "map (\<lambda>i. rb_buf r ! ((rb_start r + (rb_count r - k) + i) mod rb_capacity r)) [0..<k] = last_n k (rb_lines r)"
    if "k \<le> rb_count r" for k
    using that by (intro nth_equalityI) (simp_all add: last_n_def rb_lines_nth add.assoc)
  have shown: "log_view (rb_capacity r) n (rb_kept r) =
      (let sh = rb_lines r @ (if rb_partial r = '''' then [] else [rb_partial r]) in
       if n > 0 then last_n (nat n) sh else sh)"
    using assms by (simp add: log_view_def rb_kept_def rb_inv_def Let_def)
  show ?thesis
  proof (cases "rb_partial r = ''''")
    case True
    then show ?thesis unfolding shown snapshot_def Let_def
      using slots [of "nat n"] slots [of "rb_count r"] by (auto simp: last_n_def)
  next
    case False
    have l: "last_n (nat n) (rb_lines r @ [rb_partial r]) = last_n (nat n - 1) (rb_lines r) @ [rb_partial r]" if "0 < n"
      using that by (simp add: last_n_def)
    show ?thesis unfolding shown snapshot_def Let_def
      using False slots [of "nat n - 1"] slots [of "rb_count r"] l by auto
  qed
qed

interpretation ring: bounded_log rb_inv rb_capacity rb_kept newRingBuffer Write reset snapshot
proof
  show "rb_inv (newRingBuffer c)" "rb_kept (newRingBuffer c) = ([], '''')" "rb_capacity (newRingBuffer c) = nat (max 1 c)" for c
    by (auto simp: newRingBuffer_def rb_inv_def rb_kept_def rb_lines_def Let_def)
qed (simp_all add: Write_keeps reset_keeps snapshot_view, simp add: rb_kept_def rb_inv_def)

subsection \<open>What a reader of the logs sees\<close>

fun rb_do :: "log_op \<Rightarrow> ringBuffer \<Rightarrow> ringBuffer" where
  "rb_do (LWrite p) r = Write p r"
| "rb_do LReset r = reset r"

lemma rb_do_ring: "rb_do = ring.op_do"
  by (intro ext, rename_tac x b, case_tac x) simp_all

text \<open>C12: Whatever is written and however often the buffer is reset and wraps around, a snapshot is the
  requested end of the last \<open>capacity\<close> lines of the log that forgets nothing.\<close>

theorem snapshot_is_log_tail:
  "snapshot n (fold rb_do xs (newRingBuffer c)) = log_view (nat (max 1 c)) n (fold log_do xs ([], ''''))"
  unfolding rb_do_ring by (rule ring.snap_run)

lemma split_on_prefix:
  "split_on b (u @ v) = butlast (split_on b u) @ split_on b (last (split_on b u) @ v)"
proof (induction u)
  case (Cons c u)
  show ?case
  proof (cases "c = b")
    case True
    with Cons show ?thesis by simp
  next
    case False
    obtain w ws where w: "split_on b u = w # ws" by (metis split_on_nonempty list.exhaust)
    show ?thesis
    proof (cases ws)
      case Nil
      then have "b \<notin> set u \<and> w = u" using w by (metis join_split_on join_with.simps(2) split_on_parts list.set_intros(1))
      then show ?thesis using False w Nil by simp
    next
      case (Cons v' vs)
      with Cons.IH w have "split_on b (u @ v) = w # butlast ws @ split_on b (last ws @ v)" by simp
      with False w Cons show ?thesis by simp
    qed
  qed
qed simp

lemma split_on_longer:
  assumes "w \<in> set (split_on b u)"
  shows "\<exists>w' \<in> set (split_on b (u @ v)). length w \<le> length w'"
proof -
  let ?l = "last (split_on b u)"
  have "set (split_on b u) = insert ?l (set (butlast (split_on b u)))"
    by (metis append_butlast_last_id split_on_nonempty set_append list.set(1,2) Un_insert_right sup_bot_right)
  with assms consider "w = ?l" | "w \<in> set (butlast (split_on b u))" by blast
  then show ?thesis
  proof cases
    case 1
    have nb: "b \<notin> set ?l" by (meson last_in_set split_on_nonempty split_on_parts)
    have "\<exists>t ts. split_on b (x @ v) = (x @ t) # ts" if "b \<notin> set x" for x
      using that
    proof (induction x)
      case Nil
      then show ?case by (metis append_Nil neq_Nil_conv split_on_nonempty)
    qed (auto split: list.split)
    with nb 1 obtain t ts where "split_on b (?l @ v) = (w @ t) # ts" by blast
    then have "w @ t \<in> set (split_on b (u @ v))" by (simp add: split_on_prefix [of b u v])
    then show ?thesis by (metis le_add1 length_append)
  next
    case 2
    then have "w \<in> set (split_on b (u @ v))" by (simp add: split_on_prefix [of b u v])
    then show ?thesis by blast
  qed
qed

lemma log_of_chunks:
  assumes "\<forall>w \<in> set (split_on newline (concat ps)). length w \<le> maxPartial"
  shows "fold log_write ps ([], '''') =
     (butlast (split_on newline (concat ps)), last (split_on newline (concat ps)))"
  using assms
proof (induction ps rule: rev_induct)
  case (snoc p ps)
  let ?ws = "split_on newline (concat ps)" let ?vs = "split_on newline (last ?ws @ p)"
  have all: "split_on newline (concat ps @ p) = butlast ?ws @ ?vs" by (rule split_on_prefix)
  have "\<forall>w \<in> set ?ws. length w \<le> maxPartial"
    using split_on_longer [of _ newline "concat ps" p] snoc.prems by fastforce
  note IH = snoc.IH [OF this]
  have "length (last ?vs) \<le> maxPartial" using snoc.prems all by simp
  then have "log_write p (butlast ?ws, last ?ws) = (butlast ?ws @ butlast ?vs, last ?vs)"
    by (simp add: log_write_def Let_def)
  then show ?case by (simp add: IH all butlast_append)
qed simp

lemma fold_rb_do_writes: "fold rb_do (map LWrite ps) r = fold Write ps r"
  by (induction ps arbitrary: r) simp_all

lemma fold_log_do_writes: "fold log_do (map LWrite ps) l = fold log_write ps l"
  by (induction ps arbitrary: l) simp_all

text \<open>How a process cuts its output into writes does not matter: as long as no line is longer than
  64 KiB, a snapshot is the requested end of the last \<open>capacity\<close> complete lines of the whole output,
  followed by the open line.\<close>

theorem logs_independent_of_chunks:
  assumes "\<forall>w \<in> set (split_on newline (concat ps)). length w \<le> maxPartial"
  shows "snapshot n (fold Write ps (newRingBuffer c)) =
     log_view (nat (max 1 c)) n (butlast (split_on newline (concat ps)), last (split_on newline (concat ps)))"
  using ring.snap_run [of n "map LWrite ps" c] log_of_chunks [OF assms]
  by (simp add: rb_do_ring [symmetric] fold_rb_do_writes fold_log_do_writes)

theorem logs_independent_of_chunks_witness:
  "snapshot 2 (fold Write [''ab'', ''c'' @ [newline] @ ''d'', [newline] @ ''e''] (newRingBuffer 1)) = [''d'', ''e'']"
proof -
  have "\<forall>w \<in> set (split_on newline (concat [''ab'', ''c'' @ [newline] @ ''d'', [newline] @ ''e''])). length w \<le> maxPartial"
    by (simp add: maxPartial_def)
  from logs_independent_of_chunks [OF this, of 2 1] show ?thesis by (simp add: log_view_def last_n_def)
qed

end
