(* ===== verification/Egress.thy ===== *)
theory Egress
  imports Kube "HOL-Library.Word"
begin

section \<open>Egress control\<close>

text \<open>
  \<open>src/internal/netguard/netguard.go\<close> classifies the addresses that must never be dialled;
  \<open>src/internal/egressauthz\<close> answers, for every outbound connection of a sandbox, whether its app may
  reach a host: \<open>match.go\<close> (the allow-list), \<open>resolver.go\<close> (which app has the source address),
  \<open>handler.go\<close> (the decision) and \<open>squidhelper.go\<close> (the proxy's side).  An address is a \<open>netip.Addr\<close>: invalid,
  32 bits, or 128 bits with a zone.  DNS, \<open>netip.ParseAddr\<close> and the HTTP transport are arguments.
\<close>

unbundle bit_operations_syntax

subsection \<open>Package net/netip\<close>

datatype Addr = InvalidAddr | V4 "32 word" | V6 "128 word" string

fun IsValid :: "Addr \<Rightarrow> bool" where
  "IsValid InvalidAddr = False"
| "IsValid _ = True"

definition v4 :: "32 word \<Rightarrow> nat \<Rightarrow> 32 word" where
  "v4 w i = drop_bit (24 - 8 * i) w AND 255"

definition v6u16 :: "128 word \<Rightarrow> nat \<Rightarrow> 128 word" where
  "v6u16 w i = drop_bit (112 - 16 * i) w AND 65535"

text \<open>\<open>Unmap\<close>: an IPv4-mapped IPv6 address becomes the IPv4 address.\<close>

fun Unmap :: "Addr \<Rightarrow> Addr" where
  "Unmap (V6 w z) = (if drop_bit 32 w = 65535 then V4 (ucast w) else V6 w z)"
| "Unmap a = a"

fun IsLoopback :: "Addr \<Rightarrow> bool" where
  "IsLoopback (V4 w) = (v4 w 0 = 127)"
| "IsLoopback (V6 w z) = (w = 1)"
| "IsLoopback InvalidAddr = False"

fun IsLinkLocalUnicast :: "Addr \<Rightarrow> bool" where
  "IsLinkLocalUnicast (V4 w) = (v4 w 0 = 169 \<and> v4 w 1 = 254)"
| "IsLinkLocalUnicast (V6 w z) = (v6u16 w 0 AND 0xffc0 = 0xfe80)"
| "IsLinkLocalUnicast InvalidAddr = False"

fun IsLinkLocalMulticast :: "Addr \<Rightarrow> bool" where
  "IsLinkLocalMulticast (V4 w) = (v4 w 0 = 224 \<and> v4 w 1 = 0 \<and> v4 w 2 = 0)"
| "IsLinkLocalMulticast (V6 w z) = (v6u16 w 0 AND 0xff0f = 0xff02)"
| "IsLinkLocalMulticast InvalidAddr = False"

fun IsInterfaceLocalMulticast :: "Addr \<Rightarrow> bool" where
  "IsInterfaceLocalMulticast (V6 w z) = (v6u16 w 0 AND 0xff0f = 0xff01)"
| "IsInterfaceLocalMulticast _ = False"

fun IsMulticast :: "Addr \<Rightarrow> bool" where
  "IsMulticast (V4 w) = (v4 w 0 AND 0xf0 = 0xe0)"
| "IsMulticast (V6 w z) = (drop_bit 120 w = 0xff)"
| "IsMulticast InvalidAddr = False"

fun IsPrivate :: "Addr \<Rightarrow> bool" where
  "IsPrivate (V4 w) = (v4 w 0 = 10 \<or> (v4 w 0 = 172 \<and> v4 w 1 AND 0xf0 = 16) \<or> (v4 w 0 = 192 \<and> v4 w 1 = 168))"
| "IsPrivate (V6 w z) = (drop_bit 120 w AND 0xfe = 0xfc)"
| "IsPrivate InvalidAddr = False"

text \<open>\<open>IsUnspecified\<close> compares with \<open>0.0.0.0\<close> and with \<open>::\<close> without a zone.\<close>

definition IsUnspecified :: "Addr \<Rightarrow> bool" where
  "IsUnspecified a \<longleftrightarrow> a = V4 0 \<or> a = V6 0 ''''"

fun WithZone :: "Addr \<Rightarrow> string \<Rightarrow> Addr" where
  "WithZone (V6 w z) zone = V6 w zone"
| "WithZone a zone = a"

subsection \<open>Package netguard\<close>

definition IsBlocked :: "Addr \<Rightarrow> bool" where
  "IsBlocked addr0 =
     (if \<not> IsValid addr0 then True
      else let addr = Unmap addr0 in
        IsLoopback addr \<or> IsLinkLocalUnicast addr \<or> IsLinkLocalMulticast addr \<or> IsInterfaceLocalMulticast addr \<or>
        IsMulticast addr \<or> IsPrivate addr \<or> IsUnspecified addr)"

text \<open>\<open>fd00:ec2::254\<close>\<close>

definition awsIMDSv6 :: Addr where
  "awsIMDSv6 = V6 0xfd000ec2000000000000000000000254 ''''"

definition IsLinkLocalOrLoopback :: "Addr \<Rightarrow> bool" where
  "IsLinkLocalOrLoopback addr0 =
     (if \<not> IsValid addr0 then True
      else let addr = Unmap addr0 in
        IsLoopback addr \<or> IsLinkLocalUnicast addr \<or> IsLinkLocalMulticast addr \<or> IsInterfaceLocalMulticast addr \<or>
        IsMulticast addr \<or> IsUnspecified addr \<or> WithZone addr '''' = awsIMDSv6)"

definition hostResolvesTo ::
  "(string \<Rightarrow> Addr option) \<Rightarrow> (string \<Rightarrow> (string, Addr list) result) \<Rightarrow> (Addr \<Rightarrow> bool) \<Rightarrow> string \<Rightarrow> (string, bool) result" where
  "hostResolvesTo parseAddr lookup blocked host = (case parseAddr host of
      Some addr \<Rightarrow> Ok (blocked addr)
    | None \<Rightarrow> (case lookup host of
        Inl e \<Rightarrow> Err e
      | Inr addrs \<Rightarrow> Ok (list_ex blocked addrs)))"

subsection \<open>The allow-list\<close>

text \<open>\<open>strconv.Atoi\<close> succeeds: an optional sign and decimal digits, within 64 bits.\<close>

definition atoi_ok :: "string \<Rightarrow> bool" where
  "atoi_ok s =
     (let neg = (s \<noteq> [] \<and> hd s = CHR ''-'');
          t = (if s \<noteq> [] \<and> (hd s = CHR ''-'' \<or> hd s = CHR ''+'') then tl s else s)
      in t \<noteq> [] \<and> list_all is_digit t \<and> digits_value t < (if neg then 2 ^ 63 + 1 else 2 ^ 63))"

definition normalizeHost :: "string \<Rightarrow> string" where
  "normalizeHost h0 =
     (let h = ToLower (TrimSpace h0);
          h' = (case LastIndexByte h (CHR '':'') of
                  None \<Rightarrow> h
                | Some i \<Rightarrow> if atoi_ok (drop (i + 1) h) then take i h else h)
      in TrimSuffix h' ''.'')"

definition matchOne :: "string \<Rightarrow> string \<Rightarrow> bool" where
  "matchOne pattern0 host =
     (let pattern = ToLower (TrimSpace pattern0) in
      if HasPrefix pattern ''*.'' then
        let dotted = ''.'' @ drop 2 pattern in HasSuffix host dotted \<and> length host > length dotted
      else host = pattern)"

definition Match :: "string list \<Rightarrow> string \<Rightarrow> bool" where
  "Match allowed host = (let h = normalizeHost host in if h = '''' then False else list_ex (\<lambda>p. matchOne p h) allowed)"

definition Authorize :: "string list \<Rightarrow> string list \<Rightarrow> string \<Rightarrow> bool" where
  "Authorize systemHosts allowedHosts host \<longleftrightarrow> Match systemHosts host \<or> Match allowedHosts host"

subsection \<open>The decision\<close>

text \<open>\<open>byPodIP ip\<close>: the answer to listing the apps whose \<open>status.podIP\<close> is \<open>ip\<close>.\<close>

definition AllowedFor :: "(string \<Rightarrow> (kerr, VibedApp list) result) \<Rightarrow> string \<Rightarrow> string list option" where
  "AllowedFor byPodIP srcIP =
     (if srcIP = '''' then None
      else case byPodIP srcIP of
        Inl e \<Rightarrow> None
      | Inr items \<Rightarrow> (case items of [] \<Rightarrow> None | a # _ \<Rightarrow> Some (egress_AllowedHosts (spec_Egress (app_Spec a)))))"

record authz_world =
  az_byPodIP :: "string \<Rightarrow> (kerr, VibedApp list) result"
  az_systemHosts :: "string list"
  az_parseAddr :: "string \<Rightarrow> Addr option"
  az_lookup :: "string \<Rightarrow> (string, Addr list) result"

text \<open>The status of the answer to \<open>GET /authz\<close>.\<close>

definition authz :: "authz_world \<Rightarrow> string \<Rightarrow> string \<Rightarrow> nat" where
  "authz z src host =
     (let allowed = (case AllowedFor (az_byPodIP z) src of None \<Rightarrow> [] | Some hs \<Rightarrow> hs) in
      if Authorize (az_systemHosts z) allowed host then
        (if hostResolvesTo (az_parseAddr z) (az_lookup z) IsLinkLocalOrLoopback (normalizeHost host) = Ok True then 403
         else 200)
      else 403)"

subsection \<open>The proxy helper\<close>

text \<open>\<open>strings.Fields\<close>\<close>

function Fields :: "string \<Rightarrow> string list" where
  "Fields s = (case dropWhile is_space s of
      [] \<Rightarrow> []
    | t \<Rightarrow> takeWhile (\<lambda>c. \<not> is_space c) t # Fields (dropWhile (\<lambda>c. \<not> is_space c) t))"
  by pat_completeness auto
termination
proof (relation "measure length")
  fix s x2 :: string and x21 x22
  assume a: "dropWhile is_space s = x21 # x22"
  then have "\<not> is_space x21" by (metis hd_dropWhile list.sel(1) list.distinct(1))
  moreover have "length (x21 # x22) \<le> length s" using a length_dropWhile_le [of is_space s] by simp
  ultimately show "(dropWhile (\<lambda>c. \<not> is_space c) (x21 # x22), s) \<in> measure length"
    using length_dropWhile_le [of "\<lambda>c. \<not> is_space c" x22] by simp
qed simp

declare Fields.simps [simp del]

definition parseHelperLine :: "string \<Rightarrow> string \<times> string \<times> string" where
  "parseHelperLine line = (case Fields line of
      [] \<Rightarrow> ('''', '''', '''')
    | [a] \<Rightarrow> ('''', a, '''')
    | a # b # _ \<Rightarrow> ('''', a, b))"

text \<open>\<open>net.SplitHostPort\<close>: the host, or an error.\<close>

definition SplitHostPort :: "string \<Rightarrow> string option" where
  "SplitHostPort hostport = (case LastIndexByte hostport (CHR '':'') of
      None \<Rightarrow> None
    | Some i \<Rightarrow>
        if hd hostport = CHR ''['' then
          (case IndexByte hostport (CHR '']'') of
             None \<Rightarrow> None
           | Some e \<Rightarrow>
               if e + 1 \<noteq> i then None
               else if CHR ''['' \<in> set (drop 1 hostport) then None
               else if CHR '']'' \<in> set (drop (e + 1) hostport) then None
               else Some (take (e - 1) (drop 1 hostport)))
        else
          let host = take i hostport in
          if CHR '':'' \<in> set host then None
          else if CHR ''['' \<in> set hostport \<or> CHR '']'' \<in> set hostport then None
          else Some host)"

definition hostFromURI :: "(string \<Rightarrow> string option) \<Rightarrow> string \<Rightarrow> string" where
  "hostFromURI urlHostname uri0 =
     (let uri = TrimSpace uri0 in
      if uri = '''' then ''''
      else if Contains uri ''://'' then (case urlHostname uri of None \<Rightarrow> '''' | Some h \<Rightarrow> h)
      else case SplitHostPort uri of
        Some host \<Rightarrow> host
      | None \<Rightarrow> if HasPrefix uri ''['' \<and> HasSuffix uri '']'' then take (length uri - 2) (drop 1 uri) else uri)"

text \<open>\<open>http src host\<close>: the status of the authz service's answer, or no answer.\<close>

definition allowEgress :: "(string \<Rightarrow> string \<Rightarrow> nat option) \<Rightarrow> string \<Rightarrow> string \<Rightarrow> bool" where
  "allowEgress http src host = (if host = '''' then False else http src host = Some 200)"

definition helperReply :: "(string \<Rightarrow> string option) \<Rightarrow> (string \<Rightarrow> string \<Rightarrow> nat option) \<Rightarrow> string \<Rightarrow> string option" where
  "helperReply urlHostname http text =
     (let line = TrimSpace text in
      if line = '''' then None
      else case parseHelperLine line of (i, src, uri) \<Rightarrow>
        let decision = (if allowEgress http src (hostFromURI urlHostname uri) then ''OK'' else ''ERR'')
        in Some ((if i \<noteq> '''' then i @ '' '' @ decision else decision) @ [CHR 0x0A]))"

subsection \<open>The blocked ranges\<close>

lemma and_shifted_mask: "n AND push_bit k (mask m) = push_bit k (take_bit m (drop_bit k n))" for n :: nat
  by (rule bit_eqI) (auto simp: bit_and_iff bit_push_bit_iff bit_mask_iff bit_take_bit_iff bit_drop_bit_eq)

lemma masks:
  "(255 :: nat) = mask 8" "(65535 :: nat) = mask 16" "(0xf0 :: nat) = push_bit 4 (mask 4)" "(0xffc0 :: nat) = push_bit 6 (mask 10)"
  "(0xfe :: nat) = push_bit 1 (mask 7)"
  by (simp_all add: mask_eq_exp_minus_1 push_bit_eq_mult)

lemma unat_v4: "unat (v4 w i) = unat w div 2 ^ (24 - 8 * i) mod 256"
proof -
  have "unat (v4 w i) = drop_bit (24 - 8 * i) (unat w) AND mask 8"
    by (simp add: v4_def unsigned_and_eq unat_drop_bit_eq masks [symmetric])
  then show ?thesis by (simp add: take_bit_eq_mask [symmetric] take_bit_eq_mod drop_bit_eq_div)
qed

lemma unat_v6u16: "unat (v6u16 w i) = unat w div 2 ^ (112 - 16 * i) mod 65536"
proof -
  have "unat (v6u16 w i) = drop_bit (112 - 16 * i) (unat w) AND mask 16"
    by (simp add: v6u16_def unsigned_and_eq unat_drop_bit_eq masks [symmetric])
  then show ?thesis by (simp add: take_bit_eq_mask [symmetric] take_bit_eq_mod drop_bit_eq_div)
qed

lemma and_f0: "n AND 0xf0 = 16 * (n div 16 mod 16)" for n :: nat
  unfolding masks and_shifted_mask by (simp add: push_bit_eq_mult take_bit_eq_mod drop_bit_eq_div)

lemma and_ffc0: "n AND 0xffc0 = 64 * (n div 64 mod 1024)" for n :: nat
  unfolding masks and_shifted_mask by (simp add: push_bit_eq_mult take_bit_eq_mod drop_bit_eq_div)

lemma and_fe: "n AND 0xfe = 2 * (n div 2 mod 128)" for n :: nat
  unfolding masks and_shifted_mask by (simp add: push_bit_eq_mult take_bit_eq_mod drop_bit_eq_div)

text \<open>The network \<open>a.b.c.d/len\<close>, and an IPv6 network by its first 16 bits.\<close>

definition cidr4 :: "nat \<Rightarrow> nat \<Rightarrow> nat \<Rightarrow> nat \<Rightarrow> nat \<Rightarrow> 32 word \<Rightarrow> bool" where
  "cidr4 a b c d len w \<longleftrightarrow> unat w div 2 ^ (32 - len) = (((a * 256 + b) * 256 + c) * 256 + d) div 2 ^ (32 - len)"

definition cidr6 :: "nat \<Rightarrow> nat \<Rightarrow> 128 word \<Rightarrow> bool" where
  "cidr6 hextet len w \<longleftrightarrow> unat w div 2 ^ (128 - len) = hextet * 2 ^ 112 div 2 ^ (128 - len)"

lemma v4_bound: "unat w < 4294967296" for w :: "32 word"
  using unsigned_less [of w] by simp

lemma v4_range8: "v4 w 0 = word_of_nat a \<longleftrightarrow> cidr4 a 0 0 0 8 w" if "a < 256"
  using that v4_bound [of w] by (simp add: word_unat_eq_iff unat_v4 cidr4_def unat_of_nat)

lemma div_mod_iff: "b < k \<Longrightarrow> q div k = a \<and> q mod k = b \<longleftrightarrow> q = a * k + b" for q :: nat
proof
  show "q = a * k + b" if "q div k = a \<and> q mod k = b" using that div_mult_mod_eq [of q k] by metis
qed simp

lemma v4_range16: "v4 w 0 = word_of_nat a \<and> v4 w 1 = word_of_nat b \<longleftrightarrow> cidr4 a b 0 0 16 w" if "a < 256" "b < 256"
proof -
  have m: "unat w div 16777216 mod 256 = unat w div 65536 div 256"
    using v4_bound [of w] by (simp add: div_mult2_eq [symmetric])
  have c: "cidr4 a b 0 0 16 w \<longleftrightarrow> unat w div 65536 = a * 256 + b"
    using div_mult_self_is_m [of 65536 "a * 256 + b"] by (simp add: cidr4_def algebra_simps)
  show ?thesis
    unfolding c div_mod_iff [OF that(2), symmetric] using m that by (simp add: word_unat_eq_iff unat_v4 unat_of_nat)
qed

lemma v4_multicast: "v4 w 0 AND 0xf0 = 0xe0 \<longleftrightarrow> cidr4 224 0 0 0 4 w"
proof -
  have "unat w div 268435456 = unat w div 16777216 div 16" "unat w div 16777216 < 256"
    using v4_bound [of w] by (simp_all add: div_mult2_eq)
  then show ?thesis by (simp add: word_unat_eq_iff unsigned_and_eq unat_v4 and_f0 cidr4_def)
qed

lemma v4_private12: "v4 w 0 = 172 \<and> v4 w 1 AND 0xf0 = 16 \<longleftrightarrow> cidr4 172 16 0 0 12 w"
proof -
  have m: "unat w div 16777216 = unat w div 65536 div 256" "unat w div 1048576 = unat w div 65536 div 16" "unat w div 65536 < 65536"
    using v4_bound [of w] by (simp_all add: div_mult2_eq)
  have "(m div 256 mod 256 = 172 \<and> 16 * (m mod 256 div 16 mod 16) = 16) = (m div 16 = 2753)" if "m < 65536" for m :: nat
  proof -
    have "m div 256 mod 256 = m div 16 div 16" "m mod 256 div 16 mod 16 = m div 16 mod 16"
      using that mod_mult2_eq [of m 16 16] by (simp_all add: div_mult2_eq [symmetric])
    then have "(m div 256 mod 256 = 172 \<and> 16 * (m mod 256 div 16 mod 16) = 16) = (m div 16 div 16 = 172 \<and> m div 16 mod 16 = 1)"
      by simp
    also have "\<dots> = (m div 16 = 2753)" using div_mod_iff [of 1 16 "m div 16" 172] by simp
    finally show ?thesis .
  qed
  from this [OF m(3)] m show ?thesis by (simp add: word_unat_eq_iff unsigned_and_eq unat_v4 and_f0 cidr4_def)
qed

lemma v4_linklocal_multicast: "v4 w 0 = 224 \<Longrightarrow> v4 w 0 AND 0xf0 = 0xe0"
  by simp

text \<open>An IPv4 address is blocked exactly if it lies in one of seven networks.\<close>

lemma IsBlocked_V4:
  "IsBlocked (V4 w) \<longleftrightarrow> cidr4 127 0 0 0 8 w \<or> cidr4 169 254 0 0 16 w \<or> cidr4 224 0 0 0 4 w \<or> cidr4 10 0 0 0 8 w \<or>
     cidr4 172 16 0 0 12 w \<or> cidr4 192 168 0 0 16 w \<or> cidr4 0 0 0 0 32 w"
proof -
  have z: "cidr4 0 0 0 0 32 w \<longleftrightarrow> w = 0" by (simp add: cidr4_def unat_eq_0)
  show ?thesis
    using v4_range8 [of 127 w] v4_range8 [of 10 w] v4_range16 [of 169 254 w] v4_range16 [of 192 168 w] v4_linklocal_multicast [of w]
    unfolding z v4_multicast [symmetric] v4_private12 [symmetric]
    by (auto simp: IsBlocked_def IsUnspecified_def)
qed

lemma v6_bound: "unat w < 2 ^ 128" for w :: "128 word"
  using unsigned_less [of w] by simp

lemma v6_linklocal: "v6u16 w 0 AND 0xffc0 = 0xfe80 \<longleftrightarrow> cidr6 0xfe80 10 w"
proof -
  have "unat w div 2 ^ 118 = unat w div 2 ^ 112 div 64" "unat w div 2 ^ 112 < 65536"
    using v6_bound [of w] by (simp_all add: div_mult2_eq [symmetric] less_mult_imp_div_less)
  then show ?thesis by (simp add: word_unat_eq_iff unsigned_and_eq unat_v6u16 and_ffc0 cidr6_def)
qed

lemma v6_top_byte: "unat (drop_bit 120 w) = unat w div 2 ^ 120" "unat w div 2 ^ 120 < 256" for w :: "128 word"
proof -
  show "unat (drop_bit 120 w) = unat w div 2 ^ 120" unfolding unat_drop_bit_eq by (rule drop_bit_eq_div)
  show "unat w div 2 ^ 120 < 256" using v6_bound [of w] by (simp add: less_mult_imp_div_less)
qed

lemma v6_multicast: "drop_bit 120 w = 0xff \<longleftrightarrow> cidr6 0xff00 8 w"
  by (simp add: word_unat_eq_iff v6_top_byte cidr6_def)

lemma v6_ula: "drop_bit 120 w AND 0xfe = 0xfc \<longleftrightarrow> cidr6 0xfc00 7 w"
proof -
  have "unat w div 2 ^ 121 = unat w div 2 ^ 120 div 2" by (simp add: div_mult2_eq [symmetric])
  then show ?thesis using v6_top_byte(2) [of w]
    by (simp add: word_unat_eq_iff unsigned_and_eq v6_top_byte(1) and_fe cidr6_def)
qed

text \<open>The narrower multicast scopes are multicast.\<close>

lemma v6_scoped_multicast:
  assumes "v6u16 w 0 AND 0xff0f = x" "x = 0xff01 \<or> x = 0xff02"
  shows "drop_bit 120 w = 0xff"
proof -
  have "(v6u16 w 0 AND 0xff0f) AND 0xff00 = 0xff00" using assms by auto
  then have a: "v6u16 w 0 AND 0xff00 = 0xff00" by (simp add: and.assoc)
  have m: "(0xff00 :: nat) = push_bit 8 (mask 8)" by (simp add: mask_eq_exp_minus_1 push_bit_eq_mult)
  have "n AND 0xff00 = 256 * (n div 256 mod 256)" for n :: nat
    unfolding m and_shifted_mask by (simp add: push_bit_eq_mult take_bit_eq_mod drop_bit_eq_div)
  moreover have "unat w div 2 ^ 120 = unat w div 2 ^ 112 div 256" by (simp add: div_mult2_eq [symmetric])
  moreover have "unat w div 2 ^ 112 < 65536" using v6_bound [of w] by (simp add: less_mult_imp_div_less)
  ultimately show ?thesis
    using a v6_top_byte(2) [of w] by (simp add: word_unat_eq_iff unsigned_and_eq unat_v6u16 v6_top_byte(1))
qed

text \<open>The addresses an untrusted dial is refused, as networks: seven of IPv4, four of IPv6, the
  unspecified IPv6 address without a zone, and every IPv4-mapped form of a blocked IPv4 address.\<close>

theorem blocked_ranges:
  "(IsBlocked (V4 w) \<longleftrightarrow> cidr4 127 0 0 0 8 w \<or> cidr4 169 254 0 0 16 w \<or> cidr4 224 0 0 0 4 w \<or> cidr4 10 0 0 0 8 w \<or>
     cidr4 172 16 0 0 12 w \<or> cidr4 192 168 0 0 16 w \<or> cidr4 0 0 0 0 32 w) \<and>
   (IsBlocked (V6 u zone) \<longleftrightarrow> (if drop_bit 32 u = 65535 then IsBlocked (V4 (ucast u))
     else u = 1 \<or> cidr6 0xfe80 10 u \<or> cidr6 0xff00 8 u \<or> cidr6 0xfc00 7 u \<or> (u = 0 \<and> zone = '''')))"
proof (rule conjI [OF IsBlocked_V4])
  show "IsBlocked (V6 u zone) \<longleftrightarrow> (if drop_bit 32 u = 65535 then IsBlocked (V4 (ucast u))
     else u = 1 \<or> cidr6 0xfe80 10 u \<or> cidr6 0xff00 8 u \<or> cidr6 0xfc00 7 u \<or> (u = 0 \<and> zone = ''''))"
    using v6_scoped_multicast [of u]
    by (auto simp: IsBlocked_def Let_def IsUnspecified_def v6_linklocal v6_multicast v6_ula)
qed

subsection \<open>The metadata endpoints\<close>

lemma aws_is_ula: "cidr6 0xfc00 7 0xfd000ec2000000000000000000000254" "drop_bit 32 (0xfd000ec2000000000000000000000254 :: 128 word) \<noteq> 65535"
  by (simp_all add: cidr6_def)

text \<open>The check used where private addresses must stay reachable is weaker than the strict one, and still
  refuses the metadata endpoints in every spelling: \<open>169.254.169.254\<close>, its IPv4-mapped form and
  \<open>fd00:ec2::254\<close>, with any zone.\<close>

theorem metadata_endpoints_refused:
  "{a. IsLinkLocalOrLoopback a} \<subseteq> {a. IsBlocked a} \<and>
   IsLinkLocalOrLoopback (V4 0xa9fea9fe) \<and> IsLinkLocalOrLoopback (V6 0xffffa9fea9fe zone) \<and>
   IsLinkLocalOrLoopback (V6 0xfd000ec2000000000000000000000254 zone)"
proof -
  have "IsBlocked a" if h: "IsLinkLocalOrLoopback a" for a
  proof (cases a)
    case (V6 u z)
    show ?thesis
    proof (cases "u = 0xfd000ec2000000000000000000000254")
      case True
      then show ?thesis using V6 aws_is_ula by (simp add: IsBlocked_def Let_def v6_ula)
    next
      case False
      with h V6 show ?thesis
        by (auto simp: IsLinkLocalOrLoopback_def IsBlocked_def awsIMDSv6_def Let_def split: if_splits)
    qed
  qed (use h in \<open>auto simp: IsLinkLocalOrLoopback_def IsBlocked_def awsIMDSv6_def Let_def\<close>)
  moreover have "IsLinkLocalOrLoopback (V4 0xa9fea9fe)"
    by (simp add: IsLinkLocalOrLoopback_def v4_def)
  moreover have "IsLinkLocalOrLoopback (V6 0xffffa9fea9fe zone)"
    by (simp add: IsLinkLocalOrLoopback_def v4_def)
  moreover have "IsLinkLocalOrLoopback (V6 0xfd000ec2000000000000000000000254 zone)"
    using aws_is_ula(2) by (simp add: IsLinkLocalOrLoopback_def awsIMDSv6_def Let_def)
  ultimately show ?thesis by blast
qed

subsection \<open>Default deny\<close>

text \<open>What an allow-list entry permits: the host itself, or for \<open>*.suffix\<close> every proper subdomain.\<close>

definition permits :: "string \<Rightarrow> string \<Rightarrow> bool" where
  "permits p h \<longleftrightarrow> (let q = ToLower (TrimSpace p) in
     (\<exists>suffix l. q = ''*.'' @ suffix \<and> l \<noteq> '''' \<and> h = l @ ''.'' @ suffix) \<or> \<not> HasPrefix q ''*.'' \<and> h = q)"

lemma HasSuffix_proper: "HasSuffix h s \<and> length h > length s \<longleftrightarrow> (\<exists>l. l \<noteq> [] \<and> h = l @ s)"
proof
  assume a: "HasSuffix h s \<and> length h > length s"
  then have "h = take (length h - length s) h @ s" by (metis HasSuffix_def append_take_drop_id)
  moreover have "take (length h - length s) h \<noteq> []" using a by auto
  ultimately show "\<exists>l. l \<noteq> [] \<and> h = l @ s" by blast
qed auto

lemma matchOne_permits: "matchOne p h \<longleftrightarrow> permits p h"
proof (cases "HasPrefix (ToLower (TrimSpace p)) ''*.''")
  case True
  then obtain suffix where q: "ToLower (TrimSpace p) = ''*.'' @ suffix" by (auto simp: HasPrefix_iff)
  then show ?thesis using HasSuffix_proper [of h "''.'' @ suffix"]
    by (simp add: matchOne_def permits_def Let_def) (auto simp: HasPrefix_def)
next
  case False
  then show ?thesis by (auto simp: matchOne_def permits_def Let_def HasPrefix_def)
qed

lemma Match_permits: "Match ps host \<longleftrightarrow> normalizeHost host \<noteq> '''' \<and> (\<exists>p \<in> set ps. permits p (normalizeHost host))"
  by (simp add: Match_def Let_def list_ex_iff matchOne_permits)


subsection \<open>The helper fails closed\<close>

lemma helper_fails_closed:
  assumes "helperReply urlHostname http text = Some (''OK'' @ [CHR 0x0A])"
  shows "\<exists>src uri rest. Fields (TrimSpace text) = src # uri # rest \<and> hostFromURI urlHostname uri \<noteq> '''' \<and>
     http src (hostFromURI urlHostname uri) = Some 200"
  using assms
  by (auto simp: helperReply_def parseHelperLine_def allowEgress_def Let_def hostFromURI_def [of _ "[]"] TrimSpace_def [of "[]"]
      split: if_splits list.splits)

subsection \<open>Entries that end in a port\<close>

text \<open>The port is taken off the host but not off the entry, so an entry that ends in a colon and digits,
  a \<open>host:port\<close> or an IPv6 literal with a decimal last group, does not even permit itself.\<close>

theorem entry_with_port_never_matches:
  assumes "h = u @ '':'' @ d" and "atoi_ok d" and "ToLower (TrimSpace h) = h" and "\<not> HasPrefix h ''*.''"
  shows "\<not> Match [h] h"
proof -
  have d: "CHR '':'' \<notin> set d"
  proof
    assume c: "CHR '':'' \<in> set d"
    have "\<not> is_digit (CHR '':'')" by (simp add: is_digit_def)
    with c assms(2) have "d \<noteq> []" "hd d = CHR '':'' \<or> CHR '':'' \<in> set (tl d)" "\<not> list_all is_digit d"
      by (auto simp: list_all_iff) (metis hd_Cons_tl list.set_cases list.sel(1,3))
    with assms(2) \<open>\<not> is_digit (CHR '':'')\<close> show False
      by (auto simp: atoi_ok_def Let_def list_all_iff split: if_splits)
  qed
  have "LastIndexByte h (CHR '':'') = Some (length u)"
  proof -
    have "IndexByte (rev h) (CHR '':'') = Some (length d)"
    proof -
      have "IndexByte (xs @ c # ys) c = Some (length xs)" if "c \<notin> set xs" for xs ys :: string and c
        using that by (induction xs) auto
      from this [of "CHR '':''" "rev d" "rev u"] d assms(1) show ?thesis by simp
    qed
    with assms(1) show ?thesis by (simp add: LastIndexByte_def)
  qed
  then have "normalizeHost h = TrimSuffix u ''.''"
    using assms(1-3) by (simp add: normalizeHost_def Let_def)
  moreover have "length (TrimSuffix u ''.'') \<le> length u" by (simp add: TrimSuffix_def)
  ultimately have "normalizeHost h \<noteq> h" using assms(1) by auto
  with assms(3,4) show ?thesis by (auto simp: Match_permits permits_def Let_def HasPrefix_iff)
qed

theorem entry_with_port_never_matches_witness: "\<not> Match [''2001:db8::1''] ''2001:db8::1''"
  by (rule entry_with_port_never_matches [where u = "''2001:db8:''" and d = "''1''"])
    (simp_all add: atoi_ok_def is_digit_def digits_value_def ToLower_def lower_byte_def is_upper_def TrimSpace_def is_space_def
      HasPrefix_def)

end
