(* ===== verification/Store.thy ===== *)
theory Store
  imports Api_Types
begin

section \<open>The in-memory store and the audit recorder\<close>

text \<open>
  \<open>src/internal/store/memory.go\<close> (artifacts, their name index and versions), the in-memory half of
  \<open>src/internal/store/audit.go\<close> and the recorder of \<open>src/internal/audit/audit.go\<close>.  The mutex makes every
  operation atomic.  Go ranges over a map in an arbitrary order, so \<open>List\<close> takes that order as an
  argument.  A read through a nil pointer panics and is the value \<open>None\<close>.

  Two interfaces of \<open>src/internal/store/store.go\<close> are locales: \<open>artifact_store\<close>, whose contract is a map
  from IDs to artifacts with distinct names, and \<open>audit_store\<close>, whose contract is an append-only list.
\<close>

record MemoryStore =
  ms_artifacts :: "string \<rightharpoonup> Artifact"
  ms_byName :: "string \<rightharpoonup> string"
  ms_versions :: "string \<rightharpoonup> ArtifactVersion list"
  ms_audit :: "AuditEvent list"

definition NewMemoryStore :: MemoryStore where
  "NewMemoryStore = \<lparr>ms_artifacts = Map.empty, ms_byName = Map.empty, ms_versions = Map.empty, ms_audit = []\<rparr>"

definition ms_Create :: "Artifact \<Rightarrow> MemoryStore \<Rightarrow> MemoryStore \<times> api_error option" where
  "ms_Create a s =
     (if ms_byName s (art_Name a) \<noteq> None then (s, Some (ErrAlreadyExists (art_Name a)))
      else (s\<lparr>ms_artifacts := (ms_artifacts s)(art_ID a \<mapsto> a), ms_byName := (ms_byName s)(art_Name a \<mapsto> art_ID a)\<rparr>, None))"

definition ms_Get :: "string \<Rightarrow> MemoryStore \<Rightarrow> (api_error, Artifact) result" where
  "ms_Get i s = (case ms_artifacts s i of None \<Rightarrow> Err (ErrNotFound i) | Some a \<Rightarrow> Ok a)"

definition ms_GetByName :: "string \<Rightarrow> MemoryStore \<Rightarrow> (api_error, Artifact) result option" where
  "ms_GetByName name s = (case ms_byName s name of
      None \<Rightarrow> Some (Err (ErrNotFound name))
    | Some i \<Rightarrow> map_option Ok (ms_artifacts s i))"

record ListOptions =
  lo_StatusFilter :: string
  lo_OwnerID :: string
  lo_AdminView :: bool
  lo_Offset :: int
  lo_Limit :: int

definition listed :: "ListOptions \<Rightarrow> Artifact \<Rightarrow> bool" where
  "listed opts a =
     (if lo_StatusFilter opts \<noteq> '''' \<and> lo_StatusFilter opts \<noteq> ''all'' \<and> status_string (art_Status a) \<noteq> lo_StatusFilter opts
      then False
      else if \<not> lo_AdminView opts \<and> lo_OwnerID opts \<noteq> '''' then
        art_OwnerID a = lo_OwnerID opts \<or> lo_OwnerID opts \<in> set (art_SharedWith a)
      else True)"

definition ms_List :: "string list \<Rightarrow> ListOptions \<Rightarrow> MemoryStore \<Rightarrow> ArtifactSummary list \<times> nat" where
  "ms_List order opts s =
     (let summaries = map ToSummary (filter (listed opts) (List.map_filter (ms_artifacts s) order));
          tot = length summaries;
          s1 = (if lo_Offset opts > 0 \<and> lo_Offset opts < int (length summaries) then drop (nat (lo_Offset opts)) summaries
                else if lo_Offset opts \<ge> int (length summaries) then [] else summaries);
          s2 = (if lo_Limit opts > 0 \<and> lo_Limit opts < int (length s1) then take (nat (lo_Limit opts)) s1 else s1)
      in (s2, tot))"

definition ms_Update :: "Artifact \<Rightarrow> MemoryStore \<Rightarrow> MemoryStore \<times> api_error option" where
  "ms_Update a s =
     (if ms_artifacts s (art_ID a) = None then (s, Some (ErrNotFound (art_ID a)))
      else (s\<lparr>ms_artifacts := (ms_artifacts s)(art_ID a \<mapsto> a)\<rparr>, None))"

definition ms_Delete :: "string \<Rightarrow> MemoryStore \<Rightarrow> MemoryStore \<times> api_error option" where
  "ms_Delete i s = (case ms_artifacts s i of
      None \<Rightarrow> (s, Some (ErrNotFound i))
    | Some a \<Rightarrow> (s\<lparr>ms_byName := (ms_byName s)(art_Name a := None), ms_artifacts := (ms_artifacts s)(i := None),
        ms_versions := (ms_versions s)(i := None)\<rparr>, None))"

definition versions_of :: "MemoryStore \<Rightarrow> string \<Rightarrow> ArtifactVersion list" where
  "versions_of s i = (case ms_versions s i of None \<Rightarrow> [] | Some vs \<Rightarrow> vs)"

definition ms_CreateVersion :: "ArtifactVersion \<Rightarrow> MemoryStore \<Rightarrow> MemoryStore" where
  "ms_CreateVersion v s = s\<lparr>ms_versions := (ms_versions s)(av_ArtifactID v \<mapsto> versions_of s (av_ArtifactID v) @ [v])\<rparr>"

definition ms_ListVersions :: "string \<Rightarrow> MemoryStore \<Rightarrow> ArtifactVersion list" where
  "ms_ListVersions i s = versions_of s i"

definition ms_GetVersion :: "string \<Rightarrow> int \<Rightarrow> MemoryStore \<Rightarrow> (api_error, ArtifactVersion) result" where
  "ms_GetVersion i version s = (case find (\<lambda>v. av_Version v = version) (versions_of s i) of
      Some v \<Rightarrow> Ok v
    | None \<Rightarrow> Err (ErrVersionNotFound i version))"

subsection \<open>The audit log\<close>

record AuditQuery =
  aq_Actor :: string
  aq_Action :: string
  aq_Target :: string
  aq_Limit :: int

definition defaultAuditLimit :: int where
  "defaultAuditLimit = 200"

definition maxAuditLimit :: int where
  "maxAuditLimit = 1000"

definition auditLimit :: "int \<Rightarrow> int" where
  "auditLimit n = (if n \<le> 0 then defaultAuditLimit else if n > maxAuditLimit then maxAuditLimit else n)"

definition ms_AppendAudit :: "AuditEvent \<Rightarrow> MemoryStore \<Rightarrow> MemoryStore \<times> string option" where
  "ms_AppendAudit e s = (s\<lparr>ms_audit := ms_audit s @ [e]\<rparr>, None)"

definition audit_match :: "AuditQuery \<Rightarrow> AuditEvent \<Rightarrow> bool" where
  "audit_match q e \<longleftrightarrow> (aq_Actor q \<noteq> '''' \<longrightarrow> ae_Actor e = aq_Actor q) \<and> (aq_Action q \<noteq> '''' \<longrightarrow> ae_Action e = aq_Action q) \<and>
     (aq_Target q \<noteq> '''' \<longrightarrow> ae_Target e = aq_Target q)"

text \<open>The loop walks the log from its end: \<open>i\<close> entries are left, \<open>out\<close> is collected so far.\<close>

fun auditLoop :: "AuditQuery \<Rightarrow> AuditEvent list \<Rightarrow> nat \<Rightarrow> nat \<Rightarrow> AuditEvent list \<Rightarrow> AuditEvent list" where
  "auditLoop q log limit 0 out = out"
| "auditLoop q log limit (Suc i) out =
     (if length out < limit then
        (let e = log ! i in
         if aq_Actor q \<noteq> '''' \<and> ae_Actor e \<noteq> aq_Actor q then auditLoop q log limit i out
         else if aq_Action q \<noteq> '''' \<and> ae_Action e \<noteq> aq_Action q then auditLoop q log limit i out
         else if aq_Target q \<noteq> '''' \<and> ae_Target e \<noteq> aq_Target q then auditLoop q log limit i out
         else auditLoop q log limit i (out @ [e]))
      else out)"

definition ms_ListAudit :: "AuditQuery \<Rightarrow> MemoryStore \<Rightarrow> AuditEvent list" where
  "ms_ListAudit q s = auditLoop q (ms_audit s) (nat (auditLimit (aq_Limit q))) (length (ms_audit s)) []"

subsection \<open>The recorder\<close>

record AuditFields =
  af_TenantID :: string
  af_SessionID :: string
  af_SourceHash :: string
  af_PolicyDecision :: string
  af_Before :: string
  af_After :: string

text \<open>\<open>store\<close> is the store's \<open>AppendAudit\<close>, \<open>None\<close> when no store is configured; \<open>newid\<close> and \<open>now\<close> are the
  random ID and the clock.  The result is the error of \<open>Record\<close>.\<close>

definition audit_event :: "string \<Rightarrow> time \<Rightarrow> string \<Rightarrow> AuditFields \<Rightarrow> string \<Rightarrow> string \<Rightarrow> string \<Rightarrow> string \<Rightarrow> AuditEvent" where
  "audit_event newid now actor f action target outcome detail =
     \<lparr>ae_ID = newid, ae_Time = now, ae_Actor = actor, ae_Action = action, ae_Target = target, ae_Outcome = outcome,
      ae_Detail = detail, ae_TenantID = af_TenantID f, ae_SessionID = af_SessionID f, ae_SourceHash = af_SourceHash f,
      ae_PolicyDecision = af_PolicyDecision f, ae_Before = af_Before f, ae_After = af_After f\<rparr>"

definition Record ::
  "(AuditEvent \<Rightarrow> 's \<Rightarrow> 's \<times> string option) option \<Rightarrow> bool \<Rightarrow> AuditEvent \<Rightarrow> 's \<Rightarrow> 's \<times> string option" where
  "Record store failClosed e s = (case store of
      None \<Rightarrow> (s, None)
    | Some app \<Rightarrow> (case app e s of
        (s', None) \<Rightarrow> (s', None)
      | (s', Some err) \<Rightarrow> (s', if failClosed then Some (''audit: persist failed: '' @ err) else None)))"

definition Recorder_List :: "(AuditQuery \<Rightarrow> 's \<Rightarrow> AuditEvent list) option \<Rightarrow> AuditQuery \<Rightarrow> 's \<Rightarrow> AuditEvent list" where
  "Recorder_List lst q s = (case lst of None \<Rightarrow> [] | Some l \<Rightarrow> l q s)"

subsection \<open>The audit contract\<close>

lemma auditLoop_Suc:
  "auditLoop q log limit (Suc i) out =
     (if length out < limit then auditLoop q log limit i (if audit_match q (log ! i) then out @ [log ! i] else out) else out)"
  by (auto simp: audit_match_def Let_def)

lemma auditLoop_take:
  "i \<le> length log \<Longrightarrow> length out \<le> limit \<Longrightarrow>
   auditLoop q log limit i out = out @ take (limit - length out) (filter (audit_match q) (rev (take i log)))"
proof (induction i arbitrary: out)
  case (Suc i)
  have t: "rev (take (Suc i) log) = log ! i # rev (take i log)" using Suc.prems by (simp add: take_Suc_conv_app_nth)
  show ?case
  proof (cases "length out < limit")
    case True
    then obtain k where "limit - length out = Suc k" "limit - Suc (length out) = k" by (metis Suc_diff_Suc)
    with True t Suc show ?thesis by (simp add: auditLoop_Suc del: auditLoop.simps)
  qed (use Suc.prems in simp)
qed simp

lemma auditLimit_bounds: "1 \<le> auditLimit n \<and> auditLimit n \<le> maxAuditLimit"
  by (simp add: auditLimit_def defaultAuditLimit_def maxAuditLimit_def)

locale audit_store =
  fixes log :: "'s \<Rightarrow> AuditEvent list"
    and apnd :: "AuditEvent \<Rightarrow> 's \<Rightarrow> 's \<times> string option"
    and lst :: "AuditQuery \<Rightarrow> 's \<Rightarrow> AuditEvent list"
  assumes append_ok: "apnd e s = (s', None) \<Longrightarrow> log s' = log s @ [e]"
    and append_err: "apnd e s = (s', Some err) \<Longrightarrow> log s' = log s"
    and list_newest: "lst q s = take (nat (auditLimit (aq_Limit q))) (filter (audit_match q) (rev (log s)))"
begin

text \<open>A fail-closed recorder that reports no error has added exactly this event, and every query it
  matches shows it first; otherwise the log is as it was.\<close>

lemma record_then_list:
  assumes "Record (Some apnd) True e s = (s', r)"
  shows "if r = None then log s' = log s @ [e] \<and>
           (\<forall>q. audit_match q e \<longrightarrow> hd (lst q s') = e \<and> lst q s' \<noteq> [])
         else log s' = log s"
proof -
  have first: "hd (lst q t) = e \<and> lst q t \<noteq> []" if "log t = log s @ [e]" "audit_match q e" for q t
  proof -
    obtain k where "nat (auditLimit (aq_Limit q)) = Suc k"
      using auditLimit_bounds [of "aq_Limit q"] by (cases "nat (auditLimit (aq_Limit q))") auto
    with that show ?thesis by (simp add: list_newest)
  qed
  from assms show ?thesis
    using append_ok append_err first by (auto simp: Record_def split: prod.splits option.splits)
qed

end

interpretation mem_audit: audit_store ms_audit ms_AppendAudit ms_ListAudit
  by unfold_locales (auto simp: ms_AppendAudit_def ms_ListAudit_def auditLoop_take)

text \<open>Whatever was recorded before: an event that a fail-closed recorder over the memory store accepts is
  at the end of the log and comes first in every query it matches, however small or large the
  requested limit; an event it does not accept leaves the log alone.\<close>

theorem recorded_event_is_listed_first:
  assumes "Record (Some ms_AppendAudit) True e s = (s', r)"
  shows "if r = None then ms_audit s' = ms_audit s @ [e] \<and>
           (\<forall>q. audit_match q e \<longrightarrow> hd (ms_ListAudit q s') = e \<and> ms_ListAudit q s' \<noteq> [])
         else ms_audit s' = ms_audit s"
  using assms by (rule mem_audit.record_then_list)

text \<open>A query returns the newest matching events, newest first, at most 1000 of them.\<close>

theorem audit_query_exact:
  "ms_ListAudit q s = take (nat (auditLimit (aq_Limit q))) (filter (audit_match q) (rev (ms_audit s))) \<and>
   length (ms_ListAudit q s) \<le> 1000"
  using auditLimit_bounds [of "aq_Limit q"] by (auto simp: mem_audit.list_newest maxAuditLimit_def min_le_iff_disj)

definition sample_event :: AuditEvent where
  "sample_event = audit_event ''1'' 0 ''al'' \<lparr>af_TenantID = '''', af_SessionID = '''', af_SourceHash = '''', af_PolicyDecision = '''',
     af_Before = '''', af_After = ''''\<rparr> ''deploy'' ''a'' ''ok'' ''''"

definition sample_query :: AuditQuery where
  "sample_query = \<lparr>aq_Actor = ''al'', aq_Action = '''', aq_Target = '''', aq_Limit = 0\<rparr>"

theorem recorded_event_is_listed_first_witness:
  "hd (ms_ListAudit sample_query (fst (Record (Some ms_AppendAudit) True sample_event NewMemoryStore))) = sample_event"
proof -
  obtain s' r where e: "Record (Some ms_AppendAudit) True sample_event NewMemoryStore = (s', r)"
    by (cases "Record (Some ms_AppendAudit) True sample_event NewMemoryStore")
  then have "r = None" by (simp add: Record_def ms_AppendAudit_def)
  moreover have "audit_match sample_query sample_event" by (simp add: audit_match_def sample_query_def sample_event_def audit_event_def)
  ultimately show ?thesis using recorded_event_is_listed_first [OF e] e by simp
qed

subsection \<open>The artifact contract\<close>

text \<open>The abstract store: a map from IDs to artifacts.  An operation is disciplined if a created artifact
  has a fresh ID and an update keeps the name, which is how the sources use the store.\<close>

datatype store_op = OCreate Artifact | OUpdate Artifact | ODelete string

type_synonym abstract_store = "string \<rightharpoonup> Artifact"

definition named :: "abstract_store \<Rightarrow> string \<Rightarrow> string \<Rightarrow> Artifact \<Rightarrow> bool" where
  "named m name i a \<longleftrightarrow> m i = Some a \<and> art_Name a = name"

fun spec_do :: "store_op \<Rightarrow> abstract_store \<Rightarrow> abstract_store \<times> api_error option" where
  "spec_do (OCreate a) m =
     (if \<exists>i b. named m (art_Name a) i b then (m, Some (ErrAlreadyExists (art_Name a))) else (m(art_ID a \<mapsto> a), None))"
| "spec_do (OUpdate a) m = (if m (art_ID a) = None then (m, Some (ErrNotFound (art_ID a))) else (m(art_ID a \<mapsto> a), None))"
| "spec_do (ODelete i) m = (if m i = None then (m, Some (ErrNotFound i)) else (m(i := None), None))"

fun disciplined :: "store_op \<Rightarrow> abstract_store \<Rightarrow> bool" where
  "disciplined (OCreate a) m = (m (art_ID a) = None)"
| "disciplined (OUpdate a) m = (case m (art_ID a) of None \<Rightarrow> True | Some b \<Rightarrow> art_Name b = art_Name a)"
| "disciplined (ODelete i) m = True"

text \<open>The errors of a run, and the final store.\<close>

fun run_ops :: "(store_op \<Rightarrow> 's \<Rightarrow> 's \<times> api_error option) \<Rightarrow> store_op list \<Rightarrow> 's \<Rightarrow> 's \<times> api_error option list" where
  "run_ops f [] s = (s, [])"
| "run_ops f (x # xs) s = (case f x s of (s1, r) \<Rightarrow> case run_ops f xs s1 of (s2, rs) \<Rightarrow> (s2, r # rs))"

fun disciplined_run :: "store_op list \<Rightarrow> abstract_store \<Rightarrow> bool" where
  "disciplined_run [] m = True"
| "disciplined_run (x # xs) m = (disciplined x m \<and> disciplined_run xs (fst (spec_do x m)))"

locale artifact_store =
  fixes inv :: "'s \<Rightarrow> bool"
    and view :: "'s \<Rightarrow> abstract_store"
    and step :: "store_op \<Rightarrow> 's \<Rightarrow> 's \<times> api_error option"
    and get :: "string \<Rightarrow> 's \<Rightarrow> (api_error, Artifact) result"
    and byname :: "string \<Rightarrow> 's \<Rightarrow> (api_error, Artifact) result option"
  assumes step_refines: "inv s \<Longrightarrow> disciplined x (view s) \<Longrightarrow> step x s = (s', r) \<Longrightarrow>
      inv s' \<and> spec_do x (view s) = (view s', r)"
    and get_view: "inv s \<Longrightarrow> get i s = (case view s i of None \<Rightarrow> Err (ErrNotFound i) | Some a \<Rightarrow> Ok a)"
    and byname_view: "inv s \<Longrightarrow> byname n s = Some (Ok a) \<longleftrightarrow> (\<exists>i. named (view s) n i a)"
      "inv s \<Longrightarrow> byname n s \<noteq> None"
begin

lemma run_refines:
  assumes "inv s" "disciplined_run xs (view s)" "run_ops step xs s = (s', rs)"
  shows "inv s' \<and> run_ops spec_do xs (view s) = (view s', rs)"
  using assms
proof (induction xs arbitrary: s rs)
  case (Cons x xs)
  obtain s1 r where 1: "step x s = (s1, r)" by (cases "step x s")
  obtain rs' where 2: "run_ops step xs s1 = (s', rs')" "rs = r # rs'"
    using Cons.prems(3) 1 by (auto split: prod.splits)
  have 3: "inv s1" "spec_do x (view s) = (view s1, r)" using step_refines [OF Cons.prems(1) _ 1] Cons.prems(2) by simp_all
  from Cons.IH [OF 3(1) _ 2(1)] Cons.prems(2) 3(2) 2(2) show ?case by simp
qed simp

end

definition ms_inv :: "MemoryStore \<Rightarrow> bool" where
  "ms_inv s \<longleftrightarrow> (\<forall>i a. ms_artifacts s i = Some a \<longrightarrow> ms_byName s (art_Name a) = Some i) \<and>
     (\<forall>n i. ms_byName s n = Some i \<longrightarrow> (\<exists>a. ms_artifacts s i = Some a \<and> art_Name a = n))"

fun ms_step :: "store_op \<Rightarrow> MemoryStore \<Rightarrow> MemoryStore \<times> api_error option" where
  "ms_step (OCreate a) s = ms_Create a s"
| "ms_step (OUpdate a) s = ms_Update a s"
| "ms_step (ODelete i) s = ms_Delete i s"

lemma ms_invD:
  assumes "ms_inv s"
  shows "ms_artifacts s i = Some a \<Longrightarrow> ms_byName s (art_Name a) = Some i"
    "ms_byName s n = Some i \<Longrightarrow> \<exists>a. ms_artifacts s i = Some a \<and> art_Name a = n"
  using assms by (simp_all add: ms_inv_def)

lemma ms_invI:
  assumes "\<And>i a. ms_artifacts s i = Some a \<Longrightarrow> ms_byName s (art_Name a) = Some i"
    and "\<And>n i. ms_byName s n = Some i \<Longrightarrow> \<exists>a. ms_artifacts s i = Some a \<and> art_Name a = n"
  shows "ms_inv s"
  using assms by (simp add: ms_inv_def)

lemma ms_inv_taken:
  assumes "ms_inv s"
  shows "ms_byName s n \<noteq> None \<longleftrightarrow> (\<exists>i b. named (ms_artifacts s) n i b)"
  unfolding named_def using ms_invD [OF assms] by blast

lemma ms_step_refines:
  assumes "ms_inv s" "disciplined x (ms_artifacts s)" "ms_step x s = (s', r)"
  shows "ms_inv s' \<and> spec_do x (ms_artifacts s) = (ms_artifacts s', r)"
proof (cases x)
  case (OCreate a)
  note t = ms_inv_taken [OF assms(1), of "art_Name a"]
  have "ms_inv s'"
  proof (cases "ms_byName s (art_Name a)")
    case None
    have n: "art_Name b \<noteq> art_Name a" if "ms_artifacts s i = Some b" for i b
      using ms_invD(1) [OF assms(1) that] None by auto
    have f: "i \<noteq> art_ID a" if "ms_byName s n = Some i" for n i
      using ms_invD(2) [OF assms(1) that] assms(2) OCreate by auto
    have s': "s' = s\<lparr>ms_artifacts := (ms_artifacts s)(art_ID a \<mapsto> a), ms_byName := (ms_byName s)(art_Name a \<mapsto> art_ID a)\<rparr>"
      using assms(3) OCreate None by (simp add: ms_Create_def)
    show ?thesis using n f ms_invD [OF assms(1)] by (auto simp: s' ms_inv_def)
  qed (use assms(1,3) OCreate in \<open>simp add: ms_Create_def\<close>)
  moreover have "spec_do x (ms_artifacts s) = (ms_artifacts s', r)"
    using assms OCreate t by (auto simp: ms_Create_def split: if_splits)
  ultimately show ?thesis by simp
next
  case (OUpdate a)
  show ?thesis
  proof (cases "ms_artifacts s (art_ID a)")
    case (Some b)
    then have b: "art_Name b = art_Name a" using assms(2) OUpdate by simp
    have s': "s' = s\<lparr>ms_artifacts := (ms_artifacts s)(art_ID a \<mapsto> a)\<rparr>" "r = None"
      using assms(3) OUpdate Some by (simp_all add: ms_Update_def)
    have "ms_inv s'"
    proof (rule ms_invI)
      fix j c assume "ms_artifacts s' j = Some c"
      then show "ms_byName s' (art_Name c) = Some j"
        using ms_invD(1) [OF assms(1), of j c] ms_invD(1) [OF assms(1) Some] b by (auto simp: s' split: if_splits)
    next
      fix n j assume "ms_byName s' n = Some j"
      then have "ms_byName s n = Some j" by (simp add: s')
      from ms_invD(2) [OF assms(1) this] show "\<exists>c. ms_artifacts s' j = Some c \<and> art_Name c = n"
        using Some b by (auto simp: s')
    qed
    then show ?thesis using OUpdate Some by (simp add: s')
  qed (use assms OUpdate in \<open>simp add: ms_Update_def\<close>)
next
  case (ODelete i)
  show ?thesis
  proof (cases "ms_artifacts s i")
    case (Some a)
    have s': "s' = s\<lparr>ms_byName := (ms_byName s)(art_Name a := None), ms_artifacts := (ms_artifacts s)(i := None),
        ms_versions := (ms_versions s)(i := None)\<rparr>" "r = None"
      using assms(3) ODelete Some by (simp_all add: ms_Delete_def)
    have "art_Name b \<noteq> art_Name a" if "ms_artifacts s j = Some b" "j \<noteq> i" for j b
      using ms_invD(1) [OF assms(1) that(1)] ms_invD(1) [OF assms(1) Some] that(2) by auto
    moreover have "j \<noteq> i" if "ms_byName s n = Some j" "n \<noteq> art_Name a" for n j
      using ms_invD(2) [OF assms(1) that(1)] Some that(2) by auto
    ultimately have "ms_inv s'" using ms_invD [OF assms(1)] unfolding s' ms_inv_def by simp
    then show ?thesis using ODelete Some by (simp add: s')
  qed (use assms ODelete in \<open>simp add: ms_Delete_def\<close>)
qed

lemma ms_byname:
  assumes "ms_inv s"
  shows "ms_GetByName n s = Some (Ok a) \<longleftrightarrow> (\<exists>i. named (ms_artifacts s) n i a)" "ms_GetByName n s \<noteq> None"
proof -
  show "ms_GetByName n s \<noteq> None" using ms_invD(2) [OF assms] by (cases "ms_byName s n") (force simp: ms_GetByName_def)+
  show "ms_GetByName n s = Some (Ok a) \<longleftrightarrow> (\<exists>i. named (ms_artifacts s) n i a)"
  proof (cases "ms_byName s n")
    case None
    then show ?thesis using ms_inv_taken [OF assms, of n] by (simp add: ms_GetByName_def)
  next
    case (Some i)
    with ms_invD(2) [OF assms] obtain b where b: "ms_artifacts s i = Some b" "art_Name b = n" by blast
    have "j = i" if "named (ms_artifacts s) n j c" for j c
      using ms_invD(1) [OF assms, of j c] that Some by (simp add: named_def)
    then have "(\<exists>j. named (ms_artifacts s) n j a) \<longleftrightarrow> named (ms_artifacts s) n i a" by metis
    then show ?thesis using Some b by (auto simp: ms_GetByName_def named_def)
  qed
qed

interpretation mem: artifact_store ms_inv ms_artifacts ms_step ms_Get ms_GetByName
  by unfold_locales (auto simp: ms_byname ms_Get_def dest: ms_step_refines)

lemma ms_inv_new: "ms_inv NewMemoryStore" "ms_artifacts NewMemoryStore = Map.empty"
  by (simp_all add: ms_inv_def NewMemoryStore_def)

text \<open>C22: On disciplined runs the memory store is a map: the same calls fail with the same errors, the same
  artifacts are stored, a read by ID or by name finds exactly them, and a read by name never panics.\<close>

theorem memory_store_refines_map:
  assumes "disciplined_run xs Map.empty" and "run_ops ms_step xs NewMemoryStore = (s, rs)"
  shows "\<exists>m. run_ops spec_do xs Map.empty = (m, rs) \<and>
     (\<forall>i. ms_Get i s = (case m i of None \<Rightarrow> Err (ErrNotFound i) | Some a \<Rightarrow> Ok a)) \<and>
     (\<forall>n a. ms_GetByName n s = Some (Ok a) \<longleftrightarrow> (\<exists>i. named m n i a)) \<and> (\<forall>n. ms_GetByName n s \<noteq> None)"
proof -
  have "ms_inv s" "run_ops spec_do xs Map.empty = (ms_artifacts s, rs)"
    using mem.run_refines [OF ms_inv_new(1), of xs s rs] assms by (simp_all add: ms_inv_new)
  then show ?thesis using mem.get_view ms_byname by (intro exI [of _ "ms_artifacts s"]) simp
qed

definition sample_artifact :: "string \<Rightarrow> string \<Rightarrow> Artifact" where
  "sample_artifact i name =
     \<lparr>art_ID = i, art_Name = name, art_OwnerID = ''al'', art_Namespace = '''', art_Status = StatusRunning, art_Target = '''',
      art_ImageRef = '''', art_URL = '''', art_Port = 0, art_EnvVars = Map.empty, art_SecretRefs = Map.empty, art_Language = '''',
      art_Mode = '''', art_StaticFiles = '''', art_Error = '''', art_CreatedAt = 0, art_UpdatedAt = 0, art_StorageRef = '''',
      art_Version = 1, art_VersionID = '''', art_SharedWith = []\<rparr>"

theorem memory_store_refines_map_witness:
  "\<exists>m. run_ops spec_do [OCreate (sample_artifact ''1'' ''a''), OCreate (sample_artifact ''2'' ''a''), ODelete ''1''] Map.empty =
     (m, [None, Some (ErrAlreadyExists ''a''), None])"
proof -
  let ?xs = "[OCreate (sample_artifact ''1'' ''a''), OCreate (sample_artifact ''2'' ''a''), ODelete ''1'']"
  have "disciplined_run ?xs Map.empty" by (auto simp: sample_artifact_def named_def)
  moreover obtain s rs where r: "run_ops ms_step ?xs NewMemoryStore = (s, rs)"
    by (cases "run_ops ms_step ?xs NewMemoryStore")
  moreover have "rs = [None, Some (ErrAlreadyExists ''a''), None]"
    using r by (auto simp: NewMemoryStore_def ms_Create_def ms_Delete_def sample_artifact_def)
  ultimately show ?thesis using memory_store_refines_map [of ?xs s rs] by blast
qed

text \<open>Outside the discipline it is not: after an update that renames an artifact and its deletion, a read by
  the old name goes through a nil pointer.\<close>

theorem rename_then_delete_panics:
  "ms_GetByName ''a'' (fst (run_ops ms_step
     [OCreate (sample_artifact ''1'' ''a''), OUpdate (sample_artifact ''1'' ''b''), ODelete ''1''] NewMemoryStore)) = None"
  by (simp add: NewMemoryStore_def ms_Create_def ms_Update_def ms_Delete_def ms_GetByName_def sample_artifact_def)

end
