(* ===== verification/Appspec.thy ===== *)
theory Appspec
  imports Prelude
begin

section \<open>How an app is run\<close>

text \<open>
  \<open>src/internal/appspec/appspec.go\<close>: language, entry point and run command of a set of source files.  A file map is the list of
  its entries in the order one iteration visits them; Go's order is random, so the results must not depend on it.
\<close>

type_synonym files = "(string \<times> string) list"

definition LangStatic :: string where "LangStatic = ''static''"
definition LangNodeJS :: string where "LangNodeJS = ''nodejs''"
definition LangPython :: string where "LangPython = ''python''"
definition LangGo :: string where "LangGo = ''go''"
definition LangRust :: string where "LangRust = ''rust''"

definition entrypointCandidates :: "string \<Rightarrow> string list option" where
  "entrypointCandidates language =
     (if language = LangPython then Some [''app.py'', ''main.py'', ''server.py'', ''run.py'']
      else if language = LangNodeJS then Some [''index.js'', ''server.js'', ''app.js'', ''main.js'']
      else None)"

record signals =
  hasGoMod :: bool
  hasCargo :: bool
  hasPkgJSON :: bool
  hasPython :: bool
  hasGoFile :: bool
  hasHTML :: bool

definition no_signals :: signals where
  "no_signals = \<lparr>hasGoMod = False, hasCargo = False, hasPkgJSON = False, hasPython = False, hasGoFile = False, hasHTML = False\<rparr>"

definition signal :: "string \<Rightarrow> signals \<Rightarrow> signals" where
  "signal name s =
     (let lower = ToLower name in
      if lower = ''go.mod'' then s\<lparr>hasGoMod := True\<rparr>
      else if lower = ''cargo.toml'' then s\<lparr>hasCargo := True\<rparr>
      else if lower = ''package.json'' then s\<lparr>hasPkgJSON := True\<rparr>
      else if lower = ''requirements.txt'' \<or> lower = ''main.py'' \<or> lower = ''app.py'' then s\<lparr>hasPython := True\<rparr>
      else if HasSuffix lower ''.go'' then s\<lparr>hasGoFile := True\<rparr>
      else if HasSuffix lower ''.html'' then s\<lparr>hasHTML := True\<rparr>
      else s)"

definition DetectLanguage :: "files \<Rightarrow> string" where
  "DetectLanguage files =
     (let s = fold signal (map fst files) no_signals in
      if hasGoMod s then LangGo
      else if hasCargo s then LangRust
      else if hasPkgJSON s then LangNodeJS
      else if hasPython s then LangPython
      else if hasGoFile s then LangGo
      else if hasHTML s then LangStatic
      else LangStatic)"

definition Entrypoint :: "string \<Rightarrow> files \<Rightarrow> string" where
  "Entrypoint language files =
     (case entrypointCandidates language of
        None \<Rightarrow> ''''
      | Some candidates \<Rightarrow>
          (case find (\<lambda>c. c \<in> set (map fst files)) candidates of Some c \<Rightarrow> c | None \<Rightarrow> hd candidates))"

definition RunCommand :: "string \<Rightarrow> files \<Rightarrow> string list" where
  "RunCommand language files =
     (if language = LangPython then [''python'', Entrypoint LangPython files]
      else if language = LangNodeJS then [''node'', Entrypoint LangNodeJS files]
      else [])"

definition Interpreted :: "string \<Rightarrow> bool" where
  "Interpreted language \<longleftrightarrow> language = LangPython \<or> language = LangNodeJS"

lemmas lang_defs = LangStatic_def LangNodeJS_def LangPython_def LangGo_def LangRust_def

subsection \<open>Properties\<close>

definition go_mod :: "string \<Rightarrow> bool" where "go_mod n \<longleftrightarrow> ToLower n = ''go.mod''"
definition cargo :: "string \<Rightarrow> bool" where "cargo n \<longleftrightarrow> ToLower n = ''cargo.toml''"
definition package_json :: "string \<Rightarrow> bool" where "package_json n \<longleftrightarrow> ToLower n = ''package.json''"
definition python_file :: "string \<Rightarrow> bool" where "python_file n \<longleftrightarrow> ToLower n \<in> {''requirements.txt'', ''main.py'', ''app.py''}"
definition go_file :: "string \<Rightarrow> bool" where "go_file n \<longleftrightarrow> HasSuffix (ToLower n) ''.go''"

lemma fold_signal:
  "fold signal names s =
     \<lparr>hasGoMod = hasGoMod s \<or> list_ex go_mod names, hasCargo = hasCargo s \<or> list_ex cargo names,
      hasPkgJSON = hasPkgJSON s \<or> list_ex package_json names, hasPython = hasPython s \<or> list_ex python_file names,
      hasGoFile = hasGoFile s \<or> list_ex go_file names,
      hasHTML = hasHTML s \<or> list_ex (\<lambda>n. HasSuffix (ToLower n) ''.html'') names\<rparr>"
proof (induction names arbitrary: s)
  case (Cons n names)
  have suf: "HasSuffix x ''.go'' \<Longrightarrow> \<not> HasSuffix x ''.html''" for x
  proof
    assume "HasSuffix x ''.go''" "HasSuffix x ''.html''"
    then have "last x = CHR ''o''" "last x = CHR ''l''" by (auto simp: HasSuffix_iff)
    then show False by simp
  qed
  have lit: "\<not> HasSuffix ''go.mod'' ''.go''" "\<not> HasSuffix ''cargo.toml'' ''.go''" "\<not> HasSuffix ''package.json'' ''.go''"
    "\<not> HasSuffix ''requirements.txt'' ''.go''" "\<not> HasSuffix ''main.py'' ''.go''" "\<not> HasSuffix ''app.py'' ''.go''"
    "\<not> HasSuffix ''go.mod'' ''.html''" "\<not> HasSuffix ''cargo.toml'' ''.html''" "\<not> HasSuffix ''package.json'' ''.html''"
    "\<not> HasSuffix ''requirements.txt'' ''.html''" "\<not> HasSuffix ''main.py'' ''.html''" "\<not> HasSuffix ''app.py'' ''.html''"
    by (simp_all add: HasSuffix_def)
  show ?case unfolding fold_simps comp_apply Cons.IH
    by (rule signals.equality)
       (auto simp: signal_def Let_def go_mod_def [of n] cargo_def [of n] package_json_def [of n] python_file_def [of n] go_file_def [of n] lit dest: suf)
qed simp

text \<open>The detected language is a function of the set of file names alone: neither the order in which the map is visited nor
  the contents matter, so detection is deterministic.
\<close>

theorem detect_language_ignores_order:
  assumes "set (map fst files) = set (map fst files')"
  shows "DetectLanguage files = DetectLanguage files'"
proof -
  have "list_ex P (map fst files) = list_ex P (map fst files')" for P
    using assms by (simp only: list_ex_iff)
  then show ?thesis by (simp add: DetectLanguage_def fold_signal)
qed

theorem detect_language_ignores_order_witness:
  "DetectLanguage [(''app.py'', ''a''), (''go.mod'', '''')] = DetectLanguage [(''go.mod'', ''b''), (''app.py'', '''')]"
  by (rule detect_language_ignores_order) auto

text \<open>The run command names a file that is there, unless no candidate is.\<close>

lemma entrypoint_present:
  assumes "entrypointCandidates language = Some cs" "\<exists>c \<in> set cs. c \<in> set (map fst files)"
  shows "Entrypoint language files \<in> set (map fst files)"
proof -
  from assms(2) have "find (\<lambda>c. c \<in> set (map fst files)) cs \<noteq> None" by (simp only: find_None_iff) blast
  then obtain c where c: "find (\<lambda>c. c \<in> set (map fst files)) cs = Some c" by blast
  then have "c \<in> set (map fst files)" by (simp only: find_Some_iff) blast
  with c assms(1) show ?thesis by (simp add: Entrypoint_def)
qed

lemma run_command_interpreted: "RunCommand language files \<noteq> [] \<longleftrightarrow> Interpreted language"
  by (simp add: RunCommand_def Interpreted_def)

end
