(* ===== verification/Paths.thy ===== *)
theory Paths
  imports Prelude "HOL-Library.Sublist"
begin

section \<open>Package path/filepath\<close>

text \<open>
  The lexical functions of Go's \<open>path/filepath\<close> (on Unix) that guard the agent's writes: \<open>Clean\<close>, \<open>IsAbs\<close>,
  \<open>Join\<close> and \<open>Rel\<close>, defined on the slash-separated elements of a path by the rules of their documentation.
  The lemmas say where a checked relative path ends up when it is joined to a root.
\<close>

definition elements :: "string \<Rightarrow> string list" where
  "elements p = filter (\<lambda>e. e \<noteq> '''' \<and> e \<noteq> ''.'') (split_on (CHR ''/'') p)"

definition IsAbs :: "string \<Rightarrow> bool" where
  "IsAbs p \<longleftrightarrow> HasPrefix p ''/''"

text \<open>One element on top of the cleaned ones: \<open>..\<close> takes one back, stays at the root, or leads out.\<close>

definition clean_step :: "bool \<Rightarrow> string \<Rightarrow> string list \<Rightarrow> string list" where
  "clean_step rooted e out =
     (if e = ''..'' then
        (if out \<noteq> [] \<and> last out \<noteq> ''..'' then butlast out else if rooted then out else out @ [''..''])
      else out @ [e])"

definition cleaned :: "string \<Rightarrow> string list" where
  "cleaned p = fold (clean_step (IsAbs p)) (elements p) []"

definition Clean :: "string \<Rightarrow> string" where
  "Clean p =
     (let body = join_with ''/'' (cleaned p) in
      if IsAbs p then ''/'' @ body else if body = '''' then ''.'' else body)"

definition JoinPath :: "string \<Rightarrow> string \<Rightarrow> string" where
  "JoinPath d e = (if d = '''' \<and> e = '''' then '''' else if d = '''' then Clean e else if e = '''' then Clean d else Clean (d @ ''/'' @ e))"

definition DirOf :: "string \<Rightarrow> string" where
  "DirOf p = (case LastIndexByte p (CHR ''/'') of None \<Rightarrow> ''.'' | Some i \<Rightarrow> Clean (take (i + 1) p))"

fun strip_common :: "string list \<Rightarrow> string list \<Rightarrow> string list \<times> string list" where
  "strip_common (b # bs) (t # ts) = (if b = t then strip_common bs ts else (b # bs, t # ts))"
| "strip_common bs ts = (bs, ts)"

text \<open>\<open>None\<close> is the error that no relative path exists.\<close>

definition Rel :: "string \<Rightarrow> string \<Rightarrow> string option" where
  "Rel base targ =
     (if IsAbs base \<noteq> IsAbs targ then None
      else case strip_common (cleaned base) (cleaned targ) of (bs, ts) \<Rightarrow>
        if bs \<noteq> [] \<and> hd bs = ''..'' then None
        else let r = replicate (length bs) ''..'' @ ts in Some (if r = [] then ''.'' else join_with ''/'' r))"

text \<open>The guard the sources put before a write: absolute paths and those that lead out are refused.\<close>

definition illegal_path :: "string \<Rightarrow> bool" where
  "illegal_path clean \<longleftrightarrow> IsAbs clean \<or> clean = ''..'' \<or> HasPrefix clean ''../''"

subsection \<open>Cleaned paths\<close>

definition path_element :: "string \<Rightarrow> bool" where
  "path_element e \<longleftrightarrow> e \<noteq> '''' \<and> e \<noteq> ''.'' \<and> CHR ''/'' \<notin> set e"

text \<open>Leading \<open>..\<close> and then none.\<close>

definition clean_list :: "bool \<Rightarrow> string list \<Rightarrow> bool" where
  "clean_list rooted es \<longleftrightarrow> (\<exists>n names. es = replicate n ''..'' @ names \<and> (rooted \<longrightarrow> n = 0) \<and>
     list_all (\<lambda>e. path_element e \<and> e \<noteq> ''..'') names)"

lemma elements_ok: "list_all path_element (elements p)"
  using split_on_parts [of _ "CHR ''/''" p] by (simp add: elements_def list_all_iff path_element_def)

lemma clean_list_snoc:
  assumes "clean_list rooted es" "path_element e" "e \<noteq> ''..''"
  shows "clean_list rooted (es @ [e])"
proof -
  from assms(1) obtain n names where "es = replicate n ''..'' @ names" "rooted \<longrightarrow> n = 0"
    "list_all (\<lambda>e. path_element e \<and> e \<noteq> ''..'') names" unfolding clean_list_def by blast
  with assms(2,3) show ?thesis unfolding clean_list_def
    by (intro exI [of _ n] exI [of _ "names @ [e]"]) simp
qed

lemma clean_step_ok:
  assumes "clean_list rooted es" "path_element e"
  shows "clean_list rooted (clean_step rooted e es)"
proof (cases "e = ''..''")
  case False
  then show ?thesis using clean_list_snoc [OF assms] by (simp add: clean_step_def)
next
  case True
  from assms(1) obtain n names where es: "es = replicate n ''..'' @ names" "rooted \<longrightarrow> n = 0"
    "list_all (\<lambda>e. path_element e \<and> e \<noteq> ''..'') names" unfolding clean_list_def by blast
  show ?thesis
  proof (cases names rule: rev_cases)
    case Nil
    have "es \<noteq> [] \<Longrightarrow> last es = ''..''" using es(1) Nil by (cases n) (simp_all add: last_replicate)
    then have "clean_step rooted e es = (if rooted then es else replicate (Suc n) ''..'')"
      using es(1) Nil True by (auto simp: clean_step_def replicate_append_same)
    moreover have "clean_list False (replicate (Suc n) ''..'')"
      unfolding clean_list_def by (intro exI [of _ "Suc n"] exI [of _ "[]"]) simp
    ultimately show ?thesis using assms(1) by (cases rooted) simp_all
  next
    case (snoc ns x)
    then have "clean_step rooted e es = replicate n ''..'' @ ns" using es True by (auto simp: clean_step_def butlast_append)
    moreover have "list_all (\<lambda>e. path_element e \<and> e \<noteq> ''..'') ns" using es(3) snoc by simp
    ultimately show ?thesis unfolding clean_list_def using es(2) by blast
  qed
qed

lemma fold_clean_ok: "clean_list rooted es \<Longrightarrow> list_all path_element xs \<Longrightarrow> clean_list rooted (fold (clean_step rooted) xs es)"
  by (induction xs arbitrary: es) (simp_all add: clean_step_ok)

lemma clean_list_Nil [simp]: "clean_list rooted []"
  unfolding clean_list_def by (intro exI [of _ 0] exI [of _ "[]"]) simp

lemma cleaned_ok: "clean_list (IsAbs p) (cleaned p)"
  unfolding cleaned_def by (rule fold_clean_ok) (simp_all add: elements_ok)

lemma clean_list_elements:
  assumes "clean_list rooted es" "e \<in> set es"
  shows "path_element e"
proof -
  from assms(1) obtain n names where es: "es = replicate n ''..'' @ names" "list_all (\<lambda>e. path_element e \<and> e \<noteq> ''..'') names"
    unfolding clean_list_def by blast
  with assms(2) have "e = ''..'' \<or> e \<in> set names" by auto
  then show ?thesis
  proof
    assume "e = ''..''"
    then show ?thesis by (simp add: path_element_def)
  next
    assume "e \<in> set names"
    with es(2) show ?thesis by (simp add: list_all_iff)
  qed
qed

text \<open>Cleaning a clean list of names changes nothing.\<close>

lemma fold_clean_names:
  "list_all (\<lambda>e. e \<noteq> ''..'') xs \<Longrightarrow> fold (clean_step rooted) xs es = es @ xs"
  by (induction xs arbitrary: es) (simp_all add: clean_step_def)

lemma fold_clean_dots: "fold (clean_step False) (replicate n ''..'') (replicate m ''..'') = replicate (m + n) ''..''"
proof (induction n arbitrary: m)
  case (Suc n)
  have "clean_step False ''..'' (replicate m ''..'') = replicate (Suc m) ''..''"
    by (cases m) (auto simp: clean_step_def replicate_append_same last_replicate)
  with Suc.IH [of "Suc m"] show ?case by simp
qed simp

lemma fold_clean_clean: "clean_list rooted es \<Longrightarrow> fold (clean_step rooted) es [] = es"
proof -
  assume "clean_list rooted es"
  then obtain n names where es: "es = replicate n ''..'' @ names" "rooted \<longrightarrow> n = 0"
    "list_all (\<lambda>e. path_element e \<and> e \<noteq> ''..'') names" unfolding clean_list_def by blast
  have "fold (clean_step rooted) (replicate n ''..'') [] = replicate n ''..''"
    using es(2) fold_clean_dots [of n 0] by (cases rooted) simp_all
  moreover have "list_all (\<lambda>e. e \<noteq> ''..'') names" using es(3) by (simp add: list_all_iff)
  ultimately show ?thesis using es(1) by (simp add: fold_clean_names)
qed

lemma elements_join:
  assumes "list_all path_element es"
  shows "elements (join_with ''/'' es) = es" "elements (''/'' @ join_with ''/'' es) = es"
proof -
  have e: "elements ('''') = []" by (simp add: elements_def)
  show 1: "elements (join_with ''/'' es) = es"
  proof (cases "es = []")
    case False
    then have "split_on (CHR ''/'') (join_with ''/'' es) = es"
      using assms by (intro split_on_join) (auto simp: list_all_iff path_element_def)
    then show ?thesis using assms by (simp add: elements_def list_all_iff path_element_def filter_id_conv)
  qed (simp add: e)
  then show "elements (''/'' @ join_with ''/'' es) = es" by (simp add: elements_def)
qed

lemma join_head:
  assumes "es \<noteq> []" "hd es \<noteq> ''''"
  shows "hd (join_with ''/'' es) = hd (hd es)" "join_with ''/'' es \<noteq> ''''"
proof -
  obtain e fs where es: "es = e # fs" using assms(1) by (cases es) auto
  with assms(2) show "hd (join_with ''/'' es) = hd (hd es)" "join_with ''/'' es \<noteq> ''''"
    by (cases fs; simp)+
qed

lemma IsAbs_iff: "IsAbs p \<longleftrightarrow> p \<noteq> '''' \<and> hd p = CHR ''/''"
  by (cases p) (simp_all add: IsAbs_def HasPrefix_def)

lemma cleaned_head:
  assumes "cleaned p \<noteq> []"
  shows "hd (cleaned p) \<noteq> ''''" "hd (hd (cleaned p)) \<noteq> CHR ''/''"
proof -
  have "path_element (hd (cleaned p))" by (rule clean_list_elements [OF cleaned_ok [of p]]) (use assms in simp)
  then show "hd (cleaned p) \<noteq> ''''" "hd (hd (cleaned p)) \<noteq> CHR ''/''"
    unfolding path_element_def by (simp, metis hd_in_set)
qed

lemma IsAbs_Clean: "IsAbs (Clean p) \<longleftrightarrow> IsAbs p"
proof -
  have "\<not> IsAbs (join_with ''/'' (cleaned p))"
  proof (cases "cleaned p = []")
    case False
    then show ?thesis using join_head [OF False] cleaned_head [OF False] by (simp add: IsAbs_iff)
  qed (simp add: IsAbs_iff)
  moreover have "IsAbs (''/'' @ q)" for q by (simp add: IsAbs_iff)
  moreover have "\<not> IsAbs ''.''" by (simp add: IsAbs_iff)
  ultimately show ?thesis by (simp add: Clean_def Let_def)
qed

lemma elements_Clean: "elements (Clean p) = cleaned p"
proof -
  have "list_all path_element (cleaned p)" using clean_list_elements [OF cleaned_ok] by (simp add: list_all_iff)
  note j = elements_join [OF this]
  have "join_with ''/'' (cleaned p) = '''' \<Longrightarrow> cleaned p = []"
    using join_head(2) [of "cleaned p"] cleaned_head(1) [of p] by blast
  then show ?thesis using j by (auto simp: Clean_def Let_def) (simp add: elements_def)
qed

lemma cleaned_Clean: "cleaned (Clean p) = cleaned p"
  by (simp add: cleaned_def [of "Clean p"] elements_Clean IsAbs_Clean fold_clean_clean [OF cleaned_ok])

text \<open>\<open>Clean\<close> is idempotent.\<close>

lemma Clean_idem: "Clean (Clean p) = Clean p"
  unfolding Clean_def [of "Clean p"] cleaned_Clean IsAbs_Clean unfolding Clean_def ..

subsection \<open>Paths below a root\<close>

definition plain_names :: "string list \<Rightarrow> bool" where
  "plain_names es \<longleftrightarrow> list_all (\<lambda>e. path_element e \<and> e \<noteq> ''..'') es"

lemma join_dots: "n > 0 \<Longrightarrow> illegal_path (join_with ''/'' (replicate n ''..'' @ names))"
  by (cases n; cases "replicate (n - 1) ''..'' @ names")
     (auto simp: illegal_path_def HasPrefix_def)

text \<open>A path that passes the guard is a list of plain names.\<close>

lemma legal_path_plain:
  assumes "\<not> illegal_path (Clean name)"
  shows "\<not> IsAbs name" "plain_names (cleaned name)"
proof -
  show na: "\<not> IsAbs name" using assms IsAbs_Clean by (simp add: illegal_path_def)
  obtain n names where c: "cleaned name = replicate n ''..'' @ names" "list_all (\<lambda>e. path_element e \<and> e \<noteq> ''..'') names"
    using cleaned_ok [of name] unfolding clean_list_def by blast
  have "n = 0"
  proof (rule ccontr)
    assume "n \<noteq> 0"
    then have "illegal_path (join_with ''/'' (cleaned name))" using join_dots c(1) by simp
    moreover have "Clean name = join_with ''/'' (cleaned name)"
      using na join_head(2) [of "cleaned name"] c(1) \<open>n \<noteq> 0\<close> by (cases n) (simp_all add: Clean_def Let_def)
    ultimately show False using assms by simp
  qed
  with c show "plain_names (cleaned name)" by (simp add: plain_names_def)
qed

lemma split_on_Cons_sep: "split_on b (xs @ b # ys) = split_on b xs @ split_on b ys"
proof (induction xs)
  case (Cons c xs)
  then show ?case by (cases "split_on b xs") auto
qed simp

lemma elements_append: "elements (d @ ''/'' @ e) = elements d @ elements e"
  by (simp add: elements_def split_on_Cons_sep)

lemma join_inside:
  assumes "\<not> illegal_path (Clean name)"
  shows "cleaned (JoinPath root (Clean name)) = cleaned root @ cleaned name" "IsAbs (JoinPath root (Clean name)) \<longleftrightarrow> IsAbs root"
proof -
  have p: "plain_names (cleaned name)" and na: "\<not> IsAbs name" using legal_path_plain [OF assms] by simp_all
  have ne: "Clean name \<noteq> ''''" by (simp add: Clean_def Let_def)
  show "cleaned (JoinPath root (Clean name)) = cleaned root @ cleaned name"
  proof (cases "root = ''''")
    case True
    then show ?thesis using ne by (simp add: JoinPath_def cleaned_Clean) (simp add: cleaned_def elements_def)
  next
    case False
    then have abs: "IsAbs (root @ ''/'' @ q) \<longleftrightarrow> IsAbs root" for q by (simp add: IsAbs_iff)
    have "cleaned (root @ ''/'' @ Clean name) = fold (clean_step (IsAbs root)) (elements root @ cleaned name) []"
      unfolding cleaned_def [of "root @ ''/'' @ Clean name"] abs elements_append elements_Clean ..
    also have "\<dots> = cleaned root @ cleaned name"
      using p by (simp add: cleaned_def [of root] fold_clean_names plain_names_def list_all_iff)
    finally show ?thesis using ne False by (simp add: JoinPath_def cleaned_Clean)
  qed
  show "IsAbs (JoinPath root (Clean name)) \<longleftrightarrow> IsAbs root"
    using ne na by (cases "root = ''''") (simp_all add: JoinPath_def IsAbs_Clean, simp_all add: IsAbs_iff)
qed

lemma strip_common_prefix: "strip_common xs (xs @ ys) = ([], ys)"
  by (induction xs) simp_all

text \<open>The second check, on the relative path of the joined result, never refuses what the first accepted.\<close>

lemma rel_inside:
  assumes "\<not> illegal_path (Clean name)"
  shows "Rel root (JoinPath root (Clean name)) = Some (Clean name)"
proof -
  have p: "plain_names (cleaned name)" "\<not> IsAbs name" using legal_path_plain [OF assms] by simp_all
  have "cleaned name = [] \<longleftrightarrow> join_with ''/'' (cleaned name) = ''''"
    using join_head(2) [of "cleaned name"] cleaned_head(1) [of name] by auto
  then show ?thesis
    using p(2) by (simp add: Rel_def join_inside [OF assms] strip_common_prefix Let_def) (simp add: Clean_def Let_def)
qed

text \<open>The directory of a clean path is one of its prefixes.\<close>

lemma clean_list_prefix: "clean_list rooted (xs @ ys) \<Longrightarrow> clean_list rooted xs"
proof -
  assume "clean_list rooted (xs @ ys)"
  then obtain n names where es: "xs @ ys = replicate n ''..'' @ names" "rooted \<longrightarrow> n = 0"
    "list_all (\<lambda>e. path_element e \<and> e \<noteq> ''..'') names" unfolding clean_list_def by blast
  have "xs = take (length xs) (replicate n ''..'' @ names)" using es(1) by (metis append_eq_conv_conj)
  then have "xs = replicate (min (length xs) n) ''..'' @ take (length xs - n) names" by simp
  moreover have "list_all (\<lambda>e. path_element e \<and> e \<noteq> ''..'') (take (length xs - n) names)"
    using es(3) by (auto simp: list_all_iff dest: in_set_takeD)
  ultimately show ?thesis unfolding clean_list_def using es(2) by (metis min_0R)
qed

lemma LastIndexByte_split:
  assumes "LastIndexByte p b = Some i"
  obtains e where "p = take i p @ [b] @ e" "take (i + 1) p = take i p @ [b]"
proof -
  from assms obtain k where k: "IndexByte (rev p) b = Some k" "i = length p - 1 - k" by (auto simp: LastIndexByte_def)
  with IndexByte_Some [OF k(1)] have "k < length p" "rev p ! k = b" by auto
  then have "i < length p" "p ! i = b" using k(2) by (auto simp: rev_nth)
  then have "p = take i p @ [b] @ drop (i + 1) p" "take (i + 1) p = take i p @ [b]"
    using id_take_nth_drop [of i p] by (auto simp: take_Suc_conv_app_nth)
  then show thesis by (rule that)
qed

lemma DirOf_prefix:
  assumes "elements p = cleaned p"
  shows "prefix (cleaned (DirOf p)) (cleaned p)" "IsAbs (DirOf p) \<longleftrightarrow> IsAbs p"
proof -
  have "prefix (cleaned (DirOf p)) (cleaned p) \<and> (IsAbs (DirOf p) \<longleftrightarrow> IsAbs p)"
  proof (cases "LastIndexByte p (CHR ''/'')")
    case None
    then have "CHR ''/'' \<notin> set p" by (auto simp: LastIndexByte_def IndexByte_None)
    then have "\<not> IsAbs p" by (cases p) (auto simp: IsAbs_iff)
    with None show ?thesis by (simp add: DirOf_def IsAbs_iff) (simp add: cleaned_def elements_def)
  next
    case (Some i)
    from LastIndexByte_split [OF Some] obtain e where
      split: "p = take i p @ ''/'' @ e" "take (i + 1) p = take i p @ ''/''" by auto
    let ?d = "take (i + 1) p"
    have abs: "IsAbs ?d \<longleftrightarrow> IsAbs p" by (cases p) (simp_all add: IsAbs_iff)
    have "elements ?d = elements (take i p)" using elements_append [of "take i p" "[]"] split(2) by (simp add: elements_def)
    then have el: "cleaned p = elements ?d @ elements e" using elements_append split(1) assms by metis
    have "clean_list (IsAbs p) (elements ?d)"
      using cleaned_ok [of p] unfolding el by (rule clean_list_prefix)
    then have "cleaned ?d = elements ?d" unfolding cleaned_def abs by (rule fold_clean_clean)
    with el abs Some show ?thesis by (simp add: DirOf_def cleaned_Clean IsAbs_Clean)
  qed
  then show "prefix (cleaned (DirOf p)) (cleaned p)" "IsAbs (DirOf p) \<longleftrightarrow> IsAbs p" by simp_all
qed

text \<open>At or below a directory.\<close>

definition below :: "string \<Rightarrow> string \<Rightarrow> bool" where
  "below dir p \<longleftrightarrow> IsAbs p = IsAbs dir \<and> prefix (cleaned dir) (cleaned p) \<and>
     plain_names (drop (length (cleaned dir)) (cleaned p))"

definition above :: "string \<Rightarrow> string \<Rightarrow> bool" where
  "above dir p \<longleftrightarrow> IsAbs p = IsAbs dir \<and> prefix (cleaned p) (cleaned dir)"

lemma below_refl [simp]: "below dir dir"
  by (simp add: below_def plain_names_def)

lemma join_below: "\<not> illegal_path (Clean name) \<Longrightarrow> below dir (JoinPath dir (Clean name))"
  by (simp add: below_def join_inside legal_path_plain)

lemma elements_JoinPath: "elements (JoinPath d (Clean e)) = cleaned (JoinPath d (Clean e))"
proof -
  have "Clean e \<noteq> ''''" by (simp add: Clean_def Let_def)
  then show ?thesis by (simp add: JoinPath_def elements_Clean cleaned_Clean)
qed

lemma dir_of_join:
  assumes "\<not> illegal_path (Clean name)"
  shows "below dir (DirOf (JoinPath dir (Clean name))) \<or> above dir (DirOf (JoinPath dir (Clean name)))"
proof -
  let ?p = "JoinPath dir (Clean name)" and ?c = "cleaned (DirOf (JoinPath dir (Clean name)))"
  note D = DirOf_prefix [OF elements_JoinPath [of dir name]]
  have abs: "IsAbs (DirOf ?p) \<longleftrightarrow> IsAbs dir" using D(2) join_inside(2) [OF assms] by simp
  have "prefix ?c (cleaned dir @ cleaned name)" using D(1) join_inside(1) [OF assms, of dir] by simp
  then consider "prefix ?c (cleaned dir)" | ns where "?c = cleaned dir @ ns" "prefix ns (cleaned name)"
    by (auto simp: prefix_append)
  then show ?thesis
  proof cases
    case 1
    then show ?thesis using abs by (simp add: above_def)
  next
    case 2
    then have "plain_names ns"
      using legal_path_plain(2) [OF assms] by (auto simp: plain_names_def prefix_def)
    with 2 abs show ?thesis by (simp add: below_def)
  qed
qed

subsection \<open>Base names and extensions\<close>

definition BaseOf :: "string \<Rightarrow> string" where
  "BaseOf p =
     (if p = '''' then ''.''
      else let q = rev (dropWhile (\<lambda>c. c = CHR ''/'') (rev p));
               b = (case LastIndexByte q (CHR ''/'') of None \<Rightarrow> q | Some i \<Rightarrow> drop (i + 1) q)
           in if b = '''' then ''/'' else b)"

text \<open>\<open>Ext\<close>: from the last dot of the last element.\<close>

definition ExtOf :: "string \<Rightarrow> string" where
  "ExtOf p =
     (let b = (case LastIndexByte p (CHR ''/'') of None \<Rightarrow> p | Some i \<Rightarrow> drop (i + 1) p) in
      case LastIndexByte b (CHR ''.'') of None \<Rightarrow> '''' | Some i \<Rightarrow> drop i b)"

subsection \<open>The containment check by relative path\<close>

lemma strip_common_Nil: "strip_common xs ys = ([], ts) \<Longrightarrow> ys = xs @ ts"
proof (induction xs ys rule: strip_common.induct)
  case (1 b bs t ts')
  then show ?case by (auto split: if_splits)
qed auto

lemma clean_list_suffix_plain:
  assumes "clean_list rooted (xs @ ys)" "ys = [] \<or> hd ys \<noteq> ''..''"
  shows "plain_names ys"
proof (cases "ys = []")
  case True
  then show ?thesis by (simp add: plain_names_def)
next
  case False
  from assms(1) obtain n names where es: "xs @ ys = replicate n ''..'' @ names"
    "list_all (\<lambda>e. path_element e \<and> e \<noteq> ''..'') names" unfolding clean_list_def by blast
  have "n \<le> length xs"
  proof (rule ccontr)
    assume "\<not> n \<le> length xs"
    then have "(xs @ ys) ! length xs = ''..''" unfolding es(1) by (simp add: nth_append)
    with False assms(2) show False by (simp add: hd_conv_nth nth_append)
  qed
  moreover have "ys = drop (length xs) (replicate n ''..'' @ names)" unfolding es(1) [symmetric] by simp
  ultimately have "ys = drop (length xs - n) names" by simp
  with es(2) show ?thesis by (auto simp: plain_names_def list_all_iff dest: in_set_dropD)
qed

text \<open>A path whose relative path from \<open>base\<close> neither is nor starts with \<open>..\<close> lies below \<open>base\<close>.\<close>

lemma rel_below:
  assumes "Rel base targ = Some rel" "rel \<noteq> ''..''" "\<not> HasPrefix rel ''../''"
  shows "below base targ"
proof -
  obtain bs ts where st: "strip_common (cleaned base) (cleaned targ) = (bs, ts)" by fastforce
  have abs: "IsAbs base = IsAbs targ" using assms(1) by (auto simp: Rel_def split: if_splits)
  let ?r = "replicate (length bs) ''..'' @ ts"
  have rel: "rel = (if ?r = [] then ''.'' else join_with ''/'' ?r)"
    using assms(1) st by (auto simp: Rel_def Let_def split: if_splits)
  have dots: "join_with ''/'' (''..'' # es) = ''..'' \<or> HasPrefix (join_with ''/'' (''..'' # es)) ''../''" for es
    by (cases es) (auto simp: HasPrefix_def)
  have "bs = []"
  proof (rule ccontr)
    assume "bs \<noteq> []"
    then obtain k where "length bs = Suc k" by (cases bs) auto
    with rel dots [of "replicate k ''..'' @ ts"] assms(2,3) show False by auto
  qed
  with st have c: "cleaned targ = cleaned base @ ts" using strip_common_Nil by metis
  have "ts = [] \<or> hd ts \<noteq> ''..''"
    using rel \<open>bs = []\<close> dots [of "tl ts"] assms(2,3) by (cases ts) auto
  then have "plain_names ts" using cleaned_ok [of targ] c clean_list_suffix_plain by metis
  with c abs show ?thesis by (simp add: below_def)
qed

subsection \<open>Plain names\<close>

definition plain_name :: "string \<Rightarrow> bool" where
  "plain_name e \<longleftrightarrow> path_element e \<and> e \<noteq> ''..''"

lemma plain_name_path:
  assumes "plain_name e"
  shows "Clean e = e" "cleaned e = [e]" "\<not> illegal_path (Clean e)"
proof -
  have e: "elements e = [e]" using assms by (simp add: plain_name_def path_element_def elements_def split_on_no_sep)
  have n: "\<not> IsAbs e" using assms by (cases e) (auto simp: plain_name_def path_element_def IsAbs_iff)
  show c: "cleaned e = [e]" using assms e by (simp add: cleaned_def clean_step_def plain_name_def)
  with n show "Clean e = e" using assms by (simp add: Clean_def plain_name_def path_element_def)
  then show "\<not> illegal_path (Clean e)" using assms n
    by (auto simp: illegal_path_def plain_name_def path_element_def HasPrefix_iff)
qed

lemma below_trans:
  assumes "below a b" "below b c"
  shows "below a c"
proof -
  from assms obtain xs ys where "cleaned b = cleaned a @ xs" "plain_names xs" "cleaned c = cleaned b @ ys" "plain_names ys"
    "IsAbs b = IsAbs a" "IsAbs c = IsAbs b" unfolding below_def by (auto simp: prefix_def)
  then show ?thesis by (simp add: below_def plain_names_def)
qed

lemma join_plain: "plain_name n \<Longrightarrow> below d p \<Longrightarrow> below d (JoinPath p n)"
  using join_below [of n p] plain_name_path [of n] by (auto intro: below_trans)

lemma above_below:
  assumes "below wd dir" "above dir p"
  shows "below wd p \<or> above wd p"
proof -
  from assms(1) obtain xs where x: "cleaned dir = cleaned wd @ xs" "plain_names xs" "IsAbs dir = IsAbs wd"
    unfolding below_def by (auto simp: prefix_def)
  with assms(2) have p: "IsAbs p = IsAbs wd" "prefix (cleaned p) (cleaned wd @ xs)" unfolding above_def by simp_all
  from p(2) consider "prefix (cleaned p) (cleaned wd)" | ys where "cleaned p = cleaned wd @ ys" "prefix ys xs"
    by (auto simp: prefix_append)
  then show ?thesis
  proof cases
    case 1
    with p(1) show ?thesis by (simp add: above_def)
  next
    case 2
    with x(2) p(1) show ?thesis by (auto simp: below_def plain_names_def prefix_def)
  qed
qed

end
