(* ===== verification/Source_Fetch.thy ===== *)
theory Source_Fetch
  imports Paths Egress
begin

section \<open>Fetching and unpacking source tarballs\<close>

text \<open>
  \<open>src/internal/runneragent/source.go\<close> and \<open>src/internal/tarsafe/tarsafe.go\<close>: the agent downloads a gzipped tarball
  through a guarded client and writes its entries below a directory.  The HTTP exchange and the tar
  stream are arguments: the stream is the list of results of \<open>Next\<close>, each entry with the bytes reading it yields
  and how that reading ends.  The file system is the list of calls made so far; what a call answers is
  an argument that may depend on that list.
\<close>

subsection \<open>Package tarsafe\<close>

definition MaxUncompressedBytes :: int where
  "MaxUncompressedBytes = 512 * 1024 * 1024"

definition MaxEntries :: nat where
  "MaxEntries = 100000"

record LimitedReader =
  lr_n :: int

definition NewLimitedReader :: "int \<Rightarrow> LimitedReader" where
  "NewLimitedReader budget = \<lparr>lr_n = budget\<rparr>"

datatype read_err = ErrTooLarge | EOF | ReadErr string

text \<open>\<open>Read\<close>, given what the underlying reader would answer.\<close>

definition Read :: "nat \<times> read_err option \<Rightarrow> LimitedReader \<Rightarrow> LimitedReader \<times> (nat \<times> read_err option)" where
  "Read answer l =
     (if lr_n l < 0 then (l, (0, Some ErrTooLarge))
      else case answer of (n, err) \<Rightarrow>
        let l1 = l\<lparr>lr_n := lr_n l - int n\<rparr> in
        if lr_n l1 < 0 then (l1, (n, Some ErrTooLarge)) else (l1, (n, err)))"

subsection \<open>The guarded client\<close>

definition allowedScheme :: "string \<Rightarrow> bool" where
  "allowedScheme s \<longleftrightarrow> s = ''http'' \<or> s = ''https''"

definition source_blocked :: "(Addr \<Rightarrow> bool) option \<Rightarrow> Addr \<Rightarrow> bool" where
  "source_blocked dialGuard ip = (case dialGuard of Some g \<Rightarrow> g ip | None \<Rightarrow> IsLinkLocalOrLoopback ip)"

datatype fetch_err =
    NoClient
  | BuildRequest string
  | SchemeNotAllowed string
  | FetchSource string
  | FetchStatus int
  | Gunzip string
  | ReadTarball string
  | TooManyEntries
  | EntryTooLarge string int
  | IllegalPath string
  | EscapesDir string
  | MkdirErr string string
  | OpenErr string string
  | WriteErr string read_err
  | CloseErr string string
  | UnsupportedType string
  | BadDialAddress string
  | Unresolved string
  | DialNotAllowed Addr
  | TooManyRedirects
  | RedirectScheme string

text \<open>\<open>Control\<close> of the dialer, called with the resolved address of every connection.\<close>

definition dialControl ::
  "(string \<Rightarrow> Addr option) \<Rightarrow> (Addr \<Rightarrow> bool) option \<Rightarrow> string \<Rightarrow> fetch_err option" where
  "dialControl parseAddr dialGuard address =
     (case SplitHostPort address of
        None \<Rightarrow> Some (BadDialAddress address)
      | Some host \<Rightarrow>
          (case parseAddr host of
             None \<Rightarrow> Some (Unresolved host)
           | Some ip \<Rightarrow> if source_blocked dialGuard ip then Some (DialNotAllowed ip) else None))"

definition checkRedirect :: "string \<Rightarrow> nat \<Rightarrow> fetch_err option" where
  "checkRedirect scheme via =
     (if via \<ge> 10 then Some TooManyRedirects
      else if \<not> allowedScheme scheme then Some (RedirectScheme scheme)
      else None)"

subsection \<open>The tar stream and the file system\<close>

datatype Typeflag = TypeReg | TypeRegA | TypeDir | TypeOther byte

record tar_Header =
  hdr_Name :: string
  hdr_Typeflag :: Typeflag
  hdr_Size :: int
  hdr_Mode :: int

datatype tar_next = TarEntry tar_Header string "read_err option" | TarErr string

datatype fs_op =
    MkdirAll string int
  | OpenTrunc string int
  | WriteTo string string
  | CloseFile string
  | RemoveAll string
  | Rename string string

text \<open>A file tree as \<open>Lstat\<close> and \<open>ReadDir\<close> show it; \<open>Broken\<close> is an entry one of them fails on.\<close>

datatype node = Regular string int | Directory int "(string \<times> node) list" | Special | Broken string

datatype rename_answer = Renamed | EXDEV | RenameErr string

record os =
  os_mkdir :: "fs_op list \<Rightarrow> string \<Rightarrow> string option"
  os_open :: "fs_op list \<Rightarrow> string \<Rightarrow> string option"
  os_room :: "fs_op list \<Rightarrow> string \<Rightarrow> nat"
  os_close :: "fs_op list \<Rightarrow> string \<Rightarrow> string option"
  os_remove :: "fs_op list \<Rightarrow> string \<Rightarrow> string option"
  os_rename :: "fs_op list \<Rightarrow> string \<Rightarrow> string \<Rightarrow> rename_answer"
  os_readdir :: "fs_op list \<Rightarrow> string \<Rightarrow> (string, string list) result"
  os_tree :: "fs_op list \<Rightarrow> string \<Rightarrow> node"
  os_mkdirtemp :: "fs_op list \<Rightarrow> string \<Rightarrow> (string, string) result"

text \<open>\<open>io.CopyN(f, r, k)\<close>: how many bytes are copied, and the error: from a read, from a file that takes
  no more, or \<open>EOF\<close> when the entry has fewer than \<open>k\<close>.\<close>

definition CopyN :: "nat \<Rightarrow> string \<Rightarrow> read_err option \<Rightarrow> nat \<Rightarrow> nat \<times> read_err option" where
  "CopyN room data rerr k =
     (let want = min k (length data) in
      if room < want then (room, Some (ReadErr ''short write''))
      else if length data < k then (want, Some (case rerr of None \<Rightarrow> EOF | Some e \<Rightarrow> e))
      else (want, None))"

definition extractEntry ::
  "os \<Rightarrow> string \<Rightarrow> tar_Header \<Rightarrow> string \<Rightarrow> read_err option \<Rightarrow> fs_op list \<times> int \<Rightarrow> (fs_op list \<times> int) \<times> fetch_err option" where
  "extractEntry os dir hdr data rerr s =
     (case s of (log, rem) \<Rightarrow>
      let clean = Clean (hdr_Name hdr) in
      if illegal_path clean then (s, Some (IllegalPath (hdr_Name hdr)))
      else let dest = JoinPath dir clean in
      if (case Rel dir dest of None \<Rightarrow> True | Some rel \<Rightarrow> rel = ''..'' \<or> HasPrefix rel ''../'')
      then (s, Some (EscapesDir (hdr_Name hdr)))
      else case hdr_Typeflag hdr of
        TypeDir \<Rightarrow>
          ((log @ [MkdirAll dest 493], rem), map_option (MkdirErr dest) (os_mkdir os log dest))
      | TypeOther b \<Rightarrow> (s, Some (UnsupportedType (hdr_Name hdr)))
      | _ \<Rightarrow>
          (let log1 = log @ [MkdirAll (DirOf dest) 493] in
           case os_mkdir os log (DirOf dest) of
             Some e \<Rightarrow> ((log1, rem), Some (MkdirErr dest e))
           | None \<Rightarrow>
          (let log2 = log1 @ [OpenTrunc dest (hdr_Mode hdr AND 493)] in
           case os_open os log1 dest of
             Some e \<Rightarrow> ((log2, rem), Some (OpenErr dest e))
           | None \<Rightarrow>
          (case CopyN (os_room os log2 dest) data rerr (nat (rem + 1)) of (n, cerr) \<Rightarrow>
           let log3 = log2 @ [WriteTo dest (take n data)];
               rem3 = rem - int n;
               log4 = log3 @ [CloseFile dest]
           in if cerr \<noteq> None \<and> cerr \<noteq> Some EOF then ((log4, rem3), Some (WriteErr dest (the cerr)))
              else if int n > rem then ((log4, rem3), Some (WriteErr dest ErrTooLarge))
              else ((log4, rem3), map_option (CloseErr dest) (os_close os log3 dest))))))"

text \<open>The loop of \<open>Fetch\<close> over the entries.\<close>

fun fetchLoop :: "os \<Rightarrow> string \<Rightarrow> tar_next list \<Rightarrow> nat \<Rightarrow> fs_op list \<times> int \<Rightarrow> fs_op list \<times> fetch_err option" where
  "fetchLoop os dir [] entries s = (fst s, None)"
| "fetchLoop os dir (TarErr e # items) entries s = (fst s, Some (ReadTarball e))"
| "fetchLoop os dir (TarEntry hdr data rerr # items) entries s =
     (let entries1 = entries + 1 in
      if entries1 > MaxEntries then (fst s, Some TooManyEntries)
      else if hdr_Size hdr > MaxUncompressedBytes then (fst s, Some (EntryTooLarge (hdr_Name hdr) (hdr_Size hdr)))
      else case extractEntry os dir hdr data rerr s of
        (s1, Some err) \<Rightarrow> (fst s1, Some err)
      | (s1, None) \<Rightarrow> fetchLoop os dir items entries1 s1)"

record http_source =
  hs_client :: bool
  hs_request :: "string \<Rightarrow> (string, string) result"
  hs_do :: "string \<Rightarrow> (string, int) result"
  hs_gunzip :: "string \<Rightarrow> (string, tar_next list) result"

text \<open>\<open>hs_client\<close>: the client is set; \<open>hs_request\<close>: the scheme of the request, or why there is none; \<open>hs_do\<close>: the
  status code; \<open>hs_gunzip\<close>: the stream of the body.\<close>

definition Fetch :: "os \<Rightarrow> http_source \<Rightarrow> string \<Rightarrow> string \<Rightarrow> fs_op list \<times> fetch_err option" where
  "Fetch os src sourceURL dir =
     (if \<not> hs_client src then ([], Some NoClient)
      else case hs_request src sourceURL of
        Err e \<Rightarrow> ([], Some (BuildRequest e))
      | Ok scheme \<Rightarrow>
          if \<not> allowedScheme scheme then ([], Some (SchemeNotAllowed scheme))
          else case hs_do src sourceURL of
            Err e \<Rightarrow> ([], Some (FetchSource e))
          | Ok status \<Rightarrow>
              if status div 100 \<noteq> 2 then ([], Some (FetchStatus status))
              else case hs_gunzip src sourceURL of
                Err e \<Rightarrow> ([], Some (Gunzip e))
              | Ok items \<Rightarrow> fetchLoop os dir items 0 ([], MaxUncompressedBytes))"

subsection \<open>What one entry does\<close>

definition dest_of :: "string \<Rightarrow> tar_Header \<Rightarrow> string" where
  "dest_of dir hdr = JoinPath dir (Clean (hdr_Name hdr))"

fun confined :: "string \<Rightarrow> fs_op \<Rightarrow> bool" where
  "confined dir (MkdirAll p m) \<longleftrightarrow> below dir p \<or> above dir p"
| "confined dir (OpenTrunc p m) \<longleftrightarrow> below dir p"
| "confined dir (WriteTo p bs) \<longleftrightarrow> below dir p"
| "confined dir (CloseFile p) \<longleftrightarrow> below dir p"
| "confined dir (RemoveAll p) \<longleftrightarrow> below dir p"
| "confined dir (Rename p q) \<longleftrightarrow> below dir p \<and> below dir q"

fun op_bytes :: "fs_op \<Rightarrow> nat" where
  "op_bytes (WriteTo p bs) = length bs"
| "op_bytes _ = 0"

definition written :: "fs_op list \<Rightarrow> int" where
  "written ops = int (sum_list (map op_bytes ops))"

fun opens :: "fs_op \<Rightarrow> bool" where
  "opens (OpenTrunc p m) = True"
| "opens _ = False"

definition files_opened :: "fs_op list \<Rightarrow> nat" where
  "files_opened ops = length (filter opens ops)"

lemma written_append [simp]: "written (xs @ ys) = written xs + written ys" and written_Nil [simp]: "written [] = 0"
  by (simp_all add: written_def)

lemma files_opened_append [simp]: "files_opened (xs @ ys) = files_opened xs + files_opened ys" and files_opened_Nil [simp]: "files_opened [] = 0"
  by (simp_all add: files_opened_def)

lemma confined_below: "below wd dir \<Longrightarrow> confined dir op \<Longrightarrow> confined wd op"
  by (cases op) (auto intro: below_trans dest: above_below)

text \<open>A function on the log adds only calls inside a directory.\<close>

definition adds :: "string \<Rightarrow> fs_op list \<Rightarrow> fs_op list \<Rightarrow> bool" where
  "adds dir log log' \<longleftrightarrow> (\<exists>ops. log' = log @ ops \<and> list_all (confined dir) ops)"

lemma adds_refl [simp]: "adds dir log log"
  by (simp add: adds_def)

lemma adds_trans: "adds dir l1 l2 \<Longrightarrow> adds dir l2 l3 \<Longrightarrow> adds dir l1 l3"
  unfolding adds_def by (metis append_assoc list_all_append)

lemma adds_append: "adds dir l1 l2 \<Longrightarrow> list_all (confined dir) ops \<Longrightarrow> adds dir l1 (l2 @ ops)"
  unfolding adds_def by (metis append_assoc list_all_append)

text \<open>The calls an entry makes when all of them succeed; \<open>None\<close> for an entry that is refused.\<close>

definition entry_ops :: "string \<Rightarrow> tar_Header \<Rightarrow> string \<Rightarrow> fs_op list option" where
  "entry_ops dir hdr data =
     (if illegal_path (Clean (hdr_Name hdr)) then None
      else case hdr_Typeflag hdr of
        TypeOther b \<Rightarrow> None
      | TypeDir \<Rightarrow> Some [MkdirAll (dest_of dir hdr) 493]
      | _ \<Rightarrow> Some [MkdirAll (DirOf (dest_of dir hdr)) 493, OpenTrunc (dest_of dir hdr) (hdr_Mode hdr AND 493),
                   WriteTo (dest_of dir hdr) data, CloseFile (dest_of dir hdr)])"

lemma rel_check_passes:
  assumes "\<not> illegal_path (Clean name)"
  shows "\<not> (case Rel dir (JoinPath dir (Clean name)) of None \<Rightarrow> True | Some rel \<Rightarrow> rel = ''..'' \<or> HasPrefix rel ''../'')"
  using assms by (simp add: rel_inside [OF assms]) (simp add: illegal_path_def)

lemma CopyN_bounds: "CopyN room data rerr k = (n, e) \<Longrightarrow> n \<le> k \<and> n \<le> length data"
  by (auto simp: CopyN_def Let_def split: if_splits)

lemma CopyN_done: "CopyN room data rerr k = (n, e) \<Longrightarrow> e = None \<or> e = Some EOF \<Longrightarrow> n < k \<Longrightarrow> n = length data \<and> (rerr = None \<or> rerr = Some EOF)"
  by (auto simp: CopyN_def Let_def split: if_splits option.splits)

text \<open>Every entry adds confined calls, and takes what it wrote from the budget.\<close>

definition entry_step :: "string \<Rightarrow> tar_Header \<Rightarrow> string \<Rightarrow> fs_op list \<times> int \<Rightarrow> fs_op list \<times> int \<Rightarrow> bool \<Rightarrow> bool" where
  "entry_step dir hdr data s s' ok \<longleftrightarrow> (\<exists>ops. fst s' = fst s @ ops \<and> list_all (confined dir) ops \<and>
     snd s' = snd s - written ops \<and> files_opened ops \<le> 1 \<and> written ops \<le> snd s + 1 \<and>
     (ok \<longrightarrow> written ops \<le> snd s \<and> entry_ops dir hdr data = Some ops))"

lemma entry_step_none: "0 \<le> snd s \<Longrightarrow> entry_step dir hdr data s s False"
  unfolding entry_step_def by (intro exI [of _ "[]"]) simp

lemma entry_stepI:
  "fst s' = fst s @ ops \<Longrightarrow> list_all (confined dir) ops \<Longrightarrow> snd s' = snd s - written ops \<Longrightarrow> files_opened ops \<le> 1 \<Longrightarrow>
   written ops \<le> snd s + 1 \<Longrightarrow> (ok \<Longrightarrow> written ops \<le> snd s \<and> entry_ops dir hdr data = Some ops) \<Longrightarrow> entry_step dir hdr data s s' ok"
  unfolding entry_step_def by blast

lemma extract_regular:
  assumes "0 \<le> rem" "\<not> illegal_path (Clean (hdr_Name hdr))" "hdr_Typeflag hdr = TypeReg \<or> hdr_Typeflag hdr = TypeRegA"
    "extractEntry os dir hdr data rerr (log, rem) = (s', err)"
  shows "entry_step dir hdr data (log, rem) s' (err = None)"
proof -
  let ?d = "dest_of dir hdr" and ?m = "hdr_Mode hdr AND 493"
  let ?log1 = "log @ [MkdirAll (DirOf ?d) 493]"
  let ?log2 = "?log1 @ [OpenTrunc ?d ?m]"
  obtain n cerr where cp: "CopyN (os_room os ?log2 ?d) data rerr (nat (rem + 1)) = (n, cerr)" by fastforce
  note n = CopyN_bounds [OF cp] and fin = CopyN_done [OF cp]
  let ?ops = "[MkdirAll (DirOf ?d) 493, OpenTrunc ?d ?m, WriteTo ?d (take n data), CloseFile ?d]"
  have c: "below dir ?d" "below dir (DirOf ?d) \<or> above dir (DirOf ?d)"
    using join_below [OF assms(2)] dir_of_join [OF assms(2)] by (simp_all add: dest_of_def)
  have o: "entry_ops dir hdr data = Some [MkdirAll (DirOf ?d) 493, OpenTrunc ?d ?m, WriteTo ?d data, CloseFile ?d]"
    using assms(2,3) by (auto simp: entry_ops_def)
  have e: "extractEntry os dir hdr data rerr (log, rem) =
      (case os_mkdir os log (DirOf ?d) of Some e \<Rightarrow> ((?log1, rem), Some (MkdirErr ?d e)) | None \<Rightarrow>
       case os_open os ?log1 ?d of Some e \<Rightarrow> ((?log2, rem), Some (OpenErr ?d e)) | None \<Rightarrow>
       if cerr \<noteq> None \<and> cerr \<noteq> Some EOF then ((log @ ?ops, rem - int n), Some (WriteErr ?d (the cerr)))
       else if int n > rem then ((log @ ?ops, rem - int n), Some (WriteErr ?d ErrTooLarge))
       else ((log @ ?ops, rem - int n), map_option (CloseErr ?d) (os_close os (?log2 @ [WriteTo ?d (take n data)]) ?d)))"
    using assms(2,3) cp unfolding extractEntry_def prod.case Let_def dest_of_def
    by (elim disjE) (simp_all add: rel_check_passes cong: option.case_cong if_cong)
  note s' = assms(4) [unfolded e]
  consider (nodir) x where "os_mkdir os log (DirOf ?d) = Some x"
    | (nofile) x where "os_mkdir os log (DirOf ?d) = None" "os_open os ?log1 ?d = Some x"
    | (copied) "os_mkdir os log (DirOf ?d) = None" "os_open os ?log1 ?d = None" by (meson not_None_eq)
  then show ?thesis
  proof cases
    case nodir
    with s' c assms(1) show ?thesis
      by (intro entry_stepI [of _ _ "[MkdirAll (DirOf ?d) 493]"]) (auto simp: written_def files_opened_def)
  next
    case nofile
    with s' c assms(1) show ?thesis
      by (intro entry_stepI [of _ _ "[MkdirAll (DirOf ?d) 493, OpenTrunc ?d ?m]"]) (auto simp: written_def files_opened_def)
  next
    case copied
    have "fst s' = log @ ?ops" "snd s' = rem - int n" using s' copied by (auto split: if_splits)
    moreover have "err = None \<Longrightarrow> int n \<le> rem \<and> (cerr = None \<or> cerr = Some EOF)" using s' copied by (auto split: if_splits)
    ultimately show ?thesis
      using n c o fin assms(1) by (intro entry_stepI [of _ _ ?ops]) (auto simp: written_def files_opened_def)
  qed
qed

lemma extract_step:
  assumes "0 \<le> rem" "extractEntry os dir hdr data rerr (log, rem) = (s', err)"
  shows "entry_step dir hdr data (log, rem) s' (err = None)"
proof (cases "illegal_path (Clean (hdr_Name hdr))")
  case True
  with assms show ?thesis using entry_step_none [of "(log, rem)"] by (auto simp: extractEntry_def)
next
  case False
  note r = rel_check_passes [OF False, of dir]
  show ?thesis
  proof (cases "hdr_Typeflag hdr")
    case TypeDir
    then have "fst s' = log @ [MkdirAll (dest_of dir hdr) 493]" "snd s' = rem"
      using assms(2) False r by (auto simp: extractEntry_def dest_of_def Let_def)
    then show ?thesis using assms(1) TypeDir False join_below [OF False]
      by (intro entry_stepI [of _ _ "[MkdirAll (dest_of dir hdr) 493]"]) (auto simp: written_def files_opened_def entry_ops_def dest_of_def)
  next
    case (TypeOther b)
    with assms False r have "s' = (log, rem)" "err \<noteq> None" by (auto simp: extractEntry_def Let_def)
    with assms(1) show ?thesis using entry_step_none [of "(log, rem)"] by auto
  qed (use extract_regular [OF assms(1) False _ assms(2)] in simp_all)
qed

subsection \<open>The whole fetch\<close>

fun stream_ops :: "string \<Rightarrow> tar_next list \<Rightarrow> fs_op list option" where
  "stream_ops dir [] = Some []"
| "stream_ops dir (TarErr e # items) = None"
| "stream_ops dir (TarEntry hdr data rerr # items) =
     (case (entry_ops dir hdr data, stream_ops dir items) of (Some xs, Some ys) \<Rightarrow> Some (xs @ ys) | _ \<Rightarrow> None)"

lemma fetchLoop_log:
  assumes "0 \<le> snd s" "entries \<le> MaxEntries" "fetchLoop os dir items entries s = (log, err)"
  shows "\<exists>ops. log = fst s @ ops \<and> list_all (confined dir) ops \<and> files_opened ops + entries \<le> MaxEntries \<and>
    written ops \<le> snd s + 1 \<and> (err = None \<longrightarrow> written ops \<le> snd s \<and> length items + entries \<le> MaxEntries \<and> stream_ops dir items = Some ops)"
  using assms
proof (induction os dir items entries s rule: fetchLoop.induct)
  case (3 os dir hdr data rerr items entries s)
  obtain s1 e1 where x: "extractEntry os dir hdr data rerr s = (s1, e1)" by fastforce
  obtain xs where xs: "fst s1 = fst s @ xs" "list_all (confined dir) xs" "snd s1 = snd s - written xs" "files_opened xs \<le> 1"
    "written xs \<le> snd s + 1" "e1 = None \<longrightarrow> written xs \<le> snd s \<and> entry_ops dir hdr data = Some xs"
    using extract_step [of "snd s" os dir hdr data rerr "fst s" s1 e1] 3(2) x unfolding entry_step_def by auto
  show ?case
  proof (cases "entries + 1 > MaxEntries \<or> hdr_Size hdr > MaxUncompressedBytes")
    case True
    with 3(2-4) show ?thesis by (auto split: if_splits)
  next
    case False
    show ?thesis
    proof (cases e1)
      case (Some e)
      with False x 3(4) have "log = fst s1" "err = Some e" by auto
      with xs False show ?thesis by auto
    next
      case None
      with False x 3(4) have "fetchLoop os dir items (entries + 1) s1 = (log, err)" by simp
      moreover have "0 \<le> snd s1" using xs None by simp
      ultimately obtain ys where ys: "log = fst s1 @ ys" "list_all (confined dir) ys" "files_opened ys + (entries + 1) \<le> MaxEntries"
        "written ys \<le> snd s1 + 1" "err = None \<longrightarrow> written ys \<le> snd s1 \<and> length items + (entries + 1) \<le> MaxEntries \<and> stream_ops dir items = Some ys"
        using 3(1) [of "entries + 1" s1] False x None by auto
      show ?thesis
        by (intro exI [of _ "xs @ ys"]) (use xs ys None in auto)
    qed
  qed
qed auto

lemma fetch_log:
  assumes "Fetch os src url dir = (log, err)"
  shows "list_all (confined dir) log" "written log \<le> MaxUncompressedBytes + 1" "files_opened log \<le> MaxEntries"
    "err = None \<Longrightarrow> \<exists>items. hs_gunzip src url = Ok items \<and> stream_ops dir items = Some log \<and>
       length items \<le> MaxEntries \<and> written log \<le> MaxUncompressedBytes"
proof -
  have empty: "list_all (confined dir) [] \<and> written [] \<le> MaxUncompressedBytes + 1 \<and> files_opened [] \<le> MaxEntries"
    by (simp add: MaxUncompressedBytes_def)
  consider "log = []" "err \<noteq> None"
    | items where "hs_gunzip src url = Ok items" "fetchLoop os dir items 0 ([], MaxUncompressedBytes) = (log, err)"
    using assms by (auto simp: Fetch_def split: if_splits sum.splits)
  then have "list_all (confined dir) log \<and> written log \<le> MaxUncompressedBytes + 1 \<and> files_opened log \<le> MaxEntries \<and>
    (err = None \<longrightarrow> (\<exists>items. hs_gunzip src url = Ok items \<and> stream_ops dir items = Some log \<and>
       length items \<le> MaxEntries \<and> written log \<le> MaxUncompressedBytes))"
  proof cases
    case 1
    with empty show ?thesis by auto
  next
    case 2
    then show ?thesis using fetchLoop_log [OF _ _ 2(2)] by (auto simp: MaxUncompressedBytes_def)
  qed
  then show "list_all (confined dir) log" "written log \<le> MaxUncompressedBytes + 1" "files_opened log \<le> MaxEntries"
    "err = None \<Longrightarrow> \<exists>items. hs_gunzip src url = Ok items \<and> stream_ops dir items = Some log \<and>
       length items \<le> MaxEntries \<and> written log \<le> MaxUncompressedBytes" by auto
qed

text \<open>Whatever a tarball holds and whatever the file system answers, unpacking it opens, writes and closes
  only paths at or below the extraction directory, and creates only directories below it (or
  the directory and its parents, which exist).
\<close>

theorem fetch_stays_in_dir: "list_all (confined dir) (fst (Fetch os src url dir))"
  by (rule fetch_log(1)) (rule prod.collapse [symmetric])

text \<open>C21: One fetch writes at most one byte more than the budget of 512 MiB and opens at most 100000 files, also
  when it fails half-way and whatever sizes the headers claim.
\<close>

theorem fetch_is_bounded:
  "written (fst (Fetch os src url dir)) \<le> MaxUncompressedBytes + 1 \<and> files_opened (fst (Fetch os src url dir)) \<le> MaxEntries"
  using fetch_log(2,3) [OF prod.collapse [symmetric]] by blast

text \<open>A fetch that reports success has written the whole tarball: its calls are those of all entries, in order,
  each file with all of its bytes, and no entry was a link, a device or a path leading out.
\<close>

theorem fetch_success_is_complete:
  assumes "snd (Fetch os src url dir) = None"
  shows "\<exists>items. hs_gunzip src url = Ok items \<and> stream_ops dir items = Some (fst (Fetch os src url dir)) \<and>
    length items \<le> MaxEntries \<and> written (fst (Fetch os src url dir)) \<le> MaxUncompressedBytes"
  by (rule fetch_log(4) [OF _ assms]) (rule prod.collapse [symmetric])

definition quiet_os :: os where
  "quiet_os = \<lparr>os_mkdir = \<lambda>_ _. None, os_open = \<lambda>_ _. None, os_room = \<lambda>_ _. 1000, os_close = \<lambda>_ _. None,
     os_remove = \<lambda>_ _. None, os_rename = \<lambda>_ _ _. Renamed, os_readdir = \<lambda>_ _. Ok [], os_tree = \<lambda>_ _. Special,
     os_mkdirtemp = \<lambda>_ _. Ok ''.vibed-stage-1''\<rparr>"

definition one_file :: http_source where
  "one_file = \<lparr>hs_client = True, hs_request = \<lambda>_. Ok ''http'', hs_do = \<lambda>_. Ok 200,
     hs_gunzip = \<lambda>_. Ok [TarEntry \<lparr>hdr_Name = ''a/../app.py'', hdr_Typeflag = TypeReg, hdr_Size = 2, hdr_Mode = 511\<rparr> ''ok'' None]\<rparr>"

lemma one_file_fetched:
  "Fetch quiet_os one_file ''u'' ''/w'' =
     ([MkdirAll ''/w'' 493, OpenTrunc ''/w/app.py'' 493, WriteTo ''/w/app.py'' ''ok'', CloseFile ''/w/app.py''], None)"
proof -
  have "Clean ''a/../app.py'' = ''app.py''" "illegal_path ''app.py'' = False" "JoinPath ''/w'' ''app.py'' = ''/w/app.py''"
    "Rel ''/w'' ''/w/app.py'' = Some ''app.py''" "HasPrefix ''app.py'' ''../'' = False" "DirOf ''/w/app.py'' = ''/w''"
    "(511 :: int) AND 493 = 493" by code_simp+
  then show ?thesis
    by (simp add: Fetch_def one_file_def quiet_os_def extractEntry_def allowedScheme_def MaxEntries_def MaxUncompressedBytes_def CopyN_def Let_def)
qed

theorem fetch_success_is_complete_witness:
  "\<exists>items. hs_gunzip one_file ''u'' = Ok items \<and>
     stream_ops ''/w'' items = Some [MkdirAll ''/w'' 493, OpenTrunc ''/w/app.py'' 493, WriteTo ''/w/app.py'' ''ok'', CloseFile ''/w/app.py''] \<and>
     length items \<le> MaxEntries \<and> written (fst (Fetch quiet_os one_file ''u'' ''/w'')) \<le> MaxUncompressedBytes"
  using fetch_success_is_complete [of quiet_os one_file "''u''" "''/w''"] one_file_fetched by simp

subsection \<open>The read-side cap\<close>

fun reads :: "(nat \<times> read_err option) list \<Rightarrow> LimitedReader \<Rightarrow> (nat \<times> read_err option) list" where
  "reads [] l = []"
| "reads (a # as) l = (case Read a l of (l1, r) \<Rightarrow> r # reads as l1)"

definition bytes_of :: "(nat \<times> read_err option) list \<Rightarrow> int" where
  "bytes_of as = int (sum_list (map fst as))"

lemma reads_over: "lr_n l < 0 \<Longrightarrow> reads as l = map (\<lambda>_. (0, Some ErrTooLarge)) as"
  by (induction as) (simp_all add: Read_def)

lemma length_reads [simp]: "length (reads as l) = length as"
  by (induction as arbitrary: l) (simp_all split: prod.splits)

lemma reads_nth:
  assumes "i < length as"
  shows "reads as l ! i =
    (if lr_n l < bytes_of (take i as) then (0, Some ErrTooLarge)
     else if lr_n l < bytes_of (take (Suc i) as) then (fst (as ! i), Some ErrTooLarge)
     else as ! i)"
  using assms
proof (induction as arbitrary: l i)
  case (Cons a as)
  have nn: "0 \<le> bytes_of xs" for xs by (simp add: bytes_of_def)
  show ?case
  proof (cases "lr_n l < 0")
    case True
    with Cons.prems nn show ?thesis by (simp only: reads_over nth_map) (metis (no_types, lifting) order_less_le_trans)
  next
    case False
    obtain n e where a: "a = (n, e)" by fastforce
    show ?thesis
    proof (cases i)
      case 0
      with False a show ?thesis by (simp add: Read_def bytes_of_def Let_def)
    next
      case (Suc j)
      with Cons.prems have "j < length as" by simp
      note IH = Cons.IH [OF this, of "l\<lparr>lr_n := lr_n l - int n\<rparr>"]
      have "reads (a # as) l ! i = reads as (l\<lparr>lr_n := lr_n l - int n\<rparr>) ! j"
        using False a Suc by (simp add: Read_def Let_def)
      moreover have "bytes_of (take (Suc k) (a # as)) = int n + bytes_of (take k as)" for k by (simp add: a bytes_of_def)
      ultimately show ?thesis using IH Suc by (simp add: algebra_simps)
    qed
  qed
qed simp

text \<open>The read-side cap is transparent until the budget is exceeded and final from then on: every read answers as the
  underlying one while the total stays within the budget, the one that passes it still delivers its
  bytes but with the error, and all later ones deliver nothing.
\<close>

theorem limited_reader_fails_hard:
  "reads as (NewLimitedReader budget) =
     map (\<lambda>i. if budget < bytes_of (take i as) then (0, Some ErrTooLarge)
              else if budget < bytes_of (take (Suc i) as) then (fst (as ! i), Some ErrTooLarge)
              else as ! i) [0..<length as]"
  by (rule nth_equalityI) (simp_all add: reads_nth NewLimitedReader_def)

end
