(* ===== verification/Agent.thy ===== *)
theory Agent
  imports Appspec Source_Fetch Ring_Buffer
begin

section \<open>The runner agent\<close>

text \<open>
  \<open>src/internal/runneragent/agent.go\<close>: the control API inside a sandbox.  It receives source, writes it to the work directory,
  starts the user process and supervises it.  The fields \<open>Agent\<close> protects with its mutex are the record \<open>Agent\<close>; the
  code between a \<open>Lock\<close> and its \<open>Unlock\<close> is one function on it.  Processes and the file system are the world:
  the process table, and the list of calls made, with the operating system's answers as arguments.
\<close>

record AgentConfig =
  cf_ControlAddr :: string
  cf_Workdir :: string
  cf_Token :: string
  cf_RequireAuth :: bool
  cf_AppPort :: int
  cf_LogLines :: int
  cf_StopGrace :: duration
  cf_Language :: string
  cf_RuntimeProbe :: string

definition applyDefaults :: "AgentConfig \<Rightarrow> AgentConfig" where
  "applyDefaults c = c\<lparr>
     cf_ControlAddr := (if cf_ControlAddr c = '''' then '':9000'' else cf_ControlAddr c),
     cf_Workdir := (if cf_Workdir c = '''' then ''/workspace'' else cf_Workdir c),
     cf_AppPort := (if cf_AppPort c = 0 then 8080 else cf_AppPort c),
     cf_LogLines := (if cf_LogLines c = 0 then 500 else cf_LogLines c),
     cf_StopGrace := (if cf_StopGrace c = 0 then 5 * second else cf_StopGrace c)\<rparr>"

datatype agent_state = StateIdle | StateRunning | StateExited | StateFailed

record AgentInjectRequest =
  ai_Language :: string
  ai_Files :: files
  ai_SourceURL :: string
  ai_Command :: "string list"
  ai_Env :: files
  ai_Port :: int

record StatusResponse =
  st_State :: agent_state
  st_PID :: nat
  st_ExitCode :: "int option"
  st_Command :: "string list"
  st_AppPort :: int
  st_Error :: string

record InfoResponse =
  in_Language :: string
  in_AgentContract :: string
  in_RuntimeProbe :: string
  in_RuntimeProbeOK :: bool
  in_RuntimeProbeOutput :: string

record Agent =
  ag_gen :: "64 word"
  ag_cmd :: "nat option"
  ag_state :: agent_state
  ag_exitCode :: "int option"
  ag_command :: "string list"
  ag_appPort :: int
  ag_lastErr :: string
  ag_stages :: "string set"
  ag_logs :: ringBuffer
  ag_info :: "InfoResponse option"

text \<open>\<open>ag_cmd\<close> identifies the \<open>exec.Cmd\<close> in the process table (not its pid, which the system may reuse); \<open>ag_info\<close> is the cached answer of \<open>infoOnce\<close>.\<close>

definition New :: "AgentConfig \<Rightarrow> Agent" where
  "New cfg = \<lparr>ag_gen = 0, ag_cmd = None, ag_state = StateIdle, ag_exitCode = None, ag_command = [], ag_appPort = 0,
     ag_lastErr = '''', ag_stages = {}, ag_logs = newRingBuffer (cf_LogLines (applyDefaults cfg)), ag_info = None\<rparr>"

subsection \<open>User processes\<close>

text \<open>How \<open>Wait\<close> ends: without error, with an \<open>ExitError\<close>, or with another error.\<close>

datatype wait_result = WaitOk | ExitError int | WaitErr string

text \<open>A process as its supervisor has it: the generation it was started with, and whether \<open>Wait\<close> has returned
  (\<open>done\<close> is closed); \<open>ps_signalled\<close> records a signal to its group.\<close>

record process =
  ps_pid :: nat
  ps_gen :: "64 word"
  ps_command :: "string list"
  ps_env :: "string \<rightharpoonup> string"
  ps_signalled :: bool
  ps_result :: "wait_result option"

type_synonym procs = "nat \<rightharpoonup> process"

text \<open>What the process does within the two grace periods.\<close>

datatype stop_outcome = StopsOnTerm wait_result | StopsOnKill wait_result | Abandoned

definition signalled :: "stop_outcome \<Rightarrow> process \<Rightarrow> process" where
  "signalled so p = p\<lparr>ps_signalled := True,
     ps_result := (if ps_result p \<noteq> None then ps_result p
                   else case so of StopsOnTerm r \<Rightarrow> Some r | StopsOnKill r \<Rightarrow> Some r | Abandoned \<Rightarrow> None)\<rparr>"

definition stopProcessLocked :: "stop_outcome \<Rightarrow> Agent \<times> procs \<Rightarrow> Agent \<times> procs" where
  "stopProcessLocked so w =
     (case w of (a, ps) \<Rightarrow>
      case ag_cmd a of
        None \<Rightarrow> (a, ps)
      | Some c \<Rightarrow>
          (a\<lparr>ag_gen := ag_gen a + 1, ag_cmd := None, ag_state := StateIdle\<rparr>,
           ps(c := map_option (signalled so) (ps c))))"

definition supervise :: "nat \<Rightarrow> process \<Rightarrow> wait_result \<Rightarrow> Agent \<Rightarrow> Agent" where
  "supervise c p err a =
     (if ag_gen a \<noteq> ps_gen p then a
      else let a1 = a\<lparr>ag_cmd := None\<rparr>;
               code = (case err of WaitOk \<Rightarrow> 0 | ExitError c \<Rightarrow> c | WaitErr m \<Rightarrow> -1);
               a2 = (case err of WaitErr m \<Rightarrow> a1\<lparr>ag_lastErr := m\<rparr> | _ \<Rightarrow> a1);
               a3 = a2\<lparr>ag_exitCode := Some code\<rparr>
           in a3\<lparr>ag_state := (if code = 0 then StateExited else StateFailed)\<rparr>)"

subsection \<open>The environment of the user process\<close>

definition isAgentPrivateEnv :: "string \<Rightarrow> bool" where
  "isAgentPrivateEnv key \<longleftrightarrow> HasPrefix key ''VIBED_''"

definition inheritEnv :: "string \<Rightarrow> (string \<rightharpoonup> string) \<Rightarrow> (string \<rightharpoonup> string)" where
  "inheritEnv kv merged =
     (case IndexByte kv (CHR ''='') of
        None \<Rightarrow> merged
      | Some i \<Rightarrow> if i = 0 then merged
                  else if isAgentPrivateEnv (take i kv) then merged
                  else merged(take i kv \<mapsto> drop (i + 1) kv))"

text \<open>The merged map; the slice handed to the process has one \<open>k=v\<close> for every entry, in any order.\<close>

definition buildEnv :: "string list \<Rightarrow> files \<Rightarrow> int \<Rightarrow> (string \<rightharpoonup> string)" where
  "buildEnv environ extra appPort =
     (let merged = fold inheritEnv environ Map.empty;
          merged = fold (\<lambda>(k, v) m. m(k \<mapsto> v)) extra merged
      in merged(''PORT'' \<mapsto> Itoa appPort))"

subsection \<open>Errors\<close>

datatype agent_err =
    AMsg string
  | NoRunCommand string
  | StagingDir string
  | FetchFailed fetch_err
  | ReadingWorkdir string
  | ClearingEntry string string
  | StagedDirErr string
  | MoveErr string string
  | CopyErr string string
  | IllegalFilePath string
  | CreatingDir string string
  | WritingFile string string
  | StartingProcess "string list" string

subsection \<open>Files\<close>

text \<open>\<open>writeFiles\<close>, over the file map in iteration order.\<close>

fun writeFiles :: "os \<Rightarrow> string \<Rightarrow> files \<Rightarrow> fs_op list \<Rightarrow> fs_op list \<times> agent_err option" where
  "writeFiles os root [] log = (log, None)"
| "writeFiles os root ((name, content) # files) log =
     (let clean = Clean name in
      if illegal_path clean then (log, Some (IllegalFilePath name))
      else let dst = JoinPath root clean in
      if (case Rel root dst of None \<Rightarrow> True | Some rel \<Rightarrow> rel = ''..'' \<or> HasPrefix rel ''../'')
      then (log, Some (IllegalFilePath name))
      else let log1 = log @ [MkdirAll (DirOf dst) 493] in
      case os_mkdir os log (DirOf dst) of
        Some e \<Rightarrow> (log1, Some (CreatingDir name e))
      | None \<Rightarrow>
          let log2 = log1 @ [OpenTrunc dst 420] in
          case os_open os log1 dst of
            Some e \<Rightarrow> (log2, Some (WritingFile name e))
          | None \<Rightarrow>
              let n = min (os_room os log2 dst) (length content);
                  log3 = log2 @ [WriteTo dst (take n content)];
                  log4 = log3 @ [CloseFile dst]
              in if n < length content then (log4, Some (WritingFile name ''short write''))
                 else case os_close os log3 dst of
                   Some e \<Rightarrow> (log4, Some (WritingFile name e))
                 | None \<Rightarrow> writeFiles os root files log4)"


text \<open>\<open>resetWorkdirLocked\<close>: every entry but the staging directories in flight.\<close>

fun clearEntries :: "os \<Rightarrow> string \<Rightarrow> string set \<Rightarrow> string list \<Rightarrow> fs_op list \<Rightarrow> fs_op list \<times> agent_err option" where
  "clearEntries os dir stages [] log = (log, None)"
| "clearEntries os dir stages (name # names) log =
     (if name \<in> stages then clearEntries os dir stages names log
      else let p = JoinPath dir name in
        case os_remove os log p of
          Some e \<Rightarrow> (log @ [RemoveAll p], Some (ClearingEntry name e))
        | None \<Rightarrow> clearEntries os dir stages names (log @ [RemoveAll p]))"

definition resetWorkdirLocked :: "os \<Rightarrow> AgentConfig \<Rightarrow> Agent \<Rightarrow> fs_op list \<Rightarrow> fs_op list \<times> agent_err option" where
  "resetWorkdirLocked os cfg a log =
     (case os_readdir os log (cf_Workdir cfg) of
        Err e \<Rightarrow> (log, Some (ReadingWorkdir e))
      | Ok names \<Rightarrow> clearEntries os (cf_Workdir cfg) (ag_stages a) names log)"

text \<open>\<open>copyPath\<close>, over the tree at \<open>src\<close>.\<close>

fun copyPath :: "os \<Rightarrow> node \<Rightarrow> string \<Rightarrow> fs_op list \<Rightarrow> fs_op list \<times> string option"
and copyEntries :: "os \<Rightarrow> (string \<times> node) list \<Rightarrow> string \<Rightarrow> fs_op list \<Rightarrow> fs_op list \<times> string option" where
  "copyPath os (Broken e) dst log = (log, Some e)"
| "copyPath os Special dst log = (log, None)"
| "copyPath os (Regular content perm) dst log =
     (let log1 = log @ [OpenTrunc dst perm] in
      case os_open os log dst of
        Some e \<Rightarrow> (log1, Some e)
      | None \<Rightarrow>
          let n = min (os_room os log1 dst) (length content);
              log2 = log1 @ [WriteTo dst (take n content)];
              log3 = log2 @ [CloseFile dst]
          in if n < length content then (log3, Some ''short write'') else (log3, os_close os log2 dst))"
| "copyPath os (Directory perm entries) dst log =
     (let log1 = log @ [MkdirAll dst perm] in
      case os_mkdir os log dst of
        Some e \<Rightarrow> (log1, Some e)
      | None \<Rightarrow> copyEntries os entries dst log1)"
| "copyEntries os [] dst log = (log, None)"
| "copyEntries os ((name, nd) # entries) dst log =
     (case copyPath os nd (JoinPath dst name) log of
        (log1, Some e) \<Rightarrow> (log1, Some e)
      | (log1, None) \<Rightarrow> copyEntries os entries dst log1)"

fun moveEntries :: "os \<Rightarrow> string \<Rightarrow> string \<Rightarrow> string list \<Rightarrow> fs_op list \<Rightarrow> fs_op list \<times> agent_err option" where
  "moveEntries os src dst [] log = (log, None)"
| "moveEntries os src dst (name # names) log =
     (let from = JoinPath src name;
          to = JoinPath dst name;
          log1 = log @ [Rename from to]
      in case os_rename os log from to of
           Renamed \<Rightarrow> moveEntries os src dst names log1
         | RenameErr e \<Rightarrow> (log1, Some (MoveErr from e))
         | EXDEV \<Rightarrow>
             (case copyPath os (os_tree os log1 from) to log1 of
                (log2, Some e) \<Rightarrow> (log2, Some (CopyErr from e))
              | (log2, None) \<Rightarrow> moveEntries os src dst names (log2 @ [RemoveAll from])))"

definition moveDirContents :: "os \<Rightarrow> string \<Rightarrow> string \<Rightarrow> fs_op list \<Rightarrow> fs_op list \<times> agent_err option" where
  "moveDirContents os src dst log =
     (case os_readdir os log src of
        Err e \<Rightarrow> (log, Some (StagedDirErr e))
      | Ok names \<Rightarrow> moveEntries os src dst names log)"

subsection \<open>Starting a process\<close>

text \<open>What \<open>cmd.Start\<close> answers: an error, or the new process (its \<open>Cmd\<close> and pid).\<close>

type_synonym start_answer = "(string, nat \<times> nat) result"

definition startProcessLocked ::
  "start_answer \<Rightarrow> string list \<Rightarrow> string list \<Rightarrow> files \<Rightarrow> int \<Rightarrow> Agent \<times> procs \<Rightarrow> (Agent \<times> procs) \<times> agent_err option" where
  "startProcessLocked start environ command env appPort w =
     (case w of (a, ps) \<Rightarrow>
      case start of
        Err e \<Rightarrow> (w, Some (StartingProcess command e))
      | Ok (c, pid) \<Rightarrow>
          let gen = ag_gen a + 1 in
          ((a\<lparr>ag_gen := gen, ag_cmd := Some c, ag_state := StateRunning, ag_exitCode := None,
              ag_command := command, ag_appPort := appPort, ag_lastErr := ''''\<rparr>,
            ps(c \<mapsto> \<lparr>ps_pid = pid, ps_gen = gen, ps_command = command, ps_env = buildEnv environ env appPort,
                      ps_signalled = False, ps_result = None\<rparr>)), None))"

definition statusLocked :: "Agent \<times> procs \<Rightarrow> StatusResponse" where
  "statusLocked w =
     (case w of (a, ps) \<Rightarrow>
      \<lparr>st_State = ag_state a,
       st_PID = (case ag_cmd a of None \<Rightarrow> 0 | Some c \<Rightarrow> (case ps c of None \<Rightarrow> 0 | Some p \<Rightarrow> ps_pid p)),
       st_ExitCode = ag_exitCode a, st_Command = ag_command a, st_AppPort = ag_appPort a, st_Error = ag_lastErr a\<rparr>)"

subsection \<open>Injection\<close>

text \<open>What is outside the agent for one request: the answers of the system, the network, and the processes.\<close>

record agent_env =
  en_cfg :: AgentConfig
  en_os :: os
  en_source :: http_source
  en_environ :: "string list"
  en_stop :: stop_outcome
  en_start :: start_answer
  en_probe :: "string \<Rightarrow> string \<times> bool"
  en_message :: "agent_err \<Rightarrow> string"

definition runCommandOf :: "AgentInjectRequest \<Rightarrow> (agent_err, string list) result" where
  "runCommandOf req =
     (let command = (if ai_Command req = [] then RunCommand (ai_Language req) (ai_Files req) else ai_Command req) in
      if command = [] then Err (NoRunCommand (ai_Language req)) else Ok command)"

text \<open>The part of \<open>inject\<close> under the lock; \<open>staged\<close> is the staging directory, if any.\<close>

definition injectLocked ::
  "agent_env \<Rightarrow> AgentInjectRequest \<Rightarrow> string list \<Rightarrow> int \<Rightarrow> string option \<Rightarrow> (Agent \<times> procs) \<times> fs_op list \<Rightarrow>
   ((Agent \<times> procs) \<times> fs_op list) \<times> (agent_err, StatusResponse) result" where
  "injectLocked en req command appPort staged s =
     (case s of (w0, log0) \<Rightarrow>
      let w = stopProcessLocked (en_stop en) w0;
          wd = cf_Workdir (en_cfg en)
      in case resetWorkdirLocked (en_os en) (en_cfg en) (fst w) log0 of
        (log1, Some e) \<Rightarrow> ((w, log1), Err e)
      | (log1, None) \<Rightarrow>
          (case (case staged of
                   Some dir \<Rightarrow> moveDirContents (en_os en) dir wd log1
                 | None \<Rightarrow> writeFiles (en_os en) wd (ai_Files req) log1) of
             (log2, Some e) \<Rightarrow> ((w, log2), Err e)
           | (log2, None) \<Rightarrow>
               let w1 = ((fst w)\<lparr>ag_logs := reset (ag_logs (fst w))\<rparr>, snd w) in
               (case startProcessLocked (en_start en) (en_environ en) command (ai_Env req) appPort w1 of
                  (w2, Some e) \<Rightarrow>
                    ((((fst w2)\<lparr>ag_state := StateFailed, ag_lastErr := en_message en e\<rparr>, snd w2), log2), Err e)
                | (w2, None) \<Rightarrow> ((w2, log2), Ok (statusLocked w2)))))"

text \<open>The system as a later caller finds it.\<close>

definition os_after :: "fs_op list \<Rightarrow> os \<Rightarrow> os" where
  "os_after log0 os = \<lparr>
     os_mkdir = (\<lambda>log. os_mkdir os (log0 @ log)), os_open = (\<lambda>log. os_open os (log0 @ log)),
     os_room = (\<lambda>log. os_room os (log0 @ log)), os_close = (\<lambda>log. os_close os (log0 @ log)),
     os_remove = (\<lambda>log. os_remove os (log0 @ log)), os_rename = (\<lambda>log. os_rename os (log0 @ log)),
     os_readdir = (\<lambda>log. os_readdir os (log0 @ log)), os_tree = (\<lambda>log. os_tree os (log0 @ log)),
     os_mkdirtemp = (\<lambda>log. os_mkdirtemp os (log0 @ log))\<rparr>"

definition stagePattern :: string where
  "stagePattern = ''.vibed-stage-*''"

definition registerStage :: "string \<Rightarrow> Agent \<times> procs \<Rightarrow> Agent \<times> procs" where
  "registerStage name w = ((fst w)\<lparr>ag_stages := insert name (ag_stages (fst w))\<rparr>, snd w)"

definition unregisterStage :: "string \<Rightarrow> Agent \<times> procs \<Rightarrow> Agent \<times> procs" where
  "unregisterStage name w = ((fst w)\<lparr>ag_stages := ag_stages (fst w) - {name}\<rparr>, snd w)"

definition inject ::
  "agent_env \<Rightarrow> AgentInjectRequest \<Rightarrow> (Agent \<times> procs) \<times> fs_op list \<Rightarrow>
   ((Agent \<times> procs) \<times> fs_op list) \<times> (agent_err, StatusResponse) result" where
  "inject en req s =
     (case runCommandOf req of
        Err e \<Rightarrow> (s, Err e)
      | Ok command \<Rightarrow>
          let appPort = (if ai_Port req = 0 then cf_AppPort (en_cfg en) else ai_Port req);
              wd = cf_Workdir (en_cfg en);
              os = en_os en
          in if ai_SourceURL req = '''' then injectLocked en req command appPort None s
             else let log1 = snd s @ [MkdirAll wd 493] in
             case os_mkdir os (snd s) wd of
               Some e \<Rightarrow> ((fst s, log1), Err (StagingDir e))
             | None \<Rightarrow>
             case os_mkdirtemp os log1 stagePattern of
               Err e \<Rightarrow> ((fst s, log1), Err (StagingDir e))
             | Ok name \<Rightarrow>
             let dir = JoinPath wd name;
                 w1 = registerStage name (fst s);
                 leave = (\<lambda>(w, log). (unregisterStage name w, log @ [RemoveAll dir]))
             in case Fetch (os_after log1 os) (en_source en) (ai_SourceURL req) dir of
               (ops, Some e) \<Rightarrow> (leave (w1, log1 @ ops), Err (FetchFailed e))
             | (ops, None) \<Rightarrow>
                 case injectLocked en req command appPort (Some dir) (w1, log1 @ ops) of
                   (s2, r) \<Rightarrow> (leave s2, r))"

definition stopProcess :: "stop_outcome \<Rightarrow> Agent \<times> procs \<Rightarrow> Agent \<times> procs" where
  "stopProcess so w = stopProcessLocked so w"

subsection \<open>The control API\<close>

record request =
  rq_Method :: string
  rq_Path :: string
  rq_Authorization :: string
  rq_lines :: string
  rq_body :: "(string, AgentInjectRequest) result"

datatype body = ErrorBody string | StatusBody StatusResponse | LogsBody "string list" | InfoBody InfoResponse | TextBody string

type_synonym response = "int \<times> body"

definition AgentContract :: string where
  "AgentContract = ''1''"

definition info :: "agent_env \<Rightarrow> Agent \<Rightarrow> Agent \<times> InfoResponse" where
  "info en a =
     (case ag_info a of
        Some r \<Rightarrow> (a, r)
      | None \<Rightarrow>
          let resp = \<lparr>in_Language = cf_Language (en_cfg en), in_AgentContract = AgentContract,
                      in_RuntimeProbe = cf_RuntimeProbe (en_cfg en), in_RuntimeProbeOK = False, in_RuntimeProbeOutput = ''''\<rparr>;
              probe = TrimSpace (cf_RuntimeProbe (en_cfg en));
              resp = (if probe = '''' then resp
                      else case en_probe en probe of (out, ok) \<Rightarrow>
                        resp\<lparr>in_RuntimeProbeOutput := TrimSpace out, in_RuntimeProbeOK := ok\<rparr>)
          in (a\<lparr>ag_info := Some resp\<rparr>, resp))"

type_synonym agent_world = "(Agent \<times> procs) \<times> fs_op list"

definition handleInject :: "agent_env \<Rightarrow> request \<Rightarrow> agent_world \<Rightarrow> agent_world \<times> response" where
  "handleInject en r s =
     (if rq_Method r \<noteq> ''POST'' then (s, (405, ErrorBody ''use POST''))
      else case rq_body r of
        Err e \<Rightarrow> (s, (400, ErrorBody (''invalid JSON body: '' @ e)))
      | Ok req \<Rightarrow>
          let hasFiles = (ai_Files req \<noteq> []);
              hasURL = (ai_SourceURL req \<noteq> '''')
          in if \<not> hasFiles \<and> \<not> hasURL then (s, (400, ErrorBody ''either files or source_url is required''))
             else if hasFiles \<and> hasURL then (s, (400, ErrorBody ''files and source_url are mutually exclusive''))
             else case inject en req s of
               (s1, Err e) \<Rightarrow> (s1, (400, ErrorBody (en_message en e)))
             | (s1, Ok status) \<Rightarrow> (s1, (200, StatusBody status)))"

definition handleStatus :: "agent_world \<Rightarrow> agent_world \<times> response" where
  "handleStatus s = (s, (200, StatusBody (statusLocked (fst s))))"

definition handleLogs :: "request \<Rightarrow> agent_world \<Rightarrow> agent_world \<times> response" where
  "handleLogs r s =
     (let n = (if rq_lines r \<noteq> '''' then atoi (rq_lines r) else 0) in
      (s, (200, LogsBody (snapshot n (ag_logs (fst (fst s)))))))"

definition handleStop :: "agent_env \<Rightarrow> request \<Rightarrow> agent_world \<Rightarrow> agent_world \<times> response" where
  "handleStop en r s =
     (if rq_Method r \<noteq> ''POST'' then (s, (405, ErrorBody ''use POST''))
      else let w = stopProcess (en_stop en) (fst s) in ((w, snd s), (200, StatusBody (statusLocked w))))"

definition handleInfo :: "agent_env \<Rightarrow> agent_world \<Rightarrow> agent_world \<times> response" where
  "handleInfo en s =
     (case info en (fst (fst s)) of (a, r) \<Rightarrow> (((a, snd (fst s)), snd s), (200, InfoBody r)))"

definition agentAuth :: "AgentConfig \<Rightarrow> (request \<Rightarrow> agent_world \<Rightarrow> agent_world \<times> response) \<Rightarrow> request \<Rightarrow> agent_world \<Rightarrow> agent_world \<times> response" where
  "agentAuth cfg handle r s =
     (if cf_Token cfg = '''' then
        (if cf_RequireAuth cfg then (s, (401, ErrorBody ''control API requires authentication but no token is configured''))
         else handle r s)
      else if TrimPrefix (rq_Authorization r) ''Bearer '' \<noteq> cf_Token cfg then
        (s, (401, ErrorBody ''invalid or missing bearer token''))
      else handle r s)"

definition agentHandler :: "agent_env \<Rightarrow> request \<Rightarrow> agent_world \<Rightarrow> agent_world \<times> response" where
  "agentHandler en r s =
     (if rq_Path r = ''/healthz'' then (s, (200, TextBody (''ok'' @ [newline])))
      else if rq_Path r = ''/info'' then handleInfo en s
      else if rq_Path r = ''/inject'' then agentAuth (en_cfg en) (handleInject en) r s
      else if rq_Path r = ''/status'' then agentAuth (en_cfg en) (\<lambda>_. handleStatus) r s
      else if rq_Path r = ''/logs'' then agentAuth (en_cfg en) handleLogs r s
      else if rq_Path r = ''/stop'' then agentAuth (en_cfg en) (handleStop en) r s
      else (s, (404, TextBody ''404 page not found'')))"

end
