(* ===== verification/Agent_Facts.thy ===== *)
theory Agent_Facts
  imports Agent
begin

section \<open>Properties of the runner agent\<close>

text \<open>
  The interleavings of the agent's critical sections, of process exits and of supervisors are a step relation; its invariant says
  that there is never more than one user process that has not been told to stop.
\<close>

subsection \<open>Supervision as a state machine\<close>

text \<open>One step: a process exits (\<open>Wait\<close> returns and closes \<open>done\<close>), its supervisor takes the lock, a stop, the locked part of
  an inject (whose \<open>Start\<close> yields a new \<open>Cmd\<close>), output of the process, and the registration of staging directories.\<close>

inductive agent_step :: "agent_world \<Rightarrow> agent_world \<Rightarrow> bool" where
  exit: "ps c = Some p \<Longrightarrow> ps_result p = None \<Longrightarrow>
    agent_step ((a, ps), log) ((a, ps(c \<mapsto> p\<lparr>ps_result := Some r\<rparr>)), log)"
| supervised: "ps c = Some p \<Longrightarrow> ps_result p = Some r \<Longrightarrow>
    agent_step ((a, ps), log) ((supervise c p r a, ps(c := None)), log)"
| stop: "agent_step (w, log) (stopProcess so w, log)"
| commit: "(\<And>c pid. en_start en = Ok (c, pid) \<Longrightarrow> snd w c = None) \<Longrightarrow>
    injectLocked en req command appPort staged (w, log) = (s, r) \<Longrightarrow> agent_step (w, log) s"
| writes: "agent_step ((a, ps), log) ((a\<lparr>ag_logs := Write bytes (ag_logs a)\<rparr>, ps), log)"
| stage: "agent_step (w, log) (registerStage name w, log @ ops)"
| unstage: "agent_step (w, log) (unregisterStage name w, log @ ops)"

text \<open>Reachable in \<open>k\<close> steps from a new agent.\<close>

inductive reaches :: "nat \<Rightarrow> agent_world \<Rightarrow> bool" where
  start: "reaches 0 ((New cfg, Map.empty), [])"
| step: "reaches k s \<Longrightarrow> agent_step s s' \<Longrightarrow> reaches (Suc k) s'"

text \<open>The invariant of the supervision; \<open>n\<close> bounds the generations used so far.\<close>

definition sup_inv :: "nat \<Rightarrow> Agent \<times> procs \<Rightarrow> bool" where
  "sup_inv n w \<longleftrightarrow> (case w of (a, ps) \<Rightarrow>
     unat (ag_gen a) \<le> n \<and>
     (ag_state a = StateRunning \<longleftrightarrow> ag_cmd a \<noteq> None) \<and>
     (\<forall>c. ag_cmd a = Some c \<longrightarrow> (\<exists>p. ps c = Some p \<and> ps_gen p = ag_gen a \<and> \<not> ps_signalled p)) \<and>
     (\<forall>c p. ps c = Some p \<longrightarrow> unat (ps_gen p) \<le> unat (ag_gen a) \<and>
        (ps_gen p = ag_gen a \<longrightarrow> ag_cmd a = Some c) \<and>
        (ps_signalled p \<or> ag_cmd a = Some c)))"

lemma sup_invI:
  assumes "unat (ag_gen a) \<le> n" "ag_state a = StateRunning \<longleftrightarrow> ag_cmd a \<noteq> None"
    "\<And>c. ag_cmd a = Some c \<Longrightarrow> \<exists>p. ps c = Some p \<and> ps_gen p = ag_gen a \<and> \<not> ps_signalled p"
    "\<And>c p. ps c = Some p \<Longrightarrow> unat (ps_gen p) \<le> unat (ag_gen a)"
    "\<And>c p. ps c = Some p \<Longrightarrow> ps_gen p = ag_gen a \<Longrightarrow> ag_cmd a = Some c"
    "\<And>c p. ps c = Some p \<Longrightarrow> \<not> ps_signalled p \<Longrightarrow> ag_cmd a = Some c"
  shows "sup_inv n (a, ps)"
  using assms unfolding sup_inv_def by blast

lemma sup_invD:
  assumes "sup_inv n (a, ps)"
  shows "unat (ag_gen a) \<le> n" "ag_state a = StateRunning \<longleftrightarrow> ag_cmd a \<noteq> None"
    "ag_cmd a = Some c \<Longrightarrow> \<exists>p. ps c = Some p \<and> ps_gen p = ag_gen a \<and> \<not> ps_signalled p"
    "ps c = Some p \<Longrightarrow> unat (ps_gen p) \<le> unat (ag_gen a)"
    "ps c = Some p \<Longrightarrow> ps_gen p = ag_gen a \<Longrightarrow> ag_cmd a = Some c"
    "ps c = Some p \<Longrightarrow> \<not> ps_signalled p \<Longrightarrow> ag_cmd a = Some c"
  using assms unfolding sup_inv_def by blast+

text \<open>The invariant only reads these fields.\<close>

lemma sup_inv_cong:
  "ag_gen a' = ag_gen a \<Longrightarrow> ag_cmd a' = ag_cmd a \<Longrightarrow> (ag_state a' = StateRunning \<longleftrightarrow> ag_state a = StateRunning) \<Longrightarrow>
   sup_inv n (a, ps) \<Longrightarrow> sup_inv n (a', ps)"
  by (simp add: sup_inv_def)

lemma sup_inv_mono: "sup_inv n w \<Longrightarrow> n \<le> m \<Longrightarrow> sup_inv m w"
  unfolding sup_inv_def by (auto split: prod.splits)

lemma unat_inc: "unat (g :: 64 word) \<le> n \<Longrightarrow> n + 1 < 2 ^ 64 \<Longrightarrow> unat (g + 1) = unat g + 1"
  by (subst unat_add_lem [THEN iffD1]) simp_all

lemma stop_inv:
  assumes "sup_inv n (a, ps)" "n + 1 < 2 ^ 64"
  shows "sup_inv (n + 1) (stopProcessLocked so (a, ps))" "ag_cmd (fst (stopProcessLocked so (a, ps))) = None"
proof -
  note D = sup_invD [OF assms(1)]
  have "sup_inv (n + 1) (stopProcessLocked so (a, ps)) \<and> ag_cmd (fst (stopProcessLocked so (a, ps))) = None"
  proof (cases "ag_cmd a")
    case None
    then show ?thesis using sup_inv_mono [OF assms(1), of "n + 1"] by (simp add: stopProcessLocked_def)
  next
    case (Some c)
    then obtain p where p: "ps c = Some p" "ps_gen p = ag_gen a" using D(3) by blast
    have inc: "unat (ag_gen a + 1) = unat (ag_gen a) + 1" by (rule unat_inc [OF D(1) assms(2)])
    have "sup_inv (n + 1) (a\<lparr>ag_gen := ag_gen a + 1, ag_cmd := None, ag_state := StateIdle\<rparr>, ps(c \<mapsto> signalled so p))"
    proof (rule sup_invI)
      fix d q assume q: "(ps(c \<mapsto> signalled so p)) d = Some q"
      then have g: "unat (ps_gen q) \<le> unat (ag_gen a)" using D(4) p by (auto simp: signalled_def split: if_splits)
      then show "unat (ps_gen q) \<le> unat (ag_gen (a\<lparr>ag_gen := ag_gen a + 1, ag_cmd := None, ag_state := StateIdle\<rparr>))"
        using inc by simp
      show "ps_gen q = ag_gen (a\<lparr>ag_gen := ag_gen a + 1, ag_cmd := None, ag_state := StateIdle\<rparr>) \<Longrightarrow>
        ag_cmd (a\<lparr>ag_gen := ag_gen a + 1, ag_cmd := None, ag_state := StateIdle\<rparr>) = Some d"
        using g inc by simp
      show "\<not> ps_signalled q \<Longrightarrow> ag_cmd (a\<lparr>ag_gen := ag_gen a + 1, ag_cmd := None, ag_state := StateIdle\<rparr>) = Some d"
        using q D(6) Some by (auto simp: signalled_def split: if_splits)
    qed (use D(1) inc in simp_all)
    then show ?thesis using Some p by (simp add: stopProcessLocked_def)
  qed
  then show "sup_inv (n + 1) (stopProcessLocked so (a, ps))" "ag_cmd (fst (stopProcessLocked so (a, ps))) = None" by simp_all
qed

lemma start_inv:
  assumes "sup_inv n (a, ps)" "n + 1 < 2 ^ 64" "ag_cmd a = None" "\<And>c pid. start = Ok (c, pid) \<Longrightarrow> ps c = None"
    "startProcessLocked start environ command env appPort (a, ps) = (w', err)"
  shows "sup_inv (n + 1) w'" "err \<noteq> None \<Longrightarrow> w' = (a, ps)"
proof -
  note D = sup_invD [OF assms(1)]
  have "sup_inv (n + 1) w' \<and> (err \<noteq> None \<longrightarrow> w' = (a, ps))"
  proof (cases start)
    case (Inl e)
    then show ?thesis using assms(5) sup_inv_mono [OF assms(1), of "n + 1"] by (auto simp: startProcessLocked_def)
  next
    case (Inr cp)
    obtain c pid where cp: "cp = (c, pid)" by fastforce
    have fresh: "ps c = None" using assms(4) Inr cp by simp
    have inc: "unat (ag_gen a + 1) = unat (ag_gen a) + 1" by (rule unat_inc [OF D(1) assms(2)])
    have ne: "ps d = Some q \<Longrightarrow> ps_gen q \<noteq> ag_gen a + 1" for d q using D(4) [of d q] inc by auto
    have old: "ps d = Some q \<Longrightarrow> ps_signalled q" for d q using D(6) assms(3) by force
    from Inr cp assms(5) have "err = None" and w': "w' =
       (a\<lparr>ag_gen := ag_gen a + 1, ag_cmd := Some c, ag_state := StateRunning, ag_exitCode := None,
              ag_command := command, ag_appPort := appPort, ag_lastErr := ''''\<rparr>,
        ps(c \<mapsto> \<lparr>ps_pid = pid, ps_gen = ag_gen a + 1, ps_command = command, ps_env = buildEnv environ env appPort,
                      ps_signalled = False, ps_result = None\<rparr>))" by (auto simp: startProcessLocked_def Let_def)
    moreover have "sup_inv (n + 1) w'" unfolding w'
      by (rule sup_invI) (use D(1) inc D(4) ne old in \<open>auto split: if_splits intro: le_SucI\<close>)
    ultimately show ?thesis by simp
  qed
  then show "sup_inv (n + 1) w'" "err \<noteq> None \<Longrightarrow> w' = (a, ps)" by simp_all
qed

lemma stop_procs: "snd (stopProcessLocked so w) c = None \<longleftrightarrow> snd w c = None"
  by (cases w) (auto simp: stopProcessLocked_def split: option.splits)

text \<open>The agent as the locked part of an inject finds it after the stop, or the new process.\<close>

lemma injectLocked_cases:
  assumes "injectLocked en req command appPort staged (w, log) = (s, r)"
  obtains (early) log1 where "s = (stopProcessLocked (en_stop en) w, log1)" "\<exists>e. r = Err e"
  | (failed) a ps log1 e where "stopProcessLocked (en_stop en) w = (a, ps)" "en_start en = Err e"
      "s = ((a\<lparr>ag_logs := reset (ag_logs a), ag_state := StateFailed, ag_lastErr := en_message en (StartingProcess command e)\<rparr>, ps), log1)"
      "r = Err (StartingProcess command e)"
  | (started) a ps w2 log1 where "stopProcessLocked (en_stop en) w = (a, ps)"
      "startProcessLocked (en_start en) (en_environ en) command (ai_Env req) appPort (a\<lparr>ag_logs := reset (ag_logs a)\<rparr>, ps) = (w2, None)"
      "s = (w2, log1)" "r = Ok (statusLocked w2)"
proof -
  obtain a ps where w: "stopProcessLocked (en_stop en) w = (a, ps)" by fastforce
  obtain log1 e1 where reset: "resetWorkdirLocked (en_os en) (en_cfg en) a log = (log1, e1)" by fastforce
  obtain log2 e2 where files: "(case staged of
                   Some dir \<Rightarrow> moveDirContents (en_os en) dir (cf_Workdir (en_cfg en)) log1
                 | None \<Rightarrow> writeFiles (en_os en) (cf_Workdir (en_cfg en)) (ai_Files req) log1) = (log2, e2)" by fastforce
  obtain w2 e3 where start: "startProcessLocked (en_start en) (en_environ en) command (ai_Env req) appPort (a\<lparr>ag_logs := reset (ag_logs a)\<rparr>, ps) = (w2, e3)"
    by fastforce
  note eq = assms [unfolded injectLocked_def prod.case w fst_conv snd_conv Let_def reset]
  show thesis
  proof (cases e1)
    case (Some e)
    with eq w show thesis by (intro early [of log1]) auto
  next
    case None
    note eq = eq [unfolded None prod.case option.case files]
    show thesis
    proof (cases e2)
      case (Some e)
      with eq w show thesis by (intro early [of log2]) auto
    next
      case None
      note eq = eq [unfolded None prod.case option.case start]
      show thesis
      proof (cases e3)
        case None
        with eq w start show thesis by (intro started [of a ps w2 log2]) auto
      next
        case (Some e)
        then obtain m where m: "en_start en = Err m" "w2 = (a\<lparr>ag_logs := reset (ag_logs a)\<rparr>, ps)" "e = StartingProcess command m"
          using start by (auto simp: startProcessLocked_def Let_def split: sum.splits)
        with eq w Some show thesis by (intro failed [of a ps m log2]) auto
      qed
    qed
  qed
qed

lemma commit_inv:
  assumes "sup_inv n w" "n + 2 < 2 ^ 64" "\<And>c pid. en_start en = Ok (c, pid) \<Longrightarrow> snd w c = None"
    "injectLocked en req command appPort staged (w, log) = (s, r)"
  shows "sup_inv (n + 2) (fst s)"
proof -
  obtain a0 ps0 where w: "w = (a0, ps0)" by fastforce
  note S = stop_inv [of n a0 ps0 "en_stop en", folded w, OF assms(1)]
  from assms(4) show ?thesis
  proof (cases rule: injectLocked_cases)
    case early
    then show ?thesis using S(1) assms(2) sup_inv_mono by auto
  next
    case (failed a ps)
    then have "sup_inv (n + 1) (a, ps)" "ag_cmd a = None" using S assms(2) by simp_all
    then have "sup_inv (n + 1) (fst s)" using failed(3) sup_invD(2) [of "n + 1" a ps]
      by (auto intro: sup_inv_cong [of _ a])
    then show ?thesis by (rule sup_inv_mono) simp
  next
    case (started a ps w2)
    then have i: "sup_inv (n + 1) (a\<lparr>ag_logs := reset (ag_logs a)\<rparr>, ps)" "ag_cmd a = None"
      using S assms(2) by (auto intro: sup_inv_cong [of _ a])
    have "en_start en = Ok (c, pid) \<Longrightarrow> ps c = None" for c pid
      using assms(3) stop_procs [of "en_stop en" w c] started(1) by simp
    then have "sup_inv (n + 1 + 1) w2"
      using start_inv(1) [OF i(1) _ _ _ started(2)] assms(2) i(2) by simp
    then show ?thesis using started(3) by simp
  qed
qed

lemma supervise_inv:
  assumes "sup_inv n (a, ps)" "ps c = Some p"
  shows "sup_inv n (supervise c p r a, ps(c := None))"
proof (cases "ag_gen a = ps_gen p")
  case True
  note D = sup_invD [OF assms(1)]
  have c: "ag_cmd a = Some c" using D(5) [OF assms(2)] True by simp
  have f: "ag_gen (supervise c p r a) = ag_gen a" "ag_cmd (supervise c p r a) = None" "ag_state (supervise c p r a) \<noteq> StateRunning"
    using True by (simp_all add: supervise_def Let_def split: wait_result.splits)
  show ?thesis
  proof (rule sup_invI)
    fix d q assume q: "(ps(c := None)) d = Some q"
    then have d: "ps d = Some q" "d \<noteq> c" by (auto split: if_splits)
    show "unat (ps_gen q) \<le> unat (ag_gen (supervise c p r a))" using D(4) [OF d(1)] f by simp
    show "ps_gen q = ag_gen (supervise c p r a) \<Longrightarrow> ag_cmd (supervise c p r a) = Some d" using D(5) [OF d(1)] c d(2) f by simp
    show "\<not> ps_signalled q \<Longrightarrow> ag_cmd (supervise c p r a) = Some d" using D(6) [OF d(1)] c d(2) by simp
  qed (use D(1) f in simp_all)
next
  case False
  note D = sup_invD [OF assms(1)]
  have ne: "ag_cmd a \<noteq> Some c" using D(3) assms(2) False by force
  have "sup_inv n (a, ps(c := None))"
  proof (rule sup_invI)
    fix d assume d: "ag_cmd a = Some d"
    then obtain q where "ps d = Some q" "ps_gen q = ag_gen a" "\<not> ps_signalled q" using D(3) by blast
    then show "\<exists>q. (ps(c := None)) d = Some q \<and> ps_gen q = ag_gen a \<and> \<not> ps_signalled q" using d ne by auto
  next
    fix d q assume "(ps(c := None)) d = Some q"
    then have d: "ps d = Some q" by (auto split: if_splits)
    show "unat (ps_gen q) \<le> unat (ag_gen a)" by (rule D(4) [OF d])
    show "ps_gen q = ag_gen a \<Longrightarrow> ag_cmd a = Some d" by (rule D(5) [OF d])
    show "\<not> ps_signalled q \<Longrightarrow> ag_cmd a = Some d" by (rule D(6) [OF d])
  qed (rule D(1), rule D(2))
  then show ?thesis using False by (simp add: supervise_def)
qed

lemma exit_inv:
  assumes "sup_inv n (a, ps)" "ps c = Some p"
  shows "sup_inv n (a, ps(c \<mapsto> p\<lparr>ps_result := r\<rparr>))"
proof -
  note D = sup_invD [OF assms(1)]
  have old: "\<exists>q0. ps d = Some q0 \<and> ps_gen q = ps_gen q0 \<and> ps_signalled q = ps_signalled q0"
    if "(ps(c \<mapsto> p\<lparr>ps_result := r\<rparr>)) d = Some q" for d q
    using that assms(2) by (cases "d = c") auto
  show ?thesis
  proof (rule sup_invI)
    fix d assume "ag_cmd a = Some d"
    then obtain q where "ps d = Some q" "ps_gen q = ag_gen a" "\<not> ps_signalled q" using D(3) by blast
    then show "\<exists>q. (ps(c \<mapsto> p\<lparr>ps_result := r\<rparr>)) d = Some q \<and> ps_gen q = ag_gen a \<and> \<not> ps_signalled q"
      using assms(2) by (cases "d = c") auto
  next
    fix d q assume "(ps(c \<mapsto> p\<lparr>ps_result := r\<rparr>)) d = Some q"
    from old [OF this] obtain q0 where q0: "ps d = Some q0" "ps_gen q = ps_gen q0" "ps_signalled q = ps_signalled q0" by blast
    show "unat (ps_gen q) \<le> unat (ag_gen a)" using D(4) [OF q0(1)] q0(2) by simp
    show "ps_gen q = ag_gen a \<Longrightarrow> ag_cmd a = Some d" using D(5) [OF q0(1)] q0(2) by simp
    show "\<not> ps_signalled q \<Longrightarrow> ag_cmd a = Some d" using D(6) [OF q0(1)] q0(3) by simp
  qed (rule D(1), rule D(2))
qed

lemma step_inv: "agent_step s s' \<Longrightarrow> sup_inv n (fst s) \<Longrightarrow> n + 2 < 2 ^ 64 \<Longrightarrow> sup_inv (n + 2) (fst s')"
proof (induction rule: agent_step.induct)
  case (stop w log so)
  then have "sup_inv (n + 1) (stopProcess so w)" using stop_inv(1) [of n "fst w" "snd w" so] by (simp add: stopProcess_def)
  then show ?case using sup_inv_mono [of "n + 1" _ "n + 2"] by simp
next
  case commit
  show ?case by (rule commit_inv [OF _ commit.prems(2) _ commit.hyps(2)]) (use commit in simp_all)
next
  case exit
  then show ?case by (auto intro: exit_inv sup_inv_mono)
next
  case supervised
  then show ?case by (auto intro: supervise_inv sup_inv_mono)
next
  case (writes a ps log bytes)
  then have "sup_inv n (a\<lparr>ag_logs := Write bytes (ag_logs a)\<rparr>, ps)" by (auto intro: sup_inv_cong [of _ a])
  then show ?case using sup_inv_mono [of n _ "n + 2"] by simp
next
  case (stage w log name ops)
  then have "sup_inv n (registerStage name w)" by (auto simp: registerStage_def intro: sup_inv_cong [of _ "fst w"])
  then show ?case using sup_inv_mono [of n _ "n + 2"] by simp
next
  case (unstage w log name ops)
  then have "sup_inv n (unregisterStage name w)" by (auto simp: unregisterStage_def intro: sup_inv_cong [of _ "fst w"])
  then show ?case using sup_inv_mono [of n _ "n + 2"] by simp
qed

lemma reaches_inv: "reaches k s \<Longrightarrow> 2 * k < 2 ^ 64 \<Longrightarrow> sup_inv (2 * k) (fst s)"
proof (induction rule: reaches.induct)
  case (start cfg)
  show ?case by (simp add: sup_inv_def New_def)
next
  case (step k s s')
  then have "sup_inv (2 * k) (fst s)" "2 * k + 2 < 2 ^ 64" by simp_all
  then show ?case using step_inv [OF step.hyps(2)] by simp
qed

text \<open>C11: However injects, stops, process exits and supervisors interleave, the agent reports \<open>running\<close> exactly when it has a current
  process, and every other user process that is still running has been signalled: there is never a second process left
  to itself.  (The generation counter is a \<open>uint64\<close>; the statement is for up to 2^63 steps.)
\<close>

theorem at_most_one_user_process:
  assumes "reaches k ((a, ps), log)" "k < 2 ^ 63"
  shows "(ag_state a = StateRunning \<longleftrightarrow> ag_cmd a \<noteq> None) \<and>
    (\<forall>c. ag_cmd a = Some c \<longrightarrow> (\<exists>p. ps c = Some p \<and> \<not> ps_signalled p)) \<and>
    (\<forall>c p. ps c = Some p \<and> \<not> ps_signalled p \<longrightarrow> ag_cmd a = Some c)"
proof -
  have "sup_inv (2 * k) (a, ps)" using reaches_inv [OF assms(1)] assms(2) by simp
  note D = sup_invD [OF this]
  show ?thesis using D(2,3,6) by blast
qed

text \<open>The exit of a process that a stop or a newer inject has superseded changes nothing: its supervisor finds another
  generation, whatever happened in between.
\<close>

theorem stale_supervisor_is_ignored:
  assumes "reaches k ((a, ps), log)" "k < 2 ^ 63" "ps c = Some p" "ag_cmd a \<noteq> Some c"
  shows "supervise c p r a = a"
proof -
  have "sup_inv (2 * k) (a, ps)" using reaches_inv [OF assms(1)] assms(2) by simp
  then have "ps_gen p \<noteq> ag_gen a" using sup_invD(5) assms(3,4) by blast
  then show ?thesis by (simp add: supervise_def)
qed

subsection \<open>The environment\<close>

definition env_entry :: "string \<Rightarrow> (string \<times> string) option" where
  "env_entry kv = (case IndexByte kv (CHR ''='') of
     None \<Rightarrow> None | Some i \<Rightarrow> if i = 0 then None else Some (take i kv, drop (i + 1) kv))"

definition inherited :: "string list \<Rightarrow> (string \<rightharpoonup> string)" where
  "inherited environ = map_of (rev (List.map_filter env_entry environ))"

lemma map_of_snoc: "map_of (xs @ [(k, v)]) = map_of [(k, v)] ++ map_of xs"
  by simp

lemma inherit_fold: "fold inheritEnv environ m k =
   (if isAgentPrivateEnv k then m k else case inherited environ k of Some v \<Rightarrow> Some v | None \<Rightarrow> m k)"
proof (induction environ arbitrary: m)
  case Nil
  then show ?case by (simp add: inherited_def)
next
  case (Cons kv environ)
  have i: "inherited (kv # environ) k = (case inherited environ k of Some v \<Rightarrow> Some v
      | None \<Rightarrow> (case env_entry kv of None \<Rightarrow> None | Some (k', v) \<Rightarrow> if k' = k then Some v else None))"
    by (auto simp: inherited_def List.map_filter_simps map_add_def split: option.splits)
  have "inheritEnv kv m k = (if isAgentPrivateEnv k then m k
      else case env_entry kv of None \<Rightarrow> m k | Some (k', v) \<Rightarrow> if k' = k then Some v else m k)"
    by (auto simp: inheritEnv_def env_entry_def split: option.splits)
  then show ?case unfolding fold_simps comp_apply Cons.IH i
    by (auto split: option.splits)
qed

lemma extra_fold: "fold (\<lambda>(k, v) m. m(k \<mapsto> v)) extra m = m ++ map_of (rev extra)"
  by (induction extra arbitrary: m) (auto simp: fun_upd_def map_add_def split: option.splits)

text \<open>The environment of the user process, exactly: \<open>PORT\<close> is the app port; the variables of the deploy come next; from the
  agent's own environment it inherits what has no \<open>VIBED_\<close> prefix, so the control token never reaches it.
\<close>

theorem user_environment_exact:
  "buildEnv environ extra appPort k =
     (if k = ''PORT'' then Some (Itoa appPort)
      else case map_of (rev extra) k of
        Some v \<Rightarrow> Some v
      | None \<Rightarrow> if HasPrefix k ''VIBED_'' then None else inherited environ k)"
  by (simp add: buildEnv_def Let_def extra_fold map_add_def inherit_fold isAgentPrivateEnv_def split: option.splits)

subsection \<open>The control API\<close>

text \<open>The control API fails closed: without a token configured but required, or with an \<open>Authorization\<close> header that does not carry the
  token, no request but the liveness and image probes is served, and nothing changes.
\<close>

theorem control_api_fails_closed:
  assumes "(if cf_Token (en_cfg en) = '''' then cf_RequireAuth (en_cfg en)
            else rq_Authorization r \<notin> {''Bearer '' @ cf_Token (en_cfg en), cf_Token (en_cfg en)})"
    "rq_Path r \<notin> {''/healthz'', ''/info''}"
  shows "fst (agentHandler en r s) = s \<and> fst (snd (agentHandler en r s)) \<in> {401, 404}"
proof -
  have t: "TrimPrefix x q = t \<Longrightarrow> x = q @ t \<or> x = t" for x q t :: string
    by (metis HasPrefixD TrimPrefix_append TrimPrefix_noop)
  have "fst (agentAuth (en_cfg en) h r s) = s \<and> fst (snd (agentAuth (en_cfg en) h r s)) = 401" for h
    using assms(1) t [of "rq_Authorization r" "''Bearer ''" "cf_Token (en_cfg en)"] by (auto simp: agentAuth_def split: if_splits)
  then show ?thesis using assms(2) by (auto simp: agentHandler_def)
qed

text \<open>The \<open>Bearer\<close> scheme is not required: the bare token in the \<open>Authorization\<close> header is accepted as well.
\<close>

theorem bare_token_is_accepted:
  assumes "cf_Token (en_cfg en) = ''secret''" "rq_Authorization r = ''secret''" "rq_Path r = ''/status''"
  shows "agentHandler en r s = handleStatus s"
  using assms by (simp add: agentHandler_def agentAuth_def TrimPrefix_def HasPrefix_def)

text \<open>An inject that answers 200 has started the requested process: it is the current one, runs the command with the
  environment of the request and the chosen port, the status reports it, and the log starts empty.
\<close>

theorem inject_success_runs_the_request:
  assumes "inject en req s = (((a, ps), log), Ok status)"
  shows "\<exists>command c pid p. runCommandOf req = Ok command \<and> en_start en = Ok (c, pid) \<and> ag_cmd a = Some c \<and> ps c = Some p \<and>
    ps_command p = command \<and> ps_result p = None \<and>
    ps_env p = buildEnv (en_environ en) (ai_Env req) (if ai_Port req = 0 then cf_AppPort (en_cfg en) else ai_Port req) \<and>
    st_State status = StateRunning \<and> st_PID status = pid \<and> snapshot 0 (ag_logs a) = []"
proof -
  let ?port = "if ai_Port req = 0 then cf_AppPort (en_cfg en) else ai_Port req"
  obtain command where cmd: "runCommandOf req = Ok command" using assms by (auto simp: inject_def split: sum.splits)
  obtain staged s0 s1 where locked: "injectLocked en req command ?port staged s0 = (s1, Ok status)"
    and a: "ag_cmd a = ag_cmd (fst (fst s1))" "ag_logs a = ag_logs (fst (fst s1))" and ps: "ps = snd (fst s1)"
  proof (cases "ai_SourceURL req = ''''")
    case True
    then have "injectLocked en req command ?port None s = (((a, ps), log), Ok status)" using assms cmd by (simp add: inject_def Let_def)
    then show thesis by (rule that) simp_all
  next
    case False
    let ?log1 = "snd s @ [MkdirAll (cf_Workdir (en_cfg en)) 493]"
    have m: "os_mkdir (en_os en) (snd s) (cf_Workdir (en_cfg en)) = None"
      using assms cmd False by (cases "os_mkdir (en_os en) (snd s) (cf_Workdir (en_cfg en))") (simp_all add: inject_def Let_def)
    obtain name where t: "os_mkdirtemp (en_os en) ?log1 stagePattern = Ok name"
      using assms cmd False m by (cases "os_mkdirtemp (en_os en) ?log1 stagePattern") (simp_all add: inject_def Let_def)
    let ?dir = "JoinPath (cf_Workdir (en_cfg en)) name"
    obtain ops e where f: "Fetch (os_after ?log1 (en_os en)) (en_source en) (ai_SourceURL req) ?dir = (ops, e)" by fastforce
    have "e = None" using assms cmd False m t f by (cases e) (simp_all add: inject_def Let_def)
    obtain s2 r where l: "injectLocked en req command ?port (Some ?dir) (registerStage name (fst s), ?log1 @ ops) = (s2, r)" by fastforce
    then have "r = Ok status" "unregisterStage name (fst s2) = (a, ps)"
      using assms cmd False m t f \<open>e = None\<close> by (cases s2; simp add: inject_def Let_def)+
    with l show thesis by (intro that) (auto simp: unregisterStage_def)
  qed
  obtain w0 log0 where s0: "s0 = (w0, log0)" by fastforce
  from locked [unfolded s0] show ?thesis
  proof (cases rule: injectLocked_cases)
    case (started a1 ps1 w2 log2)
    then obtain c pid where st: "en_start en = Ok (c, pid)" by (auto simp: startProcessLocked_def split: sum.splits)
    with started a ps cmd show ?thesis
      by (auto simp: startProcessLocked_def Let_def statusLocked_def snapshot_def reset_def)
  qed auto
qed

text \<open>When the process cannot be started, the status still carries the exit code and the command of the one before.\<close>

lemma failed_start_keeps_old_exit_code:
  assumes "injectLocked en req command appPort staged (((a, ps), log)) = (((a', ps'), log'), Err (StartingProcess command e))"
  shows "ag_exitCode a' = ag_exitCode a \<and> ag_command a' = ag_command a"
proof -
  have k: "stopProcessLocked so (a, ps) = (b, qs) \<Longrightarrow> ag_exitCode b = ag_exitCode a \<and> ag_command b = ag_command a" for so b qs
    by (auto simp: stopProcessLocked_def split: option.splits)
  from assms show ?thesis
    by (cases rule: injectLocked_cases) (auto dest!: k sym [of "(_, _)" "stopProcessLocked _ _"])
qed

subsection \<open>The work directory\<close>

text \<open>What the documentation of \<open>os\<close> promises of names: an entry of a directory and a new temporary
  directory have a plain name.\<close>

definition os_names_ok :: "os \<Rightarrow> bool" where
  "os_names_ok os \<longleftrightarrow>
     (\<forall>log d names n. os_readdir os log d = Ok names \<longrightarrow> n \<in> set names \<longrightarrow> plain_name n) \<and>
     (\<forall>log pat n. os_mkdirtemp os log pat = Ok n \<longrightarrow> plain_name n)"

fun tree_ok :: "node \<Rightarrow> bool" where
  "tree_ok (Directory perm entries) \<longleftrightarrow> list_all (\<lambda>(n, t). plain_name n \<and> tree_ok t) entries"
| "tree_ok _ \<longleftrightarrow> True"

lemma writeFiles_adds: "writeFiles os root files log = (log', e) \<Longrightarrow> adds root log log'"
proof (induction files arbitrary: log)
  case (Cons f files)
  obtain name content where f: "f = (name, content)" by fastforce
  note eq = Cons.prems [unfolded f]
  show ?case
  proof (cases "illegal_path (Clean name)")
    case True
    with eq show ?thesis by auto
  next
    case False
    let ?dst = "JoinPath root (Clean name)"
    note r = rel_check_passes [OF False, of root]
    have c: "below root ?dst" "confined root (MkdirAll (DirOf ?dst) 493)"
      using join_below [OF False] dir_of_join [OF False] by auto
    let ?n = "min (os_room os (log @ [MkdirAll (DirOf ?dst) 493, OpenTrunc ?dst 420]) ?dst) (length content)"
    let ?ops = "[MkdirAll (DirOf ?dst) 493, OpenTrunc ?dst 420, WriteTo ?dst (take ?n content), CloseFile ?dst]"
    consider "log' = log @ take 1 ?ops" | "log' = log @ take 2 ?ops" | "log' = log @ ?ops"
      | "writeFiles os root files (log @ ?ops) = (log', e)"
      using eq False r by (auto simp: Let_def split: option.splits if_splits)
    then show ?thesis
    proof cases
      case 4
      have "adds root log (log @ ?ops)" using c by (intro adds_append) simp_all
      then show ?thesis using adds_trans Cons.IH [OF 4] by blast
    qed (use c in \<open>auto simp: adds_def\<close>)
  qed
qed simp

lemma copy_adds:
  "tree_ok t \<Longrightarrow> below root dst \<Longrightarrow> copyPath os t dst log = (log', e) \<Longrightarrow> adds root log log'"
  "list_all (\<lambda>(n, t). plain_name n \<and> tree_ok t) ents \<Longrightarrow> below root dst \<Longrightarrow> copyEntries os ents dst log = (log', e) \<Longrightarrow> adds root log log'"
proof (induction os t dst log and os ents dst log arbitrary: log' e and log' e rule: copyPath_copyEntries.induct)
  case (3 os content perm dst log)
  let ?n = "min (os_room os (log @ [OpenTrunc dst perm]) dst) (length content)"
  let ?ops = "[OpenTrunc dst perm, WriteTo dst (take ?n content), CloseFile dst]"
  have "log' = log @ take 1 ?ops \<or> log' = log @ ?ops"
    using 3(3) by (auto simp: Let_def split: option.splits if_splits)
  then show ?case using 3(2) by (auto simp: adds_def)
next
  case (4 os perm entries dst log)
  have d: "adds root log (log @ [MkdirAll dst perm])" using 4(3) by (simp add: adds_def)
  show ?case
  proof (cases "os_mkdir os log dst")
    case None
    then have "copyEntries os entries dst (log @ [MkdirAll dst perm]) = (log', e)" using 4(4) by simp
    then show ?thesis using 4(1) None 4(2,3) adds_trans [OF d] by simp
  next
    case (Some x)
    then show ?thesis using 4(4) d by simp
  qed
next
  case (6 os name nd entries dst log)
  obtain log1 e1 where cp: "copyPath os nd (JoinPath dst name) log = (log1, e1)" by fastforce
  have 1: "adds root log log1" using 6(1) [OF _ _ cp] 6(3,4) join_plain by simp
  show ?case
  proof (cases e1)
    case None
    then show ?thesis using adds_trans [OF 1] 6(2) [OF cp [symmetric]] 6(3-5) cp by simp
  next
    case (Some x)
    then show ?thesis using 1 6(5) cp by simp
  qed
qed simp_all

lemma moveEntries_adds:
  assumes "\<And>log p. tree_ok (os_tree os log p)" "below root src" "below root dst" "list_all plain_name names"
    "moveEntries os src dst names log = (log', e)"
  shows "adds root log log'"
  using assms(4,5)
proof (induction names arbitrary: log)
  case (Cons n names)
  let ?from = "JoinPath src n" and ?to = "JoinPath dst n"
  have c: "below root ?from" "below root ?to" using Cons.prems(1) assms(2,3) join_plain by auto
  have 1: "adds root log (log @ [Rename ?from ?to])" using c by (simp add: adds_def)
  show ?case
  proof (cases "os_rename os log ?from ?to")
    case EXDEV
    let ?l1 = "log @ [Rename ?from ?to]"
    obtain log2 e2 where cp: "copyPath os (os_tree os ?l1 ?from) ?to ?l1 = (log2, e2)" by fastforce
    have 2: "adds root log log2" using copy_adds(1) [OF assms(1) c(2) cp] adds_trans [OF 1] by blast
    show ?thesis
    proof (cases e2)
      case None
      have "adds root log (log2 @ [RemoveAll ?from])" using 2 c by (intro adds_append) simp_all
      then show ?thesis using adds_trans Cons.IH Cons.prems EXDEV cp None by (simp add: Let_def)
    qed (use 2 cp EXDEV Cons.prems in \<open>simp add: Let_def\<close>)
  next
    case Renamed
    then show ?thesis using adds_trans [OF 1] Cons.IH Cons.prems by (simp add: Let_def)
  next
    case (RenameErr x)
    then show ?thesis using 1 Cons.prems by (simp add: Let_def)
  qed
qed simp

lemma clearEntries_adds:
  "list_all plain_name names \<Longrightarrow> clearEntries os dir stages names log = (log', e) \<Longrightarrow> adds dir log log'"
proof (induction names arbitrary: log)
  case (Cons n names)
  have c: "adds dir log (log @ [RemoveAll (JoinPath dir n)])"
    using Cons.prems(1) join_plain [of n dir dir] by (simp add: adds_def)
  show ?case using Cons.prems Cons.IH [of log] Cons.IH [of "log @ [RemoveAll (JoinPath dir n)]"] adds_trans [OF c] c
    by (auto simp: Let_def split: if_splits option.splits)
qed simp

lemma readdir_plain: "os_names_ok os \<Longrightarrow> os_readdir os log d = Ok names \<Longrightarrow> list_all plain_name names"
  unfolding os_names_ok_def list_all_iff by blast

lemma resetWorkdir_adds:
  assumes "os_names_ok os" "resetWorkdirLocked os cfg a log = (log', e)"
  shows "adds (cf_Workdir cfg) log log'"
proof (cases "os_readdir os log (cf_Workdir cfg)")
  case (Inr names)
  then show ?thesis using assms(2) clearEntries_adds [OF readdir_plain [OF assms(1) Inr]] by (auto simp: resetWorkdirLocked_def)
qed (use assms(2) in \<open>simp add: resetWorkdirLocked_def\<close>)

lemma moveDirContents_adds:
  assumes "os_names_ok os" "\<And>log p. tree_ok (os_tree os log p)" "below root src" "below root dst"
    "moveDirContents os src dst log = (log', e)"
  shows "adds root log log'"
proof (cases "os_readdir os log src")
  case (Inr names)
  then show ?thesis using assms(5) moveEntries_adds [OF assms(2-4) readdir_plain [OF assms(1) Inr]] by (auto simp: moveDirContents_def)
qed (use assms(5) in \<open>simp add: moveDirContents_def\<close>)

lemma injectLocked_adds:
  assumes "os_names_ok (en_os en)" "\<And>log p. tree_ok (os_tree (en_os en) log p)"
    "\<And>dir. staged = Some dir \<Longrightarrow> below (cf_Workdir (en_cfg en)) dir"
    "injectLocked en req command appPort staged (w, log) = (s, r)"
  shows "adds (cf_Workdir (en_cfg en)) log (snd s)"
proof -
  let ?wd = "cf_Workdir (en_cfg en)"
  obtain a ps where w: "stopProcessLocked (en_stop en) w = (a, ps)" by fastforce
  obtain log1 e1 where reset: "resetWorkdirLocked (en_os en) (en_cfg en) a log = (log1, e1)" by fastforce
  obtain log2 e2 where files: "(case staged of
                   Some dir \<Rightarrow> moveDirContents (en_os en) dir ?wd log1
                 | None \<Rightarrow> writeFiles (en_os en) ?wd (ai_Files req) log1) = (log2, e2)" by fastforce
  have 1: "adds ?wd log log1" by (rule resetWorkdir_adds [OF assms(1) reset])
  have "adds ?wd log1 log2"
    using files assms(3) writeFiles_adds moveDirContents_adds [OF assms(1,2) _ below_refl] by (cases staged) auto
  then have 2: "adds ?wd log log2" by (rule adds_trans [OF 1])
  have "snd s = (if e1 = None then log2 else log1)"
    using assms(4) w reset files
    by (cases e1; cases e2; cases "en_start en") (auto simp: injectLocked_def startProcessLocked_def Let_def split: prod.splits)
  with 1 2 show ?thesis by simp
qed

lemma staged_inject_adds:
  fixes en req
  defines "wd \<equiv> cf_Workdir (en_cfg en)"
  assumes "os_names_ok (en_os en)" "\<And>log p. tree_ok (os_tree (en_os en) log p)" "runCommandOf req = Ok command" "ai_SourceURL req \<noteq> ''''"
    "os_mkdir (en_os en) (snd s) wd = None" "os_mkdirtemp (en_os en) (snd s @ [MkdirAll wd 493]) stagePattern = Ok name"
  shows "adds wd (snd s) (snd (fst (inject en req s)))"
proof -
  let ?log1 = "snd s @ [MkdirAll wd 493]" and ?dir = "JoinPath wd name" and ?port = "if ai_Port req = 0 then cf_AppPort (en_cfg en) else ai_Port req"
  have "plain_name name" using assms(2,7) unfolding os_names_ok_def by blast
  then have dir: "below wd ?dir" by (rule join_plain) simp
  have mk: "adds wd (snd s) ?log1" by (simp add: adds_def)
  obtain ops e where f: "Fetch (os_after ?log1 (en_os en)) (en_source en) (ai_SourceURL req) ?dir = (ops, e)" by fastforce
  have "list_all (confined wd) ops" using fetch_log(1) [OF f] confined_below [OF dir] by (simp add: list_all_iff)
  then have 2: "adds wd (snd s) (?log1 @ ops)" by (rule adds_append [OF mk])
  obtain s2 r where l: "injectLocked en req command ?port (Some ?dir) (registerStage name (fst s), ?log1 @ ops) = (s2, r)" by fastforce
  have 3: "adds wd (snd s) (snd s2)" using injectLocked_adds [OF assms(2,3) _ l] dir adds_trans [OF 2] by (simp add: wd_def)
  have "snd (fst (inject en req s)) = (if e = None then snd s2 else ?log1 @ ops) @ [RemoveAll ?dir]"
    using f l assms(4-7) by (cases e; cases s2) (simp_all add: inject_def wd_def Let_def)
  moreover have "adds wd (snd s) ((if e = None then snd s2 else ?log1 @ ops) @ [RemoveAll ?dir])"
    by (rule adds_append) (use 2 3 dir in simp_all)
  ultimately show ?thesis by simp
qed

text \<open>C13: An inject touches nothing outside the work directory, whether its source is inline or a tarball, also when one of its
  calls fails: everything it removes, renames, opens or writes lies at or below that directory.
\<close>

theorem inject_stays_in_workdir:
  assumes "os_names_ok (en_os en)" "\<And>log p. tree_ok (os_tree (en_os en) log p)"
  shows "\<exists>ops. snd (fst (inject en req s)) = snd s @ ops \<and> list_all (confined (cf_Workdir (en_cfg en))) ops"
proof -
  let ?wd = "cf_Workdir (en_cfg en)" and ?log1 = "snd s @ [MkdirAll (cf_Workdir (en_cfg en)) 493]"
  have "adds ?wd (snd s) (snd (fst (inject en req s)))"
  proof (cases "runCommandOf req")
    case (Inl e)
    then show ?thesis by (simp add: inject_def)
  next
    case (Inr command)
    consider (inline) "ai_SourceURL req = ''''"
      | (staged) name where "ai_SourceURL req \<noteq> ''''" "os_mkdir (en_os en) (snd s) ?wd = None" "os_mkdirtemp (en_os en) ?log1 stagePattern = Ok name"
      | (noStage) "ai_SourceURL req \<noteq> ''''" "\<not> (os_mkdir (en_os en) (snd s) ?wd = None \<and> (\<exists>name. os_mkdirtemp (en_os en) ?log1 stagePattern = Ok name))" by blast
    then show ?thesis
    proof cases
      case inline
      obtain s1 r where "injectLocked en req command (if ai_Port req = 0 then cf_AppPort (en_cfg en) else ai_Port req) None (fst s, snd s) = (s1, r)" by fastforce
      with injectLocked_adds [OF assms _ this] inline Inr show ?thesis by (cases s) (simp add: inject_def Let_def)
    next
      case staged
      then show ?thesis by (rule staged_inject_adds [OF assms Inr])
    next
      case noStage
      then have "snd (fst (inject en req s)) = ?log1" using Inr
        by (cases "os_mkdir (en_os en) (snd s) ?wd"; cases "os_mkdirtemp (en_os en) ?log1 stagePattern") (simp_all add: inject_def Let_def)
      then show ?thesis by (simp add: adds_def)
    qed
  qed
  then show ?thesis unfolding adds_def .
qed

lemma clearEntries_exact:
  "clearEntries os dir stages names log = (log', None) \<Longrightarrow>
   log' = log @ map (\<lambda>n. RemoveAll (JoinPath dir n)) (filter (\<lambda>n. n \<notin> stages) names)"
proof (induction names arbitrary: log)
  case (Cons n names)
  show ?case using Cons.prems Cons.IH [of log] Cons.IH [of "log @ [RemoveAll (JoinPath dir n)]"]
    by (auto simp: Let_def split: if_splits option.splits)
qed simp

lemma clearEntries_spares:
  "clearEntries os dir stages names log = (log', e) \<Longrightarrow> \<exists>ns. log' = log @ map (\<lambda>n. RemoveAll (JoinPath dir n)) ns \<and> set ns \<subseteq> set names - stages"
proof (induction names arbitrary: log)
  case (Cons n names)
  let ?l = "log @ [RemoveAll (JoinPath dir n)]"
  consider "n \<in> stages" "clearEntries os dir stages names log = (log', e)"
    | "n \<notin> stages" "log' = ?l" | "n \<notin> stages" "clearEntries os dir stages names ?l = (log', e)"
    using Cons.prems by (auto simp: Let_def split: if_splits option.splits)
  then show ?case
  proof cases
    case 1
    then show ?thesis using Cons.IH [OF 1(2)] by auto
  next
    case 2
    then show ?thesis by (intro exI [of _ "[n]"]) simp
  next
    case 3
    from Cons.IH [OF 3(2)] obtain ns where "log' = ?l @ map (\<lambda>n. RemoveAll (JoinPath dir n)) ns" "set ns \<subseteq> set names - stages" by blast
    with 3(1) show ?thesis by (intro exI [of _ "n # ns"]) auto
  qed
qed (intro exI [of _ "[]"], simp)

text \<open>Clearing the work directory never removes a staging directory in flight, so a concurrent inject's source survives; and when it
  succeeds it has removed every other entry.
\<close>

theorem reset_spares_stages:
  assumes "os_readdir os log (cf_Workdir cfg) = Ok names" "list_all plain_name names"
    "resetWorkdirLocked os cfg a log = (log', e)" "name \<in> ag_stages a" "plain_name name"
  shows "\<exists>ns. log' = log @ map (\<lambda>n. RemoveAll (JoinPath (cf_Workdir cfg) n)) ns \<and>
     RemoveAll (JoinPath (cf_Workdir cfg) name) \<notin> set (map (\<lambda>n. RemoveAll (JoinPath (cf_Workdir cfg) n)) ns) \<and>
     (e = None \<longrightarrow> set ns = set names - ag_stages a)"
proof -
  let ?r = "\<lambda>n. RemoveAll (JoinPath (cf_Workdir cfg) n)"
  have c: "clearEntries os (cf_Workdir cfg) (ag_stages a) names log = (log', e)" using assms(1,3) by (simp add: resetWorkdirLocked_def)
  have inj: "m = n" if "?r m = ?r n" "plain_name m" "plain_name n" for m n
  proof -
    have "cleaned (JoinPath (cf_Workdir cfg) k) = cleaned (cf_Workdir cfg) @ [k]" if "plain_name k" for k
      using join_inside(1) [of k] plain_name_path [OF that] by simp
    then show ?thesis using that by (metis fs_op.inject(5) last_snoc)
  qed
  have sp: "?r name \<notin> set (map ?r ns)" if "set ns \<subseteq> set names - ag_stages a" for ns
  proof
    assume "?r name \<in> set (map ?r ns)"
    then obtain n where "n \<in> set ns" "?r name = ?r n" by auto
    then have "n = name" using that inj [of name n] assms(2,5) by (auto simp: list_all_iff)
    with that assms(4) \<open>n \<in> set ns\<close> show False by auto
  qed
  show ?thesis
  proof (cases e)
    case None
    then have "log' = log @ map ?r (filter (\<lambda>n. n \<notin> ag_stages a) names)" using c clearEntries_exact by blast
    moreover have "set (filter (\<lambda>n. n \<notin> ag_stages a) names) = set names - ag_stages a" by auto
    ultimately show ?thesis using sp by blast
  next
    case (Some x)
    then show ?thesis using clearEntries_spares [OF c] sp by blast
  qed
qed

subsection \<open>Examples\<close>

definition example_cfg :: AgentConfig where
  "example_cfg = \<lparr>cf_ControlAddr = '':9000'', cf_Workdir = ''/w'', cf_Token = ''secret'', cf_RequireAuth = True, cf_AppPort = 8080,
     cf_LogLines = 10, cf_StopGrace = 5, cf_Language = ''python'', cf_RuntimeProbe = ''''\<rparr>"

definition example_env :: agent_env where
  "example_env = \<lparr>en_cfg = example_cfg, en_os = quiet_os, en_source = one_file, en_environ = [''VIBED_AGENT_TOKEN=secret'', ''A=1''],
     en_stop = Abandoned, en_start = Ok (7, 42), en_probe = \<lambda>_. ('''', True), en_message = \<lambda>_. ''failed''\<rparr>"

definition example_req :: AgentInjectRequest where
  "example_req = \<lparr>ai_Language = ''python'', ai_Files = [(''app.py'', ''ok'')], ai_SourceURL = '''', ai_Command = [], ai_Env = [], ai_Port = 0\<rparr>"

definition example_proc :: process where
  "example_proc = \<lparr>ps_pid = 42, ps_gen = 1, ps_command = [''python'', ''app.py''], ps_env = buildEnv [''VIBED_AGENT_TOKEN=secret'', ''A=1''] [] 8080,
     ps_signalled = False, ps_result = None\<rparr>"

definition example_agent :: Agent where
  "example_agent = (New example_cfg)\<lparr>ag_logs := reset (ag_logs (New example_cfg)), ag_gen := 1, ag_cmd := Some 7, ag_state := StateRunning,
     ag_command := [''python'', ''app.py''], ag_appPort := 8080\<rparr>"

definition example_log :: "fs_op list" where
  "example_log = [MkdirAll ''/w'' 493, OpenTrunc ''/w/app.py'' 420, WriteTo ''/w/app.py'' ''ok'', CloseFile ''/w/app.py'']"

lemma example_written: "writeFiles quiet_os ''/w'' [(''app.py'', ''ok'')] [] = (example_log, None)"
proof -
  have "Clean ''app.py'' = ''app.py''" "illegal_path ''app.py'' = False" "JoinPath ''/w'' ''app.py'' = ''/w/app.py''"
    "Rel ''/w'' ''/w/app.py'' = Some ''app.py''" "HasPrefix ''app.py'' ''../'' = False" "DirOf ''/w/app.py'' = ''/w''" by code_simp+
  then show ?thesis by (simp add: quiet_os_def example_log_def Let_def)
qed

lemma example_locked:
  "injectLocked example_env example_req [''python'', ''app.py''] 8080 None ((New example_cfg, Map.empty), []) =
     (((example_agent, [7 \<mapsto> example_proc]), example_log), Ok (statusLocked (example_agent, [7 \<mapsto> example_proc])))"
  using example_written
  by (simp add: injectLocked_def example_env_def example_req_def stopProcessLocked_def New_def resetWorkdirLocked_def
     quiet_os_def example_cfg_def startProcessLocked_def Let_def example_agent_def example_proc_def)

lemma example_reached: "reaches 1 (((example_agent, [7 \<mapsto> example_proc]), example_log))"
proof -
  have "agent_step ((New example_cfg, Map.empty), []) (((example_agent, [7 \<mapsto> example_proc]), example_log))"
    by (rule agent_step.commit [OF _ example_locked]) simp
  then show ?thesis using reaches.step [OF reaches.start] by simp
qed

theorem at_most_one_user_process_witness:
  "reaches 1 ((example_agent, [7 \<mapsto> example_proc]), example_log) \<and> ag_state example_agent = StateRunning \<and>
   ag_cmd example_agent \<noteq> None \<and> {c. \<exists>p. [7 \<mapsto> example_proc] c = Some p \<and> \<not> ps_signalled p} \<subseteq> {c. ag_cmd example_agent = Some c}"
proof -
  have "ag_state example_agent = StateRunning" by (simp add: example_agent_def)
  moreover have "(1 :: nat) < 2 ^ 63" by simp
  ultimately show ?thesis using at_most_one_user_process [OF example_reached] example_reached by blast
qed

lemma example_stopped:
  "reaches 2 (stopProcess Abandoned (example_agent, [7 \<mapsto> example_proc]), example_log)"
  using reaches.step [OF example_reached agent_step.stop] by (simp add: numeral_2_eq_2)

theorem stale_supervisor_is_ignored_witness:
  "supervise 7 (signalled Abandoned example_proc) (ExitError 1) (example_agent\<lparr>ag_gen := 2, ag_cmd := None, ag_state := StateIdle\<rparr>) =
   example_agent\<lparr>ag_gen := 2, ag_cmd := None, ag_state := StateIdle\<rparr>"
proof (rule stale_supervisor_is_ignored)
  show "reaches 2 ((example_agent\<lparr>ag_gen := 2, ag_cmd := None, ag_state := StateIdle\<rparr>, [7 \<mapsto> signalled Abandoned example_proc]), example_log)"
    using example_stopped by (simp add: stopProcess_def stopProcessLocked_def example_agent_def)
qed simp_all

definition example_request :: "string \<Rightarrow> string \<Rightarrow> request" where
  "example_request path auth = \<lparr>rq_Method = ''POST'', rq_Path = path, rq_Authorization = auth, rq_lines = '''', rq_body = Ok example_req\<rparr>"

theorem control_api_fails_closed_witness:
  "fst (agentHandler example_env (example_request ''/inject'' ''Bearer guess'') ((New example_cfg, Map.empty), [])) = ((New example_cfg, Map.empty), [])"
  using control_api_fails_closed [of example_env "example_request ''/inject'' ''Bearer guess''" "((New example_cfg, Map.empty), [])"]
  by (simp add: example_env_def example_cfg_def example_request_def)

theorem bare_token_is_accepted_witness:
  "agentHandler example_env (example_request ''/status'' ''secret'') ((New example_cfg, Map.empty), []) =
   handleStatus ((New example_cfg, Map.empty), [])"
  by (rule bare_token_is_accepted) (simp_all add: example_env_def example_cfg_def example_request_def)

lemma example_injected:
  "inject example_env example_req ((New example_cfg, Map.empty), []) =
     (((example_agent, [7 \<mapsto> example_proc]), example_log), Ok (statusLocked (example_agent, [7 \<mapsto> example_proc])))"
proof -
  have "runCommandOf example_req = Ok [''python'', ''app.py'']" by code_simp
  then show ?thesis using example_locked by (simp add: inject_def Let_def) (simp add: example_req_def example_env_def example_cfg_def)
qed

theorem inject_success_runs_the_request_witness:
  "\<exists>p. [7 \<mapsto> example_proc] 7 = Some p \<and> ps_command p = [''python'', ''app.py''] \<and> snapshot 0 (ag_logs example_agent) = []"
proof -
  have "runCommandOf example_req = Ok [''python'', ''app.py'']" by code_simp
  then show ?thesis using inject_success_runs_the_request [OF example_injected] by (auto simp: example_env_def example_agent_def)
qed

lemma quiet_os_ok: "os_names_ok quiet_os" "tree_ok (os_tree quiet_os log p)"
  by (simp_all add: os_names_ok_def quiet_os_def plain_name_def path_element_def)

theorem inject_stays_in_workdir_witness:
  "\<exists>ops. snd (fst (inject example_env example_req ((New example_cfg, Map.empty), []))) = ops \<and> list_all (confined ''/w'') ops"
  using inject_stays_in_workdir [of example_env example_req "((New example_cfg, Map.empty), [])"] quiet_os_ok
  by (simp add: example_env_def example_cfg_def)

definition listing_os :: os where
  "listing_os = quiet_os\<lparr>os_readdir := \<lambda>_ _. Ok [''.vibed-stage-1'', ''old.py'']\<rparr>"

lemma example_reset:
  "resetWorkdirLocked listing_os example_cfg ((New example_cfg)\<lparr>ag_stages := {''.vibed-stage-1''}\<rparr>) [] = ([RemoveAll ''/w/old.py''], None)"
proof -
  have "JoinPath ''/w'' ''old.py'' = ''/w/old.py''" by code_simp
  then show ?thesis by (simp add: resetWorkdirLocked_def listing_os_def quiet_os_def example_cfg_def Let_def)
qed

theorem reset_spares_stages_witness:
  "\<exists>ns. [RemoveAll ''/w/old.py''] = map (\<lambda>n. RemoveAll (JoinPath ''/w'' n)) ns \<and> set ns = {''old.py''}"
proof -
  have dir: "os_readdir listing_os [] (cf_Workdir example_cfg) = Ok [''.vibed-stage-1'', ''old.py'']" by (simp add: listing_os_def)
  have plain: "list_all plain_name [''.vibed-stage-1'', ''old.py'']" "plain_name ''.vibed-stage-1''"
    by (simp_all add: plain_name_def path_element_def)
  have stage: "''.vibed-stage-1'' \<in> ag_stages ((New example_cfg)\<lparr>ag_stages := {''.vibed-stage-1''}\<rparr>)" by simp
  obtain ns where ns: "[RemoveAll ''/w/old.py''] = [] @ map (\<lambda>n. RemoveAll (JoinPath (cf_Workdir example_cfg) n)) ns"
    "set ns = set [''.vibed-stage-1'', ''old.py''] - ag_stages ((New example_cfg)\<lparr>ag_stages := {''.vibed-stage-1''}\<rparr>)"
    using reset_spares_stages [OF dir plain(1) example_reset stage plain(2)] by blast
  have wd: "cf_Workdir example_cfg = ''/w''" by (simp add: example_cfg_def)
  have "[RemoveAll ''/w/old.py''] = map (\<lambda>n. RemoveAll (JoinPath ''/w'' n)) ns"
    using ns(1) unfolding wd append_Nil .
  moreover have "set ns = {''old.py''}" unfolding ns(2) by simp
  ultimately show ?thesis by (intro exI conjI)
qed

end
