(* ===== verification/Classifier.thy ===== *)
theory Classifier
  imports Deploy_Env Source_Fetch
begin

section \<open>The classifier\<close>

text \<open>
  \<open>src/internal/classifier/classifier.go\<close>: lane and template of a source tarball, from its file names and the top-level keys of
  a root \<open>package.json\<close>.  The tar stream is the list of results of \<open>Next\<close>; an entry carries what decoding its first 256 KB as
  JSON gives.
\<close>

definition TemplateStaticNginx :: string where "TemplateStaticNginx = ''static-nginx''"
definition TemplateNode24 :: string where "TemplateNode24 = ''node-24''"
definition TemplatePython313 :: string where "TemplatePython313 = ''python-313''"
definition TemplateGo123 :: string where "TemplateGo123 = ''go-123''"
definition TemplateBaseAL2023 :: string where "TemplateBaseAL2023 = ''base-al2023''"
definition TemplateWorkerd :: string where "TemplateWorkerd = ''workerd''"
definition TemplateSpin :: string where "TemplateSpin = ''spin''"

lemmas template_defs = TemplateStaticNginx_def TemplateNode24_def TemplatePython313_def TemplateGo123_def
  TemplateBaseAL2023_def TemplateWorkerd_def TemplateSpin_def

definition RuleStaticOnly :: nat where "RuleStaticOnly = 1"
definition RuleBrowserBundle :: nat where "RuleBrowserBundle = 2"
definition RuleWorkerd :: nat where "RuleWorkerd = 3"
definition RuleSpin :: nat where "RuleSpin = 4"
definition RuleNodeWithDeps :: nat where "RuleNodeWithDeps = 5"
definition RulePython :: nat where "RulePython = 6"
definition RuleGo :: nat where "RuleGo = 7"
definition RuleDockerfile :: nat where "RuleDockerfile = 8"
definition RuleUnknownFallback :: nat where "RuleUnknownFallback = 9"

lemmas rule_defs = RuleStaticOnly_def RuleBrowserBundle_def RuleWorkerd_def RuleSpin_def RuleNodeWithDeps_def RulePython_def
  RuleGo_def RuleDockerfile_def RuleUnknownFallback_def

record packageJSON =
  pj_Dependencies :: "string \<rightharpoonup> string"
  pj_DevDependencies :: "string \<rightharpoonup> string"
  pj_Scripts :: "string \<rightharpoonup> string"

definition empty_package :: packageJSON where
  "empty_package = \<lparr>pj_Dependencies = Map.empty, pj_DevDependencies = Map.empty, pj_Scripts = Map.empty\<rparr>"

record scan =
  sc_rootFiles :: "string set"
  sc_hasExt :: "string set"
  sc_anyServerSignal :: bool
  sc_pkg :: "packageJSON option"

definition empty_scan :: scan where
  "empty_scan = \<lparr>sc_rootFiles = {}, sc_hasExt = {}, sc_anyServerSignal = False, sc_pkg = None\<rparr>"

definition rootServerMarkers :: "string list" where
  "rootServerMarkers = [''Dockerfile'', ''go.mod'', ''requirements.txt'', ''pyproject.toml'', ''package.json'', ''spin.toml'',
     ''wrangler.toml'', ''worker.js'', ''worker.ts'']"

definition staticExts :: "string list" where
  "staticExts = [''.html'', ''.htm'', ''.css'', ''.js'', ''.mjs'', ''.svg'', ''.png'', ''.jpg'', ''.jpeg'', ''.gif'', ''.webp'', ''.ico'',
     ''.woff'', ''.woff2'', ''.ttf'', ''.eot'', ''.json'', ''.txt'', ''.md'', ''.webmanifest'']"

datatype class_next = ClEntry tar_Header "packageJSON option" | ClErr string

text \<open>A malformed \<open>package.json\<close> counts as an empty one.\<close>

definition parsePackageJSON :: "packageJSON option \<Rightarrow> packageJSON" where
  "parsePackageJSON decoded = (case decoded of None \<Rightarrow> empty_package | Some p \<Rightarrow> p)"

definition regular_file :: "tar_Header \<Rightarrow> bool" where
  "regular_file hdr \<longleftrightarrow> hdr_Typeflag hdr = TypeReg \<or> hdr_Typeflag hdr = TypeRegA"

definition entryName :: "tar_Header \<Rightarrow> string" where
  "entryName hdr = TrimPrefix (Clean (hdr_Name hdr)) ''./''"

text \<open>Archive cruft of macOS.\<close>

definition isCruft :: "string \<Rightarrow> bool" where
  "isCruft name \<longleftrightarrow> HasPrefix (BaseOf name) ''._'' \<or> BaseOf name = ''.DS_Store'' \<or> HasPrefix name ''__MACOSX/''"

definition skipped :: "tar_Header \<Rightarrow> bool" where
  "skipped hdr \<longleftrightarrow> entryName hdr = '''' \<or> entryName hdr = ''.'' \<or> isCruft (entryName hdr)"

definition root_package :: "tar_Header \<Rightarrow> bool" where
  "root_package h \<longleftrightarrow> entryName h = ''package.json'' \<and> regular_file h"

definition ext_of_entry :: "tar_Header \<Rightarrow> string" where
  "ext_of_entry h = ToLower (ExtOf (BaseOf (entryName h)))"

definition scanEntry :: "tar_Header \<Rightarrow> packageJSON option \<Rightarrow> scan \<Rightarrow> scan" where
  "scanEntry hdr decoded s =
     (let name = entryName hdr; base = BaseOf name in
      if skipped hdr then s
      else let s = (if \<not> Contains name ''/'' then s\<lparr>sc_rootFiles := insert name (sc_rootFiles s)\<rparr> else s);
               s = (if base \<in> set rootServerMarkers then s\<lparr>sc_anyServerSignal := True\<rparr> else s);
               ext = ext_of_entry hdr;
               s = (if regular_file hdr \<and> ext \<noteq> '''' then s\<lparr>sc_hasExt := insert ext (sc_hasExt s)\<rparr> else s)
           in if root_package hdr then s\<lparr>sc_pkg := Some (parsePackageJSON decoded)\<rparr> else s)"

datatype class_err = Cancelled string | ClGunzip string | ClReadTarball string | ClTooManyEntries | ClTooLarge

text \<open>\<open>ctx i\<close> is the context's error before the \<open>i\<close>-th \<open>Next\<close>; \<open>rest\<close> tells whether bytes are left on the wire after the last entry.\<close>

fun scanLoop :: "(nat \<Rightarrow> string option) \<Rightarrow> bool \<Rightarrow> class_next list \<Rightarrow> nat \<Rightarrow> scan \<Rightarrow> (class_err, scan) result" where
  "scanLoop ctx rest items entries s =
     (case ctx entries of Some e \<Rightarrow> Err (Cancelled e)
      | None \<Rightarrow>
         (case items of
            [] \<Rightarrow> if rest then Err ClTooLarge else Ok s
          | ClErr e # items' \<Rightarrow> Err (ClReadTarball e)
          | ClEntry hdr decoded # items' \<Rightarrow>
              if entries + 1 > MaxEntries then Err ClTooManyEntries
              else scanLoop ctx rest items' (entries + 1) (scanEntry hdr decoded s)))"

declare scanLoop.simps [simp del]

text \<open>The gunzipped stream, or why there is none, is the argument.\<close>

definition scanTarball :: "(nat \<Rightarrow> string option) \<Rightarrow> bool \<Rightarrow> (string, class_next list) result \<Rightarrow> (class_err, scan) result" where
  "scanTarball ctx rest gz = (case gz of Err e \<Rightarrow> Err (ClGunzip e) | Ok items \<Rightarrow> scanLoop ctx rest items 0 empty_scan)"

definition bundlerLooksLikeSPA :: "packageJSON \<Rightarrow> string \<Rightarrow> bool" where
  "bundlerLooksLikeSPA pkg buildScript \<longleftrightarrow>
     Contains buildScript ''dist'' \<or> Contains buildScript ''build'' \<or>
     list_ex (\<lambda>dep. pj_DevDependencies pkg dep \<noteq> None \<or> pj_Dependencies pkg dep \<noteq> None)
       [''vite'', ''parcel'', ''webpack'', ''rollup'', ''esbuild'', ''@angular/cli'']"

definition hasOnlyStaticExts :: "string set \<Rightarrow> bool" where
  "hasOnlyStaticExts seen \<longleftrightarrow> seen \<subseteq> set staticExts"

definition decision :: "Lane \<Rightarrow> string \<Rightarrow> nat \<Rightarrow> Decision" where
  "decision lane template rule = \<lparr>dec_Lane = lane, dec_Template = template, dec_Rule = rule, dec_BuildAsync = False\<rparr>"

definition decide :: "scan \<Rightarrow> Decision" where
  "decide s =
     (if ''spin.toml'' \<in> sc_rootFiles s then decision LaneFast TemplateSpin RuleSpin
      else if ''wrangler.toml'' \<in> sc_rootFiles s then decision LaneFast TemplateWorkerd RuleWorkerd
      else if ''worker.js'' \<in> sc_rootFiles s then decision LaneFast TemplateWorkerd RuleWorkerd
      else if ''worker.ts'' \<in> sc_rootFiles s then decision LaneFast TemplateWorkerd RuleWorkerd
      else case sc_pkg s of
        Some pkg \<Rightarrow>
          (let build = (case pj_Scripts pkg ''build'' of None \<Rightarrow> '''' | Some b \<Rightarrow> b) in
           if build \<noteq> '''' \<and> bundlerLooksLikeSPA pkg build
           then (decision LaneFast TemplateStaticNginx RuleBrowserBundle)\<lparr>dec_BuildAsync := True\<rparr>
           else decision LaneGeneral TemplateNode24 RuleNodeWithDeps)
      | None \<Rightarrow>
          if ''requirements.txt'' \<in> sc_rootFiles s then decision LaneGeneral TemplatePython313 RulePython
          else if ''pyproject.toml'' \<in> sc_rootFiles s then decision LaneGeneral TemplatePython313 RulePython
          else if ''go.mod'' \<in> sc_rootFiles s then decision LaneGeneral TemplateGo123 RuleGo
          else if ''Dockerfile'' \<in> sc_rootFiles s then decision LaneGeneral TemplateBaseAL2023 RuleDockerfile
          else if \<not> sc_anyServerSignal s \<and> hasOnlyStaticExts (sc_hasExt s) \<and> ''.html'' \<in> sc_hasExt s
          then decision LaneFast TemplateStaticNginx RuleStaticOnly
          else decision LaneGeneral TemplateBaseAL2023 RuleUnknownFallback)"

definition Classify :: "(nat \<Rightarrow> string option) \<Rightarrow> bool \<Rightarrow> (string, class_next list) result \<Rightarrow> (class_err, Decision) result" where
  "Classify ctx rest gz = (case scanTarball ctx rest gz of Err e \<Rightarrow> Err e | Ok s \<Rightarrow> Ok (decide s))"

subsection \<open>The scan, declaratively\<close>

text \<open>What a stream shows, without an order: the entries that count.\<close>

definition counted :: "class_next list \<Rightarrow> (tar_Header \<times> packageJSON option) set" where
  "counted items = {(h, d). ClEntry h d \<in> set items \<and> \<not> skipped h}"

definition scan_of :: "(tar_Header \<times> packageJSON option) set \<Rightarrow> scan \<Rightarrow> scan \<Rightarrow> bool" where
  "scan_of es s0 s \<longleftrightarrow>
     sc_rootFiles s = sc_rootFiles s0 \<union> {entryName h |h d. (h, d) \<in> es \<and> \<not> Contains (entryName h) ''/''} \<and>
     sc_hasExt s = sc_hasExt s0 \<union> {ext_of_entry h |h d. (h, d) \<in> es \<and> regular_file h \<and> ext_of_entry h \<noteq> ''''} \<and>
     (sc_anyServerSignal s \<longleftrightarrow> sc_anyServerSignal s0 \<or> (\<exists>(h, d) \<in> es. BaseOf (entryName h) \<in> set rootServerMarkers)) \<and>
     (if \<exists>(h, d) \<in> es. root_package h then \<exists>(h, d) \<in> es. root_package h \<and> sc_pkg s = Some (parsePackageJSON d)
      else sc_pkg s = sc_pkg s0)"

lemma scanEntry_fields:
  "sc_rootFiles (scanEntry h d s) = sc_rootFiles s \<union> (if \<not> skipped h \<and> \<not> Contains (entryName h) ''/'' then {entryName h} else {})"
  "sc_hasExt (scanEntry h d s) = sc_hasExt s \<union> (if \<not> skipped h \<and> regular_file h \<and> ext_of_entry h \<noteq> '''' then {ext_of_entry h} else {})"
  "sc_anyServerSignal (scanEntry h d s) \<longleftrightarrow> sc_anyServerSignal s \<or> (\<not> skipped h \<and> BaseOf (entryName h) \<in> set rootServerMarkers)"
  "sc_pkg (scanEntry h d s) = (if \<not> skipped h \<and> root_package h then Some (parsePackageJSON d) else sc_pkg s)"
  by (simp_all add: scanEntry_def Let_def)

lemma scan_of_refl: "scan_of {} s s"
  by (simp add: scan_of_def)

lemma scan_of_step:
  assumes "scan_of es (scanEntry h d s0) s"
  shows "scan_of (if skipped h then es else insert (h, d) es) s0 s"
proof -
  note A = assms [unfolded scan_of_def scanEntry_fields]
  show ?thesis
  proof (cases "skipped h")
    case True
    then show ?thesis using A by (simp add: scan_of_def)
  next
    case False
    have "sc_rootFiles s = sc_rootFiles s0 \<union> {entryName g |g e. (g, e) \<in> insert (h, d) es \<and> \<not> Contains (entryName g) ''/''}"
      using A False by auto
    moreover have "sc_hasExt s = sc_hasExt s0 \<union> {ext_of_entry g |g e. (g, e) \<in> insert (h, d) es \<and> regular_file g \<and> ext_of_entry g \<noteq> ''''}"
      using A False by auto
    moreover have "sc_anyServerSignal s \<longleftrightarrow> sc_anyServerSignal s0 \<or> (\<exists>(g, e) \<in> insert (h, d) es. BaseOf (entryName g) \<in> set rootServerMarkers)"
      using A False by auto
    moreover have "if \<exists>(g, e) \<in> insert (h, d) es. root_package g
       then \<exists>(g, e) \<in> insert (h, d) es. root_package g \<and> sc_pkg s = Some (parsePackageJSON e)
       else sc_pkg s = sc_pkg s0"
      using A False by (auto split: if_splits)
    ultimately show ?thesis using False by (simp only: scan_of_def if_False)
  qed
qed

lemma counted_Cons: "counted (ClEntry h d # items) = (if skipped h then counted items else insert (h, d) (counted items))"
  by (auto simp: counted_def)

lemma scanLoop_scan_of:
  "scanLoop ctx rest items entries s0 = Ok s \<Longrightarrow> scan_of (counted items) s0 s"
proof (induction items arbitrary: entries s0)
  case Nil
  then have "s = s0" by (auto simp: scanLoop.simps [of _ _ "[]"] split: option.splits if_splits)
  then show ?case by (simp add: counted_def scan_of_refl)
next
  case (Cons i items)
  then obtain h d where i: "i = ClEntry h d"
    by (cases i) (auto simp: scanLoop.simps [of _ _ "_ # _"] split: option.splits)
  with Cons.prems have "scanLoop ctx rest items (entries + 1) (scanEntry h d s0) = Ok s"
    by (auto simp: scanLoop.simps [of _ _ "_ # _"] split: option.splits if_splits)
  from scan_of_step [OF Cons.IH [OF this]] show ?case by (simp add: i counted_Cons)
qed

lemma scan_of_unique:
  assumes "scan_of es s0 s" "scan_of es s0 s'"
    "\<And>h d h' d'. (h, d) \<in> es \<Longrightarrow> (h', d') \<in> es \<Longrightarrow> root_package h \<Longrightarrow> root_package h' \<Longrightarrow> d = d'"
  shows "s = s'"
proof -
  have "sc_pkg s = sc_pkg s'"
  proof (cases "\<exists>(h, d) \<in> es. root_package h")
    case True
    then obtain h d h' d' where "(h, d) \<in> es" "root_package h" "sc_pkg s = Some (parsePackageJSON d)"
      "(h', d') \<in> es" "root_package h'" "sc_pkg s' = Some (parsePackageJSON d')"
      using assms(1,2) unfolding scan_of_def by auto
    then show ?thesis using assms(3) by metis
  next
    case False
    then show ?thesis using assms(1,2) unfolding scan_of_def by presburger
  qed
  then show ?thesis using assms(1,2) unfolding scan_of_def by (intro scan.equality) simp_all
qed

lemma Contains_single: "Contains s [c] \<longleftrightarrow> c \<in> set s"
  by (induction s) (auto simp: HasPrefix_def)

lemma BaseOf_root:
  assumes "\<not> Contains n ''/''" "n \<noteq> ''''"
  shows "BaseOf n = n"
proof -
  have "CHR ''/'' \<notin> set n" using assms(1) by (simp add: Contains_single)
  moreover from this have "dropWhile (\<lambda>c. c = CHR ''/'') (rev n) = rev n"
    using assms(2) by (cases n rule: rev_cases) auto
  moreover have "IndexByte (rev n) (CHR ''/'') = None" using calculation(1) by (simp add: IndexByte_None)
  ultimately show ?thesis using assms(2) by (simp add: BaseOf_def LastIndexByte_def)
qed

lemma package_at_root: "\<not> Contains ''package.json'' ''/''"
  by (simp add: Contains_single)

subsection \<open>Properties\<close>

text \<open>Classification does not depend on the order of the entries, on repetitions, or on skipped entries: two tarballs that show the same
  entries, with one root \<open>package.json\<close> content, get the same decision whenever both are classified.
\<close>

theorem classify_ignores_order:
  assumes "Classify ctx rest (Ok items) = Ok dec" "Classify ctx' rest' (Ok items') = Ok dec'"
    "counted items = counted items'"
    "\<And>h d h' d'. (h, d) \<in> counted items \<Longrightarrow> (h', d') \<in> counted items \<Longrightarrow> root_package h \<Longrightarrow> root_package h' \<Longrightarrow> d = d'"
  shows "dec = dec'"
proof -
  from assms(1,2) obtain s s' where "scanLoop ctx rest items 0 empty_scan = Ok s" "dec = decide s"
    "scanLoop ctx' rest' items' 0 empty_scan = Ok s'" "dec' = decide s'"
    by (auto simp: Classify_def scanTarball_def split: sum.splits)
  note S = this
  have "s = s'"
    by (rule scan_of_unique [OF scanLoop_scan_of [OF S(1)]]) (use scanLoop_scan_of [OF S(3)] assms(3,4) in \<open>auto\<close>)
  with S show ?thesis by simp
qed

text \<open>A tarball goes to the static template as it is (rule 1) exactly when no file anywhere is named like a server marker, every
  extension is one of the static ones, and there is an HTML file.
\<close>

theorem static_rule_exact:
  assumes "Classify ctx rest (Ok items) = Ok dec"
  shows "dec_Rule dec = RuleStaticOnly \<longleftrightarrow>
    (\<forall>(h, d) \<in> counted items. BaseOf (entryName h) \<notin> set rootServerMarkers \<and>
       (regular_file h \<longrightarrow> ext_of_entry h = '''' \<or> ext_of_entry h \<in> set staticExts)) \<and>
    (\<exists>(h, d) \<in> counted items. regular_file h \<and> ext_of_entry h = ''.html'')"
proof -
  from assms obtain s where sl: "scanLoop ctx rest items 0 empty_scan = Ok s" and dec: "dec = decide s"
    by (auto simp: Classify_def scanTarball_def split: sum.splits)
  note S = scanLoop_scan_of [OF sl, unfolded scan_of_def]
  let ?E = "counted items"
  have E: "x \<in> sc_hasExt s \<longleftrightarrow> (\<exists>h d. x = ext_of_entry h \<and> (h, d) \<in> ?E \<and> regular_file h \<and> ext_of_entry h \<noteq> '''')" for x
    using S by (simp add: empty_scan_def)
  have mark: "sc_anyServerSignal s" if "(h, d) \<in> ?E" "BaseOf (entryName h) \<in> set rootServerMarkers" for h d
    using S that by blast
  have root: "sc_anyServerSignal s" if "n \<in> sc_rootFiles s" "n \<in> set rootServerMarkers" for n
  proof -
    from that S obtain h d where h: "(h, d) \<in> ?E" "n = entryName h" "\<not> Contains n ''/''" by (auto simp: empty_scan_def)
    have "n \<noteq> ''''" using that(2) by (auto simp: rootServerMarkers_def)
    with h that(2) BaseOf_root mark show ?thesis by metis
  qed
  have pkg: "sc_anyServerSignal s" if "sc_pkg s = Some p" for p
  proof -
    from that S obtain h d where h: "(h, d) \<in> ?E" "root_package h" by (auto simp: empty_scan_def split: if_splits)
    then have "BaseOf (entryName h) = ''package.json''" by (simp add: root_package_def BaseOf_root [OF package_at_root])
    with h mark show ?thesis by (simp add: rootServerMarkers_def)
  qed
  have "dec_Rule dec = RuleStaticOnly \<longleftrightarrow> \<not> sc_anyServerSignal s \<and> hasOnlyStaticExts (sc_hasExt s) \<and> ''.html'' \<in> sc_hasExt s"
  proof (cases "sc_anyServerSignal s")
    case True
    then show ?thesis by (simp add: dec decide_def decision_def rule_defs Let_def split: option.splits)
  next
    case False
    then have "sc_pkg s = None" using pkg by (cases "sc_pkg s") auto
    moreover have "n \<notin> sc_rootFiles s" if "n \<in> set rootServerMarkers" for n using root False that by blast
    ultimately show ?thesis using False by (simp add: dec decide_def decision_def rule_defs rootServerMarkers_def)
  qed
  moreover have "\<not> sc_anyServerSignal s \<longleftrightarrow> (\<forall>(h, d) \<in> ?E. BaseOf (entryName h) \<notin> set rootServerMarkers)"
    using S by (auto simp: empty_scan_def)
  moreover have "hasOnlyStaticExts (sc_hasExt s) \<longleftrightarrow>
      (\<forall>(h, d) \<in> ?E. regular_file h \<longrightarrow> ext_of_entry h = '''' \<or> ext_of_entry h \<in> set staticExts)"
    by (auto simp: hasOnlyStaticExts_def subset_iff E)
  moreover have "''.html'' \<in> sc_hasExt s \<longleftrightarrow> (\<exists>(h, d) \<in> ?E. regular_file h \<and> ext_of_entry h = ''.html'')"
    unfolding E by force
  ultimately show ?thesis by blast
qed

text \<open>Every decision is consistent: the fast lane is used exactly for the static, workerd and spin templates, an asynchronous build is
  asked for exactly by the browser-bundle rule, and the rule is one of the nine.
\<close>

theorem decision_consistent:
  "(dec_Lane (decide s) = LaneFast \<longleftrightarrow> dec_Template (decide s) \<in> {TemplateStaticNginx, TemplateWorkerd, TemplateSpin}) \<and>
   dec_Lane (decide s) \<in> {LaneFast, LaneGeneral} \<and>
   (dec_BuildAsync (decide s) \<longleftrightarrow> dec_Rule (decide s) = RuleBrowserBundle) \<and>
   dec_Rule (decide s) \<in> {1..9}"
  by (auto simp: decide_def decision_def template_defs rule_defs Let_def split: option.splits)

definition plain_file :: "string \<Rightarrow> tar_Header" where
  "plain_file name = \<lparr>hdr_Name = name, hdr_Typeflag = TypeReg, hdr_Size = 1, hdr_Mode = 420\<rparr>"

lemma site_entries:
  "\<not> skipped (plain_file ''index.html'')" "skipped (plain_file ''._index.html'')" "\<not> skipped (plain_file ''css/a.CSS'')"
  "entryName (plain_file ''index.html'') = ''index.html''" "entryName (plain_file ''css/a.CSS'') = ''css/a.CSS''"
  "BaseOf ''index.html'' = ''index.html''" "BaseOf ''css/a.CSS'' = ''a.CSS''"
  "ext_of_entry (plain_file ''index.html'') = ''.html''" "ext_of_entry (plain_file ''css/a.CSS'') = ''.css''"
  "\<not> root_package (plain_file ''index.html'')" "\<not> root_package (plain_file ''css/a.CSS'')"
  by code_simp+

lemma site_scan:
  "Classify (\<lambda>_. None) False (Ok [ClEntry (plain_file ''index.html'') None, ClEntry (plain_file ''css/a.CSS'') None]) =
     Ok (decision LaneFast TemplateStaticNginx RuleStaticOnly)"
  "Classify (\<lambda>_. None) False (Ok [ClEntry (plain_file ''css/a.CSS'') None, ClEntry (plain_file ''._index.html'') None, ClEntry (plain_file ''index.html'') None]) =
     Ok (decision LaneFast TemplateStaticNginx RuleStaticOnly)"
proof -
  have c: "Contains ''css/a.CSS'' ''/''" "\<not> Contains ''index.html'' ''/''" by (simp_all add: Contains_single)
  have r: "regular_file (plain_file n)" for n by (simp add: regular_file_def plain_file_def)
  have m: "''index.html'' \<notin> set rootServerMarkers" "''a.CSS'' \<notin> set rootServerMarkers" by (simp_all add: rootServerMarkers_def)
  have e1: "scanEntry (plain_file ''index.html'') None s =
      s\<lparr>sc_rootFiles := insert ''index.html'' (sc_rootFiles s), sc_hasExt := insert ''.html'' (sc_hasExt s)\<rparr>" for s
    by (simp only: scanEntry_def site_entries c r m Let_def if_True if_False simp_thms) simp
  have e2: "scanEntry (plain_file ''css/a.CSS'') None s = s\<lparr>sc_hasExt := insert ''.css'' (sc_hasExt s)\<rparr>" for s
    by (simp only: scanEntry_def site_entries c r m Let_def if_True if_False simp_thms) simp
  have e3: "scanEntry (plain_file ''._index.html'') None s = s" for s by (simp add: scanEntry_def site_entries)
  note step = scanLoop.simps [of _ _ "[]"] scanLoop.simps [of _ _ "_ # _"] MaxEntries_def
  have "decide \<lparr>sc_rootFiles = {''index.html''}, sc_hasExt = {''.css'', ''.html''}, sc_anyServerSignal = False, sc_pkg = None\<rparr> =
     decision LaneFast TemplateStaticNginx RuleStaticOnly"
    by (simp add: decide_def hasOnlyStaticExts_def staticExts_def)
  then show "Classify (\<lambda>_. None) False (Ok [ClEntry (plain_file ''index.html'') None, ClEntry (plain_file ''css/a.CSS'') None]) =
     Ok (decision LaneFast TemplateStaticNginx RuleStaticOnly)"
    "Classify (\<lambda>_. None) False (Ok [ClEntry (plain_file ''css/a.CSS'') None, ClEntry (plain_file ''._index.html'') None, ClEntry (plain_file ''index.html'') None]) =
     Ok (decision LaneFast TemplateStaticNginx RuleStaticOnly)"
    by (simp_all add: Classify_def scanTarball_def step e1 e2 e3 empty_scan_def insert_commute)
qed

theorem classify_ignores_order_witness:
  "\<exists>dec dec'. Classify (\<lambda>_. None) False (Ok [ClEntry (plain_file ''index.html'') None, ClEntry (plain_file ''css/a.CSS'') None]) = Ok dec \<and>
     Classify (\<lambda>_. None) False (Ok [ClEntry (plain_file ''css/a.CSS'') None, ClEntry (plain_file ''._index.html'') None, ClEntry (plain_file ''index.html'') None]) = Ok dec' \<and>
     dec = dec'"
  by (intro exI conjI) (rule site_scan(1), rule site_scan(2), rule classify_ignores_order [OF site_scan], auto simp: counted_def site_entries)

theorem static_rule_exact_witness:
  "\<exists>(h, d) \<in> counted [ClEntry (plain_file ''index.html'') None, ClEntry (plain_file ''css/a.CSS'') None]. ext_of_entry h = ''.html''"
  using static_rule_exact [OF site_scan(1)] by (auto simp: decision_def)

end
