(* ===== verification/Router.thy ===== *)
theory Router
  imports Sandbox
begin

section \<open>The router\<close>

text \<open>
  \<open>src/internal/router/caddy.go\<close> and \<open>reconciler.go\<close>: every app that is Ready has one route in Caddy, kept through Caddy's admin API.
  Caddy is the argument \<open>do\<close>: what a request changes and answers.
\<close>

subsection \<open>The admin client\<close>

record Route =
  route_ID :: string
  route_Host :: string
  route_Upstream :: string

text \<open>The JSON document of a route.\<close>

record caddy_doc =
  doc_id :: string
  doc_hosts :: "string list"
  doc_handler :: string
  doc_dials :: "string list"
  doc_terminal :: bool

datatype http_method = PATCH | POST | DELETE

type_synonym 's caddy = "http_method \<Rightarrow> string \<Rightarrow> caddy_doc option \<Rightarrow> 's \<Rightarrow> 's \<times> (string, int) result"

definition routesPath :: "string \<Rightarrow> string" where
  "routesPath configured = (if configured \<noteq> '''' then configured else ''/config/apps/http/servers/srv0/routes'')"

definition validate :: "Route \<Rightarrow> string option" where
  "validate r =
     (if route_ID r = '''' then Some ''route ID is empty''
      else if route_Host r = '''' then Some ''route Host is empty''
      else if route_Upstream r = '''' then Some ''route Upstream is empty''
      else None)"

definition routeJSON :: "Route \<Rightarrow> caddy_doc" where
  "routeJSON r = \<lparr>doc_id = route_ID r, doc_hosts = [route_Host r], doc_handler = ''reverse_proxy'', doc_dials = [route_Upstream r], doc_terminal = True\<rparr>"

definition EnsureRoute :: "'s caddy \<Rightarrow> string \<Rightarrow> Route \<Rightarrow> 's \<Rightarrow> 's \<times> string option" where
  "EnsureRoute do path r s =
     (case validate r of
        Some e \<Rightarrow> (s, Some e)
      | None \<Rightarrow>
          let body = routeJSON r in
          case do PATCH (''/id/'' @ route_ID r) (Some body) s of
            (s1, Err e) \<Rightarrow> (s1, Some e)
          | (s1, Ok status) \<Rightarrow>
              if status div 100 = 2 then (s1, None)
              else case do POST (routesPath path) (Some body) s1 of
                (s2, Err e) \<Rightarrow> (s2, Some e)
              | (s2, Ok status) \<Rightarrow> (s2, if status div 100 \<noteq> 2 then Some (''caddy POST routes: status '' @ Itoa status) else None))"

definition DeleteRoute :: "'s caddy \<Rightarrow> string \<Rightarrow> 's \<Rightarrow> 's \<times> string option" where
  "DeleteRoute do rid s =
     (if rid = '''' then (s, Some ''CaddyClient.DeleteRoute: id is empty'')
      else case do DELETE (''/id/'' @ rid) None s of
        (s1, Err e) \<Rightarrow> (s1, Some e)
      | (s1, Ok status) \<Rightarrow>
          (s1, if status = 404 \<or> status div 100 = 2 then None
               else Some (''caddy DELETE id/'' @ rid @ '': status '' @ Itoa status)))"

text \<open>\<open>ListRouteIDs\<close>: the answer of the GET is the status and the ids of the decoded array (or why it does not decode).\<close>

definition ListRouteIDs :: "(string, int \<times> (string, string list) result) result \<Rightarrow> (string, string list) result" where
  "ListRouteIDs answer =
     (case answer of
        Err e \<Rightarrow> Err (''caddy GET routes: '' @ e)
      | Ok (status, body) \<Rightarrow>
          if status = 404 then Ok []
          else if status div 100 \<noteq> 2 then Err (''caddy GET routes: status '' @ Itoa status)
          else (case body of Err e \<Rightarrow> Err (''decode routes: '' @ e) | Ok ids \<Rightarrow> Ok (filter (\<lambda>i. i \<noteq> '''') ids)))"

subsection \<open>The reconciler\<close>

definition RoutePrefix :: string where
  "RoutePrefix = ''vibed-app-''"

definition routingFieldsChanged :: "VibedApp \<Rightarrow> VibedApp \<Rightarrow> bool" where
  "routingFieldsChanged oldApp newApp =
     (let old = app_Status oldApp; new = app_Status newApp in
      if st_Phase old \<noteq> st_Phase new then True
      else if st_URL old \<noteq> st_URL new then True
      else if st_RouteTarget old \<noteq> st_RouteTarget new then True
      else if st_PodIP old \<noteq> st_PodIP new then True
      else if (app_DeletionTimestamp oldApp = None) \<noteq> (app_DeletionTimestamp newApp = None) then True
      else if spec_Suspended (app_Spec oldApp) \<noteq> spec_Suspended (app_Spec newApp) then True
      else False)"

definition upstream :: "int \<Rightarrow> VibedApp \<Rightarrow> string" where
  "upstream appPort app =
     (let t = st_RouteTarget (app_Status app); ip = st_PodIP (app_Status app) in
      if t \<noteq> '''' then t
      else if ip = '''' then ''''
      else if Contains ip '':'' then ip
      else ip @ '':'' @ Itoa appPort)"

text \<open>\<open>labelFromKey\<close> builds a stub that carries only namespace and name.\<close>

definition labelFromKey :: "(string \<Rightarrow> string) \<Rightarrow> string \<Rightarrow> string \<Rightarrow> string" where
  "labelFromKey sha256 ns name = AppLabel sha256 (sample_app ns name '''')"

definition hostOf :: "string \<Rightarrow> string" where
  "hostOf url =
     (let host = TrimPrefix url ''https://'';
          host = TrimPrefix host ''http://'';
          host = hd (split_on (CHR ''/'') host)
      in case IndexByte host (CHR '':'') of Some i \<Rightarrow> take i host | None \<Rightarrow> host)"

record router =
  rt_AppPort :: int
  rt_RoutesPath :: string

definition routable :: "router \<Rightarrow> VibedApp \<Rightarrow> bool" where
  "routable r app \<longleftrightarrow> st_Phase (app_Status app) = PhaseReady \<and> st_URL (app_Status app) \<noteq> '''' \<and> upstream (rt_AppPort r) app \<noteq> ''''"

definition routeOf :: "(string \<Rightarrow> string) \<Rightarrow> router \<Rightarrow> VibedApp \<Rightarrow> Route" where
  "routeOf sha256 r app =
     \<lparr>route_ID = RoutePrefix @ AppLabel sha256 app, route_Host = hostOf (st_URL (app_Status app)), route_Upstream = upstream (rt_AppPort r) app\<rparr>"

definition RouterReconcile ::
  "(string \<Rightarrow> string) \<Rightarrow> 's caddy \<Rightarrow> router \<Rightarrow> string \<Rightarrow> string \<Rightarrow> (kerr, VibedApp) result \<Rightarrow> 's \<Rightarrow> 's \<times> string option" where
  "RouterReconcile sha256 do r ns name got s =
     (case got of
        Err e \<Rightarrow>
          if IsNotFound e then
            (let rid = RoutePrefix @ labelFromKey sha256 ns name in
             case DeleteRoute do rid s of
               (s1, Some e) \<Rightarrow> (s1, Some (''delete route '' @ rid @ '': '' @ e))
             | (s1, None) \<Rightarrow> (s1, None))
          else (s, Some (''get VibedApp: '' @ kerr_Error e))
      | Ok app \<Rightarrow>
          let rid = RoutePrefix @ AppLabel sha256 app in
          if \<not> routable r app then
            (case DeleteRoute do rid s of
               (s1, Some e) \<Rightarrow> (s1, Some (''delete stale route '' @ rid @ '': '' @ e))
             | (s1, None) \<Rightarrow> (s1, None))
          else case EnsureRoute do (rt_RoutesPath r) (routeOf sha256 r app) s of
              (s1, Some e) \<Rightarrow> (s1, Some (''ensure route '' @ rid @ '': '' @ e))
            | (s1, None) \<Rightarrow> (s1, None))"

subsection \<open>What the admin API promises\<close>

text \<open>\<open>routes\<close> is the array of routes in a state of Caddy.  A PATCH of an id replaces that route or answers 404, a POST to the array
  appends, a DELETE of an id removes that route or answers 404; another status and a transport error leave the array alone.\<close>

definition patch_ok :: "'s caddy \<Rightarrow> ('s \<Rightarrow> caddy_doc list) \<Rightarrow> bool" where
  "patch_ok do routes \<longleftrightarrow> (\<forall>rid b s s' st. do PATCH (''/id/'' @ rid) (Some b) s = (s', Ok st) \<longrightarrow>
     (st div 100 = 2 \<and> rid \<in> doc_id ` set (routes s) \<and> routes s' = map (\<lambda>d. if doc_id d = rid then b else d) (routes s)) \<or>
     (st = 404 \<and> rid \<notin> doc_id ` set (routes s) \<and> routes s' = routes s) \<or>
     (st div 100 \<noteq> 2 \<and> st \<noteq> 404 \<and> routes s' = routes s))"

definition post_ok :: "'s caddy \<Rightarrow> string \<Rightarrow> ('s \<Rightarrow> caddy_doc list) \<Rightarrow> bool" where
  "post_ok do path routes \<longleftrightarrow> (\<forall>b s s' st. do POST (routesPath path) (Some b) s = (s', Ok st) \<longrightarrow>
     routes s' = (if st div 100 = 2 then routes s @ [b] else routes s))"

definition delete_ok :: "'s caddy \<Rightarrow> ('s \<Rightarrow> caddy_doc list) \<Rightarrow> bool" where
  "delete_ok do routes \<longleftrightarrow> (\<forall>rid s s' st. do DELETE (''/id/'' @ rid) None s = (s', Ok st) \<longrightarrow>
     (st div 100 = 2 \<and> routes s' = filter (\<lambda>d. doc_id d \<noteq> rid) (routes s)) \<or>
     (st = 404 \<and> rid \<notin> doc_id ` set (routes s) \<and> routes s' = routes s) \<or>
     (st div 100 \<noteq> 2 \<and> st \<noteq> 404 \<and> routes s' = routes s))"

definition caddy_ok :: "'s caddy \<Rightarrow> string \<Rightarrow> ('s \<Rightarrow> caddy_doc list) \<Rightarrow> bool" where
  "caddy_ok do path routes \<longleftrightarrow> patch_ok do routes \<and> post_ok do path routes \<and> delete_ok do routes"

text \<open>A PATCH never fails but with 404.\<close>

definition patch_clean :: "'s caddy \<Rightarrow> bool" where
  "patch_clean do \<longleftrightarrow> (\<forall>rid b s s' st. do PATCH (''/id/'' @ rid) b s = (s', Ok st) \<longrightarrow> st div 100 = 2 \<or> st = 404)"

lemma caddy_patch:
  assumes "caddy_ok do path routes" "do PATCH (''/id/'' @ rid) (Some b) s = (s', Ok st)"
  obtains "st div 100 = 2" "rid \<in> doc_id ` set (routes s)" "routes s' = map (\<lambda>d. if doc_id d = rid then b else d) (routes s)"
  | "st = 404" "rid \<notin> doc_id ` set (routes s)" "routes s' = routes s"
  | "st div 100 \<noteq> 2" "st \<noteq> 404" "routes s' = routes s"
  using assms(1) [unfolded caddy_ok_def, THEN conjunct1, unfolded patch_ok_def, rule_format, OF assms(2)] by (elim disjE conjE)

lemma caddy_post:
  "caddy_ok do path routes \<Longrightarrow> do POST (routesPath path) (Some b) s = (s', Ok st) \<Longrightarrow>
   routes s' = (if st div 100 = 2 then routes s @ [b] else routes s)"
  unfolding caddy_ok_def post_ok_def by metis

lemma caddy_delete:
  assumes "caddy_ok do path routes" "do DELETE (''/id/'' @ rid) None s = (s', Ok st)"
  obtains "st div 100 = 2" "routes s' = filter (\<lambda>d. doc_id d \<noteq> rid) (routes s)"
  | "st = 404" "rid \<notin> doc_id ` set (routes s)" "routes s' = routes s"
  | "st div 100 \<noteq> 2" "st \<noteq> 404" "routes s' = routes s"
  using assms(1) [unfolded caddy_ok_def, THEN conjunct2, THEN conjunct2, unfolded delete_ok_def, rule_format, OF assms(2)]
  by (elim disjE conjE)

subsection \<open>Convergence\<close>

abbreviation own :: "string \<Rightarrow> caddy_doc list \<Rightarrow> caddy_doc list" where
  "own rid \<equiv> filter (\<lambda>d. doc_id d = rid)"

abbreviation foreign :: "string \<Rightarrow> caddy_doc list \<Rightarrow> caddy_doc list" where
  "foreign rid \<equiv> filter (\<lambda>d. doc_id d \<noteq> rid)"

lemma own_none: "rid \<notin> doc_id ` set ds \<Longrightarrow> own rid ds = []" and foreign_all: "rid \<notin> doc_id ` set ds \<Longrightarrow> foreign rid ds = ds"
  by (induction ds) auto

lemma own_distinct: "distinct (map doc_id ds) \<Longrightarrow> rid \<in> doc_id ` set ds \<Longrightarrow> \<exists>d. own rid ds = [d]"
proof (induction ds)
  case (Cons d ds)
  note none = own_none [of rid ds]
  show ?case
  proof (cases "doc_id d = rid")
    case True
    with Cons.prems(1) none show ?thesis by simp
  qed (use Cons in auto)
qed simp

lemma own_replaced: "doc_id b = rid \<Longrightarrow> own rid (map (\<lambda>d. if doc_id d = rid then b else d) ds) = map (\<lambda>_. b) (own rid ds)"
  and foreign_replaced: "doc_id b = rid \<Longrightarrow> foreign rid (map (\<lambda>d. if doc_id d = rid then b else d) ds) = foreign rid ds"
  and ids_replaced: "doc_id b = rid \<Longrightarrow> map doc_id (map (\<lambda>d. if doc_id d = rid then b else d) ds) = map doc_id ds"
  by (induction ds) auto

lemma delete_route:
  assumes "caddy_ok do path routes" "DeleteRoute do rid s = (s', None)"
  shows "own rid (routes s') = [] \<and> foreign rid (routes s') = foreign rid (routes s) \<and>
    (distinct (map doc_id (routes s)) \<longrightarrow> distinct (map doc_id (routes s')))"
proof -
  obtain st where "do DELETE (''/id/'' @ rid) None s = (s', Ok st)" and st: "st = 404 \<or> st div 100 = 2"
    using assms(2) by (auto simp: DeleteRoute_def split: if_splits prod.splits sum.splits)
  from assms(1) this(1) show ?thesis
  proof (cases rule: caddy_delete)
    case 1
    then show ?thesis by (simp add: distinct_map_filter)
  next
    case 2
    then show ?thesis by (simp add: own_none)
  qed (use st in simp)
qed

lemma ensure_route:
  assumes "caddy_ok do path routes" "patch_clean do" "distinct (map doc_id (routes s))" "EnsureRoute do path r s = (s', None)"
  shows "own (route_ID r) (routes s') = [routeJSON r] \<and> foreign (route_ID r) (routes s') = foreign (route_ID r) (routes s) \<and>
    distinct (map doc_id (routes s'))"
proof -
  let ?b = "routeJSON r" and ?rid = "route_ID r"
  have b: "doc_id ?b = ?rid" by (simp add: routeJSON_def)
  have "validate r = None" using assms(4) by (auto simp: EnsureRoute_def split: option.splits)
  then obtain s1 st where p: "do PATCH (''/id/'' @ ?rid) (Some ?b) s = (s1, Ok st)"
    and rest: "if st div 100 = 2 then s' = s1 else \<exists>st2. do POST (routesPath path) (Some ?b) s1 = (s', Ok st2) \<and> st2 div 100 = 2"
    using assms(4) by (auto simp: EnsureRoute_def Let_def split: if_splits prod.splits sum.splits)
  from assms(1) p show ?thesis
  proof (cases rule: caddy_patch)
    case 1
    then have "own ?rid (routes s') = map (\<lambda>_. ?b) (own ?rid (routes s))" "foreign ?rid (routes s') = foreign ?rid (routes s)"
      "map doc_id (routes s') = map doc_id (routes s)"
      using rest own_replaced [OF b] foreign_replaced [OF b] ids_replaced [OF b] by auto
    moreover obtain d where "own ?rid (routes s) = [d]" using own_distinct [OF assms(3) 1(2)] by blast
    ultimately show ?thesis using assms(3) by simp
  next
    case 2
    then obtain st2 where post: "do POST (routesPath path) (Some ?b) s1 = (s', Ok st2)" "st2 div 100 = 2" using rest by auto
    have "routes s' = routes s @ [?b]" using caddy_post [OF assms(1) post(1)] post(2) 2(3) by simp
    moreover have "own ?rid (routes s) = []" using 2(2) by (rule own_none)
    ultimately show ?thesis using b assms(3) 2(2) by auto
  next
    case 3
    then show ?thesis using assms(2) p unfolding patch_clean_def by blast
  qed
qed


text \<open>The update filter loses nothing: an update it suppresses leaves the outcome of a router pass exactly as it was, on every state
  of Caddy.
\<close>

theorem suppressed_update_changes_no_route:
  assumes "\<not> routingFieldsChanged old new" "app_Namespace new = app_Namespace old" "app_Name new = app_Name old"
  shows "RouterReconcile sha256 do r ns name (Ok new) = RouterReconcile sha256 do r ns name (Ok old)"
proof -
  have f: "st_Phase (app_Status new) = st_Phase (app_Status old)" "st_URL (app_Status new) = st_URL (app_Status old)"
    "st_RouteTarget (app_Status new) = st_RouteTarget (app_Status old)" "st_PodIP (app_Status new) = st_PodIP (app_Status old)"
    using assms(1) by (auto simp: routingFieldsChanged_def Let_def split: if_splits)
  then have u: "upstream p new = upstream p old" for p by (simp add: upstream_def)
  have l: "AppLabel sha256 new = AppLabel sha256 old" using assms(2,3) by (simp add: AppLabel_def)
  have "routable r new = routable r old" "routeOf sha256 r new = routeOf sha256 r old"
    using f u l by (simp_all add: routable_def routeOf_def)
  then show ?thesis unfolding RouterReconcile_def using l by (intro ext) (simp add: Let_def)
qed

subsection \<open>Hosts\<close>

lemma AppLabel_chars:
  assumes "\<And>x. length (sha256 x) = 32"
  shows "length (AppLabel sha256 app) = 12" "list_all label_char (AppLabel sha256 app)"
proof -
  let ?bs = "bits_of (take 8 (sha256 (app_Namespace app @ ''/'' @ app_Name app)))"
  have "5 * 12 \<le> length ?bs" using assms by simp
  from base32hex_prefix_chars [OF this] show "length (AppLabel sha256 app) = 12" "list_all label_char (AppLabel sha256 app)"
    by (simp_all add: AppLabel_def ToLower_def base32hex_def)
qed

lemma label_char_not: "\<not> label_char (CHR ''/'')" "\<not> label_char (CHR '':'')"
  by (simp_all add: label_char_def is_digit_def)

lemma IndexByte_first: "c \<notin> set xs \<Longrightarrow> IndexByte (xs @ c # ys) c = Some (length xs)"
  by (induction xs) auto

text \<open>The route matches the host name the app was published under: from the published URL, with or without a port, the router recovers
  the label and the domain.
\<close>

theorem published_host_is_routed:
  assumes "\<And>x. length (sha256 x) = 32" "dr_Scheme d \<in> {'''', ''http'', ''https''}"
    "CHR ''/'' \<notin> set (dr_Domain d @ dr_Port d)" "CHR '':'' \<notin> set (dr_Domain d)"
  shows "hostOf (Publish sha256 d app) =
    AppLabel sha256 app @ ''.'' @ (if dr_Domain d = '''' then ''vibed.example.com'' else dr_Domain d)"
proof -
  let ?l = "AppLabel sha256 app" and ?dom = "if dr_Domain d = '''' then ''vibed.example.com'' else dr_Domain d"
  let ?h = "?l @ ''.'' @ ?dom"
  let ?host = "if dr_Port d \<noteq> '''' then ?h @ '':'' @ dr_Port d else ?h"
  note L = AppLabel_chars [OF assms(1), where app = app]
  have l: "CHR ''/'' \<notin> set ?l" "CHR '':'' \<notin> set ?l" using L(2) label_char_not by (auto simp: list_all_iff)
  then have no: "CHR ''/'' \<notin> set ?host" "CHR '':'' \<notin> set ?h" using assms(3,4) by auto
  have "?host ! 4 = ?l ! 4" using L(1) by (simp add: nth_append)
  moreover have "?l ! 4 \<noteq> CHR '':''" using l(2) L(1) nth_mem [of 4 ?l] by fastforce
  moreover have "HasPrefix x ''http://'' \<Longrightarrow> x ! 4 = CHR '':''" for x by (auto simp: HasPrefix_iff)
  ultimately have np: "\<not> HasPrefix ?host ''http://''" by metis
  have tp: "TrimPrefix (TrimPrefix (sch @ ''://'' @ ?host) ''https://'') ''http://'' = ?host"
    if "sch = ''http'' \<or> sch = ''https''" for sch
  proof (cases "sch = ''https''")
    case True
    then have "TrimPrefix (sch @ ''://'' @ ?host) ''https://'' = ?host" using TrimPrefix_append [of "''https://''" ?host] by simp
    then show ?thesis using TrimPrefix_noop [OF np] by simp
  next
    case False
    with that have "sch = ''http''" by simp
    then show ?thesis using TrimPrefix_append [of "''http://''" ?host] by (simp add: TrimPrefix_def HasPrefix_def)
  qed
  define sch where "sch = (if dr_Scheme d = '''' then ''https'' else dr_Scheme d)"
  have "sch = ''http'' \<or> sch = ''https''" using assms(2) by (auto simp: sch_def)
  note t = tp [OF this]
  have pub: "Publish sha256 d app = sch @ ''://'' @ ?host" by (simp add: Publish_def Let_def sch_def)
  have "hostOf (Publish sha256 d app) =
     (case IndexByte (hd (split_on (CHR ''/'') ?host)) (CHR '':'') of
        Some i \<Rightarrow> take i (hd (split_on (CHR ''/'') ?host)) | None \<Rightarrow> hd (split_on (CHR ''/'') ?host))"
    unfolding hostOf_def Let_def pub t ..
  also have "hd (split_on (CHR ''/'') ?host) = ?host" using split_on_no_sep [OF no(1)] by simp
  also have "(case IndexByte ?host (CHR '':'') of Some i \<Rightarrow> take i ?host | None \<Rightarrow> ?host) = ?h"
  proof (cases "dr_Port d = ''''")
    case True
    have "IndexByte ?h (CHR '':'') = None" unfolding IndexByte_None by (rule no(2))
    with True show ?thesis by simp
  next
    case False
    then have "IndexByte ?host (CHR '':'') = Some (length ?h)" using IndexByte_first [OF no(2), of "dr_Port d"] by simp
    with False show ?thesis by simp
  qed
  finally show ?thesis by simp
qed

subsection \<open>Examples\<close>

text \<open>A Caddy that is its own array of routes.\<close>

definition list_caddy :: "caddy_doc list caddy" where
  "list_caddy m p b s =
     (let rid = drop 4 p in
      case m of
        PATCH \<Rightarrow> if rid \<in> doc_id ` set s then (map (\<lambda>d. if doc_id d = rid then the b else d) s, Ok 200) else (s, Ok 404)
      | POST \<Rightarrow> (s @ [the b], Ok 200)
      | DELETE \<Rightarrow> if rid \<in> doc_id ` set s then (filter (\<lambda>d. doc_id d \<noteq> rid) s, Ok 200) else (s, Ok 404))"

lemma list_caddy_ok: "caddy_ok list_caddy path (\<lambda>s. s)" "patch_clean list_caddy"
  by (auto simp: caddy_ok_def patch_ok_def post_ok_def delete_ok_def patch_clean_def list_caddy_def Let_def split: if_splits)

definition flaky_caddy :: "caddy_doc list caddy" where
  "flaky_caddy m p b s = (if m = PATCH then (s, Ok 500) else list_caddy m p b s)"

lemma flaky_caddy_ok: "caddy_ok flaky_caddy path (\<lambda>s. s)"
  using list_caddy_ok(1) [of path] by (auto simp: caddy_ok_def patch_ok_def post_ok_def delete_ok_def flaky_caddy_def)

text \<open>A PATCH that fails for another reason than a missing route is followed by a POST all the same, so a route that is there is
  added a second time.
\<close>

theorem failed_patch_duplicates_route:
  "let r = \<lparr>route_ID = ''vibed-app-x'', route_Host = ''x.example.com'', route_Upstream = ''10.0.0.1:8080''\<rparr> in
   caddy_ok flaky_caddy '''' (\<lambda>s. s) \<and> EnsureRoute flaky_caddy '''' r [routeJSON r] = ([routeJSON r, routeJSON r], None)"
  using flaky_caddy_ok by (simp add: Let_def EnsureRoute_def validate_def flaky_caddy_def list_caddy_def)

definition ready_app :: VibedApp where
  "ready_app = (sample_app ''ns'' ''a'' ''o'')\<lparr>app_Status := empty_status\<lparr>st_Phase := PhaseReady, st_URL := ''https://x.example.com'',
     st_RouteTarget := ''a.svc:8080''\<rparr>\<rparr>"

definition test_router :: router where
  "test_router = \<lparr>rt_AppPort = 8080, rt_RoutesPath = ''''\<rparr>"

lemma ready_app_facts:
  "app_Namespace ready_app = ''ns''" "app_Name ready_app = ''a''" "st_PodIP (app_Status ready_app) = ''''"
  "routable test_router ready_app" "hostOf (st_URL (app_Status ready_app)) = ''x.example.com''" "upstream 8080 ready_app = ''a.svc:8080''"
  by (simp_all add: ready_app_def empty_status_def routable_def test_router_def upstream_def hostOf_def TrimPrefix_def HasPrefix_def)

lemma ready_app_reconciled:
  "RouterReconcile (\<lambda>_. replicate 32 (CHR ''a'')) list_caddy test_router ''ns'' ''a'' (Ok ready_app) [] =
     ([routeJSON (routeOf (\<lambda>_. replicate 32 (CHR ''a'')) test_router ready_app)], None)"
  using ready_app_facts by (simp add: RouterReconcile_def EnsureRoute_def validate_def routeOf_def list_caddy_def test_router_def RoutePrefix_def Let_def)


theorem suppressed_update_changes_no_route_witness:
  "RouterReconcile (\<lambda>_. replicate 32 (CHR ''a'')) list_caddy test_router ''ns'' ''a'' (Ok (ready_app\<lparr>app_Generation := 7\<rparr>)) [] =
   RouterReconcile (\<lambda>_. replicate 32 (CHR ''a'')) list_caddy test_router ''ns'' ''a'' (Ok ready_app) []"
  by (rule fun_cong [OF suppressed_update_changes_no_route]) (simp_all add: routingFieldsChanged_def Let_def)

theorem published_host_is_routed_witness:
  "hostOf (Publish (\<lambda>_. replicate 32 (CHR ''a'')) \<lparr>dr_Domain = ''apps.io'', dr_Scheme = ''http'', dr_Port = ''8443''\<rparr> ready_app) =
   AppLabel (\<lambda>_. replicate 32 (CHR ''a'')) ready_app @ ''.apps.io''"
  using published_host_is_routed [of "\<lambda>_. replicate 32 (CHR ''a'')" "\<lparr>dr_Domain = ''apps.io'', dr_Scheme = ''http'', dr_Port = ''8443''\<rparr>" ready_app]
  by simp

end
