(* ===== verification/Workerd.thy ===== *)
theory Workerd
  imports Source_Fetch Sandbox "HOL-Library.List_Lexorder" "HOL-Library.Char_ord"
begin

section \<open>The workerd fast lane\<close>

text \<open>
  \<open>src/internal/workerd\<close>: \<open>loader.go\<close> keeps the scripts and the configuration of one workerd replica and gives every app a port,
  \<open>server.go\<close> is its control API, \<open>client.go\<close> and \<open>controller/fastlane.go\<close> pick the replica of an app.  The two maps of the loader are
  association lists; the file system is the list of calls, with its answers as an argument; \<open>reload\<close> is what signalling
  workerd answers.
\<close>

subsection \<open>The loader\<close>

definition scriptFile :: string where
  "scriptFile = ''worker.js''"

record Loader =
  ld_baseDir :: string
  ld_compatDate :: string
  ld_portBase :: int
  ld_apps :: "(string \<times> int) list"
  ld_ports :: "(int \<times> string) list"

record loader_Options =
  lo_BaseDir :: string
  lo_CompatDate :: string
  lo_PortBase :: int

definition assoc_put :: "'k \<Rightarrow> 'v \<Rightarrow> ('k \<times> 'v) list \<Rightarrow> ('k \<times> 'v) list" where
  "assoc_put k v m = (k, v) # filter (\<lambda>(k', _). k' \<noteq> k) m"

definition assoc_del :: "'k \<Rightarrow> ('k \<times> 'v) list \<Rightarrow> ('k \<times> 'v) list" where
  "assoc_del k m = filter (\<lambda>(k', _). k' \<noteq> k) m"

text \<open>\<open>os.WriteFile\<close>.\<close>

definition writeFile :: "os \<Rightarrow> string \<Rightarrow> string \<Rightarrow> fs_op list \<Rightarrow> fs_op list \<times> string option" where
  "writeFile os p content log =
     (let log1 = log @ [OpenTrunc p 420] in
      case os_open os log p of
        Some e \<Rightarrow> (log1, Some e)
      | None \<Rightarrow>
          let n = min (os_room os log1 p) (length content);
              log2 = log1 @ [WriteTo p (take n content)];
              log3 = log2 @ [CloseFile p]
          in if n < length content then (log3, Some ''short write'') else (log3, os_close os log2 p))"

definition validID :: "string \<Rightarrow> bool" where
  "validID i \<longleftrightarrow> \<not> (i = '''' \<or> Contains i ''/'' \<or> Contains i ''..'')"

text \<open>Go ranges over runes: a byte sequence that is no ASCII letter or digit gives one underscore per rune.\<close>

definition ident_rune :: "nat \<Rightarrow> byte" where
  "ident_rune r = (if 97 \<le> r \<and> r \<le> 122 \<or> 65 \<le> r \<and> r \<le> 90 \<or> 48 \<le> r \<and> r \<le> 57 then char_of r else CHR ''_'')"

definition goIdent :: "string \<Rightarrow> string" where
  "goIdent i = map ident_rune (runes i)"

definition svcName :: "string \<Rightarrow> string" where
  "svcName i = ''app_'' @ goIdent i"

definition nl :: string where
  "nl = [CHR 0x0A]"

definition renderConfig :: "string list \<Rightarrow> (string \<rightharpoonup> int) \<Rightarrow> string \<Rightarrow> string" where
  "renderConfig ids ports compatDate =
     ''using Workerd = import '' @ Quote ''/workerd/workerd.capnp'' @ '';'' @ nl @ nl @
     ''const config :Workerd.Config = ('' @ nl @ ''  services = ['' @ nl @
     concat (map (\<lambda>i. ''    (name = '' @ Quote (svcName i) @ '', worker = .worker_'' @ goIdent i @ ''),'' @ nl) ids) @
     ''  ],'' @ nl @ ''  sockets = ['' @ nl @
     concat (map (\<lambda>i. ''    (name = '' @ Quote (''sock_'' @ goIdent i) @ '', address = '' @ Quote (''*:'' @ Itoa (case ports i of Some p \<Rightarrow> p | None \<Rightarrow> 0)) @
       '', http = (), service = '' @ Quote (svcName i) @ ''),'' @ nl) ids) @
     ''  ],'' @ nl @ '');'' @ nl @ nl @
     concat (map (\<lambda>i. ''const worker_'' @ goIdent i @ '' :Workerd.Worker = ('' @ nl @
       ''  modules = [ (name = '' @ Quote scriptFile @ '', esModule = embed '' @ Quote (JoinPath (JoinPath ''scripts'' i) scriptFile) @ '') ],'' @ nl @
       ''  compatibilityDate = '' @ Quote compatDate @ '','' @ nl @ '');'' @ nl @ nl) ids)"

definition ConfigPath :: "Loader \<Rightarrow> string" where
  "ConfigPath l = JoinPath (ld_baseDir l) ''config.capnp''"

definition renderLocked :: "os \<Rightarrow> Loader \<Rightarrow> fs_op list \<Rightarrow> fs_op list \<times> string option" where
  "renderLocked os l log =
     (let cfg = renderConfig (sort (map fst (ld_apps l))) (map_of (ld_apps l)) (ld_compatDate l);
          tmp = ConfigPath l @ ''.tmp''
      in case writeFile os tmp cfg log of
        (log1, Some e) \<Rightarrow> (log1, Some (''workerd: write config: '' @ e))
      | (log1, None) \<Rightarrow>
          let log2 = log1 @ [Rename tmp (ConfigPath l)] in
          (case os_rename os log1 tmp (ConfigPath l) of
             Renamed \<Rightarrow> (log2, None)
           | EXDEV \<Rightarrow> (log2, Some ''workerd: swap config: invalid cross-device link'')
           | RenameErr e \<Rightarrow> (log2, Some (''workerd: swap config: '' @ e))))"

definition NewLoader :: "os \<Rightarrow> loader_Options \<Rightarrow> fs_op list \<Rightarrow> fs_op list \<times> (string, Loader) result" where
  "NewLoader os opts log =
     (if lo_BaseDir opts = '''' then (log, Err ''workerd: BaseDir is required'')
      else let dir = JoinPath (lo_BaseDir opts) ''scripts'';
               log1 = log @ [MkdirAll dir 493]
      in case os_mkdir os log dir of
        Some e \<Rightarrow> (log1, Err (''workerd: create scripts dir: '' @ e))
      | None \<Rightarrow>
          let l = \<lparr>ld_baseDir = lo_BaseDir opts,
                   ld_compatDate = (if lo_CompatDate opts = '''' then ''2024-01-01'' else lo_CompatDate opts),
                   ld_portBase = (if lo_PortBase opts = 0 then 9100 else lo_PortBase opts),
                   ld_apps = [], ld_ports = []\<rparr>
          in case renderLocked os l log1 of
            (log2, Some e) \<Rightarrow> (log2, Err e)
          | (log2, None) \<Rightarrow> (log2, Ok l))"

text \<open>The lowest free slot.\<close>

function freeSlot :: "(int \<times> string) list \<Rightarrow> int \<Rightarrow> nat \<Rightarrow> int" where
  "freeSlot ports base slot =
     (if base + int slot \<in> fst ` set ports then freeSlot ports base (slot + 1) else base + int slot)"
  by auto
termination
proof (relation "measure (\<lambda>(ports, base, slot). card {p \<in> fst ` set ports. base + int slot \<le> p})", simp)
  fix ports :: "(int \<times> string) list" and base :: int and slot :: nat
  assume in_ports: "base + int slot \<in> fst ` set ports"
  have "{p \<in> fst ` set ports. base + int (slot + 1) \<le> p} \<subset> {p \<in> fst ` set ports. base + int slot \<le> p}"
  proof
    show "{p \<in> fst ` set ports. base + int (slot + 1) \<le> p} \<noteq> {p \<in> fst ` set ports. base + int slot \<le> p}"
      using in_ports by (metis (mono_tags, lifting) mem_Collect_eq of_nat_Suc Suc_eq_plus1 add_le_cancel_left not_le order_refl zless_add1_eq linorder_not_less less_add_one of_nat_1 of_nat_add)
  qed auto
  then show "((ports, base, slot + 1), ports, base, slot) \<in> measure (\<lambda>(ports, base, slot). card {p \<in> fst ` set ports. base + int slot \<le> p})"
    by (simp add: psubset_card_mono)
qed

declare freeSlot.simps [simp del]

definition assignPortLocked :: "string \<Rightarrow> Loader \<Rightarrow> Loader \<times> int" where
  "assignPortLocked i l =
     (let port = freeSlot (ld_ports l) (ld_portBase l) 0 in
      (l\<lparr>ld_apps := assoc_put i port (ld_apps l), ld_ports := assoc_put port i (ld_ports l)\<rparr>, port))"

definition Put :: "os \<Rightarrow> (fs_op list \<Rightarrow> string option) \<Rightarrow> string \<Rightarrow> string \<Rightarrow> Loader \<times> fs_op list \<Rightarrow> (Loader \<times> fs_op list) \<times> (string, int) result" where
  "Put os reload i script s =
     (case s of (l, log) \<Rightarrow>
      if i = '''' then (s, Err ''workerd: app id is empty'')
      else if \<not> validID i then (s, Err (''workerd: invalid app id '' @ Quote i))
      else let dir = JoinPath (JoinPath (ld_baseDir l) ''scripts'') i;
               log1 = log @ [MkdirAll dir 493]
      in case os_mkdir os log dir of
        Some e \<Rightarrow> ((l, log1), Err (''workerd: mkdir '' @ dir @ '': '' @ e))
      | None \<Rightarrow>
      (case writeFile os (JoinPath dir scriptFile) script log1 of
        (log2, Some e) \<Rightarrow> ((l, log2), Err (''workerd: write script: '' @ e))
      | (log2, None) \<Rightarrow>
          (case (case map_of (ld_apps l) i of Some port \<Rightarrow> (l, port) | None \<Rightarrow> assignPortLocked i l) of
             (l1, port) \<Rightarrow>
               (case renderLocked os l1 log2 of
                  (log3, Some e) \<Rightarrow> ((l1, log3), Err e)
                | (log3, None) \<Rightarrow>
                    (case reload log3 of
                       Some e \<Rightarrow> ((l1, log3), Err (''workerd: reload: '' @ e))
                     | None \<Rightarrow> ((l1, log3), Ok port))))))"

definition Remove :: "os \<Rightarrow> (fs_op list \<Rightarrow> string option) \<Rightarrow> string \<Rightarrow> Loader \<times> fs_op list \<Rightarrow> (Loader \<times> fs_op list) \<times> string option" where
  "Remove os reload i s =
     (case s of (l, log) \<Rightarrow>
      if \<not> validID i then (s, Some (''workerd: invalid app id '' @ Quote i))
      else let l1 = (case map_of (ld_apps l) i of
                       Some port \<Rightarrow> l\<lparr>ld_apps := assoc_del i (ld_apps l), ld_ports := assoc_del port (ld_ports l)\<rparr>
                     | None \<Rightarrow> l);
               dir = JoinPath (JoinPath (ld_baseDir l) ''scripts'') i;
               log1 = log @ [RemoveAll dir]
      in case os_remove os log dir of
        Some e \<Rightarrow> ((l1, log1), Some (''workerd: remove script: '' @ e))
      | None \<Rightarrow>
          (case renderLocked os l1 log1 of
             (log2, Some e) \<Rightarrow> ((l1, log2), Some e)
           | (log2, None) \<Rightarrow> ((l1, log2), reload log2)))"

definition Port :: "string \<Rightarrow> Loader \<Rightarrow> int" where
  "Port i l = (case map_of (ld_apps l) i of Some p \<Rightarrow> p | None \<Rightarrow> 0)"

subsection \<open>The control API\<close>

record DeployRequest =
  dq_AppID :: string
  dq_SourceURL :: string
  dq_Entrypoint :: string

definition entryCandidates :: "string list" where
  "entryCandidates = [''worker.js'', ''src/index.js'', ''index.js'', ''src/worker.js'']"

text \<open>The first candidate inside \<open>dir\<close> that can be read; \<open>read\<close> is the content of a file.  The second component lists the paths tried.\<close>

fun readEntry :: "(string \<Rightarrow> string option) \<Rightarrow> string \<Rightarrow> string list \<Rightarrow> string list \<times> string option" where
  "readEntry read dir [] = ([], None)"
| "readEntry read dir (c # cs) =
     (let clean = Clean c; full = JoinPath dir clean in
      if IsAbs clean then readEntry read dir cs
      else if (case Rel dir full of None \<Rightarrow> True | Some rel \<Rightarrow> rel = ''..'' \<or> HasPrefix rel ''../'') then readEntry read dir cs
      else case read full of
        Some b \<Rightarrow> ([full], Some b)
      | None \<Rightarrow> (case readEntry read dir cs of (ps, r) \<Rightarrow> (full # ps, r)))"

text \<open>\<open>fetch\<close> is the fetcher: the files it leaves in the directory, or its error.\<close>

definition fetchScript ::
  "(string, string) result \<Rightarrow> (string \<Rightarrow> string \<Rightarrow> (string, string \<Rightarrow> string option) result) \<Rightarrow> string \<Rightarrow> string \<Rightarrow> (string, string) result" where
  "fetchScript tmp fetch sourceURL entrypoint =
     (case tmp of
        Err e \<Rightarrow> Err (''staging dir: '' @ e)
      | Ok dir \<Rightarrow>
          (case fetch sourceURL dir of
             Err e \<Rightarrow> Err e
           | Ok read \<Rightarrow>
               let candidates = (if entrypoint \<noteq> '''' then entrypoint # entryCandidates else entryCandidates) in
               (case snd (readEntry read dir candidates) of
                  Some b \<Rightarrow> Ok b
                | None \<Rightarrow> Err (''no worker entry module found (looked for '' @ join_with '', '' candidates @ '')''))))"

record workerd_handler =
  wh_Token :: string
  wh_os :: os
  wh_reload :: "fs_op list \<Rightarrow> string option"
  wh_tmp :: "(string, string) result"
  wh_fetch :: "string \<Rightarrow> string \<Rightarrow> (string, string \<Rightarrow> string option) result"

record workerd_request =
  wr_Method :: string
  wr_Path :: string
  wr_Authorization :: string
  wr_body :: "(string, DeployRequest) result"

type_synonym loader_world = "Loader \<times> fs_op list"

datatype workerd_response = WText int string | WPort int | WNoContent

definition handleDeploy :: "workerd_handler \<Rightarrow> workerd_request \<Rightarrow> loader_world \<Rightarrow> loader_world \<times> workerd_response" where
  "handleDeploy h r s =
     (if wr_Method r \<noteq> ''POST'' then (s, WText 405 ''use POST'')
      else case wr_body r of
        Err e \<Rightarrow> (s, WText 400 (''invalid JSON: '' @ e))
      | Ok req \<Rightarrow>
          if dq_AppID req = '''' \<or> dq_SourceURL req = '''' then (s, WText 400 ''app_id and source_url are required'')
          else case fetchScript (wh_tmp h) (wh_fetch h) (dq_SourceURL req) (dq_Entrypoint req) of
            Err e \<Rightarrow> (s, WText 400 e)
          | Ok script \<Rightarrow>
              (case Put (wh_os h) (wh_reload h) (dq_AppID req) script s of
                 (s1, Err e) \<Rightarrow> (s1, WText 500 e)
               | (s1, Ok port) \<Rightarrow> (s1, WPort port)))"

definition handleApp :: "workerd_handler \<Rightarrow> workerd_request \<Rightarrow> loader_world \<Rightarrow> loader_world \<times> workerd_response" where
  "handleApp h r s =
     (let i = TrimPrefix (wr_Path r) ''/apps/'' in
      if i = '''' then (s, WText 404 ''404 page not found'')
      else if wr_Method r \<noteq> ''DELETE'' then (s, WText 405 ''use DELETE'')
      else case Remove (wh_os h) (wh_reload h) i s of
        (s1, Some e) \<Rightarrow> (s1, WText 500 e)
      | (s1, None) \<Rightarrow> (s1, WNoContent))"

definition workerdAuth :: "workerd_handler \<Rightarrow> (workerd_request \<Rightarrow> loader_world \<Rightarrow> loader_world \<times> workerd_response) \<Rightarrow>
    workerd_request \<Rightarrow> loader_world \<Rightarrow> loader_world \<times> workerd_response" where
  "workerdAuth h handle r s =
     (if wh_Token h \<noteq> '''' \<and> wr_Authorization r \<noteq> ''Bearer '' @ wh_Token h then (s, WText 401 ''unauthorized'')
      else handle r s)"

definition workerdRoutes :: "workerd_handler \<Rightarrow> workerd_request \<Rightarrow> loader_world \<Rightarrow> loader_world \<times> workerd_response" where
  "workerdRoutes h r s =
     (if wr_Path r = ''/healthz'' then (s, WText 200 '''')
      else if wr_Path r = ''/deploy'' then workerdAuth h (handleDeploy h) r s
      else if HasPrefix (wr_Path r) ''/apps/'' then workerdAuth h (handleApp h) r s
      else (s, WText 404 ''404 page not found''))"

subsection \<open>The client\<close>

record workerd_Client =
  wc_Replicas :: int
  wc_ControlPort :: int
  wc_ReplicaHost :: "int \<Rightarrow> string"
  wc_Token :: string

record Target =
  tg_Host :: string
  tg_Port :: int

definition Addr :: "Target \<Rightarrow> string" where
  "Addr t = tg_Host t @ '':'' @ Itoa (tg_Port t)"

definition shard :: "workerd_Client \<Rightarrow> string \<Rightarrow> int" where
  "shard c appID =
     (if wc_Replicas c \<le> 1 then 0
      else int (unat (fnv32a appID mod word_of_int (wc_Replicas c))))"

text \<open>\<open>call\<close> is the answer of a loader: a transport error, or status, message and port.\<close>

definition ClientDeploy ::
  "workerd_Client \<Rightarrow> (string \<Rightarrow> DeployRequest \<Rightarrow> (string, int \<times> string \<times> (string, int) result) result) \<Rightarrow> string \<Rightarrow> string \<Rightarrow> string \<Rightarrow> (string, Target) result" where
  "ClientDeploy c call appID sourceURL entrypoint =
     (let idx = shard c appID;
          host = wc_ReplicaHost c idx;
          base = ''http://'' @ host @ '':'' @ Itoa (wc_ControlPort c)
      in case call (base @ ''/deploy'') \<lparr>dq_AppID = appID, dq_SourceURL = sourceURL, dq_Entrypoint = entrypoint\<rparr> of
        Err e \<Rightarrow> Err (''workerd deploy (replica '' @ Itoa idx @ ''): '' @ e)
      | Ok (status, msg, dr) \<Rightarrow>
          if status div 100 \<noteq> 2 then Err (''workerd deploy (replica '' @ Itoa idx @ ''): status '' @ Itoa status @ '': '' @ msg)
          else case dr of Err e \<Rightarrow> Err (''workerd deploy decode: '' @ e) | Ok port \<Rightarrow> Ok \<lparr>tg_Host = host, tg_Port = port\<rparr>)"

definition ClientRemove :: "workerd_Client \<Rightarrow> (string \<Rightarrow> (string, int) result) \<Rightarrow> string \<Rightarrow> string option" where
  "ClientRemove c call appID =
     (let idx = shard c appID;
          base = ''http://'' @ wc_ReplicaHost c idx @ '':'' @ Itoa (wc_ControlPort c)
      in case call (base @ ''/apps/'' @ appID) of
        Err e \<Rightarrow> Some (''workerd remove (replica '' @ Itoa idx @ ''): '' @ e)
      | Ok status \<Rightarrow>
          if status = 404 \<or> status div 100 = 2 then None
          else Some (''workerd remove (replica '' @ Itoa idx @ ''): status '' @ Itoa status))"

definition FastLaneDeploy ::
  "workerd_Client \<Rightarrow> (string \<Rightarrow> DeployRequest \<Rightarrow> (string, int \<times> string \<times> (string, int) result) result) \<Rightarrow> VibedApp \<Rightarrow> (string, string) result" where
  "FastLaneDeploy c call app =
     (case ClientDeploy c call (app_Name app) (source_TarballRef (spec_Source (app_Spec app))) (rt_Entrypoint (spec_Runtime (app_Spec app))) of
        Err e \<Rightarrow> Err e | Ok target \<Rightarrow> Ok (Addr target))"

definition FastLaneRemove :: "workerd_Client \<Rightarrow> (string \<Rightarrow> (string, int) result) \<Rightarrow> VibedApp \<Rightarrow> string option" where
  "FastLaneRemove c call app = ClientRemove c call (app_Name app)"

subsection \<open>Ports\<close>

lemma map_of_del [simp]: "map_of (assoc_del k m) = (map_of m)(k := None)"
  by (induction m) (auto simp: assoc_del_def fun_eq_iff)

lemma map_of_put [simp]: "map_of (assoc_put k v m) = (map_of m)(k \<mapsto> v)"
  using map_of_del [of k m] by (simp add: assoc_put_def assoc_del_def)

lemma freeSlot_free: "freeSlot ports base slot \<notin> fst ` set ports"
  by (induction ports base slot rule: freeSlot.induct) (subst freeSlot.simps, simp)

lemma freeSlot_least:
  "base + int slot \<le> freeSlot ports base slot \<and> (\<forall>p. base + int slot \<le> p \<and> p < freeSlot ports base slot \<longrightarrow> p \<in> fst ` set ports)"
proof (induction ports base slot rule: freeSlot.induct)
  case (1 ports base slot)
  show ?case
  proof (cases "base + int slot \<in> fst ` set ports")
    case True
    then have e: "freeSlot ports base slot = freeSlot ports base (slot + 1)" by (subst freeSlot.simps) simp
    have "p \<in> fst ` set ports" if "base + int slot \<le> p" "p < freeSlot ports base (slot + 1)" for p
      using 1 [OF True] True that by (cases "p = base + int slot") (auto simp del: of_nat_add)
    then show ?thesis using 1 [OF True] e by auto
  next
    case False
    then have "freeSlot ports base slot = base + int slot" by (subst freeSlot.simps) simp
    then show ?thesis by auto
  qed
qed

text \<open>The two maps are inverse to each other, and ports start at the base.\<close>

definition loader_inv :: "Loader \<Rightarrow> bool" where
  "loader_inv l \<longleftrightarrow>
     (\<forall>i p. map_of (ld_apps l) i = Some p \<longleftrightarrow> map_of (ld_ports l) p = Some i) \<and>
     (\<forall>i p. map_of (ld_apps l) i = Some p \<longrightarrow> ld_portBase l \<le> p)"

lemma loader_invD:
  assumes "loader_inv l"
  shows "map_of (ld_apps l) i = Some p \<longleftrightarrow> map_of (ld_ports l) p = Some i" "map_of (ld_apps l) i = Some p \<Longrightarrow> ld_portBase l \<le> p"
  using assms unfolding loader_inv_def by auto

lemma assign_inv:
  assumes "loader_inv l" "map_of (ld_apps l) i = None" "assignPortLocked i l = (l1, port)"
  shows "loader_inv l1" "map_of (ld_apps l1) i = Some port" "map_of (ld_ports l) port = None" "ld_portBase l \<le> port"
    "ld_baseDir l1 = ld_baseDir l"
proof -
  have port: "port = freeSlot (ld_ports l) (ld_portBase l) 0"
    and l1: "l1 = l\<lparr>ld_apps := assoc_put i port (ld_apps l), ld_ports := assoc_put port i (ld_ports l)\<rparr>"
    using assms(3) by (auto simp: assignPortLocked_def Let_def)
  show free: "map_of (ld_ports l) port = None" using freeSlot_free port by (simp add: map_of_eq_None_iff)
  show base: "ld_portBase l \<le> port" using freeSlot_least [of "ld_portBase l" 0 "ld_ports l"] port by simp
  show "map_of (ld_apps l1) i = Some port" "ld_baseDir l1 = ld_baseDir l" by (simp_all add: l1)
  show "loader_inv l1" unfolding loader_inv_def l1
    using loader_invD [OF assms(1)] assms(2) free base by (auto split: if_splits) (metis option.distinct(1))+
qed

lemma remove_inv:
  assumes "loader_inv l" "map_of (ld_apps l) i = Some port"
  shows "loader_inv (l\<lparr>ld_apps := assoc_del i (ld_apps l), ld_ports := assoc_del port (ld_ports l)\<rparr>)"
  unfolding loader_inv_def using loader_invD [OF assms(1)] assms(2) by (auto split: if_splits) (metis option.inject)+

text \<open>What \<open>Put\<close> and \<open>Remove\<close> do to the maps, on every path through them.\<close>

lemma Put_loader:
  assumes "Put os reload i script (l, log) = ((l', log'), r)"
  obtains "l' = l"
  | port where "map_of (ld_apps l) i = None" "assignPortLocked i l = (l', port)"
proof -
  consider "l' = l" | "map_of (ld_apps l) i = None" "fst (assignPortLocked i l) = l'"
    using assms by (auto simp: Put_def Let_def split: if_splits option.splits prod.splits)
  then show thesis using that by (metis prod.collapse)
qed

lemma Remove_loader:
  assumes "Remove os reload i (l, log) = ((l', log'), r)"
  shows "l' = l \<or> (\<exists>port. map_of (ld_apps l) i = Some port \<and>
    l' = l\<lparr>ld_apps := assoc_del i (ld_apps l), ld_ports := assoc_del port (ld_ports l)\<rparr>)"
  using assms by (auto simp: Remove_def Let_def split: if_splits option.splits prod.splits)

datatype loader_op = LPut os "fs_op list \<Rightarrow> string option" string string | LRemove os "fs_op list \<Rightarrow> string option" string

fun loader_do :: "loader_op \<Rightarrow> loader_world \<Rightarrow> loader_world" where
  "loader_do (LPut os reload i script) s = fst (Put os reload i script s)"
| "loader_do (LRemove os reload i) s = fst (Remove os reload i s)"

lemma loader_do_inv: "loader_inv (fst s) \<Longrightarrow> loader_inv (fst (loader_do op s))"
proof (cases op)
  case (LPut os reload i script)
  assume inv: "loader_inv (fst s)"
  obtain l' log' r where p: "Put os reload i script (fst s, snd s) = ((l', log'), r)" by (metis prod.collapse)
  from p have "loader_inv l'" by (cases rule: Put_loader) (use inv assign_inv(1) in auto)
  then show ?thesis using p LPut by simp
next
  case (LRemove os reload i)
  assume inv: "loader_inv (fst s)"
  obtain l' log' r where p: "Remove os reload i (fst s, snd s) = ((l', log'), r)" by (metis prod.collapse)
  then have "loader_inv l'" using Remove_loader [OF p] inv remove_inv by auto
  then show ?thesis using p LRemove by simp
qed

lemma loader_run_inv: "loader_inv (fst s) \<Longrightarrow> loader_inv (fst (fold loader_do ops s))"
  by (induction ops arbitrary: s) (simp_all add: loader_do_inv)

lemma NewLoader_inv: "NewLoader os opts log = (log', Ok l) \<Longrightarrow> loader_inv l"
  by (auto simp: NewLoader_def loader_inv_def Let_def split: if_splits option.splits prod.splits)

text \<open>C28: However apps are put and removed, and whichever of the file and reload steps fail, no two apps of a replica ever share a port:
  the two maps of the loader stay inverse to each other.
\<close>

theorem worker_ports_are_exclusive:
  assumes "NewLoader os opts log = (log', Ok l0)" "l = fst (fold loader_do ops (l0, log'))"
    "map_of (ld_apps l) i = Some p" "map_of (ld_apps l) j = Some p"
  shows "i = j"
proof -
  have "loader_inv l" using loader_run_inv [of "(l0, log')" ops] NewLoader_inv [OF assms(1)] assms(2) by simp
  note D = loader_invD(1) [OF this]
  show ?thesis using assms(3,4) unfolding D by simp
qed

text \<open>A new app gets the lowest free port from the base on, so the range in use stays as small as the number of apps; an app that is
  put again keeps its port.
\<close>

theorem put_assigns_lowest_free_port:
  assumes "loader_inv l" "Put os reload i script (l, log) = ((l', log'), Ok port)"
  shows "map_of (ld_apps l') i = Some port \<and>
    (case map_of (ld_apps l) i of
       Some q \<Rightarrow> port = q \<and> l' = l
     | None \<Rightarrow> map_of (ld_ports l) port = None \<and> ld_portBase l \<le> port \<and> (\<forall>q. ld_portBase l \<le> q \<and> q < port \<longrightarrow> map_of (ld_ports l) q \<noteq> None))"
proof (cases "map_of (ld_apps l) i")
  case (Some q)
  then show ?thesis using assms(2) by (auto simp: Put_def Let_def split: if_splits option.splits prod.splits)
next
  case None
  then have a: "assignPortLocked i l = (l', port)"
    using assms(2) by (auto simp: Put_def Let_def split: if_splits option.splits prod.splits)
  then have "port = freeSlot (ld_ports l) (ld_portBase l) 0" by (simp add: assignPortLocked_def Let_def split: prod.splits)
  then have "\<forall>q. ld_portBase l \<le> q \<and> q < port \<longrightarrow> map_of (ld_ports l) q \<noteq> None"
    using freeSlot_least [of "ld_portBase l" 0 "ld_ports l"] by (auto simp: map_of_eq_None_iff)
  then show ?thesis using assign_inv [OF assms(1) None a] None by simp
qed

subsection \<open>Files\<close>

lemma join_snoc: "join_with sep (xs @ [e]) @ t = join_with sep (xs @ [e @ t])"
proof (induction xs)
  case (Cons x xs)
  then show ?case by (cases "xs @ [e]"; cases xs) auto
qed simp

lemma JoinPath_suffix:
  assumes "plain_name e" "plain_name (e @ t)"
  shows "JoinPath d e @ t = JoinPath d (e @ t)"
proof -
  have ne: "e \<noteq> ''''" "e @ t \<noteq> ''''" using assms(1) by (auto simp: plain_name_def path_element_def)
  have c: "Clean (JoinPath d n) = JoinPath d n" if "n \<noteq> ''''" for n using that by (simp add: JoinPath_def Clean_idem)
  have j: "JoinPath d n = (if IsAbs d then ''/'' else '''') @ join_with ''/'' (cleaned d @ [n])" if "plain_name n" for n
  proof -
    have n: "n \<noteq> ''''" using that by (auto simp: plain_name_def path_element_def)
    have cl: "cleaned (JoinPath d n) = cleaned d @ [n]" "IsAbs (JoinPath d n) \<longleftrightarrow> IsAbs d"
      using join_inside [of n d] plain_name_path [OF that] by simp_all
    have "join_with ''/'' (xs @ [n]) \<noteq> ''''" for xs using n by (cases xs) (simp_all add: join_with_Cons)
    from this [of "cleaned d"] show ?thesis using c [OF n] cl by (cases "IsAbs d") (simp_all add: Clean_def [of "JoinPath d n"] Let_def)
  qed
  show ?thesis unfolding j [OF assms(1)] j [OF assms(2)] by (simp add: join_snoc)
qed

lemma config_below: "below (ld_baseDir l) (ConfigPath l)" "below (ld_baseDir l) (ConfigPath l @ ''.tmp'')"
proof -
  have p: "plain_name ''config.capnp''" "plain_name (''config.capnp'' @ ''.tmp'')" by (simp_all add: plain_name_def path_element_def)
  show "below (ld_baseDir l) (ConfigPath l)" unfolding ConfigPath_def by (rule join_plain [OF p(1)]) simp
  show "below (ld_baseDir l) (ConfigPath l @ ''.tmp'')" unfolding ConfigPath_def JoinPath_suffix [OF p] by (rule join_plain [OF p(2)]) simp
qed

lemma writeFile_adds:
  assumes "below dir p" "writeFile os p content log = (log', e)"
  shows "adds dir log log'"
proof -
  let ?n = "min (os_room os (log @ [OpenTrunc p 420]) p) (length content)"
  let ?ops = "[OpenTrunc p 420, WriteTo p (take ?n content), CloseFile p]"
  have "log' = log @ take 1 ?ops \<or> log' = log @ ?ops"
    using assms(2) by (auto simp: writeFile_def Let_def split: option.splits if_splits)
  with assms(1) show ?thesis by (auto simp: adds_def)
qed

lemma render_adds:
  assumes "renderLocked os l log = (log', e)"
  shows "adds (ld_baseDir l) log log'"
proof -
  let ?tmp = "ConfigPath l @ ''.tmp''"
  obtain log1 e1 where w: "writeFile os ?tmp (renderConfig (sort (map fst (ld_apps l))) (map_of (ld_apps l)) (ld_compatDate l)) log = (log1, e1)"
    by fastforce
  have 1: "adds (ld_baseDir l) log log1" by (rule writeFile_adds [OF config_below(2) w])
  have "adds (ld_baseDir l) log (log1 @ [Rename ?tmp (ConfigPath l)])"
    by (rule adds_append [OF 1]) (simp add: config_below)
  then show ?thesis using assms w 1
    by (auto simp: renderLocked_def Let_def split: option.splits rename_answer.splits)
qed

lemma validID_cases: "validID i \<Longrightarrow> i = ''.'' \<or> plain_name i"
proof -
  assume v: "validID i"
  have "Contains ''..'' ''..''" by (simp add: HasPrefix_def)
  then have "i \<noteq> ''..''" using v by (auto simp: validID_def)
  moreover have "Contains i ''/'' \<longleftrightarrow> CHR ''/'' \<in> set i" by (induction i) (auto simp: HasPrefix_def)
  ultimately show ?thesis using v by (auto simp: validID_def plain_name_def path_element_def)
qed

lemma script_below:
  assumes "validID i"
  shows "below (ld_baseDir l) (JoinPath (JoinPath (ld_baseDir l) ''scripts'') i)"
proof -
  have s: "below (ld_baseDir l) (JoinPath (ld_baseDir l) ''scripts'')"
    by (rule join_plain) (simp_all add: plain_name_def path_element_def)
  from validID_cases [OF assms] show ?thesis
  proof
    assume "i = ''.''"
    moreover have "Clean ''.'' = ''.''" "\<not> illegal_path ''.''" by code_simp+
    ultimately show ?thesis using join_below [of "''.''" "JoinPath (ld_baseDir l) ''scripts''"] below_trans [OF s] by simp
  qed (rule join_plain [OF _ s])
qed

text \<open>The loader writes and removes only below its base directory, whatever id it is given.
\<close>

theorem loader_stays_in_basedir:
  "\<exists>ops1 ops2. snd (fst (Put os reload i script (l, log))) = log @ ops1 \<and> list_all (confined (ld_baseDir l)) ops1 \<and>
     snd (fst (Remove os reload j (l, log))) = log @ ops2 \<and> list_all (confined (ld_baseDir l)) ops2"
proof -
  let ?b = "ld_baseDir l"
  have put: "adds ?b log (snd (fst (Put os reload i script (l, log))))"
  proof (cases "validID i")
    case True
    let ?dir = "JoinPath (JoinPath ?b ''scripts'') i"
    have d: "below ?b ?dir" by (rule script_below [OF True])
    have f: "below ?b (JoinPath ?dir scriptFile)"
      by (rule join_plain [OF _ d]) (simp add: plain_name_def path_element_def scriptFile_def)
    have 1: "adds ?b log (log @ [MkdirAll ?dir 493])" using d by (simp add: adds_def)
    obtain log2 e2 where w: "writeFile os (JoinPath ?dir scriptFile) script (log @ [MkdirAll ?dir 493]) = (log2, e2)" by fastforce
    have 2: "adds ?b log log2" by (rule adds_trans [OF 1 writeFile_adds [OF f w]])
    obtain l1 port where a: "(case map_of (ld_apps l) i of Some port \<Rightarrow> (l, port) | None \<Rightarrow> assignPortLocked i l) = (l1, port)" by fastforce
    then have b: "ld_baseDir l1 = ?b" by (auto simp: assignPortLocked_def Let_def split: option.splits)
    obtain log3 e3 where r: "renderLocked os l1 log2 = (log3, e3)" by fastforce
    have 3: "adds ?b log log3" using adds_trans [OF 2] render_adds [OF r] b by simp
    have "snd (fst (Put os reload i script (l, log))) \<in> {log, log @ [MkdirAll ?dir 493], log2, log3}"
      using w a r by (cases e2; cases e3) (auto simp: Put_def Let_def split: option.splits)
    with 1 2 3 show ?thesis by auto
  qed (simp add: Put_def)
  have rem: "adds ?b log (snd (fst (Remove os reload j (l, log))))"
  proof (cases "validID j")
    case True
    let ?dir = "JoinPath (JoinPath ?b ''scripts'') j"
    have 1: "adds ?b log (log @ [RemoveAll ?dir])" using script_below [OF True] by (simp add: adds_def)
    define l1 where "l1 = (case map_of (ld_apps l) j of
        Some port \<Rightarrow> l\<lparr>ld_apps := assoc_del j (ld_apps l), ld_ports := assoc_del port (ld_ports l)\<rparr> | None \<Rightarrow> l)"
    have b: "ld_baseDir l1 = ?b" by (simp add: l1_def split: option.splits)
    obtain log2 e2 where r: "renderLocked os l1 (log @ [RemoveAll ?dir]) = (log2, e2)" by fastforce
    have 2: "adds ?b log log2" using adds_trans [OF 1] render_adds [OF r] b by simp
    have "snd (fst (Remove os reload j (l, log))) \<in> {log @ [RemoveAll ?dir], log2}"
      using True r unfolding l1_def by (cases e2) (auto simp: Remove_def Let_def split: option.splits)
    with 1 2 show ?thesis by auto
  qed (simp add: Remove_def)
  show ?thesis using put rem unfolding adds_def by blast
qed

text \<open>Whatever entry point a request names, the files the loader opens to find the worker module lie below the directory the tarball
  was unpacked into.
\<close>

theorem entry_module_is_inside:
  "list_all (below dir) (fst (readEntry read dir candidates))"
proof (induction candidates)
  case (Cons c cs)
  show ?case
  proof (cases "IsAbs (Clean c) \<or> (case Rel dir (JoinPath dir (Clean c)) of None \<Rightarrow> True | Some rel \<Rightarrow> rel = ''..'' \<or> HasPrefix rel ''../'')")
    case True
    then show ?thesis using Cons.IH by (auto simp: Let_def)
  next
    case False
    then obtain rel where r: "Rel dir (JoinPath dir (Clean c)) = Some rel" "rel \<noteq> ''..''" "\<not> HasPrefix rel ''../''"
      by (auto split: option.splits)
    from rel_below [OF r] False Cons.IH show ?thesis by (auto simp: Let_def split: option.splits prod.splits)
  qed
qed simp

subsection \<open>Replicas\<close>

text \<open>Every app is pinned to one of the replicas: the index depends on the id alone and is in range.
\<close>

theorem shard_in_range:
  assumes "1 \<le> wc_Replicas c" "wc_Replicas c < 2 ^ 32"
  shows "0 \<le> shard c appID \<and> shard c appID < wc_Replicas c"
proof (cases "wc_Replicas c \<le> 1")
  case True
  then show ?thesis using assms by (simp add: shard_def)
next
  case False
  have u: "unat (word_of_int (wc_Replicas c) :: 32 word) = nat (wc_Replicas c)"
    using assms by (simp add: unat_eq_nat_uint uint_word_of_int_eq take_bit_int_eq_self)
  have "unat (fnv32a appID mod word_of_int (wc_Replicas c)) < nat (wc_Replicas c)"
    using False u by (simp add: unat_mod)
  then have "int (unat (fnv32a appID mod word_of_int (wc_Replicas c))) < wc_Replicas c" by linarith
  with False show ?thesis by (simp add: shard_def)
qed

text \<open>The fast lane identifies apps by name only: two apps of the same name in different namespaces go to the same replica under the same
  id, so the later one replaces the worker of the earlier and both get the same port.
\<close>

theorem same_name_apps_share_worker:
  assumes "app_Name a = app_Name b" "loader_inv l"
    "Put os reload (app_Name a) scriptA (l, log) = ((l1, log1), Ok portA)"
    "Put os reload (app_Name b) scriptB (l1, log1) = ((l2, log2), Ok portB)"
  shows "shard c (app_Name a) = shard c (app_Name b) \<and> portB = portA \<and> l2 = l1 \<and> Port (app_Name a) l2 = portB"
proof -
  have 1: "map_of (ld_apps l1) (app_Name a) = Some portA"
  proof (cases "map_of (ld_apps l) (app_Name a)")
    case (Some q)
    then show ?thesis using assms(3) by (auto simp: Put_def Let_def split: if_splits option.splits prod.splits)
  next
    case None
    then have "assignPortLocked (app_Name a) l = (l1, portA)"
      using assms(3) by (auto simp: Put_def Let_def split: if_splits option.splits prod.splits)
    then show ?thesis by (rule assign_inv(2) [OF assms(2) None])
  qed
  then have "portB = portA \<and> l2 = l1"
    using assms(1,4) by (auto simp: Put_def Let_def split: if_splits option.splits prod.splits)
  with 1 assms(1) show ?thesis by (simp add: Port_def)
qed

text \<open>The identifiers of the generated configuration are not injective: ids that differ only in a dash and a dot get the same
  service, socket and constant, so the configuration of the replica declares them twice.
\<close>

theorem config_identifiers_collide:
  "svcName ''a-b'' = svcName ''a.b'' \<and> goIdent ''a-b'' = goIdent ''a.b'' \<and> validID ''a-b'' \<and> validID ''a.b''"
proof -
  have "map ident_rune (runes ''a-b'') = ''a_b''" "map ident_rune (runes ''a.b'') = ''a_b''" "validID ''a-b''" "validID ''a.b''"
    by code_simp+
  then show ?thesis by (simp add: svcName_def goIdent_def)
qed

text \<open>The id \<open>.\<close> passes the check, and removing it deletes the scripts of all apps.
\<close>

theorem removing_dot_clears_scripts:
  assumes "reload = (\<lambda>_. None)" "ld_baseDir l = ''/base''"
  shows "RemoveAll ''/base/scripts'' \<in> set (snd (fst (Remove os reload ''.'' (l, log))))"
proof -
  have v: "validID ''.''" "JoinPath (JoinPath ''/base'' ''scripts'') ''.'' = ''/base/scripts''" by code_simp+
  have ext: "set log0 \<subseteq> set (fst (renderLocked os l1 log0))" for l1 log0
    using render_adds [of os l1 log0 "fst (renderLocked os l1 log0)" "snd (renderLocked os l1 log0)"] by (auto simp: adds_def)
  define l1 where "l1 = (case map_of (ld_apps l) ''.'' of
        Some port \<Rightarrow> l\<lparr>ld_apps := assoc_del ''.'' (ld_apps l), ld_ports := assoc_del port (ld_ports l)\<rparr> | None \<Rightarrow> l)"
  obtain log2 e2 where r: "renderLocked os l1 (log @ [RemoveAll ''/base/scripts'']) = (log2, e2)" by fastforce
  have "snd (fst (Remove os reload ''.'' (l, log))) \<in> {log @ [RemoveAll ''/base/scripts''], log2}"
    using v assms(2) r unfolding l1_def by (cases e2) (auto simp: Remove_def Let_def split: option.splits)
  with ext [of "log @ [RemoveAll ''/base/scripts'']" l1] r show ?thesis by auto
qed

subsection \<open>Examples\<close>

definition example_loader :: Loader where
  "example_loader = \<lparr>ld_baseDir = ''/base'', ld_compatDate = ''2024-01-01'', ld_portBase = 81, ld_apps = [], ld_ports = []\<rparr>"

definition roomy_os :: os where
  "roomy_os = quiet_os\<lparr>os_room := \<lambda>log p. 1000\<rparr>"

lemma example_configs_short:
  "length (renderConfig [''a''] [''a'' \<mapsto> 81] ''2024-01-01'') \<le> 1000" "length (renderConfig [] Map.empty ''2024-01-01'') \<le> 1000"
  by code_simp+

lemma roomy_write: "length content \<le> 1000 \<Longrightarrow> \<exists>log'. writeFile roomy_os p content log = (log', None)"
  by (simp add: writeFile_def Let_def roomy_os_def quiet_os_def)

lemma roomy_render:
  assumes "length (renderConfig (sort (map fst (ld_apps l))) (map_of (ld_apps l)) (ld_compatDate l)) \<le> 1000"
  shows "\<exists>log'. renderLocked roomy_os l log = (log', None)"
proof -
  obtain log1 where "writeFile roomy_os (ConfigPath l @ ''.tmp'') (renderConfig (sort (map fst (ld_apps l))) (map_of (ld_apps l)) (ld_compatDate l)) log = (log1, None)"
    using roomy_write [OF assms] by blast
  then show ?thesis by (simp add: renderLocked_def Let_def) (simp add: roomy_os_def quiet_os_def)
qed

definition with_a :: Loader where
  "with_a = example_loader\<lparr>ld_apps := [(''a'', 81)], ld_ports := [(81, ''a'')]\<rparr>"

lemma example_new:
  "\<exists>log'. NewLoader roomy_os \<lparr>lo_BaseDir = ''/base'', lo_CompatDate = ''2024-01-01'', lo_PortBase = 81\<rparr> [] = (log', Ok example_loader)"
proof -
  obtain log2 where "renderLocked roomy_os example_loader [MkdirAll (JoinPath ''/base'' ''scripts'') 493] = (log2, None)"
    using roomy_render [of example_loader] example_configs_short(2) by (auto simp: example_loader_def)
  then show ?thesis by (simp add: NewLoader_def Let_def example_loader_def) (simp add: roomy_os_def quiet_os_def)
qed

lemma put_ok:
  assumes "length script \<le> 1000" "validID i"
    "(case map_of (ld_apps l) i of Some port \<Rightarrow> (l, port) | None \<Rightarrow> assignPortLocked i l) = (l1, port)"
    "length (renderConfig (sort (map fst (ld_apps l1))) (map_of (ld_apps l1)) (ld_compatDate l1)) \<le> 1000"
  shows "\<exists>log'. Put roomy_os (\<lambda>_. None) i script (l, log) = ((l1, log'), Ok port)"
proof -
  let ?dir = "JoinPath (JoinPath (ld_baseDir l) ''scripts'') i"
  obtain log2 where w: "writeFile roomy_os (JoinPath ?dir scriptFile) script (log @ [MkdirAll ?dir 493]) = (log2, None)"
    using roomy_write [OF assms(1)] by blast
  obtain log3 where r: "renderLocked roomy_os l1 log2 = (log3, None)" using roomy_render [OF assms(4)] by blast
  have "i \<noteq> ''''" "os_mkdir roomy_os log ?dir = None" using assms(2) by (auto simp: validID_def roomy_os_def quiet_os_def)
  then show ?thesis using w r assms(2,3) by (simp add: Put_def Let_def)
qed

lemma example_put:
  "\<exists>log'. Put roomy_os (\<lambda>_. None) ''a'' ''x'' (example_loader, log) = ((with_a, log'), Ok 81)"
  "\<exists>log'. Put roomy_os (\<lambda>_. None) ''a'' ''x'' (with_a, log) = ((with_a, log'), Ok 81)"
proof -
  have v: "validID ''a''" by code_simp
  have "assignPortLocked ''a'' example_loader = (with_a, 81)"
    by (simp add: assignPortLocked_def example_loader_def with_a_def freeSlot.simps [of "[]"] assoc_put_def)
  then show "\<exists>log'. Put roomy_os (\<lambda>_. None) ''a'' ''x'' (example_loader, log) = ((with_a, log'), Ok 81)"
    using example_configs_short(1) v by (intro put_ok) (simp_all add: example_loader_def with_a_def)
  show "\<exists>log'. Put roomy_os (\<lambda>_. None) ''a'' ''x'' (with_a, log) = ((with_a, log'), Ok 81)"
    using example_configs_short(1) v by (intro put_ok) (simp_all add: example_loader_def with_a_def)
qed

lemma example_loader_inv: "loader_inv example_loader" "loader_inv with_a"
  by (auto simp: loader_inv_def example_loader_def with_a_def)

theorem worker_ports_are_exclusive_witness:
  "\<exists>l :: Loader. map_of (ld_apps l) ''a'' = Some 81 \<and> (\<forall>j. map_of (ld_apps l) j = Some 81 \<longrightarrow> ''a'' = j)"
proof -
  obtain log' where n: "NewLoader roomy_os \<lparr>lo_BaseDir = ''/base'', lo_CompatDate = ''2024-01-01'', lo_PortBase = 81\<rparr> [] = (log', Ok example_loader)"
    using example_new by blast
  let ?l = "fst (fold loader_do [LPut roomy_os (\<lambda>_. None) ''a'' ''x''] (example_loader, log'))"
  obtain log2 where "Put roomy_os (\<lambda>_. None) ''a'' ''x'' (example_loader, log') = ((with_a, log2), Ok 81)" using example_put(1) by blast
  then have m: "map_of (ld_apps ?l) ''a'' = Some 81" by (simp add: with_a_def)
  show ?thesis by (rule exI [of _ ?l], intro conjI allI impI) (rule m, rule worker_ports_are_exclusive [OF n refl m])
qed

theorem put_assigns_lowest_free_port_witness:
  "map_of (ld_apps with_a) ''a'' = Some 81 \<and> ld_portBase example_loader \<le> 81"
proof -
  obtain log' where "Put roomy_os (\<lambda>_. None) ''a'' ''x'' (example_loader, []) = ((with_a, log'), Ok 81)" using example_put(1) by blast
  from put_assigns_lowest_free_port [OF example_loader_inv(1) this] show ?thesis by (simp add: example_loader_def)
qed

theorem shard_in_range_witness:
  "0 \<le> shard \<lparr>wc_Replicas = 3, wc_ControlPort = 9000, wc_ReplicaHost = \<lambda>_. ''h'', wc_Token = ''''\<rparr> ''a'' \<and>
   shard \<lparr>wc_Replicas = 3, wc_ControlPort = 9000, wc_ReplicaHost = \<lambda>_. ''h'', wc_Token = ''''\<rparr> ''a'' < 3"
  using shard_in_range [of "\<lparr>wc_Replicas = 3, wc_ControlPort = 9000, wc_ReplicaHost = \<lambda>_. ''h'', wc_Token = ''''\<rparr>"] by simp

theorem same_name_apps_share_worker_witness:
  "app_Namespace (sample_app ''t1'' ''a'' ''o1'') \<noteq> app_Namespace (sample_app ''t2'' ''a'' ''o2'') \<and> Port ''a'' with_a = 81"
proof -
  obtain log1 where 1: "Put roomy_os (\<lambda>_. None) ''a'' ''x'' (example_loader, []) = ((with_a, log1), Ok 81)" using example_put(1) by blast
  obtain log2 where 2: "Put roomy_os (\<lambda>_. None) ''a'' ''x'' (with_a, log1) = ((with_a, log2), Ok 81)" using example_put(2) by blast
  from same_name_apps_share_worker [of "sample_app ''t1'' ''a'' ''o1''" "sample_app ''t2'' ''a'' ''o2''"] 1 2 example_loader_inv(1)
  show ?thesis by simp
qed

theorem removing_dot_clears_scripts_witness:
  "RemoveAll ''/base/scripts'' \<in> set (snd (fst (Remove roomy_os (\<lambda>_. None) ''.'' (with_a, []))))"
  by (rule removing_dot_clears_scripts) (simp_all add: with_a_def example_loader_def)

end
