(* ===== verification/Rate_Limit.thy ===== *)
theory Rate_Limit
  imports Complex_Main Egress "HOL-Library.Multiset"
begin

section \<open>The rate limiter\<close>

text \<open>
  \<open>src/internal/middleware/ratelimit.go\<close>: token buckets per client in three pools (general, share-link tokens, writes).  The bucket itself
  is \<open>golang.org/x/time/rate\<close>, an argument: a new bucket and what \<open>Allow\<close> does to it.  A pool is the list of its entries; \<open>iter\<close> is the
  order in which one iteration over the map visits them.
\<close>

definition maxRateLimitClients :: nat where
  "maxRateLimitClients = 50000"

definition defaultWriteRPS :: rat where "defaultWriteRPS = 1"
definition defaultWriteBurst :: int where "defaultWriteBurst = 5"

datatype limiterClass = classGeneral | classToken | classWrite

definition isWriteVerb :: "string \<Rightarrow> bool" where
  "isWriteVerb method \<longleftrightarrow> method \<in> {''POST'', ''PUT'', ''PATCH'', ''DELETE''}"

definition rateLimitEvictSample :: nat where
  "rateLimitEvictSample = 16"

record 'l client =
  cl_limiter :: 'l
  cl_lastSeen :: time

type_synonym 'l pool = "(string \<times> 'l client) list"

definition evictStep :: "string \<times> 'l client \<Rightarrow> string \<times> time \<Rightarrow> string \<times> time" where
  "evictStep kc old = (case kc of (k, c) \<Rightarrow> if fst old = '''' \<or> cl_lastSeen c < snd old then (k, cl_lastSeen c) else old)"

definition oldestSampled :: "('l pool \<Rightarrow> 'l pool) \<Rightarrow> 'l pool \<Rightarrow> string" where
  "oldestSampled iter cmap = fst (fold evictStep (take rateLimitEvictSample (iter cmap)) ('''', 0))"

definition evictOldestSampled :: "('l pool \<Rightarrow> 'l pool) \<Rightarrow> 'l pool \<Rightarrow> 'l pool" where
  "evictOldestSampled iter cmap =
     (let oldestKey = oldestSampled iter cmap in
      if oldestKey \<noteq> '''' then filter (\<lambda>(k, _). k \<noteq> oldestKey) cmap else cmap)"

record RateLimitConfig =
  rl_RequestsPerSecond :: rat
  rl_Burst :: int
  rl_WriteRequestsPerSecond :: rat
  rl_WriteBurst :: int

definition writeRPS :: "RateLimitConfig \<Rightarrow> rat" where
  "writeRPS cfg = (if rl_WriteRequestsPerSecond cfg \<le> 0 then defaultWriteRPS else rl_WriteRequestsPerSecond cfg)"

definition writeBurst :: "RateLimitConfig \<Rightarrow> int" where
  "writeBurst cfg = (if rl_WriteBurst cfg \<le> 0 then defaultWriteBurst else rl_WriteBurst cfg)"

text \<open>Rate (per second) and burst of a class; \<open>rate.Every(time.Minute / 5)\<close> is one in twelve seconds.\<close>

definition limits :: "RateLimitConfig \<Rightarrow> limiterClass \<Rightarrow> rat \<times> int" where
  "limits cfg cls =
     (case cls of
        classToken \<Rightarrow> (1 / 12, 5)
      | classWrite \<Rightarrow> (writeRPS cfg, writeBurst cfg)
      | classGeneral \<Rightarrow> (rl_RequestsPerSecond cfg, rl_Burst cfg))"

record 'l limiter_ops =
  lim_new :: "rat \<Rightarrow> int \<Rightarrow> 'l"
  lim_allow :: "time \<Rightarrow> 'l \<Rightarrow> 'l \<times> bool"

type_synonym 'l pools = "limiterClass \<Rightarrow> 'l pool"

text \<open>\<open>getLimiter\<close> of a key, and what \<open>Allow\<close> then does to the bucket.\<close>

definition getLimiter :: "'l limiter_ops \<Rightarrow> ('l pool \<Rightarrow> 'l pool) \<Rightarrow> RateLimitConfig \<Rightarrow> time \<Rightarrow> string \<Rightarrow> limiterClass \<Rightarrow> 'l pool \<Rightarrow> 'l pool \<times> 'l" where
  "getLimiter ops iter cfg now key cls cmap =
     (case map_of cmap key of
        Some c \<Rightarrow> (map (\<lambda>(k, d). if k = key then (k, d\<lparr>cl_lastSeen := now\<rparr>) else (k, d)) cmap, cl_limiter c)
      | None \<Rightarrow>
          let cmap = (if length cmap \<ge> maxRateLimitClients then evictOldestSampled iter cmap else cmap);
              limiter = (case limits cfg cls of (r, b) \<Rightarrow> lim_new ops r b)
          in ((key, \<lparr>cl_limiter = limiter, cl_lastSeen = now\<rparr>) # cmap, limiter))"

definition setLimiter :: "string \<Rightarrow> 'l \<Rightarrow> 'l pool \<Rightarrow> 'l pool" where
  "setLimiter key l cmap = map (\<lambda>(k, d). if k = key then (k, d\<lparr>cl_limiter := l\<rparr>) else (k, d)) cmap"

definition draw :: "'l limiter_ops \<Rightarrow> ('l pool \<Rightarrow> 'l pool) \<Rightarrow> RateLimitConfig \<Rightarrow> time \<Rightarrow> string \<Rightarrow> limiterClass \<Rightarrow> 'l pools \<Rightarrow> 'l pools \<times> bool" where
  "draw ops iter cfg now key cls ps =
     (case getLimiter ops iter cfg now key cls (ps cls) of (cmap, l) \<Rightarrow>
      case lim_allow ops now l of (l', ok) \<Rightarrow> (ps(cls := setLimiter key l' cmap), ok))"

definition sweep :: "time \<Rightarrow> 'l pool \<Rightarrow> 'l pool" where
  "sweep now cmap = filter (\<lambda>(_, c). \<not> now - cl_lastSeen c > 10 * minute) cmap"

record http_request =
  hr_Path :: string
  hr_Method :: string
  hr_UserID :: string
  hr_RemoteAddr :: string

datatype rl_answer = Served | TooManyToken | TooManyClient string

definition clientKey :: "http_request \<Rightarrow> string \<times> string" where
  "clientKey r =
     (if hr_UserID r \<noteq> '''' then (hr_UserID r, ''apikey'')
      else let key = (case SplitHostPort (hr_RemoteAddr r) of Some h \<Rightarrow> h | None \<Rightarrow> '''') in
           (if key = '''' then hr_RemoteAddr r else key, ''ip''))"

definition limitedPath :: "string \<Rightarrow> bool" where
  "limitedPath path \<longleftrightarrow> HasPrefix path ''/api/'' \<or> HasPrefix path ''/mcp'' \<or> HasPrefix path ''/v1/''"

definition requestClass :: "http_request \<Rightarrow> limiterClass" where
  "requestClass r =
     (if isWriteVerb (hr_Method r) \<and> (HasPrefix (hr_Path r) ''/v1/'' \<or> HasPrefix (hr_Path r) ''/api/'') then classWrite else classGeneral)"

definition shareToken :: "http_request \<Rightarrow> string" where
  "shareToken r = (if hr_Method r = ''POST'' \<and> HasPrefix (hr_Path r) ''/api/share/'' then TrimPrefix (hr_Path r) ''/api/share/'' else '''')"

definition RateLimiter ::
  "'l limiter_ops \<Rightarrow> ('l pool \<Rightarrow> 'l pool) \<Rightarrow> RateLimitConfig \<Rightarrow> time \<Rightarrow> http_request \<Rightarrow> 'l pools \<Rightarrow> 'l pools \<times> rl_answer" where
  "RateLimiter ops iter cfg now r ps =
     (if \<not> limitedPath (hr_Path r) then (ps, Served)
      else let token = shareToken r;
               (ps1, ok1) = (if token \<noteq> '''' then draw ops iter cfg now token classToken ps else (ps, True))
      in if \<not> ok1 then (ps1, TooManyToken)
         else case clientKey r of (key, clientType) \<Rightarrow>
           case draw ops iter cfg now key (requestClass r) ps1 of
             (ps2, ok) \<Rightarrow> (ps2, if ok then Served else TooManyClient clientType))"

subsection \<open>Pools stay bounded\<close>

text \<open>An iteration visits every entry once.\<close>

definition iterates :: "('l pool \<Rightarrow> 'l pool) \<Rightarrow> bool" where
  "iterates iter \<longleftrightarrow> (\<forall>p. mset (iter p) = mset p)"

lemma oldest_in_sample:
  "fst old \<noteq> '''' \<or> xs \<noteq> [] \<Longrightarrow> '''' \<notin> fst ` set xs \<Longrightarrow>
   fst (fold evictStep xs old) \<noteq> '''' \<and> (fst (fold evictStep xs old) = fst old \<or> fst (fold evictStep xs old) \<in> fst ` set xs)"
proof (induction xs arbitrary: old)
  case (Cons x xs)
  have x: "fst x \<noteq> ''''" "'''' \<notin> fst ` set xs" using Cons.prems(2) by (auto simp: eq_commute)
  have "fst (evictStep x old) \<noteq> ''''" "fst (evictStep x old) \<in> {fst x, fst old}"
    using x(1) by (auto simp: evictStep_def split: prod.splits)
  with Cons.IH [of "evictStep x old"] x(2) show ?case by auto
qed simp

lemma filter_other: "x \<notin> fst ` set c \<Longrightarrow> filter (\<lambda>(k, _). k \<noteq> x) c = c"
  by (induction c) auto

lemma evict_shrinks:
  assumes "iterates iter" "cmap \<noteq> []" "'''' \<notin> fst ` set cmap" "distinct (map fst cmap)"
  shows "length (evictOldestSampled iter cmap) + 1 = length cmap"
proof -
  let ?s = "take rateLimitEvictSample (iter cmap)"
  have m: "mset (iter cmap) = mset cmap" using assms(1) by (simp add: iterates_def)
  then have set: "set (iter cmap) = set cmap" by (metis set_mset_mset)
  then have "iter cmap \<noteq> []" using assms(2) by auto
  then have "?s \<noteq> []" by (simp add: rateLimitEvictSample_def)
  moreover have sub: "set ?s \<subseteq> set cmap" using set set_take_subset by fastforce
  ultimately have k: "oldestSampled iter cmap \<noteq> ''''" "oldestSampled iter cmap \<in> fst ` set cmap"
    using oldest_in_sample [of "('''', 0)" ?s] assms(3) unfolding oldestSampled_def by auto
  have "length (filter (\<lambda>(k, _). k \<noteq> x) c) + 1 = length c" if "x \<in> fst ` set c" "distinct (map fst c)" for x and c :: "'a pool"
    using that
  proof (induction c)
    case (Cons y c)
    show ?case
    proof (cases "fst y = x")
      case True
      then have "filter (\<lambda>(k, _). k \<noteq> x) c = c" using Cons.prems(2) filter_other [of x c] by simp
      with True show ?thesis by (auto split: prod.splits)
    qed (use Cons in \<open>auto split: prod.splits\<close>)
  qed simp
  from this [OF k(2) assms(4)] show ?thesis using k(1) by (simp add: evictOldestSampled_def Let_def)
qed

definition pool_ok :: "'l pool \<Rightarrow> bool" where
  "pool_ok p \<longleftrightarrow> distinct (map fst p) \<and> '''' \<notin> fst ` set p \<and> length p \<le> maxRateLimitClients"

lemma map_fst_update: "map fst (map (\<lambda>(k, d). if k = key then (k, f d) else (k, d)) p) = map fst p"
  by (induction p) auto

lemma getLimiter_ok:
  assumes "iterates iter" "pool_ok p" "key \<noteq> ''''" "getLimiter ops iter cfg now key cls p = (p', l)"
  shows "pool_ok p'"
proof (cases "map_of p key")
  case (Some c)
  then have "map fst p' = map fst p" "length p' = length p" using assms(4) by (auto simp: getLimiter_def map_fst_update)
  then show ?thesis using assms(2) by (metis (no_types) image_set pool_ok_def)
next
  case None
  define q where "q = (if length p \<ge> maxRateLimitClients then evictOldestSampled iter p else p)"
  have p': "map fst p' = key # map fst q" using None assms(4) by (auto simp: getLimiter_def Let_def q_def split: prod.splits)
  have sub: "set q \<subseteq> set p" "distinct (map fst q)" using assms(2)
    by (auto simp: q_def evictOldestSampled_def Let_def pool_ok_def distinct_map_filter)
  have len: "length q < maxRateLimitClients"
  proof (cases "length p \<ge> maxRateLimitClients")
    case True
    then have "p \<noteq> []" by (auto simp: maxRateLimitClients_def)
    then show ?thesis using evict_shrinks [OF assms(1), of p] True assms(2) by (simp add: q_def pool_ok_def)
  qed (simp add: q_def)
  have k: "key \<notin> fst ` set q" using None sub(1) by (auto simp: map_of_eq_None_iff)
  have "distinct (map fst p')" "length p' \<le> maxRateLimitClients" "'''' \<notin> set (map fst p')"
    unfolding p' using sub k len assms(2,3) p' by (auto simp: pool_ok_def dest: arg_cong [of _ _ length])
  then show ?thesis by (simp add: pool_ok_def)
qed

lemma setLimiter_ok: "pool_ok (setLimiter key l p) = pool_ok p"
proof -
  have "map fst (setLimiter key l p) = map fst p" "length (setLimiter key l p) = length p"
    unfolding setLimiter_def by (rule map_fst_update, simp)
  then show ?thesis by (metis (no_types) image_set pool_ok_def)
qed

lemma draw_ok:
  assumes "iterates iter" "\<forall>c. pool_ok (ps c)" "key \<noteq> ''''"
  shows "pool_ok (fst (draw ops iter cfg now key cls ps) c)"
proof -
  obtain p l where g: "getLimiter ops iter cfg now key cls (ps cls) = (p, l)" by fastforce
  show ?thesis using getLimiter_ok [OF assms(1) _ assms(3) g] assms(2) g
    by (simp add: draw_def setLimiter_ok split: prod.splits)
qed

lemma request_ok:
  assumes "iterates iter" "\<forall>c. pool_ok (ps c)" "hr_RemoteAddr r \<noteq> ''''"
  shows "pool_ok (fst (RateLimiter ops iter cfg now r ps) c)"
proof -
  have key: "fst (clientKey r) \<noteq> ''''" using assms(3) by (simp add: clientKey_def Let_def)
  obtain ps1 ok1 where d: "(if shareToken r \<noteq> '''' then draw ops iter cfg now (shareToken r) classToken ps else (ps, True)) = (ps1, ok1)" by fastforce
  have 1: "\<forall>c. pool_ok (ps1 c)"
  proof (cases "shareToken r = ''''")
    case False
    then show ?thesis using d draw_ok [OF assms(1) assms(2) False, of ops cfg now classToken] by simp
  qed (use d assms(2) in simp)
  obtain ps2 ok2 where d2: "draw ops iter cfg now (fst (clientKey r)) (requestClass r) ps1 = (ps2, ok2)" by fastforce
  have 2: "pool_ok (ps2 c)" using draw_ok [OF assms(1) 1 key, of ops cfg now "requestClass r" c] d2 by simp
  have "fst (RateLimiter ops iter cfg now r ps) \<in> {ps, ps1, ps2}"
    using d d2 by (auto simp: RateLimiter_def Let_def split: prod.splits if_splits)
  with assms(2) 1 2 show ?thesis by auto
qed

datatype rl_event = Request time http_request | Sweep time

fun rl_do :: "'l limiter_ops \<Rightarrow> ('l pool \<Rightarrow> 'l pool) \<Rightarrow> RateLimitConfig \<Rightarrow> rl_event \<Rightarrow> 'l pools \<Rightarrow> 'l pools" where
  "rl_do ops iter cfg (Request now r) ps = fst (RateLimiter ops iter cfg now r ps)"
| "rl_do ops iter cfg (Sweep now) ps = (\<lambda>c. sweep now (ps c))"

fun has_address :: "rl_event \<Rightarrow> bool" where
  "has_address (Request now r) \<longleftrightarrow> hr_RemoteAddr r \<noteq> ''''"
| "has_address (Sweep now) \<longleftrightarrow> True"

lemma sweep_ok: "pool_ok p \<Longrightarrow> pool_ok (sweep now p)"
  using length_filter_le [of "\<lambda>(_, c). \<not> now - cl_lastSeen c > 10 * minute" p]
  by (auto simp: pool_ok_def sweep_def distinct_map_filter simp del: length_filter_le)

text \<open>The memory of the rate limiter is bounded: whatever clients come, and however Go orders its maps, no pool ever holds more than 50000
  buckets, with one bucket per client.
\<close>

theorem rate_limit_pools_bounded:
  assumes "iterates iter" "list_all has_address events"
  shows "pool_ok (fold (rl_do ops iter cfg) events (\<lambda>_. []) cls)"
proof -
  have "pool_ok (fold (rl_do ops iter cfg) events ps cls)" if "\<forall>c. pool_ok (ps c)" for ps
    using that assms(2)
  proof (induction events arbitrary: ps)
    case (Cons e events)
    have "\<forall>c. pool_ok (rl_do ops iter cfg e ps c)"
    proof (cases e)
      case (Request now r)
      then show ?thesis using Cons.prems(2) request_ok [OF assms(1) Cons.prems(1)] by simp
    next
      case (Sweep now)
      then show ?thesis using Cons.prems(1) by (simp add: sweep_ok)
    qed
    with Cons show ?case by simp
  qed simp
  from this [of "\<lambda>_. []"] show ?thesis by (simp add: pool_ok_def [of "[]"])
qed

subsection \<open>Clients do not share buckets\<close>

fun own_answers :: "'l limiter_ops \<Rightarrow> 'l \<Rightarrow> time list \<Rightarrow> bool list" where
  "own_answers ops l [] = []"
| "own_answers ops l (t # ts) = (case lim_allow ops t l of (l', ok) \<Rightarrow> ok # own_answers ops l' ts)"

fun pool_answers :: "'l limiter_ops \<Rightarrow> ('l pool \<Rightarrow> 'l pool) \<Rightarrow> RateLimitConfig \<Rightarrow> limiterClass \<Rightarrow> 'l pools \<Rightarrow> (time \<times> string) list \<Rightarrow> (string \<times> bool) list" where
  "pool_answers ops iter cfg cls ps [] = []"
| "pool_answers ops iter cfg cls ps ((t, k) # ds) =
     (case draw ops iter cfg t k cls ps of (ps', ok) \<Rightarrow> (k, ok) # pool_answers ops iter cfg cls ps' ds)"

definition bucket :: "'l limiter_ops \<Rightarrow> RateLimitConfig \<Rightarrow> limiterClass \<Rightarrow> 'l pool \<Rightarrow> string \<Rightarrow> 'l" where
  "bucket ops cfg cls p k = (case map_of p k of Some c \<Rightarrow> cl_limiter c | None \<Rightarrow> (case limits cfg cls of (r, b) \<Rightarrow> lim_new ops r b))"

lemma map_of_update: "map_of (map (\<lambda>(k, d). if k = key then (k, f d) else (k, d)) p) k = (if k = key then map_option f (map_of p k) else map_of p k)"
  by (induction p) auto

lemma draw_bucket:
  assumes "map_of (ps cls) key = None \<Longrightarrow> length (ps cls) < maxRateLimitClients" "draw ops iter cfg t key cls ps = (ps', ok)"
  shows "ok = snd (lim_allow ops t (bucket ops cfg cls (ps cls) key))"
    "bucket ops cfg cls (ps' cls) k = (if k = key then fst (lim_allow ops t (bucket ops cfg cls (ps cls) key)) else bucket ops cfg cls (ps cls) k)"
    "fst ` set (ps' cls) = insert key (fst ` set (ps cls))" "distinct (map fst (ps cls)) \<Longrightarrow> distinct (map fst (ps' cls))"
proof -
  obtain p l where g: "getLimiter ops iter cfg t key cls (ps cls) = (p, l)" by fastforce
  obtain l' ok' where a: "lim_allow ops t l = (l', ok')" by fastforce
  have ps': "ps' cls = setLimiter key l' p" "ok = ok'" using assms(2) g a by (auto simp: draw_def)
  have "l = bucket ops cfg cls (ps cls) key \<and> map_of p key \<noteq> None \<and> (\<forall>k. k \<noteq> key \<longrightarrow> map_of p k = map_of (ps cls) k) \<and>
    fst ` set p = insert key (fst ` set (ps cls)) \<and> (distinct (map fst (ps cls)) \<longrightarrow> distinct (map fst p))"
  proof (cases "map_of (ps cls) key")
    case (Some c)
    then have p: "p = map (\<lambda>(k, d). if k = key then (k, d\<lparr>cl_lastSeen := t\<rparr>) else (k, d)) (ps cls)" "l = cl_limiter c"
      using g by (auto simp: getLimiter_def)
    have f: "fst ` set p = fst ` set (ps cls)" "map fst p = map fst (ps cls)"
      using map_fst_update [of key "\<lambda>d. d\<lparr>cl_lastSeen := t\<rparr>" "ps cls"] unfolding p(1) by (metis image_set, simp)
    have "key \<in> fst ` set (ps cls)" using Some by (metis map_of_eq_None_iff option.distinct(1))
    then have k: "insert key (fst ` set (ps cls)) = fst ` set (ps cls)" by (rule insert_absorb)
    have m: "map_of p k = (if k = key then map_option (\<lambda>d. d\<lparr>cl_lastSeen := t\<rparr>) (map_of (ps cls) k) else map_of (ps cls) k)" for k
      unfolding p(1) by (rule map_of_update)
    have "l = bucket ops cfg cls (ps cls) key" using Some p(2) by (simp add: bucket_def)
    then show ?thesis unfolding k f(1) f(2) using m Some by simp
  next
    case None
    then have "p = (key, \<lparr>cl_limiter = l, cl_lastSeen = t\<rparr>) # ps cls" "l = bucket ops cfg cls (ps cls) key"
      using g assms(1) by (auto simp: getLimiter_def bucket_def Let_def)
    then show ?thesis using None by (auto simp: map_of_eq_None_iff)
  qed
  note P = this
  have f: "map fst (ps' cls) = map fst p" unfolding ps' setLimiter_def by (rule map_fst_update)
  show "ok = snd (lim_allow ops t (bucket ops cfg cls (ps cls) key))" using P a ps'(2) by auto
  show "bucket ops cfg cls (ps' cls) k = (if k = key then fst (lim_allow ops t (bucket ops cfg cls (ps cls) key)) else bucket ops cfg cls (ps cls) k)"
    using P a by (auto simp: ps' setLimiter_def bucket_def map_of_update)
  show "fst ` set (ps' cls) = insert key (fst ` set (ps cls))" using P f by (metis image_set)
  show "distinct (map fst (ps cls)) \<Longrightarrow> distinct (map fst (ps' cls))" using P f by simp
qed

text \<open>Clients are limited independently: as long as a pool has room for all clients that come, the answers one client gets are those of
  a bucket of its own, fed with its own requests only.
\<close>

theorem clients_are_limited_independently:
  assumes "distinct (map fst (ps cls))" "card (fst ` set (ps cls) \<union> snd ` set ds) \<le> maxRateLimitClients"
  shows "map snd (filter (\<lambda>a. fst a = k) (pool_answers ops iter cfg cls ps ds)) =
    own_answers ops (bucket ops cfg cls (ps cls) k) (map fst (filter (\<lambda>d. snd d = k) ds))"
  using assms
proof (induction ds arbitrary: ps)
  case (Cons d ds)
  obtain t key where d: "d = (t, key)" by fastforce
  obtain ps' ok where dr: "draw ops iter cfg t key cls ps = (ps', ok)" by fastforce
  have room: "length (ps cls) < maxRateLimitClients" if "map_of (ps cls) key = None"
  proof -
    have "key \<notin> fst ` set (ps cls)" using that by (simp add: map_of_eq_None_iff)
    then have "card (insert key (fst ` set (ps cls))) = length (ps cls) + 1"
      using Cons.prems(1) by (simp add: distinct_card [of "map fst (ps cls)", simplified])
    moreover have "card (insert key (fst ` set (ps cls))) \<le> card (fst ` set (ps cls) \<union> snd ` set (d # ds))"
      using d by (intro card_mono) auto
    ultimately show ?thesis using Cons.prems(2) by simp
  qed
  note B = draw_bucket [OF room dr]
  have "card (fst ` set (ps' cls) \<union> snd ` set ds) \<le> maxRateLimitClients"
    using Cons.prems(2) d B(3) by (simp add: insert_commute)
  then have IH: "map snd (filter (\<lambda>a. fst a = k) (pool_answers ops iter cfg cls ps' ds)) =
    own_answers ops (bucket ops cfg cls (ps' cls) k) (map fst (filter (\<lambda>d. snd d = k) ds))"
    using Cons.IH [of ps'] B(4) Cons.prems(1) by blast
  show ?case using IH d dr B(1) B(2) [of k] by (simp add: split_beta)
qed simp

text \<open>The write budget and the general budget are apart: a write is not charged to the general pool, and the other way round.\<close>

lemma budgets_apart:
  "requestClass r = classWrite \<Longrightarrow> fst (RateLimiter ops iter cfg now r ps) classGeneral = ps classGeneral"
  "requestClass r = classGeneral \<Longrightarrow> fst (RateLimiter ops iter cfg now r ps) classWrite = ps classWrite"
  by (auto simp: RateLimiter_def draw_def Let_def split: prod.splits if_splits)

subsection \<open>Examples\<close>

text \<open>A bucket that only counts down.\<close>

definition counting :: "int limiter_ops" where
  "counting = \<lparr>lim_new = (\<lambda>r b. b), lim_allow = (\<lambda>t l. if l > 0 then (l - 1, True) else (l, False))\<rparr>"

definition tight :: RateLimitConfig where
  "tight = \<lparr>rl_RequestsPerSecond = 1, rl_Burst = 1, rl_WriteRequestsPerSecond = 0, rl_WriteBurst = 0\<rparr>"

theorem rate_limit_pools_bounded_witness:
  "pool_ok (fold (rl_do counting (\<lambda>p. p) tight)
     [Request 0 \<lparr>hr_Path = ''/v1/apps'', hr_Method = ''GET'', hr_UserID = ''u'', hr_RemoteAddr = ''10.0.0.1:99''\<rparr>, Sweep 1] (\<lambda>_. []) classGeneral)"
  by (rule rate_limit_pools_bounded) (simp_all add: iterates_def)

theorem clients_are_limited_independently_witness:
  "map snd (filter (\<lambda>a. fst a = ''u'') (pool_answers counting (\<lambda>p. p) tight classGeneral (\<lambda>_. []) [(0, ''u''), (1, ''v''), (2, ''u'')])) = [True, False]"
proof -
  have "card {''u'', ''v'', ''u''} \<le> maxRateLimitClients" by (simp add: maxRateLimitClients_def card_insert_if)
  moreover have "own_answers counting (bucket counting tight classGeneral [] ''u'') [0, 2] = [True, False]"
    by (simp add: bucket_def counting_def tight_def limits_def)
  ultimately show ?thesis
    using clients_are_limited_independently [of "\<lambda>_. []" classGeneral "[(0, ''u''), (1, ''v''), (2, ''u'')]" "''u''" counting "\<lambda>p. p" tight]
    by (simp del: pool_answers.simps own_answers.simps)
qed

end
