(* ===== verification/Events.thy ===== *)
theory Events
  imports Kube "HOL-Library.Word"
begin

section \<open>Lifecycle events\<close>

text \<open>
  \<open>src/internal/events/bus.go\<close> fans events out to subscribers with bounded buffers; \<open>src/pkg/server/eventbridge.go\<close> turns what it watches
  of the apps into events.  The bus is used by many goroutines, so it
  is a step relation: a publisher holds the read lock while it offers its event to one channel after the other, subscribing and
  unsubscribing need the write lock, and a channel is closed after the lock is given back.
\<close>

subsection \<open>The bus\<close>

datatype EventType = ArtifactStatusChanged | ArtifactDeleted

text \<open>An event without its time stamp and its cached encoding; \<open>Error\<close> is never set by the publishers here.\<close>

record Event =
  ev_ID :: string
  ev_Type :: EventType
  ev_ArtifactID :: string
  ev_Name :: string
  ev_OwnerID :: string
  ev_Status :: string
  ev_Phase :: string
  ev_URL :: string
  ev_Template :: string

definition subscriberBufferSize :: nat where
  "subscriberBufferSize = 64"

text \<open>The life of a subscription: in the map, deleted from it (by the one call of \<open>once.Do\<close>), its channel closed.\<close>

datatype sub_phase = Subscribed | Deleted | Closed

record sub =
  sb_phase :: sub_phase
  sb_buf :: "Event list"

text \<open>Subscription ids are taken as unbounded (they are 64 bits wide and count the subscriptions of one process);
  \<open>eb_numbered\<close> holds the publishers between taking a number and taking the lock, \<open>eb_sending\<close> those that hold the read lock with
  the channels they have still to offer to.\<close>

record EventBus =
  eb_subs :: "nat \<rightharpoonup> sub"
  eb_nextSubID :: nat
  eb_eventSeq :: "64 word"
  eb_numbered :: "Event list"
  eb_sending :: "(Event \<times> nat set) list"
  eb_panicked :: bool

definition NewEventBus :: EventBus where
  "NewEventBus = \<lparr>eb_subs = Map.empty, eb_nextSubID = 0, eb_eventSeq = 0, eb_numbered = [], eb_sending = [], eb_panicked = False\<rparr>"

text \<open>\<open>Publish\<close>, in the order it does things: the number, the read lock (the subscribers are then fixed), one offer per channel.
  An offer to a closed channel panics; one to a full channel is dropped.\<close>

definition publishNumber :: "Event \<Rightarrow> EventBus \<Rightarrow> EventBus" where
  "publishNumber e b =
     (let seq = eb_eventSeq b + 1 in
      b\<lparr>eb_eventSeq := seq, eb_numbered := eb_numbered b @ [e\<lparr>ev_ID := Itoa (uint seq)\<rparr>]\<rparr>)"

definition active :: "EventBus \<Rightarrow> nat set" where
  "active b = {i. \<exists>s. eb_subs b i = Some s \<and> sb_phase s = Subscribed}"

definition publishLock :: "nat \<Rightarrow> EventBus \<Rightarrow> EventBus" where
  "publishLock n b =
     b\<lparr>eb_numbered := take n (eb_numbered b) @ drop (n + 1) (eb_numbered b),
       eb_sending := eb_sending b @ [(eb_numbered b ! n, active b)]\<rparr>"

definition offer :: "Event \<Rightarrow> sub \<Rightarrow> sub option" where
  "offer e s =
     (if sb_phase s = Closed then None
      else if length (sb_buf s) < subscriberBufferSize then Some (s\<lparr>sb_buf := sb_buf s @ [e]\<rparr>) else Some s)"

definition publishSend :: "nat \<Rightarrow> nat \<Rightarrow> EventBus \<Rightarrow> EventBus" where
  "publishSend n i b =
     (case eb_sending b ! n of (e, rest) \<Rightarrow>
      case eb_subs b i of
        None \<Rightarrow> b
      | Some s \<Rightarrow>
          (case offer e s of
             None \<Rightarrow> b\<lparr>eb_panicked := True\<rparr>
           | Some s' \<Rightarrow> b\<lparr>eb_subs := (eb_subs b)(i \<mapsto> s'), eb_sending := (eb_sending b)[n := (e, rest - {i})]\<rparr>))"

definition publishUnlock :: "nat \<Rightarrow> EventBus \<Rightarrow> EventBus" where
  "publishUnlock n b = b\<lparr>eb_sending := take n (eb_sending b) @ drop (n + 1) (eb_sending b)\<rparr>"

definition Subscribe :: "EventBus \<Rightarrow> EventBus" where
  "Subscribe b =
     b\<lparr>eb_subs := (eb_subs b)(eb_nextSubID b \<mapsto> \<lparr>sb_phase = Subscribed, sb_buf = []\<rparr>), eb_nextSubID := eb_nextSubID b + 1\<rparr>"

text \<open>\<open>unsub\<close>: \<open>once.Do\<close> lets one caller delete the subscription and then close the channel.\<close>

definition unsubDelete :: "nat \<Rightarrow> EventBus \<Rightarrow> EventBus" where
  "unsubDelete i b = b\<lparr>eb_subs := (eb_subs b)(i := map_option (sb_phase_update (\<lambda>_. Deleted)) (eb_subs b i))\<rparr>"

definition unsubClose :: "nat \<Rightarrow> EventBus \<Rightarrow> EventBus" where
  "unsubClose i b = b\<lparr>eb_subs := (eb_subs b)(i := map_option (sb_phase_update (\<lambda>_. Closed)) (eb_subs b i))\<rparr>"

definition receive :: "nat \<Rightarrow> EventBus \<Rightarrow> EventBus" where
  "receive i b = b\<lparr>eb_subs := (eb_subs b)(i := map_option (sb_buf_update tl) (eb_subs b i))\<rparr>"

inductive bus_step :: "EventBus \<Rightarrow> EventBus \<Rightarrow> bool" where
  number: "bus_step b (publishNumber e b)"
| rlock: "n < length (eb_numbered b) \<Longrightarrow> bus_step b (publishLock n b)"
| send: "n < length (eb_sending b) \<Longrightarrow> i \<in> snd (eb_sending b ! n) \<Longrightarrow> bus_step b (publishSend n i b)"
| runlock: "n < length (eb_sending b) \<Longrightarrow> snd (eb_sending b ! n) = {} \<Longrightarrow> bus_step b (publishUnlock n b)"
| subscribe: "eb_sending b = [] \<Longrightarrow> bus_step b (Subscribe b)"
| delete: "eb_sending b = [] \<Longrightarrow> i \<in> active b \<Longrightarrow> bus_step b (unsubDelete i b)"
| close: "eb_subs b i = Some s \<Longrightarrow> sb_phase s = Deleted \<Longrightarrow> bus_step b (unsubClose i b)"
| recv: "eb_subs b i = Some s \<Longrightarrow> sb_buf s \<noteq> [] \<Longrightarrow> bus_step b (receive i b)"

definition bus_inv :: "EventBus \<Rightarrow> bool" where
  "bus_inv b \<longleftrightarrow> \<not> eb_panicked b \<and>
     (\<forall>e rest. (e, rest) \<in> set (eb_sending b) \<longrightarrow> rest \<subseteq> active b) \<and>
     (\<forall>i s. eb_subs b i = Some s \<longrightarrow> length (sb_buf s) \<le> subscriberBufferSize)"

lemma bus_invI:
  assumes "\<not> eb_panicked b" "\<And>e rest. (e, rest) \<in> set (eb_sending b) \<Longrightarrow> rest \<subseteq> active b"
    "\<And>i s. eb_subs b i = Some s \<Longrightarrow> length (sb_buf s) \<le> subscriberBufferSize"
  shows "bus_inv b"
  using assms unfolding bus_inv_def by blast

lemma bus_invD:
  assumes "bus_inv b"
  shows "\<not> eb_panicked b" "(e, rest) \<in> set (eb_sending b) \<Longrightarrow> rest \<subseteq> active b"
    "eb_subs b i = Some s \<Longrightarrow> length (sb_buf s) \<le> subscriberBufferSize"
  using assms unfolding bus_inv_def by blast+

lemma send_inv:
  assumes "bus_inv b" "n < length (eb_sending b)" "i \<in> snd (eb_sending b ! n)"
  shows "bus_inv (publishSend n i b)"
proof -
  note D = bus_invD [OF assms(1)]
  obtain e rest where er: "eb_sending b ! n = (e, rest)" by fastforce
  then have mem: "(e, rest) \<in> set (eb_sending b)" using assms(2) nth_mem by metis
  have "i \<in> active b" using D(2) [OF mem] assms(3) er by auto
  then obtain s where s: "eb_subs b i = Some s" "sb_phase s = Subscribed" by (auto simp: active_def)
  obtain s' where s': "offer e s = Some s'" "sb_phase s' = Subscribed" "length (sb_buf s') \<le> subscriberBufferSize"
    using s D(3) [OF s(1)] by (cases "length (sb_buf s) < subscriberBufferSize") (simp_all add: offer_def)
  let ?b = "b\<lparr>eb_subs := (eb_subs b)(i \<mapsto> s'), eb_sending := (eb_sending b)[n := (e, rest - {i})]\<rparr>"
  have act: "active ?b = active b" using s s' by (auto simp: active_def)
  have "bus_inv ?b"
  proof (rule bus_invI)
    fix f r assume "(f, r) \<in> set (eb_sending ?b)"
    then have "(f, r) \<in> insert (e, rest - {i}) (set (eb_sending b))" using set_update_subset_insert by fastforce
    then have "r \<subseteq> active b" using D(2) mem by blast
    then show "r \<subseteq> active ?b" using act by simp
  next
    fix j t assume "eb_subs ?b j = Some t"
    then show "length (sb_buf t) \<le> subscriberBufferSize" using s'(3) D(3) by (cases "j = i") auto
  qed (use D(1) in simp)
  then show ?thesis using er s s'(1) by (simp add: publishSend_def)
qed

lemma phase_inv:
  assumes "bus_inv b" "\<And>e rest. (e, rest) \<in> set (eb_sending b) \<Longrightarrow> i \<notin> rest"
  shows "bus_inv (b\<lparr>eb_subs := (eb_subs b)(i := map_option (sb_phase_update f) (eb_subs b i))\<rparr>)"
proof -
  note D = bus_invD [OF assms(1)]
  let ?b = "b\<lparr>eb_subs := (eb_subs b)(i := map_option (sb_phase_update f) (eb_subs b i))\<rparr>"
  have act: "active b - {i} \<subseteq> active ?b" by (auto simp: active_def)
  show ?thesis
  proof (rule bus_invI)
    fix e rest assume "(e, rest) \<in> set (eb_sending ?b)"
    then have "rest \<subseteq> active b - {i}" using D(2) assms(2) by fastforce
    then show "rest \<subseteq> active ?b" using act by blast
  next
    fix j s assume "eb_subs ?b j = Some s"
    then show "length (sb_buf s) \<le> subscriberBufferSize" using D(3) by (cases "j = i") auto
  qed (use D(1) in simp)
qed

lemma bus_step_inv: "bus_step b b' \<Longrightarrow> bus_inv b \<Longrightarrow> bus_inv b'"
proof (induction rule: bus_step.induct)
  case (number b e)
  then show ?case by (simp add: bus_inv_def publishNumber_def Let_def active_def)
next
  case (rlock n b)
  note D = bus_invD [OF rlock(2)]
  have act: "active (publishLock n b) = active b" by (simp add: active_def publishLock_def)
  show ?case
  proof (rule bus_invI)
    fix e rest assume "(e, rest) \<in> set (eb_sending (publishLock n b))"
    then have "(e, rest) \<in> set (eb_sending b) \<or> rest = active b" by (auto simp: publishLock_def)
    then show "rest \<subseteq> active (publishLock n b)" unfolding act using D(2) by blast
  qed (use D(1,3) in \<open>auto simp: publishLock_def\<close>)
next
  case (send n b i)
  then show ?case by (intro send_inv)
next
  case (runlock n b)
  note D = bus_invD [OF runlock(3)]
  show ?case
  proof (rule bus_invI)
    fix e rest assume "(e, rest) \<in> set (eb_sending (publishUnlock n b))"
    then have "(e, rest) \<in> set (eb_sending b)" by (auto simp: publishUnlock_def dest: in_set_takeD in_set_dropD)
    then show "rest \<subseteq> active (publishUnlock n b)" using D(2) by (auto simp: publishUnlock_def active_def)
  qed (use D(1,3) in \<open>auto simp: publishUnlock_def\<close>)
next
  case (subscribe b)
  note D = bus_invD [OF subscribe(2)]
  show ?case
  proof (rule bus_invI)
    fix j s assume "eb_subs (Subscribe b) j = Some s"
    then show "length (sb_buf s) \<le> subscriberBufferSize" using D(3) by (cases "j = eb_nextSubID b") (auto simp: Subscribe_def)
  qed (use D(1) subscribe(1) in \<open>auto simp: Subscribe_def\<close>)
next
  case (delete b i)
  then show ?case unfolding unsubDelete_def by (intro phase_inv) simp_all
next
  case (close b i s)
  have "i \<notin> active b" using close(1,2) by (auto simp: active_def)
  then have "i \<notin> rest" if "(e, rest) \<in> set (eb_sending b)" for e rest using bus_invD(2) [OF close(3) that] by blast
  then show ?case unfolding unsubClose_def using close(3) by (intro phase_inv)
next
  case (recv b i s)
  note D = bus_invD [OF recv(3)]
  have act: "active (receive i b) = active b" by (auto simp: active_def receive_def)
  show ?case
  proof (rule bus_invI)
    fix j t assume "eb_subs (receive i b) j = Some t"
    then show "length (sb_buf t) \<le> subscriberBufferSize" using D(3) [of j] D(3) [OF recv(1)] recv(1)
      by (cases "j = i") (auto simp: receive_def)
  qed (use D(1,2) act in \<open>auto simp: receive_def\<close>)
qed

text \<open>C29: However publishers, subscribers and unsubscribers interleave, no event is ever sent on a closed channel (which would panic), and no
  subscriber's buffer outgrows its 64 places.
\<close>

theorem bus_never_sends_on_closed_channel:
  assumes "bus_step\<^sup>*\<^sup>* NewEventBus b"
  shows "\<not> eb_panicked b \<and> (\<forall>i s. eb_subs b i = Some s \<longrightarrow> length (sb_buf s) \<le> subscriberBufferSize)"
proof -
  have "bus_inv b" using assms
  proof (induction rule: rtranclp_induct)
    case base
    show ?case by (simp add: bus_inv_def NewEventBus_def)
  next
    case (step b b')
    then show ?case using bus_step_inv by blast
  qed
  then show ?thesis unfolding bus_inv_def by blast
qed

theorem bus_never_sends_on_closed_channel_witness:
  "bus_step\<^sup>*\<^sup>* NewEventBus (Subscribe NewEventBus) \<and> \<not> eb_panicked (Subscribe NewEventBus)"
proof -
  have "bus_step\<^sup>*\<^sup>* NewEventBus (Subscribe NewEventBus)" by (intro r_into_rtranclp bus_step.subscribe) (simp add: NewEventBus_def)
  with bus_never_sends_on_closed_channel [OF this] show ?thesis by blast
qed

subsection \<open>The bridge\<close>

definition phase_string :: "Phase \<Rightarrow> string" where
  "phase_string p = (case p of
      PhaseEmpty \<Rightarrow> '''' | PhasePending \<Rightarrow> ''Pending'' | PhaseClaiming \<Rightarrow> ''Claiming'' | PhaseStarting \<Rightarrow> ''Starting''
    | PhaseReady \<Rightarrow> ''Ready'' | PhaseSuspended \<Rightarrow> ''Suspended'' | PhaseFailed \<Rightarrow> ''Failed'' | PhaseOther s \<Rightarrow> s)"

record bridgeState =
  bs_name :: string
  bs_owner :: string
  bs_phase :: Phase
  bs_url :: string

type_synonym bridge_last = "(string \<times> bridgeState) list"

text \<open>The event a publication hands to the bus (which numbers it).\<close>

definition deleteEvent :: "string \<Rightarrow> string \<Rightarrow> Event" where
  "deleteEvent i owner =
     \<lparr>ev_ID = '''', ev_Type = ArtifactDeleted, ev_ArtifactID = i, ev_Name = '''', ev_OwnerID = owner, ev_Status = '''', ev_Phase = '''',
      ev_URL = '''', ev_Template = ''''\<rparr>"

definition statusEvent :: "VibedApp \<Rightarrow> Event" where
  "statusEvent app =
     \<lparr>ev_ID = '''', ev_Type = ArtifactStatusChanged, ev_ArtifactID = app_Name app, ev_Name = app_Name app,
      ev_OwnerID = spec_Owner (app_Spec app), ev_Status = status_string (StatusFromPhase (st_Phase (app_Status app))),
      ev_Phase = phase_string (st_Phase (app_Status app)), ev_URL = st_URL (app_Status app), ev_Template = rt_Template (spec_Runtime (app_Spec app))\<rparr>"

definition stateOf :: "VibedApp \<Rightarrow> bridgeState" where
  "stateOf app = \<lparr>bs_name = app_Name app, bs_owner = spec_Owner (app_Spec app), bs_phase = st_Phase (app_Status app), bs_url = st_URL (app_Status app)\<rparr>"

lemma stateOf_simps [simp]:
  "bs_name (stateOf a) = app_Name a" "bs_phase (stateOf a) = st_Phase (app_Status a)" "bs_url (stateOf a) = st_URL (app_Status a)"
  by (simp_all add: stateOf_def)

type_synonym bridge = "bridge_last \<times> Event list"

definition last_put :: "string \<Rightarrow> bridgeState \<Rightarrow> bridge_last \<Rightarrow> bridge_last" where
  "last_put uid st m = (uid, st) # filter (\<lambda>(u, _). u \<noteq> uid) m"

definition publishStatus :: "VibedApp \<Rightarrow> bridge \<Rightarrow> bridge" where
  "publishStatus app b =
     (case b of (seen, out) \<Rightarrow>
      if map_of seen (app_UID app) = Some (stateOf app) then b
      else (last_put (app_UID app) (stateOf app) seen, out @ [statusEvent app]))"

definition publishDelete :: "string \<Rightarrow> string \<Rightarrow> bridge \<Rightarrow> bridge" where
  "publishDelete i owner b = (fst b, snd b @ [deleteEvent i owner])"

text \<open>\<open>sync\<close>: first the apps that are gone, in the order the map is visited, then the listed ones.\<close>

definition bridge_sync :: "VibedApp list \<Rightarrow> bridge \<Rightarrow> bridge" where
  "bridge_sync items b =
     (let present = set (map app_UID items);
          gone = filter (\<lambda>(uid, _). uid \<notin> present) (fst b);
          b1 = (filter (\<lambda>(uid, _). uid \<in> present) (fst b), snd b);
          b2 = fold (\<lambda>(_, prev). publishDelete (bs_name prev) (bs_owner prev)) gone b1
      in fold publishStatus items b2)"

datatype watch_event = WatchAdded VibedApp | WatchModified VibedApp | WatchDeleted VibedApp | WatchOther

definition bridge_handle :: "watch_event \<Rightarrow> bridge \<Rightarrow> bridge" where
  "bridge_handle ev b =
     (case ev of
        WatchOther \<Rightarrow> b
      | WatchDeleted app \<Rightarrow>
          publishDelete (app_Name app) (spec_Owner (app_Spec app)) (filter (\<lambda>(u, _). u \<noteq> app_UID app) (fst b), snd b)
      | WatchAdded app \<Rightarrow> publishStatus app b
      | WatchModified app \<Rightarrow> publishStatus app b)"

text \<open>The reconnect delay: doubled up to 30 seconds, back to one second once a watch was established.\<close>

definition bridgeBackoff :: "bool \<Rightarrow> duration \<Rightarrow> duration" where
  "bridgeBackoff established backoff =
     (let backoff = 2 * (if established then second else backoff) in if backoff > 30 * second then 30 * second else backoff)"

subsection \<open>What a dashboard shows\<close>

text \<open>A dashboard keeps the last event per app id.\<close>

definition show_event :: "Event \<Rightarrow> (string \<rightharpoonup> string \<times> string) \<Rightarrow> (string \<rightharpoonup> string \<times> string)" where
  "show_event e v = (case ev_Type e of ArtifactDeleted \<Rightarrow> v(ev_ArtifactID e := None)
     | ArtifactStatusChanged \<Rightarrow> v(ev_ArtifactID e \<mapsto> (ev_Phase e, ev_URL e)))"

definition shown :: "Event list \<Rightarrow> (string \<rightharpoonup> string \<times> string)" where
  "shown es = fold show_event es Map.empty"

text \<open>The dashboard shows just the apps the bridge remembers, which all have different names.\<close>

definition tracks :: "(string \<rightharpoonup> bridgeState) \<Rightarrow> (string \<rightharpoonup> string \<times> string) \<Rightarrow> bool" where
  "tracks m v \<longleftrightarrow>
     (\<forall>u u' st st'. m u = Some st \<and> m u' = Some st' \<and> bs_name st = bs_name st' \<longrightarrow> u = u') \<and>
     (\<forall>n x. v n = Some x \<longleftrightarrow> (\<exists>u st. m u = Some st \<and> bs_name st = n \<and> x = (phase_string (bs_phase st), bs_url st)))"

lemma tracksD:
  assumes "tracks m v"
  shows "m u = Some st \<Longrightarrow> m u' = Some st' \<Longrightarrow> bs_name st = bs_name st' \<Longrightarrow> u = u'"
    "v n = Some x \<longleftrightarrow> (\<exists>u st. m u = Some st \<and> bs_name st = n \<and> x = (phase_string (bs_phase st), bs_url st))"
  using assms unfolding tracks_def by blast+

lemma tracks_delete:
  assumes "tracks m v"
  shows "tracks (m |` S) (\<lambda>n. if \<exists>u st. m u = Some st \<and> u \<notin> S \<and> bs_name st = n then None else v n)"
proof -
  note D = tracksD [OF assms]
  have "(if \<exists>u st. m u = Some st \<and> u \<notin> S \<and> bs_name st = n then None else v n) = Some x \<longleftrightarrow>
      (\<exists>u st. (m |` S) u = Some st \<and> bs_name st = n \<and> x = (phase_string (bs_phase st), bs_url st))" for n x
  proof (cases "\<exists>u st. m u = Some st \<and> u \<notin> S \<and> bs_name st = n")
    case True
    then obtain u st where u: "m u = Some st" "u \<notin> S" "bs_name st = n" by blast
    have "u' \<notin> S" if "m u' = Some st'" "bs_name st' = n" for u' st' using D(1) [OF u(1) that(1)] u that(2) by simp
    then show ?thesis using True by (auto simp: restrict_map_def split: if_splits)
  next
    case False
    then have "(m |` S) u = Some st \<and> bs_name st = n \<longleftrightarrow> m u = Some st \<and> bs_name st = n" for u st
      by (auto simp: restrict_map_def)
    then have "(\<exists>u st. (m |` S) u = Some st \<and> bs_name st = n \<and> x = (phase_string (bs_phase st), bs_url st)) \<longleftrightarrow> v n = Some x"
      unfolding D(2) by metis
    then show ?thesis unfolding if_not_P [OF False] by blast
  qed
  moreover have "(m |` S) u = Some st \<Longrightarrow> (m |` S) u' = Some st' \<Longrightarrow> bs_name st = bs_name st' \<Longrightarrow> u = u'" for u u' st st'
    using D(1) by (auto simp: restrict_map_def split: if_splits)
  ultimately show ?thesis unfolding tracks_def by blast
qed

lemma tracks_put:
  assumes "tracks m v" "\<And>u t. m u = Some t \<Longrightarrow> bs_name t = bs_name st \<longleftrightarrow> u = uid"
  shows "tracks (m(uid \<mapsto> st)) (v(bs_name st \<mapsto> (phase_string (bs_phase st), bs_url st)))"
proof -
  note D = tracksD [OF assms(1)]
  have "(v(bs_name st \<mapsto> (phase_string (bs_phase st), bs_url st))) n = Some x \<longleftrightarrow>
      (\<exists>u t. (m(uid \<mapsto> st)) u = Some t \<and> bs_name t = n \<and> x = (phase_string (bs_phase t), bs_url t))" for n x
  proof (cases "n = bs_name st")
    case True
    then have "(\<exists>u t. (m(uid \<mapsto> st)) u = Some t \<and> bs_name t = n \<and> x = (phase_string (bs_phase t), bs_url t)) \<longleftrightarrow> x = (phase_string (bs_phase st), bs_url st)"
      using assms(2) by (auto split: if_splits)
    then show ?thesis using True by auto
  next
    case False
    then have "(m(uid \<mapsto> st)) u = Some t \<and> bs_name t = n \<longleftrightarrow> m u = Some t \<and> bs_name t = n" for u t
      using assms(2) [of u t] by (auto split: if_splits)
    then have "(\<exists>u t. (m(uid \<mapsto> st)) u = Some t \<and> bs_name t = n \<and> x = (phase_string (bs_phase t), bs_url t)) \<longleftrightarrow> v n = Some x"
      unfolding D(2) by metis
    then show ?thesis using False by simp
  qed
  moreover have "(m(uid \<mapsto> st)) u = Some t \<Longrightarrow> (m(uid \<mapsto> st)) u' = Some t' \<Longrightarrow> bs_name t = bs_name t' \<Longrightarrow> u = u'" for u u' t t'
    using D(1) [of u t u' t'] assms(2) [of u t] assms(2) [of u' t'] by (auto split: if_splits)
  ultimately show ?thesis unfolding tracks_def by blast
qed

lemma shown_snoc: "shown (es @ [e]) = show_event e (shown es)"
  by (simp add: shown_def)

lemma map_of_last_put [simp]: "map_of (last_put u st m) = (map_of m)(u \<mapsto> st)"
proof -
  have "map_of (filter (\<lambda>(v, _). v \<noteq> u) m) k = (if k = u then None else map_of m k)" for k by (induction m) auto
  then show ?thesis by (auto simp: last_put_def fun_eq_iff)
qed

lemma map_of_filter_keys: "map_of (filter (\<lambda>(u, _). P u) m) = map_of m |` {u. P u}"
proof (rule ext)
  show "map_of (filter (\<lambda>(u, _). P u) m) k = (map_of m |` {u. P u}) k" for k
    by (induction m) (auto simp: restrict_map_def)
qed

lemma publishStatus_tracks:
  assumes "tracks (map_of (fst b)) (shown (snd b))" "\<And>u st. map_of (fst b) u = Some st \<Longrightarrow> bs_name st = app_Name app \<longleftrightarrow> u = app_UID app"
  shows "tracks (map_of (fst (publishStatus app b))) (shown (snd (publishStatus app b)))"
    "map_of (fst (publishStatus app b)) = (map_of (fst b))(app_UID app \<mapsto> stateOf app)"
proof -
  show m: "map_of (fst (publishStatus app b)) = (map_of (fst b))(app_UID app \<mapsto> stateOf app)"
    by (auto simp: publishStatus_def split: prod.splits)
  show "tracks (map_of (fst (publishStatus app b))) (shown (snd (publishStatus app b)))"
  proof (cases "map_of (fst b) (app_UID app) = Some (stateOf app)")
    case True
    then have "publishStatus app b = b" by (auto simp: publishStatus_def split: prod.splits)
    with assms(1) show ?thesis by simp
  next
    case False
    then have "snd (publishStatus app b) = snd b @ [statusEvent app]" by (auto simp: publishStatus_def split: prod.splits)
    then have "shown (snd (publishStatus app b)) = (shown (snd b))(bs_name (stateOf app) \<mapsto> (phase_string (bs_phase (stateOf app)), bs_url (stateOf app)))"
      by (simp add: shown_snoc show_event_def statusEvent_def stateOf_def)
    then show ?thesis unfolding m using tracks_put [OF assms(1), of "stateOf app" "app_UID app"] assms(2) by (simp add: stateOf_def)
  qed
qed

lemma fold_publishDelete:
  "fold (\<lambda>(_, prev). publishDelete (bs_name prev) (bs_owner prev)) gone b =
     (fst b, snd b @ map (\<lambda>(_, prev). deleteEvent (bs_name prev) (bs_owner prev)) gone)"
  by (induction gone arbitrary: b) (auto simp: publishDelete_def)

lemma shown_deletes:
  fixes gone :: bridge_last
  shows "shown (es @ map (\<lambda>(_, prev). deleteEvent (bs_name prev) (bs_owner prev)) gone) n =
     (if \<exists>u st. (u, st) \<in> set gone \<and> bs_name st = n then None else shown es n)"
proof (induction gone rule: rev_induct)
  case (snoc x gone)
  obtain u st where x: "x = (u, st)" by fastforce
  let ?f = "\<lambda>(_ :: string, prev). deleteEvent (bs_name prev) (bs_owner prev)"
  have "shown (es @ map ?f (gone @ [x])) = show_event (?f x) (shown (es @ map ?f gone))"
    using shown_snoc [of "es @ map ?f gone" "?f x"] by simp
  then have "shown (es @ map ?f (gone @ [x])) n = (if n = bs_name st then None else shown (es @ map ?f gone) n)"
    by (simp add: x show_event_def deleteEvent_def)
  also have "\<dots> = (if \<exists>u st. (u, st) \<in> set (gone @ [x]) \<and> bs_name st = n then None else shown es n)"
    unfolding snoc.IH by (auto simp: x)
  finally show ?case .
qed simp

lemma map_of_rev_distinct:
  assumes "distinct (map fst xs)"
  shows "map_of (rev xs) = map_of xs"
proof (rule ext)
  fix k
  have "map_of (rev xs) k = Some v \<longleftrightarrow> map_of xs k = Some v" for v
    using assms by (simp add: map_of_eq_Some_iff rev_map [symmetric])
  then show "map_of (rev xs) k = map_of xs k" by (rule option_eqI)
qed

lemma map_of_named:
  assumes "distinct (map f xs)"
  shows "map_of (map (\<lambda>a. (f a, g a)) xs) n = Some x \<longleftrightarrow> (\<exists>a \<in> set xs. f a = n \<and> x = g a)"
  using assms by (subst map_of_eq_Some_iff) (auto simp: comp_def)

lemma sync_statuses:
  assumes "tracks (map_of (fst b)) (shown (snd b))" "distinct (map app_Name all)" "set items \<subseteq> set all" "distinct (map app_UID all)"
    "\<And>u st. map_of (fst b) u = Some st \<Longrightarrow> \<exists>a \<in> set all. app_UID a = u \<and> app_Name a = bs_name st"
  shows "tracks (map_of (fst (fold publishStatus items b))) (shown (snd (fold publishStatus items b)))"
    "map_of (fst (fold publishStatus items b)) = (map_of (fst b)) ++ map_of (rev (map (\<lambda>a. (app_UID a, stateOf a)) items))"
proof -
  have "tracks (map_of (fst (fold publishStatus items b))) (shown (snd (fold publishStatus items b))) \<and>
    map_of (fst (fold publishStatus items b)) = (map_of (fst b)) ++ map_of (rev (map (\<lambda>a. (app_UID a, stateOf a)) items))"
    using assms(1,3,5)
  proof (induction items arbitrary: b)
    case (Cons app items)
    have app: "app \<in> set all" using Cons.prems(2) by simp
    have own: "bs_name st = app_Name app \<longleftrightarrow> u = app_UID app" if h: "map_of (fst b) u = Some st" for u st
    proof -
      obtain a where "a \<in> set all" "app_UID a = u" "app_Name a = bs_name st" using Cons.prems(3) [OF h] by blast
      then show ?thesis using app assms(2,4) by (auto simp: distinct_map inj_on_def)
    qed
    have P: "tracks (map_of (fst (publishStatus app b))) (shown (snd (publishStatus app b)))"
      "map_of (fst (publishStatus app b)) = (map_of (fst b))(app_UID app \<mapsto> stateOf app)"
      by (rule publishStatus_tracks [OF Cons.prems(1)], rule own, assumption)+
    have "\<exists>a \<in> set all. app_UID a = u \<and> app_Name a = bs_name st" if "map_of (fst (publishStatus app b)) u = Some st" for u st
    proof (cases "u = app_UID app")
      case True
      then have "st = stateOf app" using that unfolding P(2) by simp
      then show ?thesis using True app by (auto simp: stateOf_def)
    next
      case False
      then have "map_of (fst b) u = Some st" using that unfolding P(2) by simp
      then show ?thesis by (rule Cons.prems(3))
    qed
    then have K: "\<And>u st. map_of (fst (publishStatus app b)) u = Some st \<Longrightarrow> \<exists>a \<in> set all. app_UID a = u \<and> app_Name a = bs_name st"
      by blast
    have sub: "set items \<subseteq> set all" using Cons.prems(2) by simp
    have IH: "tracks (map_of (fst (fold publishStatus items (publishStatus app b)))) (shown (snd (fold publishStatus items (publishStatus app b)))) \<and>
      map_of (fst (fold publishStatus items (publishStatus app b))) = map_of (fst (publishStatus app b)) ++ map_of (rev (map (\<lambda>a. (app_UID a, stateOf a)) items))"
      by (rule Cons.IH [OF P(1) sub]) (rule K)
    have "map_of (fst (publishStatus app b)) ++ map_of (rev (map (\<lambda>a. (app_UID a, stateOf a)) items)) =
      map_of (fst b) ++ map_of (rev (map (\<lambda>a. (app_UID a, stateOf a)) (app # items)))"
      unfolding P(2) by (simp add: map_of_append map_add_assoc)
    then show ?case unfolding fold_simps(2) using IH by metis
  qed simp
  then show "tracks (map_of (fst (fold publishStatus items b))) (shown (snd (fold publishStatus items b)))"
    "map_of (fst (fold publishStatus items b)) = (map_of (fst b)) ++ map_of (rev (map (\<lambda>a. (app_UID a, stateOf a)) items))" by (rule conjunct1, rule conjunct2)
qed

text \<open>What is left of the remembered apps, overwritten by the listed ones, are the listed ones; and a dashboard that tracks the listed apps shows them.\<close>

lemma remembered_are_listed:
  assumes "distinct (map app_UID items)"
  shows "(m |` set (map app_UID items)) ++ map_of (rev (map (\<lambda>a. (app_UID a, stateOf a)) items)) = map_of (map (\<lambda>a. (app_UID a, stateOf a)) items)"
proof
  fix u
  let ?l = "map (\<lambda>a. (app_UID a, stateOf a)) items"
  have r: "map_of (rev ?l) = map_of ?l" using assms by (intro map_of_rev_distinct) (simp add: comp_def)
  have "map_of ?l u = None \<longleftrightarrow> u \<notin> set (map app_UID items)" unfolding map_of_eq_None_iff by (simp add: image_image)
  then show "((m |` set (map app_UID items)) ++ map_of (rev ?l)) u = map_of ?l u"
    unfolding r by (cases "map_of ?l u") (simp_all add: map_add_def)
qed

lemma listed_are_shown:
  assumes "tracks (map_of (map (\<lambda>a. (app_UID a, stateOf a)) items)) sh" "distinct (map app_UID items)" "distinct (map app_Name items)"
  shows "sh = map_of (map (\<lambda>a. (app_Name a, (phase_string (st_Phase (app_Status a)), st_URL (app_Status a)))) items)"
proof (intro ext option_eqI)
  fix n x
  have "sh n = Some x \<longleftrightarrow> (\<exists>u st. (\<exists>a \<in> set items. app_UID a = u \<and> st = stateOf a) \<and> bs_name st = n \<and> x = (phase_string (bs_phase st), bs_url st))"
    unfolding tracksD(2) [OF assms(1)] map_of_named [OF assms(2)] ..
  also have "\<dots> \<longleftrightarrow> (\<exists>a \<in> set items. app_Name a = n \<and> x = (phase_string (st_Phase (app_Status a)), st_URL (app_Status a)))"
    (is "?l \<longleftrightarrow> ?r")
  proof
    show "?l \<Longrightarrow> ?r" by (elim exE conjE bexE) (intro bexI, simp_all)
    show "?r \<Longrightarrow> ?l" by (elim bexE conjE) (intro exI conjI bexI, rule refl, rule refl, simp_all)
  qed
  also have "\<dots> \<longleftrightarrow> map_of (map (\<lambda>a. (app_Name a, (phase_string (st_Phase (app_Status a)), st_URL (app_Status a)))) items) n = Some x"
    by (rule map_of_named [OF assms(3), symmetric])
  finally show "sh n = Some x \<longleftrightarrow> map_of (map (\<lambda>a. (app_Name a, (phase_string (st_Phase (app_Status a)), st_URL (app_Status a)))) items) n = Some x" .
qed


text \<open>An app was deleted and created again under its name while the bridge was disconnected.\<close>

definition sample_old :: VibedApp where
  "sample_old = sample_app ''ns'' ''a'' ''al''"

definition sample_new :: VibedApp where
  "sample_new = sample_old\<lparr>app_UID := ''u2'', app_Status := empty_status\<lparr>st_Phase := PhaseReady, st_URL := ''http://a''\<rparr>\<rparr>"

end
