(* ===== verification/Sqlite.thy ===== *)
theory Sqlite
  imports Store "HOL-Library.List_Lexorder" "HOL-Library.Char_ord" "HOL-Library.Multiset"
begin

section \<open>The SQLite store\<close>

text \<open>
  \<open>src/internal/store/sqlite.go\<close> and the SQLite half of \<open>src/internal/store/audit.go\<close>.  A table is the list of its rows in the order
  they were inserted; a row is the Go value it is read back as (the JSON columns are held decoded, and times as times: what
  \<open>time.Parse\<close> makes of the text \<open>time.Format\<close> wrote).  \<open>INSERT\<close> checks the \<open>PRIMARY KEY\<close> and \<open>UNIQUE\<close> constraints of the schema.

  Any statement may fail in the driver (a full disk, a lock that is not released, a cancelled context): every operation takes
  the failures of its statements as an argument.  A transaction whose function returns an error is rolled back.  \<open>ORDER BY\<close> leaves the order of rows
  with equal keys open, so a query with such keys takes the engine's ordering as an argument.
\<close>

datatype stmt = Begin | Exec nat | Commit

type_synonym faults = "stmt \<Rightarrow> string option"

datatype sql_error =
    EApi api_error
  | EUserExists string | EUserNotFound string
  | EDeptExists string | EDeptNotFound string
  | EDriver string string

record link_row =
  lr_Token :: string
  lr_ArtifactID :: string
  lr_CreatedBy :: string
  lr_Password :: string
  lr_ExpiresAt :: "time option"
  lr_CreatedAt :: time
  lr_Revoked :: bool

record SQLiteDB =
  db_artifacts :: "Artifact list"
  db_users :: "User list"
  db_share_links :: "link_row list"
  db_versions :: "ArtifactVersion list"
  db_artifact_shares :: "(string \<times> string) list"
  db_departments :: "Department list"
  db_audit :: "AuditEvent list"

type_synonym 'a sql = "(sql_error, 'a) result"

definition exec :: "faults \<Rightarrow> stmt \<Rightarrow> string \<Rightarrow> 'a sql \<Rightarrow> 'a sql" where
  "exec fl st ctx r = (case fl st of Some e \<Rightarrow> Err (EDriver ctx e) | None \<Rightarrow> r)"

definition and_then :: "'a sql \<Rightarrow> ('a \<Rightarrow> 'b sql) \<Rightarrow> 'b sql" where
  "and_then r f = (case r of Err e \<Rightarrow> Err e | Ok x \<Rightarrow> f x)"

text \<open>A single statement outside a transaction, and a transaction: the new database, or the old one and the error.\<close>

definition commit_or_keep :: "SQLiteDB \<Rightarrow> SQLiteDB sql \<Rightarrow> SQLiteDB \<times> sql_error option" where
  "commit_or_keep db r = (case r of Err e \<Rightarrow> (db, Some e) | Ok db' \<Rightarrow> (db', None))"

definition transaction :: "faults \<Rightarrow> (SQLiteDB \<Rightarrow> SQLiteDB sql) \<Rightarrow> SQLiteDB \<Rightarrow> SQLiteDB \<times> sql_error option" where
  "transaction fl body db =
     commit_or_keep db (exec fl Begin ''beginning transaction'' (and_then (body db) (\<lambda>db'. exec fl Commit ''commit'' (Ok db'))))"

subsection \<open>Artifacts\<close>

definition unique_failed :: string where
  "unique_failed = ''UNIQUE constraint failed''"

text \<open>\<open>syncArtifactShares\<close>: \<open>n\<close> is the number of the next statement.\<close>

fun insertShares :: "faults \<Rightarrow> nat \<Rightarrow> string \<Rightarrow> string list \<Rightarrow> (string \<times> string) list \<Rightarrow> (string \<times> string) list sql" where
  "insertShares fl n i [] rows = Ok rows"
| "insertShares fl n i (owner # shared) rows =
     (if owner = '''' then insertShares fl n i shared rows
      else exec fl (Exec n) ''inserting artifact share''
        (insertShares fl (n + 1) i shared (if (i, owner) \<in> set rows then rows else rows @ [(i, owner)])))"

definition syncArtifactShares :: "faults \<Rightarrow> nat \<Rightarrow> string \<Rightarrow> string list \<Rightarrow> SQLiteDB \<Rightarrow> SQLiteDB sql" where
  "syncArtifactShares fl n i shared db =
     exec fl (Exec n) ''clearing artifact shares''
       (and_then (insertShares fl (n + 1) i shared (filter (\<lambda>(a, _). a \<noteq> i) (db_artifact_shares db)))
          (\<lambda>rows. Ok (db\<lparr>db_artifact_shares := rows\<rparr>)))"

definition sq_Create :: "faults \<Rightarrow> Artifact \<Rightarrow> SQLiteDB \<Rightarrow> SQLiteDB \<times> sql_error option" where
  "sq_Create fl a = transaction fl (\<lambda>db.
     and_then
       (exec fl (Exec 0) ''inserting artifact''
          (if art_ID a \<in> art_ID ` set (db_artifacts db) \<or> art_Name a \<in> art_Name ` set (db_artifacts db)
           then Err (EApi (ErrAlreadyExists (art_Name a)))
           else Ok (db\<lparr>db_artifacts := db_artifacts db @ [a]\<rparr>)))
       (syncArtifactShares fl 1 (art_ID a) (art_SharedWith a)))"

definition sq_Get :: "faults \<Rightarrow> string \<Rightarrow> SQLiteDB \<Rightarrow> Artifact sql" where
  "sq_Get fl i db = exec fl (Exec 0) ''querying artifact''
     (case find (\<lambda>a. art_ID a = i) (db_artifacts db) of None \<Rightarrow> Err (EApi (ErrNotFound i)) | Some a \<Rightarrow> Ok a)"

definition sq_GetByName :: "faults \<Rightarrow> string \<Rightarrow> SQLiteDB \<Rightarrow> Artifact sql" where
  "sq_GetByName fl name db = exec fl (Exec 0) ''querying artifact by name''
     (case find (\<lambda>a. art_Name a = name) (db_artifacts db) of None \<Rightarrow> Err (EApi (ErrNotFound name)) | Some a \<Rightarrow> Ok a)"

text \<open>The \<open>WHERE\<close> clause of \<open>List\<close>, with the subquery on the share index.\<close>

definition sq_where :: "ListOptions \<Rightarrow> SQLiteDB \<Rightarrow> Artifact \<Rightarrow> bool" where
  "sq_where opts db a =
     ((if lo_StatusFilter opts \<noteq> '''' \<and> lo_StatusFilter opts \<noteq> ''all'' then status_string (art_Status a) = lo_StatusFilter opts else True) \<and>
      (if \<not> lo_AdminView opts \<and> lo_OwnerID opts \<noteq> ''''
       then art_OwnerID a = lo_OwnerID opts \<or> art_ID a \<in> fst ` {r \<in> set (db_artifact_shares db). snd r = lo_OwnerID opts} else True))"

definition sq_page :: "int \<Rightarrow> int \<Rightarrow> 'a list \<Rightarrow> 'a list" where
  "sq_page limit offset xs = (if limit > 0 then take (nat limit) (drop (nat offset) xs) else xs)"

definition sq_summary :: "Artifact \<Rightarrow> ArtifactSummary" where
  "sq_summary a = (ToSummary a)\<lparr>sum_Namespace := art_Namespace a\<rparr>"

text \<open>The count and the rows are two statements: \<open>db'\<close> is the database when the second one runs.  \<open>ord\<close> is the ordering by
  \<open>created_at\<close>.\<close>

definition sq_List ::
  "faults \<Rightarrow> (Artifact list \<Rightarrow> Artifact list) \<Rightarrow> ListOptions \<Rightarrow> SQLiteDB \<Rightarrow> SQLiteDB \<Rightarrow> (ArtifactSummary list \<times> nat) sql" where
  "sq_List fl ord opts db db' =
     and_then (exec fl (Exec 0) ''counting artifacts'' (Ok (length (filter (sq_where opts db) (db_artifacts db))))) (\<lambda>tot.
     exec fl (Exec 1) ''listing artifacts''
       (Ok (map sq_summary (sq_page (lo_Limit opts) (lo_Offset opts) (ord (filter (sq_where opts db') (db_artifacts db')))), tot)))"

definition name_clash :: "Artifact \<Rightarrow> Artifact list \<Rightarrow> bool" where
  "name_clash a rows \<longleftrightarrow> (\<exists>b \<in> set rows. art_ID b \<noteq> art_ID a \<and> art_Name b = art_Name a)"

definition sq_Update :: "faults \<Rightarrow> Artifact \<Rightarrow> SQLiteDB \<Rightarrow> SQLiteDB \<times> sql_error option" where
  "sq_Update fl a = transaction fl (\<lambda>db.
     and_then
       (exec fl (Exec 0) ''updating artifact''
          (if art_ID a \<notin> art_ID ` set (db_artifacts db) then Err (EApi (ErrNotFound (art_ID a)))
           else if name_clash a (db_artifacts db) then Err (EDriver ''updating artifact'' unique_failed)
           else Ok (db\<lparr>db_artifacts := map (\<lambda>b. if art_ID b = art_ID a then a else b) (db_artifacts db)\<rparr>)))
       (syncArtifactShares fl 1 (art_ID a) (art_SharedWith a)))"

definition sq_Delete :: "faults \<Rightarrow> string \<Rightarrow> SQLiteDB \<Rightarrow> SQLiteDB \<times> sql_error option" where
  "sq_Delete fl i = transaction fl (\<lambda>db.
     and_then
       (exec fl (Exec 0) ''deleting artifact''
          (if i \<notin> art_ID ` set (db_artifacts db) then Err (EApi (ErrNotFound i))
           else Ok (db\<lparr>db_artifacts := filter (\<lambda>a. art_ID a \<noteq> i) (db_artifacts db)\<rparr>))) (\<lambda>db.
     and_then
       (exec fl (Exec 1) ''deleting versions'' (Ok (db\<lparr>db_versions := filter (\<lambda>v. av_ArtifactID v \<noteq> i) (db_versions db)\<rparr>))) (\<lambda>db.
     exec fl (Exec 2) ''deleting shares'' (Ok (db\<lparr>db_artifact_shares := filter (\<lambda>(a, _). a \<noteq> i) (db_artifact_shares db)\<rparr>)))))"

subsection \<open>Versions\<close>

definition sq_CreateVersion :: "faults \<Rightarrow> ArtifactVersion \<Rightarrow> SQLiteDB \<Rightarrow> SQLiteDB \<times> sql_error option" where
  "sq_CreateVersion fl v db = commit_or_keep db (exec fl (Exec 0) ''inserting version''
     (if av_VersionID v \<in> av_VersionID ` set (db_versions db) \<or>
         (av_ArtifactID v, av_Version v) \<in> (\<lambda>w. (av_ArtifactID w, av_Version w)) ` set (db_versions db)
      then Err (EDriver ''inserting version'' unique_failed)
      else Ok (db\<lparr>db_versions := db_versions db @ [v]\<rparr>)))"

definition sq_ListVersions :: "faults \<Rightarrow> string \<Rightarrow> SQLiteDB \<Rightarrow> ArtifactVersion list sql" where
  "sq_ListVersions fl i db =
     exec fl (Exec 0) ''listing versions'' (Ok (sort_key av_Version (filter (\<lambda>v. av_ArtifactID v = i) (db_versions db))))"

definition sq_GetVersion :: "faults \<Rightarrow> string \<Rightarrow> int \<Rightarrow> SQLiteDB \<Rightarrow> ArtifactVersion sql" where
  "sq_GetVersion fl i version db = exec fl (Exec 0) ''querying version''
     (case find (\<lambda>v. av_ArtifactID v = i \<and> av_Version v = version) (db_versions db) of
        None \<Rightarrow> Err (EApi (ErrVersionNotFound i version)) | Some v \<Rightarrow> Ok v)"

subsection \<open>Users\<close>

definition sq_CreateUser :: "faults \<Rightarrow> User \<Rightarrow> SQLiteDB \<Rightarrow> SQLiteDB \<times> sql_error option" where
  "sq_CreateUser fl u db = commit_or_keep db (exec fl (Exec 0) ''inserting user''
     (if user_ID u \<in> user_ID ` set (db_users db) \<or> user_Name u \<in> user_Name ` set (db_users db)
      then Err (EUserExists (user_Name u)) else Ok (db\<lparr>db_users := db_users db @ [u]\<rparr>)))"

definition sq_GetUser :: "faults \<Rightarrow> string \<Rightarrow> SQLiteDB \<Rightarrow> User sql" where
  "sq_GetUser fl i db = exec fl (Exec 0) ''querying user''
     (case find (\<lambda>u. user_ID u = i) (db_users db) of None \<Rightarrow> Err (EUserNotFound i) | Some u \<Rightarrow> Ok u)"

text \<open>\<open>COLLATE NOCASE\<close> folds the ASCII letters; no index serves it, so the rows are tried in table order.\<close>

definition sq_GetUserByName :: "faults \<Rightarrow> string \<Rightarrow> SQLiteDB \<Rightarrow> User sql" where
  "sq_GetUserByName fl name db = exec fl (Exec 0) ''querying user by name''
     (case find (\<lambda>u. ToLower (user_Name u) = ToLower name) (db_users db) of None \<Rightarrow> Err (EUserNotFound name) | Some u \<Rightarrow> Ok u)"

definition appendPage :: "int \<Rightarrow> int \<Rightarrow> 'a list \<Rightarrow> 'a list" where
  "appendPage limit offset xs =
     (if limit \<le> 0 then xs else let offset = (if offset < 0 then 0 else offset) in take (nat limit) (drop (nat offset) xs))"

text \<open>The listing does not select the key hash.\<close>

definition sq_ListUsers :: "faults \<Rightarrow> string \<Rightarrow> int \<Rightarrow> int \<Rightarrow> SQLiteDB \<Rightarrow> User list sql" where
  "sq_ListUsers fl dept limit offset db = exec fl (Exec 0) ''listing users''
     (Ok (map (\<lambda>u. u\<lparr>user_APIKeyHash := ''''\<rparr>)
        (appendPage limit offset (sort_key user_Name (filter (\<lambda>u. dept \<noteq> '''' \<longrightarrow> user_DepartmentID u = dept) (db_users db))))))"

text \<open>The hash is not a unique column; \<open>scan\<close> is the order in which the engine's index delivers the rows with this hash.\<close>

definition sq_GetUserByAPIKeyHash :: "faults \<Rightarrow> (User list \<Rightarrow> User list) \<Rightarrow> string \<Rightarrow> SQLiteDB \<Rightarrow> User sql" where
  "sq_GetUserByAPIKeyHash fl scan hash db = exec fl (Exec 0) ''user not found by API key hash''
     (case scan (filter (\<lambda>u. user_APIKeyHash u = hash \<and> user_APIKeyHash u \<noteq> '''') (db_users db)) of
        [] \<Rightarrow> Err (EDriver ''user not found by API key hash'' ''sql: no rows in result set'') | u # _ \<Rightarrow> Ok u)"

text \<open>\<open>UpdateUser\<close> sets six columns; the provider, the key hash and the creation time stay.\<close>

definition user_set :: "User \<Rightarrow> User \<Rightarrow> User" where
  "user_set u row = row\<lparr>user_Name := user_Name u, user_Email := user_Email u, user_Role := user_Role u, user_Status := user_Status u,
     user_DepartmentID := user_DepartmentID u, user_UpdatedAt := user_UpdatedAt u\<rparr>"

definition sq_UpdateUser :: "faults \<Rightarrow> User \<Rightarrow> SQLiteDB \<Rightarrow> SQLiteDB \<times> sql_error option" where
  "sq_UpdateUser fl u db = commit_or_keep db (exec fl (Exec 0) ''updating user''
     (if user_ID u \<notin> user_ID ` set (db_users db) then Err (EUserNotFound (user_ID u))
      else if \<exists>b \<in> set (db_users db). user_ID b \<noteq> user_ID u \<and> user_Name b = user_Name u then Err (EDriver ''updating user'' unique_failed)
      else Ok (db\<lparr>db_users := map (\<lambda>b. if user_ID b = user_ID u then user_set u b else b) (db_users db)\<rparr>)))"

subsection \<open>Share links\<close>

text \<open>\<open>expires_at\<close> is written with \<open>time.RFC3339\<close>, that is in whole seconds.\<close>

definition linkRow :: "ShareLink \<Rightarrow> string \<Rightarrow> link_row" where
  "linkRow l passwordHash = \<lparr>lr_Token = sl_Token l, lr_ArtifactID = sl_ArtifactID l, lr_CreatedBy = sl_CreatedBy l, lr_Password = passwordHash,
     lr_ExpiresAt = map_option (\<lambda>t. t - t mod second) (sl_ExpiresAt l), lr_CreatedAt = sl_CreatedAt l, lr_Revoked = False\<rparr>"

definition sq_CreateShareLink :: "faults \<Rightarrow> ShareLink \<Rightarrow> string \<Rightarrow> SQLiteDB \<Rightarrow> SQLiteDB \<times> sql_error option" where
  "sq_CreateShareLink fl l passwordHash db = commit_or_keep db (exec fl (Exec 0) ''creating share link''
     (if sl_Token l \<in> lr_Token ` set (db_share_links db) then Err (EDriver ''creating share link'' unique_failed)
      else Ok (db\<lparr>db_share_links := db_share_links db @ [linkRow l passwordHash]\<rparr>)))"

definition scanLink :: "link_row \<Rightarrow> ShareLink" where
  "scanLink r = \<lparr>sl_Token = lr_Token r, sl_ArtifactID = lr_ArtifactID r, sl_CreatedBy = lr_CreatedBy r, sl_HasPassword = (lr_Password r \<noteq> ''''),
     sl_ExpiresAt = lr_ExpiresAt r, sl_CreatedAt = lr_CreatedAt r, sl_Revoked = lr_Revoked r, sl_URL = ''''\<rparr>"

definition sq_GetShareLink :: "faults \<Rightarrow> string \<Rightarrow> SQLiteDB \<Rightarrow> (ShareLink \<times> string) sql" where
  "sq_GetShareLink fl token db = exec fl (Exec 0) ''getting share link''
     (case find (\<lambda>r. lr_Token r = token) (db_share_links db) of
        None \<Rightarrow> Err (EApi (ErrShareLinkNotFound token)) | Some r \<Rightarrow> Ok (scanLink r, lr_Password r))"

definition sq_ListShareLinks :: "faults \<Rightarrow> (link_row list \<Rightarrow> link_row list) \<Rightarrow> string \<Rightarrow> int \<Rightarrow> int \<Rightarrow> SQLiteDB \<Rightarrow> ShareLink list sql" where
  "sq_ListShareLinks fl ord i limit offset db = exec fl (Exec 0) ''listing share links''
     (Ok (map scanLink (appendPage limit offset (ord (filter (\<lambda>r. lr_ArtifactID r = i) (db_share_links db))))))"

definition sq_RevokeShareLink :: "faults \<Rightarrow> string \<Rightarrow> SQLiteDB \<Rightarrow> SQLiteDB \<times> sql_error option" where
  "sq_RevokeShareLink fl token db = commit_or_keep db (exec fl (Exec 0) ''revoking share link''
     (if token \<notin> lr_Token ` set (db_share_links db) then Err (EApi (ErrShareLinkNotFound token))
      else Ok (db\<lparr>db_share_links := map (\<lambda>r. if lr_Token r = token then r\<lparr>lr_Revoked := True\<rparr> else r) (db_share_links db)\<rparr>)))"

subsection \<open>Departments\<close>

definition sq_CreateDepartment :: "faults \<Rightarrow> Department \<Rightarrow> SQLiteDB \<Rightarrow> SQLiteDB \<times> sql_error option" where
  "sq_CreateDepartment fl d db = commit_or_keep db (exec fl (Exec 0) ''inserting department''
     (if dept_ID d \<in> dept_ID ` set (db_departments db) \<or> dept_Name d \<in> dept_Name ` set (db_departments db)
      then Err (EDeptExists (dept_Name d)) else Ok (db\<lparr>db_departments := db_departments db @ [d]\<rparr>)))"

definition sq_GetDepartment :: "faults \<Rightarrow> string \<Rightarrow> SQLiteDB \<Rightarrow> Department sql" where
  "sq_GetDepartment fl i db = exec fl (Exec 0) ''querying department''
     (case find (\<lambda>d. dept_ID d = i) (db_departments db) of None \<Rightarrow> Err (EDeptNotFound i) | Some d \<Rightarrow> Ok d)"

definition sq_GetDepartmentByName :: "faults \<Rightarrow> string \<Rightarrow> SQLiteDB \<Rightarrow> Department sql" where
  "sq_GetDepartmentByName fl name db = exec fl (Exec 0) ''querying department by name''
     (case find (\<lambda>d. dept_Name d = name) (db_departments db) of None \<Rightarrow> Err (EDeptNotFound name) | Some d \<Rightarrow> Ok d)"

definition sq_ListDepartments :: "faults \<Rightarrow> int \<Rightarrow> int \<Rightarrow> SQLiteDB \<Rightarrow> Department list sql" where
  "sq_ListDepartments fl limit offset db =
     exec fl (Exec 0) ''listing departments'' (Ok (appendPage limit offset (sort_key dept_Name (db_departments db))))"

definition sq_UpdateDepartment :: "faults \<Rightarrow> Department \<Rightarrow> SQLiteDB \<Rightarrow> SQLiteDB \<times> sql_error option" where
  "sq_UpdateDepartment fl d db = commit_or_keep db (exec fl (Exec 0) ''updating department''
     (if dept_ID d \<notin> dept_ID ` set (db_departments db) then Err (EDeptNotFound (dept_ID d))
      else if \<exists>b \<in> set (db_departments db). dept_ID b \<noteq> dept_ID d \<and> dept_Name b = dept_Name d then Err (EDeptExists (dept_Name d))
      else Ok (db\<lparr>db_departments := map (\<lambda>b. if dept_ID b = dept_ID d
        then b\<lparr>dept_Name := dept_Name d, dept_Namespace := dept_Namespace d, dept_UpdatedAt := dept_UpdatedAt d\<rparr> else b) (db_departments db)\<rparr>)))"

text \<open>Two statements without a transaction: what the first one did stays when the second one fails.\<close>

definition sq_DeleteDepartment :: "faults \<Rightarrow> string \<Rightarrow> SQLiteDB \<Rightarrow> SQLiteDB \<times> sql_error option" where
  "sq_DeleteDepartment fl i db =
     (case exec fl (Exec 0) ''clearing department from users''
        (Ok (db\<lparr>db_users := map (\<lambda>u. if user_DepartmentID u = i then u\<lparr>user_DepartmentID := ''''\<rparr> else u) (db_users db)\<rparr>)) of
        Err e \<Rightarrow> (db, Some e)
      | Ok db1 \<Rightarrow> commit_or_keep db1 (exec fl (Exec 1) ''deleting department''
          (if i \<notin> dept_ID ` set (db_departments db1) then Err (EDeptNotFound i)
           else Ok (db1\<lparr>db_departments := filter (\<lambda>d. dept_ID d \<noteq> i) (db_departments db1)\<rparr>))))"

subsection \<open>Audit events\<close>

definition sq_AppendAudit :: "faults \<Rightarrow> AuditEvent \<Rightarrow> SQLiteDB \<Rightarrow> SQLiteDB \<times> sql_error option" where
  "sq_AppendAudit fl e db = commit_or_keep db (exec fl (Exec 0) ''append audit''
     (if ae_ID e \<in> ae_ID ` set (db_audit db) then Err (EDriver ''append audit'' unique_failed)
      else Ok (db\<lparr>db_audit := db_audit db @ [e]\<rparr>)))"

definition sq_ListAudit :: "faults \<Rightarrow> (AuditEvent list \<Rightarrow> AuditEvent list) \<Rightarrow> AuditQuery \<Rightarrow> SQLiteDB \<Rightarrow> AuditEvent list sql" where
  "sq_ListAudit fl ord q db = exec fl (Exec 0) ''list audit''
     (Ok (take (nat (auditLimit (aq_Limit q))) (ord (filter (audit_match q) (db_audit db)))))"

subsection \<open>Opening a database\<close>

text \<open>A database of an older release has the shares in the JSON column only: when the index is empty it is filled from them
  (\<open>INSERT OR IGNORE\<close>, which also indexes the empty owner).\<close>

definition insert_ignore :: "'a \<Rightarrow> 'a list \<Rightarrow> 'a list" where
  "insert_ignore x xs = (if x \<in> set xs then xs else xs @ [x])"

definition backfill :: "SQLiteDB \<Rightarrow> SQLiteDB" where
  "backfill db =
     (if db_artifact_shares db = []
      then db\<lparr>db_artifact_shares := fold insert_ignore (concat (map (\<lambda>a. map (Pair (art_ID a)) (art_SharedWith a)) (db_artifacts db))) []\<rparr>
      else db)"

definition empty_db :: SQLiteDB where
  "empty_db = \<lparr>db_artifacts = [], db_users = [], db_share_links = [], db_versions = [], db_artifact_shares = [], db_departments = [], db_audit = []\<rparr>"

subsection \<open>Statements and transactions\<close>

lemma exec_Ok [simp]: "exec fl st ctx r = Ok x \<longleftrightarrow> fl st = None \<and> r = Ok x"
  by (auto simp: exec_def split: option.splits)

lemma and_then_Ok [simp]: "and_then r f = Ok y \<longleftrightarrow> (\<exists>x. r = Ok x \<and> f x = Ok y)"
  by (auto simp: and_then_def split: sum.splits)

lemma commit_or_keep_cases:
  assumes "commit_or_keep db r = (db', e)"
  obtains (ok) "e = None" "r = Ok db'" | (err) x where "e = Some x" "r = Err x" "db' = db"
  using assms by (auto simp: commit_or_keep_def split: sum.splits)

lemma transaction_cases:
  assumes "transaction fl body db = (db', e)"
  obtains (ok) "e = None" "body db = Ok db'" | (err) x where "e = Some x" "db' = db"
  using assms unfolding transaction_def by (auto elim!: commit_or_keep_cases)

text \<open>The inductive step of every table: replacing the rows of one key keeps another column unique.\<close>

lemma distinct_replace:
  assumes "distinct (map f xs)" "distinct (map k xs)" "\<And>b. b \<in> set xs \<Longrightarrow> k b \<noteq> key \<Longrightarrow> f b \<noteq> v" "\<And>b. k b = key \<Longrightarrow> f (g b) = v"
  shows "distinct (map f (map (\<lambda>b. if k b = key then g b else b) xs))"
  using assms(1-3)
proof (induction xs)
  case (Cons x xs)
  have IH: "distinct (map f (map (\<lambda>b. if k b = key then g b else b) xs))" using Cons by simp
  have "f (if k x = key then g x else x) \<notin> (\<lambda>b. f (if k b = key then g b else b)) ` set xs"
  proof (cases "k x = key")
    case True
    then have "k b \<noteq> key" if "b \<in> set xs" for b using Cons.prems(2) that by (auto simp: image_iff)
    then show ?thesis using Cons.prems(3) True assms(4) by auto
  next
    case False
    then have "f x \<noteq> v" using Cons.prems(3) by simp
    then show ?thesis using Cons.prems(1) False assms(4) by (auto split: if_splits)
  qed
  with IH show ?case by (simp add: comp_def)
qed simp

lemma map_replace_keys: "(\<And>b. k (g b) = k b) \<Longrightarrow> map k (map (\<lambda>b. if P b then g b else b) xs) = map k xs"
  by simp

subsection \<open>The invariant\<close>

definition shares_ok :: "SQLiteDB \<Rightarrow> bool" where
  "shares_ok db \<longleftrightarrow> distinct (db_artifact_shares db) \<and>
     (\<forall>i w. w \<noteq> '''' \<longrightarrow> ((i, w) \<in> set (db_artifact_shares db) \<longleftrightarrow> (\<exists>a \<in> set (db_artifacts db). art_ID a = i \<and> w \<in> set (art_SharedWith a))))"

definition keys_ok :: "SQLiteDB \<Rightarrow> bool" where
  "keys_ok db \<longleftrightarrow> distinct (map art_ID (db_artifacts db)) \<and> distinct (map art_Name (db_artifacts db)) \<and>
     distinct (map user_ID (db_users db)) \<and> distinct (map user_Name (db_users db)) \<and> distinct (map lr_Token (db_share_links db)) \<and>
     distinct (map av_VersionID (db_versions db)) \<and> distinct (map (\<lambda>v. (av_ArtifactID v, av_Version v)) (db_versions db)) \<and>
     distinct (map dept_ID (db_departments db)) \<and> distinct (map dept_Name (db_departments db)) \<and> distinct (map ae_ID (db_audit db))"

definition sq_inv :: "SQLiteDB \<Rightarrow> bool" where
  "sq_inv db \<longleftrightarrow> keys_ok db \<and> shares_ok db"

lemma insertShares_Ok:
  assumes "insertShares fl n i shared rows = Ok rows'"
  shows "set rows' = set rows \<union> {i} \<times> (set shared - {''''})" "distinct rows \<Longrightarrow> distinct rows'"
proof -
  have "set rows' = set rows \<union> {i} \<times> (set shared - {''''}) \<and> (distinct rows \<longrightarrow> distinct rows')" using assms
    by (induction fl n i shared rows rule: insertShares.induct) (auto split: if_splits)
  then show "set rows' = set rows \<union> {i} \<times> (set shared - {''''})" "distinct rows \<Longrightarrow> distinct rows'" by blast+
qed

lemma syncArtifactShares_Ok:
  assumes "syncArtifactShares fl n i shared db = Ok db'"
  obtains rows where "db' = db\<lparr>db_artifact_shares := rows\<rparr>"
    "set rows = {r \<in> set (db_artifact_shares db). fst r \<noteq> i} \<union> {i} \<times> (set shared - {''''})"
    "distinct (db_artifact_shares db) \<Longrightarrow> distinct rows"
proof -
  from assms obtain rows where r: "insertShares fl (n + 1) i shared (filter (\<lambda>(a, _). a \<noteq> i) (db_artifact_shares db)) = Ok rows"
    "db' = db\<lparr>db_artifact_shares := rows\<rparr>" by (auto simp: syncArtifactShares_def)
  from that [OF r(2)] insertShares_Ok [OF r(1)] show ?thesis by (auto simp: case_prod_beta)
qed

text \<open>Writing an artifact and re-indexing its shares: the rest of the index is that of the other artifacts.\<close>

lemma shares_ok_sync:
  assumes "shares_ok db" "syncArtifactShares fl n (art_ID a) (art_SharedWith a) db1 = Ok db'"
    "db_artifact_shares db1 = db_artifact_shares db" "a \<in> set (db_artifacts db1)"
    "{b \<in> set (db_artifacts db1). art_ID b \<noteq> art_ID a} = {b \<in> set (db_artifacts db). art_ID b \<noteq> art_ID a}"
    "\<And>b. b \<in> set (db_artifacts db1) \<Longrightarrow> art_ID b = art_ID a \<Longrightarrow> b = a"
  shows "shares_ok db'"
proof -
  obtain rows where r: "db' = db1\<lparr>db_artifact_shares := rows\<rparr>"
    "set rows = {r \<in> set (db_artifact_shares db). fst r \<noteq> art_ID a} \<union> {art_ID a} \<times> (set (art_SharedWith a) - {''''})"
    "distinct rows"
    using assms(1,3) by (auto simp: shares_ok_def intro: syncArtifactShares_Ok [OF assms(2)])
  have "(i, w) \<in> set rows \<longleftrightarrow> (\<exists>b \<in> set (db_artifacts db1). art_ID b = i \<and> w \<in> set (art_SharedWith b))" if w: "w \<noteq> ''''" for i w
  proof (cases "i = art_ID a")
    case True
    then show ?thesis using r(2) assms(4,6) w by auto
  next
    case False
    then have "(i, w) \<in> set rows \<longleftrightarrow> (\<exists>b \<in> set (db_artifacts db). art_ID b = i \<and> w \<in> set (art_SharedWith b))"
      using r(2) assms(1) w by (auto simp: shares_ok_def)
    also have "\<dots> \<longleftrightarrow> (\<exists>b \<in> set (db_artifacts db1). art_ID b = i \<and> w \<in> set (art_SharedWith b))"
      using assms(5) False by blast
    finally show ?thesis .
  qed
  then show ?thesis using r by (simp add: shares_ok_def)
qed

lemma shares_ok_frame: "db_artifact_shares db' = db_artifact_shares db \<Longrightarrow> db_artifacts db' = db_artifacts db \<Longrightarrow> shares_ok db \<Longrightarrow> shares_ok db'"
  by (simp add: shares_ok_def)

lemma sq_Create_Ok:
  assumes "sq_Create fl a db = (db', None)"
  obtains rows where "art_ID a \<notin> art_ID ` set (db_artifacts db)" "art_Name a \<notin> art_Name ` set (db_artifacts db)"
    "db' = db\<lparr>db_artifacts := db_artifacts db @ [a], db_artifact_shares := rows\<rparr>"
    "syncArtifactShares fl 1 (art_ID a) (art_SharedWith a) (db\<lparr>db_artifacts := db_artifacts db @ [a]\<rparr>) = Ok db'"
  using assms unfolding sq_Create_def
  by (elim transaction_cases) (auto split: if_splits elim!: syncArtifactShares_Ok)

lemma sq_Update_Ok:
  assumes "sq_Update fl a db = (db', None)"
  obtains rows where "art_ID a \<in> art_ID ` set (db_artifacts db)" "\<And>b. b \<in> set (db_artifacts db) \<Longrightarrow> art_ID b \<noteq> art_ID a \<Longrightarrow> art_Name b \<noteq> art_Name a"
    "db' = db\<lparr>db_artifacts := map (\<lambda>b. if art_ID b = art_ID a then a else b) (db_artifacts db), db_artifact_shares := rows\<rparr>"
    "syncArtifactShares fl 1 (art_ID a) (art_SharedWith a) (db\<lparr>db_artifacts := map (\<lambda>b. if art_ID b = art_ID a then a else b) (db_artifacts db)\<rparr>) = Ok db'"
proof -
  from assms have i: "art_ID a \<in> art_ID ` set (db_artifacts db)" and n: "\<not> (\<exists>b \<in> set (db_artifacts db). art_ID b \<noteq> art_ID a \<and> art_Name b = art_Name a)"
    and s: "syncArtifactShares fl 1 (art_ID a) (art_SharedWith a) (db\<lparr>db_artifacts := map (\<lambda>b. if art_ID b = art_ID a then a else b) (db_artifacts db)\<rparr>) = Ok db'"
    unfolding sq_Update_def name_clash_def by (auto elim!: transaction_cases split: if_splits)
  obtain rows where r: "db' = db\<lparr>db_artifacts := map (\<lambda>b. if art_ID b = art_ID a then a else b) (db_artifacts db)\<rparr>\<lparr>db_artifact_shares := rows\<rparr>"
    using s by (rule syncArtifactShares_Ok)
  show ?thesis by (rule that [OF i _ _ s]) (use n r in auto)
qed

lemma sq_Delete_Ok:
  assumes "sq_Delete fl i db = (db', None)"
  shows "i \<in> art_ID ` set (db_artifacts db)"
    "db' = db\<lparr>db_artifacts := filter (\<lambda>a. art_ID a \<noteq> i) (db_artifacts db), db_versions := filter (\<lambda>v. av_ArtifactID v \<noteq> i) (db_versions db),
       db_artifact_shares := filter (\<lambda>(a, _). a \<noteq> i) (db_artifact_shares db)\<rparr>"
  using assms unfolding sq_Delete_def by (auto elim!: transaction_cases split: if_splits)

subsection \<open>Every operation keeps the invariant\<close>

datatype sq_op =
    QCreate Artifact | QUpdate Artifact | QDelete string | QCreateVersion ArtifactVersion
  | QCreateUser User | QUpdateUser User | QCreateShareLink ShareLink string | QRevokeShareLink string
  | QCreateDepartment Department | QUpdateDepartment Department | QDeleteDepartment string | QAppendAudit AuditEvent

fun sq_do :: "faults \<Rightarrow> sq_op \<Rightarrow> SQLiteDB \<Rightarrow> SQLiteDB \<times> sql_error option" where
  "sq_do fl (QCreate a) db = sq_Create fl a db"
| "sq_do fl (QUpdate a) db = sq_Update fl a db"
| "sq_do fl (QDelete i) db = sq_Delete fl i db"
| "sq_do fl (QCreateVersion v) db = sq_CreateVersion fl v db"
| "sq_do fl (QCreateUser u) db = sq_CreateUser fl u db"
| "sq_do fl (QUpdateUser u) db = sq_UpdateUser fl u db"
| "sq_do fl (QCreateShareLink l h) db = sq_CreateShareLink fl l h db"
| "sq_do fl (QRevokeShareLink t) db = sq_RevokeShareLink fl t db"
| "sq_do fl (QCreateDepartment d) db = sq_CreateDepartment fl d db"
| "sq_do fl (QUpdateDepartment d) db = sq_UpdateDepartment fl d db"
| "sq_do fl (QDeleteDepartment i) db = sq_DeleteDepartment fl i db"
| "sq_do fl (QAppendAudit e) db = sq_AppendAudit fl e db"

lemma sq_Create_inv: "sq_inv db \<Longrightarrow> sq_Create fl a db = (db', None) \<Longrightarrow> sq_inv db'"
proof (elim sq_Create_Ok)
  fix rows assume inv: "sq_inv db" and new: "art_ID a \<notin> art_ID ` set (db_artifacts db)" "art_Name a \<notin> art_Name ` set (db_artifacts db)"
    and db': "db' = db\<lparr>db_artifacts := db_artifacts db @ [a], db_artifact_shares := rows\<rparr>"
    and sync: "syncArtifactShares fl 1 (art_ID a) (art_SharedWith a) (db\<lparr>db_artifacts := db_artifacts db @ [a]\<rparr>) = Ok db'"
  have "shares_ok db'"
    by (rule shares_ok_sync [OF _ sync]) (use inv new in \<open>auto simp: sq_inv_def image_iff\<close>)
  then show ?thesis using inv new by (simp add: sq_inv_def keys_ok_def db')
qed

lemma sq_Update_inv: "sq_inv db \<Longrightarrow> sq_Update fl a db = (db', None) \<Longrightarrow> sq_inv db'"
proof (elim sq_Update_Ok)
  fix rows assume inv: "sq_inv db" and i: "art_ID a \<in> art_ID ` set (db_artifacts db)"
    and n: "\<And>b. b \<in> set (db_artifacts db) \<Longrightarrow> art_ID b \<noteq> art_ID a \<Longrightarrow> art_Name b \<noteq> art_Name a"
    and db': "db' = db\<lparr>db_artifacts := map (\<lambda>b. if art_ID b = art_ID a then a else b) (db_artifacts db), db_artifact_shares := rows\<rparr>"
    and sync: "syncArtifactShares fl 1 (art_ID a) (art_SharedWith a) (db\<lparr>db_artifacts := map (\<lambda>b. if art_ID b = art_ID a then a else b) (db_artifacts db)\<rparr>) = Ok db'"
  have "shares_ok db'"
    by (rule shares_ok_sync [OF _ sync]) (use inv i in \<open>auto simp: sq_inv_def image_iff split: if_splits\<close>)
  moreover have "distinct (map art_Name (map (\<lambda>b. if art_ID b = art_ID a then a else b) (db_artifacts db)))"
    by (rule distinct_replace) (use inv n in \<open>auto simp: sq_inv_def keys_ok_def\<close>)
  moreover have "map art_ID (map (\<lambda>b. if art_ID b = art_ID a then a else b) (db_artifacts db)) = map art_ID (db_artifacts db)" by simp
  ultimately show ?thesis using inv by (simp add: sq_inv_def keys_ok_def db' del: map_map)
qed

lemma sq_Delete_inv: "sq_inv db \<Longrightarrow> sq_Delete fl i db = (db', None) \<Longrightarrow> sq_inv db'"
  by (drule sq_Delete_Ok(2)) (auto simp: sq_inv_def keys_ok_def shares_ok_def distinct_map_filter)

lemmas single_defs = sq_CreateVersion_def sq_CreateUser_def sq_UpdateUser_def sq_CreateShareLink_def sq_RevokeShareLink_def
  sq_CreateDepartment_def sq_UpdateDepartment_def sq_AppendAudit_def

lemma sq_UpdateUser_inv: "sq_inv db \<Longrightarrow> sq_UpdateUser fl u db = (db', None) \<Longrightarrow> sq_inv db'"
proof -
  assume inv: "sq_inv db" and "sq_UpdateUser fl u db = (db', None)"
  then have n: "\<And>b. b \<in> set (db_users db) \<Longrightarrow> user_ID b \<noteq> user_ID u \<Longrightarrow> user_Name b \<noteq> user_Name u"
    and db': "db' = db\<lparr>db_users := map (\<lambda>b. if user_ID b = user_ID u then user_set u b else b) (db_users db)\<rparr>"
    unfolding sq_UpdateUser_def by (auto elim!: commit_or_keep_cases split: if_splits)
  have "distinct (map user_Name (map (\<lambda>b. if user_ID b = user_ID u then user_set u b else b) (db_users db)))"
    by (rule distinct_replace) (use inv n in \<open>auto simp: sq_inv_def keys_ok_def user_set_def\<close>)
  moreover have "map user_ID (map (\<lambda>b. if user_ID b = user_ID u then user_set u b else b) (db_users db)) = map user_ID (db_users db)"
    by (simp add: user_set_def)
  ultimately show "sq_inv db'" using inv by (simp add: sq_inv_def keys_ok_def shares_ok_def db' del: map_map)
qed

lemma sq_UpdateDepartment_inv: "sq_inv db \<Longrightarrow> sq_UpdateDepartment fl d db = (db', None) \<Longrightarrow> sq_inv db'"
proof -
  let ?g = "\<lambda>b. b\<lparr>dept_Name := dept_Name d, dept_Namespace := dept_Namespace d, dept_UpdatedAt := dept_UpdatedAt d\<rparr>"
  assume inv: "sq_inv db" and "sq_UpdateDepartment fl d db = (db', None)"
  then have n: "\<And>b. b \<in> set (db_departments db) \<Longrightarrow> dept_ID b \<noteq> dept_ID d \<Longrightarrow> dept_Name b \<noteq> dept_Name d"
    and db': "db' = db\<lparr>db_departments := map (\<lambda>b. if dept_ID b = dept_ID d then ?g b else b) (db_departments db)\<rparr>"
    unfolding sq_UpdateDepartment_def by (auto elim!: commit_or_keep_cases split: if_splits)
  have "distinct (map dept_Name (map (\<lambda>b. if dept_ID b = dept_ID d then ?g b else b) (db_departments db)))"
    by (rule distinct_replace) (use inv n in \<open>auto simp: sq_inv_def keys_ok_def\<close>)
  moreover have "map dept_ID (map (\<lambda>b. if dept_ID b = dept_ID d then ?g b else b) (db_departments db)) = map dept_ID (db_departments db)"
    by simp
  ultimately show "sq_inv db'" using inv by (simp add: sq_inv_def keys_ok_def shares_ok_def db' del: map_map)
qed

lemma append_Ok:
  "sq_CreateVersion fl v db = (db', None) \<Longrightarrow> av_VersionID v \<notin> av_VersionID ` set (db_versions db) \<and>
     (av_ArtifactID v, av_Version v) \<notin> (\<lambda>w. (av_ArtifactID w, av_Version w)) ` set (db_versions db) \<and> db' = db\<lparr>db_versions := db_versions db @ [v]\<rparr>"
  "sq_CreateUser fl u db = (db', None) \<Longrightarrow> user_ID u \<notin> user_ID ` set (db_users db) \<and> user_Name u \<notin> user_Name ` set (db_users db) \<and>
     db' = db\<lparr>db_users := db_users db @ [u]\<rparr>"
  "sq_CreateShareLink fl l h db = (db', None) \<Longrightarrow> sl_Token l \<notin> lr_Token ` set (db_share_links db) \<and>
     db' = db\<lparr>db_share_links := db_share_links db @ [linkRow l h]\<rparr>"
  "sq_CreateDepartment fl d db = (db', None) \<Longrightarrow> dept_ID d \<notin> dept_ID ` set (db_departments db) \<and> dept_Name d \<notin> dept_Name ` set (db_departments db) \<and>
     db' = db\<lparr>db_departments := db_departments db @ [d]\<rparr>"
  "sq_AppendAudit fl e db = (db', None) \<Longrightarrow> ae_ID e \<notin> ae_ID ` set (db_audit db) \<and> db' = db\<lparr>db_audit := db_audit db @ [e]\<rparr>"
  by (auto elim!: commit_or_keep_cases simp: single_defs split: if_splits)

lemmas inv_defs = sq_inv_def keys_ok_def shares_ok_def

lemma append_inv:
  "sq_CreateVersion fl v db = (db', None) \<Longrightarrow> sq_inv db \<Longrightarrow> sq_inv db'" "sq_CreateUser fl u db = (db', None) \<Longrightarrow> sq_inv db \<Longrightarrow> sq_inv db'"
  "sq_CreateShareLink fl l h db = (db', None) \<Longrightarrow> sq_inv db \<Longrightarrow> sq_inv db'" "sq_CreateDepartment fl d db = (db', None) \<Longrightarrow> sq_inv db \<Longrightarrow> sq_inv db'"
  "sq_AppendAudit fl e db = (db', None) \<Longrightarrow> sq_inv db \<Longrightarrow> sq_inv db'"
      apply (drule append_Ok(1), elim conjE, simp add: inv_defs)
     apply (drule append_Ok(2), elim conjE, simp add: inv_defs)
    apply (drule append_Ok(3), elim conjE, simp add: inv_defs linkRow_def)
   apply (drule append_Ok(4), elim conjE, simp add: inv_defs)
  apply (drule append_Ok(5), elim conjE, simp add: inv_defs)
  done

lemma sq_RevokeShareLink_inv: "sq_inv db \<Longrightarrow> sq_RevokeShareLink fl t db = (db', None) \<Longrightarrow> sq_inv db'"
proof -
  assume inv: "sq_inv db" and "sq_RevokeShareLink fl t db = (db', None)"
  then have db': "db' = db\<lparr>db_share_links := map (\<lambda>r. if lr_Token r = t then r\<lparr>lr_Revoked := True\<rparr> else r) (db_share_links db)\<rparr>"
    unfolding sq_RevokeShareLink_def by (auto elim!: commit_or_keep_cases split: if_splits)
  moreover have "map lr_Token (map (\<lambda>r. if lr_Token r = t then r\<lparr>lr_Revoked := True\<rparr> else r) (db_share_links db)) = map lr_Token (db_share_links db)"
    by simp
  ultimately show "sq_inv db'" using inv by (simp add: sq_inv_def keys_ok_def shares_ok_def del: map_map)
qed

lemma sq_DeleteDepartment_cases:
  obtains "fst (sq_DeleteDepartment fl i db) = db"
  | "fst (sq_DeleteDepartment fl i db) = db\<lparr>db_users := map (\<lambda>u. if user_DepartmentID u = i then u\<lparr>user_DepartmentID := ''''\<rparr> else u) (db_users db)\<rparr>"
  | "fst (sq_DeleteDepartment fl i db) = db\<lparr>db_users := map (\<lambda>u. if user_DepartmentID u = i then u\<lparr>user_DepartmentID := ''''\<rparr> else u) (db_users db),
      db_departments := filter (\<lambda>d. dept_ID d \<noteq> i) (db_departments db)\<rparr>"
proof (cases "fl (Exec 0)")
  case None
  note zero = None
  show ?thesis
  proof (cases "fl (Exec 1) = None \<and> i \<in> dept_ID ` set (db_departments db)")
    case True
    with zero that(3) show ?thesis by (simp add: sq_DeleteDepartment_def exec_def commit_or_keep_def)
  next
    case False
    with zero that(2) show ?thesis by (auto simp: sq_DeleteDepartment_def exec_def commit_or_keep_def split: option.splits if_splits)
  qed
next
  case (Some e)
  with that(1) show ?thesis by (simp add: sq_DeleteDepartment_def exec_def)
qed

lemma sq_DeleteDepartment_inv: "sq_inv db \<Longrightarrow> sq_inv (fst (sq_DeleteDepartment fl i db))"
proof -
  assume inv: "sq_inv db"
  let ?us = "map (\<lambda>u. if user_DepartmentID u = i then u\<lparr>user_DepartmentID := ''''\<rparr> else u) (db_users db)"
  have "map user_ID ?us = map user_ID (db_users db)" "map user_Name ?us = map user_Name (db_users db)" by simp_all
  then show ?thesis using inv
    by (cases rule: sq_DeleteDepartment_cases [of fl i db]) (simp_all add: sq_inv_def keys_ok_def shares_ok_def distinct_map_filter del: map_map)
qed

lemma sq_do_err: "sq_do fl x db = (db', Some e) \<Longrightarrow> (\<forall>i. x \<noteq> QDeleteDepartment i) \<Longrightarrow> db' = db"
  by (cases x) (auto simp: sq_Create_def sq_Update_def sq_Delete_def single_defs elim!: transaction_cases commit_or_keep_cases)

lemma sq_do_inv:
  assumes "sq_inv db"
  shows "sq_inv (fst (sq_do fl x db))"
proof (cases "\<exists>i. x = QDeleteDepartment i")
  case True
  then show ?thesis using sq_DeleteDepartment_inv [OF assms] by auto
next
  case False
  obtain db' e where r: "sq_do fl x db = (db', e)" by fastforce
  show ?thesis
  proof (cases e)
    case None
    with r assms False show ?thesis
      by (cases x) (auto dest: sq_Create_inv sq_Update_inv sq_Delete_inv sq_UpdateUser_inv sq_UpdateDepartment_inv append_inv sq_RevokeShareLink_inv)
  next
    case (Some err)
    with r sq_do_err [of fl x db db' err] False assms show ?thesis by auto
  qed
qed

text \<open>C10: The tables stay consistent whatever is done and whichever statements fail: keys and unique columns stay unique, and the share index
  holds exactly the pairs the artifacts' share lists name.\<close>

theorem sqlite_keeps_invariant:
  assumes "sq_inv db"
  shows "sq_inv (fst (sq_do fl x db))"
  using assms by (rule sq_do_inv)

theorem sqlite_keeps_invariant_witness:
  "sq_inv (fst (sq_do (\<lambda>_. None) (QCreate ((sample_artifact ''1'' ''a'')\<lparr>art_SharedWith := [''bob'']\<rparr>)) empty_db))"
  by (rule sqlite_keeps_invariant) (simp add: sq_inv_def keys_ok_def shares_ok_def empty_db_def)

text \<open>An operation that reports an error has changed nothing: the multi-statement writes are transactions.  The one exception is deleting a
  department.\<close>

theorem sqlite_failure_changes_nothing:
  assumes "sq_do fl x db = (db', Some e)" "\<forall>i. x \<noteq> QDeleteDepartment i"
  shows "db' = db"
  using assms by (rule sq_do_err)

theorem sqlite_failure_changes_nothing_witness:
  "fst (sq_do (\<lambda>st. if st = Exec 2 then Some ''disk full'' else None)
     (QCreate ((sample_artifact ''1'' ''a'')\<lparr>art_SharedWith := [''bob'']\<rparr>)) empty_db) = empty_db"
proof -
  let ?fl = "\<lambda>st. if st = Exec 2 then Some ''disk full'' else None"
  let ?x = "QCreate ((sample_artifact ''1'' ''a'')\<lparr>art_SharedWith := [''bob'']\<rparr>)"
  have "snd (sq_do ?fl ?x empty_db) = Some (EDriver ''inserting artifact share'' ''disk full'')"
    by (simp add: sq_Create_def transaction_def commit_or_keep_def exec_def and_then_def syncArtifactShares_def empty_db_def sample_artifact_def)
  then have "sq_do ?fl ?x empty_db = (fst (sq_do ?fl ?x empty_db), Some (EDriver ''inserting artifact share'' ''disk full''))"
    by (metis prod.collapse)
  from sqlite_failure_changes_nothing [OF this] show ?thesis by simp
qed

text \<open>Deleting a department that does not exist reports so, and has taken its members out of it all the same.\<close>

theorem missing_department_is_cleared:
  "\<exists>db. snd (sq_DeleteDepartment (\<lambda>_. None) ''d'' db) = Some (EDeptNotFound ''d'') \<and> fst (sq_DeleteDepartment (\<lambda>_. None) ''d'' db) \<noteq> db"
proof -
  let ?u = "\<lparr>user_ID = ''u'', user_Name = ''u'', user_Email = '''', user_Role = ''user'', user_Status = ''active'', user_Provider = ''local'',
    user_DepartmentID = ''d'', user_APIKeyHash = '''', user_CreatedAt = 0, user_UpdatedAt = 0\<rparr>"
  show ?thesis by (intro exI [of _ "empty_db\<lparr>db_users := [?u]\<rparr>"]) (simp add: sq_DeleteDepartment_def exec_def commit_or_keep_def empty_db_def)
qed

lemma fold_insert_ignore: "set (fold insert_ignore xs acc) = set xs \<union> set acc \<and> (distinct acc \<longrightarrow> distinct (fold insert_ignore xs acc))"
  by (induction xs arbitrary: acc) (auto simp: insert_ignore_def)

text \<open>Opening a database of a release without the share index builds it: if the keys are unique, the invariant holds afterwards.\<close>

theorem backfill_builds_index:
  assumes "keys_ok db" "db_artifact_shares db = []"
  shows "sq_inv (backfill db)"
proof -
  let ?ps = "concat (map (\<lambda>a. map (Pair (art_ID a)) (art_SharedWith a)) (db_artifacts db))"
  have "distinct (fold insert_ignore ?ps [])" "set (fold insert_ignore ?ps []) = set ?ps" using fold_insert_ignore [of ?ps "[]"] by simp_all
  then show ?thesis using assms by (auto simp: backfill_def sq_inv_def keys_ok_def shares_ok_def)
qed

theorem backfill_builds_index_witness:
  "sq_inv (backfill (empty_db\<lparr>db_artifacts := [(sample_artifact ''1'' ''a'')\<lparr>art_SharedWith := [''bob'', ''bob'']\<rparr>]\<rparr>))"
  by (rule backfill_builds_index) (simp_all add: keys_ok_def empty_db_def)

subsection \<open>Reading\<close>

lemma sq_where_listed: "shares_ok db \<Longrightarrow> distinct (map art_ID (db_artifacts db)) \<Longrightarrow> a \<in> set (db_artifacts db) \<Longrightarrow> sq_where opts db a = listed opts a"
proof -
  assume s: "shares_ok db" and d: "distinct (map art_ID (db_artifacts db))" and a: "a \<in> set (db_artifacts db)"
  have "art_ID a \<in> fst ` {r \<in> set (db_artifact_shares db). snd r = w} \<longleftrightarrow> w \<in> set (art_SharedWith a)" if "w \<noteq> ''''" for w
  proof -
    have "art_ID a \<in> fst ` {r \<in> set (db_artifact_shares db). snd r = w} \<longleftrightarrow> (art_ID a, w) \<in> set (db_artifact_shares db)" by force
    also have "\<dots> \<longleftrightarrow> (\<exists>b \<in> set (db_artifacts db). art_ID b = art_ID a \<and> w \<in> set (art_SharedWith b))"
      using s that by (simp add: shares_ok_def)
    also have "\<dots> \<longleftrightarrow> w \<in> set (art_SharedWith a)" using a d by (auto simp: distinct_map inj_on_def)
    finally show ?thesis .
  qed
  then show ?thesis by (simp add: sq_where_def listed_def)
qed

text \<open>C25: The indexed listing is the plain one: with the share index, \<open>List\<close> selects exactly the artifacts that the linear search of the in-memory
  store selects from their share lists, and its total is their number.\<close>

theorem indexed_list_is_plain_list:
  assumes "sq_inv db" "\<And>xs. mset (ord xs) = mset xs" "lo_Limit opts = 0"
    "sq_List fl ord opts db db = Ok (rows, tot)"
  shows "mset rows = mset (map sq_summary (filter (listed opts) (db_artifacts db))) \<and> tot = length (filter (listed opts) (db_artifacts db))"
proof -
  have f: "filter (sq_where opts db) (db_artifacts db) = filter (listed opts) (db_artifacts db)"
    using assms(1) by (intro filter_cong refl) (simp add: sq_inv_def keys_ok_def sq_where_listed)
  show ?thesis using assms(2-4) by (auto simp: sq_List_def f sq_page_def)
qed

theorem indexed_list_is_plain_list_witness:
  "\<exists>rows. sq_List (\<lambda>_. None) (\<lambda>xs. xs) \<lparr>lo_StatusFilter = '''', lo_OwnerID = ''bob'', lo_AdminView = False, lo_Offset = 0, lo_Limit = 0\<rparr>
       (backfill (empty_db\<lparr>db_artifacts := [(sample_artifact ''1'' ''a'')\<lparr>art_SharedWith := [''bob'']\<rparr>]\<rparr>))
       (backfill (empty_db\<lparr>db_artifacts := [(sample_artifact ''1'' ''a'')\<lparr>art_SharedWith := [''bob'']\<rparr>]\<rparr>)) = Ok (rows, 1)"
proof -
  let ?db = "backfill (empty_db\<lparr>db_artifacts := [(sample_artifact ''1'' ''a'')\<lparr>art_SharedWith := [''bob'']\<rparr>]\<rparr>)"
  let ?o = "\<lparr>lo_StatusFilter = '''', lo_OwnerID = ''bob'', lo_AdminView = False, lo_Offset = 0, lo_Limit = 0\<rparr>"
  have k: "keys_ok (empty_db\<lparr>db_artifacts := [(sample_artifact ''1'' ''a'')\<lparr>art_SharedWith := [''bob'']\<rparr>]\<rparr>)" by (simp add: keys_ok_def empty_db_def)
  have inv: "sq_inv ?db"
    using k by (auto simp: sq_inv_def backfill_def empty_db_def insert_ignore_def shares_ok_def keys_ok_def)
  obtain rows tot where r: "sq_List (\<lambda>_. None) (\<lambda>xs. xs) ?o ?db ?db = Ok (rows, tot)"
    by (cases "sq_List (\<lambda>_. None) (\<lambda>xs. xs) ?o ?db ?db") (auto simp: sq_List_def exec_def and_then_def)
  have "tot = length (filter (listed ?o) (db_artifacts ?db))"
    using indexed_list_is_plain_list [OF inv _ _ r] by simp
  also have "\<dots> = 1" by (simp add: backfill_def empty_db_def listed_def)
  finally show ?thesis using r by simp
qed

subsection \<open>The artifact contract again\<close>

text \<open>Without failing statements the store is an \<open>artifact_store\<close>, like the in-memory one.\<close>

definition no_faults :: faults where
  "no_faults = (\<lambda>_. None)"

definition api_of :: "sql_error option \<Rightarrow> api_error option" where
  "api_of e = (case e of Some (EApi a) \<Rightarrow> Some a | _ \<Rightarrow> None)"

fun sq_step :: "store_op \<Rightarrow> SQLiteDB \<Rightarrow> SQLiteDB \<times> api_error option" where
  "sq_step (OCreate a) db = (case sq_Create no_faults a db of (db', e) \<Rightarrow> (db', api_of e))"
| "sq_step (OUpdate a) db = (case sq_Update no_faults a db of (db', e) \<Rightarrow> (db', api_of e))"
| "sq_step (ODelete i) db = (case sq_Delete no_faults i db of (db', e) \<Rightarrow> (db', api_of e))"

definition sq_view :: "SQLiteDB \<Rightarrow> abstract_store" where
  "sq_view db = map_of (map (\<lambda>a. (art_ID a, a)) (db_artifacts db))"

definition api_result :: "Artifact sql \<Rightarrow> (api_error, Artifact) result" where
  "api_result r = (case r of Ok a \<Rightarrow> Ok a | Err (EApi e) \<Rightarrow> Err e | Err _ \<Rightarrow> Err (ErrNotFound ''''))"

lemma insertShares_no_faults: "\<exists>rows'. insertShares no_faults n i shared rows = Ok rows'"
  by (induction "no_faults" n i shared rows rule: insertShares.induct) (auto simp: exec_def no_faults_def)

lemma sync_no_faults: "\<exists>rows. syncArtifactShares no_faults n i shared db = Ok (db\<lparr>db_artifact_shares := rows\<rparr>)"
proof -
  obtain rows where "insertShares no_faults (n + 1) i shared (filter (\<lambda>(a, _). a \<noteq> i) (db_artifact_shares db)) = Ok rows"
    using insertShares_no_faults by blast
  then show ?thesis by (auto simp: syncArtifactShares_def exec_def and_then_def no_faults_def)
qed

lemma sq_view_Some: "distinct (map art_ID (db_artifacts db)) \<Longrightarrow> sq_view db i = Some a \<longleftrightarrow> a \<in> set (db_artifacts db) \<and> art_ID a = i"
  unfolding sq_view_def by (subst map_of_eq_Some_iff) (auto simp: comp_def)

lemma sq_view_None: "sq_view db i = None \<longleftrightarrow> i \<notin> art_ID ` set (db_artifacts db)"
  unfolding sq_view_def map_of_eq_None_iff by (simp add: image_image)

lemma inv_keys: "sq_inv db \<Longrightarrow> distinct (map art_ID (db_artifacts db)) \<and> distinct (map art_Name (db_artifacts db))"
  by (simp add: sq_inv_def keys_ok_def)

lemma no_faults_None [simp]: "no_faults st = None"
  by (simp add: no_faults_def)

lemma exec_no_faults [simp]: "exec no_faults st ctx r = r"
  by (simp add: exec_def)

lemma transaction_no_faults: "transaction no_faults body db = commit_or_keep db (body db)"
  by (cases "body db") (simp_all add: transaction_def and_then_def)

lemma sq_Create_no_faults:
  "\<exists>rows. sq_Create no_faults a db = (if art_ID a \<in> art_ID ` set (db_artifacts db) \<or> art_Name a \<in> art_Name ` set (db_artifacts db)
     then (db, Some (EApi (ErrAlreadyExists (art_Name a))))
     else (db\<lparr>db_artifacts := db_artifacts db @ [a], db_artifact_shares := rows\<rparr>, None))"
  using sync_no_faults [of 1 "art_ID a" "art_SharedWith a" "db\<lparr>db_artifacts := db_artifacts db @ [a]\<rparr>"]
  by (auto simp: sq_Create_def transaction_no_faults and_then_def commit_or_keep_def)

lemma sq_Update_no_faults:
  "\<exists>rows. sq_Update no_faults a db = (if art_ID a \<notin> art_ID ` set (db_artifacts db) then (db, Some (EApi (ErrNotFound (art_ID a))))
     else if name_clash a (db_artifacts db) then (db, Some (EDriver ''updating artifact'' unique_failed))
     else (db\<lparr>db_artifacts := map (\<lambda>b. if art_ID b = art_ID a then a else b) (db_artifacts db), db_artifact_shares := rows\<rparr>, None))"
proof -
  obtain rows where "syncArtifactShares no_faults 1 (art_ID a) (art_SharedWith a) (db\<lparr>db_artifacts := map (\<lambda>b. if art_ID b = art_ID a then a else b) (db_artifacts db)\<rparr>) =
      Ok (db\<lparr>db_artifacts := map (\<lambda>b. if art_ID b = art_ID a then a else b) (db_artifacts db)\<rparr>\<lparr>db_artifact_shares := rows\<rparr>)"
    using sync_no_faults by blast
  then show ?thesis by (intro exI [of _ rows]) (simp add: sq_Update_def transaction_no_faults and_then_def commit_or_keep_def)
qed

lemma sq_Delete_no_faults:
  "sq_Delete no_faults i db = (if i \<notin> art_ID ` set (db_artifacts db) then (db, Some (EApi (ErrNotFound i)))
     else (db\<lparr>db_artifacts := filter (\<lambda>a. art_ID a \<noteq> i) (db_artifacts db), db_versions := filter (\<lambda>v. av_ArtifactID v \<noteq> i) (db_versions db),
       db_artifact_shares := filter (\<lambda>(a, _). a \<noteq> i) (db_artifact_shares db)\<rparr>, None))"
  by (simp add: sq_Delete_def transaction_no_faults and_then_def commit_or_keep_def)

lemma sq_step_inv: "sq_inv db \<Longrightarrow> sq_inv (fst (sq_step x db))"
proof -
  assume inv: "sq_inv db"
  have "\<exists>y. fst (sq_step x db) = fst (sq_do no_faults y db)"
  proof (cases x)
    case (OCreate a)
    then show ?thesis by (intro exI [of _ "QCreate a"]) (simp add: case_prod_beta)
  next
    case (OUpdate a)
    then show ?thesis by (intro exI [of _ "QUpdate a"]) (simp add: case_prod_beta)
  next
    case (ODelete i)
    then show ?thesis by (intro exI [of _ "QDelete i"]) (simp add: case_prod_beta)
  qed
  then show ?thesis using sq_do_inv [OF inv] by metis
qed

lemma named_view: "distinct (map art_ID (db_artifacts db)) \<Longrightarrow> (\<exists>i b. named (sq_view db) n i b) \<longleftrightarrow> n \<in> art_Name ` set (db_artifacts db)"
  by (auto simp: named_def sq_view_Some)

lemma view_append:
  assumes "distinct (map art_ID (db_artifacts db))" "art_ID a \<notin> art_ID ` set (db_artifacts db)"
  shows "sq_view (db\<lparr>db_artifacts := db_artifacts db @ [a], db_artifact_shares := rows\<rparr>) = (sq_view db)(art_ID a \<mapsto> a)"
proof (rule map_eqI)
  fix j x
  have "sq_view (db\<lparr>db_artifacts := db_artifacts db @ [a], db_artifact_shares := rows\<rparr>) j = Some x \<longleftrightarrow>
      x \<in> set (db_artifacts db @ [a]) \<and> art_ID x = j" using assms by (subst sq_view_Some) auto
  then show "sq_view (db\<lparr>db_artifacts := db_artifacts db @ [a], db_artifact_shares := rows\<rparr>) j = Some x \<longleftrightarrow> ((sq_view db)(art_ID a \<mapsto> a)) j = Some x"
    using assms by (auto simp: sq_view_Some image_iff)
qed

lemma view_replace:
  assumes "distinct (map art_ID (db_artifacts db))" "art_ID a \<in> art_ID ` set (db_artifacts db)"
  shows "sq_view (db\<lparr>db_artifacts := map (\<lambda>b. if art_ID b = art_ID a then a else b) (db_artifacts db), db_artifact_shares := rows\<rparr>) = (sq_view db)(art_ID a \<mapsto> a)"
proof (rule map_eqI)
  let ?db = "db\<lparr>db_artifacts := map (\<lambda>b. if art_ID b = art_ID a then a else b) (db_artifacts db), db_artifact_shares := rows\<rparr>"
  fix j x
  have "map art_ID (db_artifacts ?db) = map art_ID (db_artifacts db)" by simp
  then have "sq_view ?db j = Some x \<longleftrightarrow> x \<in> set (db_artifacts ?db) \<and> art_ID x = j" using assms(1) by (intro sq_view_Some) metis
  then show "sq_view ?db j = Some x \<longleftrightarrow> ((sq_view db)(art_ID a \<mapsto> a)) j = Some x"
    using assms by (auto simp: sq_view_Some image_iff split: if_splits)
qed

lemma view_remove:
  assumes "distinct (map art_ID (db_artifacts db))"
  shows "sq_view (db\<lparr>db_artifacts := filter (\<lambda>a. art_ID a \<noteq> i) (db_artifacts db), db_versions := vs, db_artifact_shares := rows\<rparr>) = (sq_view db)(i := None)"
proof (rule map_eqI)
  fix j x
  show "sq_view (db\<lparr>db_artifacts := filter (\<lambda>a. art_ID a \<noteq> i) (db_artifacts db), db_versions := vs, db_artifact_shares := rows\<rparr>) j = Some x \<longleftrightarrow>
      ((sq_view db)(i := None)) j = Some x"
    using assms by (subst sq_view_Some) (auto simp: sq_view_Some distinct_map_filter)
qed

lemma sq_step_refines:
  assumes "sq_inv db" "disciplined x (sq_view db)" "sq_step x db = (db', r)"
  shows "spec_do x (sq_view db) = (sq_view db', r)"
proof (cases x)
  case (OCreate a)
  have new: "art_ID a \<notin> art_ID ` set (db_artifacts db)" using assms(2) OCreate by (simp add: sq_view_None)
  obtain rows where "sq_Create no_faults a db = (if art_ID a \<in> art_ID ` set (db_artifacts db) \<or> art_Name a \<in> art_Name ` set (db_artifacts db)
     then (db, Some (EApi (ErrAlreadyExists (art_Name a))))
     else (db\<lparr>db_artifacts := db_artifacts db @ [a], db_artifact_shares := rows\<rparr>, None))" using sq_Create_no_faults by blast
  with assms(3) OCreate new view_append [OF conjunct1 [OF inv_keys [OF assms(1)]] new, of rows]
    named_view [OF conjunct1 [OF inv_keys [OF assms(1)]], of "art_Name a"] show ?thesis by (auto simp: api_of_def split: if_splits)
next
  case (OUpdate a)
  show ?thesis
  proof (cases "art_ID a \<in> art_ID ` set (db_artifacts db)")
    case False
    then have "sq_view db (art_ID a) = None" by (simp add: sq_view_None)
    moreover have "sq_Update no_faults a db = (db, Some (EApi (ErrNotFound (art_ID a))))" using sq_Update_no_faults [of a db] False by auto
    ultimately show ?thesis using assms(3) OUpdate by (simp add: api_of_def)
  next
    case True
    then obtain b where b: "b \<in> set (db_artifacts db)" "art_ID b = art_ID a" by auto
    then have v: "sq_view db (art_ID a) = Some b" using inv_keys [OF assms(1)] by (simp add: sq_view_Some)
    then have n: "art_Name b = art_Name a" using assms(2) OUpdate by simp
    have "\<not> name_clash a (db_artifacts db)"
      using inv_keys [OF assms(1)] b n unfolding name_clash_def distinct_map inj_on_def by metis
    then obtain rows where "sq_Update no_faults a db =
        (db\<lparr>db_artifacts := map (\<lambda>b. if art_ID b = art_ID a then a else b) (db_artifacts db), db_artifact_shares := rows\<rparr>, None)"
      using sq_Update_no_faults [of a db] True by auto
    with assms(3) OUpdate v view_replace [OF conjunct1 [OF inv_keys [OF assms(1)]] True, of rows] show ?thesis by (simp add: api_of_def)
  qed
next
  case (ODelete i)
  show ?thesis
  proof (cases "i \<in> art_ID ` set (db_artifacts db)")
    case False
    then have "sq_view db i = None" by (simp add: sq_view_None)
    then show ?thesis using assms(3) ODelete False by (simp add: api_of_def sq_Delete_no_faults)
  next
    case True
    then have "sq_view db i \<noteq> None" by (simp add: sq_view_None)
    then show ?thesis using assms(3) ODelete True view_remove [OF conjunct1 [OF inv_keys [OF assms(1)]]] by (auto simp: api_of_def sq_Delete_no_faults)
  qed
qed

lemma find_named: "distinct (map f xs) \<Longrightarrow> find (\<lambda>a. f a = k) xs = Some a \<longleftrightarrow> a \<in> set xs \<and> f a = k"
  by (induction xs) auto

lemma find_id: "find (\<lambda>a. f a = k) xs = map_of (map (\<lambda>a. (f a, a)) xs) k"
  by (induction xs) auto

interpretation sqlite: artifact_store sq_inv sq_view sq_step
  "\<lambda>i db. api_result (sq_Get no_faults i db)" "\<lambda>n db. Some (api_result (sq_GetByName no_faults n db))"
proof unfold_locales
  fix db x db' r assume "sq_inv db" "disciplined x (sq_view db)" "sq_step x db = (db', r)"
  then show "sq_inv db' \<and> spec_do x (sq_view db) = (sq_view db', r)" using sq_step_refines sq_step_inv [of db x] by simp
next
  fix db i
  show "api_result (sq_Get no_faults i db) = (case sq_view db i of None \<Rightarrow> Err (ErrNotFound i) | Some a \<Rightarrow> Ok a)"
    by (simp add: sq_Get_def api_result_def find_id sq_view_def split: option.splits)
next
  fix db n a assume inv: "sq_inv db"
  have "find (\<lambda>a. art_Name a = n) (db_artifacts db) = Some a \<longleftrightarrow> (\<exists>i. named (sq_view db) n i a)"
    using inv_keys [OF inv] by (auto simp: named_def sq_view_Some find_named)
  then show "Some (api_result (sq_GetByName no_faults n db)) = Some (Ok a) \<longleftrightarrow> (\<exists>i. named (sq_view db) n i a)"
    by (auto simp: sq_GetByName_def api_result_def split: option.splits)
qed simp

text \<open>C18: On the same disciplined runs the SQLite store and the in-memory store give the same results, the same errors and the same artifacts by id.\<close>

theorem sqlite_agrees_with_memory:
  assumes "disciplined_run xs Map.empty"
  shows "snd (run_ops sq_step xs empty_db) = snd (run_ops ms_step xs NewMemoryStore) \<and>
    api_result (sq_Get no_faults i (fst (run_ops sq_step xs empty_db))) = ms_Get i (fst (run_ops ms_step xs NewMemoryStore))"
proof -
  have e: "sq_inv empty_db" "sq_view empty_db = Map.empty" by (simp_all add: sq_inv_def keys_ok_def shares_ok_def empty_db_def sq_view_def)
  obtain db rs s ss where r: "run_ops sq_step xs empty_db = (db, rs)" "run_ops ms_step xs NewMemoryStore = (s, ss)" by fastforce
  have 1: "sq_inv db" "run_ops spec_do xs Map.empty = (sq_view db, rs)" using sqlite.run_refines [OF e(1) _ r(1)] assms e(2) by simp_all
  have 2: "ms_inv s" "run_ops spec_do xs Map.empty = (ms_artifacts s, ss)" using mem.run_refines [OF ms_inv_new(1) _ r(2)] assms by (simp_all add: ms_inv_new)
  show ?thesis using 1 2 r sqlite.get_view [OF 1(1)] mem.get_view [OF 2(1)] by simp
qed

theorem sqlite_agrees_with_memory_witness:
  "snd (run_ops sq_step [OCreate (sample_artifact ''1'' ''a''), OCreate (sample_artifact ''2'' ''a''), ODelete ''1''] empty_db) =
   [None, Some (ErrAlreadyExists ''a''), None]"
proof -
  let ?xs = "[OCreate (sample_artifact ''1'' ''a''), OCreate (sample_artifact ''2'' ''a''), ODelete ''1'']"
  have "disciplined_run ?xs Map.empty" by (auto simp: sample_artifact_def named_def)
  from sqlite_agrees_with_memory [OF this] have "snd (run_ops sq_step ?xs empty_db) = snd (run_ops ms_step ?xs NewMemoryStore)" by blast
  also have "\<dots> = [None, Some (ErrAlreadyExists ''a''), None]"
    by (simp add: NewMemoryStore_def ms_Create_def ms_Delete_def sample_artifact_def)
  finally show ?thesis .
qed

subsection \<open>Share links\<close>

lemma find_append_new: "k \<notin> f ` set xs \<Longrightarrow> f x = k \<Longrightarrow> find (\<lambda>r. f r = k) (xs @ [x]) = Some x"
  by (induction xs) auto

lemma find_replace:
  assumes "\<And>b. f (g b) = f b"
  shows "find (\<lambda>r. f r = k) (map (\<lambda>r. if f r = t then g r else r) xs) =
    map_option (\<lambda>r. if f r = t then g r else r) (find (\<lambda>r. f r = k) xs)"
  using assms by (induction xs) auto

text \<open>C23: A share link reads back as it was created: the password hash and the owner are kept, it is not revoked, and its expiry is the
  requested one cut to the second, so it never lives longer than asked for; after a revocation, and nothing else, it reads as revoked.\<close>

theorem share_link_round_trip:
  assumes "sq_CreateShareLink fl l h db = (db1, None)"
  shows "\<exists>l'. sq_GetShareLink no_faults (sl_Token l) db1 = Ok (l', h) \<and>
      l' = l\<lparr>sl_HasPassword := h \<noteq> '''', sl_ExpiresAt := sl_ExpiresAt l', sl_Revoked := False, sl_URL := ''''\<rparr> \<and>
      (case sl_ExpiresAt l of None \<Rightarrow> sl_ExpiresAt l' = None | Some t \<Rightarrow> \<exists>t'. sl_ExpiresAt l' = Some t' \<and> t' \<le> t \<and> t < t' + second) \<and>
      sq_GetShareLink no_faults (sl_Token l) (fst (sq_RevokeShareLink no_faults (sl_Token l) db1)) = Ok (l'\<lparr>sl_Revoked := True\<rparr>, h)"
proof -
  have new: "sl_Token l \<notin> lr_Token ` set (db_share_links db)" and db1: "db1 = db\<lparr>db_share_links := db_share_links db @ [linkRow l h]\<rparr>"
    using append_Ok(3) [OF assms] by auto
  have f: "find (\<lambda>r. lr_Token r = sl_Token l) (db_share_links db1) = Some (linkRow l h)"
    unfolding db1 using new by (simp add: find_append_new linkRow_def)
  have g: "sq_GetShareLink no_faults (sl_Token l) db1 = Ok (scanLink (linkRow l h), h)"
    by (simp add: sq_GetShareLink_def f) (simp add: linkRow_def)
  have m: "(t - t mod second) \<le> t \<and> t < (t - t mod second) + second" for t
    using pos_mod_bound [of second t] pos_mod_sign [of second t] by (simp add: second_def)
  have "fst (sq_RevokeShareLink no_faults (sl_Token l) db1) =
      db1\<lparr>db_share_links := map (\<lambda>r. if lr_Token r = sl_Token l then r\<lparr>lr_Revoked := True\<rparr> else r) (db_share_links db1)\<rparr>"
    by (simp add: sq_RevokeShareLink_def commit_or_keep_def db1 linkRow_def)
  then have "sq_GetShareLink no_faults (sl_Token l) (fst (sq_RevokeShareLink no_faults (sl_Token l) db1)) =
      Ok ((scanLink (linkRow l h))\<lparr>sl_Revoked := True\<rparr>, h)"
    by (simp add: sq_GetShareLink_def find_replace f) (simp add: linkRow_def scanLink_def)
  with g m show ?thesis
    by (intro exI [of _ "scanLink (linkRow l h)"]) (auto simp: scanLink_def linkRow_def split: option.splits)
qed

definition sample_link :: ShareLink where
  "sample_link = \<lparr>sl_Token = ''t'', sl_ArtifactID = ''a'', sl_CreatedBy = ''al'', sl_HasPassword = True, sl_ExpiresAt = Some 1500000000, sl_CreatedAt = 7,
     sl_Revoked = False, sl_URL = ''''\<rparr>"

theorem share_link_round_trip_witness:
  "\<exists>l'. sq_GetShareLink no_faults (sl_Token sample_link) (fst (sq_CreateShareLink no_faults sample_link ''h'' empty_db)) = Ok (l', ''h'')"
proof -
  have "sq_CreateShareLink no_faults sample_link ''h'' empty_db = (fst (sq_CreateShareLink no_faults sample_link ''h'' empty_db), None)"
    by (simp add: sq_CreateShareLink_def commit_or_keep_def empty_db_def)
  from share_link_round_trip [OF this] show ?thesis by blast
qed

subsection \<open>The order of times\<close>

text \<open>\<open>time.RFC3339Nano\<close> in UTC: date and time to the second (\<open>dat\<close>, the text \<open>2006-01-02T15:04:05\<close>), the nanoseconds without trailing zeros, \<open>Z\<close>.
  The columns \<open>created_at\<close> and \<open>ts\<close> hold this text, and \<open>ORDER BY\<close> compares it byte by byte.\<close>

definition frac9 :: "int \<Rightarrow> string" where
  "frac9 n = (let d = Itoa n in replicate (9 - length d) (CHR ''0'') @ d)"

definition fraction :: "int \<Rightarrow> string" where
  "fraction n = (if n = 0 then '''' else CHR ''.'' # rev (dropWhile (\<lambda>c. c = CHR ''0'') (rev (frac9 n))))"

definition RFC3339Nano :: "(int \<Rightarrow> string) \<Rightarrow> time \<Rightarrow> string" where
  "RFC3339Nano dat t = dat (t div second) @ fraction (t mod second) @ ''Z''"

definition desc_by :: "('a \<Rightarrow> 'k :: linorder) \<Rightarrow> ('a list \<Rightarrow> 'a list) \<Rightarrow> bool" where
  "desc_by k ord \<longleftrightarrow> (\<forall>xs. mset (ord xs) = mset xs \<and> sorted_wrt (\<lambda>a b. k b \<le> k a) (ord xs))"

lemma less_append: "(u :: string) < v \<Longrightarrow> p @ u < p @ v"
  by (induction p) auto

text \<open>A listing is in the order of the texts, which is not the order of the times: of two audit events in the same second, one on the full second
  and one later, the earlier one is listed first, and a query for one event returns only it.\<close>

theorem audit_order_is_not_by_time:
  assumes "desc_by (\<lambda>e. RFC3339Nano dat (ae_Time e)) ord"
    "ae_Time e1 = n * second" "ae_Time e2 = n * second + 500 * millisecond"
    "audit_match q e1" "audit_match q e2" "aq_Limit q = 1" "ae_ID e1 \<noteq> ae_ID e2"
  shows "ae_Time e1 < ae_Time e2 \<and> sq_ListAudit no_faults ord q (empty_db\<lparr>db_audit := [e1, e2]\<rparr>) = Ok [e1]"
proof -
  let ?k = "\<lambda>e. RFC3339Nano dat (ae_Time e)"
  have i: "Itoa 500000000 = ''500000000''" 
  proof -
    have "digit_char 5 = CHR ''5''" "digit_char 0 = CHR ''0''" by code_simp+
    then show ?thesis by (simp add: Itoa_def itoa_nat.simps [of "numeral _"] itoa_nat.simps [of 0])
  qed
  have "?k e1 = dat n @ ''Z''" using assms(2) by (simp add: RFC3339Nano_def second_def fraction_def)
  moreover have "?k e2 = dat n @ ''.5Z''"
    using assms(3) by (simp add: RFC3339Nano_def second_def millisecond_def fraction_def frac9_def i Let_def)
  moreover have "''.5Z'' < (''Z'' :: string)" by (simp add: less_char_def)
  ultimately have less: "?k e2 < ?k e1" using less_append by simp
  have "mset (ord [e1, e2]) = mset [e1, e2]" and s: "sorted_wrt (\<lambda>a b. ?k b \<le> ?k a) (ord [e1, e2])" using assms(1) unfolding desc_by_def by blast+
  then have "length (ord [e1, e2]) = 2" "set (ord [e1, e2]) = {e1, e2}" using mset_eq_length mset_eq_setD by fastforce+
  then obtain x y where xy: "ord [e1, e2] = [x, y]" "{x, y} = {e1, e2}" by (auto simp: numeral_2_eq_2 length_Suc_conv)
  have "e1 \<noteq> e2" using assms(7) by auto
  with xy(2) s less have "x = e1" unfolding xy(1) by (auto simp: doubleton_eq_iff)
  then show ?thesis using assms(2-6) xy(1)
    by (simp add: sq_ListAudit_def auditLimit_def maxAuditLimit_def second_def millisecond_def)
qed

lemma desc_by_sort: "desc_by k (\<lambda>xs. rev (sort_key k xs))"
proof -
  have "sorted_wrt (\<lambda>a b. k b \<le> k a) (rev (sort_key k xs))" for xs
    using sorted_sort_key [of k xs] by (simp add: sorted_wrt_rev sorted_wrt_map)
  then show ?thesis by (simp add: desc_by_def)
qed

theorem audit_order_is_not_by_time_witness:
  "sq_ListAudit no_faults (\<lambda>xs. rev (sort_key (\<lambda>e. RFC3339Nano (\<lambda>_. ''2026-01-01T00:00:00'') (ae_Time e)) xs)) (sample_query\<lparr>aq_Limit := 1\<rparr>)
     (empty_db\<lparr>db_audit := [sample_event, sample_event\<lparr>ae_ID := ''2'', ae_Time := 500 * millisecond\<rparr>]\<rparr>) = Ok [sample_event]"
  by (rule conjunct2 [OF audit_order_is_not_by_time [OF desc_by_sort, of _ 0]])
    (simp_all add: audit_match_def sample_query_def sample_event_def audit_event_def)

subsection \<open>Users\<close>

text \<open>What the authentication layer relies on.  A call may fail at any time, so an operation returns the next state of the store too;
  \<open>users\<close> is what the store holds.\<close>

record 's UserStore =
  us_GetUser :: "string \<Rightarrow> 's \<Rightarrow> 's \<times> User sql"
  us_GetUserByAPIKeyHash :: "string \<Rightarrow> 's \<Rightarrow> 's \<times> User sql"
  us_CreateUser :: "User \<Rightarrow> 's \<Rightarrow> 's \<times> sql_error option"
  us_UpdateUser :: "User \<Rightarrow> 's \<Rightarrow> 's \<times> sql_error option"
  us_GetDepartmentByName :: "string \<Rightarrow> 's \<Rightarrow> 's \<times> Department sql"
  us_CreateDepartment :: "Department \<Rightarrow> 's \<Rightarrow> 's \<times> sql_error option"

locale user_store =
  fixes us :: "'s UserStore"
    and inv :: "'s \<Rightarrow> bool"
    and users :: "'s \<Rightarrow> string \<rightharpoonup> User"
  assumes get: "inv s \<Longrightarrow> us_GetUser us i s = (s', r) \<Longrightarrow> inv s' \<and> users s' = users s \<and> (\<forall>u. r = Ok u \<longrightarrow> users s i = Some u \<and> user_ID u = i)"
    and byhash: "inv s \<Longrightarrow> us_GetUserByAPIKeyHash us h s = (s', r) \<Longrightarrow> inv s' \<and> users s' = users s \<and>
      (\<forall>u. r = Ok u \<longrightarrow> users s (user_ID u) = Some u \<and> user_APIKeyHash u = h \<and> h \<noteq> '''')"
    and create: "inv s \<Longrightarrow> us_CreateUser us u s = (s', e) \<Longrightarrow> inv s' \<and>
      users s' = (if e = None then (users s)(user_ID u \<mapsto> u) else users s) \<and> (e = None \<longrightarrow> users s (user_ID u) = None)"
    and update: "inv s \<Longrightarrow> us_UpdateUser us u s = (s', e) \<Longrightarrow> inv s' \<and>
      (e = None \<longrightarrow> (\<exists>row. users s (user_ID u) = Some row \<and> users s' = (users s)(user_ID u \<mapsto> user_set u row))) \<and> (e \<noteq> None \<longrightarrow> users s' = users s)"
    and depts: "inv s \<Longrightarrow> us_GetDepartmentByName us n s = (s', rd) \<Longrightarrow> inv s' \<and> users s' = users s"
      "inv s \<Longrightarrow> us_CreateDepartment us d s = (s', e) \<Longrightarrow> inv s' \<and> users s' = users s"

text \<open>The SQLite store: the state counts the calls, so that any of them may fail (\<open>fl\<close>).\<close>

definition sqlite_users :: "(nat \<Rightarrow> faults) \<Rightarrow> (SQLiteDB \<times> nat) UserStore" where
  "sqlite_users fl =
     \<lparr>us_GetUser = (\<lambda>i (db, n). ((db, n + 1), sq_GetUser (fl n) i db)),
      us_GetUserByAPIKeyHash = (\<lambda>h (db, n). ((db, n + 1), sq_GetUserByAPIKeyHash (fl n) (\<lambda>us. us) h db)),
      us_CreateUser = (\<lambda>u (db, n). case sq_CreateUser (fl n) u db of (db', r) \<Rightarrow> ((db', n + 1), r)),
      us_UpdateUser = (\<lambda>u (db, n). case sq_UpdateUser (fl n) u db of (db', r) \<Rightarrow> ((db', n + 1), r)),
      us_GetDepartmentByName = (\<lambda>name (db, n). ((db, n + 1), sq_GetDepartmentByName (fl n) name db)),
      us_CreateDepartment = (\<lambda>d (db, n). case sq_CreateDepartment (fl n) d db of (db', r) \<Rightarrow> ((db', n + 1), r))\<rparr>"

definition user_view :: "SQLiteDB \<Rightarrow> string \<rightharpoonup> User" where
  "user_view db = map_of (map (\<lambda>u. (user_ID u, u)) (db_users db))"

lemma user_view_Some: "distinct (map user_ID (db_users db)) \<Longrightarrow> user_view db i = Some u \<longleftrightarrow> u \<in> set (db_users db) \<and> user_ID u = i"
  unfolding user_view_def by (subst map_of_eq_Some_iff) (auto simp: comp_def)

lemma user_keys: "sq_inv db \<Longrightarrow> distinct (map user_ID (db_users db))"
  by (simp add: sq_inv_def keys_ok_def)

lemma commit_or_keep_None: "commit_or_keep db r = (db', None) \<longleftrightarrow> r = Ok db'"
  by (auto simp: commit_or_keep_def split: sum.splits)

lemma user_view_create:
  assumes "sq_inv db" "sq_CreateUser fl u db = (db', None)"
  shows "user_view db' = (user_view db)(user_ID u \<mapsto> u)" "user_view db (user_ID u) = None"
proof -
  have n: "user_ID u \<notin> user_ID ` set (db_users db)" and d: "db' = db\<lparr>db_users := db_users db @ [u]\<rparr>" using append_Ok(2) [OF assms(2)] by auto
  show "user_view db (user_ID u) = None" using n unfolding user_view_def map_of_eq_None_iff by (simp add: image_image)
  show "user_view db' = (user_view db)(user_ID u \<mapsto> u)"
  proof (rule map_eqI)
    fix j x
    have "user_view db' j = Some x \<longleftrightarrow> x \<in> set (db_users db') \<and> user_ID x = j"
      using user_keys [OF append_inv(2) [OF assms(2,1)]] by (rule user_view_Some)
    then show "user_view db' j = Some x \<longleftrightarrow> ((user_view db)(user_ID u \<mapsto> u)) j = Some x"
      using n user_keys [OF assms(1)] by (auto simp: d user_view_Some image_iff)
  qed
qed

lemma user_view_update:
  assumes "sq_inv db" "sq_UpdateUser fl u db = (db', None)"
  obtains row where "user_view db (user_ID u) = Some row" "user_view db' = (user_view db)(user_ID u \<mapsto> user_set u row)"
proof -
  from assms(2) have "user_ID u \<in> user_ID ` set (db_users db)"
    and d: "db' = db\<lparr>db_users := map (\<lambda>b. if user_ID b = user_ID u then user_set u b else b) (db_users db)\<rparr>"
    unfolding sq_UpdateUser_def commit_or_keep_None by (auto split: if_splits)
  then obtain row where row: "row \<in> set (db_users db)" "user_ID row = user_ID u" by auto
  note k = user_keys [OF assms(1)]
  have "user_view db' = (user_view db)(user_ID u \<mapsto> user_set u row)"
  proof (rule map_eqI)
    fix j x
    have "user_view db' j = Some x \<longleftrightarrow> x \<in> set (db_users db') \<and> user_ID x = j"
      using user_keys [OF sq_UpdateUser_inv [OF assms]] by (rule user_view_Some)
    moreover have one: "b = row" if "b \<in> set (db_users db)" "user_ID b = user_ID u" for b
      using k that row by (auto simp: distinct_map inj_on_def)
    moreover have "x \<in> set (db_users db') \<longleftrightarrow> (x \<in> set (db_users db) \<and> user_ID x \<noteq> user_ID u) \<or> x = user_set u row"
    proof
      assume "x \<in> set (db_users db')"
      then obtain b where "b \<in> set (db_users db)" "x = (if user_ID b = user_ID u then user_set u b else b)" by (auto simp: d)
      then show "(x \<in> set (db_users db) \<and> user_ID x \<noteq> user_ID u) \<or> x = user_set u row" using one by (cases "user_ID b = user_ID u") auto
    next
      assume "(x \<in> set (db_users db) \<and> user_ID x \<noteq> user_ID u) \<or> x = user_set u row"
      then show "x \<in> set (db_users db')" using row by (auto simp: d)
    qed
    moreover have "user_ID (user_set u row) = user_ID u" using row(2) by (simp add: user_set_def)
    ultimately show "user_view db' j = Some x \<longleftrightarrow> ((user_view db)(user_ID u \<mapsto> user_set u row)) j = Some x"
      using k by (cases "j = user_ID u") (auto simp: user_view_Some)
  qed
  with that row k show ?thesis by (simp add: user_view_Some)
qed

interpretation sqlite_users: user_store "sqlite_users fl" "sq_inv \<circ> fst" "user_view \<circ> fst" for fl
proof unfold_locales
  fix s i s' r assume "(sq_inv \<circ> fst) s" "us_GetUser (sqlite_users fl) i s = (s', r)"
  then show "(sq_inv \<circ> fst) s' \<and> (user_view \<circ> fst) s' = (user_view \<circ> fst) s \<and> (\<forall>u. r = Ok u \<longrightarrow> (user_view \<circ> fst) s i = Some u \<and> user_ID u = i)"
    by (cases s) (auto simp: sqlite_users_def sq_GetUser_def find_id user_view_def find_Some_iff dest: map_of_SomeD split: option.splits)
next
  fix s h s' r assume a: "(sq_inv \<circ> fst) s" "us_GetUserByAPIKeyHash (sqlite_users fl) h s = (s', r)"
  obtain db n where s: "s = (db, n)" by fastforce
  have r: "s' = (db, n + 1)" "r = sq_GetUserByAPIKeyHash (fl n) (\<lambda>us. us) h db" using a(2) by (simp_all add: s sqlite_users_def)
  have "user_view db (user_ID u) = Some u \<and> user_APIKeyHash u = h \<and> h \<noteq> ''''" if "r = Ok u" for u
  proof -
    from that obtain us where "filter (\<lambda>u. user_APIKeyHash u = h \<and> user_APIKeyHash u \<noteq> '''') (db_users db) = u # us"
      unfolding r sq_GetUserByAPIKeyHash_def by (auto split: list.splits)
    then have "u \<in> set (db_users db) \<and> user_APIKeyHash u = h \<and> h \<noteq> ''''" by (auto simp: filter_eq_Cons_iff)
    then show ?thesis using a(1) by (simp add: s user_view_Some user_keys)
  qed
  then show "(sq_inv \<circ> fst) s' \<and> (user_view \<circ> fst) s' = (user_view \<circ> fst) s \<and>
      (\<forall>u. r = Ok u \<longrightarrow> (user_view \<circ> fst) s (user_ID u) = Some u \<and> user_APIKeyHash u = h \<and> h \<noteq> '''')"
    using a(1) r(1) by (simp add: s)
next
  fix s u s' r assume a: "(sq_inv \<circ> fst) s" "us_CreateUser (sqlite_users fl) u s = (s', r)"
  obtain db n where s: "s = (db, n)" by fastforce
  obtain db' where c: "sq_CreateUser (fl n) u db = (db', r)" "s' = (db', n + 1)" using a(2) by (auto simp: s sqlite_users_def split: prod.splits)
  show "(sq_inv \<circ> fst) s' \<and> (user_view \<circ> fst) s' = (if r = None then ((user_view \<circ> fst) s)(user_ID u \<mapsto> u) else (user_view \<circ> fst) s) \<and>
      (r = None \<longrightarrow> (user_view \<circ> fst) s (user_ID u) = None)"
  proof (cases r)
    case None
    with c a(1) append_inv(2) [of "fl n" u db db'] user_view_create [of db "fl n" u db'] show ?thesis by (simp add: s)
  next
    case (Some e)
    with c a(1) sq_do_err [of "fl n" "QCreateUser u" db db' e] show ?thesis by (simp add: s)
  qed
next
  fix s u s' r assume a: "(sq_inv \<circ> fst) s" "us_UpdateUser (sqlite_users fl) u s = (s', r)"
  obtain db n where s: "s = (db, n)" by fastforce
  obtain db' where c: "sq_UpdateUser (fl n) u db = (db', r)" "s' = (db', n + 1)" using a(2) by (auto simp: s sqlite_users_def split: prod.splits)
  show "(sq_inv \<circ> fst) s' \<and>
      (r = None \<longrightarrow> (\<exists>row. (user_view \<circ> fst) s (user_ID u) = Some row \<and> (user_view \<circ> fst) s' = ((user_view \<circ> fst) s)(user_ID u \<mapsto> user_set u row))) \<and>
      (r \<noteq> None \<longrightarrow> (user_view \<circ> fst) s' = (user_view \<circ> fst) s)"
  proof (cases r)
    case None
    then have u: "sq_UpdateUser (fl n) u db = (db', None)" and i: "sq_inv db" using c a(1) by (simp_all add: s)
    obtain row where "user_view db (user_ID u) = Some row" "user_view db' = (user_view db)(user_ID u \<mapsto> user_set u row)"
      using i u by (rule user_view_update)
    with sq_UpdateUser_inv [OF i u] None c(2) show ?thesis by (simp add: s)
  next
    case (Some e)
    with c a(1) sq_do_err [of "fl n" "QUpdateUser u" db db' e] show ?thesis by (simp add: s)
  qed
next
  fix s n s' rd assume "(sq_inv \<circ> fst) s" "us_GetDepartmentByName (sqlite_users fl) n s = (s', rd)"
  then show "(sq_inv \<circ> fst) s' \<and> (user_view \<circ> fst) s' = (user_view \<circ> fst) s" by (cases s) (auto simp: sqlite_users_def)
next
  fix s d s' r assume a: "(sq_inv \<circ> fst) s" "us_CreateDepartment (sqlite_users fl) d s = (s', r)"
  obtain db n where s: "s = (db, n)" by fastforce
  obtain db' where c: "sq_CreateDepartment (fl n) d db = (db', r)" "s' = (db', n + 1)" using a(2) by (auto simp: s sqlite_users_def split: prod.splits)
  show "(sq_inv \<circ> fst) s' \<and> (user_view \<circ> fst) s' = (user_view \<circ> fst) s"
  proof (cases r)
    case None
    with c a(1) append_inv(4) [of "fl n" d db db'] append_Ok(4) [of "fl n" d db db'] show ?thesis by (simp add: s user_view_def)
  next
    case (Some e)
    with c a(1) sq_do_err [of "fl n" "QCreateDepartment d" db db' e] show ?thesis by (simp add: s)
  qed
qed

end
