(* ===== verification/Auth.thy ===== *)
theory Auth
  imports Sqlite Egress
begin

section \<open>Authentication\<close>

text \<open>
  \<open>src/internal/auth\<close>: the token verifiers of the three built-in modes, user provisioning, the identity cache and the middleware, as
  \<open>src/pkg/server/server.go\<close> chains them (authentication outside, role injection inside), and \<open>src/internal/config/resolve.go\<close>.

  The user store is any store that meets the contract \<open>user_store\<close>; its calls may fail.  Parameters (\<open>auth_env\<close>) are the bearer check of the MCP SDK
  (which takes the token out of the \<open>Authorization\<close> header), the OIDC library's verification of a token, SHA-256, and Go's address parsing.
  A request is handled in one step; \<open>now\<close> is the time at which it is handled.
\<close>

subsection \<open>Secrets (config.ResolveSecret)\<close>

definition Cut :: "string \<Rightarrow> byte \<Rightarrow> (string \<times> string) option" where
  "Cut s b = map_option (\<lambda>i. (take i s, drop (i + 1) s)) (IndexByte s b)"

definition builtin_schemes :: "(string \<Rightarrow> string) \<Rightarrow> (string \<Rightarrow> (string, string) result) \<Rightarrow> (string \<rightharpoonup> (string \<Rightarrow> (string, string) result))" where
  "builtin_schemes getenv readFile =
     [''env'' \<mapsto> (\<lambda>ref. if getenv ref \<noteq> '''' then Ok (getenv ref) else Err (''environment variable '' @ Quote ref @ '' is not set'')),
      ''file'' \<mapsto> (\<lambda>ref. case readFile ref of Err e \<Rightarrow> Err (''reading secret file '' @ Quote ref @ '': '' @ e) | Ok content \<Rightarrow> Ok (TrimSpace content))]"

definition ResolveSecret :: "(string \<rightharpoonup> (string \<Rightarrow> (string, string) result)) \<Rightarrow> string \<Rightarrow> (string, string) result" where
  "ResolveSecret schemes v =
     (case Cut v (CHR '':'') of
        None \<Rightarrow> Ok v
      | Some (scheme, ref) \<Rightarrow> (case schemes scheme of None \<Rightarrow> Ok v | Some r \<Rightarrow> r ref))"

record APIKeyConf =
  ak_Key :: string
  ak_Name :: string
  ak_Scopes :: "string list"
  ak_Role :: string
  ak_Department :: string

record resolvedAPIKey =
  rk_conf :: APIKeyConf
  rk_secret :: string

definition resolveAPIKeys :: "(string \<rightharpoonup> (string \<Rightarrow> (string, string) result)) \<Rightarrow> APIKeyConf list \<Rightarrow> resolvedAPIKey list" where
  "resolveAPIKeys schemes keys =
     map (\<lambda>key. \<lparr>rk_conf = key, rk_secret = (case ResolveSecret schemes (ak_Key key) of
        Ok secret \<Rightarrow> if secret = '''' then ak_Key key else secret | Err e \<Rightarrow> ak_Key key)\<rparr>) keys"

subsection \<open>The TTL cache (identity.go)\<close>

record Identity =
  id_ID :: string
  id_Name :: string
  id_Email :: string
  id_Role :: string
  id_Status :: string
  id_Provider :: string
  id_DepartmentID :: string

definition identityCacheMaxEntries :: nat where
  "identityCacheMaxEntries = 50000"

definition identityCacheEvictSample :: nat where
  "identityCacheEvictSample = 16"

type_synonym 'v ttl_entries = "(string \<times> 'v \<times> time) list"

record 'v ttlCache =
  tc_ttl :: duration
  tc_max :: nat
  tc_entries :: "'v ttl_entries"

definition newTTLCache :: "duration \<Rightarrow> nat \<Rightarrow> 'v ttlCache" where
  "newTTLCache ttl mx = \<lparr>tc_ttl = ttl, tc_max = mx, tc_entries = []\<rparr>"

definition tc_get :: "time \<Rightarrow> string \<Rightarrow> 'v ttlCache \<Rightarrow> 'v option" where
  "tc_get now key c =
     (if tc_ttl c \<le> 0 then None
      else case map_of (tc_entries c) key of None \<Rightarrow> None | Some (v, expiresAt) \<Rightarrow> if now > expiresAt then None else Some v)"

text \<open>\<open>iter\<close> is the order in which Go visits the map.\<close>

definition soonestStep :: "string \<times> 'v \<times> time \<Rightarrow> (string \<times> time) option \<Rightarrow> (string \<times> time) option" where
  "soonestStep e victim = (case e of (k, _, t) \<Rightarrow>
     case victim of None \<Rightarrow> Some (k, t) | Some (_, best) \<Rightarrow> if t < best then Some (k, t) else victim)"

definition evictSoonestSampled :: "('v ttl_entries \<Rightarrow> 'v ttl_entries) \<Rightarrow> 'v ttl_entries \<Rightarrow> 'v ttl_entries" where
  "evictSoonestSampled iter es =
     (case fold soonestStep (take identityCacheEvictSample (iter es)) None of None \<Rightarrow> es | Some (victim, _) \<Rightarrow> filter (\<lambda>e. fst e \<noteq> victim) es)"

definition tc_put :: "('v ttl_entries \<Rightarrow> 'v ttl_entries) \<Rightarrow> time \<Rightarrow> string \<Rightarrow> 'v \<Rightarrow> 'v ttlCache \<Rightarrow> 'v ttlCache" where
  "tc_put iter now key v c =
     (if tc_ttl c \<le> 0 then c
      else let es = (if map_of (tc_entries c) key = None \<and> length (tc_entries c) \<ge> tc_max c then evictSoonestSampled iter (tc_entries c) else tc_entries c)
           in c\<lparr>tc_entries := (key, v, now + tc_ttl c) # filter (\<lambda>e. fst e \<noteq> key) es\<rparr>)"

definition identityOf :: "User \<Rightarrow> Identity" where
  "identityOf u = \<lparr>id_ID = user_ID u, id_Name = user_Name u, id_Email = user_Email u, id_Role = user_Role u, id_Status = user_Status u,
     id_Provider = user_Provider u, id_DepartmentID = user_DepartmentID u\<rparr>"

text \<open>\<open>Resolve\<close>; without a store there is no identity.\<close>

definition Resolve ::
  "'s UserStore option \<Rightarrow> (Identity ttl_entries \<Rightarrow> Identity ttl_entries) \<Rightarrow> time \<Rightarrow> string \<Rightarrow> Identity ttlCache \<times> 's \<Rightarrow>
   (Identity ttlCache \<times> 's) \<times> Identity option" where
  "Resolve userStore iter now userID cs =
     (case userStore of
        None \<Rightarrow> (cs, None)
      | Some us \<Rightarrow>
          if userID = '''' then (cs, None)
          else (case tc_get now userID (fst cs) of
              Some ident \<Rightarrow> (cs, Some ident)
            | None \<Rightarrow> (case us_GetUser us userID (snd cs) of
                (s', Err e) \<Rightarrow> ((fst cs, s'), None)
              | (s', Ok u) \<Rightarrow> ((tc_put iter now userID (identityOf u) (fst cs), s'), Some (identityOf u)))))"

subsection \<open>Verifiers\<close>

record TokenInfo =
  ti_UserID :: string
  ti_Scopes :: "string list"
  ti_Expiration :: time

record 's auth =
  at_store :: 's
  at_identities :: "Identity ttlCache"
  at_fingerprints :: "string ttlCache"
  at_provisioned :: "string set"

record http_req =
  q_Path :: string
  q_Authorization :: string
  q_ForwardedUser :: string
  q_RemoteAddr :: string

definition apiKeyUserID :: "string \<Rightarrow> string" where
  "apiKeyUserID name = (if name = '''' then '''' else ''apikey-'' @ name)"

definition role_or_user :: "string \<Rightarrow> string" where
  "role_or_user role = (if role = '''' then ''user'' else role)"

fun hex_nat :: "nat \<Rightarrow> string" where
  "hex_nat n = (if n < 16 then [hex_digit n] else hex_nat (n div 16) @ [hex_digit (n mod 16)])"

declare hex_nat.simps [simp del]

text \<open>The department of an API key: none configured, found, created, or unresolved (\<open>None\<close>).\<close>

definition provisionDepartment :: "'s UserStore \<Rightarrow> time \<Rightarrow> APIKeyConf \<Rightarrow> 's \<Rightarrow> 's \<times> string option" where
  "provisionDepartment us now key s =
     (if ak_Department key = '''' then (s, Some '''')
      else case us_GetDepartmentByName us (ak_Department key) s of
        (s1, Ok d) \<Rightarrow> (s1, Some (dept_ID d))
      | (s1, Err _) \<Rightarrow>
          let dept = \<lparr>dept_ID = ''dept-'' @ hex_nat (nat now), dept_Name = ak_Department key, dept_Namespace = '''', dept_CreatedAt = now, dept_UpdatedAt = now\<rparr> in
          (case us_CreateDepartment us dept s1 of
             (s2, None) \<Rightarrow> (s2, Some (dept_ID dept))
           | (s2, Some _) \<Rightarrow> (case us_GetDepartmentByName us (ak_Department key) s2 of
               (s3, Ok d) \<Rightarrow> (s3, Some (dept_ID d))
             | (s3, Err _) \<Rightarrow> (s3, None))))"

definition autoProvisionAPIKeyUser :: "'s UserStore \<Rightarrow> time \<Rightarrow> APIKeyConf \<Rightarrow> 's \<Rightarrow> 's \<times> bool" where
  "autoProvisionAPIKeyUser us now key s =
     (let userID = apiKeyUserID (ak_Name key) in
      case us_GetUser us userID s of
        (s1, Ok _) \<Rightarrow> (s1, True)
      | (s1, Err _) \<Rightarrow>
          (case provisionDepartment us now key s1 of
             (s2, None) \<Rightarrow> (s2, False)
           | (s2, Some deptID) \<Rightarrow>
               let user = \<lparr>user_ID = userID, user_Name = ak_Name key, user_Email = '''', user_Role = role_or_user (ak_Role key), user_Status = ''active'',
                     user_Provider = ''local'', user_DepartmentID = deptID, user_APIKeyHash = '''', user_CreatedAt = now, user_UpdatedAt = now\<rparr> in
               (case us_CreateUser us user s2 of
                  (s3, None) \<Rightarrow> (s3, True)
                | (s3, Some _) \<Rightarrow> (case us_GetUser us userID s3 of (s4, Ok _) \<Rightarrow> (s4, True) | (s4, Err _) \<Rightarrow> (s4, False)))))"

text \<open>The latch of a key trips on durable success only.\<close>

definition latch_provision :: "'s UserStore \<Rightarrow> time \<Rightarrow> APIKeyConf \<Rightarrow> 's auth \<Rightarrow> 's auth" where
  "latch_provision us now key st =
     (if ak_Name key \<in> at_provisioned st then st
      else case autoProvisionAPIKeyUser us now key (at_store st) of
        (s', ok) \<Rightarrow> st\<lparr>at_store := s', at_provisioned := (if ok then insert (ak_Name key) (at_provisioned st) else at_provisioned st)\<rparr>)"

definition hours :: "int \<Rightarrow> duration" where
  "hours n = n * 60 * minute"

text \<open>A verifier's result: \<open>None\<close> is \<open>ErrInvalidToken\<close>.\<close>

definition apiKeyVerifier ::
  "(string \<Rightarrow> string) \<Rightarrow> 's UserStore option \<Rightarrow> resolvedAPIKey list \<Rightarrow> time \<Rightarrow> string \<Rightarrow> 's auth \<Rightarrow> 's auth \<times> TokenInfo option" where
  "apiKeyVerifier sha256 userStore keys now token st =
     (case find (\<lambda>key. rk_secret key = token) keys of
        Some key \<Rightarrow>
          ((case userStore of Some us \<Rightarrow> if ak_Name (rk_conf key) \<noteq> '''' then latch_provision us now (rk_conf key) st else st | None \<Rightarrow> st),
           Some \<lparr>ti_UserID = apiKeyUserID (ak_Name (rk_conf key)), ti_Scopes = ak_Scopes (rk_conf key), ti_Expiration = now + hours 24\<rparr>)
      | None \<Rightarrow>
          (case userStore of
             None \<Rightarrow> (st, None)
           | Some us \<Rightarrow> (case us_GetUserByAPIKeyHash us (EncodeToString (sha256 token)) (at_store st) of
               (s', Ok u) \<Rightarrow> (st\<lparr>at_store := s'\<rparr>, Some \<lparr>ti_UserID = user_ID u, ti_Scopes = [], ti_Expiration = now + hours 24\<rparr>)
             | (s', Err _) \<Rightarrow> (st\<lparr>at_store := s'\<rparr>, None))))"

definition parseTrustedProxies :: "(string \<Rightarrow> (Addr \<Rightarrow> bool) option) \<Rightarrow> string list \<Rightarrow> (Addr \<Rightarrow> bool) list" where
  "parseTrustedProxies parseCIDR cidrs = List.map_filter (\<lambda>c. parseCIDR (TrimSpace c)) cidrs"

definition remoteIPTrusted :: "(string \<Rightarrow> Addr option) \<Rightarrow> string \<Rightarrow> (Addr \<Rightarrow> bool) list \<Rightarrow> bool" where
  "remoteIPTrusted parseIP remoteAddr trusted =
     (if trusted = [] then False
      else let host = (case SplitHostPort remoteAddr of Some h \<Rightarrow> h | None \<Rightarrow> remoteAddr) in
           case parseIP host of None \<Rightarrow> False | Some ip \<Rightarrow> list_ex (\<lambda>n. n ip) trusted)"

definition oauthPassthroughVerifier ::
  "(string \<Rightarrow> Addr option) \<Rightarrow> resolvedAPIKey list \<Rightarrow> (Addr \<Rightarrow> bool) list \<Rightarrow> time \<Rightarrow> string \<Rightarrow> http_req \<Rightarrow> TokenInfo option" where
  "oauthPassthroughVerifier parseIP keys trusted now token req =
     (if token = '''' then None
      else if \<not> list_ex (\<lambda>key. rk_secret key = token) keys then None
      else let userID = (if q_ForwardedUser req \<noteq> '''' \<and> remoteIPTrusted parseIP (q_RemoteAddr req) trusted then q_ForwardedUser req else ''oauth-user'')
           in Some \<lparr>ti_UserID = userID, ti_Scopes = [], ti_Expiration = now + hours 1\<rparr>)"

subsection \<open>OIDC\<close>

datatype json = JStr string | JArr "json list" | JObj "(string \<times> json) list" | JOther

definition extractStringClaim :: "(string \<times> json) list \<Rightarrow> string \<Rightarrow> string" where
  "extractStringClaim claims key = (case map_of claims key of Some (JStr s) \<Rightarrow> s | _ \<Rightarrow> '''')"

text \<open>A missing member of an object is a nil interface, which no type assertion accepts.\<close>

definition json_member :: "json \<Rightarrow> string \<Rightarrow> json" where
  "json_member j key = (case j of JObj ms \<Rightarrow> (case map_of ms key of Some v \<Rightarrow> v | None \<Rightarrow> JOther) | _ \<Rightarrow> JOther)"

definition strings_of :: "json list \<Rightarrow> string list" where
  "strings_of js = List.map_filter (\<lambda>j. case j of JStr s \<Rightarrow> Some s | _ \<Rightarrow> None) js"

definition extractRoleClaims :: "(string \<times> json) list \<Rightarrow> string \<Rightarrow> string list" where
  "extractRoleClaims claims path =
     (case fold (\<lambda>part current. json_member current part) (split_on (CHR ''.'') path) (JObj claims) of JArr js \<Rightarrow> strings_of js | _ \<Rightarrow> [])"

definition is_slug :: "byte \<Rightarrow> bool" where
  "is_slug c \<longleftrightarrow> c \<in> set ''abcdefghijklmnopqrstuvwxyz0123456789''"

fun slugLoop :: "string \<Rightarrow> bool \<Rightarrow> string" where
  "slugLoop [] prevDash = []"
| "slugLoop (c # cs) prevDash =
     (if is_slug c then c # slugLoop cs False else if prevDash then slugLoop cs True else CHR ''-'' # slugLoop cs True)"

definition TrimDash :: "string \<Rightarrow> string" where
  "TrimDash s = rev (dropWhile (\<lambda>c. c = CHR ''-'') (rev (dropWhile (\<lambda>c. c = CHR ''-'') s)))"

definition slugify :: "string \<Rightarrow> string" where
  "slugify s = TrimDash (slugLoop (ToLower s) False)"

definition resolveOIDCDepartment :: "'s UserStore \<Rightarrow> string \<Rightarrow> time \<Rightarrow> (string \<times> json) list \<Rightarrow> 's \<Rightarrow> 's \<times> string" where
  "resolveOIDCDepartment us departmentClaim now claims s =
     (if departmentClaim = '''' then (s, '''')
      else let name = extractStringClaim claims departmentClaim in
      if name = '''' then (s, '''')
      else case us_GetDepartmentByName us name s of
        (s1, Ok d) \<Rightarrow> (s1, dept_ID d)
      | (s1, Err _) \<Rightarrow>
          let dept = \<lparr>dept_ID = ''dept-'' @ slugify name, dept_Name = name, dept_Namespace = '''', dept_CreatedAt = now, dept_UpdatedAt = now\<rparr> in
          (case us_CreateDepartment us dept s1 of
             (s2, None) \<Rightarrow> (s2, dept_ID dept)
           | (s2, Some _) \<Rightarrow> (case us_GetDepartmentByName us name s2 of (s3, Ok d) \<Rightarrow> (s3, dept_ID d) | (s3, Err _) \<Rightarrow> (s3, ''''))))"

datatype bind_refused = BindRefused string string

text \<open>\<open>syncOIDCUser\<close>: whether the store now matches the claims, or the refusal to bind to an account of another provider.\<close>

definition syncOIDCUser ::
  "'s UserStore \<Rightarrow> time \<Rightarrow> string \<Rightarrow> string \<Rightarrow> string \<Rightarrow> string \<Rightarrow> string \<Rightarrow> 's \<Rightarrow> 's \<times> (bind_refused, bool) result" where
  "syncOIDCUser us now sub username email role deptID s =
     (case us_GetUser us sub s of
        (s1, Ok existing) \<Rightarrow>
          if user_Provider existing \<noteq> ''oidc'' then (s1, Err (BindRefused (user_Provider existing) sub))
          else let e1 = existing\<lparr>user_Role := role\<rparr>;
                   e2 = (if email \<noteq> '''' then e1\<lparr>user_Email := email\<rparr> else e1);
                   e3 = (if deptID \<noteq> '''' then e2\<lparr>user_DepartmentID := deptID\<rparr> else e2)
               in if e3 = existing then (s1, Ok True)
                  else (case us_UpdateUser us (e3\<lparr>user_UpdatedAt := now\<rparr>) s1 of (s2, None) \<Rightarrow> (s2, Ok True) | (s2, Some _) \<Rightarrow> (s2, Ok False))
      | (s1, Err _) \<Rightarrow>
          let u = \<lparr>user_ID = sub, user_Name = username, user_Email = email, user_Role = role, user_Status = ''active'', user_Provider = ''oidc'',
                user_DepartmentID = deptID, user_APIKeyHash = '''', user_CreatedAt = now, user_UpdatedAt = now\<rparr> in
          (case us_CreateUser us u s1 of (s2, None) \<Rightarrow> (s2, Ok True) | (s2, Some _) \<Rightarrow> (s2, Ok False)))"

definition fingerprint :: "string \<Rightarrow> string \<Rightarrow> string \<Rightarrow> string \<Rightarrow> string" where
  "fingerprint username email role dept = Quote username @ ''|'' @ Quote email @ ''|'' @ Quote role @ ''|'' @ Quote dept"

definition oidc_sync ::
  "'s UserStore \<Rightarrow> (string ttl_entries \<Rightarrow> string ttl_entries) \<Rightarrow> string \<Rightarrow> time \<Rightarrow> string \<Rightarrow> string \<Rightarrow> string \<Rightarrow> string \<Rightarrow> (string \<times> json) list \<Rightarrow>
   's auth \<Rightarrow> 's auth \<times> bind_refused option" where
  "oidc_sync us iter departmentClaim now sub username email role claims st =
     (let deptName = (if departmentClaim \<noteq> '''' then extractStringClaim claims departmentClaim else '''');
          fp = fingerprint username email role deptName
      in if tc_get now sub (at_fingerprints st) = Some fp then (st, None)
         else case resolveOIDCDepartment us departmentClaim now claims (at_store st) of (s1, deptID) \<Rightarrow>
           (case syncOIDCUser us now sub username email role deptID s1 of
              (s2, Err e) \<Rightarrow> (st\<lparr>at_store := s2\<rparr>, Some e)
            | (s2, Ok persisted) \<Rightarrow>
                (st\<lparr>at_store := s2, at_fingerprints := (if persisted then tc_put iter now sub fp (at_fingerprints st) else at_fingerprints st)\<rparr>, None)))"

record OIDCConfig =
  oc_Issuer :: string
  oc_Audience :: string
  oc_UsernameClaim :: string
  oc_EmailClaim :: string
  oc_RoleClaim :: string
  oc_AdminRole :: string
  oc_DepartmentClaim :: string

record IDToken =
  it_Subject :: string
  it_Claims :: "(string \<times> json) list option"
  it_Expiry :: time

definition or_default :: "string \<Rightarrow> string \<Rightarrow> string" where
  "or_default s d = (if s = '''' then d else s)"

text \<open>\<open>verify\<close> is the library's check of signature, issuer, audience and expiry.\<close>

definition oidcVerifier ::
  "(string \<Rightarrow> IDToken option) \<Rightarrow> OIDCConfig \<Rightarrow> 's UserStore option \<Rightarrow> (string ttl_entries \<Rightarrow> string ttl_entries) \<Rightarrow> time \<Rightarrow> string \<Rightarrow> 's auth \<Rightarrow>
   's auth \<times> TokenInfo option" where
  "oidcVerifier verify cfg userStore iter now token st =
     (case verify token of
        None \<Rightarrow> (st, None)
      | Some idToken \<Rightarrow>
          (case it_Claims idToken of
             None \<Rightarrow> (st, None)
           | Some claims \<Rightarrow>
               let sub = it_Subject idToken;
                   username = or_default (extractStringClaim claims (or_default (oc_UsernameClaim cfg) ''preferred_username'')) sub;
                   email = extractStringClaim claims (or_default (oc_EmailClaim cfg) ''email'');
                   role = (if or_default (oc_AdminRole cfg) ''vibed-admin'' \<in> set (extractRoleClaims claims (or_default (oc_RoleClaim cfg) ''realm_access.roles''))
                           then ''admin'' else ''user'');
                   ok = (\<lambda>st. (st, Some \<lparr>ti_UserID = sub, ti_Scopes = [], ti_Expiration = it_Expiry idToken\<rparr>))
               in (case userStore of
                     None \<Rightarrow> ok st
                   | Some us \<Rightarrow> (case oidc_sync us iter (oc_DepartmentClaim cfg) now sub username email role claims st of
                       (st', Some e) \<Rightarrow> (st', None)
                     | (st', None) \<Rightarrow> ok st'))))"

subsection \<open>Request context\<close>

record req_context =
  cx_userID :: string
  cx_token :: "TokenInfo option"
  cx_identity :: "Identity option"
  cx_role :: string

definition background :: req_context where
  "background = \<lparr>cx_userID = '''', cx_token = None, cx_identity = None, cx_role = ''''\<rparr>"

definition UserIDFromContext :: "req_context \<Rightarrow> string" where
  "UserIDFromContext cx = (if cx_userID cx \<noteq> '''' then cx_userID cx else case cx_token cx of None \<Rightarrow> '''' | Some info \<Rightarrow> ti_UserID info)"

definition RoleFromContext :: "req_context \<Rightarrow> string" where
  "RoleFromContext cx = (if cx_role cx \<noteq> '''' then cx_role cx else ''user'')"

definition IsAdmin :: "req_context \<Rightarrow> bool" where
  "IsAdmin cx \<longleftrightarrow> RoleFromContext cx = ''admin''"

subsection \<open>Middleware\<close>

datatype auth_outcome = Refused nat | Handled req_context

text \<open>The providers of the three built-in modes, and \<open>Build\<close>'s choice among them.\<close>

record AuthConfig =
  ac_Enabled :: bool
  ac_Mode :: string
  ac_APIKeys :: "APIKeyConf list"
  ac_OIDC :: OIDCConfig
  ac_TrustedProxies :: "string list"
  ac_IdentityCacheTTL :: duration

record auth_env =
  ax_sha256 :: "string \<Rightarrow> string"
  ax_schemes :: "string \<rightharpoonup> (string \<Rightarrow> (string, string) result)"
  ax_parseIP :: "string \<Rightarrow> Addr option"
  ax_parseCIDR :: "string \<Rightarrow> (Addr \<Rightarrow> bool) option"
  ax_verify :: "string \<Rightarrow> IDToken option"
  ax_discover :: "string \<Rightarrow> string option"
  ax_bearer :: "string \<Rightarrow> string option"
  ax_iter :: "Identity ttl_entries \<Rightarrow> Identity ttl_entries"
  ax_iterFP :: "string ttl_entries \<Rightarrow> string ttl_entries"

datatype provider = PApiKey "resolvedAPIKey list" | POauth "resolvedAPIKey list" "(Addr \<Rightarrow> bool) list" | POidc OIDCConfig

datatype build_error = UnknownMode string | NoAPIKeys | NoProxySecrets | Discovery string | NoAudience

definition lookupProvider :: "auth_env \<Rightarrow> AuthConfig \<Rightarrow> (build_error, provider) result" where
  "lookupProvider ax cfg =
     (let mode = or_default (ac_Mode cfg) ''apikey'' in
      if mode = ''apikey'' then
        (if ac_APIKeys cfg = [] then Err NoAPIKeys else Ok (PApiKey (resolveAPIKeys (ax_schemes ax) (ac_APIKeys cfg))))
      else if mode = ''oauth'' then
        (if ac_APIKeys cfg = [] then Err NoProxySecrets
         else Ok (POauth (resolveAPIKeys (ax_schemes ax) (ac_APIKeys cfg)) (parseTrustedProxies (ax_parseCIDR ax) (ac_TrustedProxies cfg))))
      else if mode = ''oidc'' then
        (case ax_discover ax (oc_Issuer (ac_OIDC cfg)) of
           Some e \<Rightarrow> Err (Discovery e)
         | None \<Rightarrow> if oc_Audience (ac_OIDC cfg) = '''' then Err NoAudience else Ok (POidc (ac_OIDC cfg)))
      else Err (UnknownMode mode))"

definition verifyToken ::
  "auth_env \<Rightarrow> provider \<Rightarrow> 's UserStore option \<Rightarrow> time \<Rightarrow> string \<Rightarrow> http_req \<Rightarrow> 's auth \<Rightarrow> 's auth \<times> TokenInfo option" where
  "verifyToken ax p userStore now token req st =
     (case p of
        PApiKey keys \<Rightarrow> apiKeyVerifier (ax_sha256 ax) userStore keys now token st
      | POauth keys trusted \<Rightarrow> (st, oauthPassthroughVerifier (ax_parseIP ax) keys trusted now token req)
      | POidc cfg \<Rightarrow> oidcVerifier (ax_verify ax) cfg userStore (ax_iterFP ax) now token st)"

text \<open>The status checker that \<open>Build\<close> puts behind the token check.\<close>

definition statusChecker ::
  "auth_env \<Rightarrow> 's UserStore option \<Rightarrow> (req_context \<Rightarrow> 's auth \<Rightarrow> 's auth \<times> auth_outcome) \<Rightarrow> time \<Rightarrow> req_context \<Rightarrow> 's auth \<Rightarrow> 's auth \<times> auth_outcome" where
  "statusChecker ax userStore next now cx st =
     (let userID = UserIDFromContext cx in
      if userID = '''' then next cx st
      else
        (case (case cx_identity cx of
                 Some i \<Rightarrow> if id_ID i = userID then (((at_identities st, at_store st), Some i), True)
                           else (Resolve userStore (ax_iter ax) now userID (at_identities st, at_store st), False)
               | None \<Rightarrow> (Resolve userStore (ax_iter ax) now userID (at_identities st, at_store st), False)) of
           (((c', s'), ident), known) \<Rightarrow>
             let st' = st\<lparr>at_identities := c', at_store := s'\<rparr>;
                 cx' = (if known \<or> ident = None then cx else cx\<lparr>cx_identity := ident\<rparr>)
             in if (case ident of Some i \<Rightarrow> id_Status i = ''suspended'' | None \<Rightarrow> False) then (st', Refused 401) else next cx' st'))"

text \<open>\<open>RequireBearerToken\<close> calls the handler with the token's information, or answers 401.\<close>

definition tokenMiddleware ::
  "auth_env \<Rightarrow> provider \<Rightarrow> 's UserStore option \<Rightarrow> (req_context \<Rightarrow> 's auth \<Rightarrow> 's auth \<times> auth_outcome) \<Rightarrow> time \<Rightarrow> http_req \<Rightarrow> req_context \<Rightarrow> 's auth \<Rightarrow> 's auth \<times> auth_outcome" where
  "tokenMiddleware ax p userStore next now req cx st =
     (case ax_bearer ax (q_Authorization req) of
        None \<Rightarrow> (st, Refused 401)
      | Some token \<Rightarrow> (case verifyToken ax p userStore now token req st of
          (st', None) \<Rightarrow> (st', Refused 401)
        | (st', Some info) \<Rightarrow> if ti_Expiration info < now then (st', Refused 401) else next (cx\<lparr>cx_token := Some info\<rparr>) st'))"

definition authMiddleware ::
  "auth_env \<Rightarrow> provider \<Rightarrow> 's UserStore option \<Rightarrow> (req_context \<Rightarrow> 's auth \<Rightarrow> 's auth \<times> auth_outcome) \<Rightarrow> time \<Rightarrow> http_req \<Rightarrow> req_context \<Rightarrow> 's auth \<Rightarrow> 's auth \<times> auth_outcome" where
  "authMiddleware ax p userStore next now req cx st = tokenMiddleware ax p userStore (statusChecker ax userStore next now) now req cx st"

definition BuildRoleMap :: "APIKeyConf list \<Rightarrow> (string \<rightharpoonup> string)" where
  "BuildRoleMap keys = foldl (\<lambda>m k. m(apiKeyUserID (ak_Name k) \<mapsto> role_or_user (ak_Role k))) Map.empty keys"

definition RoleMiddleware ::
  "(string \<rightharpoonup> string) \<Rightarrow> 's UserStore option \<Rightarrow> (req_context \<Rightarrow> 's auth \<Rightarrow> 's auth \<times> auth_outcome) \<Rightarrow> req_context \<Rightarrow> 's auth \<Rightarrow> 's auth \<times> auth_outcome" where
  "RoleMiddleware roleMap userStore next cx st =
     (let userID = UserIDFromContext cx in
      if userID = '''' then next cx st
      else
        (case (case roleMap userID of Some r \<Rightarrow> r | None \<Rightarrow> '''') of
           [] \<Rightarrow>
             (case cx_identity cx of
                Some i \<Rightarrow> if id_ID i = userID then next (cx\<lparr>cx_role := role_or_user (id_Role i)\<rparr>) st
                  else (case userStore of
                      None \<Rightarrow> next (cx\<lparr>cx_role := ''user''\<rparr>) st
                    | Some us \<Rightarrow> (case us_GetUser us userID (at_store st) of
                        (s', Ok u) \<Rightarrow> next (cx\<lparr>cx_role := role_or_user (user_Role u)\<rparr>) (st\<lparr>at_store := s'\<rparr>)
                      | (s', Err _) \<Rightarrow> next (cx\<lparr>cx_role := ''user''\<rparr>) (st\<lparr>at_store := s'\<rparr>)))
              | None \<Rightarrow>
                  (case userStore of
                      None \<Rightarrow> next (cx\<lparr>cx_role := ''user''\<rparr>) st
                    | Some us \<Rightarrow> (case us_GetUser us userID (at_store st) of
                        (s', Ok u) \<Rightarrow> next (cx\<lparr>cx_role := role_or_user (user_Role u)\<rparr>) (st\<lparr>at_store := s'\<rparr>)
                      | (s', Err _) \<Rightarrow> next (cx\<lparr>cx_role := ''user''\<rparr>) (st\<lparr>at_store := s'\<rparr>))))
         | r \<Rightarrow> next (cx\<lparr>cx_role := r\<rparr>) st))"

definition NoAuthAdmin :: "req_context \<Rightarrow> req_context" where
  "NoAuthAdmin cx = cx\<lparr>cx_role := ''admin'', cx_userID := ''admin''\<rparr>"

definition always_public :: "string \<Rightarrow> bool" where
  "always_public path \<longleftrightarrow> path = ''/healthz'' \<or> path = ''/readyz'' \<or> path = ''/metrics'' \<or> HasPrefix path ''/api/docs'' \<or>
     HasPrefix path ''/api/share/'' \<or> HasPrefix path ''/.well-known/''"

definition isRegisteredPublic :: "string list \<Rightarrow> string \<Rightarrow> bool" where
  "isRegisteredPublic publicPrefixes path \<longleftrightarrow> list_ex (\<lambda>p. HasPrefix path p) publicPrefixes"

definition protected_path :: "string \<Rightarrow> bool" where
  "protected_path path \<longleftrightarrow> HasPrefix path ''/mcp'' \<or> HasPrefix path ''/api/'' \<or> HasPrefix path ''/v1/'' \<or> HasPrefix path ''/internal/sources/''"

definition SkipAuthPaths ::
  "string list \<Rightarrow> (http_req \<Rightarrow> req_context \<Rightarrow> 's auth \<Rightarrow> 's auth \<times> auth_outcome) \<Rightarrow> (req_context \<Rightarrow> 's auth \<Rightarrow> 's auth \<times> auth_outcome) \<Rightarrow> http_req \<Rightarrow> req_context \<Rightarrow> 's auth \<Rightarrow> 's auth \<times> auth_outcome" where
  "SkipAuthPaths publicPrefixes authed next req cx st =
     (if always_public (q_Path req) then next cx st
      else if isRegisteredPublic publicPrefixes (q_Path req) then next cx st
      else if protected_path (q_Path req) then authed req cx st
      else next cx st)"

text \<open>The chain of the server; the handlers behind it see the context.  Without authentication every caller is the administrator.\<close>

definition serve ::
  "auth_env \<Rightarrow> AuthConfig \<Rightarrow> string list \<Rightarrow> provider \<Rightarrow> 's UserStore option \<Rightarrow> time \<Rightarrow> http_req \<Rightarrow> 's auth \<Rightarrow> 's auth \<times> auth_outcome" where
  "serve ax cfg publicPrefixes p userStore now req st =
     (let handler = RoleMiddleware (BuildRoleMap (ac_APIKeys cfg)) userStore (\<lambda>cx st. (st, Handled cx))
      in if ac_Enabled cfg then SkipAuthPaths publicPrefixes (\<lambda>req cx st. authMiddleware ax p userStore handler now req cx st) handler req background st
         else (st, Handled (NoAuthAdmin background)))"

definition new_auth :: "AuthConfig \<Rightarrow> 's \<Rightarrow> 's auth" where
  "new_auth cfg s = \<lparr>at_store = s, at_identities = newTTLCache (ac_IdentityCacheTTL cfg) identityCacheMaxEntries,
     at_fingerprints = newTTLCache (ac_IdentityCacheTTL cfg) identityCacheMaxEntries, at_provisioned = {}\<rparr>"

end
