(* ===== verification/Auth_Facts.thy ===== *)
theory Auth_Facts
  imports Auth
begin

section \<open>What authentication guarantees\<close>

text \<open>
  Facts about \<open>Auth\<close>: how long a suspended account can still get in, what a login may change in the user store, who a request on a protected path is
  served as, and that a key is marked as provisioned only when its account exists.
\<close>

subsection \<open>The cache\<close>

lemma evict_subset: "set (evictSoonestSampled iter es) \<subseteq> set es"
  by (auto simp: evictSoonestSampled_def split: option.splits)

lemma tc_put_entries: "set (tc_entries (tc_put iter now key v c)) \<subseteq> insert (key, v, now + tc_ttl c) (set (tc_entries c))"
  using evict_subset [of iter "tc_entries c"] by (auto simp: tc_put_def Let_def split: if_splits)

lemma tc_put_ttl [simp]: "tc_ttl (tc_put iter now key v c) = tc_ttl c" "tc_max (tc_put iter now key v c) = tc_max c"
  by (simp_all add: tc_put_def Let_def)

lemma tc_get_entry: "tc_get now key c = Some v \<Longrightarrow> \<exists>e. (key, v, e) \<in> set (tc_entries c) \<and> now \<le> e"
  by (auto simp: tc_get_def dest!: map_of_SomeD split: if_splits option.splits)

definition cache_ok :: "'v ttlCache \<Rightarrow> bool" where
  "cache_ok c \<longleftrightarrow> distinct (map fst (tc_entries c)) \<and> length (tc_entries c) \<le> tc_max c"

lemma soonest_fold: "fold soonestStep es v \<noteq> None \<longleftrightarrow> es \<noteq> [] \<or> v \<noteq> None"
  by (induction es arbitrary: v) (auto simp: soonestStep_def split: prod.splits option.splits)

lemma soonest_key: "fold soonestStep es v = Some (k, t) \<Longrightarrow> k \<in> fst ` set es \<or> (\<exists>t'. v = Some (k, t'))"
proof (induction es arbitrary: v)
  case (Cons e es)
  obtain a b c where e: "e = (a, b, c)" by (metis surj_pair)
  from Cons.IH [of "soonestStep e v"] Cons.prems show ?case by (auto simp: soonestStep_def e split: option.splits if_splits)
qed simp

lemma ttl_evict_shrinks:
  assumes "mset (iter es) = mset es" "es \<noteq> []"
  shows "length (evictSoonestSampled iter es) < length es"
proof -
  have "iter es \<noteq> []" using assms by auto
  then have "fold soonestStep (take identityCacheEvictSample (iter es)) None \<noteq> None"
    unfolding soonest_fold by (simp add: identityCacheEvictSample_def)
  then obtain k t where f: "fold soonestStep (take identityCacheEvictSample (iter es)) None = Some (k, t)" by (metis option.exhaust surj_pair)
  have "k \<in> fst ` set es" using soonest_key [OF f] mset_eq_setD [OF assms(1)] by (auto dest: in_set_takeD)
  then obtain e where "e \<in> set es" "fst e = k" by auto
  then have "length (filter (\<lambda>e. fst e \<noteq> k) es) < length es" by (intro length_filter_less) auto
  then show ?thesis by (simp add: evictSoonestSampled_def f)
qed

lemma tc_put_ok:
  assumes "cache_ok c" "\<And>es. mset (iter es) = mset es" "0 < tc_max c"
  shows "cache_ok (tc_put iter now key v c)"
proof -
  let ?es = "if map_of (tc_entries c) key = None \<and> length (tc_entries c) \<ge> tc_max c then evictSoonestSampled iter (tc_entries c) else tc_entries c"
  have d: "distinct (map fst ?es)" using assms(1) by (auto simp: cache_ok_def evictSoonestSampled_def distinct_map_filter split: option.splits)
  have "length (filter (\<lambda>e. fst e \<noteq> key) ?es) < tc_max c"
  proof (cases "map_of (tc_entries c) key = None")
    case True
    show ?thesis
    proof (cases "length (tc_entries c) \<ge> tc_max c")
      case full: True
      then have "tc_entries c \<noteq> []" using assms(3) by auto
      then have "length ?es < tc_max c" using ttl_evict_shrinks [of iter "tc_entries c", OF assms(2)] True full assms(1) by (simp add: cache_ok_def)
      then show ?thesis by (rule le_less_trans [OF length_filter_le])
    next
      case False
      then have "length ?es < tc_max c" using True by simp
      then show ?thesis by (rule le_less_trans [OF length_filter_le])
    qed
  next
    case False
    then obtain x where "x \<in> set (tc_entries c)" "fst x = key" by (auto simp: map_of_eq_None_iff)
    then have lt: "length (filter (\<lambda>e. fst e \<noteq> key) (tc_entries c)) < length (tc_entries c)" by (intro length_filter_less) auto
    have "?es = tc_entries c" by (rule if_not_P) (use False in blast)
    note e = this
    show ?thesis unfolding e using lt assms(1) by (simp add: cache_ok_def)
  qed
  with d assms(1) show ?thesis by (auto simp: tc_put_def Let_def cache_ok_def distinct_map_filter)
qed

subsection \<open>Suspension\<close>

text \<open>Requests as the resolver sees them: the time, the user, and the state of the store then (which others change in between).\<close>

fun resolves :: "'s UserStore \<Rightarrow> (Identity ttl_entries \<Rightarrow> Identity ttl_entries) \<Rightarrow> (time \<times> string \<times> 's) list \<Rightarrow> Identity ttlCache \<Rightarrow> Identity ttlCache" where
  "resolves us iter [] c = c"
| "resolves us iter ((now, uid, s) # rs) c = resolves us iter rs (fst (fst (Resolve (Some us) iter now uid (c, s))))"

definition stale_until :: "string \<Rightarrow> time \<Rightarrow> Identity ttlCache \<Rightarrow> bool" where
  "stale_until uid t c \<longleftrightarrow> (\<forall>v e. (uid, v, e) \<in> set (tc_entries c) \<longrightarrow> e \<le> t \<or> id_Status v = ''suspended'')"

lemma Resolve_cache:
  "fst (fst (Resolve (Some us) iter now uid (c, s))) = c \<or>
   (\<exists>u s'. us_GetUser us uid s = (s', Ok u) \<and> fst (fst (Resolve (Some us) iter now uid (c, s))) = tc_put iter now uid (identityOf u) c)"
proof (cases "uid = '''' \<or> tc_get now uid c \<noteq> None")
  case True
  then show ?thesis by (auto simp: Resolve_def)
next
  case False
  obtain s' r where g: "us_GetUser us uid s = (s', r)" by fastforce
  with False show ?thesis by (cases r) (simp_all add: Resolve_def)
qed

lemma resolves_ttl: "tc_ttl (resolves us iter rs c) = tc_ttl c"
proof (induction rs arbitrary: c)
  case (Cons r rs)
  obtain now uid s where r: "r = (now, uid, s)" by (metis surj_pair)
  show ?case unfolding r using Cons.IH Resolve_cache [of us iter now uid c s] by auto
qed simp

lemma stale_put:
  assumes "stale_until uid t c" "k = uid \<Longrightarrow> now + tc_ttl c \<le> t \<or> id_Status v = ''suspended''"
  shows "stale_until uid t (tc_put iter now k v c)"
  unfolding stale_until_def
proof (intro allI impI)
  fix w e assume "(uid, w, e) \<in> set (tc_entries (tc_put iter now k v c))"
  then have "(uid, w, e) \<in> insert (k, v, now + tc_ttl c) (set (tc_entries c))" by (rule subsetD [OF tc_put_entries])
  then show "e \<le> t \<or> id_Status w = ''suspended''" using assms unfolding stale_until_def by (elim insertE) auto
qed

lemma resolves_stale:
  assumes "stale_until uid t c"
    "\<And>now s s' u. (now, uid, s) \<in> set rs \<Longrightarrow> us_GetUser us uid s = (s', Ok u) \<Longrightarrow> now + tc_ttl c \<le> t \<or> user_Status u = ''suspended''"
  shows "stale_until uid t (resolves us iter rs c)"
  using assms
proof (induction rs arbitrary: c)
  case (Cons r rs)
  obtain now k s where r: "r = (now, k, s)" by (metis surj_pair)
  let ?c = "fst (fst (Resolve (Some us) iter now k (c, s)))"
  have "stale_until uid t ?c \<and> tc_ttl ?c = tc_ttl c"
    using Resolve_cache [of us iter now k c s]
  proof
    assume "\<exists>u s'. us_GetUser us k s = (s', Ok u) \<and> ?c = tc_put iter now k (identityOf u) c"
    then obtain u s' where u: "us_GetUser us k s = (s', Ok u)" "?c = tc_put iter now k (identityOf u) c" by blast
    have "stale_until uid t (tc_put iter now k (identityOf u) c)"
      by (rule stale_put [OF Cons.prems(1)]) (use Cons.prems(2) [of now s s' u] u(1) r in \<open>simp add: identityOf_def\<close>)
    with u(2) show ?thesis by simp
  qed (use Cons.prems(1) in simp)
  then have "stale_until uid t (resolves us iter rs ?c)" using Cons.prems(2) r by (intro Cons.IH) auto
  then show ?case by (simp add: r)
qed simp

lemma fresh_cache_stale: "stale_until uid t (newTTLCache ttl mx)"
  by (simp add: stale_until_def newTTLCache_def)

lemma sqlite_get: "us_GetUser (sqlite_users fl) uid (db, n) = ((db, n + 1), sq_GetUser (fl n) uid db)"
  by (simp add: sqlite_users_def)

lemma sq_GetUser_view: "sq_GetUser fl i db = (case fl (Exec 0) of Some e \<Rightarrow> Err (EDriver ''querying user'' e)
    | None \<Rightarrow> (case user_view db i of None \<Rightarrow> Err (EUserNotFound i) | Some u \<Rightarrow> Ok u))"
  unfolding sq_GetUser_def exec_def find_id user_view_def ..

definition suspended_in :: "string \<Rightarrow> SQLiteDB \<Rightarrow> bool" where
  "suspended_in uid db \<longleftrightarrow> (\<exists>u. user_view db uid = Some u \<and> user_Status u = ''suspended'')"


definition sample_user :: "string \<Rightarrow> string \<Rightarrow> string \<Rightarrow> User" where
  "sample_user uid status provider = \<lparr>user_ID = uid, user_Name = uid, user_Email = '''', user_Role = ''admin'', user_Status = status, user_Provider = provider,
     user_DepartmentID = '''', user_APIKeyHash = '''', user_CreatedAt = 0, user_UpdatedAt = 0\<rparr>"

definition sample_env :: auth_env where
  "sample_env = \<lparr>ax_sha256 = (\<lambda>s. s), ax_schemes = Map.empty, ax_parseIP = (\<lambda>_. None), ax_parseCIDR = (\<lambda>_. None),
     ax_verify = (\<lambda>t. Some \<lparr>it_Subject = t, it_Claims = Some [], it_Expiry = 100\<rparr>), ax_discover = (\<lambda>_. None), ax_bearer = Some, ax_iter = (\<lambda>es. es), ax_iterFP = (\<lambda>es. es)\<rparr>"

definition sample_state :: "User list \<Rightarrow> Identity ttlCache \<Rightarrow> (SQLiteDB \<times> nat) auth" where
  "sample_state us c = \<lparr>at_store = (empty_db\<lparr>db_users := us\<rparr>, 0), at_identities = c, at_fingerprints = newTTLCache 0 0, at_provisioned = {}\<rparr>"

definition token_ctx :: "string \<Rightarrow> req_context" where
  "token_ctx uid = background\<lparr>cx_token := Some \<lparr>ti_UserID = uid, ti_Scopes = [], ti_Expiration = 100\<rparr>\<rparr>"


text \<open>When the store does not answer, the check is skipped: the suspended user gets in.\<close>

theorem store_failure_admits_suspended_user:
  "\<exists>st'. statusChecker sample_env (Some (sqlite_users (\<lambda>_ _. Some ''locked''))) (\<lambda>cx st. (st, Handled cx)) 41 (token_ctx ''bob'')
     (sample_state [sample_user ''bob'' ''suspended'' ''local''] (newTTLCache 30 9)) = (st', Handled (token_ctx ''bob''))"
  by (simp add: statusChecker_def Let_def UserIDFromContext_def token_ctx_def background_def Resolve_def sample_state_def newTTLCache_def tc_get_def
      sqlite_get sq_GetUser_view)

subsection \<open>What a login changes in the user store\<close>

text \<open>Over any store that keeps the contract.  \<open>login_keeps\<close>: accounts other than \<open>who\<close> are untouched, an account of another provider is untouched,
  and an existing account keeps its provider, its status and its key.\<close>

definition login_keeps :: "string \<Rightarrow> (string \<rightharpoonup> User) \<Rightarrow> (string \<rightharpoonup> User) \<Rightarrow> bool" where
  "login_keeps who us us' \<longleftrightarrow> (\<forall>i u. us i = Some u \<longrightarrow>
     (i \<noteq> who \<or> user_Provider u \<noteq> ''oidc'' \<longrightarrow> us' i = Some u) \<and>
     (\<exists>u'. us' i = Some u' \<and> user_Provider u' = user_Provider u \<and> user_Status u' = user_Status u \<and> user_APIKeyHash u' = user_APIKeyHash u))"

lemma login_keeps_refl [simp]: "login_keeps who us us"
  by (simp add: login_keeps_def)

lemma login_keeps_new: "us i = None \<Longrightarrow> login_keeps who us (us(i \<mapsto> u))"
  by (auto simp: login_keeps_def)

lemma login_keeps_update:
  assumes "us who = Some old" "user_Provider old = ''oidc''" "user_Status u = user_Status old"
  shows "login_keeps who us (us(who \<mapsto> user_set u old))"
  using assms by (auto simp: login_keeps_def user_set_def)

context user_store
begin

lemma department_keeps:
  assumes "inv s" "resolveOIDCDepartment us claim now claims s = (s', d)"
  shows "inv s' \<and> users s' = users s"
proof -
  note D = depts
  show ?thesis
  proof (cases "claim = '''' \<or> extractStringClaim claims claim = ''''")
    case True
    then show ?thesis using assms by (auto simp: resolveOIDCDepartment_def Let_def split: if_splits)
  next
    case False
    let ?name = "extractStringClaim claims claim"
    obtain s1 r1 where 1: "us_GetDepartmentByName us ?name s = (s1, r1)" by fastforce
    let ?d = "\<lparr>dept_ID = ''dept-'' @ slugify ?name, dept_Name = ?name, dept_Namespace = '''', dept_CreatedAt = now, dept_UpdatedAt = now\<rparr>"
    obtain s2 r2 where 2: "us_CreateDepartment us ?d s1 = (s2, r2)" by fastforce
    obtain s3 r3 where 3: "us_GetDepartmentByName us ?name s2 = (s3, r3)" by fastforce
    have "s' \<in> {s1, s2, s3}" using assms(2) False 1 2 3
      by (auto simp: resolveOIDCDepartment_def Let_def split: sum.splits option.splits)
    then show ?thesis using D(1) [OF assms(1) 1] D(2) [OF _ 2] D(1) [OF _ 3] by auto
  qed
qed

lemma syncOIDCUser_keeps:
  assumes "inv s" "syncOIDCUser us now sub username email role deptID s = (s', r)"
  shows "inv s' \<and> login_keeps sub (users s) (users s')"
proof -
  obtain s1 g where 1: "us_GetUser us sub s = (s1, g)" by fastforce
  note G = get [OF assms(1) 1]
  show ?thesis
  proof (cases g)
    case (Inl e)
    let ?u = "\<lparr>user_ID = sub, user_Name = username, user_Email = email, user_Role = role, user_Status = ''active'', user_Provider = ''oidc'',
                user_DepartmentID = deptID, user_APIKeyHash = '''', user_CreatedAt = now, user_UpdatedAt = now\<rparr>"
    obtain s2 c where 2: "us_CreateUser us ?u s1 = (s2, c)" by fastforce
    have "s' = s2" using assms(2) 1 2 Inl by (auto simp: syncOIDCUser_def Let_def split: option.splits)
    then show ?thesis using create [OF _ 2] G login_keeps_new [of "users s" sub sub ?u] by (auto split: if_splits)
  next
    case (Inr existing)
    then have ex: "users s sub = Some existing" "user_ID existing = sub" using G by auto
    show ?thesis
    proof (cases "user_Provider existing \<noteq> ''oidc''")
      case True
      then show ?thesis using assms(2) 1 Inr G by (simp add: syncOIDCUser_def)
    next
      case False
      define e3 where "e3 = (let e1 = existing\<lparr>user_Role := role\<rparr>; e2 = (if email \<noteq> '''' then e1\<lparr>user_Email := email\<rparr> else e1)
          in if deptID \<noteq> '''' then e2\<lparr>user_DepartmentID := deptID\<rparr> else e2)"
      have e3: "user_ID (e3\<lparr>user_UpdatedAt := now\<rparr>) = sub" "user_Status (e3\<lparr>user_UpdatedAt := now\<rparr>) = user_Status existing"
        using ex(2) by (simp_all add: e3_def Let_def)
      obtain s2 c where 2: "us_UpdateUser us (e3\<lparr>user_UpdatedAt := now\<rparr>) s1 = (s2, c)" by fastforce
      have "s' = s1 \<or> s' = s2"
        using assms(2) 1 2 Inr False unfolding syncOIDCUser_def e3_def Let_def by (auto split: option.splits if_splits)
      then show ?thesis
      proof
        assume "s' = s2"
        moreover have "inv s2 \<and> login_keeps sub (users s) (users s2)"
          using update [OF _ 2] G ex False login_keeps_update [of "users s" sub existing "e3\<lparr>user_UpdatedAt := now\<rparr>"] e3 by (cases c) auto
        ultimately show ?thesis by simp
      qed (use G in simp)
    qed
  qed
qed

lemma oidc_sync_keeps:
  assumes "inv (at_store st)" "oidc_sync us iter claim now sub username email role claims st = (st', r)"
  shows "inv (at_store st') \<and> login_keeps sub (users (at_store st)) (users (at_store st'))"
proof (cases "st' = st")
  case False
  obtain s1 d where 1: "resolveOIDCDepartment us claim now claims (at_store st) = (s1, d)" by fastforce
  obtain s2 p where 2: "syncOIDCUser us now sub username email role d s1 = (s2, p)" by fastforce
  have "at_store st' = s2" using assms(2) 1 2 False by (auto simp: oidc_sync_def Let_def split: if_splits sum.splits)
  with department_keeps [OF assms(1) 1] syncOIDCUser_keeps [OF _ 2] show ?thesis by auto
qed (use assms(1) in simp)

lemma oidcVerifier_keeps:
  assumes "inv (at_store st)" "oidcVerifier verify cfg (Some us) iter now token st = (st', r)"
  shows "inv (at_store st') \<and> (st' = st \<or> (\<exists>t. verify token = Some t \<and> login_keeps (it_Subject t) (users (at_store st)) (users (at_store st'))))"
proof (cases "\<exists>t claims. verify token = Some t \<and> it_Claims t = Some claims")
  case False
  then have "st' = st" using assms(2) by (auto simp: oidcVerifier_def split: option.splits)
  then show ?thesis using assms(1) by simp
next
  case True
  then obtain t claims where t: "verify token = Some t" "it_Claims t = Some claims" by blast
  let ?name = "or_default (extractStringClaim claims (or_default (oc_UsernameClaim cfg) ''preferred_username'')) (it_Subject t)"
  let ?email = "extractStringClaim claims (or_default (oc_EmailClaim cfg) ''email'')"
  let ?role = "if or_default (oc_AdminRole cfg) ''vibed-admin'' \<in> set (extractRoleClaims claims (or_default (oc_RoleClaim cfg) ''realm_access.roles'')) then ''admin'' else ''user''"
  obtain st1 e where 1: "oidc_sync us iter (oc_DepartmentClaim cfg) now (it_Subject t) ?name ?email ?role claims st = (st1, e)" by fastforce
  have "st' = st1" using assms(2) t 1 by (cases e) (simp_all add: oidcVerifier_def Let_def)
  with oidc_sync_keeps [OF assms(1) 1] t(1) show ?thesis by auto
qed

end

text \<open>C26: An OIDC login is confined to its own account.  Whatever the token claims and whichever store calls fail, it leaves every other account and every
  account of another provider as it is, and never changes the provider, the status (it cannot lift a suspension) or the API key of an account that exists.\<close>

theorem oidc_login_is_confined:
  assumes "sq_inv (fst (at_store st))" "oidcVerifier verify cfg (Some (sqlite_users fl)) iter now token st = (st', r)"
  shows "sq_inv (fst (at_store st')) \<and>
    (st' = st \<or> (\<exists>t. verify token = Some t \<and> login_keeps (it_Subject t) (user_view (fst (at_store st))) (user_view (fst (at_store st')))))"
  using sqlite_users.oidcVerifier_keeps [of st verify cfg fl iter now token st' r] assms by simp

lemmas auth_eval = oidcVerifier_def oidc_sync_def resolveOIDCDepartment_def syncOIDCUser_def sample_state_def newTTLCache_def tc_get_def sqlite_get
  sq_GetUser_view Let_def or_default_def extractStringClaim_def extractRoleClaims_def sample_env_def sqlite_users_def

definition sample_oidc :: OIDCConfig where
  "sample_oidc = \<lparr>oc_Issuer = ''i'', oc_Audience = ''vibed'', oc_UsernameClaim = '''', oc_EmailClaim = '''', oc_RoleClaim = ''roles'', oc_AdminRole = '''', oc_DepartmentClaim = ''''\<rparr>"

lemma sample_users_inv: "distinct (map user_ID us) \<Longrightarrow> distinct (map user_Name us) \<Longrightarrow> sq_inv (empty_db\<lparr>db_users := us\<rparr>)"
  by (simp add: sq_inv_def keys_ok_def shares_ok_def empty_db_def)

theorem oidc_login_is_confined_witness:
  "\<exists>st' r. oidcVerifier (ax_verify sample_env) sample_oidc (Some (sqlite_users (\<lambda>_ _. None))) (\<lambda>es. es) 1 ''bob''
       (sample_state [sample_user ''bob'' ''suspended'' ''local''] (newTTLCache 0 0)) = (st', r) \<and> sq_inv (fst (at_store st'))"
proof -
  let ?st = "sample_state [sample_user ''bob'' ''suspended'' ''local''] (newTTLCache 0 0)"
  obtain st' r where r: "oidcVerifier (ax_verify sample_env) sample_oidc (Some (sqlite_users (\<lambda>_ _. None))) (\<lambda>es. es) 1 ''bob'' ?st = (st', r)" by fastforce
  have "sq_inv (fst (at_store ?st))" by (simp add: sample_state_def sample_users_inv)
  from oidc_login_is_confined [OF this r] r show ?thesis by blast
qed

text \<open>The guard against binding to an account of another provider is skipped when the store fails to answer: the login cannot create the account that
  exists, which is taken for a lost race, and the token is accepted in the name of the local account.\<close>

theorem store_failure_skips_bind_guard:
  "\<exists>st'. oidcVerifier (ax_verify sample_env) sample_oidc (Some (sqlite_users (\<lambda>n st. if n = 0 then Some ''locked'' else None))) (\<lambda>es. es) 1 ''root''
       (sample_state [sample_user ''root'' ''active'' ''local''] (newTTLCache 0 0)) =
     (st', Some \<lparr>ti_UserID = ''root'', ti_Scopes = [], ti_Expiration = 100\<rparr>) \<and>
   snd (oidcVerifier (ax_verify sample_env) sample_oidc (Some (sqlite_users (\<lambda>_ _. None))) (\<lambda>es. es) 1 ''root''
       (sample_state [sample_user ''root'' ''active'' ''local''] (newTTLCache 0 0))) = None"
  by (simp add: auth_eval sample_oidc_def sq_CreateUser_def commit_or_keep_def exec_def sample_user_def user_view_def)

subsection \<open>Provisioning\<close>

text \<open>Every key marked as provisioned has its account.\<close>

definition latched :: "('s auth \<Rightarrow> bool) \<Rightarrow> ('s auth \<Rightarrow> string \<rightharpoonup> User) \<Rightarrow> 's auth \<Rightarrow> bool" where
  "latched ok accounts st \<longleftrightarrow> ok st \<and> (\<forall>n \<in> at_provisioned st. apiKeyUserID n \<in> dom (accounts st))"

text \<open>An account once there stays there.\<close>

context user_store
begin

lemma create_mono: "inv s \<Longrightarrow> us_CreateUser us u s = (s', e) \<Longrightarrow> inv s' \<and> dom (users s) \<subseteq> dom (users s') \<and> (e = None \<longrightarrow> user_ID u \<in> dom (users s'))"
  using create [of s u s' e] by (auto split: if_splits)

lemma provisionDepartment_keeps:
  assumes "inv s" "provisionDepartment us now key s = (s', d)"
  shows "inv s' \<and> users s' = users s"
proof (cases "ak_Department key = ''''")
  case True
  then show ?thesis using assms by (simp add: provisionDepartment_def)
next
  case False
  let ?d = "\<lparr>dept_ID = ''dept-'' @ hex_nat (nat now), dept_Name = ak_Department key, dept_Namespace = '''', dept_CreatedAt = now, dept_UpdatedAt = now\<rparr>"
  obtain s1 r1 where 1: "us_GetDepartmentByName us (ak_Department key) s = (s1, r1)" by fastforce
  obtain s2 r2 where 2: "us_CreateDepartment us ?d s1 = (s2, r2)" by fastforce
  obtain s3 r3 where 3: "us_GetDepartmentByName us (ak_Department key) s2 = (s3, r3)" by fastforce
  have "s' \<in> {s1, s2, s3}" using assms(2) False 1 2 3 by (auto simp: provisionDepartment_def Let_def split: sum.splits option.splits)
  then show ?thesis using depts(1) [OF assms(1) 1] depts(2) [OF _ 2] depts(1) [OF _ 3] by auto
qed

lemma autoProvision_account:
  assumes "inv s" "autoProvisionAPIKeyUser us now key s = (s', ok)"
  shows "inv s' \<and> dom (users s) \<subseteq> dom (users s') \<and> (ok \<longrightarrow> apiKeyUserID (ak_Name key) \<in> dom (users s'))"
proof -
  let ?id = "apiKeyUserID (ak_Name key)"
  obtain s1 g where 1: "us_GetUser us ?id s = (s1, g)" by fastforce
  note G = get [OF assms(1) 1]
  show ?thesis
  proof (cases g)
    case (Inr u)
    then show ?thesis using assms(2) 1 G by (auto simp: autoProvisionAPIKeyUser_def Let_def)
  next
    case (Inl e)
    obtain s2 d where 2: "provisionDepartment us now key s1 = (s2, d)" by fastforce
    note P = provisionDepartment_keeps [OF _ 2]
    show ?thesis
    proof (cases d)
      case None
      then show ?thesis using assms(2) 1 2 Inl G P by (auto simp: autoProvisionAPIKeyUser_def Let_def)
    next
      case (Some deptID)
      let ?u = "\<lparr>user_ID = ?id, user_Name = ak_Name key, user_Email = '''', user_Role = role_or_user (ak_Role key), user_Status = ''active'',
                     user_Provider = ''local'', user_DepartmentID = deptID, user_APIKeyHash = '''', user_CreatedAt = now, user_UpdatedAt = now\<rparr>"
      obtain s3 c where 3: "us_CreateUser us ?u s2 = (s3, c)" by fastforce
      obtain s4 h where 4: "us_GetUser us ?id s3 = (s4, h)" by fastforce
      have C: "inv s3 \<and> dom (users s2) \<subseteq> dom (users s3) \<and> (c = None \<longrightarrow> ?id \<in> dom (users s3))" using create_mono [OF _ 3] P G by auto
      then have H: "inv s4 \<and> users s4 = users s3 \<and> (\<forall>u. h = Ok u \<longrightarrow> ?id \<in> dom (users s4))" using get [OF _ 4] by auto
      have "(s', ok) = (if c = None then (s3, True) else (s4, \<not> isl h))"
        using assms(2) 1 2 3 4 Inl Some by (cases c; cases h) (simp_all add: autoProvisionAPIKeyUser_def Let_def)
      then show ?thesis using C H G P by (cases h) (auto split: if_splits)
    qed
  qed
qed

lemma latch_keeps:
  assumes "latched (inv \<circ> at_store) (users \<circ> at_store) st"
  shows "latched (inv \<circ> at_store) (users \<circ> at_store) (latch_provision us now key st)"
proof (cases "ak_Name key \<in> at_provisioned st")
  case False
  obtain s' ok where a: "autoProvisionAPIKeyUser us now key (at_store st) = (s', ok)" by fastforce
  have "inv (at_store st)" using assms by (simp add: latched_def)
  from autoProvision_account [OF this a] assms False a show ?thesis by (auto simp: latched_def latch_provision_def)
qed (use assms in \<open>simp add: latch_provision_def\<close>)

lemma apiKeyVerifier_keeps:
  assumes "latched (inv \<circ> at_store) (users \<circ> at_store) st" "apiKeyVerifier sha (Some us) keys now token st = (st', r)"
  shows "latched (inv \<circ> at_store) (users \<circ> at_store) st'"
proof (cases "find (\<lambda>key. rk_secret key = token) keys")
  case None
  obtain s1 g where g: "us_GetUserByAPIKeyHash us (EncodeToString (sha token)) (at_store st) = (s1, g)" by fastforce
  have "inv (at_store st)" using assms(1) by (simp add: latched_def)
  from byhash [OF this g] assms None g show ?thesis by (cases g) (auto simp: apiKeyVerifier_def latched_def)
next
  case (Some key)
  then show ?thesis using assms latch_keeps by (auto simp: apiKeyVerifier_def split: if_splits)
qed

end

subsection \<open>Who a request is served as\<close>

text \<open>What \<open>RoleMiddleware\<close> hands on: the caller's context with a role.\<close>

lemma RoleMiddleware_handled:
  assumes "RoleMiddleware roleMap us (\<lambda>cx st. (st, Handled cx)) cx st = (st', Handled cx')"
  obtains role where "cx' = cx\<lparr>cx_role := role\<rparr>"
proof -
  have "\<exists>role. cx' = cx\<lparr>cx_role := role\<rparr>"
  proof (cases "UserIDFromContext cx = ''''")
    case True
    then have "cx' = cx" using assms by (simp add: RoleMiddleware_def)
    then have "cx' = cx\<lparr>cx_role := cx_role cx\<rparr>" by simp
    then show ?thesis by blast
  next
    case False
    then show ?thesis using assms
      by (auto simp: RoleMiddleware_def Let_def split: list.splits option.splits prod.splits sum.splits if_splits)
  qed
  then show ?thesis using that by blast
qed

lemma statusChecker_handled:
  assumes "statusChecker ax us next now cx st = (st', Handled cx')" "cx_identity cx = None" "UserIDFromContext cx \<noteq> ''''"
  obtains st1 ident where "next (if ident = None then cx else cx\<lparr>cx_identity := ident\<rparr>) st1 = (st', Handled cx')"
    "\<And>i. ident = Some i \<Longrightarrow> id_Status i \<noteq> ''suspended''" "at_fingerprints st1 = at_fingerprints st" "at_provisioned st1 = at_provisioned st"
proof -
  obtain c' s' ident where r: "Resolve us (ax_iter ax) now (UserIDFromContext cx) (at_identities st, at_store st) = ((c', s'), ident)" by (metis surj_pair)
  show ?thesis
  proof (rule that [of ident "st\<lparr>at_identities := c', at_store := s'\<rparr>"])
    show "next (if ident = None then cx else cx\<lparr>cx_identity := ident\<rparr>) (st\<lparr>at_identities := c', at_store := s'\<rparr>) = (st', Handled cx')"
      using assms r by (auto simp: statusChecker_def Let_def split: option.splits if_splits)
    show "id_Status i \<noteq> ''suspended''" if "ident = Some i" for i
      using assms r that by (auto simp: statusChecker_def Let_def split: if_splits)
  qed simp_all
qed

lemma serve_apikey_handled:
  assumes "ac_Enabled cfg" "protected_path (q_Path req)" "\<not> always_public (q_Path req)" "\<not> isRegisteredPublic pub (q_Path req)"
    "sq_inv (fst (at_store st))" "serve ax cfg pub (PApiKey keys) (Some (sqlite_users fl)) now req st = (st', Handled cx)"
  shows "\<exists>token. ax_bearer ax (q_Authorization req) = Some token \<and>
     ((\<exists>key \<in> set keys. rk_secret key = token \<and> UserIDFromContext cx = apiKeyUserID (ak_Name (rk_conf key))) \<or>
      (\<exists>u. user_view (fst (at_store st)) (user_ID u) = Some u \<and> user_APIKeyHash u = EncodeToString (ax_sha256 ax token) \<and> UserIDFromContext cx = user_ID u)) \<and>
     (\<forall>i. cx_identity cx = Some i \<longrightarrow> id_Status i \<noteq> ''suspended'')"
proof -
  let ?us = "Some (sqlite_users fl)"
  let ?h = "RoleMiddleware (BuildRoleMap (ac_APIKeys cfg)) ?us (\<lambda>cx st. (st, Handled cx))"
  have m: "tokenMiddleware ax (PApiKey keys) ?us (statusChecker ax ?us ?h now) now req background st = (st', Handled cx)"
    using assms(1-4,6) by (simp add: serve_def SkipAuthPaths_def authMiddleware_def)
  then obtain token st1 info where t: "ax_bearer ax (q_Authorization req) = Some token"
    "apiKeyVerifier (ax_sha256 ax) ?us keys now token st = (st1, Some info)"
    "statusChecker ax ?us ?h now (background\<lparr>cx_token := Some info\<rparr>) st1 = (st', Handled cx)"
    by (auto simp: tokenMiddleware_def verifyToken_def split: option.splits prod.splits if_splits)
  have who: "(\<exists>key \<in> set keys. rk_secret key = token \<and> ti_UserID info = apiKeyUserID (ak_Name (rk_conf key))) \<or>
      (\<exists>u. user_view (fst (at_store st)) (user_ID u) = Some u \<and> user_APIKeyHash u = EncodeToString (ax_sha256 ax token) \<and> ti_UserID info = user_ID u)"
  proof (cases "find (\<lambda>key. rk_secret key = token) keys")
    case (Some key)
    then have "key \<in> set keys" "rk_secret key = token" by (auto simp: find_Some_iff)
    with Some t(2) show ?thesis by (auto simp: apiKeyVerifier_def)
  next
    case None
    obtain s1 g where g: "us_GetUserByAPIKeyHash (sqlite_users fl) (EncodeToString (ax_sha256 ax token)) (at_store st) = (s1, g)" by fastforce
    with None t(2) obtain u where u: "g = Ok u" "ti_UserID info = user_ID u" by (cases g) (auto simp: apiKeyVerifier_def)
    then show ?thesis using sqlite_users.byhash [OF _ g] assms(5) by auto
  qed
  have "UserIDFromContext cx = ti_UserID info \<and> (\<forall>i. cx_identity cx = Some i \<longrightarrow> id_Status i \<noteq> ''suspended'')"
  proof (cases "ti_UserID info = ''''")
    case True
    then have "?h (background\<lparr>cx_token := Some info\<rparr>) st1 = (st', Handled cx)"
      using t(3) by (simp add: statusChecker_def UserIDFromContext_def background_def)
    then obtain role where "cx = (background\<lparr>cx_token := Some info\<rparr>)\<lparr>cx_role := role\<rparr>" by (rule RoleMiddleware_handled)
    then show ?thesis by (simp add: UserIDFromContext_def background_def)
  next
    case False
    then obtain ident st2 where i: "?h (if ident = None then background\<lparr>cx_token := Some info\<rparr> else background\<lparr>cx_token := Some info\<rparr>\<lparr>cx_identity := ident\<rparr>) st2 = (st', Handled cx)"
      "\<And>i. ident = Some i \<Longrightarrow> id_Status i \<noteq> ''suspended''"
      using t(3) by (elim statusChecker_handled) (auto simp: background_def UserIDFromContext_def)
    from i(1) obtain role where "cx = (if ident = None then background\<lparr>cx_token := Some info\<rparr> else background\<lparr>cx_token := Some info\<rparr>\<lparr>cx_identity := ident\<rparr>)\<lparr>cx_role := role\<rparr>"
      by (rule RoleMiddleware_handled)
    then show ?thesis using i(2) by (cases ident) (auto simp: UserIDFromContext_def background_def)
  qed
  with t(1) who show ?thesis by auto
qed

text \<open>With API keys, a request on a protected path is handled only for a caller who sent a configured secret, and is then that key's account, or a key whose hash
  is stored with an account, and is then that account; in either case an account known to be suspended is not let in.\<close>

theorem protected_paths_need_a_key:
  assumes "ac_Enabled cfg" "protected_path (q_Path req)" "\<not> always_public (q_Path req)" "\<not> isRegisteredPublic pub (q_Path req)"
    "sq_inv (fst (at_store st))" "serve ax cfg pub (PApiKey keys) (Some (sqlite_users fl)) now req st = (st', Handled cx)"
  shows "\<exists>token. ax_bearer ax (q_Authorization req) = Some token \<and>
     ((\<exists>key \<in> set keys. rk_secret key = token \<and> UserIDFromContext cx = apiKeyUserID (ak_Name (rk_conf key))) \<or>
      (\<exists>u. user_view (fst (at_store st)) (user_ID u) = Some u \<and> user_APIKeyHash u = EncodeToString (ax_sha256 ax token) \<and> UserIDFromContext cx = user_ID u)) \<and>
     (\<forall>i. cx_identity cx = Some i \<longrightarrow> id_Status i \<noteq> ''suspended'')"
  using assms by (rule serve_apikey_handled)

definition sample_key :: resolvedAPIKey where
  "sample_key = \<lparr>rk_conf = \<lparr>ak_Key = ''s3'', ak_Name = ''alice'', ak_Scopes = [], ak_Role = ''admin'', ak_Department = ''''\<rparr>, rk_secret = ''s3''\<rparr>"

definition sample_auth :: AuthConfig where
  "sample_auth = \<lparr>ac_Enabled = True, ac_Mode = ''apikey'', ac_APIKeys = [rk_conf sample_key], ac_OIDC = sample_oidc, ac_TrustedProxies = [], ac_IdentityCacheTTL = 0\<rparr>"

definition sample_req :: http_req where
  "sample_req = \<lparr>q_Path = ''/v1/apps'', q_Authorization = ''s3'', q_ForwardedUser = '''', q_RemoteAddr = ''''\<rparr>"

lemma sample_paths: "protected_path (q_Path sample_req)" "\<not> always_public (q_Path sample_req)" "\<not> isRegisteredPublic [] (q_Path sample_req)"
  by (simp_all add: sample_req_def protected_path_def always_public_def isRegisteredPublic_def HasPrefix_def)

lemma sample_served:
  "\<exists>st' cx. serve sample_env sample_auth [] (PApiKey [sample_key]) (Some (sqlite_users (\<lambda>_ _. None))) 1 sample_req
     (sample_state [sample_user ''apikey-alice'' ''active'' ''local''] (newTTLCache 0 0)) = (st', Handled cx)"
  using sample_paths
  by (simp add: serve_def SkipAuthPaths_def authMiddleware_def tokenMiddleware_def verifyToken_def apiKeyVerifier_def latch_provision_def autoProvisionAPIKeyUser_def
      auth_eval sample_key_def sample_user_def sample_req_def user_view_def hours_def minute_def second_def statusChecker_def Resolve_def RoleMiddleware_def sample_auth_def
      UserIDFromContext_def background_def apiKeyUserID_def BuildRoleMap_def role_or_user_def identityOf_def)

theorem protected_paths_need_a_key_witness:
  "\<exists>st' cx. serve sample_env sample_auth [] (PApiKey [sample_key]) (Some (sqlite_users (\<lambda>_ _. None))) 1 sample_req
     (sample_state [sample_user ''apikey-alice'' ''active'' ''local''] (newTTLCache 0 0)) = (st', Handled cx) \<and>
   (\<exists>token. ax_bearer sample_env (q_Authorization sample_req) = Some token)"
proof -
  let ?st = "sample_state [sample_user ''apikey-alice'' ''active'' ''local''] (newTTLCache 0 0)"
  obtain st' cx where s: "serve sample_env sample_auth [] (PApiKey [sample_key]) (Some (sqlite_users (\<lambda>_ _. None))) 1 sample_req ?st = (st', Handled cx)"
    using sample_served by blast
  have "sq_inv (fst (at_store ?st))" by (simp add: sample_state_def sample_users_inv)
  from protected_paths_need_a_key [OF _ sample_paths this s] s show ?thesis by (auto simp: sample_auth_def)
qed

text \<open>The latch of a key: whichever store calls fail, a key is marked as provisioned only once its account is in the store, and every later request keeps it so.\<close>

fun verify_all :: "auth_env \<Rightarrow> 's UserStore \<Rightarrow> resolvedAPIKey list \<Rightarrow> (time \<times> string) list \<Rightarrow> 's auth \<Rightarrow> 's auth" where
  "verify_all ax us keys [] st = st"
| "verify_all ax us keys ((now, token) # ts) st = verify_all ax us keys ts (fst (apiKeyVerifier (ax_sha256 ax) (Some us) keys now token st))"

theorem provisioned_keys_have_accounts:
  assumes "st = verify_all ax (sqlite_users fl) keys ts (new_auth cfg (db, n))" "sq_inv db" "name \<in> at_provisioned st"
  shows "\<exists>u. user_view (fst (at_store st)) (apiKeyUserID name) = Some u"
proof -
  have keep: "latched ((sq_inv \<circ> fst) \<circ> at_store) ((user_view \<circ> fst) \<circ> at_store) st0 \<Longrightarrow>
    latched ((sq_inv \<circ> fst) \<circ> at_store) ((user_view \<circ> fst) \<circ> at_store) (verify_all ax (sqlite_users fl) keys ts st0)" for st0
  proof (induction ts arbitrary: st0)
    case (Cons t ts)
    obtain now token where t: "t = (now, token)" by fastforce
    show ?case unfolding t verify_all.simps
      by (rule Cons.IH, rule sqlite_users.apiKeyVerifier_keeps [OF Cons.prems surjective_pairing])
  qed simp
  have "latched ((sq_inv \<circ> fst) \<circ> at_store) ((user_view \<circ> fst) \<circ> at_store) (new_auth cfg (db, n))"
    using assms(2) by (simp add: latched_def new_auth_def)
  from keep [OF this] assms(1,3) show ?thesis by (auto simp: latched_def)
qed

theorem provisioned_keys_have_accounts_witness:
  "\<exists>st u. st = verify_all sample_env (sqlite_users (\<lambda>_ _. None)) [sample_key] [(1, ''s3'')] (new_auth sample_auth (empty_db, 0)) \<and>
     user_view (fst (at_store st)) (apiKeyUserID ''alice'') = Some u"
proof -
  let ?st = "verify_all sample_env (sqlite_users (\<lambda>_ _. None)) [sample_key] [(1, ''s3'')] (new_auth sample_auth (empty_db, 0))"
  have "''alice'' \<in> at_provisioned ?st"
    by (simp add: new_auth_def apiKeyVerifier_def latch_provision_def autoProvisionAPIKeyUser_def provisionDepartment_def auth_eval sample_key_def user_view_def
        sq_CreateUser_def commit_or_keep_def exec_def empty_db_def)
  from provisioned_keys_have_accounts [OF refl _ this] sample_users_inv [of "[]"] show ?thesis by (auto simp: empty_db_def)
qed

text \<open>For an API key of the configuration the role comes from the configuration, whatever role its account has in the store.\<close>

theorem configured_role_wins:
  assumes "key \<in> set (ac_APIKeys cfg)" "ak_Name key \<noteq> ''''" "UserIDFromContext cx = apiKeyUserID (ak_Name key)"
    "RoleMiddleware (BuildRoleMap (ac_APIKeys cfg)) us (\<lambda>cx st. (st, Handled cx)) cx st = (st', Handled cx')"
  shows "\<exists>k \<in> set (ac_APIKeys cfg). ak_Name k = ak_Name key \<and> RoleFromContext cx' = role_or_user (ak_Role k)"
proof -
  have ne: "role_or_user r \<noteq> ''''" for r by (simp add: role_or_user_def)
  have "\<exists>k \<in> set ks. apiKeyUserID (ak_Name k) = apiKeyUserID (ak_Name key) \<and> BuildRoleMap ks (apiKeyUserID (ak_Name key)) = Some (role_or_user (ak_Role k))"
    if "key \<in> set ks" for ks
    using that
  proof (induction ks rule: rev_induct)
    case (snoc k ks)
    then show ?case by (cases "apiKeyUserID (ak_Name k) = apiKeyUserID (ak_Name key)") (auto simp: BuildRoleMap_def)
  qed simp
  then obtain k where k: "k \<in> set (ac_APIKeys cfg)" "apiKeyUserID (ak_Name k) = apiKeyUserID (ak_Name key)"
    "BuildRoleMap (ac_APIKeys cfg) (apiKeyUserID (ak_Name key)) = Some (role_or_user (ak_Role k))" using assms(1) by blast
  have "ak_Name k = ak_Name key" using k(2) assms(2) by (auto simp: apiKeyUserID_def split: if_splits)
  moreover have "apiKeyUserID (ak_Name key) \<noteq> ''''" using assms(2) by (simp add: apiKeyUserID_def)
  then have "RoleFromContext cx' = role_or_user (ak_Role k)"
    using assms(3,4) k(3) ne [of "ak_Role k"] by (auto simp: RoleMiddleware_def RoleFromContext_def Let_def split: list.splits)
  ultimately show ?thesis using k(1) by blast
qed

theorem configured_role_wins_witness:
  "\<exists>k \<in> set (ac_APIKeys sample_auth). ak_Name k = ''alice'' \<and>
     RoleFromContext (background\<lparr>cx_userID := ''apikey-alice'', cx_role := ''admin''\<rparr>) = role_or_user (ak_Role k)"
  using configured_role_wins [of "rk_conf sample_key" sample_auth "background\<lparr>cx_userID := ''apikey-alice''\<rparr>" "None :: unit UserStore option"
      "undefined :: unit auth" "undefined" "background\<lparr>cx_userID := ''apikey-alice'', cx_role := ''admin''\<rparr>"]
  by (simp add: sample_auth_def sample_key_def UserIDFromContext_def apiKeyUserID_def RoleMiddleware_def BuildRoleMap_def role_or_user_def background_def)

end
