(* ===== verification/Http_Api.thy ===== *)
theory Http_Api
  imports Query Auth
begin

section \<open>The HTTP API\<close>

text \<open>
  \<open>src/pkg/vibedapi/http/server.go\<close>, the handlers of \<open>/v1/*\<close> over the deploy service, and \<open>src/internal/deploy/logs.go\<close>.
  A handler is a function of the caller's context and the decoded request to a program that yields the response; the service is the environment of
  \<open>Deploy_Env\<close>, or \<open>None\<close> when it is not configured.  A response is a status and a body, a stream of events, or \<open>Panic\<close> where the handler's goroutine
  dies.  The multipart and JSON decoders are the outcome they had on the request; \<open>time.ParseDuration\<close> and \<open>time.Parse\<close> are parameters.
  Integers of the request are Go's \<open>int\<close>; where sums and products of them can overflow they are wrapped to 64 bits.
\<close>

subsection \<open>Bodies\<close>

definition int64 :: "int \<Rightarrow> int" where
  "int64 n = (n + 2 ^ 63) mod 2 ^ 64 - 2 ^ 63"

record App =
  a_AppId :: string
  a_Phase :: Phase
  a_Name :: "string option"
  a_Owner :: "string option"
  a_Url :: "string option"
  a_Reason :: "string option"
  a_Message :: "string option"
  a_LastDeployedAt :: "time option"
  a_Runtime :: "(Lane option \<times> string option) option"

record DeployResponse =
  dr_AppId :: string
  dr_StatusUrl :: "string option"
  dr_Url :: "string option"

record ApiVersion =
  v_Version :: int
  v_Timestamp :: time
  v_Template :: string
  v_Lane :: string
  v_SourceHash :: string
  v_RolledBackFrom :: "int option"

record WireLink =
  wl_Token :: string
  wl_ArtifactId :: string
  wl_CreatedBy :: string
  wl_HasPassword :: bool
  wl_CreatedAt :: time
  wl_Revoked :: bool
  wl_ExpiresAt :: "time option"
  wl_Url :: "string option"

text \<open>The message of an error is a text of the handler or that of an error of the service.\<close>

datatype message = MText string | MErr derr

datatype body = BNone | BError string message | BApp App | BApps "App list" int | BDeploy DeployResponse
  | BVersions "ApiVersion list" | BLink WireLink | BLinks "WireLink list" int | BTemplates

datatype response = Reply nat body | Stream "string list" | Panic

definition nonEmpty :: "string \<Rightarrow> string option" where
  "nonEmpty s = (if s = '''' then None else Some s)"

definition toAPIApp :: "VibedApp \<Rightarrow> App" where
  "toAPIApp app =
     (let c = FindStatusCondition (st_Conditions (app_Status app)) ConditionReady;
          lane = rt_Lane (spec_Runtime (app_Spec app));
          template = rt_Template (spec_Runtime (app_Spec app))
      in \<lparr>a_AppId = app_Name app, a_Phase = st_Phase (app_Status app), a_Name = nonEmpty (app_Name app), a_Owner = nonEmpty (spec_Owner (app_Spec app)),
          a_Url = nonEmpty (st_URL (app_Status app)),
          a_Reason = (case c of None \<Rightarrow> None | Some c \<Rightarrow> nonEmpty (cond_Reason c)),
          a_Message = (case c of None \<Rightarrow> None | Some c \<Rightarrow> nonEmpty (cond_Message c)),
          a_LastDeployedAt = st_LastDeployedAt (app_Status app),
          a_Runtime = (if lane \<noteq> LaneEmpty \<or> template \<noteq> '''' then Some (if lane \<noteq> LaneEmpty then Some lane else None, nonEmpty template) else None)\<rparr>)"

definition toAPIShareLink :: "ShareLink \<Rightarrow> WireLink" where
  "toAPIShareLink l =
     \<lparr>wl_Token = sl_Token l, wl_ArtifactId = sl_ArtifactID l, wl_CreatedBy = sl_CreatedBy l, wl_HasPassword = sl_HasPassword l, wl_CreatedAt = sl_CreatedAt l,
      wl_Revoked = sl_Revoked l, wl_ExpiresAt = sl_ExpiresAt l, wl_Url = nonEmpty (sl_URL l)\<rparr>"

definition toAPIVersion :: "(string \<Rightarrow> time) \<Rightarrow> VersionRecord \<Rightarrow> ApiVersion" where
  "toAPIVersion parseTime rc =
     \<lparr>v_Version = vr_Version rc, v_Timestamp = parseTime (vr_Timestamp rc), v_Template = vr_Template rc, v_Lane = vr_Lane rc, v_SourceHash = vr_SourceHash rc,
      v_RolledBackFrom = (if vr_RolledBackFrom rc \<noteq> 0 then Some (vr_RolledBackFrom rc) else None)\<rparr>"

subsection \<open>Errors\<close>

text \<open>The handlers tell the errors of the service apart by marker methods.  \<open>marked\<close> says of the error of a plugged-in authorizer, policy or quota
  (known by its text) whether it carries its marker; the denial of the built-in owner gate does.\<close>

definition forbidden :: "(string \<Rightarrow> bool) \<Rightarrow> derr \<Rightarrow> bool" where
  "forbidden marked e = (case e of DNotOwner \<Rightarrow> True | DAuthz x \<Rightarrow> marked x | _ \<Rightarrow> False)"

definition policyDenied :: "(string \<Rightarrow> bool) \<Rightarrow> derr \<Rightarrow> bool" where
  "policyDenied marked e = (case e of DPolicy x \<Rightarrow> marked x | _ \<Rightarrow> False)"

definition quotaExceeded :: "(string \<Rightarrow> bool) \<Rightarrow> derr \<Rightarrow> bool" where
  "quotaExceeded marked e = (case e of DQuota x \<Rightarrow> marked x | _ \<Rightarrow> False)"

definition notImplemented :: "string \<Rightarrow> response" where
  "notImplemented code = Reply 501 (BError (code @ ''_not_implemented'') (MText ''deploy service not configured''))"

definition unauthenticated :: response where
  "unauthenticated = Reply 401 (BError ''unauthenticated'' (MText ''no authenticated user''))"

definition notFound :: response where
  "notFound = Reply 404 (BError ''not_found'' (MText ''app not found''))"

text \<open>Every handler of the service opens with these two checks.  The service sees the role of the context.\<close>

definition guarded :: "env option \<Rightarrow> string \<Rightarrow> req_context \<Rightarrow> (env \<Rightarrow> string \<Rightarrow> trace \<Rightarrow> response \<times> trace) \<Rightarrow> trace \<Rightarrow> response \<times> trace" where
  "guarded svc code cx k tr =
     (case svc of
        None \<Rightarrow> (notImplemented code, tr)
      | Some s \<Rightarrow>
          let owner = UserIDFromContext cx in
          if owner = '''' then (unauthenticated, tr) else k (s\<lparr>e_Role := RoleFromContext cx\<rparr>) owner tr)"

definition answer :: "'a prog \<Rightarrow> (derr \<Rightarrow> response) \<Rightarrow> ('a \<Rightarrow> response) \<Rightarrow> trace \<Rightarrow> response \<times> trace" where
  "answer m err ok tr = (case m tr of (Err e, tr') \<Rightarrow> (err e, tr') | (Ok x, tr') \<Rightarrow> (ok x, tr'))"

subsection \<open>Deploying\<close>

record RuntimeOverride =
  ro_Entrypoint :: "string option"
  ro_Lane :: "Lane option"
  ro_Template :: "string option"

record DeployMetadata =
  dm_Name :: string
  dm_Ttl :: "string option"
  dm_Runtime :: "RuntimeOverride option"
  dm_Egress :: "string list option option"
  dm_Env :: "(string \<times> string option) list option"

text \<open>What the form parser made of the request: the body was over \<open>MaxTarballBytes\<close> plus \<open>maxDeployOverheadBytes\<close>, it was malformed, or it has a metadata
  field (its text and what the JSON decoder makes of it) and perhaps a source part.\<close>

datatype deploy_form =
    FormTooLarge
  | FormError string
  | Form string "(string, DeployMetadata) result" "reader option"

definition maxDeployOverheadBytes :: int where
  "maxDeployOverheadBytes = 1024 * 1024"

definition empty_metadata :: DeployMetadata where
  "empty_metadata = \<lparr>dm_Name = '''', dm_Ttl = None, dm_Runtime = None, dm_Egress = None, dm_Env = None\<rparr>"

definition deref :: "string option \<Rightarrow> string" where
  "deref p = (case p of None \<Rightarrow> '''' | Some s \<Rightarrow> s)"

definition deployRequest :: "string \<Rightarrow> string \<Rightarrow> reader \<Rightarrow> DeployMetadata \<Rightarrow> Request" where
  "deployRequest name owner file m =
     \<lparr>rq_Name = name, rq_Owner = owner, rq_Tarball = file,
      rq_LaneOverride = (case dm_Runtime m of None \<Rightarrow> LaneEmpty | Some r \<Rightarrow> (case ro_Lane r of None \<Rightarrow> LaneEmpty | Some l \<Rightarrow> l)),
      rq_TemplateOverride = (case dm_Runtime m of None \<Rightarrow> '''' | Some r \<Rightarrow> deref (ro_Template r)),
      rq_Entrypoint = (case dm_Runtime m of None \<Rightarrow> '''' | Some r \<Rightarrow> deref (ro_Entrypoint r)),
      rq_Env = (case dm_Env m of None \<Rightarrow> [] | Some es \<Rightarrow> map (\<lambda>(n, v). \<lparr>env_Name = n, env_Value = deref v\<rparr>) es),
      rq_TTL = deref (dm_Ttl m),
      rq_AllowedHosts = (case dm_Egress m of None \<Rightarrow> [] | Some None \<Rightarrow> [] | Some (Some hs) \<Rightarrow> hs)\<rparr>"

definition deployError :: "(string \<Rightarrow> bool) \<Rightarrow> derr \<Rightarrow> response" where
  "deployError marked e =
     (if forbidden marked e then Reply 403 (BError ''forbidden'' (MErr e))
      else if policyDenied marked e then Reply 403 (BError ''policy_denied'' (MErr e))
      else if quotaExceeded marked e then Reply 429 (BError ''quota_exceeded'' (MErr e))
      else Reply 400 (BError ''deploy_failed'' (MErr e)))"

definition deployResponse :: "Result \<Rightarrow> response" where
  "deployResponse res =
     (if r_Ready res then Reply 200 (BDeploy \<lparr>dr_AppId = r_AppID res, dr_StatusUrl = None, dr_Url = Some (r_URL res)\<rparr>)
      else Reply 202 (BDeploy \<lparr>dr_AppId = r_AppID res, dr_StatusUrl = Some (''/v1/apps/'' @ r_AppID res), dr_Url = None\<rparr>))"

definition runDeploy :: "(string \<Rightarrow> bool) \<Rightarrow> env \<Rightarrow> deploy_form \<Rightarrow> string \<Rightarrow> string \<Rightarrow> trace \<Rightarrow> response \<times> trace" where
  "runDeploy marked s form owner forcedName tr =
     (case form of
        FormTooLarge \<Rightarrow> (Reply 413 (BError ''payload_too_large''
          (MText (''deploy body exceeds the '' @ Itoa (MaxTarballBytes div (1024 * 1024)) @ '' MB limit''))), tr)
      | FormError e \<Rightarrow> (Reply 400 (BError ''bad_multipart'' (MText e)), tr)
      | Form raw decoded source \<Rightarrow>
          (case (if raw \<noteq> '''' then decoded else Ok empty_metadata) of
             Err e \<Rightarrow> (Reply 400 (BError ''bad_metadata'' (MText (''metadata is not valid JSON: '' @ e))), tr)
           | Ok m \<Rightarrow>
               let name = (if forcedName = '''' then dm_Name m else forcedName) in
               if name = '''' then (Reply 400 (BError ''missing_name'' (MText ''metadata.name is required'')), tr)
               else (case source of
                   None \<Rightarrow> (Reply 400 (BError ''missing_source'' (MText ''multipart field 'source' (the gzipped tarball) is required'')), tr)
                 | Some file \<Rightarrow> answer (Deploy s (deployRequest name owner file m)) (deployError marked) deployResponse tr)))"

definition DeployApp :: "(string \<Rightarrow> bool) \<Rightarrow> env option \<Rightarrow> req_context \<Rightarrow> deploy_form \<Rightarrow> trace \<Rightarrow> response \<times> trace" where
  "DeployApp marked svc cx form = guarded svc ''deploy_app'' cx (\<lambda>s owner. runDeploy marked s form owner '''')"

definition getError :: "derr \<Rightarrow> response" where
  "getError e = (if e = DNotFound then notFound else Reply 500 (BError ''get_failed'' (MErr e)))"

definition RedeployApp :: "(string \<Rightarrow> bool) \<Rightarrow> env option \<Rightarrow> req_context \<Rightarrow> string \<Rightarrow> deploy_form \<Rightarrow> trace \<Rightarrow> response \<times> trace" where
  "RedeployApp marked svc cx appID form =
     guarded svc ''redeploy_app'' cx (\<lambda>s owner tr.
       case Get s owner appID tr of
         (Err e, tr') \<Rightarrow> (getError e, tr')
       | (Ok _, tr') \<Rightarrow> runDeploy marked s form owner appID tr')"

subsection \<open>Reading and changing apps\<close>

definition ptr_or_0 :: "int option \<Rightarrow> int" where
  "ptr_or_0 p = (case p of None \<Rightarrow> 0 | Some n \<Rightarrow> n)"

definition ListApps_h :: "env option \<Rightarrow> req_context \<Rightarrow> int option \<Rightarrow> int option \<Rightarrow> trace \<Rightarrow> response \<times> trace" where
  "ListApps_h svc cx limit offset =
     guarded svc ''list_apps'' cx (\<lambda>s owner.
       answer (ListApps s owner (ptr_or_0 limit) (ptr_or_0 offset)) (\<lambda>e. Reply 500 (BError ''list_failed'' (MErr e)))
         (\<lambda>(apps, tot). Reply 200 (BApps (map toAPIApp apps) tot)))"

definition GetApp :: "env option \<Rightarrow> req_context \<Rightarrow> string \<Rightarrow> trace \<Rightarrow> response \<times> trace" where
  "GetApp svc cx appID =
     guarded svc ''get_app'' cx (\<lambda>s owner. answer (Get s owner appID) getError (\<lambda>app. Reply 200 (BApp (toAPIApp app))))"

definition mappedError :: "(string \<Rightarrow> bool) \<Rightarrow> nat \<Rightarrow> string \<Rightarrow> derr \<Rightarrow> response" where
  "mappedError marked status code e =
     (if e = DNotFound then notFound
      else if forbidden marked e then Reply 403 (BError ''forbidden'' (MErr e))
      else Reply status (BError code (MErr e)))"

definition DeleteApp :: "(string \<Rightarrow> bool) \<Rightarrow> env option \<Rightarrow> req_context \<Rightarrow> string \<Rightarrow> trace \<Rightarrow> response \<times> trace" where
  "DeleteApp marked svc cx appID =
     guarded svc ''delete_app'' cx (\<lambda>s owner. answer (Delete s owner appID) (mappedError marked 500 ''delete_failed'') (\<lambda>_. Reply 204 BNone))"

definition setSuspended_h :: "(string \<Rightarrow> bool) \<Rightarrow> env option \<Rightarrow> req_context \<Rightarrow> string \<Rightarrow> bool \<Rightarrow> trace \<Rightarrow> response \<times> trace" where
  "setSuspended_h marked svc cx appID suspended =
     guarded svc ''suspend_app'' cx (\<lambda>s owner.
       answer (SetSuspended s owner appID suspended) (mappedError marked 500 ''suspend_failed'') (\<lambda>app. Reply 202 (BApp (toAPIApp app))))"

definition GetAppVersions :: "(string \<Rightarrow> time) \<Rightarrow> env option \<Rightarrow> req_context \<Rightarrow> string \<Rightarrow> trace \<Rightarrow> response \<times> trace" where
  "GetAppVersions parseTime svc cx appID =
     guarded svc ''get_app_versions'' cx (\<lambda>s owner.
       answer (Versions s owner appID) (\<lambda>e. if e = DNotFound then notFound else Reply 500 (BError ''versions_failed'' (MErr e)))
         (\<lambda>recs. Reply 200 (BVersions (map (toAPIVersion parseTime) recs))))"

text \<open>The body of a rollback is what the decoder made of it.\<close>

definition RollbackApp :: "env option \<Rightarrow> req_context \<Rightarrow> string \<Rightarrow> int option \<Rightarrow> trace \<Rightarrow> response \<times> trace" where
  "RollbackApp svc cx appID version =
     guarded svc ''rollback_app'' cx (\<lambda>s owner tr.
       case version of
         None \<Rightarrow> (Reply 400 (BError ''bad_body'' (MText (''body must be {'' @ Quote ''version'' @ '': <int>}''))), tr)
       | Some v \<Rightarrow> answer (Rollback s owner appID v)
           (\<lambda>e. if e = DNotFound then notFound else Reply 400 (BError ''rollback_failed'' (MErr e))) deployResponse tr)"

subsection \<open>Share links\<close>

definition parseExpiresIn :: "(string \<Rightarrow> duration option) \<Rightarrow> string \<Rightarrow> duration option" where
  "parseExpiresIn parseDuration s =
     (if HasSuffix s ''d'' then map_option (\<lambda>d. int64 (d * 24)) (parseDuration (TrimSuffix s ''d'' @ ''h'')) else parseDuration s)"

text \<open>The body of a share-link request: malformed, or an optional password and lifetime (an empty request has neither).\<close>

type_synonym share_body = "(string, string option \<times> string option) result"

definition CreateShareLink_h ::
  "(string \<Rightarrow> bool) \<Rightarrow> (string \<Rightarrow> duration option) \<Rightarrow> env option \<Rightarrow> req_context \<Rightarrow> string \<Rightarrow> share_body \<Rightarrow> trace \<Rightarrow> response \<times> trace" where
  "CreateShareLink_h marked parseDuration svc cx appID rb =
     guarded svc ''create_share_link'' cx (\<lambda>s owner tr.
       case rb of
         Err e \<Rightarrow> (Reply 400 (BError ''bad_body'' (MText (''body must be JSON: '' @ e))), tr)
       | Ok (password, expires) \<Rightarrow>
           (case (if deref expires \<noteq> '''' then parseExpiresIn parseDuration (deref expires) else Some 0) of
              None \<Rightarrow> (Reply 400 (BError ''bad_expires_in'' (MText (''invalid expires_in '' @ Quote (deref expires) @ '' (use e.g. '' @ Quote ''24h'' @ '' or '' @ Quote ''7d'' @ '')''))), tr)
            | Some expiresIn \<Rightarrow>
                answer (CreateShareLink s owner appID (deref password) expiresIn) (mappedError marked 400 ''create_share_link_failed'')
                  (\<lambda>link. Reply 200 (BLink (toAPIShareLink link))) tr))"

text \<open>The slice \<open>links[offset:end]\<close> of \<open>ListShareLinks\<close>; \<open>None\<close> where the bounds are out of range.\<close>

definition linkPage :: "'a list \<Rightarrow> int option \<Rightarrow> int option \<Rightarrow> 'a list option" where
  "linkPage links limit offset =
     (let tot = int (length links);
          o1 = ptr_or_0 offset;
          o2 = (if o1 < 0 then 0 else o1);
          off = (if o2 > tot then tot else o2);
          lim = ptr_or_0 limit;
          en = (if lim > 0 \<and> int64 (off + lim) < tot then int64 (off + lim) else tot)
      in if off \<le> en then Some (take (nat (en - off)) (drop (nat off) links)) else None)"

definition ListShareLinks_h ::
  "(string \<Rightarrow> bool) \<Rightarrow> env option \<Rightarrow> req_context \<Rightarrow> string \<Rightarrow> int option \<Rightarrow> int option \<Rightarrow> trace \<Rightarrow> response \<times> trace" where
  "ListShareLinks_h marked svc cx appID limit offset =
     guarded svc ''list_share_links'' cx (\<lambda>s owner.
       answer (ListShareLinks s owner appID 0 0) (mappedError marked 400 ''list_share_links_failed'')
         (\<lambda>links. case linkPage links limit offset of
            None \<Rightarrow> Panic
          | Some page \<Rightarrow> Reply 200 (BLinks (map toAPIShareLink page) (int (length links)))))"

subsection \<open>Log streams\<close>

text \<open>\<open>StreamLogs\<close>: whether a clientset is configured, the pods (name and address) the API server lists, and the lines of a pod's log with the error the stream ends with.\<close>

record logs_env =
  lg_Clientset :: bool
  lg_Pods :: "trace \<Rightarrow> string \<Rightarrow> string \<Rightarrow> (string, (string \<times> string) list) result"
  lg_Stream :: "trace \<Rightarrow> string \<Rightarrow> string \<Rightarrow> bool \<Rightarrow> nat \<Rightarrow> (string, string list \<times> string option) result"

datatype log_error = LUnavailable | LService derr | LNoPod | LPods string | LOpen string | LWrite string | LRead string

definition boundPodName :: "logs_env \<Rightarrow> trace \<Rightarrow> VibedApp \<Rightarrow> (log_error, string) result" where
  "boundPodName lg tr app =
     (if st_PodIP (app_Status app) = '''' then Err LNoPod
      else case lg_Pods lg tr (app_Namespace app) (st_PodIP (app_Status app)) of
        Err e \<Rightarrow> Err (LPods e)
      | Ok pods \<Rightarrow> (case find (\<lambda>p. snd p = st_PodIP (app_Status app)) pods of None \<Rightarrow> Err LNoPod | Some p \<Rightarrow> Ok (fst p)))"

text \<open>The lines are handed on until the callback fails; \<open>room\<close> is how many the client takes before its connection breaks with the given error.\<close>

definition sendLines :: "(nat \<times> string) option \<Rightarrow> string list \<times> string option \<Rightarrow> string list \<times> log_error option" where
  "sendLines room ls = (case room of
      Some (k, e) \<Rightarrow> if k < length (fst ls) then (take k (fst ls), Some (LWrite e)) else (fst ls, map_option LRead (snd ls))
    | None \<Rightarrow> (fst ls, map_option LRead (snd ls)))"

definition StreamLogs ::
  "logs_env \<Rightarrow> env \<Rightarrow> string \<Rightarrow> string \<Rightarrow> bool \<Rightarrow> nat \<Rightarrow> (nat \<times> string) option \<Rightarrow> trace \<Rightarrow> (string list \<times> log_error option) \<times> trace" where
  "StreamLogs lg s owner appid follow tail room tr =
     (if \<not> lg_Clientset lg then (([], Some LUnavailable), tr)
      else case Get s owner appid tr of
        (Err e, tr') \<Rightarrow> (([], Some (LService e)), tr')
      | (Ok app, tr') \<Rightarrow>
          (case boundPodName lg tr' app of
             Err e \<Rightarrow> (([], Some e), tr')
           | Ok pod \<Rightarrow> (case lg_Stream lg tr' (app_Namespace app) pod follow tail of
               Err e \<Rightarrow> (([], Some (LOpen e)), tr')
             | Ok ls \<Rightarrow> (sendLines room ls, tr'))))"

text \<open>The slots.  A missing entry of the map counts zero.\<close>

definition defaultMaxLogStreamsPerUser :: int where "defaultMaxLogStreamsPerUser = 10"
definition defaultMaxLogStreamsGlobal :: int where "defaultMaxLogStreamsGlobal = 100"

record log_limits =
  ll_PerUser :: int
  ll_Global :: int

record log_slots =
  ls_streams :: "string \<rightharpoonup> int"
  ls_total :: int

definition perUserLogStreamLimit :: "log_limits \<Rightarrow> int" where
  "perUserLogStreamLimit c = (if ll_PerUser c > 0 then ll_PerUser c else defaultMaxLogStreamsPerUser)"

definition globalLogStreamLimit :: "log_limits \<Rightarrow> int" where
  "globalLogStreamLimit c = (if ll_Global c > 0 then ll_Global c else defaultMaxLogStreamsGlobal)"

definition slot_count :: "log_slots \<Rightarrow> string \<Rightarrow> int" where
  "slot_count ls user = (case ls_streams ls user of None \<Rightarrow> 0 | Some n \<Rightarrow> n)"

definition acquireLogStream :: "log_limits \<Rightarrow> string \<Rightarrow> log_slots \<Rightarrow> log_slots \<times> bool" where
  "acquireLogStream c user ls =
     (if ls_total ls \<ge> globalLogStreamLimit c then (ls, False)
      else if slot_count ls user \<ge> perUserLogStreamLimit c then (ls, False)
      else (ls\<lparr>ls_streams := (ls_streams ls)(user \<mapsto> slot_count ls user + 1), ls_total := ls_total ls + 1\<rparr>, True))"

definition releaseLogStream :: "string \<Rightarrow> log_slots \<Rightarrow> log_slots" where
  "releaseLogStream user ls =
     (let ls1 = (if slot_count ls user > 0 then ls\<lparr>ls_streams := (ls_streams ls)(user \<mapsto> slot_count ls user - 1), ls_total := ls_total ls - 1\<rparr> else ls)
      in if slot_count ls1 user = 0 then ls1\<lparr>ls_streams := (ls_streams ls1)(user := None)\<rparr> else ls1)"

text \<open>The handler up to the point where the stream starts; \<open>Inr\<close> is a stream that holds a slot.\<close>

definition openLogs ::
  "log_limits \<Rightarrow> env option \<Rightarrow> req_context \<Rightarrow> bool \<Rightarrow> string \<Rightarrow> log_slots \<Rightarrow> trace \<Rightarrow> (response + unit) \<times> log_slots \<times> trace" where
  "openLogs c svc cx flusher appID ls tr =
     (case svc of
        None \<Rightarrow> (Inl (notImplemented ''stream_app_logs''), ls, tr)
      | Some s \<Rightarrow>
          let owner = UserIDFromContext cx in
          if owner = '''' then (Inl unauthenticated, ls, tr)
          else (case Get (s\<lparr>e_Role := RoleFromContext cx\<rparr>) owner appID tr of
            (Err e, tr') \<Rightarrow> (Inl (getError e), ls, tr')
          | (Ok _, tr') \<Rightarrow>
              (case acquireLogStream c owner ls of
                 (ls', False) \<Rightarrow> (Inl (Reply 429 (BError ''too_many_log_streams'' (MText (''too many concurrent log streams (per-user limit '' @ Itoa (perUserLogStreamLimit c) @ '', or global capacity reached)'')))), ls', tr')
               | (ls', True) \<Rightarrow>
                   if \<not> flusher then (Inl (Reply 500 (BError ''no_streaming'' (MText ''response writer does not support streaming''))), releaseLogStream owner ls', tr')
                   else (Inr (), ls', tr'))))"

text \<open>A stream that runs to its end; the deferred release gives the slot back.  \<open>canceled\<close> tells that an error is the client's disconnect.\<close>

definition runLogs ::
  "(log_error \<Rightarrow> bool) \<Rightarrow> (log_error \<Rightarrow> string) \<Rightarrow> logs_env \<Rightarrow> env \<Rightarrow> req_context \<Rightarrow> string \<Rightarrow> bool \<Rightarrow> (nat \<times> string) option \<Rightarrow> log_slots \<Rightarrow> trace \<Rightarrow>
   response \<times> log_slots \<times> trace" where
  "runLogs canceled errText lg s cx appID follow room ls tr =
     (case StreamLogs lg (s\<lparr>e_Role := RoleFromContext cx\<rparr>) (UserIDFromContext cx) appID follow 200 room tr of
        ((sent, err), tr') \<Rightarrow>
          (Stream (map (\<lambda>l. ''data: '' @ l @ [CHR 0x0A, CHR 0x0A]) sent @
             (case err of None \<Rightarrow> [] | Some e \<Rightarrow> if canceled e then [] else [''event: error'' @ [CHR 0x0A] @ ''data: '' @ map (\<lambda>c. if c = CHR 0x0A then CHR '' '' else c) (errText e) @ [CHR 0x0A, CHR 0x0A]])),
           releaseLogStream (UserIDFromContext cx) ls, tr'))"

subsection \<open>The routes\<close>

datatype api_request =
    ADeploy deploy_form
  | AList "int option" "int option"
  | AGet string
  | ADelete string
  | ARedeploy string deploy_form
  | ASuspend string
  | AResume string
  | AVersions string
  | ARollback string "int option"
  | ACreateLink string share_body
  | AListLinks string "int option" "int option"
  | ATemplates

record api_env =
  ap_marked :: "string \<Rightarrow> bool"
  ap_parseDuration :: "string \<Rightarrow> duration option"
  ap_parseTime :: "string \<Rightarrow> time"

fun handle :: "api_env \<Rightarrow> env option \<Rightarrow> req_context \<Rightarrow> api_request \<Rightarrow> trace \<Rightarrow> response \<times> trace" where
  "handle ap svc cx (ADeploy form) = DeployApp (ap_marked ap) svc cx form"
| "handle ap svc cx (AList limit offset) = ListApps_h svc cx limit offset"
| "handle ap svc cx (AGet i) = GetApp svc cx i"
| "handle ap svc cx (ADelete i) = DeleteApp (ap_marked ap) svc cx i"
| "handle ap svc cx (ARedeploy i form) = RedeployApp (ap_marked ap) svc cx i form"
| "handle ap svc cx (ASuspend i) = setSuspended_h (ap_marked ap) svc cx i True"
| "handle ap svc cx (AResume i) = setSuspended_h (ap_marked ap) svc cx i False"
| "handle ap svc cx (AVersions i) = GetAppVersions (ap_parseTime ap) svc cx i"
| "handle ap svc cx (ARollback i v) = RollbackApp svc cx i v"
| "handle ap svc cx (ACreateLink i rb) = CreateShareLink_h (ap_marked ap) (ap_parseDuration ap) svc cx i rb"
| "handle ap svc cx (AListLinks i limit offset) = ListShareLinks_h (ap_marked ap) svc cx i limit offset"
| "handle ap svc cx ATemplates = Pair (Reply 200 BTemplates)"

end
