(* ===== verification/Http_Facts.thy ===== *)
theory Http_Facts
  imports Http_Api Deploy_Examples "HOL-Library.Multiset"
begin

section \<open>What the HTTP API guarantees\<close>

text \<open>
  Requests without a user do not reach the service, an app the caller may not see is answered like one that does not exist, log streams stay within their
  two caps, and share links are paged and expire as asked, with two exceptions where 64-bit arithmetic overflows.
\<close>

subsection \<open>Unauthenticated requests\<close>

lemmas handler_defs = DeployApp_def ListApps_h_def GetApp_def DeleteApp_def RedeployApp_def setSuspended_h_def GetAppVersions_def RollbackApp_def
  CreateShareLink_h_def ListShareLinks_h_def

text \<open>Without an authenticated user no request reaches the deploy service, whatever its body: nothing is called and the answer is 401, or 501 when no service
  is configured; only the empty template list is served.\<close>

theorem unauthenticated_api_touches_nothing:
  assumes "UserIDFromContext cx = ''''" "handle ap svc cx r tr = (resp, tr')"
  shows "tr' = tr \<and> (resp = unauthenticated \<or> resp \<in> range notImplemented \<or> r = ATemplates \<and> resp = Reply 200 BTemplates)"
  using assms by (cases r; cases svc) (auto simp: handler_defs guarded_def)

theorem unauthenticated_api_touches_nothing_witness:
  "\<exists>resp tr'. handle \<lparr>ap_marked = (\<lambda>_. True), ap_parseDuration = (\<lambda>_. None), ap_parseTime = (\<lambda>_. 0)\<rparr> (Some (sample_env None None None)) background (ADelete ''a'') [] = (resp, tr') \<and> tr' = []"
proof -
  let ?ap = "\<lparr>ap_marked = (\<lambda>_. True), ap_parseDuration = (\<lambda>_. None), ap_parseTime = (\<lambda>_. 0)\<rparr>"
  obtain resp tr' where h: "handle ?ap (Some (sample_env None None None)) background (ADelete ''a'') [] = (resp, tr')" by fastforce
  have "UserIDFromContext background = ''''" by (simp add: UserIDFromContext_def background_def)
  from unauthenticated_api_touches_nothing [OF this h] h show ?thesis by blast
qed

subsection \<open>Hidden apps\<close>

text \<open>The app does not exist, or the caller may not see it.\<close>

definition hidden :: "env \<Rightarrow> string \<Rightarrow> string \<Rightarrow> bool" where
  "hidden s owner i \<longleftrightarrow> (\<forall>tr tr' ns. case e_Get s tr ns i of Ok app \<Rightarrow> \<not> visible s owner app tr' | Err e \<Rightarrow> IsNotFound e)"

definition tenants_resolve :: "env \<Rightarrow> bool" where
  "tenants_resolve s \<longleftrightarrow> (\<forall>tr. \<exists>t tr'. resolveTenant (defaults s) tr = (Ok t, tr'))"

text \<open>The app a request names, for requests whose body decodes.\<close>

fun names_app :: "api_env \<Rightarrow> api_request \<Rightarrow> string option" where
  "names_app ap (AGet i) = Some i"
| "names_app ap (ADelete i) = Some i"
| "names_app ap (ARedeploy i form) = Some i"
| "names_app ap (ASuspend i) = Some i"
| "names_app ap (AResume i) = Some i"
| "names_app ap (AVersions i) = Some i"
| "names_app ap (ARollback i v) = (if v = None then None else Some i)"
| "names_app ap (ACreateLink i rb) = (case rb of Err _ \<Rightarrow> None
     | Ok (pw, ex) \<Rightarrow> if deref ex \<noteq> '''' \<and> parseExpiresIn (ap_parseDuration ap) (deref ex) = None then None else Some i)"
| "names_app ap (AListLinks i limit offset) = Some i"
| "names_app ap _ = None"

lemma Get_hidden:
  assumes "hidden s owner i" "tenants_resolve s"
  obtains new where "Get s owner i tr = (Err DNotFound, tr @ new)" "list_all quiet new"
proof (cases rule: Get_cases [of s owner i tr])
  case (missing e new)
  obtain t tr1 where t: "resolveTenant (defaults s) tr = (Ok t, tr1)" using assms(2) unfolding tenants_resolve_def by blast
  have "case e_Get s tr1 (tenant_Namespace t) i of Ok app \<Rightarrow> \<not> visible s owner app (tr1 @ [CGet (tenant_Namespace t) i]) | Err e \<Rightarrow> IsNotFound e"
    using assms(1) unfolding hidden_def by blast
  then have "fst (Get s owner i tr) = Err DNotFound" by (auto simp: Get_run t Let_def split: sum.splits)
  with missing that show ?thesis by auto
next
  case (found app new)
  then obtain ns tr0 tr1 where "e_Get s tr0 ns i = Ok app" "visible s owner app tr1" unfolding granted_def by blast
  moreover have "case e_Get s tr0 ns i of Ok app \<Rightarrow> \<not> visible s owner app tr1 | Err e \<Rightarrow> IsNotFound e"
    using assms(1) unfolding hidden_def by blast
  ultimately show ?thesis by simp
qed

lemma visible_defaults: "visible (defaults s) = visible s"
  by (auto simp: visible_def fun_eq_iff split: option.splits)

lemma hidden_defaults: "hidden (defaults s) owner i = hidden s owner i"
  unfolding hidden_def visible_defaults by simp

lemma tenants_resolve_defaults: "tenants_resolve (defaults s) = tenants_resolve s"
  by (simp add: tenants_resolve_def)

lemma Delete_hidden:
  assumes "hidden s owner i" "tenants_resolve s"
  obtains new where "Delete s owner i tr = (Err DNotFound, tr @ new)" "list_all quiet new"
proof -
  obtain n where n: "snd (tenantOf s tr) = tr @ n" "list_all quiet n" using tenantOf_extends [of s tr] by blast
  obtain m where "Get s owner i (tr @ n) = (Err DNotFound, (tr @ n) @ m)" "list_all quiet m" using assms by (rule Get_hidden)
  with n that [of "n @ m"] show ?thesis by (cases "tenantOf s tr") (auto simp: Delete_def bindE_def Let_def split: prod.splits)
qed

lemma Rollback_hidden:
  assumes "hidden s owner i" "tenants_resolve s"
  obtains new where "Rollback s owner i v tr = (Err DNotFound, tr @ new)" "list_all quiet new"
proof -
  obtain n where n: "snd (tenantOf (defaults s) tr) = tr @ n" "list_all quiet n" using tenantOf_extends [of "defaults s" tr] by blast
  have "hidden (defaults s) owner i" "tenants_resolve (defaults s)" using assms by (simp_all add: hidden_defaults tenants_resolve_defaults)
  then obtain m where "Get (defaults s) owner i (tr @ n) = (Err DNotFound, (tr @ n) @ m)" "list_all quiet m" by (rule Get_hidden)
  with n that [of "n @ m"] show ?thesis by (cases "tenantOf (defaults s) tr") (auto simp: Rollback_def bindE_def Let_def split: prod.splits)
qed


definition sample_api :: api_env where
  "sample_api = \<lparr>ap_marked = (\<lambda>_. True), ap_parseDuration = (\<lambda>s. if s = ''200000h'' then Some (200000 * 60 * minute) else None), ap_parseTime = (\<lambda>_. 0)\<rparr>"

definition sample_caller :: "string \<Rightarrow> req_context" where
  "sample_caller u = background\<lparr>cx_userID := u, cx_role := ''user''\<rparr>"

lemma sample_caller_simps [simp]: "UserIDFromContext (sample_caller (c # u)) = c # u" "RoleFromContext (sample_caller (c # u)) = ''user''"
  by (simp_all add: sample_caller_def UserIDFromContext_def RoleFromContext_def)

lemma sample_role [simp]: "(Deploy_Examples.sample_env ex w q)\<lparr>e_Role := ''user''\<rparr> = Deploy_Examples.sample_env ex w q"
  by (simp add: Deploy_Examples.sample_env_def)


subsection \<open>Log streams\<close>

text \<open>However requests for logs come and go: a stream is opened by \<open>openLogs\<close>, or turned away, and an open stream ends with \<open>runLogs\<close>, which releases its
  slot.  The second component is the bag of users with an open stream.\<close>

inductive log_step :: "log_limits \<Rightarrow> log_slots \<times> string multiset \<Rightarrow> log_slots \<times> string multiset \<Rightarrow> bool" for c where
  opened: "openLogs c svc cx fl i ls tr = (Inr (), ls', tr') \<Longrightarrow> log_step c (ls, op) (ls', add_mset (UserIDFromContext cx) op)"
| refused: "openLogs c svc cx fl i ls tr = (Inl r, ls', tr') \<Longrightarrow> log_step c (ls, op) (ls', op)"
| finished: "UserIDFromContext cx \<in># op \<Longrightarrow> runLogs canceled errText lg s cx i follow room ls tr = (r, ls', tr') \<Longrightarrow>
    log_step c (ls, op) (ls', op - {#UserIDFromContext cx#})"

definition slots_ok :: "log_limits \<Rightarrow> log_slots \<times> string multiset \<Rightarrow> bool" where
  "slots_ok c x = (case x of (ls, op) \<Rightarrow>
     ls_total ls = int (size op) \<and> ls_total ls \<le> globalLogStreamLimit c \<and> dom (ls_streams ls) = set_mset op \<and>
     (\<forall>u. slot_count ls u = int (count op u) \<and> int (count op u) \<le> perUserLogStreamLimit c))"

lemma slot_count_upd [simp]: "slot_count (ls\<lparr>ls_streams := (ls_streams ls)(u := v), ls_total := n\<rparr>) w = (if w = u then (case v of None \<Rightarrow> 0 | Some k \<Rightarrow> k) else slot_count ls w)"
  "slot_count (ls\<lparr>ls_streams := (ls_streams ls)(u := v)\<rparr>) w = (if w = u then (case v of None \<Rightarrow> 0 | Some k \<Rightarrow> k) else slot_count ls w)"
  by (simp_all add: slot_count_def)

lemma slots_okD:
  assumes "slots_ok c (ls, op)"
  shows "ls_total ls = int (size op)" "int (size op) \<le> globalLogStreamLimit c" "dom (ls_streams ls) = set_mset op"
    "slot_count ls u = int (count op u)" "int (count op u) \<le> perUserLogStreamLimit c"
  using assms by (simp_all add: slots_ok_def)

lemma slots_okI:
  assumes "ls_total ls = int (size op)" "int (size op) \<le> globalLogStreamLimit c" "dom (ls_streams ls) = set_mset op"
    "\<And>u. slot_count ls u = int (count op u)" "\<And>u. int (count op u) \<le> perUserLogStreamLimit c"
  shows "slots_ok c (ls, op)"
  using assms by (simp add: slots_ok_def)

lemma acquire_ok:
  assumes "slots_ok c (ls, op)" "acquireLogStream c u ls = (ls', True)"
  shows "slots_ok c (ls', add_mset u op)"
proof -
  note D = slots_okD [OF assms(1)]
  from assms(2) have lt: "ls_total ls < globalLogStreamLimit c" "slot_count ls u < perUserLogStreamLimit c"
    and ls': "ls' = ls\<lparr>ls_streams := (ls_streams ls)(u \<mapsto> slot_count ls u + 1), ls_total := ls_total ls + 1\<rparr>"
    by (simp_all add: acquireLogStream_def split: if_splits)
  show ?thesis unfolding ls'
    by (rule slots_okI) (use D(1-3) D(4,5) [of u] D(4,5) lt in \<open>auto simp: dom_fun_upd\<close>)
qed

lemma acquire_refused: "acquireLogStream c u ls = (ls', False) \<Longrightarrow> ls' = ls"
  by (auto simp: acquireLogStream_def split: if_splits)

lemma release_ok:
  assumes "slots_ok c (ls, op)" "u \<in># op"
  shows "slots_ok c (releaseLogStream u ls, op - {#u#})"
proof -
  let ?n = "slot_count ls u"
  have n: "?n = int (count op u)" "?n > 0" using assms by (auto simp: slots_ok_def)
  have d: "dom (ls_streams ls) = set_mset op" using assms(1) by (simp add: slots_ok_def)
  have s: "set_mset (op - {#u#}) = (if ?n = 1 then set_mset op - {u} else set_mset op)"
    using n assms(2) by (auto simp: in_diff_count count_eq_zero_iff [symmetric] intro!: Suc_lessI split: if_splits)
  have r: "releaseLogStream u ls = (if ?n = 1 then ls\<lparr>ls_streams := (ls_streams ls)(u := None), ls_total := ls_total ls - 1\<rparr>
      else ls\<lparr>ls_streams := (ls_streams ls)(u \<mapsto> ?n - 1), ls_total := ls_total ls - 1\<rparr>)"
    using n by (auto simp: releaseLogStream_def Let_def)
  note D = slots_okD [OF assms(1)]
  have sz: "int (size (op - {#u#})) = int (size op) - 1" using multi_member_split [OF assms(2)] by auto
  have cn: "int (count (op - {#u#}) w) = (if w = u then int (count op u) - 1 else int (count op w))" for w
    using n by (cases "count op u") auto
  have le: "int (count op u) - 1 \<le> perUserLogStreamLimit c" using D(5) [of u] by simp
  show ?thesis
    by (rule slots_okI) (use D(1-3) le D(4,5) n s sz cn in \<open>auto simp: r dom_fun_upd d\<close>)
qed

lemma acquire_release: "slots_ok c (ls, op) \<Longrightarrow> acquireLogStream c u ls = (ls', True) \<Longrightarrow> slots_ok c (releaseLogStream u ls', op)"
  using release_ok [OF acquire_ok, of c ls op u ls' u] by simp

lemma openLogs_cases:
  assumes "openLogs c svc cx fl i ls tr = (x, ls', tr')"
  shows "(x = Inr () \<and> acquireLogStream c (UserIDFromContext cx) ls = (ls', True)) \<or>
    (\<exists>r. x = Inl r \<and> (ls' = ls \<or> (\<exists>ls1. acquireLogStream c (UserIDFromContext cx) ls = (ls1, True) \<and> ls' = releaseLogStream (UserIDFromContext cx) ls1)))"
  using assms by (auto simp: openLogs_def Let_def split: option.splits if_splits prod.splits sum.splits bool.splits dest: acquire_refused)

lemma log_step_ok: "log_step c x y \<Longrightarrow> slots_ok c x \<Longrightarrow> slots_ok c y"
proof (induction rule: log_step.induct)
  case (opened svc cx fl i ls tr ls' tr' op)
  then show ?case using openLogs_cases [OF opened.hyps] acquire_ok by blast
next
  case (refused svc cx fl i ls tr r ls' tr' op)
  then show ?case using openLogs_cases [OF refused.hyps] acquire_release by blast
next
  case (finished cx op canceled errText lg s i follow room ls tr r ls' tr')
  then show ?case using release_ok by (auto simp: runLogs_def split: prod.splits)
qed

definition no_slots :: log_slots where
  "no_slots = \<lparr>ls_streams = Map.empty, ls_total = 0\<rparr>"

text \<open>C17: However log requests interleave, the slots count exactly the open streams: never more than the global cap in all, never more than the per-user cap for one
  user (caps of zero or less mean the defaults, never no cap), and a user without a stream leaves no entry behind.\<close>

theorem log_streams_are_capped:
  assumes "(log_step c)\<^sup>*\<^sup>* (no_slots, {#}) (ls, op)"
  shows "ls_total ls = int (size op) \<and> int (size op) \<le> globalLogStreamLimit c \<and> dom (ls_streams ls) = set_mset op \<and>
    (\<forall>u. slot_count ls u = int (count op u) \<and> int (count op u) \<le> perUserLogStreamLimit c)"
proof -
  have "slots_ok c (no_slots, {#})"
    by (auto simp: slots_ok_def no_slots_def slot_count_def globalLogStreamLimit_def perUserLogStreamLimit_def
        defaultMaxLogStreamsGlobal_def defaultMaxLogStreamsPerUser_def)
  with assms have "slots_ok c (ls, op)" by (induction rule: rtranclp_induct) (auto intro: log_step_ok)
  then show ?thesis by (auto simp: slots_ok_def)
qed

theorem log_streams_are_capped_witness:
  "ls_total (no_slots\<lparr>ls_streams := [''al'' \<mapsto> 1], ls_total := 1\<rparr>) = int (size {#''al''#}) \<and> int (size {#''al''#}) \<le> globalLogStreamLimit \<lparr>ll_PerUser = 0, ll_Global = 2\<rparr>"
proof -
  let ?c = "\<lparr>ll_PerUser = 0, ll_Global = 2\<rparr>" and ?s = "Deploy_Examples.sample_env (Some (sample_app ''ns'' ''a'' ''al'')) None None"
  have "openLogs ?c (Some ?s) (sample_caller ''al'') True ''a'' no_slots [] =
      (Inr (), no_slots\<lparr>ls_streams := [''al'' \<mapsto> 1], ls_total := 1\<rparr>, [CGet ''ns'' ''a''])"
    by (simp add: openLogs_def Get_run resolveTenant_def tenantOf_def zero_tenant_def visible_def sample_app_def acquireLogStream_def no_slots_def slot_count_def
        globalLogStreamLimit_def perUserLogStreamLimit_def defaultMaxLogStreamsPerUser_def Let_def)
  from log_step.opened [OF this, of "{#}"] have "(log_step ?c)\<^sup>*\<^sup>* (no_slots, {#}) (no_slots\<lparr>ls_streams := [''al'' \<mapsto> 1], ls_total := 1\<rparr>, {#''al''#})" by simp
  from log_streams_are_capped [OF this] show ?thesis by simp
qed

subsection \<open>Share links\<close>

lemma int64_id: "- (2 ^ 63) \<le> n \<Longrightarrow> n < 2 ^ 63 \<Longrightarrow> int64 n = n"
  by (simp add: int64_def)

text \<open>Unless \<open>offset + limit\<close> overflows, the page of share links an endpoint cuts out is the page the service itself would cut out.\<close>

theorem link_page_is_service_page:
  assumes "ptr_or_0 limit < 2 ^ 62" "int (length links) < 2 ^ 62"
  shows "linkPage links limit offset = Some (paginate (ptr_or_0 limit) (ptr_or_0 offset) links)"
proof -
  let ?tot = "int (length links)" and ?lim = "ptr_or_0 limit"
  define off where "off = (if (if ptr_or_0 offset < 0 then 0 else ptr_or_0 offset) > ?tot then ?tot else if ptr_or_0 offset < 0 then 0 else ptr_or_0 offset)"
  have off: "0 \<le> off" "off \<le> ?tot" by (simp_all add: off_def)
  have sum: "int64 (off + ?lim) = off + ?lim" if "?lim > 0" using that off assms by (intro int64_id) auto
  have d: "drop (nat (max 0 (ptr_or_0 offset))) links = drop (nat off) links" by (auto simp: off_def max_def)
  have p: "linkPage links limit offset = (let en = if ?lim > 0 \<and> int64 (off + ?lim) < ?tot then int64 (off + ?lim) else ?tot
      in if off \<le> en then Some (take (nat (en - off)) (drop (nat off) links)) else None)"
    unfolding linkPage_def Let_def off_def by simp
  show ?thesis
  proof (cases "?lim > 0")
    case True
    then show ?thesis using off unfolding p paginate_take_drop d Let_def by (auto simp: sum take_all_iff nat_le_iff)
  next
    case False
    then show ?thesis using off unfolding p paginate_take_drop d Let_def by simp
  qed
qed

theorem link_page_is_service_page_witness:
  "linkPage [1, 2, 3 :: int] (Some 2) (Some 1) = Some (paginate 2 1 [1, 2, 3])"
  using link_page_is_service_page [of "Some 2" "[1, 2, 3 :: int]" "Some 1"] by (simp add: ptr_or_0_def)

definition one_link_env :: env where
  "one_link_env = (Deploy_Examples.sample_env (Some (sample_app ''ns'' ''a'' ''al'')) None None)\<lparr>e_LinkList := (\<lambda>_ a _ _. Ok [
     \<lparr>sl_Token = ''t'', sl_ArtifactID = a, sl_CreatedBy = ''al'', sl_HasPassword = False, sl_ExpiresAt = None, sl_CreatedAt = 0, sl_Revoked = False, sl_URL = ''''\<rparr>])\<rparr>"

lemmas api_eval = guarded_def answer_def Let_def Get_run resolveTenant_def tenantOf_def zero_tenant_def visible_def sample_app_def prog_defs

text \<open>With a limit near the largest integer the sum overflows to a negative end of the slice and the handler panics.\<close>

theorem huge_limit_panics:
  "fst (ListShareLinks_h marked (Some one_link_env) (sample_caller ''al'') ''a'' (Some (2 ^ 63 - 1)) (Some 1) []) = Panic"
proof -
  have d: "defaults one_link_env = one_link_env" by (simp add: defaults_def one_link_env_def)
  have r: "one_link_env\<lparr>e_Role := ''user''\<rparr> = one_link_env" by (simp add: one_link_env_def Deploy_Examples.sample_env_def)
  have "linkPage [l] (Some (2 ^ 63 - 1)) (Some 1) = None" for l :: ShareLink by (simp add: linkPage_def ptr_or_0_def int64_def)
  note p = this
  have g: "Get one_link_env ''al'' ''a'' [] = (Ok (sample_app ''ns'' ''a'' ''al''), [CGet ''ns'' ''a''])"
    by (simp add: Get_run d Let_def resolveTenant_def tenantOf_def zero_tenant_def) (simp add: one_link_env_def visible_def sample_app_def Let_def)
  have l: "e_Links one_link_env" "\<exists>l. e_LinkList one_link_env tr a i j = Ok [l]" for tr a i j by (simp_all add: one_link_env_def)
  then obtain k where "e_LinkList one_link_env [CGet ''ns'' ''a''] ''a'' 0 0 = Ok [k]" by blast
  then show ?thesis
    using p [of k] by (simp add: ListShareLinks_h_def ListShareLinks_def guarded_def answer_def r g l(1) prog_defs)
qed

lemma CreateShareLink_expiry:
  assumes "CreateShareLink s owner appID pw d tr = (Ok link, tr')"
  shows "sl_ExpiresAt link = (if d > 0 then Some (sl_CreatedAt link + d) else None)"
  using assms by (auto simp: CreateShareLink_def bindE_def Let_def retE_def failE_def callE_def split: sum.splits prod.splits if_splits)

text \<open>A share link asked for with a lifetime expires that long after its creation, provided the lifetime, in nanoseconds, is positive after the wrap to 64
  bits.\<close>

theorem share_link_expires_as_asked:
  assumes "CreateShareLink_h marked parseDuration svc cx i (Ok (pw, Some ex)) tr = (Reply 200 (BLink l), tr')"
    "ex \<noteq> ''''" "parseExpiresIn parseDuration ex = Some d" "d > 0"
  shows "wl_ExpiresAt l = Some (wl_CreatedAt l + d)"
proof -
  obtain s where "svc = Some s" "UserIDFromContext cx \<noteq> ''''"
    using assms(1) by (auto simp: CreateShareLink_h_def guarded_def notImplemented_def unauthenticated_def Let_def split: option.splits if_splits)
  then obtain link tr'' where "CreateShareLink (s\<lparr>e_Role := RoleFromContext cx\<rparr>) (UserIDFromContext cx) i (deref pw) d tr = (Ok link, tr'')" "l = toAPIShareLink link"
    using assms by (auto simp: CreateShareLink_h_def guarded_def Let_def answer_def deref_def mappedError_def notFound_def split: prod.splits sum.splits if_splits)
  with CreateShareLink_expiry [OF this(1)] assms(4) show ?thesis by (simp add: toAPIShareLink_def)
qed

lemma sample_link_created:
  "\<exists>l tr'. CreateShareLink_h marked pd (Some (Deploy_Examples.sample_env (Some (sample_app ''ns'' ''a'' ''al'')) None None)) (sample_caller ''al'') ''a'' (Ok (None, Some (c # ex))) [] =
      (Reply 200 (BLink (toAPIShareLink l)), tr') \<and> sl_ExpiresAt l = (if d > 0 then Some d else None) \<and> sl_CreatedAt l = 0"
  if "parseExpiresIn pd (c # ex) = Some d"
proof -
  let ?l = "\<lparr>sl_Token = EncodeToString ''r'', sl_ArtifactID = ''a'', sl_CreatedBy = ''al'', sl_HasPassword = False,
      sl_ExpiresAt = (if d > 0 then Some d else None), sl_CreatedAt = 0, sl_Revoked = False, sl_URL = ''''\<rparr>"
  have "\<exists>tr'. CreateShareLink_h marked pd (Some (Deploy_Examples.sample_env (Some (sample_app ''ns'' ''a'' ''al'')) None None)) (sample_caller ''al'') ''a''
      (Ok (None, Some (c # ex))) [] = (Reply 200 (BLink (toAPIShareLink ?l)), tr')"
    using that by (simp add: CreateShareLink_h_def CreateShareLink_def api_eval deref_def mapE_def errE_def)
  then show ?thesis by (intro exI [of _ ?l]) auto
qed

theorem share_link_expires_as_asked_witness:
  "\<exists>l tr'. CreateShareLink_h (\<lambda>_. True) (\<lambda>s. if s = ''24h'' then Some (24 * 60 * minute) else None)
      (Some (Deploy_Examples.sample_env (Some (sample_app ''ns'' ''a'' ''al'')) None None)) (sample_caller ''al'') ''a'' (Ok (None, Some ''24h'')) [] = (Reply 200 (BLink l), tr') \<and>
    wl_ExpiresAt l = Some (wl_CreatedAt l + 24 * 60 * minute)"
proof -
  let ?pd = "\<lambda>s. if s = ''24h'' then Some (24 * 60 * minute) else None"
  have p: "parseExpiresIn ?pd ''24h'' = Some (24 * 60 * minute)" by (simp add: parseExpiresIn_def HasSuffix_def)
  obtain l tr' where l: "CreateShareLink_h (\<lambda>_. True) ?pd (Some (Deploy_Examples.sample_env (Some (sample_app ''ns'' ''a'' ''al'')) None None)) (sample_caller ''al'') ''a''
      (Ok (None, Some ''24h'')) [] = (Reply 200 (BLink l), tr')" using sample_link_created [OF p] by blast
  with share_link_expires_as_asked [OF l _ p] show ?thesis by (auto simp: minute_def second_def)
qed

text \<open>A lifetime of very many days overflows when it is multiplied by 24, and the link that should expire in five centuries never expires; the handler's comment
  calls minting a permanent link for a caller who asked for a limited one a fail-open.\<close>

theorem long_lifetime_never_expires:
  assumes "parseDuration ''200000h'' = Some (200000 * 60 * minute)"
  shows "\<exists>l tr'. CreateShareLink_h marked parseDuration (Some (Deploy_Examples.sample_env (Some (sample_app ''ns'' ''a'' ''al'')) None None)) (sample_caller ''al'') ''a''
      (Ok (None, Some ''200000d'')) [] = (Reply 200 (BLink l), tr') \<and> wl_ExpiresAt l = None"
proof -
  have p: "parseExpiresIn parseDuration ''200000d'' = Some (int64 (200000 * 60 * minute * 24))"
    using assms by (simp add: parseExpiresIn_def HasSuffix_def TrimSuffix_def)
  have "int64 (200000 * 60 * minute * 24) \<le> 0" by (simp add: int64_def minute_def second_def)
  with sample_link_created [OF p, of marked] show ?thesis by (auto simp: toAPIShareLink_def)
qed

theorem long_lifetime_never_expires_witness:
  "\<exists>l tr'. CreateShareLink_h (\<lambda>_. True) (ap_parseDuration sample_api) (Some (Deploy_Examples.sample_env (Some (sample_app ''ns'' ''a'' ''al'')) None None)) (sample_caller ''al'') ''a''
      (Ok (None, Some ''200000d'')) [] = (Reply 200 (BLink l), tr') \<and> wl_ExpiresAt l = None"
  by (rule long_lifetime_never_expires) (simp add: sample_api_def)

end
