(* ===== verification/Frontend.thy ===== *)
theory Frontend
  imports Query Auth Events
begin

section \<open>Administration, share links and the event stream\<close>

text \<open>
  \<open>src/internal/frontend/handler.go\<close> and \<open>sse.go\<close>: the handlers of \<open>/api/users\<close>, \<open>/api/departments\<close>, \<open>/api/whoami\<close>, \<open>/api/auth\<close>, \<open>/api/share\<close>,
  \<open>/api/share-links\<close> and \<open>/api/events\<close>.  The user store is any store with the operations of \<open>AdminStore\<close>; its contract is the locale \<open>admin_store\<close>, which
  SQLite meets.  Calls on Kubernetes namespaces are recorded, and \<open>k8s\<close> gives the answer to each (\<open>None\<close> for success).  A request's body is what the JSON
  decoder made of it; its query parameters are texts.
\<close>

subsection \<open>The store\<close>

record 's AdminStore =
  as_users :: "'s UserStore"
  as_GetUserByName :: "string \<Rightarrow> 's \<Rightarrow> 's \<times> User sql"
  as_ListUsers :: "string \<Rightarrow> int \<Rightarrow> int \<Rightarrow> 's \<Rightarrow> 's \<times> User list sql"
  as_GetDepartment :: "string \<Rightarrow> 's \<Rightarrow> 's \<times> Department sql"
  as_ListDepartments :: "int \<Rightarrow> int \<Rightarrow> 's \<Rightarrow> 's \<times> Department list sql"
  as_UpdateDepartment :: "Department \<Rightarrow> 's \<Rightarrow> 's \<times> sql_error option"
  as_DeleteDepartment :: "string \<Rightarrow> 's \<Rightarrow> 's \<times> sql_error option"

datatype ns_call = NsCreate string string | NsDelete string

record 's admin =
  ad_store :: 's
  ad_ns :: "ns_call list"

type_synonym k8s = "ns_call list \<Rightarrow> ns_call \<Rightarrow> string option"

definition ns_do :: "k8s \<Rightarrow> ns_call \<Rightarrow> 's admin \<Rightarrow> 's admin \<times> string option" where
  "ns_do k c st = (st\<lparr>ad_ns := ad_ns st @ [c]\<rparr>, k (ad_ns st) c)"

definition on_store :: "('s \<Rightarrow> 's \<times> 'a) \<Rightarrow> 's admin \<Rightarrow> 's admin \<times> 'a" where
  "on_store f st = (case f (ad_store st) of (s', r) \<Rightarrow> (st\<lparr>ad_store := s'\<rparr>, r))"

subsection \<open>Responses\<close>

text \<open>A user is encoded without its key hash.  \<open>writeError\<close> has a case for \<open>ErrInvalidInput\<close> too, which no code of the repository creates.\<close>

datatype web_body = WUser User | WUsers "User list" | WUserKey User string | WDept Department | WDepts "Department list"
  | WFields "(string \<times> string) list"

datatype web = WText nat string | WJson nat web_body

definition public_user :: "User \<Rightarrow> User" where
  "public_user u = u\<lparr>user_APIKeyHash := ''''\<rparr>"

definition writeError :: "sql_error \<Rightarrow> nat \<Rightarrow> web" where
  "writeError e fallback = (case e of
      EApi (ErrNotFound _) \<Rightarrow> WText 404 ''not found''
    | EApi (ErrAlreadyExists n) \<Rightarrow> WText 409 (''artifact with name '' @ Quote n @ '' already exists'')
    | EApi (ErrShareLinkNotFound _) \<Rightarrow> WText 404 ''not found''
    | EApi ErrPasswordRequired \<Rightarrow> WText 401 ''password required''
    | _ \<Rightarrow> WText fallback ''internal server error'')"

definition forbidden_text :: web where "forbidden_text = WText 403 ''admin access required''"
definition not_found_text :: web where "not_found_text = WText 404 ''not found''"
definition method_text :: web where "method_text = WText 405 ''method not allowed''"

subsection \<open>Who am I\<close>

definition handleWhoami :: "'s UserStore option \<Rightarrow> req_context \<Rightarrow> 's \<Rightarrow> 's \<times> web" where
  "handleWhoami userStore cx s =
     (let userID = UserIDFromContext cx; role = RoleFromContext cx;
          rest = (if userID = '''' then WJson 200 (WFields [(''user_id'', ''guest''), (''id'', ''guest''), (''name'', ''Guest''), (''role'', ''admin''),
                      (''status'', ''active''), (''provider'', ''local'')])
                  else WJson 200 (WFields [(''user_id'', userID), (''role'', role)]))
      in case userStore of
           None \<Rightarrow> (s, rest)
         | Some us \<Rightarrow>
             if userID = '''' then (s, rest)
             else (case us_GetUser us userID s of (s', Ok u) \<Rightarrow> (s', WJson 200 (WUser (public_user u))) | (s', Err _) \<Rightarrow> (s', rest)))"

definition handleAuthInfo :: "AuthConfig \<Rightarrow> bool \<times> string \<times> string" where
  "handleAuthInfo cfg =
     (if ac_Enabled cfg then (True, ac_Mode cfg, if ac_Mode cfg = ''saml'' then ''/saml/login'' else '''') else (False, '''', ''''))"

subsection \<open>Users\<close>

record user_body =
  ub_Name :: string
  ub_Email :: string
  ub_Role :: string
  ub_DepartmentID :: string

record web_req =
  w_Method :: string
  w_Path :: string
  w_department :: string
  w_limit :: string
  w_offset :: string

definition newUser :: "(string \<Rightarrow> string) \<Rightarrow> time \<Rightarrow> user_body \<Rightarrow> string \<Rightarrow> User" where
  "newUser sha256 now b plainKey =
     \<lparr>user_ID = ''u-'' @ hex_nat (nat now), user_Name = ub_Name b, user_Email = ub_Email b, user_Role = role_or_user (ub_Role b), user_Status = ''active'',
      user_Provider = ''local'', user_DepartmentID = ub_DepartmentID b, user_APIKeyHash = EncodeToString (sha256 plainKey), user_CreatedAt = now, user_UpdatedAt = now\<rparr>"

definition handleUsers ::
  "'s AdminStore option \<Rightarrow> (string \<Rightarrow> string) \<Rightarrow> (string, string) result \<Rightarrow> time \<Rightarrow> req_context \<Rightarrow> web_req \<Rightarrow> user_body option \<Rightarrow> 's admin \<Rightarrow> 's admin \<times> web" where
  "handleUsers userStore sha256 rnd now cx r rb st =
     (if \<not> IsAdmin cx then (st, forbidden_text)
      else case userStore of
        None \<Rightarrow> (st, WText 503 ''user store not available'')
      | Some us \<Rightarrow>
          if w_Method r = ''GET'' then
            (case on_store (as_ListUsers us (w_department r) (atoi (w_limit r)) (atoi (w_offset r))) st of
               (st', Err e) \<Rightarrow> (st', writeError e 500)
             | (st', Ok users) \<Rightarrow> (st', WJson 200 (WUsers (map public_user users))))
          else if w_Method r = ''POST'' then
            (case rb of
               None \<Rightarrow> (st, WText 400 ''invalid request body'')
             | Some b \<Rightarrow>
                 if ub_Name b = '''' then (st, WText 400 ''name is required'')
                 else (case rnd of
                     Err e \<Rightarrow> (st, WText 500 ''failed to generate API key'')
                   | Ok keyBytes \<Rightarrow>
                       let plainKey = ''vibed_'' @ EncodeToString keyBytes; user = newUser sha256 now b plainKey in
                       (case on_store (us_CreateUser (as_users us) user) st of
                          (st', Some e) \<Rightarrow> (st', writeError e 409)
                        | (st', None) \<Rightarrow> (st', WJson 201 (WUserKey (public_user user) plainKey)))))
          else (st, method_text))"

text \<open>The fields of a change that are present.\<close>

record user_patch =
  up_Role :: "string option"
  up_Status :: "string option"
  up_DepartmentID :: "string option"

definition patched :: "'a option \<Rightarrow> 'a \<Rightarrow> 'a" where
  "patched p x = (case p of None \<Rightarrow> x | Some y \<Rightarrow> y)"

definition save_user :: "'s AdminStore \<Rightarrow> User \<Rightarrow> 's admin \<Rightarrow> 's admin \<times> web" where
  "save_user us u st = (case on_store (us_UpdateUser (as_users us) u) st of
      (st', Some e) \<Rightarrow> (st', writeError e 500) | (st', None) \<Rightarrow> (st', WJson 200 (WUser (public_user u))))"

definition handleUserDetail ::
  "'s AdminStore option \<Rightarrow> time \<Rightarrow> req_context \<Rightarrow> web_req \<Rightarrow> user_patch option \<Rightarrow> 's admin \<Rightarrow> 's admin \<times> web" where
  "handleUserDetail userStore now cx r rb st =
     (case userStore of
        None \<Rightarrow> (st, WText 503 ''user store not available'')
      | Some us \<Rightarrow>
          let userID = TrimPrefix (w_Path r) ''/api/users/'' in
          if userID = '''' then (st, WText 400 ''user ID required'')
          else if w_Method r = ''GET'' then
            (if \<not> IsAdmin cx \<and> UserIDFromContext cx \<noteq> userID then (st, not_found_text)
             else case on_store (us_GetUser (as_users us) userID) st of
               (st', Err _) \<Rightarrow> (st', not_found_text) | (st', Ok u) \<Rightarrow> (st', WJson 200 (WUser (public_user u))))
          else if w_Method r = ''PATCH'' then
            (if \<not> IsAdmin cx then (st, forbidden_text)
             else case on_store (us_GetUser (as_users us) userID) st of
               (st', Err _) \<Rightarrow> (st', not_found_text)
             | (st', Ok u) \<Rightarrow> (case rb of
                 None \<Rightarrow> (st', WText 400 ''invalid request body'')
               | Some b \<Rightarrow> save_user us (u\<lparr>user_Role := patched (up_Role b) (user_Role u), user_Status := patched (up_Status b) (user_Status u),
                   user_DepartmentID := patched (up_DepartmentID b) (user_DepartmentID u), user_UpdatedAt := now\<rparr>) st'))
          else if w_Method r = ''DELETE'' then
            (if \<not> IsAdmin cx then (st, forbidden_text)
             else case on_store (us_GetUser (as_users us) userID) st of
               (st', Err _) \<Rightarrow> (st', not_found_text)
             | (st', Ok u) \<Rightarrow> save_user us (u\<lparr>user_Status := ''suspended'', user_UpdatedAt := now\<rparr>) st')
          else (st, method_text))"

subsection \<open>Departments\<close>

definition departmentNamespace :: "string \<Rightarrow> string" where
  "departmentNamespace name = ''vibed-dept-'' @ ToLower (map (\<lambda>c. if c = CHR '' '' then CHR ''-'' else c) name)"

definition newDepartment :: "time \<Rightarrow> string \<Rightarrow> Department" where
  "newDepartment now name =
     \<lparr>dept_ID = ''dept-'' @ hex_nat (nat now), dept_Name = name, dept_Namespace = departmentNamespace name, dept_CreatedAt = now, dept_UpdatedAt = now\<rparr>"

text \<open>Creating: first the namespace, then the row; the namespace is deleted again when the row cannot be written.\<close>

definition createDepartment :: "'s AdminStore \<Rightarrow> k8s option \<Rightarrow> Department \<Rightarrow> 's admin \<Rightarrow> 's admin \<times> web" where
  "createDepartment us k8s d st =
     (let row = (\<lambda>st. case on_store (us_CreateDepartment (as_users us) d) st of
            (st', Some e) \<Rightarrow> ((case k8s of None \<Rightarrow> st' | Some k \<Rightarrow> fst (ns_do k (NsDelete (dept_Namespace d)) st')), writeError e 409)
          | (st', None) \<Rightarrow> (st', WJson 201 (WDept d)))
      in case k8s of
           None \<Rightarrow> row st
         | Some k \<Rightarrow> (case ns_do k (NsCreate (dept_Namespace d) (dept_ID d)) st of
             (st', Some e) \<Rightarrow> (st', WText 500 ''internal server error'') | (st', None) \<Rightarrow> row st'))"

definition handleDepartments ::
  "'s AdminStore option \<Rightarrow> k8s option \<Rightarrow> time \<Rightarrow> req_context \<Rightarrow> web_req \<Rightarrow> string option \<Rightarrow> 's admin \<Rightarrow> 's admin \<times> web" where
  "handleDepartments userStore k8s now cx r rb st =
     (case userStore of
        None \<Rightarrow> (st, WText 503 ''user management not available'')
      | Some us \<Rightarrow>
          if \<not> IsAdmin cx then (st, forbidden_text)
          else if w_Method r = ''GET'' then
            (case on_store (as_ListDepartments us (atoi (w_limit r)) (atoi (w_offset r))) st of
               (st', Err e) \<Rightarrow> (st', writeError e 500) | (st', Ok ds) \<Rightarrow> (st', WJson 200 (WDepts ds)))
          else if w_Method r = ''POST'' then
            (case rb of
               None \<Rightarrow> (st, WText 400 ''invalid request body'')
             | Some name \<Rightarrow> if name = '''' then (st, WText 400 ''name is required'') else createDepartment us k8s (newDepartment now name) st)
          else (st, method_text))"

definition handleDepartmentDetail ::
  "'s AdminStore option \<Rightarrow> k8s option \<Rightarrow> time \<Rightarrow> req_context \<Rightarrow> web_req \<Rightarrow> string option option \<Rightarrow> 's admin \<Rightarrow> 's admin \<times> web" where
  "handleDepartmentDetail userStore k8s now cx r rb st =
     (case userStore of
        None \<Rightarrow> (st, WText 503 ''user management not available'')
      | Some us \<Rightarrow>
          if \<not> IsAdmin cx then (st, forbidden_text)
          else let deptID = TrimPrefix (w_Path r) ''/api/departments/'' in
          if deptID = '''' then (st, WText 400 ''department ID required'')
          else if w_Method r \<notin> {''GET'', ''PATCH'', ''DELETE''} then (st, method_text)
          else (case on_store (as_GetDepartment us deptID) st of
            (st', Err _) \<Rightarrow> (st', not_found_text)
          | (st', Ok d) \<Rightarrow>
              if w_Method r = ''GET'' then (st', WJson 200 (WDept d))
              else if w_Method r = ''PATCH'' then
                (case rb of
                   None \<Rightarrow> (st', WText 400 ''invalid request body'')
                 | Some name \<Rightarrow>
                     let d' = d\<lparr>dept_Name := patched name (dept_Name d), dept_UpdatedAt := now\<rparr> in
                     (case on_store (as_UpdateDepartment us d') st' of
                        (st'', Some e) \<Rightarrow> (st'', writeError e 500) | (st'', None) \<Rightarrow> (st'', WJson 200 (WDept d'))))
              else (case on_store (as_DeleteDepartment us deptID) st' of
                 (st'', Some e) \<Rightarrow> (st'', writeError e 500)
               | (st'', None) \<Rightarrow>
                   ((case k8s of Some k \<Rightarrow> if dept_Namespace d \<noteq> '''' then fst (ns_do k (NsDelete (dept_Namespace d)) st'') else st'' | None \<Rightarrow> st''),
                    WJson 200 (WFields [(''status'', ''deleted'')])))))"

subsection \<open>Share links\<close>

text \<open>The errors of the service, by their Go type.  A store's error keeps its type only if the store returned it unwrapped; \<open>link_err\<close> tells which it is.\<close>

definition serviceError :: "(string \<Rightarrow> api_error option) \<Rightarrow> derr \<Rightarrow> nat \<Rightarrow> web" where
  "serviceError link_err e fallback = (case e of
      DLinkNotFound _ \<Rightarrow> not_found_text
    | DPasswordRequired \<Rightarrow> WText 401 ''password required''
    | DLinkStore x \<Rightarrow> (case link_err x of Some a \<Rightarrow> writeError (EApi a) fallback | None \<Rightarrow> WText fallback ''internal server error'')
    | _ \<Rightarrow> WText fallback ''internal server error'')"

definition handleShareLinkRevoke :: "(string \<Rightarrow> api_error option) \<Rightarrow> env option \<Rightarrow> req_context \<Rightarrow> web_req \<Rightarrow> trace \<Rightarrow> web \<times> trace" where
  "handleShareLinkRevoke link_err svc cx r tr =
     (if w_Method r \<noteq> ''DELETE'' then (method_text, tr)
      else let token = TrimPrefix (w_Path r) ''/api/share-links/''; owner = UserIDFromContext cx in
      if token = '''' then (WText 400 ''missing token'', tr)
      else case svc of
        None \<Rightarrow> (not_found_text, tr)
      | Some s \<Rightarrow>
          if \<not> e_Links s \<or> owner = '''' then (not_found_text, tr)
          else (case RevokeShareLink (s\<lparr>e_Role := RoleFromContext cx\<rparr>) owner token tr of
            (Err e, tr') \<Rightarrow> (serviceError link_err e 404, tr') | (Ok _, tr') \<Rightarrow> (WJson 200 (WFields [(''status'', ''revoked'')]), tr')))"

definition handlePublicShareLink ::
  "(Phase \<Rightarrow> string) \<Rightarrow> (string \<Rightarrow> api_error option) \<Rightarrow> env option \<Rightarrow> req_context \<Rightarrow> web_req \<Rightarrow> string \<Rightarrow> trace \<Rightarrow> web \<times> trace" where
  "handlePublicShareLink phaseText link_err svc cx r rb tr =
     (let token = TrimPrefix (w_Path r) ''/api/share/''; password = (if w_Method r = ''POST'' then rb else '''') in
      if token = '''' then (WText 400 ''missing token'', tr)
      else case svc of
        None \<Rightarrow> (not_found_text, tr)
      | Some s \<Rightarrow>
          if \<not> e_Links s then (not_found_text, tr)
          else (case ResolveShareLink (s\<lparr>e_Role := RoleFromContext cx\<rparr>) token password tr of
            (Err e, tr') \<Rightarrow> (serviceError link_err e (if e = DPasswordRequired then 401 else 404), tr')
          | (Ok app, tr') \<Rightarrow> (WJson 200 (WFields [(''name'', app_Name app), (''status'', phaseText (st_Phase (app_Status app))), (''url'', st_URL (app_Status app)),
              (''target'', ''app'')]), tr')))"

subsection \<open>Static files and body limits\<close>

definition staticCacheControl :: "string \<Rightarrow> string option" where
  "staticCacheControl p =
     (if HasPrefix p ''/assets/'' then Some ''public, max-age=31536000, immutable''
      else if p = ''/'' \<or> HasSuffix p ''/'' \<or> HasSuffix p ''.html'' then Some ''no-cache, must-revalidate'' else None)"

definition limitRequestBody :: "int \<Rightarrow> string \<Rightarrow> int option" where
  "limitRequestBody maxBytes path =
     (let mx = (if maxBytes \<le> 0 then 64 * 1024 * 1024 else maxBytes) in
      if HasPrefix path ''/api/'' \<or> HasPrefix path ''/mcp'' then Some mx else None)"

subsection \<open>The event stream\<close>

definition maxSSEConnections :: int where
  "maxSSEConnections = 100"

definition sse_sends :: "req_context \<Rightarrow> Event \<Rightarrow> bool" where
  "sse_sends cx ev \<longleftrightarrow> \<not> (UserIDFromContext cx \<noteq> '''' \<and> \<not> IsAdmin cx \<and> ev_OwnerID ev \<noteq> '''' \<and> ev_OwnerID ev \<noteq> UserIDFromContext cx)"

text \<open>What one connection writes for the events its channel delivers.\<close>

definition sse_chunk :: "(Event \<Rightarrow> string) \<Rightarrow> (Event \<Rightarrow> string) \<Rightarrow> Event \<Rightarrow> string" where
  "sse_chunk typeText payload ev = ''id: '' @ ev_ID ev @ [CHR 0x0A] @ ''event: '' @ typeText ev @ [CHR 0x0A] @ ''data: '' @ payload ev @ [CHR 0x0A, CHR 0x0A]"

definition sse_stream :: "(Event \<Rightarrow> string) \<Rightarrow> (Event \<Rightarrow> string) \<Rightarrow> req_context \<Rightarrow> Event list \<Rightarrow> string list" where
  "sse_stream typeText payload cx evs = map (sse_chunk typeText payload) (filter (sse_sends cx) evs)"

text \<open>The counter of connections: the cap is tested with one atomic load and the connection counted with a later atomic add, so handlers of several
  connections interleave between the two.  \<open>sc_checked\<close> is the number of handlers between their test and their add.\<close>

record sse_conns =
  sc_active :: int
  sc_checked :: nat
  sc_refused :: nat

inductive sse_step :: "sse_conns \<Rightarrow> sse_conns \<Rightarrow> bool" where
  check: "sc_active s < maxSSEConnections \<Longrightarrow> sse_step s (s\<lparr>sc_checked := sc_checked s + 1\<rparr>)"
| refuse: "sc_active s \<ge> maxSSEConnections \<Longrightarrow> sse_step s (s\<lparr>sc_refused := sc_refused s + 1\<rparr>)"
| add: "sc_checked s > 0 \<Longrightarrow> sse_step s (s\<lparr>sc_checked := sc_checked s - 1, sc_active := sc_active s + 1\<rparr>)"
| finish: "sc_active s > 0 \<Longrightarrow> sse_step s (s\<lparr>sc_active := sc_active s - 1\<rparr>)"

end
