(* ===== verification/Frontend_Facts.thy ===== *)
theory Frontend_Facts
  imports Frontend Auth_Facts
begin

section \<open>What the administration endpoints guarantee\<close>

text \<open>
  The contract of a store for administration, met by SQLite; who can change accounts, departments and namespaces; that an issued key authenticates its
  account; what the event stream shows and how many connections it admits.
\<close>

subsection \<open>Rows under their key\<close>

definition id_view :: "('a \<Rightarrow> 'k) \<Rightarrow> 'a list \<Rightarrow> 'k \<rightharpoonup> 'a" where
  "id_view key xs = map_of (map (\<lambda>x. (key x, x)) xs)"

lemma id_view_append: "key x \<notin> key ` set xs \<Longrightarrow> id_view key (xs @ [x]) = (id_view key xs)(key x \<mapsto> x)"
  unfolding id_view_def map_append map_of_append by (subst map_add_comm) (auto simp: dom_map_of_conv_image_fst image_image)

lemma id_view_map: "(\<And>x. key (f x) = key x) \<Longrightarrow> id_view key (map f xs) = map_option f \<circ> id_view key xs"
  by (induction xs) (auto simp: id_view_def fun_eq_iff)

lemma id_view_filter: "id_view key (filter (\<lambda>x. key x \<noteq> k) xs) = (id_view key xs)(k := None)"
proof (rule ext)
  show "id_view key (filter (\<lambda>x. key x \<noteq> k) xs) j = ((id_view key xs)(k := None)) j" for j
    by (induction xs) (auto simp: id_view_def)
qed

lemma id_view_Some: "id_view key xs k = Some x \<Longrightarrow> x \<in> set xs \<and> key x = k"
  by (auto simp: id_view_def dest!: map_of_SomeD)

lemma id_view_None: "id_view key xs k = None \<longleftrightarrow> k \<notin> key ` set xs"
  by (simp add: id_view_def map_of_eq_None_iff image_image)

lemma find_id_view: "find (\<lambda>x. key x = k) xs = id_view key xs k"
  by (induction xs) (auto simp: id_view_def)

lemma id_view_update:
  assumes "id_view key xs k = Some row" "\<And>x. key (g x) = key x"
  shows "id_view key (map (\<lambda>x. if key x = k then g x else x) xs) = (id_view key xs)(k \<mapsto> g row)"
proof -
  have "id_view key (map (\<lambda>x. if key x = k then g x else x) xs) = map_option (\<lambda>x. if key x = k then g x else x) \<circ> id_view key xs"
    by (rule id_view_map) (simp add: assms(2))
  also have "\<dots> = (id_view key xs)(k \<mapsto> g row)"
    using assms(1) by (auto simp: fun_eq_iff map_option_case split: option.splits dest: id_view_Some)
  finally show ?thesis .
qed

subsection \<open>The contract\<close>

definition keeps :: "('s \<Rightarrow> bool) \<Rightarrow> ('s \<Rightarrow> 'u) \<Rightarrow> ('s \<Rightarrow> 'd) \<Rightarrow> 's \<Rightarrow> 's \<Rightarrow> bool" where
  "keeps good users depts s s' \<longleftrightarrow> good s' \<and> users s' = users s \<and> depts s' = depts s"

locale admin_store = user_store "as_users ad" inv users for ad :: "'s AdminStore" and inv and users +
  fixes departments :: "'s \<Rightarrow> string \<rightharpoonup> Department"
  assumes reads:
      "inv s \<Longrightarrow> as_GetUserByName ad n s = (s', ru) \<Longrightarrow> keeps inv users departments s s'"
      "inv s \<Longrightarrow> as_ListUsers ad n l k s = (s', rl) \<Longrightarrow> keeps inv users departments s s'"
      "inv s \<Longrightarrow> as_ListDepartments ad l k s = (s', rd) \<Longrightarrow> keeps inv users departments s s'"
    and user_ops:
      "inv s \<Longrightarrow> us_GetUser (as_users ad) i s = (s', r) \<Longrightarrow> departments s' = departments s"
      "inv s \<Longrightarrow> us_CreateUser (as_users ad) u s = (s', e) \<Longrightarrow> departments s' = departments s"
      "inv s \<Longrightarrow> us_UpdateUser (as_users ad) u s = (s', e) \<Longrightarrow> departments s' = departments s"
    and get_dept: "inv s \<Longrightarrow> as_GetDepartment ad i s = (s', rg) \<Longrightarrow> keeps inv users departments s s' \<and> (\<forall>d. rg = Ok d \<longrightarrow> departments s i = Some d)"
    and create_dept: "inv s \<Longrightarrow> us_CreateDepartment (as_users ad) d s = (s', e) \<Longrightarrow>
      departments s' = (if e = None then (departments s)(dept_ID d \<mapsto> d) else departments s)"
    and update_dept: "inv s \<Longrightarrow> as_UpdateDepartment ad d s = (s', e) \<Longrightarrow> inv s' \<and> users s' = users s \<and>
      (if e = None then departments s' = (departments s)(dept_ID d \<mapsto> d) \<or>
         (\<exists>row. departments s (dept_ID d) = Some row \<and>
            departments s' = (departments s)(dept_ID d \<mapsto> row\<lparr>dept_Name := dept_Name d, dept_Namespace := dept_Namespace d, dept_UpdatedAt := dept_UpdatedAt d\<rparr>))
       else departments s' = departments s)"
    and delete_dept: "inv s \<Longrightarrow> as_DeleteDepartment ad i s = (s', e) \<Longrightarrow> inv s' \<and> dom (users s') = dom (users s) \<and>
      departments s' = (if e = None then (departments s)(i := None) else departments s)"

text \<open>The requests of the administration endpoints, each with what its body decoded to.\<close>

datatype admin_request =
    RUsers "(string, string) result" "user_body option"
  | RUser "user_patch option"
  | RDepartments "string option"
  | RDepartment "string option option"

fun admin_handle ::
  "'s AdminStore \<Rightarrow> (string \<Rightarrow> string) \<Rightarrow> k8s option \<Rightarrow> time \<Rightarrow> req_context \<Rightarrow> web_req \<Rightarrow> admin_request \<Rightarrow> 's admin \<Rightarrow> 's admin \<times> web" where
  "admin_handle us sha k8s now cx r (RUsers rnd b) = handleUsers (Some us) sha rnd now cx r b"
| "admin_handle us sha k8s now cx r (RUser b) = handleUserDetail (Some us) now cx r b"
| "admin_handle us sha k8s now cx r (RDepartments b) = handleDepartments (Some us) k8s now cx r b"
| "admin_handle us sha k8s now cx r (RDepartment b) = handleDepartmentDetail (Some us) k8s now cx r b"

text \<open>Namespaces of departments.\<close>

definition dept_namespace :: "string \<Rightarrow> bool" where
  "dept_namespace n \<longleftrightarrow> HasPrefix n ''vibed-dept-''"

definition ns_ok :: "('s \<Rightarrow> string \<rightharpoonup> Department) \<Rightarrow> 's \<Rightarrow> bool" where
  "ns_ok departments s \<longleftrightarrow> (\<forall>i d. departments s i = Some d \<longrightarrow> dept_Namespace d = '''' \<or> dept_namespace (dept_Namespace d))"

fun ns_confined :: "ns_call \<Rightarrow> bool" where
  "ns_confined (NsCreate n l) = dept_namespace n"
| "ns_confined (NsDelete n) = dept_namespace n"

lemma departmentNamespace_ok: "dept_namespace (departmentNamespace name)"
  by (simp add: dept_namespace_def departmentNamespace_def HasPrefix_def)

lemma ns_ok_upd: "ns_ok D s \<Longrightarrow> D s' = (D s)(i := v) \<Longrightarrow> (\<And>d. v = Some d \<Longrightarrow> dept_Namespace d = '''' \<or> dept_namespace (dept_Namespace d)) \<Longrightarrow> ns_ok D s'"
  by (auto simp: ns_ok_def split: if_splits)

lemma ns_ok_same: "ns_ok D s \<Longrightarrow> D s' = D s \<Longrightarrow> ns_ok D s'"
  by (simp add: ns_ok_def)

definition admin_ok :: "('s \<Rightarrow> bool) \<Rightarrow> ('s \<Rightarrow> string \<rightharpoonup> Department) \<Rightarrow> 's admin \<Rightarrow> bool" where
  "admin_ok good D st \<longleftrightarrow> good (ad_store st) \<and> ns_ok D (ad_store st) \<and> list_all ns_confined (ad_ns st)"

lemma on_store_eq: "on_store f st = (st', r) \<longleftrightarrow> (\<exists>s'. f (ad_store st) = (s', r) \<and> st' = st\<lparr>ad_store := s'\<rparr>)"
  by (auto simp: on_store_def split: prod.splits)

lemma handleUsers_cases:
  assumes "handleUsers (Some us) sha rnd now cx r b st = (st', resp)"
  shows "st' = st \<or> st' = fst (on_store (as_ListUsers us (w_department r) (atoi (w_limit r)) (atoi (w_offset r))) st) \<or>
    (\<exists>u. st' = fst (on_store (us_CreateUser (as_users us) u) st))"
proof (cases "w_Method r = ''POST'' \<and> (\<exists>body bytes. b = Some body \<and> rnd = Ok bytes)")
  case True
  then obtain body bytes where "b = Some body" "rnd = Ok bytes" by blast
  let ?u = "newUser sha now body (''vibed_'' @ EncodeToString bytes)"
  have "st' = st \<or> st' = fst (on_store (us_CreateUser (as_users us) ?u) st)"
    using assms True \<open>b = Some body\<close> \<open>rnd = Ok bytes\<close> by (auto simp: handleUsers_def Let_def split: if_splits prod.splits option.splits)
  then show ?thesis by blast
next
  case False
  then show ?thesis using assms by (auto simp: handleUsers_def Let_def split: if_splits prod.splits option.splits sum.splits)
qed

lemma handleDepartments_cases:
  assumes "handleDepartments (Some us) k8s now cx r b st = (st', resp)"
  shows "st' = st \<or> st' = fst (on_store (as_ListDepartments us (atoi (w_limit r)) (atoi (w_offset r))) st) \<or>
    (\<exists>name. createDepartment us k8s (newDepartment now name) st = (st', resp))"
  using assms by (cases b) (auto simp: handleDepartments_def split: if_splits prod.splits sum.splits)

context admin_store
begin

lemma same_ok: "admin_ok inv departments st \<Longrightarrow> keeps inv users departments (ad_store st) s' \<Longrightarrow> admin_ok inv departments (st\<lparr>ad_store := s'\<rparr>)"
  by (auto simp: admin_ok_def keeps_def intro: ns_ok_same)

lemma save_user_ok:
  assumes "admin_ok inv departments st" "save_user ad u st = (st', resp)"
  shows "admin_ok inv departments st' \<and> ad_ns st' = ad_ns st"
proof -
  obtain s' e where 1: "us_UpdateUser (as_users ad) u (ad_store st) = (s', e)" by fastforce
  have i: "inv (ad_store st)" using assms(1) by (simp add: admin_ok_def)
  have st': "st' = st\<lparr>ad_store := s'\<rparr>" using assms(2) 1 by (auto simp: save_user_def on_store_def split: option.splits)
  show ?thesis using update [OF i 1] user_ops(3) [OF i 1] assms(1) unfolding st' by (auto simp: admin_ok_def intro: ns_ok_same)
qed

lemma getuser_ok:
  assumes "admin_ok inv departments st" "on_store (us_GetUser (as_users ad) i) st = (st', r)"
  shows "admin_ok inv departments st' \<and> ad_ns st' = ad_ns st \<and> users (ad_store st') = users (ad_store st) \<and> departments (ad_store st') = departments (ad_store st)"
proof -
  obtain s' where 1: "us_GetUser (as_users ad) i (ad_store st) = (s', r)" "st' = st\<lparr>ad_store := s'\<rparr>" using assms(2) unfolding on_store_eq by blast
  have i: "inv (ad_store st)" using assms(1) by (simp add: admin_ok_def)
  show ?thesis using get [OF i 1(1)] user_ops(1) [OF i 1(1)] assms(1) unfolding 1(2) by (auto simp: admin_ok_def intro: ns_ok_same)
qed

lemma createDepartment_ok:
  assumes "admin_ok inv departments st" "createDepartment ad k8s (newDepartment now name) st = (st', resp)"
  shows "admin_ok inv departments st'"
proof -
  let ?d = "newDepartment now name"
  have dn: "dept_namespace (dept_Namespace ?d)" by (simp add: newDepartment_def departmentNamespace_ok)
  have row: "admin_ok inv departments (case on_store (us_CreateDepartment (as_users ad) ?d) st0 of
      (st', Some e) \<Rightarrow> (case k8s of None \<Rightarrow> st' | Some k \<Rightarrow> fst (ns_do k (NsDelete (dept_Namespace ?d)) st')) | (st', None) \<Rightarrow> st')"
    if "admin_ok inv departments st0" for st0
  proof -
    obtain s' e where 1: "us_CreateDepartment (as_users ad) ?d (ad_store st0) = (s', e)" by fastforce
    have i: "inv (ad_store st0)" using that by (simp add: admin_ok_def)
    have "ns_ok departments s'"
      using create_dept [OF i 1] that dn by (cases e) (auto simp: admin_ok_def intro: ns_ok_same ns_ok_upd)
    then show ?thesis using depts(2) [OF i 1] that 1 dn by (auto simp: on_store_def admin_ok_def ns_do_def split: option.splits)
  qed
  show ?thesis
  proof (cases k8s)
    case None
    then show ?thesis using row [OF assms(1)] assms(2) by (auto simp: createDepartment_def split: prod.splits option.splits)
  next
    case (Some k)
    have n: "admin_ok inv departments (st\<lparr>ad_ns := ad_ns st @ [NsCreate (dept_Namespace ?d) (dept_ID ?d)]\<rparr>)" using assms(1) dn by (simp add: admin_ok_def)
    show ?thesis
    proof (cases "k (ad_ns st) (NsCreate (dept_Namespace ?d) (dept_ID ?d))")
      case (Some e)
      then show ?thesis using assms(2) n \<open>k8s = Some k\<close> by (simp add: createDepartment_def ns_do_def)
    next
      case None
      then show ?thesis using assms(2) row [OF n] \<open>k8s = Some k\<close> by (auto simp: createDepartment_def ns_do_def split: prod.splits option.splits)
    qed
  qed
qed

lemma handleDepartmentDetail_ok:
  assumes "admin_ok inv departments st" "handleDepartmentDetail (Some ad) k8s now cx r b st = (st', resp)"
  shows "admin_ok inv departments st'"
proof -
  let ?i = "TrimPrefix (w_Path r) ''/api/departments/''"
  show ?thesis
  proof (cases "\<not> IsAdmin cx \<or> ?i = '''' \<or> w_Method r \<notin> {''GET'', ''PATCH'', ''DELETE''}")
    case True
    then show ?thesis using assms by (auto simp: handleDepartmentDetail_def Let_def split: if_splits)
  next
    case False
    obtain s1 g where g: "as_GetDepartment ad ?i (ad_store st) = (s1, g)" by fastforce
    let ?st = "st\<lparr>ad_store := s1\<rparr>"
    note D = get_dept [OF _ g]
    have i: "inv (ad_store st)" using assms(1) by (simp add: admin_ok_def)
    have ok: "admin_ok inv departments ?st" using same_ok [OF assms(1)] D [OF i] by blast
    note h = assms(2) [unfolded handleDepartmentDetail_def Let_def]
    show ?thesis
    proof (cases g)
      case (Inl e)
      then have "st' = ?st" using h False g by (simp add: on_store_def)
      with ok show ?thesis by simp
    next
      case (Inr d)
      have dns: "dept_Namespace d = '''' \<or> dept_namespace (dept_Namespace d)"
        using D [OF i] Inr assms(1) unfolding admin_ok_def ns_ok_def by blast
      consider (get) "st' = ?st"
        | (upd) s2 e d' where "as_UpdateDepartment ad d' s1 = (s2, e)" "st' = ?st\<lparr>ad_store := s2\<rparr>" "dept_Namespace d' = dept_Namespace d"
        | (del) s2 e where "as_DeleteDepartment ad ?i s1 = (s2, e)"
            "st' = ?st\<lparr>ad_store := s2\<rparr> \<or> (dept_Namespace d \<noteq> '''' \<and> st' = ?st\<lparr>ad_store := s2, ad_ns := ad_ns st @ [NsDelete (dept_Namespace d)]\<rparr>)"
        using h False g Inr
        by (auto simp: on_store_def ns_do_def split: prod.splits option.splits if_splits)
      then show ?thesis
      proof cases
        case get
        with ok show ?thesis by simp
      next
        case upd
        have i1: "inv s1" using ok by (simp add: admin_ok_def)
        have n1: "ns_ok departments s1" using ok by (simp add: admin_ok_def)
        have "ns_ok departments s2"
          using update_dept [OF i1 upd(1)] n1 dns upd(3) by (auto intro: ns_ok_same ns_ok_upd split: if_splits)
        then show ?thesis using update_dept [OF i1 upd(1)] ok upd(2) by (simp add: admin_ok_def)
      next
        case del
        have i1: "inv s1" using ok by (simp add: admin_ok_def)
        have n1: "ns_ok departments s1" using ok by (simp add: admin_ok_def)
        have "ns_ok departments s2" using delete_dept [OF i1 del(1)] n1 by (auto intro: ns_ok_same ns_ok_upd split: if_splits)
        then show ?thesis using delete_dept [OF i1 del(1)] ok del(2) dns by (auto simp: admin_ok_def)
      qed
    qed
  qed
qed

lemma handleUserDetail_ok:
  assumes "admin_ok inv departments st" "handleUserDetail (Some ad) now cx r b st = (st', resp)"
  shows "admin_ok inv departments st' \<and> ad_ns st' = ad_ns st"
proof -
  let ?i = "TrimPrefix (w_Path r) ''/api/users/''"
  obtain st1 g where g: "on_store (us_GetUser (as_users ad) ?i) st = (st1, g)" by fastforce
  note ok = getuser_ok [OF assms(1) g]
  consider (same) "st' = st" | (read) "st' = st1" | (save) u where "save_user ad u st1 = (st', resp)"
    using assms(2) g by (auto simp: handleUserDetail_def Let_def split: if_splits sum.splits option.splits)
  then show ?thesis
  proof cases
    case save
    then show ?thesis using save_user_ok [OF _ save] ok by auto
  qed (use assms(1) ok in auto)
qed

lemma handleUsers_ok:
  assumes "admin_ok inv departments st" "handleUsers (Some ad) sha rnd now cx r b st = (st', resp)"
  shows "admin_ok inv departments st' \<and> ad_ns st' = ad_ns st"
proof -
  have i: "inv (ad_store st)" using assms(1) by (simp add: admin_ok_def)
  from handleUsers_cases [OF assms(2)] show ?thesis
  proof (elim disjE exE)
    assume l: "st' = fst (on_store (as_ListUsers ad (w_department r) (atoi (w_limit r)) (atoi (w_offset r))) st)"
    obtain s1 g where 1: "as_ListUsers ad (w_department r) (atoi (w_limit r)) (atoi (w_offset r)) (ad_store st) = (s1, g)" by fastforce
    show ?thesis using same_ok [OF assms(1) reads(2) [OF i 1]] l 1 by (simp add: on_store_def)
  next
    fix u assume c: "st' = fst (on_store (us_CreateUser (as_users ad) u) st)"
    obtain s1 e where 1: "us_CreateUser (as_users ad) u (ad_store st) = (s1, e)" by fastforce
    show ?thesis using create [OF i 1] user_ops(2) [OF i 1] assms(1) c 1 by (auto simp: admin_ok_def on_store_def intro: ns_ok_same)
  qed (use assms(1) in simp)
qed

lemma admin_handle_ok:
  assumes "admin_ok inv departments st" "admin_handle ad sha k8s now cx r q st = (st', resp)"
  shows "admin_ok inv departments st'"
proof (cases q)
  case (RUsers rnd b)
  then show ?thesis using assms handleUsers_ok by auto
next
  case (RUser b)
  then show ?thesis using assms handleUserDetail_ok by auto
next
  case (RDepartments b)
  then have h: "handleDepartments (Some ad) k8s now cx r b st = (st', resp)" using assms(2) by simp
  have i: "inv (ad_store st)" using assms(1) by (simp add: admin_ok_def)
  from handleDepartments_cases [OF h] show ?thesis
  proof (elim disjE exE)
    assume l: "st' = fst (on_store (as_ListDepartments ad (atoi (w_limit r)) (atoi (w_offset r))) st)"
    obtain s1 g where 1: "as_ListDepartments ad (atoi (w_limit r)) (atoi (w_offset r)) (ad_store st) = (s1, g)" by fastforce
    show ?thesis using same_ok [OF assms(1) reads(3) [OF i 1]] l 1 by (simp add: on_store_def)
  next
    fix name assume "createDepartment ad k8s (newDepartment now name) st = (st', resp)"
    then show ?thesis using createDepartment_ok [OF assms(1)] by blast
  qed (use assms(1) in simp)
next
  case (RDepartment b)
  then show ?thesis using assms handleDepartmentDetail_ok by auto
qed

text \<open>A caller who is not an administrator changes nothing, and sees at most the own account.\<close>

lemma non_admin_reads_only:
  assumes "inv (ad_store st)" "\<not> IsAdmin cx" "admin_handle ad sha k8s now cx r q st = (st', resp)"
  shows "keeps inv users departments (ad_store st) (ad_store st') \<and> ad_ns st' = ad_ns st \<and>
    (\<forall>n x. resp = WJson n x \<longrightarrow> (\<exists>u. x = WUser (public_user u) \<and> users (ad_store st) (UserIDFromContext cx) = Some u))"
proof (cases q)
  case (RUser b)
  let ?i = "TrimPrefix (w_Path r) ''/api/users/''"
  have h: "handleUserDetail (Some ad) now cx r b st = (st', resp)" using RUser assms(3) by simp
  obtain s1 g where g: "us_GetUser (as_users ad) ?i (ad_store st) = (s1, g)" by fastforce
  note G = get [OF assms(1) g] user_ops(1) [OF assms(1) g]
  consider (same) "st' = st" "\<forall>n x. resp \<noteq> WJson n x"
    | (own) "UserIDFromContext cx = ?i" "st' = st\<lparr>ad_store := s1\<rparr>" "(\<exists>u. g = Ok u \<and> resp = WJson 200 (WUser (public_user u))) \<or> (\<forall>n x. resp \<noteq> WJson n x)"
    using h assms(2) g
    by (cases g) (auto simp: handleUserDetail_def Let_def on_store_def not_found_text_def forbidden_text_def method_text_def split: if_splits)
  then show ?thesis
  proof cases
    case same
    then show ?thesis using assms(1) by (simp add: keeps_def)
  next
    case own
    then show ?thesis using G by (auto simp: keeps_def)
  qed
qed (use assms in \<open>auto simp: handleUsers_def handleDepartments_def handleDepartmentDetail_def keeps_def forbidden_text_def\<close>)

text \<open>Deleting a user suspends the account.\<close>

lemma deleted_user_suspended:
  assumes "inv (ad_store st)" "handleUserDetail (Some ad) now cx r b st = (st', WJson n x)" "w_Method r = ''DELETE''"
  shows "\<exists>u. users (ad_store st') (TrimPrefix (w_Path r) ''/api/users/'') = Some u \<and> user_Status u = ''suspended''"
proof -
  let ?i = "TrimPrefix (w_Path r) ''/api/users/''"
  obtain s1 g where g: "us_GetUser (as_users ad) ?i (ad_store st) = (s1, g)" by fastforce
  note G = get [OF assms(1) g]
  obtain u where u: "g = Ok u" using assms(2,3) g
    by (cases g) (auto simp: handleUserDetail_def Let_def on_store_def not_found_text_def forbidden_text_def split: if_splits)
  let ?u = "u\<lparr>user_Status := ''suspended'', user_UpdatedAt := now\<rparr>"
  obtain s2 e where e: "us_UpdateUser (as_users ad) ?u s1 = (s2, e)" by fastforce
  have "e = None \<and> ad_store st' = s2" using assms(2,3) g u e
    by (cases e) (auto simp: handleUserDetail_def Let_def on_store_def save_user_def writeError_def forbidden_text_def split: if_splits sql_error.splits api_error.splits)
  moreover have "user_ID ?u = ?i" using G u by auto
  ultimately show ?thesis using update [OF _ e] G by (auto simp: user_set_def)
qed

end

subsection \<open>SQLite meets the contract\<close>

definition sqlite_admin :: "(nat \<Rightarrow> faults) \<Rightarrow> (SQLiteDB \<times> nat) AdminStore" where
  "sqlite_admin fl =
     \<lparr>as_users = sqlite_users fl,
      as_GetUserByName = (\<lambda>name (db, n). ((db, n + 1), sq_GetUserByName (fl n) name db)),
      as_ListUsers = (\<lambda>dept limit offset (db, n). ((db, n + 1), sq_ListUsers (fl n) dept limit offset db)),
      as_GetDepartment = (\<lambda>i (db, n). ((db, n + 1), sq_GetDepartment (fl n) i db)),
      as_ListDepartments = (\<lambda>limit offset (db, n). ((db, n + 1), sq_ListDepartments (fl n) limit offset db)),
      as_UpdateDepartment = (\<lambda>d (db, n). case sq_UpdateDepartment (fl n) d db of (db', r) \<Rightarrow> ((db', n + 1), r)),
      as_DeleteDepartment = (\<lambda>i (db, n). case sq_DeleteDepartment (fl n) i db of (db', r) \<Rightarrow> ((db', n + 1), r))\<rparr>"

definition dept_view :: "SQLiteDB \<Rightarrow> string \<rightharpoonup> Department" where
  "dept_view db = id_view dept_ID (db_departments db)"

lemma user_id_view: "user_view db = id_view user_ID (db_users db)"
  by (simp add: user_view_def id_view_def)

lemma sq_do_depts:
  "sq_CreateUser fl u db = (db', e) \<Longrightarrow> db_departments db' = db_departments db"
  "sq_UpdateUser fl u db = (db', e) \<Longrightarrow> db_departments db' = db_departments db"
proof -
  assume c: "sq_CreateUser fl u db = (db', e)"
  show "db_departments db' = db_departments db"
    using append_Ok(2) [of fl u db db'] sq_do_err [of fl "QCreateUser u" db db' "the e"] c by (cases e) simp_all
next
  assume c: "sq_UpdateUser fl u db = (db', e)"
  show "db_departments db' = db_departments db"
  proof (cases e)
    case None
    with c have "sq_UpdateUser fl u db = (db', None)" by simp
    then show ?thesis unfolding sq_UpdateUser_def commit_or_keep_None by (auto split: if_splits)
  next
    case (Some x)
    then show ?thesis using sq_do_err [of fl "QUpdateUser u" db db' x] c by simp
  qed
qed

lemma dept_view_create:
  assumes "sq_CreateDepartment fl d db = (db', e)"
  shows "dept_view db' = (if e = None then (dept_view db)(dept_ID d \<mapsto> d) else dept_view db)"
  using append_Ok(4) [of fl d db db'] sq_do_err [of fl "QCreateDepartment d" db db' "the e"] assms
  by (cases e) (simp_all add: dept_view_def id_view_append)

lemma dept_view_update:
  assumes "sq_UpdateDepartment fl d db = (db', None)"
  obtains row where "dept_view db (dept_ID d) = Some row"
    "dept_view db' = (dept_view db)(dept_ID d \<mapsto> row\<lparr>dept_Name := dept_Name d, dept_Namespace := dept_Namespace d, dept_UpdatedAt := dept_UpdatedAt d\<rparr>)"
proof -
  let ?g = "\<lambda>b. b\<lparr>dept_Name := dept_Name d, dept_Namespace := dept_Namespace d, dept_UpdatedAt := dept_UpdatedAt d\<rparr>"
  have m: "dept_ID d \<in> dept_ID ` set (db_departments db)"
    and db': "db_departments db' = map (\<lambda>b. if dept_ID b = dept_ID d then ?g b else b) (db_departments db)"
    using assms unfolding sq_UpdateDepartment_def commit_or_keep_None by (auto split: if_splits)
  then obtain row where "id_view dept_ID (db_departments db) (dept_ID d) = Some row" using id_view_None [of dept_ID "db_departments db" "dept_ID d"] by auto
  with id_view_update [OF this, of ?g] that show ?thesis by (simp add: dept_view_def db')
qed

lemma sq_UpdateDepartment_frame:
  "sq_UpdateDepartment fl d db = (db', e) \<Longrightarrow> db_users db' = db_users db" "sq_UpdateDepartment fl d db = (db', Some x) \<Longrightarrow> db' = db"
proof -
  show e: "db' = db" if "sq_UpdateDepartment fl d db = (db', Some x)" for x
    using sq_do_err [of fl "QUpdateDepartment d" db db' x] that by simp
  assume c: "sq_UpdateDepartment fl d db = (db', e)"
  show "db_users db' = db_users db"
  proof (cases e)
    case None
    with c have "sq_UpdateDepartment fl d db = (db', None)" by simp
    then show ?thesis unfolding sq_UpdateDepartment_def commit_or_keep_None by (auto split: if_splits)
  qed (use e c in auto)
qed

lemma sq_DeleteDepartment_view:
  assumes "sq_DeleteDepartment fl i db = (db', e)"
  shows "dept_view db' = (if e = None then (dept_view db)(i := None) else dept_view db) \<and> dom (user_view db') = dom (user_view db)"
proof -
  let ?f = "\<lambda>u. if user_DepartmentID u = i then u\<lparr>user_DepartmentID := ''''\<rparr> else u"
  have "db_departments db' = (if e = None then filter (\<lambda>d. dept_ID d \<noteq> i) (db_departments db) else db_departments db) \<and>
      (db_users db' = db_users db \<or> db_users db' = map ?f (db_users db))"
    using assms
    by (cases "fl (Exec 0)"; cases "fl (Exec 1)"; cases "i \<in> dept_ID ` set (db_departments db)") (auto simp: sq_DeleteDepartment_def exec_def commit_or_keep_def)
  moreover have "id_view user_ID (map ?f (db_users db)) = map_option ?f \<circ> id_view user_ID (db_users db)" by (rule id_view_map) simp
  then have "dom (id_view user_ID (map ?f (db_users db))) = dom (id_view user_ID (db_users db))" by (auto simp: dom_def)
  ultimately show ?thesis unfolding dept_view_def user_id_view by (elim conjE disjE) (simp_all add: id_view_filter)
qed

lemma sqlite_admin_users [simp]: "as_users (sqlite_admin fl) = sqlite_users fl"
  by (simp add: sqlite_admin_def)

interpretation sqlite_admin: admin_store "sqlite_admin fl" "sq_inv \<circ> fst" "user_view \<circ> fst" "dept_view \<circ> fst" for fl
proof (unfold_locales, unfold sqlite_admin_users)
  fix s s' :: "SQLiteDB \<times> nat"
  assume i: "(sq_inv \<circ> fst) s"
  show "keeps (sq_inv \<circ> fst) (user_view \<circ> fst) (dept_view \<circ> fst) s s'" if "as_GetUserByName (sqlite_admin fl) n s = (s', ru)" for n ru
    using that i by (cases s) (auto simp: sqlite_admin_def keeps_def)
  show "keeps (sq_inv \<circ> fst) (user_view \<circ> fst) (dept_view \<circ> fst) s s'" if "as_ListUsers (sqlite_admin fl) n l k s = (s', rl)" for n l k rl
    using that i by (cases s) (auto simp: sqlite_admin_def keeps_def)
  show "keeps (sq_inv \<circ> fst) (user_view \<circ> fst) (dept_view \<circ> fst) s s'" if "as_ListDepartments (sqlite_admin fl) l k s = (s', rd)" for l k rd
    using that i by (cases s) (auto simp: sqlite_admin_def keeps_def)
  show "(dept_view \<circ> fst) s' = (dept_view \<circ> fst) s" if "us_GetUser (sqlite_users fl) u s = (s', r)" for u r
    using that by (cases s) (auto simp: sqlite_users_def)
  show "(dept_view \<circ> fst) s' = (dept_view \<circ> fst) s" if "us_CreateUser (sqlite_users fl) u s = (s', e)" for u e
    using that by (cases s) (auto simp: sqlite_users_def dept_view_def sq_do_depts(1) split: prod.splits)
  show "(dept_view \<circ> fst) s' = (dept_view \<circ> fst) s" if "us_UpdateUser (sqlite_users fl) u s = (s', e)" for u e
    using that by (cases s) (auto simp: sqlite_users_def dept_view_def sq_do_depts(2) split: prod.splits)
  show "keeps (sq_inv \<circ> fst) (user_view \<circ> fst) (dept_view \<circ> fst) s s' \<and> (\<forall>d. rg = Ok d \<longrightarrow> (dept_view \<circ> fst) s j = Some d)"
    if "as_GetDepartment (sqlite_admin fl) j s = (s', rg)" for j rg
    using that i by (cases s) (auto simp: sqlite_admin_def keeps_def sq_GetDepartment_def exec_def find_id_view dept_view_def split: option.splits)
  show "(dept_view \<circ> fst) s' = (if e = None then ((dept_view \<circ> fst) s)(dept_ID d \<mapsto> d) else (dept_view \<circ> fst) s)"
    if "us_CreateDepartment (sqlite_users fl) d s = (s', e)" for d e
    using that by (cases s) (auto simp: sqlite_users_def dest!: dept_view_create split: prod.splits)
  show "(sq_inv \<circ> fst) s' \<and> (user_view \<circ> fst) s' = (user_view \<circ> fst) s \<and>
      (if e = None then (dept_view \<circ> fst) s' = ((dept_view \<circ> fst) s)(dept_ID d \<mapsto> d) \<or>
         (\<exists>row. (dept_view \<circ> fst) s (dept_ID d) = Some row \<and>
            (dept_view \<circ> fst) s' = ((dept_view \<circ> fst) s)(dept_ID d \<mapsto> row\<lparr>dept_Name := dept_Name d, dept_Namespace := dept_Namespace d, dept_UpdatedAt := dept_UpdatedAt d\<rparr>))
       else (dept_view \<circ> fst) s' = (dept_view \<circ> fst) s)"
    if "as_UpdateDepartment (sqlite_admin fl) d s = (s', e)" for d e
  proof -
    obtain db n where s0: "s = (db, n)" by fastforce
    obtain db' x where x: "sq_UpdateDepartment (fl n) d db = (db', x)" by fastforce
    have "s' = (db', n + 1)" "x = e" using that x by (simp_all add: s0 sqlite_admin_def)
    note s = s0 this(1) x [unfolded this(2)]
    have "sq_inv db'" using sq_do_inv [of db "fl n" "QUpdateDepartment d"] i s by simp
    moreover have "user_view db' = user_view db" using sq_UpdateDepartment_frame(1) [OF s(3)] by (simp add: user_view_def)
    moreover have "if e = None then \<exists>row. dept_view db (dept_ID d) = Some row \<and>
        dept_view db' = (dept_view db)(dept_ID d \<mapsto> row\<lparr>dept_Name := dept_Name d, dept_Namespace := dept_Namespace d, dept_UpdatedAt := dept_UpdatedAt d\<rparr>)
      else dept_view db' = dept_view db"
    proof (cases e)
      case None
      with s(3) have "sq_UpdateDepartment (fl n) d db = (db', None)" by simp
      then show ?thesis using None by (auto elim: dept_view_update)
    next
      case (Some x)
      then show ?thesis using sq_UpdateDepartment_frame(2) [of "fl n" d db db' x] s(3) by simp
    qed
    ultimately show ?thesis by (auto simp: s split: if_splits)
  qed
  show "(sq_inv \<circ> fst) s' \<and> dom ((user_view \<circ> fst) s') = dom ((user_view \<circ> fst) s) \<and>
      (dept_view \<circ> fst) s' = (if e = None then ((dept_view \<circ> fst) s)(j := None) else (dept_view \<circ> fst) s)"
    if "as_DeleteDepartment (sqlite_admin fl) j s = (s', e)" for j e
  proof -
    obtain db n where s0: "s = (db, n)" by fastforce
    obtain db' x where x: "sq_DeleteDepartment (fl n) j db = (db', x)" by fastforce
    have "s' = (db', n + 1)" "x = e" using that x by (simp_all add: s0 sqlite_admin_def)
    note s = s0 this(1) x [unfolded this(2)]
    have "sq_inv db'" using sq_do_inv [of db "fl n" "QDeleteDepartment j"] i s by simp
    then show ?thesis using sq_DeleteDepartment_view [OF s(3)] by (simp add: s)
  qed
qed (erule (1) sqlite_users.get sqlite_users.byhash sqlite_users.create sqlite_users.update sqlite_users.depts)+

subsection \<open>Accounts\<close>

text \<open>C38: Whoever is not an administrator changes nothing through the administration endpoints: no account, no department, no namespace, whatever the request; and
  the only data such a caller is ever sent is the own account, without the key hash.\<close>

theorem non_admin_changes_nothing:
  assumes "sq_inv (fst (ad_store st))" "\<not> IsAdmin cx" "admin_handle (sqlite_admin fl) sha k8s now cx r q st = (st', resp)"
  shows "user_view (fst (ad_store st')) = user_view (fst (ad_store st)) \<and> dept_view (fst (ad_store st')) = dept_view (fst (ad_store st)) \<and> ad_ns st' = ad_ns st \<and>
    (\<forall>n x. resp = WJson n x \<longrightarrow> (\<exists>u. x = WUser (public_user u) \<and> user_view (fst (ad_store st)) (UserIDFromContext cx) = Some u))"
  using sqlite_admin.non_admin_reads_only [of st cx fl sha k8s now r q st' resp] assms by (auto simp: keeps_def)

definition sample_admin_state :: "User list \<Rightarrow> (SQLiteDB \<times> nat) admin" where
  "sample_admin_state us = \<lparr>ad_store = (empty_db\<lparr>db_users := us\<rparr>, 0), ad_ns = []\<rparr>"

definition sample_web :: "string \<Rightarrow> string \<Rightarrow> web_req" where
  "sample_web meth path = \<lparr>w_Method = meth, w_Path = path, w_department = '''', w_limit = '''', w_offset = ''''\<rparr>"

definition as_role :: "string \<Rightarrow> string \<Rightarrow> req_context" where
  "as_role u role = background\<lparr>cx_userID := u, cx_role := role\<rparr>"

theorem non_admin_changes_nothing_witness:
  "\<exists>st' resp. admin_handle (sqlite_admin (\<lambda>_ _. None)) (\<lambda>x. x) None 1 (as_role ''bob'' ''user'') (sample_web ''GET'' ''/api/users/bob'') (RUser None)
      (sample_admin_state [sample_user ''bob'' ''active'' ''local'']) = (st', resp) \<and> ad_ns st' = []"
proof -
  let ?st = "sample_admin_state [sample_user ''bob'' ''active'' ''local'']"
  obtain st' resp where h: "admin_handle (sqlite_admin (\<lambda>_ _. None)) (\<lambda>x. x) None 1 (as_role ''bob'' ''user'') (sample_web ''GET'' ''/api/users/bob'') (RUser None) ?st = (st', resp)"
    by fastforce
  have "sq_inv (fst (ad_store ?st))" by (simp add: sample_admin_state_def sample_users_inv)
  moreover have "\<not> IsAdmin (as_role ''bob'' ''user'')" by (simp add: as_role_def IsAdmin_def RoleFromContext_def)
  ultimately have "ad_ns st' = ad_ns ?st" using non_admin_changes_nothing [OF _ _ h] by blast
  with h show ?thesis by (simp add: sample_admin_state_def)
qed

fun admin_run :: "(nat \<Rightarrow> faults) \<Rightarrow> (string \<Rightarrow> string) \<Rightarrow> k8s option \<Rightarrow> (time \<times> req_context \<times> web_req \<times> admin_request) list \<Rightarrow> (SQLiteDB \<times> nat) admin \<Rightarrow> (SQLiteDB \<times> nat) admin" where
  "admin_run fl sha k8s [] st = st"
| "admin_run fl sha k8s ((now, cx, r, q) # qs) st = admin_run fl sha k8s qs (fst (admin_handle (sqlite_admin fl) sha k8s now cx r q st))"

lemma admin_run_ok: "admin_ok (sq_inv \<circ> fst) (dept_view \<circ> fst) st \<Longrightarrow> admin_ok (sq_inv \<circ> fst) (dept_view \<circ> fst) (admin_run fl sha k8s qs st)"
proof (induction qs arbitrary: st)
  case (Cons x qs)
  obtain now cx r q where x: "x = (now, cx, r, q)" by (metis surj_pair)
  show ?case unfolding x admin_run.simps by (rule Cons.IH, rule sqlite_admin.admin_handle_ok [OF Cons.prems surjective_pairing])
qed simp

text \<open>Whatever administrators do, and whichever calls fail, no namespace is created or deleted but one whose name starts with \<open>vibed-dept-\<close>: no request can make the
  server delete another namespace of the cluster.\<close>

theorem only_department_namespaces_touched:
  assumes "st = admin_run fl sha k8s qs \<lparr>ad_store = (empty_db, 0), ad_ns = []\<rparr>"
  shows "\<forall>n. (NsDelete n \<in> set (ad_ns st) \<or> (\<exists>l. NsCreate n l \<in> set (ad_ns st))) \<longrightarrow> HasPrefix n ''vibed-dept-''"
proof -
  have "sq_inv empty_db" using sample_users_inv [of "[]"] by (simp add: empty_db_def)
  then have "admin_ok (sq_inv \<circ> fst) (dept_view \<circ> fst) \<lparr>ad_store = (empty_db, 0), ad_ns = []\<rparr>"
    by (simp add: admin_ok_def ns_ok_def dept_view_def id_view_def empty_db_def)
  from admin_run_ok [OF this] have "list_all ns_confined (ad_ns st)" unfolding assms by (simp add: admin_ok_def)
  then show ?thesis by (auto simp: list_all_iff dept_namespace_def)
qed

theorem only_department_namespaces_touched_witness:
  "\<exists>st. st = admin_run (\<lambda>_ _. None) (\<lambda>x. x) (Some (\<lambda>_ _. None)) [(1, as_role ''root'' ''admin'', sample_web ''POST'' ''/api/departments'', RDepartments (Some ''Dev Ops''))]
      \<lparr>ad_store = (empty_db, 0), ad_ns = []\<rparr> \<and> NsCreate ''vibed-dept-dev-ops'' ''dept-1'' \<in> set (ad_ns st) \<and> HasPrefix ''vibed-dept-dev-ops'' ''vibed-dept-''"
proof -
  let ?st = "admin_run (\<lambda>_ _. None) (\<lambda>x. x) (Some (\<lambda>_ _. None)) [(1, as_role ''root'' ''admin'', sample_web ''POST'' ''/api/departments'', RDepartments (Some ''Dev Ops''))]
      \<lparr>ad_store = (empty_db, 0), ad_ns = []\<rparr>"
  have "ToLower ''Dev-Ops'' = ''dev-ops''" "hex_nat 1 = ''1''" by code_simp+
  then have "NsCreate ''vibed-dept-dev-ops'' ''dept-1'' \<in> set (ad_ns ?st)"
    by (simp add: handleDepartments_def as_role_def IsAdmin_def RoleFromContext_def sample_web_def createDepartment_def newDepartment_def departmentNamespace_def
        ns_do_def on_store_def sqlite_users_def sq_CreateDepartment_def exec_def commit_or_keep_def empty_db_def)
  with only_department_namespaces_touched [OF refl] show ?thesis by blast
qed

lemma created_user_row:
  assumes "handleUsers (Some (sqlite_admin fl)) sha rnd now cx r b st = (st', WJson 201 (WUserKey u key))"
  obtains row db n db' where "ad_store st = (db, n)" "ad_store st' = (db', n + 1)" "db' = db\<lparr>db_users := db_users db @ [row]\<rparr>"
    "user_APIKeyHash row = EncodeToString (sha key)" "u = public_user row"
proof -
  obtain db n where s: "ad_store st = (db, n)" by fastforce
  obtain body bytes where b: "b = Some body" "rnd = Ok bytes" "w_Method r = ''POST''" "ub_Name body \<noteq> ''''" "IsAdmin cx"
    using assms by (auto simp: handleUsers_def Let_def on_store_def writeError_def forbidden_text_def method_text_def
        split: if_splits option.splits sum.splits prod.splits sql_error.splits api_error.splits)
  let ?k = "''vibed_'' @ EncodeToString bytes"
  let ?row = "newUser sha now body ?k"
  obtain db' e where c: "sq_CreateUser (fl n) ?row db = (db', e)" by fastforce
  have r: "e = None \<and> ad_store st' = (db', n + 1) \<and> u = public_user ?row \<and> key = ?k"
    using assms b c s by (cases e) (auto simp: handleUsers_def Let_def on_store_def sqlite_users_def writeError_def split: sql_error.splits api_error.splits)
  show ?thesis
  proof (rule that)
    show "ad_store st = (db, n)" by (rule s)
    show "ad_store st' = (db', n + 1)" "u = public_user ?row" using r by blast+
    have "sq_CreateUser (fl n) ?row db = (db', None)" using c r by simp
    from append_Ok(2) [OF this] show "db' = db\<lparr>db_users := db_users db @ [?row]\<rparr>" by blast
    have "key = ?k" using r by blast
    then show "user_APIKeyHash ?row = EncodeToString (sha key)" by (simp only: newUser_def User.simps)
  qed
qed

text \<open>The key handed out for a new account opens that account, and no other: presented to the verifier, it is accepted as the account just created, as long as it is
  not also a configured secret and no other account happens to have the same hash.\<close>

theorem issued_key_authenticates:
  assumes "handleUsers (Some (sqlite_admin fl)) sha rnd now cx r b st = (st', WJson 201 (WUserKey u key))"
    "\<forall>k \<in> set keys. rk_secret k \<noteq> key" "\<forall>v \<in> set (db_users (fst (ad_store st))). user_APIKeyHash v \<noteq> EncodeToString (sha key)" "sha key \<noteq> ''''"
    "at_store au = ad_store st'" "fl (snd (ad_store st')) (Exec 0) = None"
  shows "snd (apiKeyVerifier sha (Some (sqlite_users fl)) keys now' key au) = Some \<lparr>ti_UserID = user_ID u, ti_Scopes = [], ti_Expiration = now' + hours 24\<rparr>"
proof -
  obtain row db n db' where R: "ad_store st = (db, n)" "ad_store st' = (db', n + 1)" "db' = db\<lparr>db_users := db_users db @ [row]\<rparr>"
    "user_APIKeyHash row = EncodeToString (sha key)" "u = public_user row" using assms(1) by (rule created_user_row)
  have "find (\<lambda>k. rk_secret k = key) keys = None" using assms(2) by (simp add: find_None_iff)
  moreover have "EncodeToString (sha key) \<noteq> ''''" using assms(4) by (cases "sha key") (auto simp: EncodeToString_def hex_byte_def Let_def)
  moreover have "filter (\<lambda>v. user_APIKeyHash v = EncodeToString (sha key) \<and> user_APIKeyHash v \<noteq> '''') (db_users db) = []"
    using assms(3) R(1) by (auto simp: filter_empty_conv)
  ultimately show ?thesis
    using R assms(5,6) by (simp add: apiKeyVerifier_def sqlite_users_def sq_GetUserByAPIKeyHash_def exec_def public_user_def)
qed

theorem issued_key_authenticates_witness:
  "\<exists>st' u key. handleUsers (Some (sqlite_admin (\<lambda>_ _. None))) (\<lambda>x. x) (Ok ''k'') 1 (as_role ''root'' ''admin'') (sample_web ''POST'' ''/api/users'')
      (Some \<lparr>ub_Name = ''eve'', ub_Email = '''', ub_Role = '''', ub_DepartmentID = ''''\<rparr>) (sample_admin_state []) = (st', WJson 201 (WUserKey u key)) \<and>
    snd (apiKeyVerifier (\<lambda>x. x) (Some (sqlite_users (\<lambda>_ _. None))) [] 2 key \<lparr>at_store = ad_store st', at_identities = newTTLCache 0 0, at_fingerprints = newTTLCache 0 0, at_provisioned = {}\<rparr>) =
      Some \<lparr>ti_UserID = user_ID u, ti_Scopes = [], ti_Expiration = 2 + hours 24\<rparr>"
proof -
  let ?h = "handleUsers (Some (sqlite_admin (\<lambda>_ _. None))) (\<lambda>x. x) (Ok ''k'') 1 (as_role ''root'' ''admin'') (sample_web ''POST'' ''/api/users'')
      (Some \<lparr>ub_Name = ''eve'', ub_Email = '''', ub_Role = '''', ub_DepartmentID = ''''\<rparr>) (sample_admin_state [])"
  have "\<exists>st' u. ?h = (st', WJson 201 (WUserKey u (''vibed_'' @ EncodeToString ''k'')))"
    by (simp add: handleUsers_def as_role_def IsAdmin_def RoleFromContext_def sample_web_def sample_admin_state_def on_store_def sqlite_users_def sq_CreateUser_def
        exec_def commit_or_keep_def Let_def)
  then obtain st' u where h: "?h = (st', WJson 201 (WUserKey u (''vibed_'' @ EncodeToString ''k'')))" by blast
  from issued_key_authenticates [OF h, of "[]" "\<lparr>at_store = ad_store st', at_identities = newTTLCache 0 0, at_fingerprints = newTTLCache 0 0, at_provisioned = {}\<rparr>" 2] h
  show ?thesis by (simp add: sample_admin_state_def)
qed

text \<open>A deleted user is suspended, and from then on refused within the cache lifetime: this is the state from which the suspension bound starts.\<close>

theorem deleted_user_is_suspended:
  assumes "sq_inv (fst (ad_store st))" "handleUserDetail (Some (sqlite_admin fl)) now cx r b st = (st', WJson n x)" "w_Method r = ''DELETE''"
  shows "suspended_in (TrimPrefix (w_Path r) ''/api/users/'') (fst (ad_store st'))"
  using sqlite_admin.deleted_user_suspended [OF _ assms(2,3)] assms(1) by (simp add: suspended_in_def)

theorem deleted_user_is_suspended_witness:
  "\<exists>st' n x. handleUserDetail (Some (sqlite_admin (\<lambda>_ _. None))) 5 (as_role ''root'' ''admin'') (sample_web ''DELETE'' ''/api/users/bob'') None
      (sample_admin_state [sample_user ''bob'' ''active'' ''local'']) = (st', WJson n x) \<and> suspended_in ''bob'' (fst (ad_store st'))"
proof -
  let ?st = "sample_admin_state [sample_user ''bob'' ''active'' ''local'']"
  have p: "TrimPrefix (w_Path (sample_web ''DELETE'' ''/api/users/bob'')) ''/api/users/'' = ''bob''" by (simp add: sample_web_def TrimPrefix_def HasPrefix_def)
  have "\<exists>st' n x. handleUserDetail (Some (sqlite_admin (\<lambda>_ _. None))) 5 (as_role ''root'' ''admin'') (sample_web ''DELETE'' ''/api/users/bob'') None ?st = (st', WJson n x)"
    by (simp add: handleUserDetail_def Let_def sample_web_def TrimPrefix_def HasPrefix_def as_role_def IsAdmin_def RoleFromContext_def sample_admin_state_def on_store_def
        sqlite_users_def sq_GetUser_view user_view_def sample_user_def save_user_def sq_UpdateUser_def exec_def commit_or_keep_def)
  then obtain st' n x where h: "handleUserDetail (Some (sqlite_admin (\<lambda>_ _. None))) 5 (as_role ''root'' ''admin'') (sample_web ''DELETE'' ''/api/users/bob'') None ?st = (st', WJson n x)" by blast
  have "sq_inv (fst (ad_store ?st))" by (simp add: sample_admin_state_def sample_users_inv)
  from deleted_user_is_suspended [OF this h] h p show ?thesis by (simp add: sample_web_def)
qed

subsection \<open>The event stream\<close>

text \<open>An authenticated user who is not an administrator is streamed exactly the events of the own apps and those without an owner, in the order they arrive.\<close>

theorem event_stream_is_scoped:
  assumes "UserIDFromContext cx \<noteq> ''''" "\<not> IsAdmin cx"
  shows "sse_stream typeText payload cx evs =
    map (sse_chunk typeText payload) (filter (\<lambda>ev. ev_OwnerID ev \<in> {'''', UserIDFromContext cx}) evs)"
proof -
  have "sse_sends cx = (\<lambda>ev. ev_OwnerID ev \<in> {'''', UserIDFromContext cx})" using assms by (auto simp: sse_sends_def fun_eq_iff)
  then show ?thesis by (simp add: sse_stream_def)
qed

theorem event_stream_is_scoped_witness:
  "sse_stream (\<lambda>_. ''t'') (\<lambda>_. ''p'') (as_role ''bob'' ''user'') [] = []"
  using event_stream_is_scoped [of "as_role ''bob'' ''user''" "\<lambda>_. ''t''" "\<lambda>_. ''p''" "[]"]
  by (simp add: as_role_def UserIDFromContext_def IsAdmin_def RoleFromContext_def)

text \<open>A caller with a configured key that has no name is authenticated without a user, which the event stream takes for disabled authentication: such a caller is sent
  the events of everybody.\<close>

theorem nameless_key_sees_every_event:
  assumes "find (\<lambda>k. rk_secret k = token) keys = Some key" "ak_Name (rk_conf key) = ''''"
    "apiKeyVerifier sha us keys now token st = (st', Some info)"
  shows "sse_stream typeText payload (background\<lparr>cx_token := Some info\<rparr>) evs = map (sse_chunk typeText payload) evs"
proof -
  have "ti_UserID info = ''''" using assms by (auto simp: apiKeyVerifier_def apiKeyUserID_def)
  then have "UserIDFromContext (background\<lparr>cx_token := Some info\<rparr>) = ''''" by (simp add: UserIDFromContext_def background_def)
  then show ?thesis by (simp add: sse_stream_def sse_sends_def)
qed

theorem nameless_key_sees_every_event_witness:
  "\<exists>info. sse_stream (\<lambda>_. ''t'') (\<lambda>_. ''p'') (background\<lparr>cx_token := Some info\<rparr>) [] = []"
proof -
  let ?key = "\<lparr>rk_conf = \<lparr>ak_Key = ''s'', ak_Name = '''', ak_Scopes = [], ak_Role = '''', ak_Department = ''''\<rparr>, rk_secret = ''s''\<rparr>"
  have "\<exists>st' info. apiKeyVerifier (\<lambda>x. x) None [?key] 0 ''s'' (undefined :: unit auth) = (st', Some info)" by (simp add: apiKeyVerifier_def)
  then obtain st' info where v: "apiKeyVerifier (\<lambda>x. x) None [?key] 0 ''s'' (undefined :: unit auth) = (st', Some info)" by blast
  have "sse_stream (\<lambda>_. ''t'') (\<lambda>_. ''p'') (background\<lparr>cx_token := Some info\<rparr>) [] = map (sse_chunk (\<lambda>_. ''t'') (\<lambda>_. ''p'')) []"
    by (rule nameless_key_sees_every_event [OF _ _ v, where key = ?key]) simp_all
  then show ?thesis by auto
qed

text \<open>The cap on event streams is tested and counted in two steps, so it does not hold: any number of connections can be open at once.\<close>

theorem sse_cap_can_be_exceeded:
  "\<exists>s. sse_step\<^sup>*\<^sup>* \<lparr>sc_active = 0, sc_checked = 0, sc_refused = 0\<rparr> s \<and> sc_active s = int n"
proof -
  have check: "sse_step\<^sup>*\<^sup>* \<lparr>sc_active = 0, sc_checked = 0, sc_refused = 0\<rparr> \<lparr>sc_active = 0, sc_checked = k, sc_refused = 0\<rparr>" for k
  proof (induction k)
    case (Suc k)
    have "sse_step \<lparr>sc_active = 0, sc_checked = k, sc_refused = 0\<rparr> \<lparr>sc_active = 0, sc_checked = Suc k, sc_refused = 0\<rparr>"
      using sse_step.check [of "\<lparr>sc_active = 0, sc_checked = k, sc_refused = 0\<rparr>"] by (simp add: maxSSEConnections_def)
    with Suc show ?case by (rule rtranclp.rtrancl_into_rtrancl)
  qed simp
  have add: "sse_step\<^sup>*\<^sup>* \<lparr>sc_active = a, sc_checked = k, sc_refused = 0\<rparr> \<lparr>sc_active = a + int k, sc_checked = 0, sc_refused = 0\<rparr>" for a k
  proof (induction k arbitrary: a)
    case (Suc k)
    have "sse_step \<lparr>sc_active = a, sc_checked = Suc k, sc_refused = 0\<rparr> \<lparr>sc_active = a + 1, sc_checked = k, sc_refused = 0\<rparr>"
      using sse_step.add [of "\<lparr>sc_active = a, sc_checked = Suc k, sc_refused = 0\<rparr>"] by simp
    from converse_rtranclp_into_rtranclp [OF this Suc.IH [of "a + 1"]] show ?case by (simp add: add.assoc)
  qed simp
  from rtranclp_trans [OF check [of n] add [of 0 n]] show ?thesis by (intro exI [of _ "\<lparr>sc_active = int n, sc_checked = 0, sc_refused = 0\<rparr>"]) simp
qed

end
