(* ===== verification/Server.thy ===== *)
theory Server
  imports Http_Facts Frontend_Facts Rate_Limit Store
begin

section \<open>The server\<close>

text \<open>
  \<open>src/pkg/server/server.go\<close>: the middleware chain in front of the handlers (rate limiter, authentication, role), the refusal to start without
  authentication on a network address, the seeding of accounts for API keys, and the audit endpoint.
\<close>

subsection \<open>Starting\<close>

definition isLoopbackBind :: "(string \<Rightarrow> Addr option) \<Rightarrow> string \<Rightarrow> bool" where
  "isLoopbackBind parseIP addr =
     (let host = (case SplitHostPort addr of Some h \<Rightarrow> h | None \<Rightarrow> addr) in
      if host = '''' then False
      else if host = ''localhost'' then True
      else case parseIP host of Some ip \<Rightarrow> IsLoopback ip | None \<Rightarrow> False)"

text \<open>Whether the server refuses to start.\<close>

definition checkNoAuthBindSafety :: "(string \<Rightarrow> Addr option) \<Rightarrow> AuthConfig \<Rightarrow> bool \<Rightarrow> string \<Rightarrow> bool" where
  "checkNoAuthBindSafety parseIP cfg devInsecure httpAddr =
     (if ac_Enabled cfg \<or> devInsecure then False else if isLoopbackBind parseIP httpAddr then False else True)"

definition bootstrapUser :: "APIKeyConf \<Rightarrow> time \<Rightarrow> User" where
  "bootstrapUser key now =
     \<lparr>user_ID = ''apikey-'' @ ak_Name key, user_Name = ak_Name key, user_Email = '''', user_Role = role_or_user (ak_Role key), user_Status = ''active'',
      user_Provider = ''local'', user_DepartmentID = '''', user_APIKeyHash = '''', user_CreatedAt = now, user_UpdatedAt = now\<rparr>"

fun bootstrapAPIKeyUsers :: "'s AdminStore \<Rightarrow> time \<Rightarrow> APIKeyConf list \<Rightarrow> 's \<Rightarrow> 's" where
  "bootstrapAPIKeyUsers us now [] s = s"
| "bootstrapAPIKeyUsers us now (key # keys) s =
     (if ak_Name key = '''' then bootstrapAPIKeyUsers us now keys s
      else case as_GetUserByName us (ak_Name key) s of
        (s1, Ok _) \<Rightarrow> bootstrapAPIKeyUsers us now keys s1
      | (s1, Err _) \<Rightarrow> bootstrapAPIKeyUsers us now keys (fst (us_CreateUser (as_users us) (bootstrapUser key now) s1)))"

subsection \<open>The chain\<close>

text \<open>The limiter wraps the handlers that authenticate, so it sees the request before its context has a user.\<close>

definition rate_request :: "string \<Rightarrow> http_req \<Rightarrow> req_context \<Rightarrow> http_request" where
  "rate_request meth req cx = \<lparr>hr_Path = q_Path req, hr_Method = meth, hr_UserID = UserIDFromContext cx, hr_RemoteAddr = q_RemoteAddr req\<rparr>"

datatype chain_outcome = Limited rl_answer | Passed auth_outcome

record ('l, 's) chain_env =
  ch_rateLimit :: bool
  ch_ops :: "'l limiter_ops"
  ch_iter :: "'l pool \<Rightarrow> 'l pool"
  ch_limits :: RateLimitConfig
  ch_auth :: auth_env
  ch_cfg :: AuthConfig
  ch_public :: "string list"
  ch_provider :: provider
  ch_users :: "'s UserStore option"

definition chain :: "('l, 's) chain_env \<Rightarrow> time \<Rightarrow> string \<Rightarrow> http_req \<Rightarrow> 'l pools \<times> 's auth \<Rightarrow> ('l pools \<times> 's auth) \<times> chain_outcome" where
  "chain ch now meth req ps =
     (let authed = (\<lambda>pools. case serve (ch_auth ch) (ch_cfg ch) (ch_public ch) (ch_provider ch) (ch_users ch) now req (snd ps) of
            (st', x) \<Rightarrow> ((pools, st'), Passed x))
      in if ch_rateLimit ch then
           (case RateLimiter (ch_ops ch) (ch_iter ch) (ch_limits ch) now (rate_request meth req background) (fst ps) of
              (pools', Served) \<Rightarrow> authed pools'
            | (pools', x) \<Rightarrow> ((pools', snd ps), Limited x))
         else authed (fst ps))"

text \<open>A request to the API behind the chain.\<close>

definition api_serve ::
  "('l, 's) chain_env \<Rightarrow> api_env \<Rightarrow> env option \<Rightarrow> time \<Rightarrow> string \<Rightarrow> http_req \<Rightarrow> api_request \<Rightarrow> 'l pools \<times> 's auth \<Rightarrow> trace \<Rightarrow> ('l pools \<times> 's auth) \<times> response option \<times> trace" where
  "api_serve ch ap svc now meth req r ps tr =
     (case chain ch now meth req ps of
        (ps', Passed (Handled cx)) \<Rightarrow> (case handle ap svc cx r tr of (resp, tr') \<Rightarrow> (ps', Some resp, tr'))
      | (ps', _) \<Rightarrow> (ps', None, tr))"

subsection \<open>The audit endpoint\<close>

datatype audit_response = AForbidden | AFailed | AEvents "AuditEvent list"

definition auditHandler :: "(AuditQuery \<Rightarrow> (string, AuditEvent list) result) \<Rightarrow> req_context \<Rightarrow> string \<Rightarrow> string \<Rightarrow> string \<Rightarrow> string \<Rightarrow> audit_response" where
  "auditHandler recList cx actor action app limit =
     (if \<not> IsAdmin cx then AForbidden
      else let n = (if limit \<noteq> '''' \<and> atoi_ok limit \<and> atoi limit > 0 then atoi limit else 0) in
        case recList \<lparr>aq_Actor = actor, aq_Action = action, aq_Target = app, aq_Limit = n\<rparr> of
          Err _ \<Rightarrow> AFailed | Ok events \<Rightarrow> AEvents events)"

definition routePath :: "string \<Rightarrow> string" where
  "routePath pattern = (case LastIndexByte pattern (CHR '' '') of Some i \<Rightarrow> drop (i + 1) pattern | None \<Rightarrow> pattern)"

subsection \<open>Who the API acts for\<close>

lemma v1_path: "HasPrefix p ''/v1/'' \<Longrightarrow> protected_path p \<and> \<not> always_public p"
  by (cases p; cases "tl p"; cases "tl (tl p)"; cases "tl (tl (tl p))") (auto simp: HasPrefix_def protected_path_def always_public_def)

text \<open>C2: From the socket to the deploy service: with API keys configured, a request to \<open>/v1\<close> that makes the service call anything carries a configured secret or a key stored
  with an account, and the service acts for that key's account, which has a name and is not known to be suspended.\<close>

theorem api_acts_for_authenticated_caller:
  assumes "ac_Enabled (ch_cfg ch)" "ch_provider ch = PApiKey keys" "ch_users ch = Some (sqlite_users fl)" "sq_inv (fst (at_store (snd ps)))"
    "HasPrefix (q_Path req) ''/v1/''" "\<not> isRegisteredPublic (ch_public ch) (q_Path req)"
    "api_serve ch ap svc now meth req r ps tr = (ps', resp, tr')" "tr' \<noteq> tr"
  shows "\<exists>cx token. handle ap svc cx r tr = (the resp, tr') \<and> UserIDFromContext cx \<noteq> '''' \<and> ax_bearer (ch_auth ch) (q_Authorization req) = Some token \<and>
     ((\<exists>key \<in> set keys. rk_secret key = token \<and> UserIDFromContext cx = apiKeyUserID (ak_Name (rk_conf key))) \<or>
      (\<exists>u. user_view (fst (at_store (snd ps))) (user_ID u) = Some u \<and> user_APIKeyHash u = EncodeToString (ax_sha256 (ch_auth ch) token) \<and> UserIDFromContext cx = user_ID u)) \<and>
     (\<forall>i. cx_identity cx = Some i \<longrightarrow> id_Status i \<noteq> ''suspended'')"
proof -
  obtain cx where c: "chain ch now meth req ps = (ps', Passed (Handled cx))" "handle ap svc cx r tr = (the resp, tr')"
    using assms(7,8) by (auto simp: api_serve_def split: prod.splits chain_outcome.splits auth_outcome.splits)
  then obtain st' where s: "serve (ch_auth ch) (ch_cfg ch) (ch_public ch) (PApiKey keys) (Some (sqlite_users fl)) now req (snd ps) = (st', Handled cx)"
    using assms(2,3) by (auto simp: chain_def Let_def split: if_splits prod.splits rl_answer.splits)
  have user: "UserIDFromContext cx \<noteq> ''''"
    using c(2) assms(8) by (cases r; cases svc) (auto simp: handler_defs guarded_def)
  from serve_apikey_handled [OF assms(1) _ _ assms(6,4) s] v1_path [OF assms(5)] user c(2) show ?thesis by blast
qed

subsection \<open>Rate limiting and users\<close>

text \<open>The rate limiter runs before authentication, so it never knows the user: two requests from one address to one path draw from the same budget, whoever sends them and
  whatever token they carry.\<close>

theorem rate_limit_ignores_the_user:
  assumes "q_Path req' = q_Path req" "q_RemoteAddr req' = q_RemoteAddr req" "ch_rateLimit ch"
  shows "fst (fst (chain ch now meth req' (pools, au'))) = fst (fst (chain ch now meth req (pools, au))) \<and>
    (\<forall>x. snd (chain ch now meth req' (pools, au')) = Limited x \<longleftrightarrow> snd (chain ch now meth req (pools, au)) = Limited x)"
proof -
  have r: "rate_request meth req' background = rate_request meth req background" using assms by (simp add: rate_request_def)
  obtain pools' x where x: "RateLimiter (ch_ops ch) (ch_iter ch) (ch_limits ch) now (rate_request meth req background) pools = (pools', x)" by fastforce
  show ?thesis using assms(3) x r by (cases x) (auto simp: chain_def Let_def split: prod.splits)
qed

definition sample_chain :: "(int, SQLiteDB \<times> nat) chain_env" where
  "sample_chain = \<lparr>ch_rateLimit = True, ch_ops = counting, ch_iter = (\<lambda>p. p), ch_limits = tight, ch_auth = Auth_Facts.sample_env, ch_cfg = sample_auth, ch_public = [],
     ch_provider = PApiKey [sample_key], ch_users = Some (sqlite_users (\<lambda>_ _. None))\<rparr>"

theorem rate_limit_ignores_the_user_witness:
  "fst (fst (chain sample_chain 1 ''GET'' (Auth_Facts.sample_req\<lparr>q_Authorization := ''other''\<rparr>) (\<lambda>_. [], sample_state [] (newTTLCache 0 0)))) =
   fst (fst (chain sample_chain 1 ''GET'' Auth_Facts.sample_req (\<lambda>_. [], sample_state [] (newTTLCache 0 0))))"
  using rate_limit_ignores_the_user [of "Auth_Facts.sample_req\<lparr>q_Authorization := ''other''\<rparr>" Auth_Facts.sample_req sample_chain 1 "''GET''" "\<lambda>_. []"
      "sample_state [] (newTTLCache 0 0)" "sample_state [] (newTTLCache 0 0)"]
  by (simp add: sample_chain_def)

lemma sample_v1: "HasPrefix (q_Path Auth_Facts.sample_req) ''/v1/''"
  by (simp add: Auth_Facts.sample_req_def HasPrefix_def)

lemma sample_limiter: "\<exists>pools. RateLimiter counting (\<lambda>p. p) tight 1 (rate_request ''GET'' Auth_Facts.sample_req background) (\<lambda>_. []) = (pools, Served)"
  by (simp add: RateLimiter_def limitedPath_def rate_request_def Auth_Facts.sample_req_def HasPrefix_def shareToken_def requestClass_def isWriteVerb_def clientKey_def
      UserIDFromContext_def background_def draw_def getLimiter_def maxRateLimitClients_def limits_def tight_def counting_def SplitHostPort_def LastIndexByte_def)

lemma served_identity:
  assumes "serve Auth_Facts.sample_env sample_auth [] (PApiKey [sample_key]) (Some (sqlite_users (\<lambda>_ _. None))) 1 Auth_Facts.sample_req st = (st', Handled cx)"
    "sq_inv (fst (at_store st))" "user_view (fst (at_store st)) = [''apikey-alice'' \<mapsto> sample_user ''apikey-alice'' ''active'' ''local'']"
  shows "UserIDFromContext cx = ''apikey-alice''"
  using serve_apikey_handled [OF _ sample_paths assms(2,1)] assms(3)
  by (auto simp: sample_auth_def sample_key_def apiKeyUserID_def split: if_splits)

theorem api_acts_for_authenticated_caller_witness:
  "\<exists>cx token tr'. tr' \<noteq> [] \<and> snd (snd (api_serve sample_chain sample_api (Some (Deploy_Examples.sample_env None None None)) 1 ''GET'' Auth_Facts.sample_req (AGet ''a'')
      (\<lambda>_. [], sample_state [sample_user ''apikey-alice'' ''active'' ''local''] (newTTLCache 0 0)) [])) = tr' \<and>
    UserIDFromContext cx \<noteq> '''' \<and> ax_bearer Auth_Facts.sample_env (q_Authorization Auth_Facts.sample_req) = Some token"
proof -
  let ?st = "sample_state [sample_user ''apikey-alice'' ''active'' ''local''] (newTTLCache 0 0)"
  let ?svc = "Some (Deploy_Examples.sample_env None None None)"
  obtain st' cx where s: "serve Auth_Facts.sample_env sample_auth [] (PApiKey [sample_key]) (Some (sqlite_users (\<lambda>_ _. None))) 1 Auth_Facts.sample_req ?st = (st', Handled cx)"
    using sample_served by blast
  have inv: "sq_inv (fst (at_store ?st))" by (simp add: sample_state_def sample_users_inv)
  have u: "UserIDFromContext cx = ''apikey-alice''"
    using s inv by (rule served_identity) (simp add: sample_state_def user_view_def sample_user_def)
  obtain pools where p: "RateLimiter counting (\<lambda>p. p) tight 1 (rate_request ''GET'' Auth_Facts.sample_req background) (\<lambda>_. []) = (pools, Served)" using sample_limiter by blast
  have c: "chain sample_chain 1 ''GET'' Auth_Facts.sample_req (\<lambda>_. [], ?st) = ((pools, st'), Passed (Handled cx))"
    using s p by (simp add: chain_def sample_chain_def)
  have g: "snd (handle sample_api ?svc cx (AGet ''a'') []) \<noteq> []"
    by (simp add: GetApp_def guarded_def u answer_def Get_run defaults_def resolveTenant_def tenantOf_def zero_tenant_def Let_def)
  obtain resp tr' where h: "handle sample_api ?svc cx (AGet ''a'') [] = (resp, tr')" by fastforce
  have a: "api_serve sample_chain sample_api ?svc 1 ''GET'' Auth_Facts.sample_req (AGet ''a'') (\<lambda>_. [], ?st) [] = ((pools, st'), Some resp, tr')"
    using c h by (simp add: api_serve_def)
  have ne: "tr' \<noteq> []" using g h by simp
  have "\<exists>cx token. UserIDFromContext cx \<noteq> '''' \<and> ax_bearer Auth_Facts.sample_env (q_Authorization Auth_Facts.sample_req) = Some token"
    using api_acts_for_authenticated_caller [OF _ _ _ _ sample_v1 _ a ne, of "[sample_key]" "\<lambda>_ _. None"] inv
    by (auto simp: sample_chain_def sample_auth_def isRegisteredPublic_def)
  with a ne show ?thesis by auto
qed

subsection \<open>Starting without authentication\<close>

text \<open>A request without a token is served as an administrator on a protected path only by a server that was started without authentication, and such a server starts
  only on a loopback address or with the explicit \<open>devInsecure\<close> switch.\<close>

theorem anonymous_admin_only_on_loopback:
  assumes "\<not> checkNoAuthBindSafety parseIP cfg devInsecure httpAddr" "serve ax cfg pub p us now req st = (st', Handled cx)" "IsAdmin cx"
    "ax_bearer ax (q_Authorization req) = None" "protected_path (q_Path req)" "\<not> always_public (q_Path req)" "\<not> isRegisteredPublic pub (q_Path req)"
  shows "\<not> ac_Enabled cfg \<and> (devInsecure \<or> isLoopbackBind parseIP httpAddr)"
proof -
  have "\<not> ac_Enabled cfg" using assms(2,4-7) by (auto simp: serve_def Let_def SkipAuthPaths_def authMiddleware_def tokenMiddleware_def)
  then show ?thesis using assms(1) by (auto simp: checkNoAuthBindSafety_def split: if_splits)
qed

theorem anonymous_admin_only_on_loopback_witness:
  "\<exists>st' cx. serve (Auth_Facts.sample_env\<lparr>ax_bearer := (\<lambda>_. None)\<rparr>) (sample_auth\<lparr>ac_Enabled := False\<rparr>) [] (PApiKey []) (None :: unit UserStore option) 1 Auth_Facts.sample_req undefined = (st', Handled cx) \<and>
    isLoopbackBind (\<lambda>_. None) ''localhost''"
proof -
  let ?ax = "Auth_Facts.sample_env\<lparr>ax_bearer := (\<lambda>_. None)\<rparr>" and ?cfg = "sample_auth\<lparr>ac_Enabled := False\<rparr>"
  have l: "isLoopbackBind (\<lambda>_. None) ''localhost''" by (simp add: isLoopbackBind_def SplitHostPort_def LastIndexByte_def)
  have s: "serve ?ax ?cfg [] (PApiKey []) (None :: unit UserStore option) 1 Auth_Facts.sample_req undefined = (undefined, Handled (NoAuthAdmin background))"
    by (simp add: serve_def sample_auth_def)
  have "\<not> checkNoAuthBindSafety (\<lambda>_. None) ?cfg False ''localhost''" using l by (simp add: checkNoAuthBindSafety_def)
  moreover have "IsAdmin (NoAuthAdmin background)" by (simp add: IsAdmin_def RoleFromContext_def NoAuthAdmin_def)
  ultimately show ?thesis using anonymous_admin_only_on_loopback [OF _ s _ _ sample_paths, of "\<lambda>_. None" False "''localhost''"] s by (auto simp: Auth_Facts.sample_env_def)
qed

subsection \<open>Seeding accounts\<close>

abbreviation faultless :: "nat \<Rightarrow> faults" where
  "faultless \<equiv> \<lambda>_ _. None"

text \<open>A key whose account is not seeded (again): nameless, or its name or identifier is taken.\<close>

definition settled :: "SQLiteDB \<Rightarrow> APIKeyConf \<Rightarrow> bool" where
  "settled db key \<longleftrightarrow> ak_Name key = '''' \<or> (\<exists>u \<in> set (db_users db). ToLower (user_Name u) = ToLower (ak_Name key)) \<or> ''apikey-'' @ ak_Name key \<in> user_ID ` set (db_users db)"

definition boot1 :: "time \<Rightarrow> APIKeyConf \<Rightarrow> SQLiteDB \<Rightarrow> SQLiteDB" where
  "boot1 now key db = (if settled db key then db else db\<lparr>db_users := db_users db @ [bootstrapUser key now]\<rparr>)"

lemma bootstrap_fold: "fst (bootstrapAPIKeyUsers (sqlite_admin faultless) now keys (db, n)) = fold (boot1 now) keys db"
proof (induction keys arbitrary: db n)
  case (Cons key keys)
  show ?case
  proof (cases "ak_Name key = ''''")
    case True
    then show ?thesis using Cons.IH by (simp add: boot1_def settled_def)
  next
    case False
    show ?thesis
    proof (cases "find (\<lambda>u. ToLower (user_Name u) = ToLower (ak_Name key)) (db_users db)")
      case (Some u)
      then have "\<exists>u \<in> set (db_users db). ToLower (user_Name u) = ToLower (ak_Name key)" by (auto simp: find_Some_iff)
      then have "boot1 now key db = db" unfolding boot1_def settled_def by simp
      then show ?thesis using False Some Cons.IH by (simp add: sqlite_admin_def sq_GetUserByName_def exec_def)
    next
      case None
      then have n: "\<forall>u \<in> set (db_users db). ToLower (user_Name u) \<noteq> ToLower (ak_Name key)" by (simp add: find_None_iff)
      then have "ak_Name key \<notin> user_Name ` set (db_users db)" by auto
      then have "sq_CreateUser (\<lambda>_. None) (bootstrapUser key now) db =
          (boot1 now key db, if ''apikey-'' @ ak_Name key \<in> user_ID ` set (db_users db) then Some (EUserExists (ak_Name key)) else None)"
        using n False by (simp add: sq_CreateUser_def exec_def commit_or_keep_def boot1_def settled_def bootstrapUser_def)
      then show ?thesis using False None Cons.IH by (simp add: sqlite_admin_def sqlite_users_def sq_GetUserByName_def exec_def)
    qed
  qed
qed simp

lemma settled_boot1: "settled db key \<Longrightarrow> settled (boot1 now k db) key" "settled (boot1 now key db) key"
  by (auto simp: settled_def boot1_def bootstrapUser_def)

lemma settled_fold: "key \<in> set keys \<or> settled db key \<Longrightarrow> settled (fold (boot1 now) keys db) key"
  by (induction keys arbitrary: db) (auto simp: settled_boot1)

text \<open>Seeding the accounts of the configured keys is idempotent: a restart with the same keys, at whatever time, leaves the database as the first start left it.\<close>

theorem bootstrap_is_idempotent:
  "fst (bootstrapAPIKeyUsers (sqlite_admin faultless) later keys (fst (bootstrapAPIKeyUsers (sqlite_admin faultless) now keys (db, n)), m)) =
   fst (bootstrapAPIKeyUsers (sqlite_admin faultless) now keys (db, n))"
proof -
  have "fold (boot1 later) ks d = d" if "\<forall>k \<in> set ks. settled d k" for ks d
    using that by (induction ks) (auto simp: boot1_def)
  then show ?thesis unfolding bootstrap_fold by (simp add: settled_fold)
qed

end
