(* ===== verification/Mcp.thy ===== *)
theory Mcp
  imports Http_Facts Frontend_Facts "HOL-Library.List_Lexorder" "HOL-Library.Char_ord"
begin

section \<open>The MCP tools\<close>

text \<open>
  \<open>src/internal/mcp\<close>: the tools that agents call.  They drive the same deploy service and user store as the HTTP handlers; the protocol library decodes the input and
  encodes what a tool returns.  A Go map is the list of its entries in the order in which \<open>range\<close> visits them, which is a different order at every call.  \<open>pack\<close> is
  the tar and gzip writer on a list of named contents.
\<close>

subsection \<open>Limits\<close>

text \<open>The limits on log streams are in \<open>Http_Api\<close>.\<close>

record LimitsConfig =
  lc_MaxTotalFileSize :: int
  lc_MaxFileCount :: int
  lc_MaxLogLines :: int

definition sizeError :: "int \<Rightarrow> string" where
  "sizeError mx = ''total file size exceeds maximum of '' @ Itoa mx @ '' bytes ('' @ Itoa (mx div (1024 * 1024)) @ '' MB)''"

fun sizeLoop :: "int \<Rightarrow> int \<Rightarrow> (string \<times> string) list \<Rightarrow> string option" where
  "sizeLoop mx tot [] = None"
| "sizeLoop mx tot ((name, content) # files) =
     (let tot' = tot + int (length content) in
      if tot' > mx then Some (sizeError mx) else sizeLoop mx tot' files)"

definition validateFileLimits :: "LimitsConfig \<Rightarrow> (string \<times> string) list \<Rightarrow> string option" where
  "validateFileLimits limits files =
     (if lc_MaxFileCount limits > 0 \<and> int (length files) > lc_MaxFileCount limits
      then Some (''too many files: '' @ Itoa (int (length files)) @ '' exceeds maximum of '' @ Itoa (lc_MaxFileCount limits))
      else if lc_MaxTotalFileSize limits > 0 then sizeLoop (lc_MaxTotalFileSize limits) 0 files else None)"

definition clampLogLines :: "LimitsConfig \<Rightarrow> int \<Rightarrow> int" where
  "clampLogLines limits requested =
     (if requested \<le> 0 then 50 else if lc_MaxLogLines limits > 0 \<and> requested > lc_MaxLogLines limits then lc_MaxLogLines limits else requested)"

definition clampLimit :: "int \<Rightarrow> int" where
  "clampLimit limit = (if limit \<le> 0 then 50 else if limit > 200 then 200 else limit)"

subsection \<open>Errors and helpers\<close>

datatype mcp_error = TNotConfigured | TLimits string | TPack string | TService derr | TLogs log_error | TStore sql_error | TText string

type_synonym 'a tool = "(mcp_error, 'a) result \<times> trace"

definition localOwner :: string where
  "localOwner = ''local''"

definition ownerFromContext :: "req_context \<Rightarrow> string" where
  "ownerFromContext cx = (if UserIDFromContext cx \<noteq> '''' then UserIDFromContext cx else localOwner)"

definition with_service :: "env option \<Rightarrow> req_context \<Rightarrow> (env \<Rightarrow> string \<Rightarrow> trace \<Rightarrow> 'a tool) \<Rightarrow> trace \<Rightarrow> 'a tool" where
  "with_service svc cx f tr = (case svc of None \<Rightarrow> (Err TNotConfigured, tr) | Some s \<Rightarrow> f (s\<lparr>e_Role := RoleFromContext cx\<rparr>) (ownerFromContext cx) tr)"

definition run :: "'a prog \<Rightarrow> ('a \<Rightarrow> 'b) \<Rightarrow> trace \<Rightarrow> 'b tool" where
  "run m f tr = (case m tr of (Err e, tr') \<Rightarrow> (Err (TService e), tr') | (Ok x, tr') \<Rightarrow> (Ok (f x), tr'))"

type_synonym packer = "(string \<times> string) list \<Rightarrow> (string, byte list) result"

definition tarballFromFiles :: "packer \<Rightarrow> (string \<times> string) list \<Rightarrow> (string, reader) result" where
  "tarballFromFiles pack files =
     (let names = sort (map fst files) in
      case pack (map (\<lambda>n. (n, the (map_of files n))) names) of
        Err e \<Rightarrow> Err e | Ok bytes \<Rightarrow> Ok \<lparr>rd_bytes = bytes, rd_err = None, rd_seekable = False\<rparr>)"

subsection \<open>Deploying\<close>

record deployArtifactInput =
  di_Name :: string
  di_Files :: "(string \<times> string) list"
  di_EnvVars :: "(string \<times> string) list"
  di_AllowedHosts :: "string list"
  di_Language :: string
  di_Target :: string
  di_SecretRefs :: "(string \<times> string) list"
  di_Port :: int

record updateArtifactInput =
  ui_ArtifactID :: string
  ui_Files :: "(string \<times> string) list"
  ui_EnvVars :: "(string \<times> string) list"
  ui_SecretRefs :: "(string \<times> string) list"

record deployArtifactOutput =
  do_ArtifactID :: string
  do_Name :: string
  do_URL :: string
  do_Status :: string
  do_Reason :: string
  do_Message :: string

definition toolRequest :: "string \<Rightarrow> string \<Rightarrow> reader \<Rightarrow> (string \<times> string) list \<Rightarrow> string list \<Rightarrow> Request" where
  "toolRequest name owner tar env hosts =
     \<lparr>rq_Name = name, rq_Owner = owner, rq_Tarball = tar, rq_LaneOverride = LaneEmpty, rq_TemplateOverride = '''', rq_Entrypoint = '''',
      rq_Env = map (\<lambda>(k, v). \<lparr>env_Name = k, env_Value = v\<rparr>) env, rq_TTL = '''', rq_AllowedHosts = hosts\<rparr>"

definition resultStatus :: "Result \<Rightarrow> string" where
  "resultStatus res = (if r_Ready res then ''running'' else if r_Phase res = PhaseFailed then ''failed'' else ''deploying'')"

definition deployFiles :: "packer \<Rightarrow> LimitsConfig \<Rightarrow> env \<Rightarrow> (string \<times> string) list \<Rightarrow> (reader \<Rightarrow> Request) \<Rightarrow> (Result \<Rightarrow> 'a) \<Rightarrow> trace \<Rightarrow> 'a tool" where
  "deployFiles pack limits s files req out tr =
     (case validateFileLimits limits files of
        Some e \<Rightarrow> (Err (TLimits e), tr)
      | None \<Rightarrow> (case tarballFromFiles pack files of Err e \<Rightarrow> (Err (TPack e), tr) | Ok tar \<Rightarrow> run (Deploy s (req tar)) out tr))"

definition deploy_artifact :: "packer \<Rightarrow> LimitsConfig \<Rightarrow> env option \<Rightarrow> req_context \<Rightarrow> deployArtifactInput \<Rightarrow> trace \<Rightarrow> deployArtifactOutput tool" where
  "deploy_artifact pack limits svc cx input = with_service svc cx (\<lambda>s owner.
     deployFiles pack limits s (di_Files input) (\<lambda>tar. toolRequest (di_Name input) owner tar (di_EnvVars input) (di_AllowedHosts input))
       (\<lambda>res. \<lparr>do_ArtifactID = r_AppID res, do_Name = di_Name input, do_URL = r_URL res, do_Status = resultStatus res, do_Reason = r_Reason res, do_Message = r_Message res\<rparr>))"

definition update_artifact :: "packer \<Rightarrow> LimitsConfig \<Rightarrow> env option \<Rightarrow> req_context \<Rightarrow> updateArtifactInput \<Rightarrow> trace \<Rightarrow> deployArtifactOutput tool" where
  "update_artifact pack limits svc cx input = with_service svc cx (\<lambda>s owner.
     deployFiles pack limits s (ui_Files input) (\<lambda>tar. toolRequest (ui_ArtifactID input) owner tar (ui_EnvVars input) [])
       (\<lambda>res. \<lparr>do_ArtifactID = r_AppID res, do_Name = ui_ArtifactID input, do_URL = r_URL res, do_Status = resultStatus res, do_Reason = '''', do_Message = ''''\<rparr>))"

subsection \<open>Reading and changing apps\<close>

text \<open>Times that are not set are Go's zero time, written 0 here.\<close>

definition appToArtifact :: "VibedApp \<Rightarrow> Artifact" where
  "appToArtifact app =
     \<lparr>art_ID = app_Name app, art_Name = app_Name app, art_OwnerID = spec_Owner (app_Spec app), art_Namespace = '''', art_Status = StatusFromPhase (st_Phase (app_Status app)),
      art_Target = ''sandbox'', art_ImageRef = '''', art_URL = st_URL (app_Status app), art_Port = 0, art_EnvVars = Map.empty, art_SecretRefs = Map.empty,
      art_Language = rt_Template (spec_Runtime (app_Spec app)), art_Mode = '''', art_StaticFiles = '''',
      art_Error = (case FindStatusCondition (st_Conditions (app_Status app)) ConditionReady of
          Some c \<Rightarrow> if cond_Message c \<noteq> '''' \<and> st_Phase (app_Status app) = PhaseFailed then cond_Message c else '''' | None \<Rightarrow> ''''),
      art_CreatedAt = 0, art_UpdatedAt = (case st_LastDeployedAt (app_Status app) of Some t \<Rightarrow> t | None \<Rightarrow> 0),
      art_StorageRef = '''', art_Version = 0, art_VersionID = '''', art_SharedWith = []\<rparr>"

definition appToSummary :: "VibedApp \<Rightarrow> ArtifactSummary" where
  "appToSummary app =
     \<lparr>sum_ID = app_Name app, sum_Name = app_Name app, sum_OwnerID = spec_Owner (app_Spec app), sum_Namespace = app_Namespace app,
      sum_Status = StatusFromPhase (st_Phase (app_Status app)), sum_Target = ''sandbox'', sum_Mode = '''', sum_URL = st_URL (app_Status app), sum_CreatedAt = 0,
      sum_UpdatedAt = (case st_LastDeployedAt (app_Status app) of Some t \<Rightarrow> t | None \<Rightarrow> 0), sum_Version = 0, sum_SharedWith = []\<rparr>"

definition versionRecordToArtifactVersion :: "(string \<Rightarrow> time) \<Rightarrow> VibedApp \<Rightarrow> VersionRecord \<Rightarrow> ArtifactVersion" where
  "versionRecordToArtifactVersion parseTime app rc =
     \<lparr>av_VersionID = app_Name app @ ''.v'' @ Itoa (vr_Version rc), av_ArtifactID = app_Name app, av_Version = vr_Version rc, av_ImageRef = '''',
      av_StorageRef = vr_TarballRef rc, av_EnvVars = Map.empty, av_SecretRefs = Map.empty, av_Status = StatusRunning, av_URL = st_URL (app_Status app),
      av_CreatedAt = parseTime (vr_Timestamp rc), av_CreatedBy = spec_Owner (app_Spec app)\<rparr>"

record listArtifactsInput =
  li_Status :: string
  li_Offset :: int
  li_Limit :: int

record listArtifactsOutput =
  lo_Artifacts :: "ArtifactSummary list"
  lo_Total :: int
  lo_OffsetOut :: int
  lo_LimitOut :: int

definition list_artifacts :: "env option \<Rightarrow> req_context \<Rightarrow> listArtifactsInput \<Rightarrow> trace \<Rightarrow> listArtifactsOutput tool" where
  "list_artifacts svc cx input = with_service svc cx (\<lambda>s owner.
     run (ListApps s owner 0 0) (\<lambda>(apps, _).
       let summaries = map appToSummary (filter (\<lambda>a. \<not> (li_Status input \<noteq> '''' \<and> li_Status input \<noteq> ''all'' \<and>
             status_string (StatusFromPhase (st_Phase (app_Status a))) \<noteq> li_Status input)) apps)
       in \<lparr>lo_Artifacts = summaries, lo_Total = int (length summaries), lo_OffsetOut = 0, lo_LimitOut = clampLimit (li_Limit input)\<rparr>))"

definition get_artifact_status :: "env option \<Rightarrow> req_context \<Rightarrow> string \<Rightarrow> trace \<Rightarrow> Artifact tool" where
  "get_artifact_status svc cx i = with_service svc cx (\<lambda>s owner. run (Get s owner i) appToArtifact)"

definition delete_artifact :: "env option \<Rightarrow> req_context \<Rightarrow> string \<Rightarrow> trace \<Rightarrow> string tool" where
  "delete_artifact svc cx i = with_service svc cx (\<lambda>s owner. run (Delete s owner i) (\<lambda>_. ''Artifact '' @ Quote i @ '' deleted successfully.''))"

fun join_lines :: "string list \<Rightarrow> string" where
  "join_lines [] = ''''"
| "join_lines [l] = l"
| "join_lines (l # m # ls) = l @ [CHR 0x0A] @ join_lines (m # ls)"

definition get_artifact_logs :: "logs_env \<Rightarrow> LimitsConfig \<Rightarrow> env option \<Rightarrow> req_context \<Rightarrow> string \<Rightarrow> int \<Rightarrow> trace \<Rightarrow> string tool" where
  "get_artifact_logs lg limits svc cx i lines = with_service svc cx (\<lambda>s owner tr.
     case StreamLogs lg s owner i False (nat (clampLogLines limits lines)) None tr of
       ((logs, Some e), tr') \<Rightarrow> (Err (TLogs e), tr') | ((logs, None), tr') \<Rightarrow> (Ok (join_lines logs), tr'))"

definition list_versions :: "(string \<Rightarrow> time) \<Rightarrow> env option \<Rightarrow> req_context \<Rightarrow> string \<Rightarrow> trace \<Rightarrow> ArtifactVersion list tool" where
  "list_versions parseTime svc cx i = with_service svc cx (\<lambda>s owner.
     run (bindE (Get s owner i) (\<lambda>app. bindE (Versions s owner i) (\<lambda>recs. retE (map (versionRecordToArtifactVersion parseTime app) recs)))) (\<lambda>v. v))"

record rollbackArtifactOutput =
  ro_ArtifactID :: string
  ro_Name :: string
  ro_URL :: string
  ro_Target :: string
  ro_Status :: string
  ro_ImageRef :: string
  ro_NewVersion :: int
  ro_Message :: string

definition rollback_artifact :: "env option \<Rightarrow> req_context \<Rightarrow> string \<Rightarrow> int \<Rightarrow> trace \<Rightarrow> rollbackArtifactOutput tool" where
  "rollback_artifact svc cx i version = with_service svc cx (\<lambda>s owner tr.
     case Rollback s owner i version tr of
       (Err e, tr') \<Rightarrow> (Err (TService e), tr')
     | (Ok res, tr') \<Rightarrow>
         (case Versions s owner i tr' of
            (recs, tr'') \<Rightarrow>
              let new = (case recs of Ok (r # _) \<Rightarrow> vr_Version r | _ \<Rightarrow> 0) in
              (Ok \<lparr>ro_ArtifactID = r_AppID res, ro_Name = r_AppID res, ro_URL = r_URL res, ro_Target = ''sandbox'', ro_Status = resultStatus res, ro_ImageRef = '''', ro_NewVersion = new,
                 ro_Message = ''Successfully rolled back to version '' @ Itoa version @ ''. New version is v'' @ Itoa new @ ''.''\<rparr>, tr'')))"

subsection \<open>Share links\<close>

text \<open>A lifetime that does not parse is dropped.\<close>

definition toolExpiresIn :: "(string \<Rightarrow> duration option) \<Rightarrow> string \<Rightarrow> duration" where
  "toolExpiresIn parseDuration s =
     (if s = '''' then 0
      else if length s > 1 \<and> last s = CHR ''d''
      then (case parseDuration (butlast s @ ''h'') of Some d \<Rightarrow> int64 (d * 24) | None \<Rightarrow> 0)
      else (case parseDuration s of Some d \<Rightarrow> d | None \<Rightarrow> 0))"

definition create_share_link :: "(string \<Rightarrow> duration option) \<Rightarrow> env option \<Rightarrow> req_context \<Rightarrow> string \<Rightarrow> string \<Rightarrow> string \<Rightarrow> trace \<Rightarrow> ShareLink tool" where
  "create_share_link parseDuration svc cx i password expires = with_service svc cx (\<lambda>s owner.
     run (CreateShareLink s owner i password (toolExpiresIn parseDuration expires)) (\<lambda>l. l))"

definition list_share_links :: "env option \<Rightarrow> req_context \<Rightarrow> string \<Rightarrow> trace \<Rightarrow> ShareLink list tool" where
  "list_share_links svc cx i = with_service svc cx (\<lambda>s owner. run (ListShareLinks s owner i 0 0) (\<lambda>ls. ls))"

definition revoke_share_link :: "env option \<Rightarrow> req_context \<Rightarrow> string \<Rightarrow> trace \<Rightarrow> string tool" where
  "revoke_share_link svc cx token = with_service svc cx (\<lambda>s owner. run (RevokeShareLink s owner token) (\<lambda>_. ''revoked''))"

subsection \<open>Accounts\<close>

definition list_users :: "'s AdminStore \<Rightarrow> req_context \<Rightarrow> string \<Rightarrow> 's \<Rightarrow> 's \<times> (mcp_error, User list) result" where
  "list_users us cx dept st =
     (if \<not> IsAdmin cx then (st, Err (TText ''admin access required''))
      else case as_ListUsers us dept 0 0 st of (st', Err e) \<Rightarrow> (st', Err (TStore e)) | (st', Ok l) \<Rightarrow> (st', Ok (map public_user l)))"

definition get_user :: "'s AdminStore \<Rightarrow> req_context \<Rightarrow> string \<Rightarrow> 's \<Rightarrow> 's \<times> (mcp_error, User) result" where
  "get_user us cx i st =
     (if \<not> IsAdmin cx \<and> UserIDFromContext cx \<noteq> i then (st, Err (TText ''user not found''))
      else case us_GetUser (as_users us) i st of (st', Err e) \<Rightarrow> (st', Err (TStore e)) | (st', Ok u) \<Rightarrow> (st', Ok (public_user u)))"

definition list_departments :: "'s AdminStore \<Rightarrow> req_context \<Rightarrow> 's \<Rightarrow> 's \<times> (mcp_error, Department list) result" where
  "list_departments us cx st =
     (if \<not> IsAdmin cx then (st, Err (TText ''admin access required''))
      else case as_ListDepartments us 0 0 st of (st', Err e) \<Rightarrow> (st', Err (TStore e)) | (st', Ok l) \<Rightarrow> (st', Ok l))"

definition create_department :: "'s AdminStore \<Rightarrow> time \<Rightarrow> req_context \<Rightarrow> string \<Rightarrow> 's \<Rightarrow> 's \<times> (mcp_error, Department) result" where
  "create_department us now cx name st =
     (if \<not> IsAdmin cx then (st, Err (TText ''admin access required''))
      else if name = '''' then (st, Err (TText ''name is required''))
      else let d = \<lparr>dept_ID = ''dept-'' @ hex_nat (nat now), dept_Name = name, dept_Namespace = '''', dept_CreatedAt = now, dept_UpdatedAt = now\<rparr> in
        case us_CreateDepartment (as_users us) d st of (st', Some e) \<Rightarrow> (st', Err (TStore e)) | (st', None) \<Rightarrow> (st', Ok d))"

subsection \<open>The limits and the archive do not depend on the order of a map\<close>

lemma sizeLoop_exact:
  "tot \<le> mx \<Longrightarrow> sizeLoop mx tot files = (if tot + int (sum_list (map (length \<circ> snd) files)) \<le> mx then None else Some (sizeError mx))"
proof (induction files arbitrary: tot)
  case (Cons f fs)
  obtain n c where f: "f = (n, c)" by fastforce
  show ?case
  proof (cases "tot + int (length c) \<le> mx")
    case True
    then show ?thesis unfolding f using Cons.IH [OF True] by (simp add: Let_def algebra_simps)
  next
    case False
    then show ?thesis unfolding f by (simp add: Let_def)
  qed
qed simp

text \<open>The limits on a file map are exact and do not depend on the order in which the map is visited: it is accepted iff it has at most the configured number of files and bytes,
  where a limit of zero or less is none.\<close>

theorem file_limits_are_exact:
  "validateFileLimits limits files = None \<longleftrightarrow>
     (lc_MaxFileCount limits > 0 \<longrightarrow> int (length files) \<le> lc_MaxFileCount limits) \<and>
     (lc_MaxTotalFileSize limits > 0 \<longrightarrow> int (sum_list (map (length \<circ> snd) files)) \<le> lc_MaxTotalFileSize limits)"
  by (auto simp: validateFileLimits_def sizeLoop_exact)

lemma sorted_entries:
  assumes "distinct (map fst files)" "mset files' = mset files"
  shows "sort (map fst files') = sort (map fst files)" "map_of files' = map_of files"
proof -
  have "mset (map fst files') = mset (map fst files)" using assms(2) by (metis mset_map)
  then show "sort (map fst files') = sort (map fst files)" by (metis sort_key_inj_key_eq inj_on_id2 id_apply properties_for_sort mset_sort sorted_sort)
  have "distinct (map fst files')" using assms by (metis mset_map mset_eq_imp_distinct_iff)
  moreover have "set files' = set files" using assms(2) by (rule mset_eq_setD)
  ultimately show "map_of files' = map_of files" using assms(1) by (metis map_of_inject_set)
qed

text \<open>What a deploy tool does does not depend on the order in which Go visits the file map: the same limits apply, the archive is the same, so is its hash, and so are the
  answer and every call made.\<close>

theorem deploy_tool_ignores_map_order:
  assumes "distinct (map fst files)" "mset files' = mset files"
  shows "deploy_artifact pack limits svc cx (input\<lparr>di_Files := files'\<rparr>) tr = deploy_artifact pack limits svc cx (input\<lparr>di_Files := files\<rparr>) tr"
proof -
  have l: "length files' = length files" using assms(2) by (metis size_mset)
  have "sum_list (map (length \<circ> snd) files') = sum_list (map (length \<circ> snd) files)"
    using assms(2) by (metis mset_map sum_mset_sum_list)
  then have "validateFileLimits limits files' = validateFileLimits limits files" by (simp add: validateFileLimits_def l sizeLoop_exact)
  moreover have "tarballFromFiles pack files' = tarballFromFiles pack files"
    unfolding tarballFromFiles_def sorted_entries [OF assms] by (rule refl)
  ultimately show ?thesis by (simp add: deploy_artifact_def deployFiles_def [abs_def] cong: option.case_cong)
qed

definition sample_limits :: LimitsConfig where
  "sample_limits = \<lparr>lc_MaxTotalFileSize = 100, lc_MaxFileCount = 2, lc_MaxLogLines = 0\<rparr>"

definition sample_pack :: packer where
  "sample_pack es = Ok (concat (map (\<lambda>(n, c). n @ c) es))"

definition sample_input :: deployArtifactInput where
  "sample_input = \<lparr>di_Name = ''a'', di_Files = [(''b'', ''2''), (''a'', ''1'')], di_EnvVars = [], di_AllowedHosts = [], di_Language = '''', di_Target = '''', di_SecretRefs = [], di_Port = 0\<rparr>"

theorem deploy_tool_ignores_map_order_witness:
  "deploy_artifact sample_pack sample_limits (Some (Deploy_Examples.sample_env None None None)) (sample_caller ''al'') (sample_input\<lparr>di_Files := [(''a'', ''1''), (''b'', ''2'')]\<rparr>) [] =
   deploy_artifact sample_pack sample_limits (Some (Deploy_Examples.sample_env None None None)) (sample_caller ''al'') (sample_input\<lparr>di_Files := [(''b'', ''2''), (''a'', ''1'')]\<rparr>) []"
  by (rule deploy_tool_ignores_map_order) simp_all

subsection \<open>Tools and endpoints\<close>

text \<open>The tools that have a counterpart under \<open>/v1\<close>, and the request that corresponds to a call.\<close>

datatype tool_call = CDeploy deployArtifactInput | CStatus string | CDelete string | CCreateLink string string string | CListLinks string

record tool_env =
  te_pack :: packer
  te_limits :: LimitsConfig

definition outcome :: "'a tool \<Rightarrow> bool \<times> trace" where
  "outcome r = (case fst r of Ok _ \<Rightarrow> True | Err _ \<Rightarrow> False, snd r)"

fun call_tool :: "tool_env \<Rightarrow> api_env \<Rightarrow> env option \<Rightarrow> req_context \<Rightarrow> tool_call \<Rightarrow> trace \<Rightarrow> bool \<times> trace" where
  "call_tool te ap svc cx (CDeploy input) tr = outcome (deploy_artifact (te_pack te) (te_limits te) svc cx input tr)"
| "call_tool te ap svc cx (CStatus i) tr = outcome (get_artifact_status svc cx i tr)"
| "call_tool te ap svc cx (CDelete i) tr = outcome (delete_artifact svc cx i tr)"
| "call_tool te ap svc cx (CCreateLink i password expires) tr = outcome (create_share_link (ap_parseDuration ap) svc cx i password expires tr)"
| "call_tool te ap svc cx (CListLinks i) tr = outcome (list_share_links svc cx i tr)"

definition tool_metadata :: "deployArtifactInput \<Rightarrow> DeployMetadata" where
  "tool_metadata input = \<lparr>dm_Name = di_Name input, dm_Ttl = None, dm_Runtime = None, dm_Egress = Some (Some (di_AllowedHosts input)),
     dm_Env = Some (map (\<lambda>(k, v). (k, Some v)) (di_EnvVars input))\<rparr>"

fun request_of :: "tool_env \<Rightarrow> api_env \<Rightarrow> tool_call \<Rightarrow> api_request option" where
  "request_of te ap (CDeploy input) =
     (case tarballFromFiles (te_pack te) (di_Files input) of
        Ok tar \<Rightarrow> if validateFileLimits (te_limits te) (di_Files input) = None \<and> di_Name input \<noteq> ''''
                   then Some (ADeploy (Form ''{}'' (Ok (tool_metadata input)) (Some tar))) else None
      | Err _ \<Rightarrow> None)"
| "request_of te ap (CStatus i) = Some (AGet i)"
| "request_of te ap (CDelete i) = Some (ADelete i)"
| "request_of te ap (CCreateLink i password expires) =
     (if expires = '''' \<or> parseExpiresIn (ap_parseDuration ap) expires \<noteq> None then Some (ACreateLink i (Ok (Some password, Some expires))) else None)"
| "request_of te ap (CListLinks i) = Some (AListLinks i None None)"

fun success :: "response \<Rightarrow> bool" where
  "success (Reply n b) = (200 \<le> n \<and> n < 300)"
| "success (Stream ls) = True"
| "success Panic = False"

lemma tool_request: "toolRequest (di_Name input) owner tar (di_EnvVars input) (di_AllowedHosts input) = deployRequest (di_Name input) owner tar (tool_metadata input)"
  by (simp add: toolRequest_def deployRequest_def tool_metadata_def deref_def case_prod_unfold)

text \<open>What \<open>time.ParseDuration\<close> makes of a unit without a number.\<close>

definition bare_units_refused :: "(string \<Rightarrow> duration option) \<Rightarrow> bool" where
  "bare_units_refused pd \<longleftrightarrow> pd ''h'' = None \<and> pd ''d'' = None"

lemma tool_expires:
  assumes "expires = '''' \<or> parseExpiresIn pd expires \<noteq> None" "bare_units_refused pd"
  shows "(if expires \<noteq> '''' then parseExpiresIn pd expires else Some 0) = Some (toolExpiresIn pd expires)"
proof (cases "expires = ''''")
  case False
  then have d: "HasSuffix expires ''d'' \<longleftrightarrow> last expires = CHR ''d''" "last expires = CHR ''d'' \<Longrightarrow> TrimSuffix expires ''d'' = butlast expires"
    by (cases expires rule: rev_cases; simp add: HasSuffix_def TrimSuffix_def)+
  have "length expires > 1" if "last expires = CHR ''d''"
  proof (rule ccontr)
    assume "\<not> length expires > 1"
    then have "expires = ''d''" using False that by (cases expires) auto
    then show False using assms by (simp add: bare_units_refused_def parseExpiresIn_def HasSuffix_def TrimSuffix_def)
  qed
  then show ?thesis using False assms d by (auto simp: parseExpiresIn_def toolExpiresIn_def)
qed (simp add: toolExpiresIn_def)



subsection \<open>Where the tools differ\<close>

text \<open>A lifetime that does not parse: the endpoint refuses the request, the tool mints a link that never expires, as if no lifetime had been asked for.\<close>

theorem bad_lifetime_mints_permanent_link:
  assumes "bare_units_refused (ap_parseDuration ap)" "expires \<noteq> ''''" "parseExpiresIn (ap_parseDuration ap) expires = None" "UserIDFromContext cx \<noteq> ''''"
  shows "create_share_link (ap_parseDuration ap) svc cx i password expires tr = create_share_link (ap_parseDuration ap) svc cx i password '''' tr \<and>
    \<not> success (fst (handle ap svc cx (ACreateLink i (Ok (Some password, Some expires))) tr)) \<and> snd (handle ap svc cx (ACreateLink i (Ok (Some password, Some expires))) tr) = tr"
proof -
  have e: "toolExpiresIn (ap_parseDuration ap) expires = 0"
  proof (cases "last expires = CHR ''d''")
    case True
    then obtain t where t: "expires = t @ ''d''" using assms(2) by (metis append_butlast_last_id)
    then show ?thesis using assms(1,3) by (auto simp: bare_units_refused_def toolExpiresIn_def parseExpiresIn_def HasSuffix_def TrimSuffix_def split: option.splits)
  next
    case False
    then have "\<not> HasSuffix expires ''d''" using assms(2) by (cases expires rule: rev_cases) (auto simp: HasSuffix_def)
    then show ?thesis using assms(3) False by (auto simp: toolExpiresIn_def parseExpiresIn_def)
  qed
  have z: "toolExpiresIn (ap_parseDuration ap) '''' = 0" by (simp add: toolExpiresIn_def)
  show ?thesis using assms by (cases svc) (simp_all add: create_share_link_def e z CreateShareLink_h_def guarded_def deref_def notImplemented_def)
qed

theorem bad_lifetime_mints_permanent_link_witness:
  "create_share_link (ap_parseDuration sample_api) None (sample_caller ''al'') ''a'' '''' ''tomorrow'' [] = create_share_link (ap_parseDuration sample_api) None (sample_caller ''al'') ''a'' '''' '''' []"
  using bad_lifetime_mints_permanent_link [of sample_api "''tomorrow''" "sample_caller ''al''" None "''a''" "''''" "[]"]
  by (simp add: sample_caller_def UserIDFromContext_def background_def sample_api_def bare_units_refused_def parseExpiresIn_def HasSuffix_def)

text \<open>An update is a deploy: it creates the app if there is none, and it drops the app's egress hosts.\<close>

theorem update_tool_is_deploy:
  "snd (update_artifact pack limits svc cx \<lparr>ui_ArtifactID = name, ui_Files = files, ui_EnvVars = env, ui_SecretRefs = sr\<rparr> tr) =
   snd (deploy_artifact pack limits svc cx \<lparr>di_Name = name, di_Files = files, di_EnvVars = env, di_AllowedHosts = [], di_Language = la, di_Target = ta, di_SecretRefs = sr', di_Port = po\<rparr> tr)"
  by (auto simp: update_artifact_def deploy_artifact_def with_service_def deployFiles_def run_def split: option.splits sum.splits prod.splits)

text \<open>The listing is never paged, whatever offset and limit are asked for, and secret references, language, target and port have no effect on a deploy.\<close>

theorem tool_inputs_ignored:
  "map_prod (map_sum id lo_Artifacts) id (list_artifacts svc cx (q\<lparr>li_Offset := off, li_Limit := lim\<rparr>) tr) = map_prod (map_sum id lo_Artifacts) id (list_artifacts svc cx q tr) \<and>
   deploy_artifact pack limits svc cx (input\<lparr>di_SecretRefs := sr, di_Language := la, di_Target := ta, di_Port := po\<rparr>) tr = deploy_artifact pack limits svc cx input tr"
  by (simp add: list_artifacts_def deploy_artifact_def) (auto simp: with_service_def run_def Let_def split: option.splits sum.splits prod.splits)

text \<open>A caller without a user id, such as the holder of an API key without a name, is refused by the endpoints; the tools let it act as the owner \<open>local\<close>.\<close>

theorem nameless_caller_acts_as_local:
  assumes "UserIDFromContext cx = ''''"
  shows "handle ap (Some s) cx (AGet i) tr = (unauthenticated, tr) \<and>
    get_artifact_status (Some s) cx i tr = run (Get (s\<lparr>e_Role := RoleFromContext cx\<rparr>) ''local'' i) appToArtifact tr"
  using assms by (simp add: GetApp_def guarded_def get_artifact_status_def with_service_def ownerFromContext_def localOwner_def)

text \<open>A department created by the tool has no namespace; the dashboard's has one.\<close>

theorem tool_department_has_no_namespace:
  assumes "create_department us now cx name st = (st', Ok d)" "createDepartment us' k8s (newDepartment now' name') st1 = (st2, WJson n (WDept d'))"
  shows "dept_Namespace d = '''' \<and> dept_Namespace d' \<noteq> ''''"
  using assms by (auto simp: create_department_def createDepartment_def newDepartment_def departmentNamespace_def Let_def writeError_def split: if_splits prod.splits option.splits sql_error.splits api_error.splits)

end
