(* ===== verification/Config.thy ===== *)
theory Config
  imports Server Mcp "HOL-Library.List_Lexorder" "HOL-Library.Char_ord"
begin

section \<open>Configuration\<close>

text \<open>
  \<open>src/internal/config\<close>: the defaults, the overrides from the environment, and the validation of the configuration that \<open>Load\<close> returns.  The YAML decoder is a parameter: it
  changes a configuration, starting from the defaults, or fails.  So are \<open>time.ParseDuration\<close> and \<open>strconv.ParseFloat\<close> (finite values).  \<open>env\<close> is \<open>os.Getenv\<close>,
  which gives the empty string for a variable that is not set.
\<close>

subsection \<open>The configuration\<close>

record ServerConfig =
  sc_Transport :: string
  sc_HTTPAddr :: string
  sc_BaseURL :: string
  sc_LogFormat :: string
  sc_LogLevel :: string
  sc_RateLimitEnabled :: bool
  sc_RateLimit :: RateLimitConfig

record TLSConf =
  tls_Enabled :: bool
  tls_CertFile :: string
  tls_KeyFile :: string
  tls_AutoTLS :: bool

record DeploymentConfig =
  dc_PreferredTarget :: string
  dc_Namespace :: string
  dc_AppsNamespace :: string
  dc_ReadyTimeout :: duration

record TarballConfig =
  tb_Backend :: string
  tb_BasePath :: string
  tb_PublicBaseURL :: string
  tb_PresignTTL :: string

record StoreConfig =
  so_Backend :: string
  so_ConfigMapName :: string
  so_ConfigMapNamespace :: string
  so_SQLitePath :: string

record GCConfig =
  gcc_Enabled :: bool
  gcc_Interval :: string
  gcc_MaxAge :: string
  gcc_DryRun :: bool

record TracingConfig =
  tr_Enabled :: bool
  tr_Endpoint :: string
  tr_SampleRate :: rat

record Config =
  c_Organization :: string
  c_Server :: ServerConfig
  c_Auth :: AuthConfig
  c_DevInsecure :: bool
  c_TLS :: TLSConf
  c_Deployment :: DeploymentConfig
  c_Tarball :: TarballConfig
  c_RegistryEnabled :: bool
  c_RegistryURL :: string
  c_Store :: StoreConfig
  c_Kubeconfig :: string
  c_Limits :: LimitsConfig
  c_LogStreams :: log_limits
  c_QuotasEnabled :: bool
  c_Quotas :: QuotasConfig
  c_GC :: GCConfig
  c_Tracing :: TracingConfig
  c_AuditFailClosed :: bool

definition no_oidc :: OIDCConfig where
  "no_oidc = \<lparr>oc_Issuer = '''', oc_Audience = '''', oc_UsernameClaim = '''', oc_EmailClaim = '''', oc_RoleClaim = '''', oc_AdminRole = '''', oc_DepartmentClaim = ''''\<rparr>"

definition Default :: Config where
  "Default = \<lparr>
     c_Organization = '''',
     c_Server = \<lparr>sc_Transport = ''stdio'', sc_HTTPAddr = '':8080'', sc_BaseURL = '''', sc_LogFormat = ''text'', sc_LogLevel = ''info'', sc_RateLimitEnabled = False,
       sc_RateLimit = \<lparr>rl_RequestsPerSecond = 10, rl_Burst = 20, rl_WriteRequestsPerSecond = 1, rl_WriteBurst = 5\<rparr>\<rparr>,
     c_Auth = \<lparr>ac_Enabled = False, ac_Mode = '''', ac_APIKeys = [], ac_OIDC = no_oidc, ac_TrustedProxies = [], ac_IdentityCacheTTL = 30 * second\<rparr>,
     c_DevInsecure = False,
     c_TLS = \<lparr>tls_Enabled = False, tls_CertFile = '''', tls_KeyFile = '''', tls_AutoTLS = False\<rparr>,
     c_Deployment = \<lparr>dc_PreferredTarget = ''auto'', dc_Namespace = ''default'', dc_AppsNamespace = ''vibed-apps'', dc_ReadyTimeout = 10 * minute\<rparr>,
     c_Tarball = \<lparr>tb_Backend = ''served'', tb_BasePath = ''/data/vibed/sources'', tb_PublicBaseURL = '''', tb_PresignTTL = ''15m''\<rparr>,
     c_RegistryEnabled = False, c_RegistryURL = '''',
     c_Store = \<lparr>so_Backend = ''sqlite'', so_ConfigMapName = ''vibed-artifacts'', so_ConfigMapNamespace = ''vibed-system'', so_SQLitePath = ''/data/vibed.db''\<rparr>,
     c_Kubeconfig = '''',
     c_Limits = \<lparr>lc_MaxTotalFileSize = 50 * 1024 * 1024, lc_MaxFileCount = 500, lc_MaxLogLines = 10000\<rparr>,
     c_LogStreams = \<lparr>ll_PerUser = 10, ll_Global = 100\<rparr>,
     c_QuotasEnabled = False, c_Quotas = \<lparr>q_MaxAppsPerOwner = 0, q_MaxAppsPerDepartment = 0, q_PerDepartment = Map.empty\<rparr>,
     c_GC = \<lparr>gcc_Enabled = True, gcc_Interval = ''1h'', gcc_MaxAge = ''24h'', gcc_DryRun = False\<rparr>,
     c_Tracing = \<lparr>tr_Enabled = False, tr_Endpoint = '''', tr_SampleRate = 1\<rparr>,
     c_AuditFailClosed = False\<rparr>"

subsection \<open>The environment\<close>

text \<open>\<open>strconv.ParseBool\<close> with its error dropped: what is no truth value is false.\<close>

definition ParseBool :: "string \<Rightarrow> bool" where
  "ParseBool s \<longleftrightarrow> s \<in> {''1'', ''t'', ''T'', ''true'', ''TRUE'', ''True''}"

definition env_str :: "(string \<Rightarrow> string) \<Rightarrow> string \<Rightarrow> string \<Rightarrow> string" where
  "env_str env v x = (if env v \<noteq> '''' then env v else x)"

definition env_bool :: "(string \<Rightarrow> string) \<Rightarrow> string \<Rightarrow> bool \<Rightarrow> bool" where
  "env_bool env v x = (if env v \<noteq> '''' then ParseBool (env v) else x)"

definition env_int :: "(string \<Rightarrow> string) \<Rightarrow> string \<Rightarrow> int \<Rightarrow> int" where
  "env_int env v x = (if env v \<noteq> '''' \<and> atoi_ok (env v) \<and> atoi (env v) > 0 then atoi (env v) else x)"

definition envServer :: "(string \<Rightarrow> string) \<Rightarrow> (string \<Rightarrow> rat option) \<Rightarrow> ServerConfig \<Rightarrow> ServerConfig" where
  "envServer env parseFloat c = c\<lparr>
     sc_Transport := env_str env ''VIBED_SERVER_TRANSPORT'' (sc_Transport c),
     sc_HTTPAddr := env_str env ''VIBED_SERVER_HTTP_ADDR'' (sc_HTTPAddr c),
     sc_BaseURL := env_str env ''VIBED_SERVER_BASE_URL'' (sc_BaseURL c),
     sc_LogFormat := env_str env ''VIBED_LOG_FORMAT'' (sc_LogFormat c),
     sc_LogLevel := env_str env ''VIBED_LOG_LEVEL'' (sc_LogLevel c),
     sc_RateLimitEnabled := env_bool env ''VIBED_RATE_LIMIT_ENABLED'' (sc_RateLimitEnabled c),
     sc_RateLimit := (sc_RateLimit c)\<lparr>
       rl_RequestsPerSecond := (if env ''VIBED_RATE_LIMIT_RPS'' \<noteq> '''' then (case parseFloat (env ''VIBED_RATE_LIMIT_RPS'') of Some f \<Rightarrow> if f > 0 then f else rl_RequestsPerSecond (sc_RateLimit c)
            | None \<Rightarrow> rl_RequestsPerSecond (sc_RateLimit c)) else rl_RequestsPerSecond (sc_RateLimit c)),
       rl_Burst := env_int env ''VIBED_RATE_LIMIT_BURST'' (rl_Burst (sc_RateLimit c))\<rparr>\<rparr>"

text \<open>A key in the environment switches authentication on.\<close>

definition env_key :: "string \<Rightarrow> APIKeyConf" where
  "env_key v = \<lparr>ak_Key = v, ak_Name = ''env-key'', ak_Scopes = [], ak_Role = '''', ak_Department = ''''\<rparr>"

definition envAuth :: "(string \<Rightarrow> string) \<Rightarrow> AuthConfig \<Rightarrow> AuthConfig" where
  "envAuth env c =
     (let c1 = c\<lparr>ac_Enabled := env_bool env ''VIBED_AUTH_ENABLED'' (ac_Enabled c), ac_Mode := env_str env ''VIBED_AUTH_MODE'' (ac_Mode c)\<rparr>;
          v = env ''VIBED_AUTH_API_KEY'';
          c2 = (if v \<noteq> '''' then c1\<lparr>ac_Enabled := True, ac_Mode := (if ac_Mode c1 = '''' then ''apikey'' else ac_Mode c1), ac_APIKeys := ac_APIKeys c1 @ [env_key v]\<rparr> else c1)
      in c2\<lparr>ac_OIDC := (ac_OIDC c2)\<lparr>oc_Issuer := env_str env ''VIBED_AUTH_OIDC_ISSUER'' (oc_Issuer (ac_OIDC c2)),
           oc_Audience := env_str env ''VIBED_AUTH_OIDC_AUDIENCE'' (oc_Audience (ac_OIDC c2)), oc_AdminRole := env_str env ''VIBED_AUTH_OIDC_ADMIN_ROLE'' (oc_AdminRole (ac_OIDC c2))\<rparr>\<rparr>)"

definition envTLS :: "(string \<Rightarrow> string) \<Rightarrow> TLSConf \<Rightarrow> TLSConf" where
  "envTLS env c = \<lparr>tls_Enabled = env_bool env ''VIBED_TLS_ENABLED'' (tls_Enabled c), tls_CertFile = env_str env ''VIBED_TLS_CERT_FILE'' (tls_CertFile c),
     tls_KeyFile = env_str env ''VIBED_TLS_KEY_FILE'' (tls_KeyFile c), tls_AutoTLS = env_bool env ''VIBED_TLS_AUTO'' (tls_AutoTLS c)\<rparr>"

definition envLimits :: "(string \<Rightarrow> string) \<Rightarrow> LimitsConfig \<Rightarrow> LimitsConfig" where
  "envLimits env c = \<lparr>lc_MaxTotalFileSize = env_int env ''VIBED_LIMITS_MAX_TOTAL_FILE_SIZE'' (lc_MaxTotalFileSize c),
     lc_MaxFileCount = env_int env ''VIBED_LIMITS_MAX_FILE_COUNT'' (lc_MaxFileCount c), lc_MaxLogLines = env_int env ''VIBED_LIMITS_MAX_LOG_LINES'' (lc_MaxLogLines c)\<rparr>"

definition envGC :: "(string \<Rightarrow> string) \<Rightarrow> GCConfig \<Rightarrow> GCConfig" where
  "envGC env c = \<lparr>gcc_Enabled = env_bool env ''VIBED_GC_ENABLED'' (gcc_Enabled c), gcc_Interval = env_str env ''VIBED_GC_INTERVAL'' (gcc_Interval c),
     gcc_MaxAge = env_str env ''VIBED_GC_MAX_AGE'' (gcc_MaxAge c), gcc_DryRun = env_bool env ''VIBED_GC_DRY_RUN'' (gcc_DryRun c)\<rparr>"

definition envTracing :: "(string \<Rightarrow> string) \<Rightarrow> (string \<Rightarrow> rat option) \<Rightarrow> TracingConfig \<Rightarrow> TracingConfig" where
  "envTracing env parseFloat c =
     (let c1 = c\<lparr>tr_Enabled := env_bool env ''VIBED_TRACING_ENABLED'' (tr_Enabled c)\<rparr>;
          otel = env ''OTEL_EXPORTER_OTLP_ENDPOINT'';
          c2 = (if otel \<noteq> '''' then c1\<lparr>tr_Endpoint := otel, tr_Enabled := True\<rparr> else c1);
          c3 = c2\<lparr>tr_Endpoint := env_str env ''VIBED_TRACING_ENDPOINT'' (tr_Endpoint c2)\<rparr>;
          rate = env ''VIBED_TRACING_SAMPLE_RATE''
      in if rate \<noteq> '''' then (case parseFloat rate of Some f \<Rightarrow> c3\<lparr>tr_SampleRate := f\<rparr> | None \<Rightarrow> c3) else c3)"

definition applyEnvOverrides :: "(string \<Rightarrow> string) \<Rightarrow> (string \<Rightarrow> rat option) \<Rightarrow> Config \<Rightarrow> Config" where
  "applyEnvOverrides env parseFloat c = c\<lparr>
     c_Organization := env_str env ''VIBED_ORGANIZATION_NAME'' (c_Organization c),
     c_Server := envServer env parseFloat (c_Server c),
     c_Deployment := (c_Deployment c)\<lparr>dc_PreferredTarget := env_str env ''VIBED_DEPLOYMENT_PREFERRED_TARGET'' (dc_PreferredTarget (c_Deployment c)),
        dc_Namespace := env_str env ''VIBED_DEPLOYMENT_NAMESPACE'' (dc_Namespace (c_Deployment c))\<rparr>,
     c_RegistryEnabled := env_bool env ''VIBED_REGISTRY_ENABLED'' (c_RegistryEnabled c),
     c_RegistryURL := env_str env ''VIBED_REGISTRY_URL'' (c_RegistryURL c),
     c_Store := (c_Store c)\<lparr>so_Backend := env_str env ''VIBED_STORE_BACKEND'' (so_Backend (c_Store c)), so_SQLitePath := env_str env ''VIBED_STORE_SQLITE_PATH'' (so_SQLitePath (c_Store c))\<rparr>,
     c_Kubeconfig := (if env ''KUBECONFIG'' \<noteq> '''' \<and> c_Kubeconfig c = '''' then env ''KUBECONFIG'' else c_Kubeconfig c),
     c_Auth := envAuth env (c_Auth c),
     c_TLS := envTLS env (c_TLS c),
     c_Limits := envLimits env (c_Limits c),
     c_GC := envGC env (c_GC c),
     c_Tracing := envTracing env parseFloat (c_Tracing c)\<rparr>"

subsection \<open>Validation\<close>

datatype cfg_error =
    BadTransport string | BadLogFormat string | BadLogLevel string | BadTarget string
  | BadBackend "string list" string | NoSQLitePath | NoRegistryURL
  | BadMode "string list" string | NoKeys string | NoIssuer | NoAudienceSet | BadRole string string
  | NoCertificate | BadInterval string | BadMaxAge string

text \<open>The names registered out of tree come from a lister that may not be installed.\<close>

definition listerHas :: "(unit \<Rightarrow> string list) option \<Rightarrow> string \<Rightarrow> bool" where
  "listerHas f want = (case f of None \<Rightarrow> False | Some g \<Rightarrow> want \<in> set (g ()))"

definition availableNames :: "string list \<Rightarrow> (unit \<Rightarrow> string list) option \<Rightarrow> string list" where
  "availableNames builtin lister = sort (remdups (builtin @ (case lister of None \<Rightarrow> [] | Some g \<Rightarrow> filter (\<lambda>n. n \<noteq> '''') (g ()))))"

definition checkAuth :: "(unit \<Rightarrow> string list) option \<Rightarrow> AuthConfig \<Rightarrow> cfg_error option" where
  "checkAuth modes c =
     (if \<not> ac_Enabled c then None
      else if ac_Mode c \<notin> {''apikey'', ''oauth'', ''oidc'', ''''} \<and> \<not> listerHas modes (ac_Mode c) then Some (BadMode (availableNames [''apikey'', ''oauth'', ''oidc''] modes) (ac_Mode c))
      else if ac_Mode c \<in> {''apikey'', ''oauth'', ''''} \<and> ac_APIKeys c = [] then Some (NoKeys (ac_Mode c))
      else if ac_Mode c = ''oidc'' \<and> oc_Issuer (ac_OIDC c) = '''' then Some NoIssuer
      else if ac_Mode c = ''oidc'' \<and> oc_Audience (ac_OIDC c) = '''' then Some NoAudienceSet
      else case find (\<lambda>k. ak_Role k \<notin> {''admin'', ''user'', ''''}) (ac_APIKeys c) of Some k \<Rightarrow> Some (BadRole (ak_Name k) (ak_Role k)) | None \<Rightarrow> None)"

definition first_error :: "cfg_error option list \<Rightarrow> cfg_error option" where
  "first_error es = (case find (\<lambda>e. e \<noteq> None) es of Some e \<Rightarrow> e | None \<Rightarrow> None)"

definition validate :: "(string \<Rightarrow> duration option) \<Rightarrow> (unit \<Rightarrow> string list) option \<Rightarrow> (unit \<Rightarrow> string list) option \<Rightarrow> Config \<Rightarrow> cfg_error option" where
  "validate parseDuration backends modes c = first_error [
     if sc_Transport (c_Server c) \<notin> {''stdio'', ''http'', ''both''} then Some (BadTransport (sc_Transport (c_Server c))) else None,
     if sc_LogFormat (c_Server c) \<notin> {''text'', ''json''} then Some (BadLogFormat (sc_LogFormat (c_Server c))) else None,
     if sc_LogLevel (c_Server c) \<notin> {''debug'', ''info'', ''warn'', ''error''} then Some (BadLogLevel (sc_LogLevel (c_Server c))) else None,
     if dc_PreferredTarget (c_Deployment c) \<notin> {''auto'', ''kubernetes''} then Some (BadTarget (dc_PreferredTarget (c_Deployment c))) else None,
     if so_Backend (c_Store c) \<notin> {''memory'', ''configmap'', ''sqlite''} \<and> \<not> listerHas backends (so_Backend (c_Store c))
       then Some (BadBackend (availableNames [''memory'', ''configmap'', ''sqlite''] backends) (so_Backend (c_Store c))) else None,
     if so_Backend (c_Store c) = ''sqlite'' \<and> so_SQLitePath (c_Store c) = '''' then Some NoSQLitePath else None,
     if c_RegistryEnabled c \<and> c_RegistryURL c = '''' then Some NoRegistryURL else None,
     checkAuth modes (c_Auth c),
     if tls_Enabled (c_TLS c) \<and> \<not> (tls_CertFile (c_TLS c) \<noteq> '''' \<and> tls_KeyFile (c_TLS c) \<noteq> '''') \<and> \<not> tls_AutoTLS (c_TLS c) then Some NoCertificate else None,
     if gcc_Enabled (c_GC c) \<and> parseDuration (gcc_Interval (c_GC c)) = None then Some (BadInterval (gcc_Interval (c_GC c))) else None,
     if gcc_Enabled (c_GC c) \<and> parseDuration (gcc_MaxAge (c_GC c)) = None then Some (BadMaxAge (gcc_MaxAge (c_GC c))) else None]"

datatype load_error = LReadFile string | LParse string | LInvalid cfg_error

record load_env =
  ld_env :: "string \<Rightarrow> string"
  ld_parseFloat :: "string \<Rightarrow> rat option"
  ld_parseDuration :: "string \<Rightarrow> duration option"
  ld_backends :: "(unit \<Rightarrow> string list) option"
  ld_modes :: "(unit \<Rightarrow> string list) option"

text \<open>The file: it cannot be read, it is missing (or no path was given), or it holds what the decoder makes of it.\<close>

definition Load :: "load_env \<Rightarrow> (string, (Config \<Rightarrow> (string, Config) result) option) result \<Rightarrow> (load_error, Config) result" where
  "Load le file =
     (case (case file of Err e \<Rightarrow> Err (LReadFile e) | Ok None \<Rightarrow> Ok Default | Ok (Some decode) \<Rightarrow> (case decode Default of Err e \<Rightarrow> Err (LParse e) | Ok c \<Rightarrow> Ok c)) of
        Err e \<Rightarrow> Err e
      | Ok c \<Rightarrow>
          let c' = applyEnvOverrides (ld_env le) (ld_parseFloat le) c in
          case validate (ld_parseDuration le) (ld_backends le) (ld_modes le) c' of Some e \<Rightarrow> Err (LInvalid e) | None \<Rightarrow> Ok c')"

text \<open>\<open>Run\<close> goes on past its check of the address and the authentication.\<close>

definition starts :: "(string \<Rightarrow> Addr option) \<Rightarrow> Config \<Rightarrow> bool" where
  "starts parseIP c \<longleftrightarrow> \<not> checkNoAuthBindSafety parseIP (c_Auth c) (c_DevInsecure c) (sc_HTTPAddr (c_Server c))"

subsection \<open>What a loaded configuration guarantees\<close>

lemma first_error_None: "first_error es = None \<longleftrightarrow> list_all (\<lambda>e. e = None) es"
  by (induction es) (auto simp: first_error_def)

lemma Load_Ok:
  assumes "Load le file = Ok c"
  shows "validate (ld_parseDuration le) (ld_backends le) (ld_modes le) c = None"
    "\<exists>c0. c = applyEnvOverrides (ld_env le) (ld_parseFloat le) c0"
  using assms by (auto simp: Load_def Let_def split: sum.splits option.splits)

lemma validate_auth: "validate pd bs ms c = None \<Longrightarrow> checkAuth ms (c_Auth c) = None"
  unfolding validate_def first_error_None by simp

text \<open>An authentication configuration that passes validation can be used: where no other modes are registered, the provider is built, unless the discovery of the OIDC issuer fails.\<close>

theorem loaded_auth_builds:
  assumes "Load le file = Ok c" "ac_Enabled (c_Auth c)" "\<forall>m. \<not> listerHas (ld_modes le) m"
  shows "(\<exists>p. lookupProvider ax (c_Auth c) = Ok p) \<or> (\<exists>e. lookupProvider ax (c_Auth c) = Err (Discovery e))"
proof -
  let ?a = "c_Auth c"
  have n: "checkAuth (ld_modes le) ?a = None" using validate_auth [OF Load_Ok(1) [OF assms(1)]] .
  have m: "ac_Mode ?a \<in> {''apikey'', ''oauth'', ''oidc'', ''''}" using n assms(2,3) unfolding checkAuth_def by (simp split: if_splits)
  have k: "ac_Mode ?a \<in> {''apikey'', ''oauth'', ''''} \<Longrightarrow> ac_APIKeys ?a \<noteq> []"
    and o: "ac_Mode ?a = ''oidc'' \<Longrightarrow> oc_Audience (ac_OIDC ?a) \<noteq> ''''"
    using n assms(2) m unfolding checkAuth_def by (auto split: if_splits)
  show ?thesis using m k o by (auto simp: lookupProvider_def or_default_def Let_def split: option.split)
qed

text \<open>C32: From the configuration to the request: a server that was started from a loaded configuration on an address of the network, without the explicit switch, requires authentication, with
  at least one key, an OIDC issuer and audience, or a registered mode; and it refuses every request without a token on a protected path.\<close>

theorem network_server_authenticates:
  assumes "Load le file = Ok c" "starts parseIP c" "\<not> isLoopbackBind parseIP (sc_HTTPAddr (c_Server c))" "\<not> c_DevInsecure c"
    "protected_path (q_Path req)" "\<not> always_public (q_Path req)" "\<not> isRegisteredPublic pub (q_Path req)" "ax_bearer ax (q_Authorization req) = None"
  shows "ac_Enabled (c_Auth c) \<and>
    (ac_APIKeys (c_Auth c) \<noteq> [] \<or> (oc_Issuer (ac_OIDC (c_Auth c)) \<noteq> '''' \<and> oc_Audience (ac_OIDC (c_Auth c)) \<noteq> '''') \<or> listerHas (ld_modes le) (ac_Mode (c_Auth c))) \<and>
    (\<exists>st' n. serve ax (c_Auth c) pub p us now req st = (st', Refused n))"
proof -
  have e: "ac_Enabled (c_Auth c)" using assms(2-4) by (simp add: starts_def checkNoAuthBindSafety_def split: if_splits)
  have n: "checkAuth (ld_modes le) (c_Auth c) = None" using validate_auth [OF Load_Ok(1) [OF assms(1)]] .
  have "ac_APIKeys (c_Auth c) \<noteq> [] \<or> (oc_Issuer (ac_OIDC (c_Auth c)) \<noteq> '''' \<and> oc_Audience (ac_OIDC (c_Auth c)) \<noteq> '''') \<or> listerHas (ld_modes le) (ac_Mode (c_Auth c))"
    using n e unfolding checkAuth_def by (auto split: if_splits)
  moreover have "\<exists>st' n. serve ax (c_Auth c) pub p us now req st = (st', Refused n)"
    using e assms(5-8) by (auto simp: serve_def Let_def SkipAuthPaths_def authMiddleware_def tokenMiddleware_def)
  ultimately show ?thesis using e by blast
qed

subsection \<open>Defaults and switches\<close>

definition plain_env :: load_env where
  "plain_env = \<lparr>ld_env = (\<lambda>_. ''''), ld_parseFloat = (\<lambda>_. None), ld_parseDuration = (\<lambda>s. if s = ''1h'' then Some (60 * minute) else if s = ''24h'' then Some (1440 * minute) else if s = ''0s'' then Some 0 else None), ld_backends = None, ld_modes = None\<rparr>"

text \<open>What evaluates the loading of a concrete configuration.\<close>

lemmas load_eval = Load_def plain_env_def applyEnvOverrides_def envServer_def envAuth_def envTLS_def envLimits_def envGC_def envTracing_def env_str_def env_bool_def env_int_def
  Default_def validate_def first_error_def checkAuth_def no_oidc_def Let_def

text \<open>Without a file and without variables the defaults are loaded, and they are valid; but the server they describe, which only talks over its standard input and output, refuses to start,
  because the address that it would not listen on is not a loopback address.\<close>

theorem default_server_does_not_start:
  "Load plain_env (Ok None) = Ok Default \<and> sc_Transport (c_Server Default) = ''stdio'' \<and> \<not> starts parseIP Default"
  by (simp add: load_eval starts_def checkNoAuthBindSafety_def isLoopbackBind_def SplitHostPort_def LastIndexByte_def)

text \<open>A switch in the environment that is set to anything but a truth value is off: \<open>VIBED_AUTH_ENABLED=yes\<close> disables the authentication that the file enables, without an error.\<close>

theorem unparsable_switch_disables_auth:
  assumes "Load le file = Ok c" "ld_env le ''VIBED_AUTH_ENABLED'' = ''yes''" "ld_env le ''VIBED_AUTH_API_KEY'' = ''''"
  shows "\<not> ac_Enabled (c_Auth c)"
  using Load_Ok(2) [OF assms(1)] assms(2,3) by (auto simp: applyEnvOverrides_def envAuth_def env_bool_def ParseBool_def Let_def)

definition keyed_file :: "Config \<Rightarrow> (string, Config) result" where
  "keyed_file c = Ok (c\<lparr>c_Auth := (c_Auth c)\<lparr>ac_Enabled := True, ac_APIKeys := [env_key ''s3cret'']\<rparr>\<rparr>)"

lemma keyed_loads:
  "Load plain_env (Ok (Some keyed_file)) = Ok (Default\<lparr>c_Auth := (c_Auth Default)\<lparr>ac_Enabled := True, ac_APIKeys := [env_key ''s3cret'']\<rparr>\<rparr>)"
  "Load (plain_env\<lparr>ld_env := (\<lambda>_. '''')(''VIBED_AUTH_ENABLED'' := ''yes'')\<rparr>) (Ok (Some keyed_file)) = Ok (Default\<lparr>c_Auth := (c_Auth Default)\<lparr>ac_APIKeys := [env_key ''s3cret'']\<rparr>\<rparr>)"
  by (simp_all add: load_eval keyed_file_def env_key_def ParseBool_def)

theorem unparsable_switch_disables_auth_witness:
  "\<not> ac_Enabled (c_Auth (Default\<lparr>c_Auth := (c_Auth Default)\<lparr>ac_APIKeys := [env_key ''s3cret'']\<rparr>\<rparr>))"
  by (rule unparsable_switch_disables_auth [OF keyed_loads(2)]) (simp_all add: plain_env_def)

theorem loaded_auth_builds_witness:
  "(\<exists>p. lookupProvider Auth_Facts.sample_env (c_Auth (Default\<lparr>c_Auth := (c_Auth Default)\<lparr>ac_Enabled := True, ac_APIKeys := [env_key ''s3cret'']\<rparr>\<rparr>)) = Ok p) \<or>
   (\<exists>e. lookupProvider Auth_Facts.sample_env (c_Auth (Default\<lparr>c_Auth := (c_Auth Default)\<lparr>ac_Enabled := True, ac_APIKeys := [env_key ''s3cret'']\<rparr>\<rparr>)) = Err (Discovery e))"
  by (rule loaded_auth_builds [OF keyed_loads(1)]) (simp_all add: plain_env_def listerHas_def)

theorem network_server_authenticates_witness:
  "\<exists>st' n. serve (Auth_Facts.sample_env\<lparr>ax_bearer := (\<lambda>_. None)\<rparr>) (c_Auth (Default\<lparr>c_Auth := (c_Auth Default)\<lparr>ac_Enabled := True, ac_APIKeys := [env_key ''s3cret'']\<rparr>\<rparr>)) []
     (PApiKey [sample_key]) None 1 Auth_Facts.sample_req (Auth_Facts.sample_state [] (newTTLCache 0 0)) = (st', Refused n)"
  using network_server_authenticates [OF keyed_loads(1), of "\<lambda>_. None" Auth_Facts.sample_req "[]" "Auth_Facts.sample_env\<lparr>ax_bearer := (\<lambda>_. None)\<rparr>" "PApiKey [sample_key]"
      None 1 "Auth_Facts.sample_state [] (newTTLCache 0 0)"] sample_paths
  by (auto simp: Default_def starts_def checkNoAuthBindSafety_def isLoopbackBind_def SplitHostPort_def LastIndexByte_def)

text \<open>An interval of zero passes the validation, although the collector's ticker panics on it.\<close>

theorem zero_gc_interval_is_valid:
  "validate (ld_parseDuration plain_env) None None (Default\<lparr>c_GC := (c_GC Default)\<lparr>gcc_Interval := ''0s''\<rparr>\<rparr>) = None \<and> ld_parseDuration plain_env ''0s'' = Some 0"
  by (simp add: plain_env_def validate_def first_error_def checkAuth_def Default_def)

end
