(* ===== verification/Extensions.thy ===== *)
theory Extensions
  imports Config
begin

section \<open>Registries, sinks and readiness\<close>

text \<open>
  The seams for modules outside the tree: the registries of store backends (\<open>src/internal/store/registry.go\<close>), auth modes (\<open>src/internal/auth/registry.go\<close>) and secret schemes
  (\<open>src/internal/config/resolve.go\<close>), the slots for one authorizer, policy gate, tenant resolver and meter, the contributed routes, the entitlements, the meter sinks,
  the readiness checker (\<open>src/internal/health\<close>), and \<open>LoadConfig\<close> of \<open>src/pkg/server/server.go\<close>, which gives the names in the registries to the validation.

  A registry is the list of its entries; a panic is \<open>None\<close>.
\<close>

subsection \<open>Named registries\<close>

type_synonym 'f named = "(string \<times> 'f) list"

definition sorted_names :: "'f named \<Rightarrow> string list" where
  "sorted_names r = sort (map fst r)"

definition Register :: "string \<Rightarrow> 'f option \<Rightarrow> 'f named \<Rightarrow> 'f named option" where
  "Register name f r = (case f of None \<Rightarrow> None | Some g \<Rightarrow> if map_of r name \<noteq> None then None else Some ((name, g) # r))"

datatype 'e backend_error = UnknownBackend string "string list" | BackendFailed 'e

definition store_New :: "('d \<Rightarrow> ('e, 's) result) named \<Rightarrow> string \<Rightarrow> 'd \<Rightarrow> ('e backend_error, 's) result" where
  "store_New r backend deps = (case map_of r backend of
      None \<Rightarrow> Err (UnknownBackend backend (sorted_names r))
    | Some f \<Rightarrow> (case f deps of Err e \<Rightarrow> Err (BackendFailed e) | Ok s \<Rightarrow> Ok s))"

definition Backends :: "'f named \<Rightarrow> string list" where
  "Backends r = sorted_names r"

definition RegisterProvider :: "string \<Rightarrow> 'f option \<Rightarrow> 'f named \<Rightarrow> 'f named option" where
  "RegisterProvider mode f r = (case f of None \<Rightarrow> None | Some g \<Rightarrow> if map_of r mode \<noteq> None then None else Some ((mode, g) # r))"

text \<open>The empty mode is the mode of API keys.\<close>

definition providerFactory :: "'f named \<Rightarrow> string \<Rightarrow> 'f option" where
  "providerFactory r mode = map_of r (if mode = '''' then ''apikey'' else mode)"

definition Providers :: "'f named \<Rightarrow> string list" where
  "Providers r = sorted_names r"

definition RegisterScheme :: "string \<Rightarrow> 'f option \<Rightarrow> 'f named \<Rightarrow> 'f named option" where
  "RegisterScheme scheme f r =
     (if scheme = '''' \<or> f = None then None else if map_of r scheme \<noteq> None then None else Some ((scheme, the f) # r))"

text \<open>The \<open>init\<close> functions of a program, in the order in which they run; a panic ends it.\<close>

primrec registerAll :: "(string \<Rightarrow> 'f option \<Rightarrow> 'r \<Rightarrow> 'r option) \<Rightarrow> (string \<times> 'f option) list \<Rightarrow> 'r \<Rightarrow> 'r option" where
  "registerAll reg [] r = Some r"
| "registerAll reg (x # xs) r = (case reg (fst x) (snd x) r of None \<Rightarrow> None | Some r' \<Rightarrow> registerAll reg xs r')"

text \<open>What the users of a registry rely on.\<close>

locale named_registry =
  fixes register :: "string \<Rightarrow> 'f option \<Rightarrow> 'r \<Rightarrow> 'r option"
    and lookup :: "'r \<Rightarrow> string \<Rightarrow> 'f option"
    and names :: "'r \<Rightarrow> string list"
    and inv :: "'r \<Rightarrow> bool"
  assumes register_adds: "inv r \<Longrightarrow> register n f r = Some r' \<Longrightarrow> inv r' \<and> lookup r n = None \<and> (\<exists>g. f = Some g \<and> lookup r' = (lookup r)(n \<mapsto> g))"
    and names_exact: "inv r \<Longrightarrow> set (names r) = dom (lookup r) \<and> sorted (names r) \<and> distinct (names r)"
begin

lemma registerAll_adds:
  "inv r \<Longrightarrow> registerAll register xs r = Some r' \<Longrightarrow>
     inv r' \<and> distinct (map fst xs) \<and> (\<forall>x\<in>set xs. lookup r (fst x) = None \<and> snd x \<noteq> None) \<and>
     lookup r' = lookup r ++ map_of (map (\<lambda>x. (fst x, the (snd x))) xs)"
proof (induction xs arbitrary: r)
  case (Cons x xs)
  obtain n f where x: "x = (n, f)" by fastforce
  with Cons.prems obtain r1 where r1: "register n f r = Some r1" and rest: "registerAll register xs r1 = Some r'"
    by (auto split: option.splits)
  from register_adds [OF Cons.prems(1) r1] obtain g where g: "inv r1" "lookup r n = None" "f = Some g" "lookup r1 = (lookup r)(n \<mapsto> g)" by blast
  note ih = Cons.IH [OF g(1) rest]
  have n: "n \<notin> fst ` set xs"
  proof
    assume "n \<in> fst ` set xs"
    then obtain y where "y \<in> set xs" "n = fst y" by blast
    then have "lookup r1 n = None" using ih by simp
    then show False using g(4) by simp
  qed
  then have m: "map_of (map (\<lambda>x. (fst x, the (snd x))) xs) n = None" by (simp add: map_of_eq_None_iff image_image)
  have "lookup r' = lookup r ++ map_of (map (\<lambda>x. (fst x, the (snd x))) (x # xs))"
    using conjunct2 [OF conjunct2 [OF conjunct2 [OF ih]]] g(3,4) m by (simp add: x fun_eq_iff map_add_def split: option.split)
  moreover have "distinct (map fst (x # xs))" using ih n by (simp add: x)
  moreover have "\<forall>y\<in>set (x # xs). lookup r (fst y) = None \<and> snd y \<noteq> None"
  proof
    fix y assume "y \<in> set (x # xs)"
    then consider "y = x" | "y \<in> set xs" "fst y \<noteq> n" using n by auto
    then show "lookup r (fst y) = None \<and> snd y \<noteq> None"
    proof cases
      case 2
      then have "lookup r1 (fst y) = None \<and> snd y \<noteq> None" using ih by blast
      then show ?thesis using g(4) 2 by simp
    qed (simp add: x g)
  qed
  ultimately show ?case using ih by blast
qed simp

text \<open>No registration is lost or replaced: what was registered is found under its name, and the names are those of the registrations and of what was there before.\<close>

lemma registered_are_found:
  assumes "inv r" "registerAll register xs r = Some r'"
  shows "(n, Some g) \<in> set xs \<Longrightarrow> lookup r' n = Some g" "lookup r n = Some g \<Longrightarrow> lookup r' n = Some g"
    "set (names r') = set (names r) \<union> fst ` set xs"
proof -
  note a = registerAll_adds [OF assms]
  let ?m = "map_of (map (\<lambda>x. (fst x, the (snd x))) xs)"
  show "lookup r' n = Some g" if "(n, Some g) \<in> set xs"
  proof -
    have "distinct (map fst (map (\<lambda>x. (fst x, the (snd x))) xs))" using a by (simp add: comp_def)
    moreover have "(n, g) \<in> set (map (\<lambda>x. (fst x, the (snd x))) xs)" using imageI [OF that, of "\<lambda>x. (fst x, the (snd x))"] by simp
    ultimately have "?m n = Some g" by (simp del: map_map)
    then show ?thesis using a by simp
  qed
  show "lookup r' n = Some g" if "lookup r n = Some g"
  proof -
    have "n \<notin> fst ` set xs" using a that by force
    then have "?m n = None" by (simp add: map_of_eq_None_iff image_image)
    then show ?thesis using a that by (simp add: map_add_def)
  qed
  have "dom ?m = fst ` set xs" by (simp add: dom_map_of_conv_image_fst image_image)
  then show "set (names r') = set (names r) \<union> fst ` set xs" using a names_exact assms(1) by (metis dom_map_add sup_commute)
qed

end

definition reg_inv :: "'f named \<Rightarrow> bool" where
  "reg_inv r \<longleftrightarrow> distinct (map fst r)"

lemma sorted_names_exact: "reg_inv r \<Longrightarrow> set (sorted_names r) = dom (map_of r) \<and> sorted (sorted_names r) \<and> distinct (sorted_names r)"
  by (simp add: reg_inv_def sorted_names_def dom_map_of_conv_image_fst)

lemma reg_inv_Cons: "reg_inv r \<Longrightarrow> map_of r n = None \<Longrightarrow> reg_inv ((n, g) # r)"
  by (simp add: reg_inv_def map_of_eq_None_iff)

interpretation stores: named_registry Register map_of Backends reg_inv
  by unfold_locales (auto simp: Register_def Backends_def sorted_names_exact reg_inv_Cons split: option.splits if_splits)

interpretation providers: named_registry RegisterProvider map_of Providers reg_inv
  by unfold_locales (auto simp: RegisterProvider_def Providers_def sorted_names_exact reg_inv_Cons split: option.splits if_splits)

interpretation schemes: named_registry RegisterScheme map_of sorted_names reg_inv
  by unfold_locales (auto simp: RegisterScheme_def sorted_names_exact reg_inv_Cons split: option.splits if_splits)

subsection \<open>The configured backend and mode exist\<close>

text \<open>The registrations of the core: of the store package and of the auth package.\<close>

definition builtinStores :: "'f \<Rightarrow> 'f \<Rightarrow> 'f \<Rightarrow> (string \<times> 'f option) list" where
  "builtinStores configmap memory sqlite = [(''configmap'', Some configmap), (''memory'', Some memory), (''sqlite'', Some sqlite)]"

definition builtinModes :: "'f \<Rightarrow> 'f \<Rightarrow> 'f \<Rightarrow> (string \<times> 'f option) list" where
  "builtinModes apikey oauth oidc = [(''apikey'', Some apikey), (''oauth'', Some oauth), (''oidc'', Some oidc)]"

definition LoadConfig :: "load_env \<Rightarrow> 'f named \<Rightarrow> 'g named \<Rightarrow> (string, (Config \<Rightarrow> (string, Config) result) option) result \<Rightarrow> (load_error, Config) result" where
  "LoadConfig le stores modes file = Load (le\<lparr>ld_backends := Some (\<lambda>_. Backends stores), ld_modes := Some (\<lambda>_. Providers modes)\<rparr>) file"

lemma validate_parts:
  assumes "validate pd bs ms c = None"
  shows "sc_Transport (c_Server c) \<in> {''stdio'', ''http'', ''both''}"
    "so_Backend (c_Store c) \<in> {''memory'', ''configmap'', ''sqlite''} \<or> listerHas bs (so_Backend (c_Store c))"
    "checkAuth ms (c_Auth c) = None"
  using assms unfolding validate_def first_error_None by (auto split: if_splits)

lemma core_stores:
  assumes "registerAll Register (builtinStores f g h @ xs) [] = Some stores"
  shows "map_of stores b \<noteq> None \<longleftrightarrow> b \<in> {''memory'', ''configmap'', ''sqlite''} \<or> listerHas (Some (\<lambda>_. Backends stores)) b"
proof -
  have i: "reg_inv []" by (simp add: reg_inv_def)
  note a = stores.registerAll_adds [OF i assms] and n = stores.registered_are_found(3) [OF i assms]
  have "map_of stores b \<noteq> None \<longleftrightarrow> b \<in> set (Backends stores)" using stores.names_exact a by (metis domIff)
  then show ?thesis using n by (auto simp: listerHas_def builtinStores_def)
qed

lemma core_modes:
  assumes "registerAll RegisterProvider (builtinModes f g h @ xs) [] = Some modes"
  shows "providerFactory modes m \<noteq> None \<longleftrightarrow> m \<in> {''apikey'', ''oauth'', ''oidc'', ''''} \<or> listerHas (Some (\<lambda>_. Providers modes)) m"
proof -
  have i: "reg_inv []" by (simp add: reg_inv_def)
  note a = providers.registerAll_adds [OF i assms] and n = providers.registered_are_found(3) [OF i assms]
  have "map_of modes k \<noteq> None \<longleftrightarrow> k \<in> set (Providers modes)" for k using providers.names_exact a by (metis domIff)
  then show ?thesis using n by (auto simp: listerHas_def builtinModes_def providerFactory_def)
qed

lemma configured_names:
  assumes "registerAll Register (builtinStores f g h @ xs) [] = Some stores" "registerAll RegisterProvider (builtinModes f' g' h' @ ys) [] = Some modes"
    "LoadConfig le stores modes file = Ok c"
  shows "map_of stores (so_Backend (c_Store c)) \<noteq> None" "ac_Enabled (c_Auth c) \<Longrightarrow> providerFactory modes (ac_Mode (c_Auth c)) \<noteq> None"
    "sc_Transport (c_Server c) \<in> {''stdio'', ''http'', ''both''}"
proof -
  note v = validate_parts [OF Load_Ok(1) [OF assms(3) [unfolded LoadConfig_def]], simplified]
  show "map_of stores (so_Backend (c_Store c)) \<noteq> None" using v(2) unfolding core_stores [OF assms(1)] by simp
  show "providerFactory modes (ac_Mode (c_Auth c)) \<noteq> None" if "ac_Enabled (c_Auth c)"
    unfolding core_modes [OF assms(2)] using v(3) that by (auto simp: checkAuth_def split: if_splits)
  show "sc_Transport (c_Server c) \<in> {''stdio'', ''http'', ''both''}" using v(1) by simp
qed

text \<open>Validation and registries agree.  With whatever backends and modes are registered besides the built-in ones, a configuration that loads names a backend that is registered, so
  that opening the store never fails for an unknown name, and, if authentication is on, a registered mode; and its transport is one that \<open>Run\<close> knows.\<close>

theorem configured_extensions_exist:
  assumes "registerAll Register (builtinStores f g h @ xs) [] = Some stores" "registerAll RegisterProvider (builtinModes f' g' h' @ ys) [] = Some modes"
    "LoadConfig le stores modes file = Ok c"
  shows "(\<forall>d ns. store_New stores (so_Backend (c_Store c)) d \<noteq> Err (UnknownBackend (so_Backend (c_Store c)) ns)) \<and>
    (ac_Enabled (c_Auth c) \<longrightarrow> providerFactory modes (ac_Mode (c_Auth c)) \<noteq> None) \<and> sc_Transport (c_Server c) \<in> {''stdio'', ''http'', ''both''}"
  using configured_names [OF assms] by (auto simp: store_New_def split: sum.splits)

text \<open>A program with one backend more.\<close>

definition pg_stores :: "(unit \<Rightarrow> (string, unit) result) named" where
  "pg_stores = map (\<lambda>n. (n, Ok)) [''postgres'', ''sqlite'', ''memory'', ''configmap'']"

definition pg_modes :: "unit named" where
  "pg_modes = map (\<lambda>n. (n, ())) [''oidc'', ''oauth'', ''apikey'']"

definition pg_file :: "Config \<Rightarrow> (string, Config) result" where
  "pg_file c = Ok (c\<lparr>c_Store := (c_Store c)\<lparr>so_Backend := ''postgres''\<rparr>\<rparr>)"

lemma pg_program:
  "registerAll Register (builtinStores Ok Ok Ok @ [(''postgres'', Some Ok)]) [] = Some pg_stores"
  "registerAll RegisterProvider (builtinModes () () () @ []) [] = Some pg_modes"
  "LoadConfig plain_env pg_stores pg_modes (Ok (Some pg_file)) = Ok (Default\<lparr>c_Store := (c_Store Default)\<lparr>so_Backend := ''postgres''\<rparr>\<rparr>)"
  by (simp_all add: builtinStores_def builtinModes_def Register_def RegisterProvider_def pg_stores_def pg_modes_def pg_file_def)
    (simp add: pg_file_def pg_stores_def LoadConfig_def load_eval listerHas_def Backends_def sorted_names_def)

theorem configured_extensions_exist_witness:
  "store_New pg_stores ''postgres'' () \<noteq> Err (UnknownBackend ''postgres'' (Backends pg_stores))"
  using configured_extensions_exist [OF pg_program] by simp

subsection \<open>Slots for one implementation\<close>

text \<open>The authorizer, the policy gate, the tenant resolver and the meter: at most one factory each, which may not be replaced.\<close>

definition slot_Register :: "'f option \<Rightarrow> 'f option \<Rightarrow> 'f option option" where
  "slot_Register f cur = (if cur \<noteq> None then None else Some f)"

definition authz_Build :: "('d \<Rightarrow> ('e, 'a option) result) option \<Rightarrow> 'd \<Rightarrow> ('e, 'a option) result" where
  "authz_Build cur deps = (case cur of Some f \<Rightarrow> f deps | None \<Rightarrow> Ok None)"

definition policy_Build :: "('d \<Rightarrow> ('e, 'a option) result) option \<Rightarrow> 'd \<Rightarrow> ('e, 'a option) result" where
  "policy_Build cur deps = (case cur of Some f \<Rightarrow> f deps | None \<Rightarrow> Ok None)"

text \<open>A resolver gives the tenant of a request; without a registered one every request runs in the default tenant.\<close>

type_synonym resolver = "req_context \<Rightarrow> (string, Tenant) result"

definition Single :: "Tenant \<Rightarrow> resolver" where
  "Single t cx = Ok t"

definition tenant_Build :: "(Tenant \<Rightarrow> ('e, resolver) result) option \<Rightarrow> Tenant \<Rightarrow> ('e, resolver) result" where
  "tenant_Build cur dflt = (case cur of Some f \<Rightarrow> f dflt | None \<Rightarrow> Ok (Single dflt))"

text \<open>A sink acts on a state; \<open>None\<close> is a nil sink.\<close>

type_synonym 's sink = "MeterEvent \<Rightarrow> 's \<Rightarrow> 's"

definition Nop :: "'s sink" where
  "Nop e s = s"

type_synonym counters = "string \<times> string \<Rightarrow> nat"

definition prom_Record :: "counters sink" where
  "prom_Record e c = (let k = (me_Kind e, if me_Tenant e = '''' then ''default'' else me_Tenant e) in c(k := c k + 1))"

definition Tee :: "'s sink option list \<Rightarrow> 's sink" where
  "Tee sinks e s = fold (\<lambda>k s. case k of None \<Rightarrow> s | Some f \<Rightarrow> f e s) sinks s"

definition meter_Build :: "('d \<Rightarrow> ('e, counters sink) result) option \<Rightarrow> 'd \<Rightarrow> ('e, counters sink) result" where
  "meter_Build cur deps = (case cur of Some f \<Rightarrow> f deps | None \<Rightarrow> Ok prom_Record)"

text \<open>The counters count: the value for a kind and a tenant is the number of its events, where an event without a tenant belongs to the default one.\<close>

lemma prom_counts:
  "fold prom_Record es c (k, t) = c (k, t) + length (filter (\<lambda>e. me_Kind e = k \<and> (if me_Tenant e = '''' then ''default'' else me_Tenant e) = t) es)"
  by (induction es arbitrary: c) (auto simp: prom_Record_def Let_def)

lemma tee_nil_is_nop: "Tee (filter (\<lambda>k. k \<noteq> None) sinks) e s = Tee sinks e s"
  by (induction sinks arbitrary: s) (auto simp: Tee_def)

subsection \<open>Entitlements\<close>

record Entitlements =
  en_Edition :: string
  en_Enabled :: "string \<Rightarrow> bool"

definition community :: Entitlements where
  "community = \<lparr>en_Edition = ''community'', en_Enabled = (\<lambda>_. False)\<rparr>"

definition ent_Set :: "Entitlements option \<Rightarrow> Entitlements \<Rightarrow> Entitlements" where
  "ent_Set e cur = (case e of None \<Rightarrow> community | Some x \<Rightarrow> x)"

definition Require :: "Entitlements \<Rightarrow> string \<Rightarrow> string option" where
  "Require cur feature =
     (if en_Enabled cur feature then None
      else Some (''feature '' @ Quote feature @ '' is not available in the '' @ Quote (en_Edition cur) @ '' edition''))"

subsection \<open>Contributed routes\<close>

record 'h Route =
  ro_Pattern :: string
  ro_Handler :: 'h
  ro_Public :: bool

definition routes_Register :: "'f \<Rightarrow> 'f list \<Rightarrow> 'f list" where
  "routes_Register f fs = fs @ [f]"

fun routes_Build :: "('d \<Rightarrow> ('e, 'h Route list) result) list \<Rightarrow> 'd \<Rightarrow> ('e, 'h Route list) result" where
  "routes_Build [] deps = Ok []"
| "routes_Build (f # fs) deps = (case f deps of
      Err e \<Rightarrow> Err e
    | Ok rs \<Rightarrow> (case routes_Build fs deps of Err e \<Rightarrow> Err e | Ok rest \<Rightarrow> Ok (rs @ rest)))"

definition RegisterPublicPrefix :: "string \<Rightarrow> string list \<Rightarrow> string list" where
  "RegisterPublicPrefix prefix ps = (if prefix = '''' then ps else ps @ [prefix])"

text \<open>Mounting: the patterns that the multiplexer gets, and the paths that are exempt from authentication.\<close>

definition mountRoutes :: "'h Route list \<Rightarrow> string list \<Rightarrow> (string \<times> 'h) list \<times> string list" where
  "mountRoutes rs ps = (map (\<lambda>r. (ro_Pattern r, ro_Handler r)) rs,
     fold (\<lambda>r ps. if ro_Public r then RegisterPublicPrefix (routePath (ro_Pattern r)) ps else ps) rs ps)"

lemma mount_public:
  "set (snd (mountRoutes rs ps)) = set ps \<union> {routePath (ro_Pattern r) | r. r \<in> set rs \<and> ro_Public r \<and> routePath (ro_Pattern r) \<noteq> ''''}"
proof (induction rs arbitrary: ps)
  case (Cons r rs)
  show ?case using Cons [of "if ro_Public r then RegisterPublicPrefix (routePath (ro_Pattern r)) ps else ps"]
    by (auto simp: mountRoutes_def RegisterPublicPrefix_def)
qed (simp add: mountRoutes_def)

lemma registered_public_iff:
  "isRegisteredPublic (snd (mountRoutes rs [])) path \<longleftrightarrow>
     (\<exists>r\<in>set rs. ro_Public r \<and> routePath (ro_Pattern r) \<noteq> '''' \<and> HasPrefix path (routePath (ro_Pattern r)))"
  using mount_public [of rs "[]"] by (auto simp: isRegisteredPublic_def list_ex_iff)

text \<open>What a module can open: after the contributed routes are mounted, with authentication on, a protected path is served without a token only if it begins with the path of a
  route that a module declared public; routes that are not declared public open nothing.\<close>

theorem only_declared_paths_are_open:
  assumes "ac_Enabled cfg" "protected_path (q_Path req)" "\<not> always_public (q_Path req)" "ax_bearer ax (q_Authorization req) = None"
    "serve ax cfg (snd (mountRoutes rs [])) p us now req st = (st', Handled cx)"
  shows "\<exists>r\<in>set rs. ro_Public r \<and> HasPrefix (q_Path req) (routePath (ro_Pattern r))"
proof (rule ccontr)
  assume "\<not> ?thesis"
  then have "\<not> isRegisteredPublic (snd (mountRoutes rs [])) (q_Path req)" unfolding registered_public_iff by blast
  then show False using assms by (auto simp: serve_def Let_def SkipAuthPaths_def authMiddleware_def tokenMiddleware_def)
qed

theorem only_declared_paths_are_open_witness:
  "\<exists>r\<in>set [\<lparr>ro_Pattern = ''GET /v1/scim'', ro_Handler = (), ro_Public = True\<rparr>]. ro_Public r \<and> HasPrefix ''/v1/scim/users'' (routePath (ro_Pattern r))"
proof -
  let ?rs = "[\<lparr>ro_Pattern = ''GET /v1/scim'', ro_Handler = (), ro_Public = True\<rparr>]"
  let ?ax = "Auth_Facts.sample_env\<lparr>ax_bearer := (\<lambda>_. None)\<rparr>" let ?req = "Auth_Facts.sample_req\<lparr>q_Path := ''/v1/scim/users''\<rparr>"
  let ?cfg = "(c_Auth Default)\<lparr>ac_Enabled := True, ac_APIKeys := [env_key ''s3cret'']\<rparr>" let ?st = "Auth_Facts.sample_state [] (newTTLCache 0 0)"
  have "isRegisteredPublic (snd (mountRoutes ?rs [])) ''/v1/scim/users''"
    unfolding registered_public_iff by (simp add: routePath_def LastIndexByte_def HasPrefix_def)
  then have "serve ?ax ?cfg (snd (mountRoutes ?rs [])) (PApiKey []) None 1 ?req ?st = (?st, Handled background)"
    by (simp add: serve_def Let_def SkipAuthPaths_def RoleMiddleware_def UserIDFromContext_def background_def)
  from only_declared_paths_are_open [OF _ _ _ _ this] show ?thesis by (simp add: protected_path_def always_public_def HasPrefix_def)
qed

text \<open>The comparison is textual.  A public route whose pattern has a wildcard is not exempted at all, and a public route opens every path that continues its own, also within a segment:
  one at \<open>/v1/a\<close> opens \<open>/v1/apps\<close>.\<close>

theorem public_pattern_is_a_prefix:
  "\<not> isRegisteredPublic (snd (mountRoutes [\<lparr>ro_Pattern = ''GET /v1/scim/{id}'', ro_Handler = h, ro_Public = True\<rparr>] [])) ''/v1/scim/42'' \<and>
   isRegisteredPublic (snd (mountRoutes [\<lparr>ro_Pattern = ''GET /v1/a'', ro_Handler = h, ro_Public = True\<rparr>] [])) ''/v1/apps''"
  unfolding registered_public_iff by (simp add: routePath_def LastIndexByte_def HasPrefix_def)

subsection \<open>Readiness\<close>

record ComponentStatus =
  co_Ready :: bool
  co_Message :: string

type_synonym Checker = "(string \<times> ComponentStatus) list"

definition NewChecker :: Checker where
  "NewChecker = []"

definition put_component :: "string \<Rightarrow> ComponentStatus \<Rightarrow> Checker \<Rightarrow> Checker" where
  "put_component name x c = (name, x) # filter (\<lambda>(n, _). n \<noteq> name) c"

definition SetReady :: "string \<Rightarrow> Checker \<Rightarrow> Checker" where
  "SetReady name c = put_component name \<lparr>co_Ready = True, co_Message = ''''\<rparr> c"

definition SetNotReady :: "string \<Rightarrow> string \<Rightarrow> Checker \<Rightarrow> Checker" where
  "SetNotReady name message c = put_component name \<lparr>co_Ready = False, co_Message = message\<rparr> c"

definition checker_IsReady :: "Checker \<Rightarrow> bool" where
  "checker_IsReady c = list_all (\<lambda>(_, x). co_Ready x) c"

definition ReadinessHandler :: "Checker \<Rightarrow> nat \<times> string \<times> Checker" where
  "ReadinessHandler c = (if list_all (\<lambda>(_, x). co_Ready x) c then (200, ''ready'', c) else (503, ''not_ready'', c))"

datatype report = RReady string | RNotReady string string

fun report_name :: "report \<Rightarrow> string" where
  "report_name (RReady n) = n"
| "report_name (RNotReady n m) = n"

fun apply_report :: "report \<Rightarrow> Checker \<Rightarrow> Checker" where
  "apply_report (RReady n) c = SetReady n c"
| "apply_report (RNotReady n m) c = SetNotReady n m c"

text \<open>The reports of \<open>Run\<close> on its way to serving.\<close>

definition startup :: "report list" where
  "startup = [RNotReady ''kubernetes'' ''connecting'', RReady ''kubernetes'', RNotReady ''store'' ''initializing'', RReady ''store'', RReady ''server'']"

lemma put_component_set: "set (put_component n x c) = insert (n, x) {y \<in> set c. fst y \<noteq> n}"
  by (auto simp: put_component_def)

lemma components_after:
  "(n, x) \<in> set (fold apply_report rs c) \<longleftrightarrow>
     (case find (\<lambda>r. report_name r = n) (rev rs) of
        Some (RReady _) \<Rightarrow> x = \<lparr>co_Ready = True, co_Message = ''''\<rparr>
      | Some (RNotReady _ m) \<Rightarrow> x = \<lparr>co_Ready = False, co_Message = m\<rparr>
      | None \<Rightarrow> (n, x) \<in> set c)"
proof (induction rs rule: rev_induct)
  case (snoc r rs)
  then show ?case by (cases r) (auto simp: SetReady_def SetNotReady_def put_component_set)
qed simp

text \<open>The readiness endpoint answers 200 exactly if the last report of every component that ever reported says ready; so it does once \<open>Run\<close> has passed its start.\<close>

theorem readiness_is_the_last_report:
  "fst (ReadinessHandler (fold apply_report rs NewChecker)) = (if checker_IsReady (fold apply_report rs NewChecker) then 200 else 503) \<and>
   (checker_IsReady (fold apply_report rs NewChecker) \<longleftrightarrow> (\<forall>n r. find (\<lambda>r. report_name r = n) (rev rs) = Some r \<longrightarrow> r = RReady n))"
proof (intro conjI)
  show "fst (ReadinessHandler (fold apply_report rs NewChecker)) = (if checker_IsReady (fold apply_report rs NewChecker) then 200 else 503)"
    by (simp add: ReadinessHandler_def checker_IsReady_def)
  have last: "r = RReady n \<or> (\<exists>m. r = RNotReady n m)" if "find (\<lambda>r. report_name r = n) (rev rs) = Some r" for n r
  proof -
    have "report_name r = n" using that by (auto simp: find_Some_iff)
    then show ?thesis by (cases r) auto
  qed
  have "checker_IsReady (fold apply_report rs NewChecker) \<longleftrightarrow> (\<forall>n x. (n, x) \<in> set (fold apply_report rs NewChecker) \<longrightarrow> co_Ready x)"
    by (auto simp: checker_IsReady_def list_all_iff)
  also have "\<dots> \<longleftrightarrow> (\<forall>n r. find (\<lambda>r. report_name r = n) (rev rs) = Some r \<longrightarrow> r = RReady n)"
    unfolding components_after using last by (fastforce simp: NewChecker_def split: option.splits report.splits)
  finally show "checker_IsReady (fold apply_report rs NewChecker) \<longleftrightarrow> (\<forall>n r. find (\<lambda>r. report_name r = n) (rev rs) = Some r \<longrightarrow> r = RReady n)" .
qed

lemma startup_is_ready: "checker_IsReady (fold apply_report startup NewChecker)"
  by (simp add: startup_def NewChecker_def SetReady_def SetNotReady_def put_component_def checker_IsReady_def)

subsection \<open>TLS and OAuth metadata\<close>

datatype tls_choice = Plain | FromFiles string string | SelfSigned

text \<open>The loading of a pair of files and the making of a certificate are parameters.\<close>

definition NewTLSConfig :: "(string \<Rightarrow> string \<Rightarrow> string option) \<Rightarrow> string option \<Rightarrow> TLSConf \<Rightarrow> (string, tls_choice) result" where
  "NewTLSConfig loadPair selfErr cfg =
     (if \<not> tls_Enabled cfg then Ok Plain
      else if tls_CertFile cfg \<noteq> '''' \<and> tls_KeyFile cfg \<noteq> '''' then
        (case loadPair (tls_CertFile cfg) (tls_KeyFile cfg) of Some e \<Rightarrow> Err (''loading TLS certificate: '' @ e) | None \<Rightarrow> Ok (FromFiles (tls_CertFile cfg) (tls_KeyFile cfg)))
      else if tls_AutoTLS cfg then (case selfErr of Some e \<Rightarrow> Err (''generating self-signed certificate: '' @ e) | None \<Rightarrow> Ok SelfSigned)
      else Err ''TLS enabled but no certificate configured: set certFile/keyFile or enable autoTLS'')"

text \<open>A loaded configuration gets the TLS it asks for: never a plain listener when TLS is enabled, and an error only if the files cannot be loaded or no certificate can be made.\<close>

theorem loaded_tls_is_honoured:
  assumes "Load le file = Ok c"
  shows "case NewTLSConfig loadPair selfErr (c_TLS c) of
      Ok t \<Rightarrow> tls_Enabled (c_TLS c) \<longleftrightarrow> t \<noteq> Plain
    | Err e \<Rightarrow> loadPair (tls_CertFile (c_TLS c)) (tls_KeyFile (c_TLS c)) \<noteq> None \<or> (tls_AutoTLS (c_TLS c) \<and> selfErr \<noteq> None)"
proof -
  have "\<not> (tls_Enabled (c_TLS c) \<and> \<not> (tls_CertFile (c_TLS c) \<noteq> '''' \<and> tls_KeyFile (c_TLS c) \<noteq> '''') \<and> \<not> tls_AutoTLS (c_TLS c))"
    using Load_Ok(1) [OF assms] unfolding validate_def first_error_None by (simp split: if_splits)
  then show ?thesis by (auto simp: NewTLSConfig_def split: option.split)
qed

definition auto_tls :: Config where
  "auto_tls = Default\<lparr>c_TLS := \<lparr>tls_Enabled = True, tls_CertFile = '''', tls_KeyFile = '''', tls_AutoTLS = True\<rparr>\<rparr>"

lemma auto_tls_loads: "Load plain_env (Ok (Some (\<lambda>_. Ok auto_tls))) = Ok auto_tls"
  by (simp add: auto_tls_def load_eval)

theorem loaded_tls_is_honoured_witness:
  "NewTLSConfig (\<lambda>_ _. None) None (c_TLS auto_tls) \<noteq> Ok Plain"
  using loaded_tls_is_honoured [OF auto_tls_loads, of "\<lambda>_ _. None" None] by (auto simp: auto_tls_def split: sum.splits)

record OAuthMetadata =
  om_Resource :: string
  om_AuthorizationServers :: "string list"
  om_ScopesSupported :: "string list"
  om_BearerMethodsSupported :: "string list"

definition oauthMetadata :: "string \<Rightarrow> string list \<Rightarrow> string \<Rightarrow> OAuthMetadata" where
  "oauthMetadata issuer scopes resourceURL =
     \<lparr>om_Resource = resourceURL, om_AuthorizationServers = [issuer], om_ScopesSupported = (if scopes = [] then [''openid'', ''profile''] else scopes), om_BearerMethodsSupported = [''header'']\<rparr>"

definition OAuthMetadataHandler :: "OAuthMetadata \<Rightarrow> string \<Rightarrow> nat \<times> OAuthMetadata option" where
  "OAuthMetadataHandler meta meth = (if meth = ''OPTIONS'' then (204, None) else (200, Some meta))"

definition resourceURL :: "Config \<Rightarrow> string" where
  "resourceURL c = (if tls_Enabled (c_TLS c) then ''https://localhost'' else ''http://localhost'') @ sc_HTTPAddr (c_Server c)"

text \<open>The document names the listener of the process as the resource, whatever the public address of the server is; for an address with a host the name is no URL of the server.\<close>

theorem metadata_names_localhost:
  "om_Resource (oauthMetadata i sc (resourceURL (c\<lparr>c_Server := (c_Server c)\<lparr>sc_BaseURL := u, sc_HTTPAddr := ''0.0.0.0:8080''\<rparr>, c_TLS := (c_TLS c)\<lparr>tls_Enabled := False\<rparr>\<rparr>))) =
   ''http://localhost0.0.0.0:8080''"
  by (simp add: oauthMetadata_def resourceURL_def)

subsection \<open>Request metrics\<close>

definition normalizePath :: "string \<Rightarrow> string" where
  "normalizePath path =
     (if path \<in> {''/healthz'', ''/readyz'', ''/metrics''} then path
      else if length path > 4 \<and> take 4 path = ''/mcp'' then ''/mcp''
      else ''/static'')"

text \<open>The label has five values whatever paths are requested; but the MCP endpoint itself, \<open>/mcp\<close>, is counted as a static page, and so is the whole API.\<close>

theorem metric_paths_are_bounded:
  "normalizePath path \<in> {''/healthz'', ''/readyz'', ''/metrics'', ''/mcp'', ''/static''} \<and> normalizePath ''/mcp'' = ''/static'' \<and> normalizePath ''/v1/apps'' = ''/static''"
  by (simp add: normalizePath_def)

end
