(* ===== verification/Configmap.thy ===== *)
theory Configmap
  imports Store Kube "HOL-Library.Multiset"
begin

section \<open>The ConfigMap store\<close>

text \<open>
  \<open>src/internal/store/configmap.go\<close>: artifacts and versions as entries of two ConfigMaps, written by read-modify-write with retries on conflict.

  The Kubernetes client, client-go's retry loop, the JSON codec (with an abstract type of texts \<open>'j\<close>) and the order in which Go ranges over a map are parameters.  A world is the
  cluster's ConfigMaps, each with a resource version and its data, and the number of calls made.  What the store relies on is stated as hypotheses: \<open>api_server\<close>, a call acts on
  the cluster as other clients left it and may fail before or after it took effect; \<open>versioned\<close>, a ConfigMap that still has the resource version it was read with is the one
  that was read; \<open>retries\<close>, the loop runs its function again after a conflict and only then; \<open>codec_ok\<close>, decoding gives back what was encoded, less the fields
  marked \<open>json:"-"\<close>.
\<close>

subsection \<open>The API server\<close>

record 'j cmap =
  cm_rv :: nat
  cm_data :: "(string \<times> 'j) list"

type_synonym 'j cluster = "string \<rightharpoonup> 'j cmap"

type_synonym 'j kworld = "'j cluster \<times> nat"

datatype cm_error =
    CApi api_error
  | CMarshal string | CUnmarshal string
  | CRead kerr | CGetting kerr | CCreating kerr | CUpdating kerr
  | CTooBig string nat

record 'j codec =
  co_encA :: "Artifact \<Rightarrow> (string, 'j) result"
  co_decA :: "'j \<Rightarrow> (string, Artifact) result"
  co_encV :: "ArtifactVersion \<Rightarrow> (string, 'j) result"
  co_decV :: "'j \<Rightarrow> (string, ArtifactVersion) result"
  co_len :: "'j \<Rightarrow> nat"

record 'j kube =
  k_get :: "string \<Rightarrow> 'j kworld \<Rightarrow> 'j kworld \<times> (kerr, 'j cmap) result"
  k_create :: "string \<Rightarrow> (string \<times> 'j) list \<Rightarrow> 'j kworld \<Rightarrow> 'j kworld \<times> (kerr, 'j cmap) result"
  k_update :: "string \<Rightarrow> 'j cmap \<Rightarrow> 'j kworld \<Rightarrow> 'j kworld \<times> (kerr, unit) result"
  k_retry :: "('j kworld \<Rightarrow> 'j kworld \<times> cm_error option) \<Rightarrow> 'j kworld \<Rightarrow> 'j kworld \<times> cm_error option"
  k_iter :: "(string \<times> 'j) list \<Rightarrow> (string \<times> 'j) list"

text \<open>The documented behaviour of the API server: the other clients move (\<open>mv\<close>), then the call takes effect, unless it fails (\<open>fl\<close>).\<close>

datatype fault = FBefore string | FAfter string

definition kcall ::
  "(nat \<Rightarrow> 'j cluster \<Rightarrow> 'j cluster) \<Rightarrow> (nat \<Rightarrow> fault option) \<Rightarrow> ('j cluster \<Rightarrow> 'j cluster \<times> (kerr, 'a) result) \<Rightarrow> 'j kworld \<Rightarrow> 'j kworld \<times> (kerr, 'a) result" where
  "kcall mv fl f w =
     (let c = mv (snd w) (fst w) in
      case fl (snd w) of
        Some (FBefore e) \<Rightarrow> ((c, snd w + 1), Err (KOther e))
      | Some (FAfter e) \<Rightarrow> ((fst (f c), snd w + 1), Err (KOther e))
      | None \<Rightarrow> ((fst (f c), snd w + 1), snd (f c)))"

definition kget :: "string \<Rightarrow> 'j cluster \<Rightarrow> 'j cluster \<times> (kerr, 'j cmap) result" where
  "kget name c = (c, case c name of None \<Rightarrow> Err (KNotFound name) | Some m \<Rightarrow> Ok m)"

definition kcreate :: "string \<Rightarrow> (string \<times> 'j) list \<Rightarrow> 'j cluster \<Rightarrow> 'j cluster \<times> (kerr, 'j cmap) result" where
  "kcreate name d c = (case c name of
      Some _ \<Rightarrow> (c, Err (KAlreadyExists name))
    | None \<Rightarrow> (c(name \<mapsto> \<lparr>cm_rv = 1, cm_data = d\<rparr>), Ok \<lparr>cm_rv = 1, cm_data = d\<rparr>))"

definition kupdate :: "string \<Rightarrow> 'j cmap \<Rightarrow> 'j cluster \<Rightarrow> 'j cluster \<times> (kerr, unit) result" where
  "kupdate name m c = (case c name of
      None \<Rightarrow> (c, Err (KNotFound name))
    | Some m0 \<Rightarrow> if cm_rv m0 \<noteq> cm_rv m then (c, Err (KConflict name)) else (c(name \<mapsto> m\<lparr>cm_rv := cm_rv m + 1\<rparr>), Ok ()))"

definition api_server :: "'j kube \<Rightarrow> (nat \<Rightarrow> 'j cluster \<Rightarrow> 'j cluster) \<Rightarrow> (nat \<Rightarrow> fault option) \<Rightarrow> bool" where
  "api_server k mv fl \<longleftrightarrow> (\<forall>name. k_get k name = kcall mv fl (kget name)) \<and> (\<forall>name d. k_create k name d = kcall mv fl (kcreate name d)) \<and>
     (\<forall>name m. k_update k name m = kcall mv fl (kupdate name m))"

definition versioned :: "(nat \<Rightarrow> 'j cluster \<Rightarrow> 'j cluster) \<Rightarrow> bool" where
  "versioned mv \<longleftrightarrow> (\<forall>n c name m m'. c name = Some m \<and> mv n c name = Some m' \<and> cm_rv m' = cm_rv m \<longrightarrow> m' = m)"

text \<open>The error that a wrapped error unwraps to, and the runs of a retry loop.\<close>

fun cause :: "cm_error \<Rightarrow> kerr option" where
  "cause (CRead e) = Some e"
| "cause (CGetting e) = Some e"
| "cause (CCreating e) = Some e"
| "cause (CUpdating e) = Some e"
| "cause _ = None"

definition is_conflict :: "cm_error \<Rightarrow> bool" where
  "is_conflict e = (case cause e of Some (KConflict _) \<Rightarrow> True | _ \<Rightarrow> False)"

inductive retried :: "('j kworld \<Rightarrow> 'j kworld \<times> cm_error option) \<Rightarrow> 'j kworld \<Rightarrow> 'j kworld \<times> cm_error option \<Rightarrow> bool" for f where
  last: "retried f w (f w)"
| again: "f w = (w', Some e) \<Longrightarrow> is_conflict e \<Longrightarrow> retried f w' r \<Longrightarrow> retried f w r"

definition retries :: "'j kube \<Rightarrow> bool" where
  "retries k \<longleftrightarrow> (\<forall>f w. retried f w (k_retry k f w))"

subsection \<open>Helpers of the store\<close>

definition maxConfigMapBytes :: nat where
  "maxConfigMapBytes = 900 * 1024"

definition put :: "string \<Rightarrow> 'j \<Rightarrow> (string \<times> 'j) list \<Rightarrow> (string \<times> 'j) list" where
  "put key v d = (key, v) # filter (\<lambda>e. fst e \<noteq> key) d"

definition remove_key :: "string \<Rightarrow> (string \<times> 'j) list \<Rightarrow> (string \<times> 'j) list" where
  "remove_key key d = filter (\<lambda>e. fst e \<noteq> key) d"

definition data_bytes :: "'j codec \<Rightarrow> (string \<times> 'j) list \<Rightarrow> nat" where
  "data_bytes co d = sum_list (map (\<lambda>(key, v). length key + co_len co v) d)"

definition getConfigMap :: "'j kube \<Rightarrow> string \<Rightarrow> 'j kworld \<Rightarrow> 'j kworld \<times> (kerr, 'j cmap) result" where
  "getConfigMap k name = k_get k name"

definition getOrCreateConfigMap :: "'j kube \<Rightarrow> string \<Rightarrow> 'j kworld \<Rightarrow> 'j kworld \<times> (cm_error, 'j cmap) result" where
  "getOrCreateConfigMap k name w =
     (case getConfigMap k name w of
        (w1, Ok m) \<Rightarrow> (w1, Ok m)
      | (w1, Err e) \<Rightarrow>
          if \<not> IsNotFound e then (w1, Err (CGetting e))
          else (case k_create k name [] w1 of (w2, Err e') \<Rightarrow> (w2, Err (CCreating e')) | (w2, Ok m) \<Rightarrow> (w2, Ok m)))"

definition updateConfigMap :: "'j kube \<Rightarrow> 'j codec \<Rightarrow> string \<Rightarrow> 'j cmap \<Rightarrow> 'j kworld \<Rightarrow> 'j kworld \<times> cm_error option" where
  "updateConfigMap k co name m w =
     (if data_bytes co (cm_data m) > maxConfigMapBytes then (w, Some (CTooBig name (data_bytes co (cm_data m))))
      else case k_update k name m w of (w', Err e) \<Rightarrow> (w', Some (CUpdating e)) | (w', Ok _) \<Rightarrow> (w', None))"

subsection \<open>Operations\<close>

record 'j ConfigMapStore =
  cs_kube :: "'j kube"
  cs_codec :: "'j codec"
  cs_name :: string

definition versionsName :: "'j ConfigMapStore \<Rightarrow> string" where
  "versionsName s = cs_name s @ ''-versions''"

text \<open>The first artifact met with this name; entries that do not decode are passed over.\<close>

definition find_name :: "'j ConfigMapStore \<Rightarrow> string \<Rightarrow> (string \<times> 'j) list \<Rightarrow> Artifact option" where
  "find_name s name d = find (\<lambda>a. art_Name a = name)
     (List.map_filter (\<lambda>e. case co_decA (cs_codec s) (snd e) of Ok a \<Rightarrow> Some a | Err _ \<Rightarrow> None) (k_iter (cs_kube s) d))"

definition createAttempt :: "'j ConfigMapStore \<Rightarrow> Artifact \<Rightarrow> 'j \<Rightarrow> 'j kworld \<Rightarrow> 'j kworld \<times> cm_error option" where
  "createAttempt s a v w =
     (case getOrCreateConfigMap (cs_kube s) (cs_name s) w of
        (w', Err e) \<Rightarrow> (w', Some e)
      | (w', Ok m) \<Rightarrow>
          if find_name s (art_Name a) (cm_data m) \<noteq> None then (w', Some (CApi (ErrAlreadyExists (art_Name a))))
          else updateConfigMap (cs_kube s) (cs_codec s) (cs_name s) (m\<lparr>cm_data := put (art_ID a) v (cm_data m)\<rparr>) w')"

definition cs_Create :: "'j ConfigMapStore \<Rightarrow> Artifact \<Rightarrow> 'j kworld \<Rightarrow> 'j kworld \<times> cm_error option" where
  "cs_Create s a w = (case co_encA (cs_codec s) a of Err e \<Rightarrow> (w, Some (CMarshal e)) | Ok v \<Rightarrow> k_retry (cs_kube s) (createAttempt s a v) w)"

definition cs_Get :: "'j ConfigMapStore \<Rightarrow> string \<Rightarrow> 'j kworld \<Rightarrow> 'j kworld \<times> (cm_error, Artifact) result" where
  "cs_Get s i w =
     (case getConfigMap (cs_kube s) (cs_name s) w of
        (w', Err e) \<Rightarrow> (w', Err (CRead e))
      | (w', Ok m) \<Rightarrow> (w', case map_of (cm_data m) i of
          None \<Rightarrow> Err (CApi (ErrNotFound i))
        | Some v \<Rightarrow> (case co_decA (cs_codec s) v of Err e \<Rightarrow> Err (CUnmarshal e) | Ok a \<Rightarrow> Ok a)))"

definition cs_GetByName :: "'j ConfigMapStore \<Rightarrow> string \<Rightarrow> 'j kworld \<Rightarrow> 'j kworld \<times> (cm_error, Artifact) result" where
  "cs_GetByName s name w =
     (case getConfigMap (cs_kube s) (cs_name s) w of
        (w', Err e) \<Rightarrow> (w', Err (CRead e))
      | (w', Ok m) \<Rightarrow> (w', case find_name s name (cm_data m) of None \<Rightarrow> Err (CApi (ErrNotFound name)) | Some a \<Rightarrow> Ok a))"

definition listPage :: "ListOptions \<Rightarrow> Artifact list \<Rightarrow> ArtifactSummary list \<times> nat" where
  "listPage opts as =
     (let summaries = map ToSummary (filter (listed opts) as);
          tot = length summaries;
          s1 = (if lo_Offset opts > 0 \<and> lo_Offset opts < int (length summaries) then drop (nat (lo_Offset opts)) summaries
                else if lo_Offset opts \<ge> int (length summaries) then [] else summaries);
          s2 = (if lo_Limit opts > 0 \<and> lo_Limit opts < int (length s1) then take (nat (lo_Limit opts)) s1 else s1)
      in (s2, tot))"

definition cs_List :: "'j ConfigMapStore \<Rightarrow> ListOptions \<Rightarrow> 'j kworld \<Rightarrow> 'j kworld \<times> (cm_error, ArtifactSummary list \<times> nat) result" where
  "cs_List s opts w =
     (case getConfigMap (cs_kube s) (cs_name s) w of
        (w', Err e) \<Rightarrow> (w', if IsNotFound e then Ok ([], 0) else Err (CRead e))
      | (w', Ok m) \<Rightarrow> (w', Ok (listPage opts
          (List.map_filter (\<lambda>e. case co_decA (cs_codec s) (snd e) of Ok a \<Rightarrow> Some a | Err _ \<Rightarrow> None) (k_iter (cs_kube s) (cm_data m))))))"

definition updateAttempt :: "'j ConfigMapStore \<Rightarrow> string \<Rightarrow> 'j \<Rightarrow> 'j kworld \<Rightarrow> 'j kworld \<times> cm_error option" where
  "updateAttempt s i v w =
     (case getConfigMap (cs_kube s) (cs_name s) w of
        (w', Err e) \<Rightarrow> (w', Some (CRead e))
      | (w', Ok m) \<Rightarrow>
          if map_of (cm_data m) i = None then (w', Some (CApi (ErrNotFound i)))
          else updateConfigMap (cs_kube s) (cs_codec s) (cs_name s) (m\<lparr>cm_data := put i v (cm_data m)\<rparr>) w')"

definition cs_Update :: "'j ConfigMapStore \<Rightarrow> Artifact \<Rightarrow> 'j kworld \<Rightarrow> 'j kworld \<times> cm_error option" where
  "cs_Update s a w = (case co_encA (cs_codec s) a of Err e \<Rightarrow> (w, Some (CMarshal e)) | Ok v \<Rightarrow> k_retry (cs_kube s) (updateAttempt s (art_ID a) v) w)"

definition deleteAttempt :: "'j ConfigMapStore \<Rightarrow> string \<Rightarrow> 'j kworld \<Rightarrow> 'j kworld \<times> cm_error option" where
  "deleteAttempt s i w =
     (case getConfigMap (cs_kube s) (cs_name s) w of
        (w', Err e) \<Rightarrow> (w', Some (CRead e))
      | (w', Ok m) \<Rightarrow>
          if map_of (cm_data m) i = None then (w', Some (CApi (ErrNotFound i)))
          else updateConfigMap (cs_kube s) (cs_codec s) (cs_name s) (m\<lparr>cm_data := remove_key i (cm_data m)\<rparr>) w')"

definition cleanupAttempt :: "'j ConfigMapStore \<Rightarrow> string \<Rightarrow> 'j kworld \<Rightarrow> 'j kworld \<times> cm_error option" where
  "cleanupAttempt s i w =
     (case getConfigMap (cs_kube s) (versionsName s) w of
        (w', Err e) \<Rightarrow> (w', None)
      | (w', Ok m) \<Rightarrow>
          let rest = filter (\<lambda>e. \<not> HasPrefix (fst e) (i @ ''-v'')) (cm_data m) in
          if rest = cm_data m then (w', None) else updateConfigMap (cs_kube s) (cs_codec s) (versionsName s) (m\<lparr>cm_data := rest\<rparr>) w')"

definition cs_Delete :: "'j ConfigMapStore \<Rightarrow> string \<Rightarrow> 'j kworld \<Rightarrow> 'j kworld \<times> cm_error option" where
  "cs_Delete s i w =
     (case k_retry (cs_kube s) (deleteAttempt s i) w of
        (w', Some e) \<Rightarrow> (w', Some e)
      | (w', None) \<Rightarrow> (fst (k_retry (cs_kube s) (cleanupAttempt s i) w'), None))"

definition version_key :: "string \<Rightarrow> int \<Rightarrow> string" where
  "version_key i n = i @ ''-v'' @ Itoa n"

definition versionAttempt :: "'j ConfigMapStore \<Rightarrow> ArtifactVersion \<Rightarrow> 'j \<Rightarrow> 'j kworld \<Rightarrow> 'j kworld \<times> cm_error option" where
  "versionAttempt s ver v w =
     (case getOrCreateConfigMap (cs_kube s) (versionsName s) w of
        (w', Err e) \<Rightarrow> (w', Some e)
      | (w', Ok m) \<Rightarrow> updateConfigMap (cs_kube s) (cs_codec s) (versionsName s)
          (m\<lparr>cm_data := put (version_key (av_ArtifactID ver) (av_Version ver)) v (cm_data m)\<rparr>) w')"

definition cs_CreateVersion :: "'j ConfigMapStore \<Rightarrow> ArtifactVersion \<Rightarrow> 'j kworld \<Rightarrow> 'j kworld \<times> cm_error option" where
  "cs_CreateVersion s ver w = (case co_encV (cs_codec s) ver of Err e \<Rightarrow> (w, Some (CMarshal e)) | Ok v \<Rightarrow> k_retry (cs_kube s) (versionAttempt s ver v) w)"

definition cs_ListVersions :: "'j ConfigMapStore \<Rightarrow> string \<Rightarrow> 'j kworld \<Rightarrow> 'j kworld \<times> (cm_error, ArtifactVersion list) result" where
  "cs_ListVersions s i w =
     (case getConfigMap (cs_kube s) (versionsName s) w of
        (w', Err e) \<Rightarrow> (w', if IsNotFound e then Ok [] else Err (CRead e))
      | (w', Ok m) \<Rightarrow> (w', Ok (sort_key av_Version
          (List.map_filter (\<lambda>e. case co_decV (cs_codec s) (snd e) of Ok v \<Rightarrow> Some v | Err _ \<Rightarrow> None)
             (filter (\<lambda>e. HasPrefix (fst e) (i @ ''-v'')) (k_iter (cs_kube s) (cm_data m)))))))"

definition cs_GetVersion :: "'j ConfigMapStore \<Rightarrow> string \<Rightarrow> int \<Rightarrow> 'j kworld \<Rightarrow> 'j kworld \<times> (cm_error, ArtifactVersion) result" where
  "cs_GetVersion s i n w =
     (case getConfigMap (cs_kube s) (versionsName s) w of
        (w', Err e) \<Rightarrow> (w', Err (CApi (ErrVersionNotFound i n)))
      | (w', Ok m) \<Rightarrow> (w', case map_of (cm_data m) (version_key i n) of
          None \<Rightarrow> Err (CApi (ErrVersionNotFound i n))
        | Some v \<Rightarrow> (case co_decV (cs_codec s) v of Err e \<Rightarrow> Err (CUnmarshal e) | Ok ver \<Rightarrow> Ok ver)))"

subsection \<open>No lost updates\<close>

text \<open>The steps that leave the store's data alone: the other clients move, and at most the empty ConfigMap is created.  A commit is such steps and then one change of the data that
  are in the cluster at that moment.\<close>

inductive quiet :: "(nat \<Rightarrow> 'j cluster \<Rightarrow> 'j cluster) \<Rightarrow> string \<Rightarrow> 'j kworld \<Rightarrow> 'j kworld \<Rightarrow> bool" for mv name w where
  stay: "quiet mv name w w"
| others: "quiet mv name w (c, n) \<Longrightarrow> quiet mv name w (mv n c, n + 1)"
| make: "quiet mv name w (c, n) \<Longrightarrow> mv n c name = None \<Longrightarrow> quiet mv name w ((mv n c)(name \<mapsto> \<lparr>cm_rv = 1, cm_data = []\<rparr>), n + 1)"

definition committed :: "(nat \<Rightarrow> 'j cluster \<Rightarrow> 'j cluster) \<Rightarrow> string \<Rightarrow> ((string \<times> 'j) list \<Rightarrow> bool) \<Rightarrow> ((string \<times> 'j) list \<Rightarrow> (string \<times> 'j) list) \<Rightarrow> 'j kworld \<Rightarrow> 'j kworld \<Rightarrow> bool" where
  "committed mv name guard f w w' \<longleftrightarrow> (\<exists>c0 n c m. quiet mv name w (c0, n) \<and> c = mv n c0 \<and> c name = Some m \<and> guard (cm_data m) \<and>
     w' = (c(name \<mapsto> \<lparr>cm_rv = cm_rv m + 1, cm_data = f (cm_data m)\<rparr>), n + 1))"

lemma quiet_trans: "quiet mv name w1 w2 \<Longrightarrow> quiet mv name w w1 \<Longrightarrow> quiet mv name w w2"
proof (induction rule: quiet.induct)
  case stay
  then show ?case by simp
next
  case (others c n)
  then show ?case by (intro quiet.others)
next
  case (make c n)
  then show ?case by (intro quiet.make)
qed

lemma committed_later: "quiet mv name w w1 \<Longrightarrow> committed mv name guard f w1 w' \<Longrightarrow> committed mv name guard f w w'"
  unfolding committed_def by (blast intro: quiet_trans)

text \<open>A call whose function does not change the cluster is quiet.\<close>

lemma kcall_quiet: "kcall mv fl f (c, n) = (w', r) \<Longrightarrow> fst (f (mv n c)) = mv n c \<Longrightarrow> quiet mv name (c, n) w'"
  using quiet.others [OF quiet.stay, of mv name c n] by (auto simp: kcall_def Let_def split: option.splits fault.splits)

lemma server_calls:
  assumes "api_server k mv fl"
  shows "getConfigMap k name = kcall mv fl (kget name)" "k_create k name d = kcall mv fl (kcreate name d)" "k_update k name m = kcall mv fl (kupdate name m)"
  using assms by (simp_all add: api_server_def getConfigMap_def)

lemma get_quiet: "api_server k mv fl \<Longrightarrow> getConfigMap k name w = (w', r) \<Longrightarrow> quiet mv name' w w'"
  by (cases w) (auto intro: kcall_quiet simp: kget_def server_calls)

lemma create_quiet:
  assumes "kcall mv fl (kcreate name []) (c, n) = (w', r)"
  shows "quiet mv name (c, n) w'"
proof (cases "mv n c name")
  case (Some m)
  then show ?thesis by (intro kcall_quiet [OF assms]) (simp add: kcreate_def)
next
  case None
  with assms quiet.others [OF quiet.stay, of mv name c n] quiet.make [where mv = mv and w = "(c, n)" and name = name, OF quiet.stay None] show ?thesis
    by (auto simp: kcall_def kcreate_def Let_def split: option.splits fault.splits)
qed

lemma getOrCreate_quiet:
  assumes srv: "api_server k mv fl" and "getOrCreateConfigMap k name w = (w', r)"
  shows "quiet mv name w w'"
proof -
  obtain c1 n1 x where 1: "getConfigMap k name w = ((c1, n1), x)" by (metis prod.collapse)
  note q = get_quiet [OF srv 1]
  show ?thesis
  proof (cases "\<exists>e. x = Err e \<and> IsNotFound e")
    case True
    then obtain y where "kcall mv fl (kcreate name []) (c1, n1) = (w', y)"
      using assms(2) 1 by (auto simp: getOrCreateConfigMap_def server_calls [OF srv] split: prod.splits sum.splits)
    from quiet_trans [OF create_quiet [OF this] q] show ?thesis .
  next
    case False
    then have "w' = (c1, n1)" using assms(2) 1 by (auto simp: getOrCreateConfigMap_def split: sum.splits)
    with q show ?thesis by simp
  qed
qed

lemma kcall_Ok: "kcall mv fl f (c, n) = (w', Ok x) \<Longrightarrow> w' = (fst (f (mv n c)), n + 1) \<and> snd (f (mv n c)) = Ok x"
  by (auto simp: kcall_def Let_def split: option.splits fault.splits)

lemma get_reads: "api_server k mv fl \<Longrightarrow> getConfigMap k name w = (w', Ok m) \<Longrightarrow> fst w' name = Some m"
  by (cases w) (auto simp: server_calls kget_def dest!: kcall_Ok split: option.splits)

lemma getOrCreate_reads:
  assumes srv: "api_server k mv fl" and "getOrCreateConfigMap k name w = (w', Ok m)"
  shows "fst w' name = Some m"
proof -
  obtain c1 n1 x where 1: "getConfigMap k name w = ((c1, n1), x)" by (metis prod.collapse)
  show ?thesis
  proof (cases x)
    case (Inr y)
    then show ?thesis using assms(2) 1 get_reads [OF srv, of name w] by (simp add: getOrCreateConfigMap_def)
  next
    case (Inl e)
    then have "kcall mv fl (kcreate name []) (c1, n1) = (w', Ok m)"
      using assms(2) 1 by (auto simp: getOrCreateConfigMap_def server_calls [OF srv] split: if_splits prod.splits sum.splits)
    from kcall_Ok [OF this] show ?thesis by (auto simp: kcreate_def split: option.splits)
  qed
qed

lemma update_commits:
  assumes srv: "api_server k mv fl" and "versioned mv" "updateConfigMap k co name (m\<lparr>cm_data := d\<rparr>) (c, n) = (w', None)" "c name = Some m"
  shows "mv n c name = Some m" "w' = ((mv n c)(name \<mapsto> \<lparr>cm_rv = cm_rv m + 1, cm_data = d\<rparr>), n + 1)" "data_bytes co d \<le> maxConfigMapBytes"
proof -
  let ?c = "mv n c"
  show "data_bytes co d \<le> maxConfigMapBytes" using assms(3) by (auto simp: updateConfigMap_def split: if_splits)
  obtain r where k: "kcall mv fl (kupdate name (m\<lparr>cm_data := d\<rparr>)) (c, n) = (w', Ok r)"
    using assms(3) by (auto simp: updateConfigMap_def server_calls [OF srv] split: if_splits prod.splits sum.splits)
  from kcall_Ok [OF k] obtain m0 where m0: "?c name = Some m0" "cm_rv m0 = cm_rv m" "w' = (?c(name \<mapsto> m\<lparr>cm_data := d, cm_rv := cm_rv m + 1\<rparr>), n + 1)"
    by (auto simp: kupdate_def split: option.splits if_splits)
  have "m0 = m" using assms(2,4) m0(1,2) unfolding versioned_def by blast
  with m0 show "?c name = Some m" "w' = (?c(name \<mapsto> \<lparr>cm_rv = cm_rv m + 1, cm_data = d\<rparr>), n + 1)" by (cases m, auto)+
qed

lemma update_conflict_quiet:
  assumes srv: "api_server k mv fl" and "updateConfigMap k co name m (c, n) = (w', Some e)" "is_conflict e"
  shows "quiet mv name (c, n) w'"
proof -
  obtain x where k: "kcall mv fl (kupdate name m) (c, n) = (w', Err (KConflict x))"
    using assms(2,3) by (auto simp: updateConfigMap_def is_conflict_def server_calls [OF srv] split: if_splits prod.splits sum.splits kerr.splits)
  then have "fst (kupdate name m (mv n c)) = mv n c"
    by (auto simp: kcall_def kupdate_def Let_def split: option.splits fault.splits if_splits)
  from kcall_quiet [OF k this] show ?thesis .
qed

text \<open>The shape of every write: read the ConfigMap, check, write the changed data.\<close>

definition rmw :: "('j kworld \<Rightarrow> 'j kworld \<times> (cm_error, 'j cmap) result) \<Rightarrow> 'j kube \<Rightarrow> 'j codec \<Rightarrow> string \<Rightarrow> ((string \<times> 'j) list \<Rightarrow> cm_error option) \<Rightarrow>
     ((string \<times> 'j) list \<Rightarrow> (string \<times> 'j) list) \<Rightarrow> 'j kworld \<Rightarrow> 'j kworld \<times> cm_error option" where
  "rmw rd k co name check f w =
     (case rd w of
        (w', Err e) \<Rightarrow> (w', Some e)
      | (w', Ok m) \<Rightarrow> (case check (cm_data m) of Some e \<Rightarrow> (w', Some e) | None \<Rightarrow> updateConfigMap k co name (m\<lparr>cm_data := f (cm_data m)\<rparr>) w'))"

definition plain_read :: "'j kube \<Rightarrow> string \<Rightarrow> 'j kworld \<Rightarrow> 'j kworld \<times> (cm_error, 'j cmap) result" where
  "plain_read k name w = (case getConfigMap k name w of (w', Err e) \<Rightarrow> (w', Err (CRead e)) | (w', Ok m) \<Rightarrow> (w', Ok m))"

lemma attempts_rmw:
  "createAttempt s a v = rmw (getOrCreateConfigMap (cs_kube s) (cs_name s)) (cs_kube s) (cs_codec s) (cs_name s)
     (\<lambda>d. if find_name s (art_Name a) d \<noteq> None then Some (CApi (ErrAlreadyExists (art_Name a))) else None) (put (art_ID a) v)"
  "updateAttempt s i v = rmw (plain_read (cs_kube s) (cs_name s)) (cs_kube s) (cs_codec s) (cs_name s)
     (\<lambda>d. if map_of d i = None then Some (CApi (ErrNotFound i)) else None) (put i v)"
  "deleteAttempt s i = rmw (plain_read (cs_kube s) (cs_name s)) (cs_kube s) (cs_codec s) (cs_name s)
     (\<lambda>d. if map_of d i = None then Some (CApi (ErrNotFound i)) else None) (remove_key i)"
  "versionAttempt s ver v = rmw (getOrCreateConfigMap (cs_kube s) (versionsName s)) (cs_kube s) (cs_codec s) (versionsName s)
     (\<lambda>d. None) (put (version_key (av_ArtifactID ver) (av_Version ver)) v)"
  by (rule ext, simp add: createAttempt_def updateAttempt_def deleteAttempt_def versionAttempt_def rmw_def plain_read_def split: prod.splits sum.splits)+

definition reads :: "('j kworld \<Rightarrow> 'j kworld \<times> (cm_error, 'j cmap) result) \<Rightarrow> (nat \<Rightarrow> 'j cluster \<Rightarrow> 'j cluster) \<Rightarrow> string \<Rightarrow> bool" where
  "reads rd mv name \<longleftrightarrow> (\<forall>w w' r. rd w = (w', r) \<longrightarrow> quiet mv name w w' \<and> (\<forall>m. r = Ok m \<longrightarrow> fst w' name = Some m))"

lemma reads_getOrCreate: "api_server k mv fl \<Longrightarrow> reads (getOrCreateConfigMap k name) mv name"
  unfolding reads_def by (blast intro: getOrCreate_quiet getOrCreate_reads)

lemma reads_plain:
  assumes srv: "api_server k mv fl"
  shows "reads (plain_read k name) mv name"
proof -
  have "quiet mv name w w' \<and> (\<forall>m. r = Ok m \<longrightarrow> fst w' name = Some m)" if "plain_read k name w = (w', r)" for w w' r
  proof -
    obtain w1 x where 1: "getConfigMap k name w = (w1, x)" by fastforce
    then have "w' = w1" "\<And>m. r = Ok m \<Longrightarrow> x = Ok m" using that by (auto simp: plain_read_def split: sum.splits)
    then show ?thesis using get_quiet [OF srv 1] 1 get_reads [OF srv, of name w w1] by auto
  qed
  then show ?thesis unfolding reads_def by blast
qed

lemma rmw_steps:
  assumes srv: "api_server k mv fl" and "versioned mv" "reads rd mv name" "rmw rd k co name check f w = (w', e)"
  shows "e = None \<Longrightarrow> committed mv name (\<lambda>d. check d = None \<and> data_bytes co (f d) \<le> maxConfigMapBytes) f w w'"
    "e = Some x \<Longrightarrow> is_conflict x \<Longrightarrow> quiet mv name w w'"
proof -
  obtain c1 n1 r where 1: "rd w = ((c1, n1), r)" by (metis prod.collapse)
  have "quiet mv name w (c1, n1) \<and> (\<forall>m. r = Ok m \<longrightarrow> fst (c1, n1) name = Some m)" using assms(3) 1 unfolding reads_def by blast
  then have q: "quiet mv name w (c1, n1)" and m: "\<And>m. r = Ok m \<Longrightarrow> c1 name = Some m" by simp_all
  {
    assume "e = None"
    then obtain y where 2: "r = Ok y" "check (cm_data y) = None" "updateConfigMap k co name (y\<lparr>cm_data := f (cm_data y)\<rparr>) (c1, n1) = (w', None)"
      using assms(4) 1 by (auto simp: rmw_def split: sum.splits option.splits)
    from update_commits [OF assms(1,2) 2(3) m [OF 2(1)]] 2(2) q
    show "committed mv name (\<lambda>d. check d = None \<and> data_bytes co (f d) \<le> maxConfigMapBytes) f w w'" unfolding committed_def by blast
  next
    assume x: "e = Some x" "is_conflict x"
    show "quiet mv name w w'"
    proof (cases "\<exists>y. r = Ok y \<and> check (cm_data y) = None")
      case True
      then obtain y where "updateConfigMap k co name (y\<lparr>cm_data := f (cm_data y)\<rparr>) (c1, n1) = (w', Some x)"
        using assms(4) 1 x by (auto simp: rmw_def)
      from quiet_trans [OF update_conflict_quiet [OF srv this x(2)] q] show ?thesis .
    next
      case False
      then have "w' = (c1, n1)" using assms(4) 1 x by (auto simp: rmw_def split: sum.splits option.splits)
      with q show ?thesis by simp
    qed
  }
qed

lemma retry_commits:
  assumes "api_server k mv fl" "versioned mv" "reads rd mv name" "retried (rmw rd k co name check f) w (w', None)"
  shows "committed mv name (\<lambda>d. check d = None \<and> data_bytes co (f d) \<le> maxConfigMapBytes) f w w'"
  using assms(4)
proof (induction w "(w', None :: cm_error option)" rule: retried.induct)
  case (last w)
  then show ?case using rmw_steps(1) [OF assms(1-3) last.hyps] by simp
next
  case (again w w1 e)
  from committed_later [OF rmw_steps(2) [OF assms(1-3) again(1) refl again(2)] again(4)] show ?case .
qed

lemma if_None_iff: "(if b then Some e else None) = None \<longleftrightarrow> \<not> b"
  by simp

text \<open>The writes, each with the ConfigMap it changes, the condition on its data and the change.\<close>

datatype 'j cm_write = WCreate Artifact 'j | WUpdate Artifact 'j | WVersion ArtifactVersion 'j

fun write_target :: "'j ConfigMapStore \<Rightarrow> 'j cm_write \<Rightarrow> string" where
  "write_target s (WVersion ver v) = versionsName s"
| "write_target s _ = cs_name s"

fun write_guard :: "'j ConfigMapStore \<Rightarrow> 'j cm_write \<Rightarrow> (string \<times> 'j) list \<Rightarrow> bool" where
  "write_guard s (WCreate a v) d = (find_name s (art_Name a) d = None)"
| "write_guard s (WUpdate a v) d = (map_of d (art_ID a) \<noteq> None)"
| "write_guard s (WVersion ver v) d = True"

fun write_change :: "'j cm_write \<Rightarrow> (string \<times> 'j) list \<Rightarrow> (string \<times> 'j) list" where
  "write_change (WCreate a v) = put (art_ID a) v"
| "write_change (WUpdate a v) = put (art_ID a) v"
| "write_change (WVersion ver v) = put (version_key (av_ArtifactID ver) (av_Version ver)) v"

fun write_encoded :: "'j ConfigMapStore \<Rightarrow> 'j cm_write \<Rightarrow> bool" where
  "write_encoded s (WCreate a v) = (co_encA (cs_codec s) a = Ok v)"
| "write_encoded s (WUpdate a v) = (co_encA (cs_codec s) a = Ok v)"
| "write_encoded s (WVersion ver v) = (co_encV (cs_codec s) ver = Ok v)"

fun do_write :: "'j ConfigMapStore \<Rightarrow> 'j cm_write \<Rightarrow> 'j kworld \<Rightarrow> 'j kworld \<times> cm_error option" where
  "do_write s (WCreate a v) = cs_Create s a"
| "do_write s (WUpdate a v) = cs_Update s a"
| "do_write s (WVersion ver v) = cs_CreateVersion s ver"

text \<open>C9: Writers of the ConfigMap store do not lose each other's updates, without any lock and across replicas: a Create, an Update or a CreateVersion that reports success changed,
  in one step, the data that were in the cluster just then, whatever other clients wrote between its calls and however often it retried.  Its condition (the name is free, the
  artifact is there) held at that moment, its entry was put, nothing else changed, the result is within the size limit, and no earlier step of the operation touched the data.\<close>

theorem configmap_writes_are_atomic:
  assumes "api_server (cs_kube s) mv fl" "versioned mv" "retries (cs_kube s)" "write_encoded s x" "do_write s x w = (w', None)"
  shows "committed mv (write_target s x) (\<lambda>d. write_guard s x d \<and> data_bytes (cs_codec s) (write_change x d) \<le> maxConfigMapBytes) (write_change x) w w'"
proof -
  have r: "retried f w (w', None)" if "k_retry (cs_kube s) f w = (w', None)" for f
    using assms(3) that unfolding retries_def by metis
  show ?thesis
  proof (cases x)
    case (WCreate a v)
    with assms(4,5) have "k_retry (cs_kube s) (createAttempt s a v) w = (w', None)" by (simp add: cs_Create_def)
    from retry_commits [OF assms(1,2) reads_getOrCreate [OF assms(1)] r [OF this, unfolded attempts_rmw]] WCreate show ?thesis unfolding if_None_iff by simp
  next
    case (WUpdate a v)
    with assms(4,5) have "k_retry (cs_kube s) (updateAttempt s (art_ID a) v) w = (w', None)" by (simp add: cs_Update_def)
    from retry_commits [OF assms(1,2) reads_plain [OF assms(1)] r [OF this, unfolded attempts_rmw]] WUpdate show ?thesis unfolding if_None_iff by simp
  next
    case (WVersion ver v)
    with assms(4,5) have "k_retry (cs_kube s) (versionAttempt s ver v) w = (w', None)" by (simp add: cs_CreateVersion_def)
    from retry_commits [OF assms(1,2) reads_getOrCreate [OF assms(1)] r [OF this, unfolded attempts_rmw]] WVersion show ?thesis by simp
  qed
qed

subsection \<open>What is stored\<close>

text \<open>JSON leaves out the environment and the secret references.\<close>

definition strip :: "Artifact \<Rightarrow> Artifact" where
  "strip a = a\<lparr>art_EnvVars := Map.empty, art_SecretRefs := Map.empty\<rparr>"

definition stripV :: "ArtifactVersion \<Rightarrow> ArtifactVersion" where
  "stripV v = v\<lparr>av_EnvVars := Map.empty, av_SecretRefs := Map.empty\<rparr>"

definition codec_ok :: "'j codec \<Rightarrow> bool" where
  "codec_ok co \<longleftrightarrow> (\<forall>a v. co_encA co a = Ok v \<longrightarrow> co_decA co v = Ok (strip a)) \<and> (\<forall>a v. co_encV co a = Ok v \<longrightarrow> co_decV co v = Ok (stripV a))"

text \<open>An API server without other clients and failures.\<close>

definition undisturbed :: "'j kube \<Rightarrow> bool" where
  "undisturbed k \<longleftrightarrow> api_server k (\<lambda>n c. c) (\<lambda>n. None) \<and> retries k \<and> (\<forall>d. mset (k_iter k d) = mset d)"

lemma undisturbed_calls:
  assumes "undisturbed k"
  shows "getConfigMap k name (c, n) = ((fst (kget name c), n + 1), snd (kget name c))" "k_update k name m (c, n) = ((fst (kupdate name m c), n + 1), snd (kupdate name m c))"
  using assms by (simp_all add: undisturbed_def server_calls [where mv = "\<lambda>n c. c" and fl = "\<lambda>n. None"] kcall_def)

definition cs_view :: "'j ConfigMapStore \<Rightarrow> 'j cluster \<Rightarrow> abstract_store" where
  "cs_view s c = (\<lambda>i. case c (cs_name s) of None \<Rightarrow> None
     | Some m \<Rightarrow> (case map_of (cm_data m) i of None \<Rightarrow> None | Some v \<Rightarrow> (case co_decA (cs_codec s) v of Ok a \<Rightarrow> Some a | Err _ \<Rightarrow> None)))"

definition cs_inv :: "'j ConfigMapStore \<Rightarrow> 'j cluster \<Rightarrow> bool" where
  "cs_inv s c \<longleftrightarrow> (\<exists>m. c (cs_name s) = Some m \<and> distinct (map fst (cm_data m)) \<and> (\<forall>e \<in> set (cm_data m). \<exists>a. co_decA (cs_codec s) (snd e) = Ok a))"

fun cs_step :: "'j ConfigMapStore \<Rightarrow> store_op \<Rightarrow> 'j kworld \<Rightarrow> 'j kworld \<times> cm_error option" where
  "cs_step s (OCreate a) = cs_Create s a"
| "cs_step s (OUpdate a) = cs_Update s a"
| "cs_step s (ODelete i) = cs_Delete s i"

fun strip_op :: "store_op \<Rightarrow> store_op" where
  "strip_op (OCreate a) = OCreate (strip a)"
| "strip_op (OUpdate a) = OUpdate (strip a)"
| "strip_op (ODelete i) = ODelete i"

lemma map_of_remove: "map_of (remove_key key d) = (map_of d)(key := None)"
  by (induction d) (auto simp: remove_key_def fun_eq_iff)

lemma map_of_cm_put: "map_of (put key v d) = (map_of d)(key \<mapsto> v)"
  using map_of_remove [of key d] by (simp add: put_def remove_key_def)

lemma view_upd:
  assumes "c (cs_name s) = Some m"
  shows "co_decA (cs_codec s) v = Ok a \<Longrightarrow> cs_view s (c(cs_name s \<mapsto> \<lparr>cm_rv = r, cm_data = put i v (cm_data m)\<rparr>)) = (cs_view s c)(i \<mapsto> a)"
    "cs_view s (c(cs_name s \<mapsto> \<lparr>cm_rv = r, cm_data = remove_key i (cm_data m)\<rparr>)) = (cs_view s c)(i := None)"
  using assms by (auto simp: cs_view_def map_of_cm_put map_of_remove fun_eq_iff)

lemma inv_upd:
  assumes "cs_inv s c" "c (cs_name s) = Some m"
  shows "co_decA (cs_codec s) v = Ok a \<Longrightarrow> cs_inv s (c(cs_name s \<mapsto> \<lparr>cm_rv = r, cm_data = put i v (cm_data m)\<rparr>))"
    "cs_inv s (c(cs_name s \<mapsto> \<lparr>cm_rv = r, cm_data = remove_key i (cm_data m)\<rparr>))"
  using assms by (auto simp: cs_inv_def put_def remove_key_def distinct_map_filter)

lemma find_map_filter: "find P (List.map_filter f xs) = None \<longleftrightarrow> (\<forall>y \<in> set xs. \<forall>a. f y = Some a \<longrightarrow> \<not> P a)"
  by (induction xs) (simp_all add: List.map_filter_simps split: option.split)

lemma find_None_set: "mset xs = mset ys \<Longrightarrow> find P (List.map_filter f xs) = None \<longleftrightarrow> (\<forall>y \<in> set ys. \<forall>a. f y = Some a \<longrightarrow> \<not> P a)"
  unfolding find_map_filter by (drule mset_eq_setD) simp

lemma find_name_view:
  assumes "undisturbed (cs_kube s)" "cs_inv s c" "c (cs_name s) = Some m"
  shows "find_name s n (cm_data m) = None \<longleftrightarrow> \<not> (\<exists>i b. named (cs_view s c) n i b)"
proof -
  let ?f = "\<lambda>e :: string \<times> _. case co_decA (cs_codec s) (snd e) of Ok a \<Rightarrow> Some a | Err _ \<Rightarrow> None"
  have d: "distinct (map fst (cm_data m))" using assms(2,3) by (simp add: cs_inv_def)
  have "find_name s n (cm_data m) = None \<longleftrightarrow> (\<forall>e \<in> set (cm_data m). \<forall>a. ?f e = Some a \<longrightarrow> art_Name a \<noteq> n)"
    unfolding find_name_def using assms(1) by (intro find_None_set) (simp add: undisturbed_def)
  also have "\<dots> \<longleftrightarrow> \<not> (\<exists>i b. named (cs_view s c) n i b)"
  proof -
    have e: "(i, v) \<in> set (cm_data m) \<longleftrightarrow> map_of (cm_data m) i = Some v" for i v
      using map_of_eq_Some_iff [OF d] by blast
    have v: "cs_view s c i = Some b \<longleftrightarrow> (\<exists>v. (i, v) \<in> set (cm_data m) \<and> co_decA (cs_codec s) v = Ok b)" for i b
      unfolding e cs_view_def assms(3) by (simp split: option.split sum.split)
    have f: "?f e = Some a \<longleftrightarrow> co_decA (cs_codec s) (snd e) = Ok a" for e a by (simp split: sum.split)
    show ?thesis unfolding f named_def v by force
  qed
  finally show ?thesis .
qed

lemma one_attempt:
  assumes "undisturbed k" "\<And>x. snd (f w) = Some x \<Longrightarrow> \<not> is_conflict x"
  shows "k_retry k f w = f w"
proof -
  have "retried f w (k_retry k f w)" using assms(1) unfolding undisturbed_def retries_def by blast
  then show ?thesis using assms(2) by cases auto
qed

lemma undisturbed_get:
  assumes "undisturbed k" "c name = Some m"
  shows "getConfigMap k name (c, n) = ((c, n + 1), Ok m)" "getOrCreateConfigMap k name (c, n) = ((c, n + 1), Ok m)"
  using assms by (simp_all add: getOrCreateConfigMap_def undisturbed_calls kget_def)

lemma undisturbed_update:
  assumes "undisturbed k" "c name = Some m"
  shows "updateConfigMap k co name (m\<lparr>cm_data := d\<rparr>) (c, n) =
     (if data_bytes co d > maxConfigMapBytes then ((c, n), Some (CTooBig name (data_bytes co d)))
      else ((c(name \<mapsto> \<lparr>cm_rv = cm_rv m + 1, cm_data = d\<rparr>), n + 1), None))"
  using assms by (cases m) (simp add: updateConfigMap_def undisturbed_calls kupdate_def)

lemma versionsName_other: "versionsName s \<noteq> cs_name s"
  by (simp add: versionsName_def)

lemma cleanup_frame:
  assumes "undisturbed (cs_kube s)"
  shows "\<exists>c' n'. k_retry (cs_kube s) (cleanupAttempt s i) (c, n) = ((c', n'), snd (k_retry (cs_kube s) (cleanupAttempt s i) (c, n))) \<and> c' (cs_name s) = c (cs_name s)"
proof -
  have "\<exists>c' n' e. cleanupAttempt s i (c, n) = ((c', n'), e) \<and> c' (cs_name s) = c (cs_name s) \<and> (\<forall>x. e = Some x \<longrightarrow> \<not> is_conflict x)"
  proof (cases "c (versionsName s)")
    case None
    then show ?thesis using assms by (simp add: cleanupAttempt_def undisturbed_calls kget_def)
  next
    case (Some m)
    then show ?thesis using versionsName_other [of s]
      by (simp add: cleanupAttempt_def undisturbed_get [OF assms] undisturbed_update [OF assms] Let_def is_conflict_def)
  qed
  then obtain c' n' e where "cleanupAttempt s i (c, n) = ((c', n'), e)" "c' (cs_name s) = c (cs_name s)" "\<And>x. e = Some x \<Longrightarrow> \<not> is_conflict x" by blast
  with one_attempt [OF assms, of "cleanupAttempt s i" "(c, n)"] show ?thesis by simp
qed

lemma frame_view: "c' (cs_name s) = c (cs_name s) \<Longrightarrow> cs_view s c' = cs_view s c \<and> (cs_inv s c' \<longleftrightarrow> cs_inv s c)"
  by (simp add: cs_view_def cs_inv_def)

lemma view_None: "cs_inv s c \<Longrightarrow> c (cs_name s) = Some m \<Longrightarrow> cs_view s c i = None \<longleftrightarrow> map_of (cm_data m) i = None"
  by (auto simp: cs_view_def cs_inv_def split: option.splits sum.splits dest!: map_of_SomeD)

text \<open>The abstract errors of a result.\<close>

definition agrees :: "'j ConfigMapStore \<Rightarrow> store_op \<Rightarrow> 'j cluster \<Rightarrow> 'j cluster \<Rightarrow> cm_error option \<Rightarrow> bool" where
  "agrees s op c c' e \<longleftrightarrow> (\<exists>x. spec_do op (cs_view s c) = (cs_view s c', x) \<and> e = map_option CApi x)"

definition refused :: "'j ConfigMapStore \<Rightarrow> 'j cluster \<Rightarrow> 'j cluster \<Rightarrow> cm_error option \<Rightarrow> bool" where
  "refused s c c' e \<longleftrightarrow> cs_view s c' = cs_view s c \<and> (\<exists>t b. e = Some (CTooBig t b) \<or> e = Some (CMarshal t))"

lemma strip_simps [simp]: "art_Name (strip a) = art_Name a" "art_ID (strip a) = art_ID a"
  by (simp_all add: strip_def)

lemma spec_error_keeps: "spec_do op m = (m', Some e) \<Longrightarrow> m' = m"
  by (cases op) (auto split: if_splits)

lemma undisturbed_rmw:
  assumes "undisturbed k" "c name = Some m" "rd (c, n) = ((c, n + 1), Ok m)" "\<And>e. check (cm_data m) = Some e \<Longrightarrow> \<not> is_conflict e"
  shows "k_retry k (rmw rd k co name check f) (c, n) =
    (case check (cm_data m) of Some e \<Rightarrow> ((c, n + 1), Some e)
     | None \<Rightarrow> if data_bytes co (f (cm_data m)) > maxConfigMapBytes then ((c, n + 1), Some (CTooBig name (data_bytes co (f (cm_data m)))))
        else ((c(name \<mapsto> \<lparr>cm_rv = cm_rv m + 1, cm_data = f (cm_data m)\<rparr>), n + 1 + 1), None))" (is "_ = ?r")
proof -
  have "rmw rd k co name check f (c, n) = ?r"
    using undisturbed_update [where c = c and name = name, OF assms(1,2)] assms(3) by (simp add: rmw_def split: option.split)
  moreover have "\<not> is_conflict x" if "snd ?r = Some x" for x
    using that assms(4) by (auto simp: is_conflict_def split: option.splits if_splits)
  ultimately show ?thesis using one_attempt [OF assms(1), of "rmw rd k co name check f" "(c, n)"] by metis
qed

text \<open>A write of the store, in terms of the abstract map.\<close>

lemma write_agrees:
  assumes "undisturbed (cs_kube s)" "cs_inv s c" "c (cs_name s) = Some m" "rd (c, n) = ((c, n + 1), Ok m)"
    and check: "check (cm_data m) = map_option CApi (snd (spec_do op (cs_view s c)))"
    and result: "check (cm_data m) = None \<Longrightarrow> fst (spec_do op (cs_view s c)) = cs_view s (c(cs_name s \<mapsto> \<lparr>cm_rv = cm_rv m + 1, cm_data = f (cm_data m)\<rparr>)) \<and>
       cs_inv s (c(cs_name s \<mapsto> \<lparr>cm_rv = cm_rv m + 1, cm_data = f (cm_data m)\<rparr>))"
    and "k_retry (cs_kube s) (rmw rd (cs_kube s) (cs_codec s) (cs_name s) check f) (c, n) = ((c', n'), e)"
  shows "cs_inv s c' \<and> (refused s c c' e \<or> agrees s op c c' e)"
proof -
  have r: "((c', n'), e) = (case check (cm_data m) of Some e \<Rightarrow> ((c, n + 1), Some e)
     | None \<Rightarrow> if data_bytes (cs_codec s) (f (cm_data m)) > maxConfigMapBytes then ((c, n + 1), Some (CTooBig (cs_name s) (data_bytes (cs_codec s) (f (cm_data m)))))
        else ((c(cs_name s \<mapsto> \<lparr>cm_rv = cm_rv m + 1, cm_data = f (cm_data m)\<rparr>), n + 1 + 1), None))"
    unfolding assms(7) [symmetric]
    by (rule undisturbed_rmw [where c = c and rd = rd and name = "cs_name s", OF assms(1,3,4)]) (use check in \<open>auto simp: is_conflict_def\<close>)
  obtain v x where v: "spec_do op (cs_view s c) = (v, x)" by fastforce
  show ?thesis
  proof (cases x)
    case (Some y)
    then have "c' = c" "e = Some (CApi y)" "v = cs_view s c" using r check v spec_error_keeps [of op "cs_view s c"] by auto
    then show ?thesis using assms(2) v Some by (simp add: agrees_def)
  next
    case None
    with check v have "check (cm_data m) = None" by simp
    with r result v None assms(2) show ?thesis by (auto simp: agrees_def refused_def split: if_splits)
  qed
qed


lemma cs_steps_agree:
  assumes "undisturbed (cs_kube s)" "codec_ok (cs_codec s)" "cs_inv s c" "cs_step s op (c, n) = ((c', n'), e)"
  shows "cs_inv s c' \<and> (refused s c c' e \<or> agrees s (strip_op op) c c' e)"
proof -
  obtain m where m: "c (cs_name s) = Some m" using assms(3) by (auto simp: cs_inv_def)
  note fn = find_name_view [OF assms(1,3) m]
  note vn = view_None [OF assms(3) m]
  note rd = undisturbed_get(2) [where c = c and name = "cs_name s", OF assms(1) m]
  have pr: "plain_read (cs_kube s) (cs_name s) (c, n) = ((c, n + 1), Ok m)" for n
    by (simp add: plain_read_def undisturbed_get(1) [where c = c and name = "cs_name s", OF assms(1) m])
  have up: "cs_view s (c(cs_name s \<mapsto> \<lparr>cm_rv = r, cm_data = put i v (cm_data m)\<rparr>)) = (cs_view s c)(i \<mapsto> b)"
      "cs_inv s (c(cs_name s \<mapsto> \<lparr>cm_rv = r, cm_data = put i v (cm_data m)\<rparr>))" if "co_decA (cs_codec s) v = Ok b" for r i v b
    using view_upd(1) [where c = c and s = s, OF m that] inv_upd(1) [OF assms(3) m that] by simp_all
  show ?thesis
  proof (cases op)
    case (OCreate a)
    show ?thesis
    proof (cases "co_encA (cs_codec s) a")
      case (Inl t)
      then show ?thesis using assms(3,4) OCreate by (auto simp: cs_Create_def refused_def)
    next
      case (Inr v)
      with assms(2) have dec: "co_decA (cs_codec s) v = Ok (strip a)" by (simp add: codec_ok_def)
      have r: "k_retry (cs_kube s) (createAttempt s a v) (c, n) = ((c', n'), e)" using assms(4) OCreate Inr by (simp add: cs_Create_def)
      show ?thesis by (rule write_agrees [where op = "strip_op op" and rd = "getOrCreateConfigMap (cs_kube s) (cs_name s)", OF assms(1,3) m rd _ _ r [unfolded attempts_rmw]])
        (use OCreate in \<open>auto simp: fn up [OF dec] split: if_splits\<close>)+
    qed
  next
    case (OUpdate a)
    show ?thesis
    proof (cases "co_encA (cs_codec s) a")
      case (Inl t)
      then show ?thesis using assms(3,4) OUpdate by (auto simp: cs_Update_def refused_def)
    next
      case (Inr v)
      with assms(2) have dec: "co_decA (cs_codec s) v = Ok (strip a)" by (simp add: codec_ok_def)
      have r: "k_retry (cs_kube s) (updateAttempt s (art_ID a) v) (c, n) = ((c', n'), e)" using assms(4) OUpdate Inr by (simp add: cs_Update_def)
      show ?thesis by (rule write_agrees [where op = "strip_op op" and rd = "plain_read (cs_kube s) (cs_name s)", OF assms(1,3) m pr _ _ r [unfolded attempts_rmw]])
        (use OUpdate in \<open>auto simp: vn up [OF dec] split: if_splits\<close>)+
    qed
  next
    case (ODelete i)
    obtain c1 n1 e1 where 1: "k_retry (cs_kube s) (deleteAttempt s i) (c, n) = ((c1, n1), e1)" by (metis prod.collapse)
    have a1: "cs_inv s c1 \<and> (refused s c c1 e1 \<or> agrees s (strip_op op) c c1 e1)"
      by (rule write_agrees [where op = "strip_op op" and rd = "plain_read (cs_kube s) (cs_name s)", OF assms(1,3) m pr _ _ 1 [unfolded attempts_rmw]])
        (use ODelete view_upd(2) [where c = c and s = s, OF m] inv_upd(2) [OF assms(3) m] in \<open>auto simp: vn split: if_splits\<close>)+
    obtain c2 n2 where 2: "fst (k_retry (cs_kube s) (cleanupAttempt s i) (c1, n1)) = (c2, n2)" "c2 (cs_name s) = c1 (cs_name s)"
      using cleanup_frame [OF assms(1), of i c1 n1] by (metis fst_conv)
    have "c' (cs_name s) = c1 (cs_name s)" "e = e1" using assms(4) ODelete 1 2 by (auto simp: cs_Delete_def split: option.splits)
    with a1 frame_view [of c' s c1] show ?thesis by (simp add: refused_def agrees_def)
  qed
qed

lemma cs_Get_view:
  assumes "undisturbed (cs_kube s)" "cs_inv s c"
  shows "snd (cs_Get s i (c, n)) = (case cs_view s c i of None \<Rightarrow> Err (CApi (ErrNotFound i)) | Some a \<Rightarrow> Ok a)"
proof -
  obtain m where m: "c (cs_name s) = Some m" "\<And>e. e \<in> set (cm_data m) \<Longrightarrow> \<exists>a. co_decA (cs_codec s) (snd e) = Ok a" using assms(2) by (auto simp: cs_inv_def)
  show ?thesis
  proof (cases "map_of (cm_data m) i")
    case None
    then show ?thesis using m(1) by (simp add: cs_Get_def cs_view_def undisturbed_get(1) [where c = c and name = "cs_name s", OF assms(1) m(1)])
  next
    case (Some v)
    with m(2) [OF map_of_SomeD [OF Some]] m(1) show ?thesis
      by (auto simp: cs_Get_def cs_view_def undisturbed_get(1) [where c = c and name = "cs_name s", OF assms(1) m(1)])
  qed
qed

text \<open>The ConfigMap store is a map from ids to artifacts that forgets environments and secret references.  Where no other client interferes, an operation on an existing ConfigMap
  keeps the store well-formed, and either does what the operation does on a map, with the errors of the API, or is refused for the size or the encoding and changes nothing.
  A Get afterwards returns what the map holds.\<close>

theorem configmap_store_is_a_map:
  assumes "undisturbed (cs_kube s)" "codec_ok (cs_codec s)" "cs_inv s c" "cs_step s op (c, n) = ((c', n'), e)"
  shows "cs_inv s c' \<and>
    ((cs_view s c' = cs_view s c \<and> (\<exists>t b. e = Some (CTooBig t b) \<or> e = Some (CMarshal t))) \<or>
     (\<exists>x. spec_do (strip_op op) (cs_view s c) = (cs_view s c', x) \<and> e = map_option CApi x)) \<and>
    snd (cs_Get s i (c', n')) = (case cs_view s c' i of None \<Rightarrow> Err (CApi (ErrNotFound i)) | Some a \<Rightarrow> Ok a)"
  using cs_steps_agree [OF assms] cs_Get_view [OF assms(1)] unfolding refused_def agrees_def by blast

subsection \<open>Examples\<close>

text \<open>A codec that keeps the values themselves, and an API server on which another client writes just before the second call.\<close>

definition plain_codec :: "(Artifact + ArtifactVersion) codec" where
  "plain_codec = \<lparr>co_encA = (\<lambda>a. Ok (Inl (strip a))), co_decA = (\<lambda>j. case j of Inl a \<Rightarrow> Ok a | Inr _ \<Rightarrow> Err ''json''),
     co_encV = (\<lambda>v. Ok (Inr (stripV v))), co_decV = (\<lambda>j. case j of Inr v \<Rightarrow> Ok v | Inl _ \<Rightarrow> Err ''json''), co_len = (\<lambda>_. 10)\<rparr>"

fun RetryOnConflict :: "nat \<Rightarrow> ('j kworld \<Rightarrow> 'j kworld \<times> cm_error option) \<Rightarrow> 'j kworld \<Rightarrow> 'j kworld \<times> cm_error option" where
  "RetryOnConflict 0 f w = f w"
| "RetryOnConflict (Suc n) f w = (case f w of
      (w', Some e) \<Rightarrow> if is_conflict e then RetryOnConflict n f w' else (w', Some e)
    | (w', None) \<Rightarrow> (w', None))"

definition kube_of :: "(nat \<Rightarrow> 'j cluster \<Rightarrow> 'j cluster) \<Rightarrow> 'j kube" where
  "kube_of mv = \<lparr>k_get = (\<lambda>name. kcall mv (\<lambda>_. None) (kget name)), k_create = (\<lambda>name d. kcall mv (\<lambda>_. None) (kcreate name d)),
     k_update = (\<lambda>name m. kcall mv (\<lambda>_. None) (kupdate name m)), k_retry = RetryOnConflict 4, k_iter = (\<lambda>d. d)\<rparr>"

definition busy :: "(string \<times> 'j) list \<Rightarrow> nat \<Rightarrow> 'j cluster \<Rightarrow> 'j cluster" where
  "busy d n c = (if n = 1 then c(''arts'' \<mapsto> \<lparr>cm_rv = (case c ''arts'' of None \<Rightarrow> 1 | Some m \<Rightarrow> cm_rv m + 1), cm_data = d\<rparr>) else c)"

lemma kube_of_server: "api_server (kube_of mv) mv (\<lambda>_. None)"
  by (simp add: api_server_def kube_of_def)

lemma RetryOnConflict_retried: "retried f w (RetryOnConflict n f w)"
proof (induction n arbitrary: w)
  case 0
  show ?case using retried.last [of f w] by simp
next
  case (Suc n)
  obtain w' e where 1: "f w = (w', e)" by fastforce
  show ?case
  proof (cases "\<exists>x. e = Some x \<and> is_conflict x")
    case True
    then show ?thesis using 1 retried.again [of f w w' _, OF _ _ Suc.IH] by auto
  next
    case False
    then show ?thesis using 1 retried.last [of f w] by (auto split: option.split)
  qed
qed

lemma kube_of_retries: "retries (kube_of mv)"
  by (simp add: retries_def kube_of_def RetryOnConflict_retried)

lemma busy_versioned: "versioned (busy d)"
  by (auto simp: versioned_def busy_def split: if_splits)

lemma quiet_undisturbed: "undisturbed (kube_of (\<lambda>_ c. c))"
  unfolding undisturbed_def using kube_of_server kube_of_retries by (auto simp: kube_of_def)

lemma plain_codec_ok: "codec_ok plain_codec"
  by (simp add: codec_ok_def plain_codec_def)

lemma retry_numeral: "RetryOnConflict (numeral j) f w = (case f w of
      (w', Some e) \<Rightarrow> if is_conflict e then RetryOnConflict (pred_numeral j) f w' else (w', Some e)
    | (w', None) \<Rightarrow> (w', None))"
  by (simp add: numeral_eq_Suc)

lemmas kube_simps = retry_numeral kcall_def kget_def kcreate_def kupdate_def getConfigMap_def getOrCreateConfigMap_def updateConfigMap_def data_bytes_def maxConfigMapBytes_def

definition busy_store :: "(Artifact + ArtifactVersion) ConfigMapStore" where
  "busy_store = \<lparr>cs_kube = kube_of (busy [(''2'', Inl (sample_artifact ''2'' ''b''))]), cs_codec = plain_codec, cs_name = ''arts''\<rparr>"

definition quiet_store :: "(Artifact + ArtifactVersion) ConfigMapStore" where
  "quiet_store = \<lparr>cs_kube = kube_of (\<lambda>_ c. c), cs_codec = plain_codec, cs_name = ''arts''\<rparr>"

definition one_map :: "(Artifact + ArtifactVersion) cluster" where
  "one_map = [''arts'' \<mapsto> \<lparr>cm_rv = 7, cm_data = [(''1'', Inl (sample_artifact ''1'' ''a''))]\<rparr>]"

lemma busy_create:
  "cs_Create busy_store (sample_artifact ''3'' ''c'') (one_map, 0) =
     (([''arts'' \<mapsto> \<lparr>cm_rv = 9, cm_data = [(''3'', Inl (sample_artifact ''3'' ''c'')), (''2'', Inl (sample_artifact ''2'' ''b''))]\<rparr>], 4), None)"
  by (simp add: cs_Create_def busy_store_def kube_of_def busy_def plain_codec_def one_map_def createAttempt_def find_name_def List.map_filter_simps
      put_def is_conflict_def kube_simps strip_def sample_artifact_def)

theorem configmap_writes_are_atomic_witness:
  "committed (busy [(''2'', Inl (sample_artifact ''2'' ''b''))]) ''arts''
     (\<lambda>d. find_name busy_store ''c'' d = None \<and> data_bytes plain_codec (put ''3'' (Inl (sample_artifact ''3'' ''c'')) d) \<le> maxConfigMapBytes)
     (put ''3'' (Inl (sample_artifact ''3'' ''c''))) (one_map, 0)
     ([''arts'' \<mapsto> \<lparr>cm_rv = 9, cm_data = [(''3'', Inl (sample_artifact ''3'' ''c'')), (''2'', Inl (sample_artifact ''2'' ''b''))]\<rparr>], 4)"
proof -
  let ?x = "WCreate (sample_artifact ''3'' ''c'') (Inl (sample_artifact ''3'' ''c''))" and ?mv = "busy [(''2'', Inl (sample_artifact ''2'' ''b''))]"
  have "write_encoded busy_store ?x" by (simp add: busy_store_def plain_codec_def strip_def sample_artifact_def)
  moreover have "api_server (cs_kube busy_store) ?mv (\<lambda>_. None)" "retries (cs_kube busy_store)" by (simp_all add: busy_store_def kube_of_server kube_of_retries)
  ultimately show ?thesis using configmap_writes_are_atomic [of busy_store ?mv _ ?x "(one_map, 0)", OF _ busy_versioned] busy_create
    by (simp add: sample_artifact_def) (simp add: busy_store_def)
qed

theorem configmap_store_is_a_map_witness:
  "snd (cs_Delete quiet_store ''1'' (one_map, 0)) = None \<and>
   snd (cs_Get quiet_store ''1'' (fst (cs_Delete quiet_store ''1'' (one_map, 0)))) = Err (CApi (ErrNotFound ''1''))"
proof -
  have inv: "undisturbed (cs_kube quiet_store)" "codec_ok (cs_codec quiet_store)" "cs_inv quiet_store one_map"
    by (simp_all add: quiet_store_def quiet_undisturbed plain_codec_ok cs_inv_def one_map_def) (simp add: plain_codec_def)
  have d: "cs_step quiet_store (ODelete ''1'') (one_map, 0) = (([''arts'' \<mapsto> \<lparr>cm_rv = 8, cm_data = []\<rparr>], 3), None)"
    by (simp add: cs_Delete_def quiet_store_def kube_of_def plain_codec_def one_map_def deleteAttempt_def cleanupAttempt_def versionsName_def
        remove_key_def kube_simps)
  show ?thesis using configmap_store_is_a_map [OF inv d, of "''1''"] d by (simp add: cs_view_def quiet_store_def)
qed

text \<open>The first write of two replicas: the ConfigMap does not exist, the other replica creates it between the read and the creation, and the write fails with the API server's
  AlreadyExists, which is not a conflict and is not retried.\<close>

theorem first_write_can_fail:
  "snd (cs_Create busy_store (sample_artifact ''3'' ''c'') (Map.empty, 0)) = Some (CCreating (KAlreadyExists ''arts''))"
  by (simp add: cs_Create_def busy_store_def kube_of_def busy_def plain_codec_def createAttempt_def is_conflict_def kube_simps)

text \<open>Deleting the artifact \<open>a\<close> also deletes the versions of the artifact \<open>a-v1\<close>: the keys of the versions are selected by a prefix.\<close>

theorem delete_takes_versions_of_another:
  "snd (cs_GetVersion quiet_store ''a-v1'' 2 (fst (cs_Delete quiet_store ''a''
     ([''arts'' \<mapsto> \<lparr>cm_rv = 1, cm_data = [(''a'', v)]\<rparr>, ''arts-versions'' \<mapsto> \<lparr>cm_rv = 1, cm_data = [(''a-v1-v2'', u)]\<rparr>], 0)))) =
   Err (CApi (ErrVersionNotFound ''a-v1'' 2))"
  by (simp add: cs_Delete_def cs_GetVersion_def quiet_store_def kube_of_def plain_codec_def deleteAttempt_def cleanupAttempt_def versionsName_def
        remove_key_def HasPrefix_def version_key_def kube_simps)

end
