(* ===== verification/Blobs.thy ===== *)
theory Blobs
  imports Paths Deploy_Env
begin

section \<open>Source blobs\<close>

text \<open>
  \<open>src/internal/tarball\<close>: the store that keeps the uploaded source of every version on vibeD's own volume (\<open>served.go\<close>), the handler that serves it to the agents
  (\<open>blob_handler.go\<close>), the S3 backend (\<open>s3.go\<close>) and the choice between them (\<open>store.go\<close>).

  A file system is a map from paths to inodes and their contents, so that a hard link is two names of one inode.  Every system call may fail (\<open>fl\<close>).  The name of a temporary
  file is a parameter; a new file gets the next inode number.
\<close>

subsection \<open>The file system\<close>

record blobfs =
  bf_names :: "string \<rightharpoonup> nat"
  bf_data :: "nat \<Rightarrow> byte list"
  bf_next :: nat

datatype blob_call = FLink | FRename | FCreate | FWrite | FClose | FRemove | FSeek

type_synonym blob_faults = "blob_call \<Rightarrow> bool"

definition read_file :: "blobfs \<Rightarrow> string \<Rightarrow> byte list option" where
  "read_file fs p = map_option (bf_data fs) (bf_names fs p)"

definition os_Link :: "blob_faults \<Rightarrow> string \<Rightarrow> string \<Rightarrow> blobfs \<Rightarrow> blobfs \<times> bool" where
  "os_Link fl old new fs = (case bf_names fs old of
      None \<Rightarrow> (fs, False)
    | Some i \<Rightarrow> if fl FLink \<or> bf_names fs new \<noteq> None then (fs, False) else (fs\<lparr>bf_names := (bf_names fs)(new \<mapsto> i)\<rparr>, True))"

text \<open>Renaming one name of a file to another name of the same file does nothing (\<open>rename(2)\<close>).\<close>

definition os_Rename :: "blob_faults \<Rightarrow> string \<Rightarrow> string \<Rightarrow> blobfs \<Rightarrow> blobfs \<times> bool" where
  "os_Rename fl old new fs = (case bf_names fs old of
      None \<Rightarrow> (fs, False)
    | Some i \<Rightarrow> if fl FRename then (fs, False)
                else if bf_names fs new = Some i then (fs, True)
                else (fs\<lparr>bf_names := (bf_names fs)(old := None, new \<mapsto> i)\<rparr>, True))"

definition os_Remove :: "blob_faults \<Rightarrow> string \<Rightarrow> blobfs \<Rightarrow> blobfs" where
  "os_Remove fl p fs = (if fl FRemove then fs else fs\<lparr>bf_names := (bf_names fs)(p := None)\<rparr>)"

definition new_file :: "string \<Rightarrow> byte list \<Rightarrow> blobfs \<Rightarrow> blobfs" where
  "new_file p bs fs = fs\<lparr>bf_names := (bf_names fs)(p \<mapsto> bf_next fs), bf_data := (bf_data fs)(bf_next fs := bs), bf_next := bf_next fs + 1\<rparr>"

definition TrimRight :: "string \<Rightarrow> byte \<Rightarrow> string" where
  "TrimRight s c = rev (dropWhile (\<lambda>x. x = c) (rev s))"

subsection \<open>The served store\<close>

record servedStore =
  ss_basePath :: string
  ss_publicBaseURL :: string

definition objectName :: "string \<Rightarrow> string" where
  "objectName i = i @ ''.tar.gz''"

definition BlobPathPrefix :: string where
  "BlobPathPrefix = ''/internal/sources/''"

definition newServedStore :: "string option \<Rightarrow> string \<Rightarrow> string \<Rightarrow> (string, servedStore) result" where
  "newServedStore mkdirErr basePath publicBaseURL =
     (if basePath = '''' then Err ''tarball served: storage.tarball.served.basePath is required''
      else if publicBaseURL = '''' then Err ''tarball served: storage.tarball.served.publicBaseURL is required''
      else case mkdirErr of Some e \<Rightarrow> Err e | None \<Rightarrow> Ok \<lparr>ss_basePath = basePath, ss_publicBaseURL = TrimRight publicBaseURL (CHR ''/'')\<rparr>)"

text \<open>What is put: an open file (its name, its inode and the read offset) or any other reader, which yields bytes and perhaps an error.\<close>

datatype blob_source = SFile string nat nat | SReader "byte list" "string option"

fun source_bytes :: "blobfs \<Rightarrow> blob_source \<Rightarrow> byte list" where
  "source_bytes fs (SFile name i off) = drop off (bf_data fs i)"
| "source_bytes fs (SReader bs e) = bs"

fun source_err :: "blob_source \<Rightarrow> string option" where
  "source_err (SFile name i off) = None"
| "source_err (SReader bs e) = e"

definition linkInto :: "blob_faults \<Rightarrow> string \<Rightarrow> string \<Rightarrow> nat \<Rightarrow> string \<Rightarrow> blobfs \<Rightarrow> blobfs \<times> bool" where
  "linkInto fl stamp name off dest fs =
     (if name = '''' then (fs, False)
      else if fl FSeek \<or> off \<noteq> 0 then (fs, False)
      else let tmp = dest @ ''.lnk-'' @ stamp in
        case os_Link fl name tmp fs of
          (fs1, False) \<Rightarrow> (fs1, False)
        | (fs1, True) \<Rightarrow> (case os_Rename fl tmp dest fs1 of (fs2, True) \<Rightarrow> (fs2, True) | (fs2, False) \<Rightarrow> (os_Remove fl tmp fs2, False)))"

definition blobURL :: "servedStore \<Rightarrow> string \<Rightarrow> string" where
  "blobURL s i = ss_publicBaseURL s @ BlobPathPrefix @ objectName i"

definition blobPath :: "servedStore \<Rightarrow> string \<Rightarrow> string" where
  "blobPath s i = JoinPath (ss_basePath s) (objectName i)"

text \<open>\<open>tmp\<close> is the name \<open>os.CreateTemp\<close> chose.\<close>

definition copyInto :: "blob_faults \<Rightarrow> string \<Rightarrow> blob_source \<Rightarrow> string \<Rightarrow> blobfs \<Rightarrow> blobfs \<times> string option" where
  "copyInto fl tmp src dest fs =
     (if fl FCreate then (fs, Some ''tarball served: temp file'')
      else let fs1 = new_file tmp (source_bytes fs src) fs in
        if source_err src \<noteq> None \<or> fl FWrite then (os_Remove fl tmp fs1, Some ''tarball served: write'')
        else if fl FClose then (os_Remove fl tmp fs1, Some ''tarball served: close'')
        else case os_Rename fl tmp dest fs1 of
          (fs2, True) \<Rightarrow> (os_Remove fl tmp fs2, None)
        | (fs2, False) \<Rightarrow> (os_Remove fl tmp fs2, Some ''tarball served: rename''))"

definition served_Put :: "servedStore \<Rightarrow> blob_faults \<Rightarrow> string \<Rightarrow> string \<Rightarrow> string \<Rightarrow> blob_source \<Rightarrow> blobfs \<Rightarrow> blobfs \<times> (string, string) result" where
  "served_Put s fl tmp stamp i src fs =
     (if i = '''' then (fs, Err ''tarball served: id is empty'')
      else case (case src of SFile name ino off \<Rightarrow> linkInto fl stamp name off (blobPath s i) fs | SReader bs e \<Rightarrow> (fs, False)) of
        (fs1, True) \<Rightarrow> (fs1, Ok (blobURL s i))
      | (fs1, False) \<Rightarrow> (case copyInto fl tmp src (blobPath s i) fs1 of (fs2, None) \<Rightarrow> (fs2, Ok (blobURL s i)) | (fs2, Some e) \<Rightarrow> (fs2, Err e)))"

text \<open>A missing blob is not an error.\<close>

definition served_Delete :: "servedStore \<Rightarrow> blob_faults \<Rightarrow> string \<Rightarrow> blobfs \<Rightarrow> blobfs \<times> string option" where
  "served_Delete s fl i fs =
     (if bf_names fs (blobPath s i) \<noteq> None \<and> fl FRemove then (fs, Some ''tarball served: delete'')
      else (fs\<lparr>bf_names := (bf_names fs)(blobPath s i := None)\<rparr>, None))"

subsection \<open>Serving\<close>

datatype blob_answer = BAnswer nat "byte list"

text \<open>\<open>http.FileServer\<close> cleans the path, as a rooted one, and opens it below the directory.\<close>

definition fileServer :: "string \<Rightarrow> blobfs \<Rightarrow> string \<Rightarrow> blob_answer" where
  "fileServer dir fs p = (case read_file fs (JoinPath dir (Clean (if HasPrefix p ''/'' then p else ''/'' @ p))) of None \<Rightarrow> BAnswer 404 [] | Some bs \<Rightarrow> BAnswer 200 bs)"

definition blobHandler :: "string \<Rightarrow> string \<Rightarrow> string \<Rightarrow> blobfs \<Rightarrow> blob_answer" where
  "blobHandler basePath meth path fs =
     (if meth \<noteq> ''GET'' \<and> meth \<noteq> ''HEAD'' then BAnswer 405 []
      else if \<not> HasSuffix path ''.tar.gz'' then BAnswer 404 []
      else let prefix = TrimRight BlobPathPrefix (CHR ''/'') in
        if HasPrefix path prefix then fileServer basePath fs (TrimPrefix path prefix) else BAnswer 404 [])"

definition NewBlobHandler :: "string \<Rightarrow> string \<Rightarrow> (string \<Rightarrow> string \<Rightarrow> blobfs \<Rightarrow> blob_answer) option" where
  "NewBlobHandler backend basePath =
     (if backend \<noteq> '''' \<and> backend \<noteq> ''served'' then None else if basePath = '''' then None else Some (blobHandler basePath))"

subsection \<open>The S3 store\<close>

text \<open>The object store is a parameter: an upload and the signing of a URL may fail.\<close>

record s3_client =
  s3_put :: "string \<Rightarrow> byte list \<Rightarrow> string option"
  s3_presign :: "string \<Rightarrow> duration \<Rightarrow> (string, string) result"
  s3_delete :: "string \<Rightarrow> string option"

definition newS3Store :: "(string \<Rightarrow> duration option) \<Rightarrow> string \<Rightarrow> string \<Rightarrow> (string, duration) result" where
  "newS3Store parseDuration bucket presignTTL =
     (if bucket = '''' then Err ''tarball s3: storage.tarball.s3.bucket is required''
      else if presignTTL = '''' then Ok (15 * minute)
      else case parseDuration presignTTL of Some d \<Rightarrow> Ok d | None \<Rightarrow> Err (''tarball s3: invalid presignTTL '' @ presignTTL))"

definition s3_Put :: "s3_client \<Rightarrow> duration \<Rightarrow> string \<Rightarrow> byte list \<Rightarrow> (string, string) result" where
  "s3_Put c ttl i bs =
     (if i = '''' then Err ''tarball s3: id is empty''
      else case s3_put c (objectName i) bs of
        Some e \<Rightarrow> Err (''tarball s3: put '' @ objectName i @ '': '' @ e)
      | None \<Rightarrow> (case s3_presign c (objectName i) ttl of Err e \<Rightarrow> Err (''tarball s3: presign '' @ objectName i @ '': '' @ e) | Ok u \<Rightarrow> Ok u))"

definition s3_Delete :: "s3_client \<Rightarrow> string \<Rightarrow> string option" where
  "s3_Delete c i = map_option (\<lambda>e. ''tarball s3: delete '' @ objectName i @ '': '' @ e) (s3_delete c (objectName i))"

text \<open>The backend that the configuration selects.\<close>

datatype tarball_store = Served servedStore | S3 duration

definition newTarballStore :: "(string, servedStore) result \<Rightarrow> (string, duration) result \<Rightarrow> string \<Rightarrow> (string, tarball_store) result" where
  "newTarballStore served s3 backend =
     (if backend \<in> {'''', ''served''} then (case served of Ok s \<Rightarrow> Ok (Served s) | Err e \<Rightarrow> Err e)
      else if backend = ''s3'' then (case s3 of Ok d \<Rightarrow> Ok (S3 d) | Err e \<Rightarrow> Err e)
      else Err (''tarball: unknown backend '' @ backend @ '' (want served|s3)''))"

subsection \<open>A put is atomic\<close>

text \<open>The file system is sane: names have inodes that were handed out.  The own temporary names are new; the file that is put still is what its name says, if the name exists.\<close>

definition fs_ok :: "blobfs \<Rightarrow> bool" where
  "fs_ok fs \<longleftrightarrow> (\<forall>p i. bf_names fs p = Some i \<longrightarrow> i < bf_next fs)"

fun source_ok :: "blobfs \<Rightarrow> blob_source \<Rightarrow> bool" where
  "source_ok fs (SFile name i off) \<longleftrightarrow> i < bf_next fs \<and> (\<forall>j. bf_names fs name = Some j \<longrightarrow> j = i)"
| "source_ok fs (SReader bs e) \<longleftrightarrow> True"

text \<open>What a put leaves unchanged and what it stores.\<close>

definition stored :: "string \<Rightarrow> string \<Rightarrow> string \<Rightarrow> byte list \<Rightarrow> bool \<Rightarrow> blobfs \<Rightarrow> blobfs \<Rightarrow> bool" where
  "stored tmp lnk dest bs ok fs fs' \<longleftrightarrow> (\<forall>p. p \<noteq> tmp \<longrightarrow> p \<noteq> lnk \<longrightarrow> read_file fs' p = (if ok \<and> p = dest then Some bs else read_file fs p))"

lemma read_new_file: "fs_ok fs \<Longrightarrow> read_file (new_file tmp bs fs) p = (if p = tmp then Some bs else read_file fs p)"
  by (cases "bf_names fs p") (auto simp: read_file_def new_file_def fs_ok_def)

lemma new_file_ok: "fs_ok fs \<Longrightarrow> fs_ok (new_file tmp bs fs)"
  by (auto simp: fs_ok_def new_file_def less_Suc_eq)

lemma read_Remove: "p \<noteq> q \<Longrightarrow> read_file (os_Remove fl q fs) p = read_file fs p"
  by (simp add: read_file_def os_Remove_def)

lemma Remove_keeps [simp]: "bf_data (os_Remove fl q fs) = bf_data fs" "bf_next (os_Remove fl q fs) = bf_next fs" "fs_ok fs \<Longrightarrow> fs_ok (os_Remove fl q fs)"
  by (auto simp: os_Remove_def fs_ok_def)

lemma read_Rename:
  assumes "os_Rename fl old new fs = (fs', b)"
  shows "b \<Longrightarrow> p \<noteq> old \<Longrightarrow> read_file fs' p = (if p = new then read_file fs old else read_file fs p)"
    "\<not> b \<Longrightarrow> fs' = fs" "bf_data fs' = bf_data fs" "bf_next fs' = bf_next fs" "fs_ok fs \<Longrightarrow> fs_ok fs'"
  using assms by (auto simp: os_Rename_def read_file_def fs_ok_def split: option.splits if_splits)

lemma read_Link:
  assumes "os_Link fl old new fs = (fs', b)"
  shows "b \<Longrightarrow> read_file fs' p = (if p = new then read_file fs old else read_file fs p)" "b \<Longrightarrow> read_file fs old \<noteq> None"
    "\<not> b \<Longrightarrow> fs' = fs" "bf_data fs' = bf_data fs" "bf_next fs' = bf_next fs" "fs_ok fs \<Longrightarrow> fs_ok fs'"
  using assms by (auto simp: os_Link_def read_file_def fs_ok_def split: option.splits if_splits)

lemma linkInto_stores:
  assumes "fs_ok fs" "source_ok fs (SFile name i off)" "linkInto fl stamp name off dest fs = (fs', b)"
  shows "stored tmp (dest @ ''.lnk-'' @ stamp) dest (drop off (bf_data fs i)) b fs fs'" "bf_data fs' = bf_data fs" "bf_next fs' = bf_next fs" "fs_ok fs'"
proof -
  let ?lnk = "dest @ ''.lnk-'' @ stamp"
  consider (keep) "fs' = fs" "\<not> b"
    | (link) fs1 c where "off = 0" "os_Link fl name ?lnk fs = (fs1, True)" "os_Rename fl ?lnk dest fs1 = (if b then (fs', c) else (fs1, c))" "c = b" "b \<or> fs' = os_Remove fl ?lnk fs1"
    using assms(3) read_Rename(2)
    by (fastforce simp: linkInto_def Let_def split: if_splits prod.splits bool.splits dest: read_Link(3))
  then have "stored tmp ?lnk dest (drop off (bf_data fs i)) b fs fs' \<and> bf_data fs' = bf_data fs \<and> bf_next fs' = bf_next fs \<and> fs_ok fs'"
  proof cases
    case keep
    then show ?thesis using assms(1) by (simp add: stored_def)
  next
    case link
    have n: "read_file fs name = Some (bf_data fs i)" using read_Link(2) [OF link(2)] assms(2) by (auto simp: read_file_def)
    show ?thesis
    proof (cases b)
      case True
      with link(3) have r: "os_Rename fl ?lnk dest fs1 = (fs', True)" using link(4) by simp
      show ?thesis using read_Rename(1) [OF r] read_Link(1) [OF link(2)] n link(1) True read_Rename(3-5) [OF r] read_Link(4-6) [OF link(2)] assms(1)
        by (auto simp: stored_def)
    next
      case False
      then show ?thesis using link(5) read_Link(1) [OF link(2)] read_Link(4-6) [OF link(2)] assms(1) by (auto simp: stored_def read_Remove)
    qed
  qed
  then show "stored tmp ?lnk dest (drop off (bf_data fs i)) b fs fs'" "bf_data fs' = bf_data fs" "bf_next fs' = bf_next fs" "fs_ok fs'" by simp_all
qed

lemma copyInto_stores:
  assumes "fs_ok fs" "tmp \<noteq> dest" "copyInto fl tmp src dest fs = (fs', e)"
  shows "stored tmp lnk dest (source_bytes fs src) (e = None) fs fs' \<and> (e = None \<longrightarrow> source_err src = None)"
proof -
  let ?fs1 = "new_file tmp (source_bytes fs src) fs"
  note n = read_new_file [OF assms(1), of tmp "source_bytes fs src"]
  consider "fs' = fs" "e \<noteq> None" | "fs' = os_Remove fl tmp ?fs1" "e \<noteq> None"
    | fs2 where "os_Rename fl tmp dest ?fs1 = (fs2, True)" "fs' = os_Remove fl tmp fs2" "e = None" "source_err src = None"
    | fs2 where "os_Rename fl tmp dest ?fs1 = (fs2, False)" "fs' = os_Remove fl tmp fs2" "e \<noteq> None"
    using assms(3) by (auto simp: copyInto_def Let_def split: if_splits prod.splits bool.splits)
  then show ?thesis
  proof cases
    case (3 fs2)
    then show ?thesis using read_Rename(1) [OF 3(1)] n assms(2) by (auto simp: stored_def read_Remove)
  next
    case (4 fs2)
    then show ?thesis using read_Rename(2) [OF 4(1)] n by (auto simp: stored_def read_Remove)
  qed (auto simp: stored_def read_Remove n)
qed

lemma stored_trans: "stored tmp lnk dest bs False fs fs1 \<Longrightarrow> stored tmp lnk dest bs ok fs1 fs2 \<Longrightarrow> stored tmp lnk dest bs ok fs fs2"
  by (simp add: stored_def)

lemma put_stores:
  assumes "fs_ok fs" "source_ok fs src" "tmp \<noteq> blobPath s i" "served_Put s fl tmp stamp i src fs = (fs', r)"
  shows "(\<forall>p. p \<noteq> tmp \<longrightarrow> p \<noteq> blobPath s i @ ''.lnk-'' @ stamp \<longrightarrow>
      read_file fs' p = (if r = Ok (blobURL s i) \<and> p = blobPath s i then Some (source_bytes fs src) else read_file fs p)) \<and>
    ((\<exists>e. r = Err e) \<or> (r = Ok (blobURL s i) \<and> source_err src = None))"
proof (cases "i = ''''")
  case True
  then show ?thesis using assms(4) by (auto simp: served_Put_def)
next
  case False
  let ?dest = "blobPath s i" let ?lnk = "?dest @ ''.lnk-'' @ stamp"
  obtain fs1 b where l: "(case src of SFile name ino off \<Rightarrow> linkInto fl stamp name off ?dest fs | SReader bs e \<Rightarrow> (fs, False)) = (fs1, b)" by fastforce
  have 1: "stored tmp ?lnk ?dest (source_bytes fs src) b fs fs1 \<and> source_bytes fs1 src = source_bytes fs src \<and> fs_ok fs1 \<and> (b \<longrightarrow> source_err src = None)"
  proof (cases src)
    case (SFile name ino off)
    with l assms(2) show ?thesis using linkInto_stores(1) [OF assms(1), of name ino off fl stamp ?dest fs1 b tmp] linkInto_stores(2-4) [OF assms(1), of name ino off fl stamp ?dest fs1 b] by simp
  next
    case (SReader bs e)
    with l show ?thesis using assms(1) by (auto simp: stored_def)
  qed
  have "stored tmp ?lnk ?dest (source_bytes fs src) (r = Ok (blobURL s i)) fs fs' \<and> ((\<exists>e. r = Err e) \<or> (r = Ok (blobURL s i) \<and> source_err src = None))"
  proof (cases b)
    case True
    then show ?thesis using assms(4) False l 1 by (simp add: served_Put_def)
  next
    case nb: False
    obtain fs2 e where c: "copyInto fl tmp src ?dest fs1 = (fs2, e)" by fastforce
    note 2 = copyInto_stores [OF conjunct1 [OF conjunct2 [OF conjunct2 [OF 1]]] assms(3) c, of ?lnk]
    have "fs' = fs2" "r = (case e of None \<Rightarrow> Ok (blobURL s i) | Some x \<Rightarrow> Err x)" using assms(4) False l nb c by (auto simp: served_Put_def split: option.splits)
    then show ?thesis using 1 2 nb stored_trans [of tmp ?lnk ?dest "source_bytes fs src" fs fs1] by (auto split: option.splits)
  qed
  then show ?thesis by (simp add: stored_def)
qed

text \<open>C34: Storing a blob is atomic.  Whichever system calls fail, and whether the upload is linked or copied, a put that reports an error has changed no file but its own temporary
  names, and one that reports success has replaced exactly the blob of its id by all the bytes of the source.\<close>

theorem blob_put_is_atomic:
  assumes "fs_ok fs" "source_ok fs src" "tmp \<noteq> blobPath s i" "served_Put s fl tmp stamp i src fs = (fs', r)"
  shows "(\<forall>p. p \<noteq> tmp \<longrightarrow> p \<noteq> blobPath s i @ ''.lnk-'' @ stamp \<longrightarrow>
      read_file fs' p = (if r = Ok (blobURL s i) \<and> p = blobPath s i then Some (source_bytes fs src) else read_file fs p)) \<and>
    ((\<exists>e. r = Err e) \<or> (r = Ok (blobURL s i) \<and> source_err src = None))"
  using assms by (rule put_stores)

definition sample_fs :: blobfs where
  "sample_fs = \<lparr>bf_names = [''/tmp/spool'' \<mapsto> 0], bf_data = (\<lambda>_. ''src''), bf_next = 1\<rparr>"

definition sample_served :: servedStore where
  "sample_served = \<lparr>ss_basePath = ''/data'', ss_publicBaseURL = ''http://vibed''\<rparr>"

lemma sample_blob:
  "fs_ok sample_fs" "source_ok sample_fs (SFile ''/tmp/spool'' 0 0)" "blobPath sample_served ''a'' = ''/data/a.tar.gz''"
  by (simp_all add: sample_fs_def fs_ok_def sample_served_def blobPath_def JoinPath_def objectName_def Clean_def cleaned_def elements_def clean_step_def IsAbs_def HasPrefix_def)

theorem blob_put_is_atomic_witness:
  "read_file (fst (served_Put sample_served (\<lambda>c. c = FRename) ''/data/.put-1'' ''1'' ''a'' (SFile ''/tmp/spool'' 0 0) sample_fs)) ''/data/a.tar.gz'' = None"
proof -
  obtain fs' r where p: "served_Put sample_served (\<lambda>c. c = FRename) ''/data/.put-1'' ''1'' ''a'' (SFile ''/tmp/spool'' 0 0) sample_fs = (fs', r)" by fastforce
  then have "r \<noteq> Ok (blobURL sample_served ''a'')"
    by (auto simp: served_Put_def linkInto_def copyInto_def os_Link_def os_Rename_def new_file_def sample_fs_def Let_def split: if_splits option.splits prod.splits)
  then show ?thesis using blob_put_is_atomic [OF sample_blob(1,2) _ p] p by (auto simp: sample_blob(3) read_file_def sample_fs_def)
qed

subsection \<open>What is put is served\<close>

lemma served_path:
  assumes "CHR ''/'' \<notin> set i" "dir \<noteq> ''''"
  shows "JoinPath dir (Clean (''/'' @ objectName i)) = JoinPath dir (objectName i)"
proof -
  let ?n = "objectName i"
  have n: "CHR ''/'' \<notin> set ?n" "?n \<noteq> ''''" "?n \<noteq> ''.''" "?n \<noteq> ''..''"
    using assms(1) by (auto simp: objectName_def append_eq_Cons_conv)
  have e: "elements ?n = [?n]" using n by (simp add: elements_def split_on_no_sep)
  have "elements (''/'' @ ?n) = [?n]" using elements_append [of "''''" ?n] e by (simp add: elements_def)
  then have "Clean (''/'' @ ?n) = ''/'' @ ?n" using n by (simp add: Clean_def cleaned_def clean_step_def IsAbs_def HasPrefix_def)
  moreover have "elements (dir @ ''/'' @ ''/'' @ ?n) = elements (dir @ ''/'' @ ?n)"
    using elements_append [of dir "''/'' @ ?n"] elements_append [of dir ?n] elements_append [of "''''" ?n] by (simp add: elements_def)
  moreover have "IsAbs (dir @ ''/'' @ ''/'' @ ?n) = IsAbs (dir @ ''/'' @ ?n)" using assms(2) by (simp add: IsAbs_iff)
  ultimately show ?thesis using assms(2) n by (simp add: JoinPath_def Clean_def cleaned_def)
qed

text \<open>A stored blob is what an agent downloads: after a put that returned a URL, the handler answers the path of that URL with exactly the bytes of the source, and after a
  deletion with 404.\<close>

theorem blob_round_trip:
  assumes "fs_ok fs" "source_ok fs src" "tmp \<noteq> blobPath s i" "ss_basePath s \<noteq> ''''" "CHR ''/'' \<notin> set i" "served_Put s fl tmp stamp i src fs = (fs', Ok url)"
  shows "url = ss_publicBaseURL s @ BlobPathPrefix @ objectName i \<and>
    blobHandler (ss_basePath s) ''GET'' (BlobPathPrefix @ objectName i) fs' = BAnswer 200 (source_bytes fs src) \<and>
    blobHandler (ss_basePath s) ''GET'' (BlobPathPrefix @ objectName i) (fst (served_Delete s (\<lambda>_. False) i fs')) = BAnswer 404 []"
proof -
  have g: "blobHandler (ss_basePath s) ''GET'' (BlobPathPrefix @ objectName i) f = (case read_file f (blobPath s i) of None \<Rightarrow> BAnswer 404 [] | Some bs \<Rightarrow> BAnswer 200 bs)" for f
    using served_path [OF assms(5,4)]
    by (simp add: blobHandler_def fileServer_def BlobPathPrefix_def TrimRight_def TrimPrefix_def HasPrefix_def HasSuffix_def objectName_def blobPath_def)
  from put_stores [OF assms(1-3,6)] have "url = blobURL s i" "read_file fs' (blobPath s i) = Some (source_bytes fs src)" using assms(3) by auto
  then show ?thesis by (simp add: g blobURL_def) (simp add: served_Delete_def read_file_def)
qed

theorem blob_round_trip_witness:
  "blobHandler ''/data'' ''GET'' ''/internal/sources/a.tar.gz'' (fst (served_Put sample_served (\<lambda>_. False) ''/data/.put-1'' ''1'' ''a'' (SFile ''/tmp/spool'' 0 0) sample_fs)) = BAnswer 200 ''src''"
proof -
  obtain fs' r where p: "served_Put sample_served (\<lambda>_. False) ''/data/.put-1'' ''1'' ''a'' (SFile ''/tmp/spool'' 0 0) sample_fs = (fs', r)" by fastforce
  then have "r = Ok (blobURL sample_served ''a'')"
    by (auto simp: served_Put_def linkInto_def os_Link_def os_Rename_def sample_fs_def Let_def sample_blob(3) split: if_splits)
  with p blob_round_trip [OF sample_blob(1,2), of "''/data/.put-1''" sample_served "''a''" "\<lambda>_. False" "''1''" fs'] show ?thesis
    by (auto simp: sample_blob(3)) (simp_all add: sample_served_def BlobPathPrefix_def objectName_def sample_fs_def)
qed

end
