(* ===== verification/Agent_Client.thy ===== *)
theory Agent_Client
  imports Agent_Facts Versions
begin

section \<open>The client of the agent\<close>

text \<open>
  \<open>src/internal/runneragent/client.go\<close>, with which the controller and the validator talk to an agent, and \<open>src/internal/controller/probe.go\<close>.  The connection is a parameter: it
  delivers a request and brings back a response, or fails.  A body is the value its JSON stands for.
\<close>

subsection \<open>Requests\<close>

record Client =
  cl_baseURL :: string
  cl_token :: string

definition trimSlashes :: "string \<Rightarrow> string" where
  "trimSlashes s = rev (dropWhile (\<lambda>c. c = CHR ''/'') (rev s))"

definition NewClient :: "string \<Rightarrow> string \<Rightarrow> Client" where
  "NewClient controlURL token = \<lparr>cl_baseURL = trimSlashes controlURL, cl_token = token\<rparr>"

text \<open>A connection to the agent at a base URL.\<close>

type_synonym 's wire = "string \<Rightarrow> request \<Rightarrow> 's \<Rightarrow> 's \<times> (string, response) result"

datatype client_error = WireError string string string | AgentError string string string int | StatusError string string int body | DecodeError

definition client_do :: "'s wire \<Rightarrow> Client \<Rightarrow> string \<Rightarrow> string \<Rightarrow> string \<Rightarrow> (string, AgentInjectRequest) result \<Rightarrow> 's \<Rightarrow> 's \<times> (client_error, body) result" where
  "client_do wire c meth path lines rb s =
     (let req = \<lparr>rq_Method = meth, rq_Path = path, rq_Authorization = (if cl_token c \<noteq> '''' then ''Bearer '' @ cl_token c else ''''), rq_lines = lines, rq_body = rb\<rparr>;
          path' = path @ (if lines \<noteq> '''' then ''?lines='' @ lines else '''') in
      case wire (cl_baseURL c) req s of
        (s', Err e) \<Rightarrow> (s', Err (WireError meth path' e))
      | (s', Ok (code, b)) \<Rightarrow>
          if code \<ge> 300 then
            (case b of ErrorBody e \<Rightarrow> (s', Err (if e \<noteq> '''' then AgentError meth path' e code else StatusError meth path' code b)) | _ \<Rightarrow> (s', Err (StatusError meth path' code b)))
          else (s', Ok b))"

definition no_body :: "(string, AgentInjectRequest) result" where
  "no_body = Err ''EOF''"

definition decode_status :: "'s \<times> (client_error, body) result \<Rightarrow> 's \<times> (client_error, StatusResponse) result" where
  "decode_status r = (case r of (s', Err e) \<Rightarrow> (s', Err e) | (s', Ok (StatusBody x)) \<Rightarrow> (s', Ok x) | (s', Ok _) \<Rightarrow> (s', Err DecodeError))"

definition client_Inject :: "'s wire \<Rightarrow> Client \<Rightarrow> AgentInjectRequest \<Rightarrow> 's \<Rightarrow> 's \<times> (client_error, StatusResponse) result" where
  "client_Inject wire c req s = decode_status (client_do wire c ''POST'' ''/inject'' '''' (Ok req) s)"

definition client_Status :: "'s wire \<Rightarrow> Client \<Rightarrow> 's \<Rightarrow> 's \<times> (client_error, StatusResponse) result" where
  "client_Status wire c s = decode_status (client_do wire c ''GET'' ''/status'' '''' no_body s)"

definition client_Logs :: "'s wire \<Rightarrow> Client \<Rightarrow> int \<Rightarrow> 's \<Rightarrow> 's \<times> (client_error, string list) result" where
  "client_Logs wire c lines s =
     (case client_do wire c ''GET'' ''/logs'' (if lines > 0 then Itoa lines else '''') no_body s of
        (s', Err e) \<Rightarrow> (s', Err e) | (s', Ok (LogsBody ls)) \<Rightarrow> (s', Ok ls) | (s', Ok _) \<Rightarrow> (s', Err DecodeError))"

definition client_Stop :: "'s wire \<Rightarrow> Client \<Rightarrow> 's \<Rightarrow> 's \<times> (client_error, StatusResponse) result" where
  "client_Stop wire c s = decode_status (client_do wire c ''POST'' ''/stop'' '''' no_body s)"

definition client_Healthz :: "'s wire \<Rightarrow> Client \<Rightarrow> 's \<Rightarrow> 's \<times> client_error option" where
  "client_Healthz wire c s = (case client_do wire c ''GET'' ''/healthz'' '''' no_body s of (s', Err e) \<Rightarrow> (s', Some e) | (s', Ok _) \<Rightarrow> (s', None))"

definition client_Info :: "'s wire \<Rightarrow> Client \<Rightarrow> 's \<Rightarrow> 's \<times> (client_error, InfoResponse) result" where
  "client_Info wire c s = (case client_do wire c ''GET'' ''/info'' '''' no_body s of
     (s', Err e) \<Rightarrow> (s', Err e) | (s', Ok (InfoBody x)) \<Rightarrow> (s', Ok x) | (s', Ok _) \<Rightarrow> (s', Err DecodeError))"

datatype probe_error = EmptyTarget | ProbeFailed client_error

definition IsReady :: "'s wire \<Rightarrow> string \<Rightarrow> string \<Rightarrow> 's \<Rightarrow> 's \<times> (probe_error, bool) result" where
  "IsReady wire token target s =
     (if target = '''' then (s, Err EmptyTarget)
      else case client_Healthz wire (NewClient (''http://'' @ target) token) s of (s', Some e) \<Rightarrow> (s', Err (ProbeFailed e)) | (s', None) \<Rightarrow> (s', Ok True))"

subsection \<open>Client and agent\<close>

text \<open>A connection that works, to an agent.\<close>

definition to_agent :: "agent_env \<Rightarrow> agent_world wire" where
  "to_agent en url req s = (case agentHandler en req s of (s', resp) \<Rightarrow> (s', Ok resp))"

text \<open>The token the agent expects, where it expects one.\<close>

definition token_fits :: "agent_env \<Rightarrow> Client \<Rightarrow> bool" where
  "token_fits en c \<longleftrightarrow> cl_token c = cf_Token (en_cfg en) \<and> (cl_token c = '''' \<longrightarrow> \<not> cf_RequireAuth (en_cfg en))"

lemma agentAuth_fits:
  "token_fits en c \<Longrightarrow> rq_Authorization r = (if cl_token c \<noteq> '''' then ''Bearer '' @ cl_token c else '''') \<Longrightarrow> agentAuth (en_cfg en) h r s = h r s"
  by (auto simp: agentAuth_def token_fits_def TrimPrefix_def HasPrefix_def)

lemma agentAuth_refuses:
  "cf_Token (en_cfg en) \<noteq> '''' \<Longrightarrow> cl_token c \<noteq> cf_Token (en_cfg en) \<Longrightarrow> rq_Authorization r = (if cl_token c \<noteq> '''' then ''Bearer '' @ cl_token c else '''') \<Longrightarrow>
   agentAuth (en_cfg en) h r s = (s, (401, ErrorBody ''invalid or missing bearer token''))"
  by (auto simp: agentAuth_def TrimPrefix_def HasPrefix_def)

lemma itoa_nat_atoi: "itoa_nat n \<noteq> [] \<and> list_all is_digit (itoa_nat n) \<and> digits_value (itoa_nat n) = n"
proof (induction n rule: itoa_nat.induct)
  case (1 n)
  have d: "of_char (digit_char k) = (48 + k :: nat)" "is_digit (digit_char k)" if "k < 10" for k
    using that by (simp_all add: digit_char_def is_digit_def)
  have v: "digits_value (xs @ [c]) = 10 * digits_value xs + (of_char c - 48)" for xs c
    by (simp add: digits_value_def)
  show ?case
  proof (cases "n < 10")
    case True
    then show ?thesis using d [of n] by (subst (1 2 3) itoa_nat.simps) (simp add: digits_value_def)
  next
    case False
    then show ?thesis using 1 [OF False] d [of "n mod 10"] by (subst (1 2 3) itoa_nat.simps) (simp add: v)
  qed
qed

lemma atoi_Itoa:
  assumes "0 \<le> n" "n < 2 ^ 63"
  shows "atoi (Itoa n) = n" "Itoa n \<noteq> ''''"
proof -
  note d = itoa_nat_atoi [of "nat n"]
  then obtain x xs where x: "itoa_nat (nat n) = x # xs" by (cases "itoa_nat (nat n)") auto
  have "is_digit x" using d unfolding x by simp
  then have "x \<noteq> CHR ''-''" "x \<noteq> CHR ''+''" by (auto simp: is_digit_def)
  then show "atoi (Itoa n) = n" using d assms by (simp add: atoi_def Itoa_def x Let_def)
  show "Itoa n \<noteq> ''''" using x assms by (simp add: Itoa_def)
qed

lemmas client_defs = client_Inject_def client_Status_def client_Logs_def client_Stop_def client_do_def decode_status_def to_agent_def agentHandler_def no_body_def

text \<open>Through a client with the right token the agent's operations are as if they were called directly: status, logs (any number of lines), stop and inject give back what the agent computes
  and change what it changes; a refused inject comes back with the agent's message and code.\<close>

theorem client_calls_are_agent_calls:
  assumes "token_fits en c" "n < 2 ^ 63" "(ai_Files req = []) = (ai_SourceURL req \<noteq> '''')"
  shows "client_Status (to_agent en) c s = (s, Ok (statusLocked (fst s))) \<and>
    client_Logs (to_agent en) c n s = (s, Ok (snapshot (max n 0) (ag_logs (fst (fst s))))) \<and>
    client_Stop (to_agent en) c s = ((stopProcess (en_stop en) (fst s), snd s), Ok (statusLocked (stopProcess (en_stop en) (fst s)))) \<and>
    client_Inject (to_agent en) c req s = (case inject en req s of
        (s', Ok x) \<Rightarrow> (s', Ok x)
      | (s', Err e) \<Rightarrow> (s', Err (if en_message en e \<noteq> '''' then AgentError ''POST'' ''/inject'' (en_message en e) 400 else StatusError ''POST'' ''/inject'' 400 (ErrorBody ''''))))"
proof (intro conjI)
  note a = agentAuth_fits [OF assms(1)]
  show "client_Status (to_agent en) c s = (s, Ok (statusLocked (fst s)))" by (simp add: client_defs a handleStatus_def)
  show "client_Logs (to_agent en) c n s = (s, Ok (snapshot (max n 0) (ag_logs (fst (fst s)))))"
    using assms(2) by (simp add: client_defs a handleLogs_def Let_def atoi_Itoa)
  show "client_Stop (to_agent en) c s = ((stopProcess (en_stop en) (fst s), snd s), Ok (statusLocked (stopProcess (en_stop en) (fst s))))"
    by (simp add: client_defs a handleStop_def Let_def)
  show "client_Inject (to_agent en) c req s = (case inject en req s of
        (s', Ok x) \<Rightarrow> (s', Ok x)
      | (s', Err e) \<Rightarrow> (s', Err (if en_message en e \<noteq> '''' then AgentError ''POST'' ''/inject'' (en_message en e) 400 else StatusError ''POST'' ''/inject'' 400 (ErrorBody ''''))))"
    using assms(3) by (auto simp: client_defs a handleInject_def Let_def split: prod.splits sum.splits)
qed

theorem client_calls_are_agent_calls_witness:
  "client_Logs (to_agent example_env) (NewClient ''http://a:9000/'' ''secret'') 1 ((New example_cfg, Map.empty), []) =
    (((New example_cfg, Map.empty), []), Ok (snapshot 1 (ag_logs (New example_cfg))))"
  using client_calls_are_agent_calls [of example_env "NewClient ''http://a:9000/'' ''secret''" 1 example_req "((New example_cfg, Map.empty), [])"]
  by (simp add: token_fits_def example_env_def example_cfg_def example_req_def NewClient_def)

text \<open>With a wrong token nothing happens and every call fails, but the readiness probe, which passes the token on, still succeeds.\<close>

theorem wrong_token_fools_the_probe:
  assumes "cf_Token (en_cfg en) \<noteq> ''''" "token \<noteq> cf_Token (en_cfg en)" "target \<noteq> ''''"
  shows "fst (client_Inject (to_agent en) (NewClient url token) req s) = s \<and> fst (client_Stop (to_agent en) (NewClient url token) s) = s \<and>
    (\<exists>e. snd (client_Inject (to_agent en) (NewClient url token) req s) = Err e) \<and> IsReady (to_agent en) token target s = (s, Ok True)"
proof -
  have a: "rq_Authorization r = (if token \<noteq> '''' then ''Bearer '' @ token else '''') \<Longrightarrow> agentAuth (en_cfg en) h r s = (s, (401, ErrorBody ''invalid or missing bearer token''))" for h r
    using agentAuth_refuses [of en "NewClient url token" r h s] assms(1,2) by (simp add: NewClient_def)
  show ?thesis using assms(3) by (simp add: client_defs a NewClient_def IsReady_def client_Healthz_def)
qed

theorem wrong_token_fools_the_probe_witness:
  "IsReady (to_agent example_env) ''guess'' ''10.0.0.1:9000'' ((New example_cfg, Map.empty), []) = (((New example_cfg, Map.empty), []), Ok True)"
  using wrong_token_fools_the_probe [of example_env "''guess''" "''10.0.0.1:9000''" "[]" example_req "((New example_cfg, Map.empty), [])"]
  by (simp add: example_env_def example_cfg_def)

end
