(* ===== verification/Cache_Scope.thy ===== *)
theory Cache_Scope
  imports Sandbox Template_Gate
begin

section \<open>The scoped cache of the controller\<close>

text \<open>
  \<open>src/internal/controller/cachescope.go\<close>: the controller reads through a cache that holds, per kind of object, only what matches a scope; what is outside it looks as if it did not
  exist.  Writes go to the API server.  The cache is taken to be up to date.
\<close>

datatype gvk = GService | GSandboxClaim | GPod | GConfigMap | GOther

record ByObject =
  bo_Namespace :: "string option"
  bo_Label :: "string option"
  bo_Name :: "string option"

definition labelExists :: "string \<Rightarrow> ByObject" where
  "labelExists key = \<lparr>bo_Namespace = None, bo_Label = Some key, bo_Name = None\<rparr>"

definition TemplateLabelKey :: string where
  "TemplateLabelKey = ''vibed.dev/template''"

definition ConfigMapName :: string where
  "ConfigMapName = ''vibed-template-validation''"

definition ManagerCacheOptions :: "string \<Rightarrow> gvk \<Rightarrow> ByObject" where
  "ManagerCacheOptions poolNamespace kind =
     (let pool = (if poolNamespace \<noteq> '''' then Some poolNamespace else None) in
      case kind of
        GService \<Rightarrow> labelExists labelApp
      | GSandboxClaim \<Rightarrow> labelExists labelApp
      | GPod \<Rightarrow> (labelExists TemplateLabelKey)\<lparr>bo_Namespace := pool\<rparr>
      | GConfigMap \<Rightarrow> \<lparr>bo_Namespace = pool, bo_Label = None, bo_Name = Some ConfigMapName\<rparr>
      | GOther \<Rightarrow> \<lparr>bo_Namespace = None, bo_Label = None, bo_Name = None\<rparr>)"

text \<open>Whether an object is in a scope.\<close>

definition in_scope :: "ByObject \<Rightarrow> string \<Rightarrow> string \<Rightarrow> (string \<rightharpoonup> string) \<Rightarrow> bool" where
  "in_scope sc ns name labels \<longleftrightarrow>
     (case bo_Namespace sc of None \<Rightarrow> True | Some n \<Rightarrow> ns = n) \<and>
     (case bo_Label sc of None \<Rightarrow> True | Some l \<Rightarrow> labels l \<noteq> None) \<and>
     (case bo_Name sc of None \<Rightarrow> True | Some n \<Rightarrow> name = n)"

definition cached :: "bool \<Rightarrow> (kerr, 'o) result \<Rightarrow> (kerr, 'o) result" where
  "cached visible r = (if visible then r else Err (KNotFound ''''))"

definition scopedClient :: "string \<Rightarrow> 's kube_client \<Rightarrow> 's kube_client" where
  "scopedClient pool k = k\<lparr>
     k_GetClaim := (\<lambda>s ns n. case k_GetClaim k s ns n of Err e \<Rightarrow> Err e
        | Ok c \<Rightarrow> cached (in_scope (ManagerCacheOptions pool GSandboxClaim) ns n (cl_Labels c)) (Ok c)),
     k_GetService := (\<lambda>s ns n. case k_GetService k s ns n of Err e \<Rightarrow> Err e
        | Ok v \<Rightarrow> cached (in_scope (ManagerCacheOptions pool GService) ns n (svc_Labels v)) (Ok v))\<rparr>"

subsection \<open>The scope hides nothing of the controller's own\<close>

text \<open>A read of a claim returns what is stored under its name.\<close>

definition claim_reads_ok :: "'s kube_client \<Rightarrow> ('s \<Rightarrow> SandboxClaim store) \<Rightarrow> bool" where
  "claim_reads_ok k claims \<longleftrightarrow> (\<forall>s ns name c. k_GetClaim k s ns name = Ok c \<longrightarrow> claims s (ns, name) = Some c)"

text \<open>The objects of a set of apps carry the label.\<close>

definition labelled :: "(string \<Rightarrow> string) \<Rightarrow> ('s \<Rightarrow> SandboxClaim store) \<Rightarrow> ('s \<Rightarrow> Service store) \<Rightarrow> VibedApp set \<Rightarrow> 's \<Rightarrow> bool" where
  "labelled sha256 claims services apps s \<longleftrightarrow>
     (\<forall>app\<in>apps. (\<forall>c. claims s (app_key app) = Some c \<longrightarrow> cl_Labels c labelApp \<noteq> None) \<and>
        (\<forall>v. services s (app_Namespace app, ServiceName sha256 app) = Some v \<longrightarrow> svc_Labels v labelApp \<noteq> None))"

text \<open>What the controller does for its apps, in any order.\<close>

inductive ctl_run :: "(string \<Rightarrow> string) \<Rightarrow> 's kube_client \<Rightarrow> VibedApp set \<Rightarrow> 's \<Rightarrow> 's \<Rightarrow> bool" for sha256 k apps s0 where
  Start: "ctl_run sha256 k apps s0 s0"
| Claims: "ctl_run sha256 k apps s0 s \<Longrightarrow> app \<in> apps \<Longrightarrow> EnsureClaim k app s = (s', r) \<Longrightarrow> ctl_run sha256 k apps s0 s'"
| Releases: "ctl_run sha256 k apps s0 s \<Longrightarrow> app \<in> apps \<Longrightarrow> ReleaseClaim k app s = (s', e) \<Longrightarrow> ctl_run sha256 k apps s0 s'"
| Exposes: "ctl_run sha256 k apps s0 s \<Longrightarrow> app \<in> apps \<Longrightarrow> EnsureService sha256 port k app s = (s', t) \<Longrightarrow> ctl_run sha256 k apps s0 s'"

lemma in_scope_label: "in_scope (ManagerCacheOptions pool GSandboxClaim) ns n l \<longleftrightarrow> l labelApp \<noteq> None"
  "in_scope (ManagerCacheOptions pool GService) ns n l \<longleftrightarrow> l labelApp \<noteq> None"
  by (simp_all add: in_scope_def ManagerCacheOptions_def labelExists_def)

lemma scoped_writes [simp]:
  "k_GetTemplate (scopedClient pool k) = k_GetTemplate k" "k_CreateClaim (scopedClient pool k) = k_CreateClaim k"
  "k_DeleteClaim (scopedClient pool k) = k_DeleteClaim k" "k_CreateService (scopedClient pool k) = k_CreateService k"
  "k_UpdateService (scopedClient pool k) = k_UpdateService k"
  by (simp_all add: scopedClient_def)

text \<open>The API server keeps its promises.\<close>

definition lawful :: "'s kube_client \<Rightarrow> ('s \<Rightarrow> SandboxClaim store) \<Rightarrow> ('s \<Rightarrow> Service store) \<Rightarrow> bool" where
  "lawful k claims services \<longleftrightarrow> claim_writes_ok k claims services \<and> service_writes_ok k claims services \<and> claim_reads_ok k claims \<and> service_reads_ok k services"

lemma GetClaim_same:
  assumes "lawful k claims services" "labelled sha256 claims services apps s" "app \<in> apps"
  shows "k_GetClaim (scopedClient pool k) s (app_Namespace app) (app_Name app) = k_GetClaim k s (app_Namespace app) (app_Name app)"
proof (cases "k_GetClaim k s (app_Namespace app) (app_Name app)")
  case (Inr c)
  then have "claims s (app_key app) = Some c" using assms(1) by (simp add: lawful_def claim_reads_ok_def)
  then show ?thesis using assms(2,3) Inr by (simp add: scopedClient_def cached_def in_scope_label labelled_def)
qed (simp add: scopedClient_def)

lemma GetService_same:
  assumes "lawful k claims services" "labelled sha256 claims services apps s" "app \<in> apps"
  shows "k_GetService (scopedClient pool k) s (app_Namespace app) (ServiceName sha256 app) = k_GetService k s (app_Namespace app) (ServiceName sha256 app)"
proof (cases "k_GetService k s (app_Namespace app) (ServiceName sha256 app)")
  case (Inr v)
  then have "services s (app_Namespace app, ServiceName sha256 app) = Some v" using assms(1) by (simp add: lawful_def service_reads_ok_def)
  then show ?thesis using assms(2,3) Inr by (simp add: scopedClient_def cached_def in_scope_label labelled_def)
qed (simp add: scopedClient_def)

lemma EnsureClaim_same:
  assumes "lawful k claims services" "labelled sha256 claims services apps s" "app \<in> apps"
  shows "EnsureClaim (scopedClient pool k) app s = EnsureClaim k app s"
  unfolding EnsureClaim_def Let_def scoped_writes GetClaim_same [OF assms] ..

lemma ReleaseClaim_same: "ReleaseClaim (scopedClient pool k) app s = ReleaseClaim k app s"
  by (simp add: ReleaseClaim_def)

lemma labelled_cong: "claims s' = claims s \<Longrightarrow> services s' = services s \<Longrightarrow> labelled sha256 claims services apps s \<Longrightarrow> labelled sha256 claims services apps s'"
  by (simp add: labelled_def)

lemma EnsureService_same:
  assumes "lawful k claims services" "labelled sha256 claims services apps s" "app \<in> apps"
  shows "EnsureService sha256 port (scopedClient pool k) app s = EnsureService sha256 port k app s"
proof -
  have b: "boundPodSelector (scopedClient pool k) app s = boundPodSelector k app s" by (simp add: boundPodSelector_def GetClaim_same [OF assms])
  have r: "reconcileSelector (scopedClient pool k) app (ServiceName sha256 app) sel s1 = reconcileSelector k app (ServiceName sha256 app) sel s1"
    if that: "k_CreateService k v s = (s1, Some e)" for v s1 e sel
  proof -
    have "labelled sha256 claims services apps s1"
      using that assms(1,2) CreateService_ok [OF _ that, of claims services] by (intro labelled_cong [OF _ _ assms(2)]) (auto simp: lawful_def)
    note g = GetService_same [OF assms(1) this assms(3)]
    show ?thesis unfolding reconcileSelector_def scoped_writes g ..
  qed
  show ?thesis
  proof (cases "boundPodSelector k app s")
    case (Inr sel)
    obtain s1 cr where c: "k_CreateService k (buildService app (ServiceName sha256 app) sel (if port = 0 then 8080 else port)) s = (s1, cr)" by fastforce
    show ?thesis unfolding EnsureService_def Let_def b Inr scoped_writes sum.case c prod.case using r [of _ s1] c by (cases cr) auto
  qed (simp add: EnsureService_def Let_def b)
qed

lemma labelled_EnsureClaim:
  assumes "lawful k claims services" "labelled sha256 claims services apps s" "EnsureClaim k app s = (s', r)"
  shows "labelled sha256 claims services apps s'"
proof (cases "k_CreateClaim k (buildClaim app (rt_Template (spec_Runtime (app_Spec app)))) s")
  case (Pair s1 cr)
  have w: "claim_writes_ok k claims services" using assms(1) by (simp add: lawful_def)
  note ok = CreateClaim_ok [OF w Pair]
  have "s' = s \<or> s' = s1" using assms(3) Pair by (auto simp: EnsureClaim_def Let_def split: if_splits option.splits sum.splits)
  moreover have "labelled sha256 claims services apps s1"
  proof (cases cr)
    case None
    then obtain c where c: "stored_as (buildClaim app (rt_Template (spec_Runtime (app_Spec app)))) c" "claims s1 = (claims s)(app_key app \<mapsto> c)" using ok(2) by auto
    then have "cl_Labels c labelApp \<noteq> None" by (simp add: stored_as_def buildClaim_def labelApp_def)
    then show ?thesis using assms(2) c(2) ok(1) by (auto simp: labelled_def)
  qed (use ok assms(2) in \<open>auto intro: labelled_cong\<close>)
  ultimately show ?thesis using assms(2) by auto
qed

lemma labelled_put_service:
  assumes "labelled sha256 claims services apps s" "claims s' = claims s" "services s' = (services s)(key \<mapsto> v)" "svc_Labels v labelApp \<noteq> None"
  shows "labelled sha256 claims services apps s'"
  using assms by (auto simp: labelled_def)

lemma labelled_reconcile:
  assumes "lawful k claims services" "labelled sha256 claims services apps s" "app \<in> apps" "reconcileSelector k app (ServiceName sha256 app) sel s = (s', r)"
  shows "labelled sha256 claims services apps s'"
proof (cases "k_GetService k s (app_Namespace app) (ServiceName sha256 app)")
  case (Inr v)
  then have "services s (app_Namespace app, ServiceName sha256 app) = Some v" using assms(1) by (simp add: lawful_def service_reads_ok_def)
  then have l: "svc_Labels (v\<lparr>svc_Selector := sel\<rparr>) labelApp \<noteq> None" using assms(2,3) by (simp add: labelled_def)
  obtain s1 ur where u: "k_UpdateService k (v\<lparr>svc_Selector := sel\<rparr>) s = (s1, ur)" by fastforce
  have "service_writes_ok k claims services" using assms(1) by (simp add: lawful_def)
  note ok = UpdateService_ok [OF this u]
  have "labelled sha256 claims services apps s1"
    using ok labelled_put_service [OF assms(2) ok(1) _ l] labelled_cong [OF ok(1) _ assms(2)] by (cases ur) auto
  moreover have "s' = s \<or> s' = s1" using assms(4) Inr u by (auto simp: reconcileSelector_def split: if_splits option.splits)
  ultimately show ?thesis using assms(2) by auto
qed (use assms in \<open>simp add: reconcileSelector_def\<close>)

lemma labelled_EnsureService:
  assumes "lawful k claims services" "labelled sha256 claims services apps s" "app \<in> apps" "EnsureService sha256 port k app s = (s', r)"
  shows "labelled sha256 claims services apps s'"
proof (cases "boundPodSelector k app s")
  case (Inr sel)
  let ?v = "buildService app (ServiceName sha256 app) sel (if port = 0 then 8080 else port)"
  obtain s1 cr where c: "k_CreateService k ?v s = (s1, cr)" by fastforce
  have "service_writes_ok k claims services" using assms(1) by (simp add: lawful_def)
  note ok = CreateService_ok [OF this c]
  have "svc_Labels ?v labelApp \<noteq> None" by (simp add: buildService_def)
  then have s1: "labelled sha256 claims services apps s1"
    using ok labelled_put_service [OF assms(2) ok(1)] labelled_cong [OF ok(1) _ assms(2)] by (cases cr) auto
  then show ?thesis using assms(4) Inr c labelled_reconcile [OF assms(1) s1 assms(3)]
    by (auto simp: EnsureService_def Let_def split: if_splits option.splits prod.splits)
qed (use assms in \<open>simp add: EnsureService_def Let_def\<close>)

lemma labelled_ReleaseClaim:
  assumes "lawful k claims services" "labelled sha256 claims services apps s" "ReleaseClaim k app s = (s', r)"
  shows "labelled sha256 claims services apps s'"
proof -
  have "claim_writes_ok k claims services" using assms(1) by (simp add: lawful_def)
  from release_claim_removes [OF this assms(3)] show ?thesis using assms(2) by (auto simp: labelled_def split: if_splits)
qed


lemma map_client_lawful: "lawful map_client fst snd"
  using map_client_ok by (auto simp: lawful_def claim_reads_ok_def map_client_def split: option.splits)

lemma rebound_labelled: "labelled (\<lambda>_. []) fst snd {sample_app ''ns'' ''a'' ''al''} rebound"
  by (auto simp: labelled_def rebound_def bound_claim_def buildClaim_def buildService_def labelApp_def)


text \<open>A claim of the app's name that somebody else made, without the label, is another matter: the controller does not see it, cannot create its own, and the app stays unbound, even
  if that claim is bound to a sandbox.\<close>

theorem foreign_claim_blocks_app:
  assumes "k_GetTemplate k s (app_Namespace app) (rt_Template (spec_Runtime (app_Spec app))) = None" "rt_Template (spec_Runtime (app_Spec app)) \<noteq> ''''"
    "k_GetClaim k s (app_Namespace app) (app_Name app) = Ok c" "cl_Labels c labelApp = None"
    "k_CreateClaim k (buildClaim app (rt_Template (spec_Runtime (app_Spec app)))) s = (s, Some e)" "IsAlreadyExists e"
  shows "EnsureClaim (scopedClient pool k) app s = (s, ClaimUnbound)"
  using assms by (simp add: EnsureClaim_def scopedClient_def cached_def in_scope_label)

subsection \<open>Pods and results of the validation\<close>

text \<open>The reads of the validator are inside the scope too: pods of the pool namespace that carry the template label, and the one ConfigMap of that namespace.\<close>

lemma validator_reads_in_scope:
  "labels TemplateLabelKey \<noteq> None \<Longrightarrow> in_scope (ManagerCacheOptions pool GPod) pool name labels"
  "in_scope (ManagerCacheOptions pool GConfigMap) pool ConfigMapName labels"
  by (simp_all add: in_scope_def ManagerCacheOptions_def labelExists_def)

end
