(* ===== verification/Api_Routes.thy ===== *)
theory Api_Routes
  imports Server Agent_Client
begin

section \<open>Routing\<close>

text \<open>
  \<open>src/pkg/vibedapi/http/server.gen.go\<close>, the routing and binding of parameters that is generated from the API description, and the multiplexer that \<open>runHTTPServer\<close> in
  \<open>src/pkg/server/server.go\<close> builds around it.  A pattern is a list of segments; the multiplexer of the standard library compares them with the segments of the escaped path, each
  unescaped, while the authentication in front of it looks at the whole unescaped path.  The binding of a path segment and of a query parameter (\<open>oapi-codegen/runtime\<close>) and the
  decoders of bodies are parameters.
\<close>

subsection \<open>Paths\<close>

definition unhex :: "byte \<Rightarrow> nat option" where
  "unhex c = (let n = (of_char c :: nat) in
     if 48 \<le> n \<and> n \<le> 57 then Some (n - 48) else if 97 \<le> n \<and> n \<le> 102 then Some (n - 87) else if 65 \<le> n \<and> n \<le> 70 then Some (n - 55) else None)"

fun unescape :: "string \<Rightarrow> string" where
  "unescape [] = []"
| "unescape (c # s) =
     (case s of
        a # b # t \<Rightarrow>
          (if c = CHR ''%'' then
             (case (unhex a, unhex b) of (Some x, Some y) \<Rightarrow> char_of (16 * x + y) # unescape t | _ \<Rightarrow> c # unescape s)
           else c # unescape s)
      | _ \<Rightarrow> c # unescape s)"

definition path_segments :: "string \<Rightarrow> string list" where
  "path_segments path = map unescape (tl (split_on (CHR ''/'') path))"

text \<open>A path that is not clean is redirected to the clean one, and no handler sees it.\<close>

definition cleanPath :: "string \<Rightarrow> string" where
  "cleanPath p =
     (if p = '''' then ''/''
      else let q = (if HasPrefix p ''/'' then p else ''/'' @ p); np = Clean q in
        if last q = CHR ''/'' \<and> np \<noteq> ''/'' then np @ ''/'' else np)"

subsection \<open>The table\<close>

datatype seg = Lit string | Wild

datatype operation =
    Healthz | Metrics | Readyz | ListApps | DeleteApp | GetApp | StreamAppLogs | RedeployApp | ResumeApp | RollbackApp
  | ListShareLinks | CreateShareLink | SuspendApp | GetAppVersions | DeployApp | ListTemplates

definition app_route :: "string list \<Rightarrow> seg list" where
  "app_route rest = [Lit ''v1'', Lit ''apps'', Wild] @ map Lit rest"

definition HandlerWithOptions :: "(string \<times> seg list \<times> operation) list" where
  "HandlerWithOptions =
     [(''GET'', [Lit ''healthz''], Healthz),
      (''GET'', [Lit ''metrics''], Metrics),
      (''GET'', [Lit ''readyz''], Readyz),
      (''GET'', [Lit ''v1'', Lit ''apps''], ListApps),
      (''DELETE'', app_route [], DeleteApp),
      (''GET'', app_route [], GetApp),
      (''GET'', app_route [''logs''], StreamAppLogs),
      (''POST'', app_route [''redeploy''], RedeployApp),
      (''POST'', app_route [''resume''], ResumeApp),
      (''POST'', app_route [''rollback''], RollbackApp),
      (''GET'', app_route [''share-links''], ListShareLinks),
      (''POST'', app_route [''share-links''], CreateShareLink),
      (''POST'', app_route [''suspend''], SuspendApp),
      (''GET'', app_route [''versions''], GetAppVersions),
      (''POST'', [Lit ''v1'', Lit ''deploy''], DeployApp),
      (''GET'', [Lit ''v1'', Lit ''templates''], ListTemplates)]"

text \<open>A wildcard stands for one segment, but not for the end of a path that ends in a slash.  A pattern for \<open>GET\<close> also serves \<open>HEAD\<close>.\<close>

fun match_segs :: "seg list \<Rightarrow> string list \<Rightarrow> string list option" where
  "match_segs [] [] = Some []"
| "match_segs (Lit l # ps) (x # xs) = (if x = l then match_segs ps xs else None)"
| "match_segs (Wild # ps) (x # xs) = (if x = '''' then None else map_option (Cons x) (match_segs ps xs))"
| "match_segs ps xs = None"

definition method_ok :: "string \<Rightarrow> string \<Rightarrow> bool" where
  "method_ok want got \<longleftrightarrow> got = want \<or> (want = ''GET'' \<and> got = ''HEAD'')"

definition route_matches :: "string \<Rightarrow> string list \<Rightarrow> string \<times> seg list \<times> operation \<Rightarrow> bool" where
  "route_matches meth segs r \<longleftrightarrow> method_ok (fst r) meth \<and> match_segs (fst (snd r)) segs \<noteq> None"

definition findRoute :: "string \<Rightarrow> string list \<Rightarrow> (operation \<times> string list) option" where
  "findRoute meth segs = map_option (\<lambda>r. (snd (snd r), the (match_segs (fst (snd r)) segs))) (find (route_matches meth segs) HandlerWithOptions)"

text \<open>The multiplexer of a server to which no module added routes.  \<open>blobs\<close>: there is a deploy service and its source blobs are served here; \<open>oidc\<close>: the mode is \<open>oidc\<close> and has an issuer.
  A path without its final slash that only a subtree serves is redirected to it; what no pattern serves, also by its method, goes to the dashboard.\<close>

datatype target = Redirect | Op operation "string list" | Audit | Blobs | Mcp | Metadata | Frontend

definition mux :: "bool \<Rightarrow> bool \<Rightarrow> string \<Rightarrow> string \<Rightarrow> target" where
  "mux blobs oidc meth path =
     (let segs = path_segments path in
      if meth \<noteq> ''CONNECT'' \<and> cleanPath path \<noteq> path then Redirect
      else case findRoute meth segs of
        Some (op, caps) \<Rightarrow> Op op caps
      | None \<Rightarrow>
          if method_ok ''GET'' meth \<and> segs = [''v1'', ''audit''] then Audit
          else if blobs \<and> segs = [''internal'', ''sources''] then Redirect
          else if blobs \<and> take 2 segs = [''internal'', ''sources''] then Blobs
          else if take 1 segs = [''mcp''] then Mcp
          else if oidc \<and> segs = [''.well-known'', ''oauth-protected-resource''] then Metadata
          else Frontend)"

subsection \<open>Binding\<close>

record raw_request =
  rw_Method :: string
  rw_Path :: string
  rw_Query :: "string \<Rightarrow> string list"
  rw_Form :: deploy_form
  rw_Version :: "int option"
  rw_Share :: share_body

record binding =
  bi_path :: "string \<Rightarrow> (string, string) result"
  bi_query :: "string list \<Rightarrow> (string, int option) result"

datatype routed = Ready | Alive | Prometheus | Logs string | Api api_request | BadParam string

definition InvalidParamFormatError :: "string \<Rightarrow> string \<Rightarrow> string" where
  "InvalidParamFormatError name e = ''Invalid format for parameter '' @ name @ '': '' @ e"

definition with_app :: "binding \<Rightarrow> string list \<Rightarrow> (string \<Rightarrow> routed) \<Rightarrow> routed" where
  "with_app b caps f = (case bi_path b (hd caps) of Err e \<Rightarrow> BadParam (InvalidParamFormatError ''app_id'' e) | Ok i \<Rightarrow> f i)"

definition with_page :: "binding \<Rightarrow> raw_request \<Rightarrow> (int option \<Rightarrow> int option \<Rightarrow> routed) \<Rightarrow> routed" where
  "with_page b rw f = (case bi_query b (rw_Query rw ''limit'') of
      Err e \<Rightarrow> BadParam (InvalidParamFormatError ''limit'' e)
    | Ok limit \<Rightarrow> (case bi_query b (rw_Query rw ''offset'') of
        Err e \<Rightarrow> BadParam (InvalidParamFormatError ''offset'' e)
      | Ok offset \<Rightarrow> f limit offset))"

definition siw_ListApps :: "binding \<Rightarrow> raw_request \<Rightarrow> string list \<Rightarrow> routed" where
  "siw_ListApps b rw caps = with_page b rw (\<lambda>limit offset. Api (AList limit offset))"

definition siw_DeleteApp :: "binding \<Rightarrow> raw_request \<Rightarrow> string list \<Rightarrow> routed" where
  "siw_DeleteApp b rw caps = with_app b caps (\<lambda>i. Api (ADelete i))"

definition siw_GetApp :: "binding \<Rightarrow> raw_request \<Rightarrow> string list \<Rightarrow> routed" where
  "siw_GetApp b rw caps = with_app b caps (\<lambda>i. Api (AGet i))"

definition siw_StreamAppLogs :: "binding \<Rightarrow> raw_request \<Rightarrow> string list \<Rightarrow> routed" where
  "siw_StreamAppLogs b rw caps = with_app b caps Logs"

definition siw_RedeployApp :: "binding \<Rightarrow> raw_request \<Rightarrow> string list \<Rightarrow> routed" where
  "siw_RedeployApp b rw caps = with_app b caps (\<lambda>i. Api (ARedeploy i (rw_Form rw)))"

definition siw_ResumeApp :: "binding \<Rightarrow> raw_request \<Rightarrow> string list \<Rightarrow> routed" where
  "siw_ResumeApp b rw caps = with_app b caps (\<lambda>i. Api (AResume i))"

definition siw_RollbackApp :: "binding \<Rightarrow> raw_request \<Rightarrow> string list \<Rightarrow> routed" where
  "siw_RollbackApp b rw caps = with_app b caps (\<lambda>i. Api (ARollback i (rw_Version rw)))"

definition siw_ListShareLinks :: "binding \<Rightarrow> raw_request \<Rightarrow> string list \<Rightarrow> routed" where
  "siw_ListShareLinks b rw caps = with_app b caps (\<lambda>i. with_page b rw (\<lambda>limit offset. Api (AListLinks i limit offset)))"

definition siw_CreateShareLink :: "binding \<Rightarrow> raw_request \<Rightarrow> string list \<Rightarrow> routed" where
  "siw_CreateShareLink b rw caps = with_app b caps (\<lambda>i. Api (ACreateLink i (rw_Share rw)))"

definition siw_SuspendApp :: "binding \<Rightarrow> raw_request \<Rightarrow> string list \<Rightarrow> routed" where
  "siw_SuspendApp b rw caps = with_app b caps (\<lambda>i. Api (ASuspend i))"

definition siw_GetAppVersions :: "binding \<Rightarrow> raw_request \<Rightarrow> string list \<Rightarrow> routed" where
  "siw_GetAppVersions b rw caps = with_app b caps (\<lambda>i. Api (AVersions i))"

lemmas siw_defs = siw_ListApps_def siw_DeleteApp_def siw_GetApp_def siw_StreamAppLogs_def siw_RedeployApp_def siw_ResumeApp_def siw_RollbackApp_def siw_ListShareLinks_def siw_CreateShareLink_def siw_SuspendApp_def siw_GetAppVersions_def

fun wrapper :: "binding \<Rightarrow> raw_request \<Rightarrow> operation \<Rightarrow> string list \<Rightarrow> routed" where
  "wrapper b rw Healthz caps = Alive"
| "wrapper b rw Metrics caps = Prometheus"
| "wrapper b rw Readyz caps = Ready"
| "wrapper b rw ListApps caps = siw_ListApps b rw caps"
| "wrapper b rw DeleteApp caps = siw_DeleteApp b rw caps"
| "wrapper b rw GetApp caps = siw_GetApp b rw caps"
| "wrapper b rw StreamAppLogs caps = siw_StreamAppLogs b rw caps"
| "wrapper b rw RedeployApp caps = siw_RedeployApp b rw caps"
| "wrapper b rw ResumeApp caps = siw_ResumeApp b rw caps"
| "wrapper b rw RollbackApp caps = siw_RollbackApp b rw caps"
| "wrapper b rw ListShareLinks caps = siw_ListShareLinks b rw caps"
| "wrapper b rw CreateShareLink caps = siw_CreateShareLink b rw caps"
| "wrapper b rw SuspendApp caps = siw_SuspendApp b rw caps"
| "wrapper b rw GetAppVersions caps = siw_GetAppVersions b rw caps"
| "wrapper b rw DeployApp caps = Api (ADeploy (rw_Form rw))"
| "wrapper b rw ListTemplates caps = Api ATemplates"

definition dispatch :: "binding \<Rightarrow> bool \<Rightarrow> bool \<Rightarrow> raw_request \<Rightarrow> routed option" where
  "dispatch b blobs oidc rw = (case mux blobs oidc (rw_Method rw) (rw_Path rw) of Op op caps \<Rightarrow> Some (wrapper b rw op caps) | _ \<Rightarrow> None)"

subsection \<open>At most one route\<close>

text \<open>Two patterns that no path matches both.\<close>

fun apart :: "seg list \<Rightarrow> seg list \<Rightarrow> bool" where
  "apart [] [] = False"
| "apart (Lit l # ps) (Lit m # qs) = (l \<noteq> m \<or> apart ps qs)"
| "apart (p # ps) (q # qs) = apart ps qs"
| "apart ps qs = True"

lemma apart_sound: "apart ps qs \<Longrightarrow> match_segs ps xs \<noteq> None \<Longrightarrow> match_segs qs xs = None"
proof (induction ps arbitrary: qs xs)
  case Nil
  then obtain q qs' where "qs = q # qs'" "xs = []" by (cases qs; cases xs) auto
  then show ?case by (cases q) simp_all
next
  case (Cons p ps)
  show ?case
  proof (cases xs)
    case Nil
    with Cons.prems(2) show ?thesis by (cases p) auto
  next
    case xs: (Cons x ys)
    then have m: "match_segs ps ys \<noteq> None" "p = Wild \<or> p = Lit x" using Cons.prems(2) by (cases p; auto split: if_splits)+
    show ?thesis
    proof (cases qs)
      case qs: (Cons q qs')
      have "apart ps qs' \<or> (\<exists>l. q = Lit l \<and> l \<noteq> x)" using Cons.prems(1) m(2) unfolding qs by (cases q) auto
      then show ?thesis using Cons.IH [OF _ m(1), of qs'] unfolding qs xs by (cases q) auto
    qed (use xs in simp)
  qed
qed

lemma table_apart:
  "list_all (\<lambda>r. list_all (\<lambda>q. r = q \<or> fst r \<noteq> fst q \<or> apart (fst (snd r)) (fst (snd q))) HandlerWithOptions) HandlerWithOptions"
  by (simp add: HandlerWithOptions_def app_route_def)

text \<open>No request has two routes: of the sixteen patterns at most one matches a method and a path, so the order in which they are registered does not matter.\<close>

theorem routes_are_disjoint:
  assumes "r \<in> set HandlerWithOptions" "q \<in> set HandlerWithOptions" "route_matches meth segs r" "route_matches meth segs q"
  shows "r = q"
proof -
  have "fst r \<in> {''GET'', ''POST'', ''DELETE''}" "fst q \<in> {''GET'', ''POST'', ''DELETE''}"
    using assms(1,2) by (auto simp: HandlerWithOptions_def)
  then have "fst r = fst q" using assms(3,4) by (auto simp: route_matches_def method_ok_def)
  then have "r = q \<or> apart (fst (snd r)) (fst (snd q))" using table_apart assms(1,2) unfolding list_all_iff by blast
  then show ?thesis using apart_sound [of "fst (snd r)" "fst (snd q)" segs] assms(3,4) by (auto simp: route_matches_def)
qed

theorem routes_are_disjoint_witness:
  "(''GET'', app_route [], GetApp) = (''GET'', [Lit ''v1'', Lit ''apps'', Wild], GetApp)"
  by (rule routes_are_disjoint [of _ _ "''HEAD''" "[''v1'', ''apps'', ''logs'']"]) (simp_all add: HandlerWithOptions_def app_route_def route_matches_def method_ok_def)

subsection \<open>Every route of the API is behind the authentication\<close>

lemma unhex_slash [simp]: "unhex (CHR ''/'') = None"
  by (simp add: unhex_def)

lemma unescape_slash: "unescape (a @ CHR ''/'' # b) = unescape a @ CHR ''/'' # unescape b"
proof (induction a rule: unescape.induct)
  case (2 c s)
  then show ?case by (cases s; cases "tl s"; cases b) (auto split: option.splits list.splits)
qed (auto split: list.splits)

lemma unescape_join: "unescape (join_with [CHR ''/''] ws) = join_with [CHR ''/''] (map unescape ws)"
proof (induction ws)
  case (Cons w ws)
  then show ?case by (cases "ws = []") (simp_all add: join_with_Cons unescape_slash)
qed simp

lemma unescaped_path:
  assumes "HasPrefix path ''/''"
  shows "unescape path = CHR ''/'' # join_with [CHR ''/''] (path_segments path)"
proof -
  obtain t where t: "path = CHR ''/'' # t" using assms by (cases path) (auto simp: HasPrefix_def)
  have "unescape path = CHR ''/'' # unescape t" using unescape_slash [of "[]" t] by (simp add: t)
  moreover have "path_segments path = map unescape (split_on (CHR ''/'') t)" by (simp add: t path_segments_def)
  ultimately show ?thesis using unescape_join [of "split_on (CHR ''/'') t"] by (simp add: join_split_on)
qed

text \<open>The targets that need an identity.\<close>

fun guarded_target :: "target \<Rightarrow> bool" where
  "guarded_target (Op op caps) = (op \<notin> {Healthz, Metrics, Readyz})"
| "guarded_target Audit = True"
| "guarded_target Blobs = True"
| "guarded_target Mcp = True"
| "guarded_target _ = False"

lemma matched_segs: "match_segs (map Lit ls @ ps) xs \<noteq> None \<Longrightarrow> \<exists>ys. xs = ls @ ys \<and> match_segs ps ys \<noteq> None"
proof (induction ls arbitrary: xs)
  case (Cons l ls)
  then show ?case by (cases xs) (auto split: if_splits)
qed simp

lemma findRoute_v1:
  assumes "findRoute meth segs = Some (op, caps)" "op \<notin> {Healthz, Metrics, Readyz}"
  shows "\<exists>x xs. segs = ''v1'' # x # xs"
proof -
  obtain r where "find (route_matches meth segs) HandlerWithOptions = Some r" "op = snd (snd r)" using assms(1) by (auto simp: findRoute_def)
  then have r: "r \<in> set HandlerWithOptions" "match_segs (fst (snd r)) segs \<noteq> None" "op = snd (snd r)" by (auto simp: find_Some_iff route_matches_def in_set_conv_nth)
  then have "\<exists>p ps. fst (snd r) = map Lit [''v1''] @ p # ps" using assms(2) by (auto simp: HandlerWithOptions_def app_route_def)
  then obtain p ps where p: "fst (snd r) = map Lit [''v1''] @ p # ps" by blast
  from matched_segs [OF r(2) [unfolded p]] obtain ys where "segs = [''v1''] @ ys" "match_segs (p # ps) ys \<noteq> None" by blast
  then show ?thesis by (cases ys; cases p) auto
qed

lemma guarded_is_protected:
  assumes "HasPrefix path ''/''" "guarded_target (mux blobs oidc meth path)"
  shows "protected_path (unescape path) \<and> \<not> always_public (unescape path)"
proof -
  let ?segs = "path_segments path"
  consider x xs where "?segs = ''v1'' # x # xs" | "take 2 ?segs = [''internal'', ''sources'']" "?segs \<noteq> [''internal'', ''sources'']" | "take 1 ?segs = [''mcp'']"
  proof -
    have "(\<exists>x xs. ?segs = ''v1'' # x # xs) \<or> (take 2 ?segs = [''internal'', ''sources''] \<and> ?segs \<noteq> [''internal'', ''sources'']) \<or> take 1 ?segs = [''mcp'']"
      using assms(2) findRoute_v1 [of meth ?segs] by (auto simp: mux_def Let_def split: if_splits option.splits prod.splits)
    then show thesis using that by blast
  qed
  then show ?thesis
  proof cases
    case (1 x xs)
    then show ?thesis using unescaped_path [OF assms(1)] by (simp add: protected_path_def always_public_def HasPrefix_def)
  next
    case 2
    then obtain x xs where "?segs = ''internal'' # ''sources'' # x # xs" by (cases ?segs; cases "tl ?segs"; cases "tl (tl ?segs)") auto
    then show ?thesis using unescaped_path [OF assms(1)] by (simp add: protected_path_def always_public_def HasPrefix_def)
  next
    case 3
    then obtain xs where "?segs = ''mcp'' # xs" by (cases ?segs) auto
    then show ?thesis using unescaped_path [OF assms(1)] by (cases xs) (simp_all add: protected_path_def always_public_def HasPrefix_def join_with_Cons)
  qed
qed

text \<open>C3: The two views of a path agree.  Whatever escapes, dots and slashes a path has: with authentication on, a request that the multiplexer would hand to an operation of the API, to the
  audit trail, to the source blobs or to the MCP endpoint is refused if it carries no token, unless a module declared the path public.\<close>

theorem every_api_route_is_authenticated:
  assumes "HasPrefix (rw_Path rw) ''/''" "guarded_target (mux blobs oidc (rw_Method rw) (rw_Path rw))" "q_Path req = unescape (rw_Path rw)"
    "ac_Enabled cfg" "\<not> isRegisteredPublic pub (q_Path req)" "ax_bearer ax (q_Authorization req) = None"
  shows "\<exists>st' n. serve ax cfg pub p us now req st = (st', Refused n)"
  using guarded_is_protected [OF assms(1,2)] assms(3-6) by (auto simp: serve_def Let_def SkipAuthPaths_def authMiddleware_def tokenMiddleware_def)

definition sample_raw :: raw_request where
  "sample_raw = \<lparr>rw_Method = ''DELETE'', rw_Path = ''/v%31/apps/a'', rw_Query = (\<lambda>_. []), rw_Form = FormTooLarge, rw_Version = None, rw_Share = Err ''''\<rparr>"

lemma char_1: "char_of (49 :: nat) = CHR ''1''"
  by (simp add: char_of_def bit_0)

lemma sample_target: "mux True True (rw_Method sample_raw) (rw_Path sample_raw) = Op DeleteApp [''a'']"
  by (simp add: sample_raw_def mux_def cleanPath_def Clean_def cleaned_def elements_def clean_step_def IsAbs_def HasPrefix_def path_segments_def unhex_def findRoute_def HandlerWithOptions_def
      app_route_def route_matches_def method_ok_def Let_def char_1)

theorem every_api_route_is_authenticated_witness:
  "\<exists>st' n. serve (Auth_Facts.sample_env\<lparr>ax_bearer := (\<lambda>_. None)\<rparr>) (sample_auth\<lparr>ac_Enabled := True\<rparr>) [] (PApiKey []) None 1 (Auth_Facts.sample_req\<lparr>q_Path := ''/v1/apps/a''\<rparr>)
     (Auth_Facts.sample_state [] (newTTLCache 0 0)) = (st', Refused n)"
proof (rule every_api_route_is_authenticated [where rw = sample_raw and blobs = True and oidc = True])
  show "guarded_target (mux True True (rw_Method sample_raw) (rw_Path sample_raw))" unfolding sample_target by simp
qed (simp_all add: sample_raw_def HasPrefix_def isRegisteredPublic_def unhex_def char_1)

subsection \<open>Requests reach their operation\<close>

definition path_of :: "string list \<Rightarrow> string" where
  "path_of ws = ''/'' @ join_with ''/'' ws"

definition page_query :: "int option \<Rightarrow> int option \<Rightarrow> string \<Rightarrow> string list" where
  "page_query limit offset name =
     (let q = (\<lambda>x. case x of None \<Rightarrow> [] | Some n \<Rightarrow> [Itoa n]) in if name = ''limit'' then q limit else if name = ''offset'' then q offset else [])"

definition plain_request :: "string \<Rightarrow> string list \<Rightarrow> raw_request" where
  "plain_request meth ws = \<lparr>rw_Method = meth, rw_Path = path_of ws, rw_Query = (\<lambda>_. []), rw_Form = FormTooLarge, rw_Version = None, rw_Share = Err ''''\<rparr>"

text \<open>The request that the API description gives for an operation.\<close>

fun raw_of :: "api_request \<Rightarrow> raw_request" where
  "raw_of (ADeploy form) = (plain_request ''POST'' [''v1'', ''deploy''])\<lparr>rw_Form := form\<rparr>"
| "raw_of (AList limit offset) = (plain_request ''GET'' [''v1'', ''apps''])\<lparr>rw_Query := page_query limit offset\<rparr>"
| "raw_of (AGet i) = plain_request ''GET'' [''v1'', ''apps'', i]"
| "raw_of (ADelete i) = plain_request ''DELETE'' [''v1'', ''apps'', i]"
| "raw_of (ARedeploy i form) = (plain_request ''POST'' [''v1'', ''apps'', i, ''redeploy''])\<lparr>rw_Form := form\<rparr>"
| "raw_of (ASuspend i) = plain_request ''POST'' [''v1'', ''apps'', i, ''suspend'']"
| "raw_of (AResume i) = plain_request ''POST'' [''v1'', ''apps'', i, ''resume'']"
| "raw_of (AVersions i) = plain_request ''GET'' [''v1'', ''apps'', i, ''versions'']"
| "raw_of (ARollback i v) = (plain_request ''POST'' [''v1'', ''apps'', i, ''rollback''])\<lparr>rw_Version := v\<rparr>"
| "raw_of (ACreateLink i body) = (plain_request ''POST'' [''v1'', ''apps'', i, ''share-links''])\<lparr>rw_Share := body\<rparr>"
| "raw_of (AListLinks i limit offset) = (plain_request ''GET'' [''v1'', ''apps'', i, ''share-links''])\<lparr>rw_Query := page_query limit offset\<rparr>"
| "raw_of ATemplates = plain_request ''GET'' [''v1'', ''templates'']"

text \<open>Ids that need no escaping in a path, as the names of apps are, and numbers that fit.\<close>

definition plain_id :: "string \<Rightarrow> bool" where
  "plain_id i \<longleftrightarrow> path_element i \<and> i \<noteq> ''..'' \<and> CHR ''%'' \<notin> set i"

definition fits :: "int option \<Rightarrow> bool" where
  "fits x \<longleftrightarrow> (case x of None \<Rightarrow> True | Some n \<Rightarrow> - (2 ^ 63) \<le> n \<and> n < 2 ^ 63)"

fun plain_api :: "api_request \<Rightarrow> bool" where
  "plain_api (AList limit offset) = (fits limit \<and> fits offset)"
| "plain_api (AListLinks i limit offset) = (plain_id i \<and> fits limit \<and> fits offset)"
| "plain_api (AGet i) = plain_id i"
| "plain_api (ADelete i) = plain_id i"
| "plain_api (ARedeploy i _) = plain_id i"
| "plain_api (ASuspend i) = plain_id i"
| "plain_api (AResume i) = plain_id i"
| "plain_api (AVersions i) = plain_id i"
| "plain_api (ARollback i _) = plain_id i"
| "plain_api (ACreateLink i _) = plain_id i"
| "plain_api _ = True"

text \<open>What is assumed of the binding library.\<close>

definition binding_ok :: "binding \<Rightarrow> bool" where
  "binding_ok b \<longleftrightarrow> (\<forall>i. plain_id i \<longrightarrow> bi_path b i = Ok i) \<and> bi_query b [] = Ok None \<and> (\<forall>n. fits (Some n) \<longrightarrow> bi_query b [Itoa n] = Ok (Some n))"

lemma unescape_step: "c \<noteq> CHR ''%'' \<Longrightarrow> unescape (c # s) = c # unescape s"
  by (subst unescape.simps(2)) (simp split: list.split del: unescape.simps)

lemma unescape_plain: "CHR ''%'' \<notin> set s \<Longrightarrow> unescape s = s"
  by (induction s) (auto simp: unescape_step simp del: unescape.simps(2))

lemma plain_lits: "list_all plain_id [''v1'', ''apps'', ''deploy'', ''templates'', ''redeploy'', ''suspend'', ''resume'', ''versions'', ''rollback'', ''share-links'']"
  by (simp add: plain_id_def path_element_def)

lemma cleanPath_plain:
  assumes "list_all plain_id ws" "ws \<noteq> []"
  shows "cleanPath (path_of ws) = path_of ws"
proof -
  have e: "list_all path_element ws" "list_all (\<lambda>e. e \<noteq> ''..'') ws" using assms(1) by (simp_all add: list_all_iff plain_id_def)
  have "cleaned (path_of ws) = ws" by (simp add: cleaned_def path_of_def elements_join(2) [OF e(1), simplified] fold_clean_names [OF e(2)])
  then have c: "Clean (path_of ws) = path_of ws" by (simp add: Clean_def path_of_def IsAbs_def HasPrefix_def Let_def)
  have "last (path_of ws) \<noteq> CHR ''/''"
  proof -
    obtain us w where w: "ws = us @ [w]" using assms(2) by (cases ws rule: rev_cases) auto
    have "\<exists>p. path_of (us @ [w]) = p @ w" 
    proof (induction us)
      case Nil
      show ?case by (simp add: path_of_def)
    next
      case (Cons u us)
      then obtain p where "''/'' @ join_with ''/'' (us @ [w]) = p @ w" by (auto simp: path_of_def)
      then have "path_of ((u # us) @ [w]) = (''/'' @ u @ p) @ w" by (simp add: path_of_def join_with_Cons)
      then show ?case by blast
    qed
    then obtain p where "path_of ws = p @ w" using w by blast
    moreover have "w \<noteq> ''''" "CHR ''/'' \<notin> set w" using e(1) w by (simp_all add: path_element_def)
    ultimately show ?thesis by (cases w rule: rev_cases) auto
  qed
  then show ?thesis using c by (simp add: cleanPath_def path_of_def HasPrefix_def Let_def)
qed

lemma segments_plain:
  assumes "list_all plain_id ws" "ws \<noteq> []"
  shows "path_segments (path_of ws) = ws"
proof -
  have "list_all (\<lambda>w. CHR ''/'' \<notin> set w) ws" using assms(1) by (simp add: list_all_iff plain_id_def path_element_def)
  then have "split_on (CHR ''/'') (join_with ''/'' ws) = ws" using assms(2) by (intro split_on_join) (simp_all add: list_all_iff)
  moreover have "map unescape ws = ws" using assms(1) by (intro map_idI) (simp add: list_all_iff plain_id_def unescape_plain)
  ultimately show ?thesis by (simp add: path_segments_def path_of_def)
qed

lemma dispatch_plain:
  fixes m ws q form v share
  defines "rw \<equiv> \<lparr>rw_Method = m, rw_Path = path_of ws, rw_Query = q, rw_Form = form, rw_Version = v, rw_Share = share\<rparr>"
  assumes "list_all plain_id ws" "ws \<noteq> []" "findRoute m ws \<noteq> None"
  shows "dispatch b blobs oidc rw = map_option (\<lambda>(op, caps). wrapper b rw op caps) (findRoute m ws)"
proof -
  obtain op caps where f: "findRoute m ws = Some (op, caps)" using assms(4) by auto
  then show ?thesis unfolding rw_def dispatch_def mux_def raw_request.simps segments_plain [OF assms(2,3)] cleanPath_plain [OF assms(2,3)] Let_def by simp
qed

lemma app_routes:
  assumes "plain_id i"
  shows "findRoute ''GET'' [''v1'', ''apps'', i] = Some (GetApp, [i])" "findRoute ''DELETE'' [''v1'', ''apps'', i] = Some (DeleteApp, [i])"
    "findRoute ''POST'' [''v1'', ''apps'', i, ''redeploy''] = Some (RedeployApp, [i])" "findRoute ''POST'' [''v1'', ''apps'', i, ''suspend''] = Some (SuspendApp, [i])"
    "findRoute ''POST'' [''v1'', ''apps'', i, ''resume''] = Some (ResumeApp, [i])" "findRoute ''GET'' [''v1'', ''apps'', i, ''versions''] = Some (GetAppVersions, [i])"
    "findRoute ''POST'' [''v1'', ''apps'', i, ''rollback''] = Some (RollbackApp, [i])" "findRoute ''POST'' [''v1'', ''apps'', i, ''share-links''] = Some (CreateShareLink, [i])"
    "findRoute ''GET'' [''v1'', ''apps'', i, ''share-links''] = Some (ListShareLinks, [i])"
proof -
  have "i \<noteq> ''''" using assms by (simp add: plain_id_def path_element_def)
  then show "findRoute ''GET'' [''v1'', ''apps'', i] = Some (GetApp, [i])" "findRoute ''DELETE'' [''v1'', ''apps'', i] = Some (DeleteApp, [i])"
    "findRoute ''POST'' [''v1'', ''apps'', i, ''redeploy''] = Some (RedeployApp, [i])" "findRoute ''POST'' [''v1'', ''apps'', i, ''suspend''] = Some (SuspendApp, [i])"
    "findRoute ''POST'' [''v1'', ''apps'', i, ''resume''] = Some (ResumeApp, [i])" "findRoute ''GET'' [''v1'', ''apps'', i, ''versions''] = Some (GetAppVersions, [i])"
    "findRoute ''POST'' [''v1'', ''apps'', i, ''rollback''] = Some (RollbackApp, [i])" "findRoute ''POST'' [''v1'', ''apps'', i, ''share-links''] = Some (CreateShareLink, [i])"
    "findRoute ''GET'' [''v1'', ''apps'', i, ''share-links''] = Some (ListShareLinks, [i])"
    by (simp_all add: findRoute_def HandlerWithOptions_def app_route_def route_matches_def method_ok_def)
qed

lemma fixed_routes:
  "findRoute ''POST'' [''v1'', ''deploy''] = Some (DeployApp, [])" "findRoute ''GET'' [''v1'', ''apps''] = Some (ListApps, [])"
  "findRoute ''GET'' [''v1'', ''templates''] = Some (ListTemplates, [])"
  by (simp_all add: findRoute_def HandlerWithOptions_def app_route_def route_matches_def method_ok_def)

lemma with_page_fits: "binding_ok b \<Longrightarrow> fits limit \<Longrightarrow> fits offset \<Longrightarrow> with_page b \<lparr>rw_Method = m, rw_Path = p, rw_Query = page_query limit offset, rw_Form = form, rw_Version = v, rw_Share = share\<rparr> f = f limit offset"
  by (cases limit; cases offset) (simp_all add: with_page_def page_query_def binding_ok_def)

lemma with_app_plain: "binding_ok b \<Longrightarrow> plain_id i \<Longrightarrow> with_app b [i] f = f i"
  by (simp add: with_app_def binding_ok_def)

text \<open>C24: Every operation is reachable: the request that the API description gives for it, with an id that needs no escaping, is dispatched to that operation with exactly its parameters.\<close>

theorem api_request_round_trip:
  assumes "binding_ok b" "plain_api r"
  shows "dispatch b blobs oidc (raw_of r) = Some (Api r)"
  using assms plain_lits
  by (cases r) (simp_all add: plain_request_def dispatch_plain app_routes fixed_routes siw_defs with_app_plain with_page_fits)

lemma itoa_nat_unsigned: "hd (itoa_nat n) \<noteq> CHR ''-'' \<and> hd (itoa_nat n) \<noteq> CHR ''+''"
  using itoa_nat_atoi [of n] by (cases "itoa_nat n") (auto simp: is_digit_def)

lemma Itoa_signed:
  assumes "- (2 ^ 63) \<le> n" "n < 2 ^ 63"
  shows "atoi_ok (Itoa n) \<and> atoi (Itoa n) = n"
proof (cases "n < 0")
  case True
  have "nat (- n) < 2 ^ 63 + 1" using assms(1) by (simp add: nat_less_iff)
  then show ?thesis using True assms(1) itoa_nat_atoi [of "nat (- n)"] by (simp add: atoi_ok_def atoi_def Itoa_def Let_def)
next
  case False
  then have "nat n < 2 ^ 63" using assms(2) by (simp add: nat_less_iff)
  then show ?thesis using False assms(2) atoi_Itoa [of n] itoa_nat_atoi [of "nat n"] itoa_nat_unsigned [of "nat n"] by (simp add: atoi_ok_def Itoa_def Let_def)
qed

text \<open>A binding that takes a segment as it is and reads a number with \<open>strconv.Atoi\<close>.\<close>

definition sample_binding :: binding where
  "sample_binding = \<lparr>bi_path = Ok, bi_query = (\<lambda>vs. case vs of [] \<Rightarrow> Ok None | v # _ \<Rightarrow> if atoi_ok v then Ok (Some (atoi v)) else Err ''invalid'')\<rparr>"

lemma sample_binding_ok: "binding_ok sample_binding"
  by (auto simp: binding_ok_def sample_binding_def fits_def Itoa_signed)

theorem api_request_round_trip_witness:
  "dispatch sample_binding True False (raw_of (AListLinks ''a'' (Some 5) None)) = Some (Api (AListLinks ''a'' (Some 5) None))"
  by (rule api_request_round_trip [OF sample_binding_ok]) (simp add: plain_id_def path_element_def fits_def)

end
