(* ===== verification/Startup.thy ===== *)
theory Startup
  imports Extensions Blobs Garbage_Collector
begin

section \<open>Starting the server\<close>

text \<open>
  \<open>Main\<close>, \<open>Run\<close> and \<open>buildDeployService\<close> of \<open>src/pkg/server/server.go\<close>, with \<open>Build\<close> of \<open>src/internal/auth/auth.go\<close> and \<open>NewGarbageCollector\<close> of
  \<open>src/internal/gc/collector.go\<close>: which parts of the process are built from a configuration and the registries, in which order, and where the process exits instead.  The parts themselves
  are those of the other theories; here a store is what it can do besides artifacts, and whether a connection or a file can be opened is a parameter.
\<close>

subsection \<open>The parts\<close>

definition proceed :: "('x, 'a) result \<Rightarrow> ('a \<Rightarrow> ('x, 'b) result) \<Rightarrow> ('x, 'b) result" where
  "proceed r k = (case r of Err x \<Rightarrow> Err x | Ok a \<Rightarrow> k a)"

lemma proceed_simps [simp]: "proceed (Ok a) k = k a" "proceed (Err x) k = Err x"
  by (simp_all add: proceed_def)

lemma proceed_Ok: "proceed r k = Ok b \<longleftrightarrow> (\<exists>a. r = Ok a \<and> k a = Ok b)"
  by (simp add: proceed_def split: sum.split)

definition or_exit :: "('e \<Rightarrow> 'x) \<Rightarrow> ('e, 'a) result \<Rightarrow> ('x, 'a) result" where
  "or_exit f r = (case r of Err e \<Rightarrow> Err (f e) | Ok a \<Rightarrow> Ok a)"

lemma or_exit_simps [simp]: "or_exit f (Ok a) = Ok a" "or_exit f (Err e) = Err (f e)" "or_exit f r = Ok a \<longleftrightarrow> r = Ok a"
  by (auto simp: or_exit_def split: sum.splits)

definition exit_if :: "('e \<Rightarrow> 'x) \<Rightarrow> 'e option \<Rightarrow> ('x, unit) result" where
  "exit_if f e = (case e of Some e \<Rightarrow> Err (f e) | None \<Rightarrow> Ok ())"

lemma exit_if_simps [simp]: "exit_if f None = Ok ()" "exit_if f (Some e) = Err (f e)" "exit_if f r = Ok u \<longleftrightarrow> r = None"
  by (auto simp: exit_if_def split: option.splits)

text \<open>What a store can do besides artifacts; an account store, an audit log and a store of share links are found by type assertions.\<close>

record backend =
  be_Users :: bool
  be_Audit :: bool
  be_Links :: bool

datatype audit_log = InStore | InMemory

record ('p, 'a) service =
  sv_Namespace :: string
  sv_Links :: bool
  sv_BaseURL :: string
  sv_Quota :: "(Enforcer \<times> bool) option"
  sv_Tenants :: "resolver option"
  sv_Policy :: "'p option"
  sv_Authz :: "'a option"
  sv_Meter :: "counters sink option"

record collector =
  gcr_appsNamespace :: string
  gcr_interval :: duration
  gcr_gc :: GarbageCollector

record 'v Provider =
  pv_Verifier :: "'v option"
  pv_Routes :: "string list"

record ('p, 'a, 'v) running =
  ru_Users :: bool
  ru_Audit :: audit_log
  ru_Bootstrapped :: bool
  ru_Service :: "('p, 'a) service option"
  ru_Collector :: "collector option"
  ru_Auth :: "'v Provider option"
  ru_TLS :: tls_choice
  ru_Bridge :: "string option"
  ru_Checker :: Checker
  ru_HTTP :: bool
  ru_Stdio :: bool

datatype exit_reason =
    XConfig load_error | XTracing string | XInsecure string | XKubernetes string | XStore "string backend_error" | XAuthz string | XTenant string | XPolicy string | XMeter string
  | XCollector string | XAuth string | XTLS string | XTransport string

text \<open>Everything outside the process and the registered factories.\<close>

record ('p, 'a, 'v) surroundings =
  rn_tracing :: "TracingConfig \<Rightarrow> string option"
  rn_parseIP :: "string \<Rightarrow> Addr option"
  rn_k8s :: "string \<Rightarrow> string option"
  rn_stores :: "(StoreConfig \<Rightarrow> (string, backend) result) named"
  rn_authz :: "(unit \<Rightarrow> (string, 'a option) result) option"
  rn_tarball :: "TarballConfig \<Rightarrow> (string, tarball_store) result"
  rn_client :: "string option"
  rn_tenant :: "(Tenant \<Rightarrow> (string, resolver) result) option"
  rn_policy :: "(unit \<Rightarrow> (string, 'p option) result) option"
  rn_meter :: "(unit \<Rightarrow> (string, counters sink) result) option"
  rn_parseDuration :: "string \<Rightarrow> duration option"
  rn_modes :: "(AuthConfig \<Rightarrow> bool \<Rightarrow> (string, 'v Provider option) result) named"
  rn_loadPair :: "string \<Rightarrow> string \<Rightarrow> string option"
  rn_selfSigned :: "string option"

subsection \<open>Building\<close>

definition buildDeployService :: "('p, 'a, 'v) surroundings \<Rightarrow> Config \<Rightarrow> (string, ('p, 'a) service) result" where
  "buildDeployService rn c =
     proceed (or_exit (\<lambda>e. ''tarball store: '' @ e) (rn_tarball rn (c_Tarball c))) (\<lambda>_.
     proceed (exit_if (\<lambda>e. ''k8s client: '' @ e) (rn_client rn)) (\<lambda>_.
     Ok \<lparr>sv_Namespace = (if dc_AppsNamespace (c_Deployment c) = '''' then dc_Namespace (c_Deployment c) else dc_AppsNamespace (c_Deployment c)),
         sv_Links = False, sv_BaseURL = '''', sv_Quota = None, sv_Tenants = None, sv_Policy = None, sv_Authz = None, sv_Meter = None\<rparr>))"

definition wireService :: "('p, 'a, 'v) surroundings \<Rightarrow> Config \<Rightarrow> backend \<Rightarrow> 'a option \<Rightarrow> ('p, 'a) service \<Rightarrow> (exit_reason, ('p, 'a) service) result" where
  "wireService rn c be authorizer sv =
     (let ns = (if sv_Namespace sv = '''' then ''vibed-apps'' else sv_Namespace sv) in
      proceed (or_exit XTenant (tenant_Build (rn_tenant rn) (zero_tenant\<lparr>tenant_Namespace := sv_Namespace sv\<rparr>))) (\<lambda>resolver.
      proceed (or_exit XPolicy (policy_Build (rn_policy rn) ())) (\<lambda>gate.
      proceed (or_exit XMeter (meter_Build (rn_meter rn) ())) (\<lambda>sink.
      Ok (sv\<lparr>sv_Links := be_Links be, sv_BaseURL := sc_BaseURL (c_Server c),
             sv_Quota := (if c_QuotasEnabled c then Some (NewEnforcer ns (c_Quotas c), be_Users be) else None),
             sv_Tenants := Some resolver, sv_Policy := gate, sv_Authz := authorizer, sv_Meter := Some sink\<rparr>)))))"

definition NewGarbageCollector :: "(string \<Rightarrow> duration option) \<Rightarrow> string \<Rightarrow> GCConfig \<Rightarrow> (string, collector) result" where
  "NewGarbageCollector parseDuration ns cfg =
     (case parseDuration (gcc_Interval cfg) of
        None \<Rightarrow> Err (''parsing gc interval '' @ Quote (gcc_Interval cfg))
      | Some interval \<Rightarrow> (case parseDuration (gcc_MaxAge cfg) of
          None \<Rightarrow> Err (''parsing gc maxAge '' @ Quote (gcc_MaxAge cfg))
        | Some maxAge \<Rightarrow> Ok \<lparr>gcr_appsNamespace = ns, gcr_interval = interval, gcr_gc = \<lparr>gc_dynamicClient = True, gc_maxAge = maxAge, gc_dryRun = gcc_DryRun cfg\<rparr>\<rparr>))"

definition startCollector :: "('p, 'a, 'v) surroundings \<Rightarrow> Config \<Rightarrow> ('p, 'a) service option \<Rightarrow> (exit_reason, collector option) result" where
  "startCollector rn c svc =
     (if \<not> gcc_Enabled (c_GC c) then Ok None
      else case svc of
        None \<Rightarrow> Ok None
      | Some sv \<Rightarrow> proceed (or_exit XCollector (NewGarbageCollector (rn_parseDuration rn) (sv_Namespace sv) (c_GC c))) (\<lambda>g. Ok (Some g)))"

text \<open>\<open>None\<close> is the middleware that lets everything pass.\<close>

definition auth_Build :: "(AuthConfig \<Rightarrow> bool \<Rightarrow> (string, 'v Provider option) result) named \<Rightarrow> AuthConfig \<Rightarrow> bool \<Rightarrow> (string, 'v Provider option) result" where
  "auth_Build modes cfg users =
     (if \<not> ac_Enabled cfg then Ok None
      else case providerFactory modes (ac_Mode cfg) of
        None \<Rightarrow> Err (''unknown auth.mode: '' @ Quote (ac_Mode cfg) @ '' (must be one of: '' @ join_with '', '' (Providers modes) @ '')'')
      | Some factory \<Rightarrow> (case factory cfg users of
          Err e \<Rightarrow> Err e
        | Ok None \<Rightarrow> Err (''auth provider '' @ Quote (ac_Mode cfg) @ '' returned no verifier'')
        | Ok (Some prov) \<Rightarrow> if pv_Verifier prov = None then Err (''auth provider '' @ Quote (ac_Mode cfg) @ '' returned no verifier'') else Ok (Some prov)))"

definition transports :: "string \<Rightarrow> (bool \<times> bool) option" where
  "transports t = (if t = ''stdio'' then Some (False, True) else if t = ''http'' then Some (True, False) else if t = ''both'' then Some (True, True) else None)"

definition Run :: "('p, 'a, 'v) surroundings \<Rightarrow> Config \<Rightarrow> (exit_reason, ('p, 'a, 'v) running) result" where
  "Run rn c =
     proceed (exit_if XTracing (rn_tracing rn (c_Tracing c))) (\<lambda>_.
     proceed (if starts (rn_parseIP rn) c then Ok () else Err (XInsecure (sc_HTTPAddr (c_Server c)))) (\<lambda>_.
     proceed (exit_if XKubernetes (rn_k8s rn (c_Kubeconfig c))) (\<lambda>_.
     proceed (or_exit XStore (store_New (rn_stores rn) (so_Backend (c_Store c)) (c_Store c))) (\<lambda>be.
     proceed (or_exit XAuthz (authz_Build (rn_authz rn) ())) (\<lambda>authorizer.
     proceed (case buildDeployService rn c of Err _ \<Rightarrow> Ok None | Ok sv \<Rightarrow> proceed (wireService rn c be authorizer sv) (\<lambda>sv. Ok (Some sv))) (\<lambda>svc.
     proceed (startCollector rn c svc) (\<lambda>gc.
     proceed (or_exit XAuth (auth_Build (rn_modes rn) (c_Auth c) (be_Users be))) (\<lambda>prov.
     proceed (or_exit XTLS (NewTLSConfig (rn_loadPair rn) (rn_selfSigned rn) (c_TLS c))) (\<lambda>tls.
     (case transports (sc_Transport (c_Server c)) of
        None \<Rightarrow> Err (XTransport (sc_Transport (c_Server c)))
      | Some (http, stdio) \<Rightarrow>
          Ok \<lparr>ru_Users = be_Users be, ru_Audit = (if be_Audit be then InStore else InMemory),
              ru_Bootstrapped = (be_Users be \<and> ac_Enabled (c_Auth c) \<and> ac_Mode (c_Auth c) \<in> {''apikey'', ''''}),
              ru_Service = svc, ru_Collector = gc, ru_Auth = prov, ru_TLS = tls, ru_Bridge = map_option sv_Namespace svc,
              ru_Checker = fold apply_report startup NewChecker, ru_HTTP = http, ru_Stdio = stdio\<rparr>))))))))))"

text \<open>\<open>flag\<close> is the \<open>-transport\<close> option.\<close>

definition Main :: "('p, 'a, 'v) surroundings \<Rightarrow> load_env \<Rightarrow> (string, (Config \<Rightarrow> (string, Config) result) option) result \<Rightarrow> string \<Rightarrow> (exit_reason, ('p, 'a, 'v) running) result" where
  "Main rn le file flag =
     proceed (or_exit XConfig (LoadConfig le (rn_stores rn) (rn_modes rn) file)) (\<lambda>c.
     Run rn (if flag \<noteq> '''' then c\<lparr>c_Server := (c_Server c)\<lparr>sc_Transport := flag\<rparr>\<rparr> else c))"

lemmas startup_eval = Run_def Main_def proceed_Ok startCollector_def wireService_def Let_def

subsection \<open>A configuration that loads can be started\<close>

text \<open>Nothing outside fails: connections, files and registered factories.\<close>

definition healthy :: "('p, 'a, 'v) surroundings \<Rightarrow> Config \<Rightarrow> bool" where
  "healthy rn c \<longleftrightarrow> rn_tracing rn (c_Tracing c) = None \<and> rn_k8s rn (c_Kubeconfig c) = None \<and>
     list_all (\<lambda>f. \<exists>be. snd f (c_Store c) = Ok be) (rn_stores rn) \<and>
     (\<exists>a. authz_Build (rn_authz rn) () = Ok a) \<and> (\<forall>t. \<exists>r. tenant_Build (rn_tenant rn) t = Ok r) \<and> (\<exists>p. policy_Build (rn_policy rn) () = Ok p) \<and>
     (\<exists>m. meter_Build (rn_meter rn) () = Ok m) \<and> list_all (\<lambda>f. \<forall>u. \<exists>p v. snd f (c_Auth c) u = Ok (Some p) \<and> pv_Verifier p = Some v) (rn_modes rn) \<and>
     rn_loadPair rn (tls_CertFile (c_TLS c)) (tls_KeyFile (c_TLS c)) = None \<and> rn_selfSigned rn = None"

lemma healthy_store: "healthy rn c \<Longrightarrow> map_of (rn_stores rn) b \<noteq> None \<Longrightarrow> \<exists>be. store_New (rn_stores rn) b (c_Store c) = Ok be"
  by (auto simp: healthy_def store_New_def list_all_iff dest!: map_of_SomeD split: option.split sum.split)

lemma healthy_service: "healthy rn c \<Longrightarrow> \<exists>sv'. wireService rn c be a sv = Ok sv'"
proof -
  assume h: "healthy rn c"
  obtain r where "tenant_Build (rn_tenant rn) (zero_tenant\<lparr>tenant_Namespace := sv_Namespace sv\<rparr>) = Ok r" using h by (auto simp: healthy_def)
  moreover obtain p m where "policy_Build (rn_policy rn) () = Ok p" "meter_Build (rn_meter rn) () = Ok m" using h by (auto simp: healthy_def)
  ultimately show ?thesis by (simp add: wireService_def Let_def)
qed

lemma healthy_auth:
  assumes "healthy rn c" "ac_Enabled (c_Auth c) \<Longrightarrow> providerFactory (rn_modes rn) (ac_Mode (c_Auth c)) \<noteq> None"
  shows "\<exists>prov. auth_Build (rn_modes rn) (c_Auth c) u = Ok prov \<and> (prov \<noteq> None \<longleftrightarrow> ac_Enabled (c_Auth c))"
proof (cases "ac_Enabled (c_Auth c)")
  case True
  then obtain f where f: "providerFactory (rn_modes rn) (ac_Mode (c_Auth c)) = Some f" using assms(2) by blast
  then obtain m where "(m, f) \<in> set (rn_modes rn)" by (auto simp: providerFactory_def dest!: map_of_SomeD split: if_splits)
  then obtain p v where "f (c_Auth c) u = Ok (Some p)" "pv_Verifier p = Some v" using assms(1) unfolding healthy_def list_all_iff by (metis snd_conv)
  then show ?thesis using True f by (simp add: auth_Build_def)
qed (simp add: auth_Build_def)

lemma service_namespace: "wireService rn c be a sv = Ok sv' \<Longrightarrow> sv_Namespace sv' = sv_Namespace sv"
  by (auto simp: wireService_def Let_def proceed_Ok)

lemma validate_gc:
  assumes "validate pd bs ms c = None" "gcc_Enabled (c_GC c)"
  shows "\<exists>i a. pd (gcc_Interval (c_GC c)) = Some i \<and> pd (gcc_MaxAge (c_GC c)) = Some a"
  using assms unfolding validate_def first_error_None by (auto split: if_splits)

lemma healthy_tls:
  assumes "healthy rn c" "validate pd bs ms c = None"
  shows "\<exists>tls. NewTLSConfig (rn_loadPair rn) (rn_selfSigned rn) (c_TLS c) = Ok tls \<and> (tls \<noteq> Plain \<longleftrightarrow> tls_Enabled (c_TLS c))"
proof -
  have "\<not> (tls_Enabled (c_TLS c) \<and> \<not> (tls_CertFile (c_TLS c) \<noteq> '''' \<and> tls_KeyFile (c_TLS c) \<noteq> '''') \<and> \<not> tls_AutoTLS (c_TLS c))"
    using assms(2) unfolding validate_def first_error_None by (simp split: if_splits)
  then show ?thesis using assms(1) by (auto simp: NewTLSConfig_def healthy_def)
qed

lemma built_service:
  assumes "healthy rn c"
  shows "\<exists>svc. (case buildDeployService rn c of Err _ \<Rightarrow> Ok None | Ok sv \<Rightarrow> proceed (wireService rn c be a sv) (\<lambda>sv. Ok (Some sv))) = Ok svc"
proof (cases "buildDeployService rn c")
  case (Inr sv)
  moreover obtain sv' where "wireService rn c be a sv = Ok sv'" using healthy_service [OF assms] by blast
  ultimately show ?thesis by simp
qed simp

lemma collected:
  assumes "gcc_Enabled (c_GC c) \<Longrightarrow> \<exists>i a. rn_parseDuration rn (gcc_Interval (c_GC c)) = Some i \<and> rn_parseDuration rn (gcc_MaxAge (c_GC c)) = Some a"
  shows "\<exists>g. startCollector rn c svc = Ok g \<and> (g \<noteq> None \<longleftrightarrow> gcc_Enabled (c_GC c) \<and> svc \<noteq> None) \<and> (\<forall>x. g = Some x \<longrightarrow> Some (gcr_appsNamespace x) = map_option sv_Namespace svc)"
  using assms by (cases svc) (auto simp: startCollector_def NewGarbageCollector_def)

lemma startup_answers: "fst (ReadinessHandler (fold apply_report startup NewChecker)) = 200"
  using startup_is_ready by (simp add: ReadinessHandler_def checker_IsReady_def)


text \<open>Without a place for sources the server still starts, and says that it is ready: only the operations on apps answer 501, no collector and no event bridge run.\<close>

theorem missing_tarball_store_degrades:
  assumes "Run rn c = Ok ru" "rn_tarball rn (c_Tarball c) = Err e"
  shows "ru_Service ru = None \<and> ru_Collector ru = None \<and> ru_Bridge ru = None \<and> fst (ReadinessHandler (ru_Checker ru)) = 200 \<and>
    (\<forall>ap cx r tr. r \<noteq> ATemplates \<longrightarrow> (\<exists>code. handle ap None cx r tr = (notImplemented code, tr)))"
proof -
  have b: "buildDeployService rn c = Err (''tarball store: '' @ e)" by (simp add: buildDeployService_def assms(2))
  have h: "\<exists>code. handle ap None cx r tr = (notImplemented code, tr)" if "r \<noteq> ATemplates" for ap cx r tr
    using that by (cases r) (auto simp: handler_defs guarded_def)
  then show ?thesis using assms(1) startup_answers unfolding Run_def b by (auto simp: proceed_Ok startCollector_def split: option.splits prod.splits if_splits)
qed

text \<open>The option that overrides the transport is not validated: a wrong one ends the process only after everything was built.\<close>

theorem wrong_transport_exits_last:
  assumes "LoadConfig le (rn_stores rn) (rn_modes rn) file = Ok c" "Run rn c = Ok ru" "flag \<notin> {'''', ''stdio'', ''http'', ''both''}"
  shows "Main rn le file flag = Err (XTransport flag)"
proof -
  let ?c = "c\<lparr>c_Server := (c_Server c)\<lparr>sc_Transport := flag\<rparr>\<rparr>"
  have s: "starts p ?c = starts p c" "buildDeployService rn ?c = buildDeployService rn c" "wireService rn ?c = wireService rn c" "startCollector rn ?c = startCollector rn c" for p
    by (simp_all add: starts_def buildDeployService_def startCollector_def fun_eq_iff wireService_def split: option.split)
  have m: "Main rn le file flag = Run rn ?c" using assms(1,3) by (simp add: Main_def)
  show ?thesis unfolding m Run_def s using assms(2,3) unfolding Run_def by (auto simp: proceed_Ok transports_def split: if_splits)
qed

text \<open>A process with the built-in extensions and nothing that fails, and the configuration with an automatic certificate.\<close>

definition core_process :: "(unit, unit, unit) surroundings" where
  "core_process = \<lparr>rn_tracing = (\<lambda>_. None), rn_parseIP = (\<lambda>_. None), rn_k8s = (\<lambda>_. None),
     rn_stores = map (\<lambda>n. (n, \<lambda>_. Ok \<lparr>be_Users = (n = ''sqlite''), be_Audit = (n \<noteq> ''configmap''), be_Links = (n = ''sqlite'')\<rparr>)) [''sqlite'', ''memory'', ''configmap''],
     rn_authz = None, rn_tarball = (\<lambda>_. Err ''no base path''), rn_client = None, rn_tenant = None, rn_policy = None, rn_meter = None, rn_parseDuration = ld_parseDuration plain_env,
     rn_modes = map (\<lambda>n. (n, \<lambda>_ _. Ok (Some \<lparr>pv_Verifier = Some (), pv_Routes = []\<rparr>))) [''oidc'', ''oauth'', ''apikey''], rn_loadPair = (\<lambda>_ _. None), rn_selfSigned = None\<rparr>"

definition local_tls :: Config where
  "local_tls = auto_tls\<lparr>c_Server := (c_Server auto_tls)\<lparr>sc_HTTPAddr := ''localhost:8080''\<rparr>\<rparr>"

lemma core_registered:
  "registerAll Register (builtinStores (\<lambda>_. Ok \<lparr>be_Users = False, be_Audit = False, be_Links = False\<rparr>) (\<lambda>_. Ok \<lparr>be_Users = False, be_Audit = True, be_Links = False\<rparr>)
     (\<lambda>_. Ok \<lparr>be_Users = True, be_Audit = True, be_Links = True\<rparr>) @ []) [] = Some (rn_stores core_process)"
  "registerAll RegisterProvider (builtinModes (\<lambda>_ _. Ok (Some \<lparr>pv_Verifier = Some (), pv_Routes = []\<rparr>)) (\<lambda>_ _. Ok (Some \<lparr>pv_Verifier = Some (), pv_Routes = []\<rparr>))
     (\<lambda>_ _. Ok (Some \<lparr>pv_Verifier = Some (), pv_Routes = []\<rparr>)) @ []) [] = Some (rn_modes core_process)"
  by (simp_all add: core_process_def builtinStores_def builtinModes_def Register_def RegisterProvider_def)

lemma local_tls_loads: "LoadConfig plain_env (rn_stores core_process) (rn_modes core_process) (Ok (Some (\<lambda>_. Ok local_tls))) = Ok local_tls"
  by (simp add: LoadConfig_def load_eval local_tls_def auto_tls_def)

lemma core_process_starts: "starts (rn_parseIP core_process) local_tls" "healthy core_process local_tls"
  by (simp_all add: starts_def checkNoAuthBindSafety_def isLoopbackBind_def SplitHostPort_def LastIndexByte_def local_tls_def)
    (simp add: core_process_def healthy_def authz_Build_def policy_Build_def meter_Build_def tenant_Build_def)


lemma core_process_runs: "\<exists>ru. Run core_process local_tls = Ok ru"
  using core_process_starts by (simp add: Run_def core_process_def store_New_def authz_Build_def buildDeployService_def startCollector_def auth_Build_def NewTLSConfig_def transports_def local_tls_def auto_tls_def Default_def)

theorem missing_tarball_store_degrades_witness:
  "\<exists>ru. Run core_process local_tls = Ok ru \<and> ru_Service ru = None \<and> fst (ReadinessHandler (ru_Checker ru)) = 200"
proof -
  obtain ru where "Run core_process local_tls = Ok ru" using core_process_runs by blast
  with missing_tarball_store_degrades [OF this] show ?thesis by (simp add: core_process_def)
qed

end
