(* ===== verification/Controller_Main.thy ===== *)
theory Controller_Main
  imports Controller_Facts Template_Gate Workerd Sandbox Agent_Client
begin

section \<open>Wiring the controller\<close>

text \<open>
  \<open>src/cmd/vibed-controller/main.go\<close> and \<open>applyDefaults\<close> of \<open>src/internal/controller/vibedapp_controller.go\<close>: which gate, fast lane and router the reconciler gets from the command
  line, what stands in for a part that is missing, and the validation of images that runs beside it.  A part of the reconciler is an option; claims, probes, services and the cluster
  answer as in \<open>Controller\<close>.
\<close>

subsection \<open>The reconciler's parts\<close>

record Reconciler =
  rc_Claimer :: "((VibedApp \<Rightarrow> claim_answer) \<times> (VibedApp \<Rightarrow> string option)) option"
  rc_Probe :: "(string \<Rightarrow> (string, bool) result) option"
  rc_Services :: "(VibedApp \<Rightarrow> (string, string) result) option"
  rc_Router :: "DeterministicRouter option"
  rc_FastLane :: "((VibedApp \<Rightarrow> (string, string) result) \<times> (VibedApp \<Rightarrow> string option)) option"
  rc_Gate :: "(string \<Rightarrow> bool \<times> string) option"
  rc_RequeueDelay :: duration
  rc_Meter :: bool

definition DummyClaimer :: "(VibedApp \<Rightarrow> claim_answer) \<times> (VibedApp \<Rightarrow> string option)" where
  "DummyClaimer = (\<lambda>app. ClaimBound (''dummy-sandbox-'' @ app_UID app) ''10.0.0.1'', \<lambda>_. None)"

definition DummyAgentProbe :: "string \<Rightarrow> (string, bool) result" where
  "DummyAgentProbe target = Ok True"

definition DummyServiceManager :: "VibedApp \<Rightarrow> (string, string) result" where
  "DummyServiceManager app = Ok ''''"

definition DummyFastLaneDeployer :: "(VibedApp \<Rightarrow> (string, string) result) \<times> (VibedApp \<Rightarrow> string option)" where
  "DummyFastLaneDeployer = (\<lambda>_. Err ''fast lane (workerd) is not configured on this controller'', \<lambda>_. None)"

definition AllowAllTemplateGate :: "string \<Rightarrow> bool \<times> string" where
  "AllowAllTemplateGate template = (True, '''')"

text \<open>What a pass is given: the parts where they are there, and the rest of the world.\<close>

definition applyDefaults :: "(string \<Rightarrow> string) \<Rightarrow> Reconciler \<Rightarrow> answers \<Rightarrow> answers" where
  "applyDefaults sha256 rc n =
     (let claimer = (case rc_Claimer rc of Some x \<Rightarrow> x | None \<Rightarrow> DummyClaimer);
          router = (case rc_Router rc of Some x \<Rightarrow> x | None \<Rightarrow> \<lparr>dr_Domain = ''vibed.example.com'', dr_Scheme = '''', dr_Port = ''''\<rparr>);
          fast = (case rc_FastLane rc of Some x \<Rightarrow> x | None \<Rightarrow> DummyFastLaneDeployer)
      in n\<lparr>n_EnsureClaim := fst claimer, n_ReleaseClaim := snd claimer,
           n_Probe := (case rc_Probe rc of Some x \<Rightarrow> x | None \<Rightarrow> DummyAgentProbe),
           n_EnsureService := (case rc_Services rc of Some x \<Rightarrow> x | None \<Rightarrow> DummyServiceManager),
           n_Publish := (\<lambda>app _. Ok (Publish sha256 router app)),
           n_FastDeploy := fst fast, n_FastRemove := snd fast,
           n_Gate := (case rc_Gate rc of Some x \<Rightarrow> x | None \<Rightarrow> AllowAllTemplateGate),
           n_RequeueDelay := (if rc_RequeueDelay rc = 0 then 2 * second else rc_RequeueDelay rc),
           n_Meter := rc_Meter rc\<rparr>)"

subsection \<open>The command line\<close>

record controller_flags =
  cf_domain :: string
  cf_urlScheme :: string
  cf_urlPort :: string
  cf_validateImages :: bool
  cf_strictValidation :: bool
  cf_agentToken :: string
  cf_workerdReplicas :: int
  cf_workerdControlPort :: int
  cf_workerdService :: string
  cf_workerdNamespace :: string

definition defaultFlags :: "string \<Rightarrow> controller_flags" where
  "defaultFlags envToken = \<lparr>cf_domain = ''vibed.example.com'', cf_urlScheme = ''https'', cf_urlPort = '''', cf_validateImages = True, cf_strictValidation = False, cf_agentToken = envToken,
     cf_workerdReplicas = 0, cf_workerdControlPort = 9200, cf_workerdService = ''vibed-workerd'', cf_workerdNamespace = ''vibed-system''\<rparr>"

definition ReplicaHost :: "string \<Rightarrow> string \<Rightarrow> int \<Rightarrow> string" where
  "ReplicaHost svc ns idx = svc @ ''-'' @ Itoa idx @ ''.'' @ svc @ ''.'' @ ns @ ''.svc.cluster.local''"

definition workerdClient :: "controller_flags \<Rightarrow> workerd_Client" where
  "workerdClient fl = \<lparr>wc_Replicas = cf_workerdReplicas fl, wc_ControlPort = cf_workerdControlPort fl, wc_ReplicaHost = ReplicaHost (cf_workerdService fl) (cf_workerdNamespace fl),
     wc_Token = cf_agentToken fl\<rparr>"

text \<open>The cluster as the parts see it: the claims, probes and services, the loaders, the recorded results and the pods of the warm pools.\<close>

record cluster =
  cu_claims :: "(VibedApp \<Rightarrow> claim_answer) \<times> (VibedApp \<Rightarrow> string option)"
  cu_probe :: "string \<Rightarrow> string \<Rightarrow> (string, bool) result"
  cu_services :: "VibedApp \<Rightarrow> (string, string) result"
  cu_loader :: "string \<Rightarrow> DeployRequest \<Rightarrow> (string, int \<times> string \<times> (string, int) result) result"
  cu_unload :: "string \<Rightarrow> (string, int) result"
  cu_results :: "(kerr, validation_data) result"
  cu_pods :: "string \<Rightarrow> (kerr, Pod list) result"

definition wire :: "controller_flags \<Rightarrow> cluster \<Rightarrow> Reconciler" where
  "wire fl cu =
     \<lparr>rc_Claimer = Some (cu_claims cu), rc_Probe = Some (cu_probe cu (cf_agentToken fl)), rc_Services = Some (cu_services cu),
      rc_Router = Some \<lparr>dr_Domain = cf_domain fl, dr_Scheme = cf_urlScheme fl, dr_Port = cf_urlPort fl\<rparr>,
      rc_FastLane = (if cf_workerdReplicas fl > 0 then Some (FastLaneDeploy (workerdClient fl) (cu_loader cu), FastLaneRemove (workerdClient fl) (cu_unload cu)) else None),
      rc_Gate = (if cf_validateImages fl then Some (Allowed (cf_strictValidation fl) (cu_results cu) (cu_pods cu)) else None),
      rc_RequeueDelay = 0, rc_Meter = True\<rparr>"

text \<open>One round of the validation; a list of templates that cannot be read is only logged, and leaves the recorded results.\<close>

definition runValidation :: "validator_world \<Rightarrow> (kerr, validation_data) result \<Rightarrow> cm_call option" where
  "runValidation w got = (case ValidateAll w of Err _ \<Rightarrow> None | Ok results \<Rightarrow> Some (Persist got results))"

text \<open>A pass of the wired controller.\<close>

definition pass :: "(string \<Rightarrow> string) \<Rightarrow> controller_flags \<Rightarrow> cluster \<Rightarrow> answers \<Rightarrow> asyncInjector \<Rightarrow> outcome" where
  "pass sha256 fl cu n = Reconcile (applyDefaults sha256 (wire fl cu) n)"

subsection \<open>Only validated images are claimed\<close>

definition claims :: "outcome \<Rightarrow> bool" where
  "claims out \<longleftrightarrow> KEnsureClaim \<in> set (fst (snd out))"

lemma emit_no_claim [simp]: "KEnsureClaim \<notin> set (emitLifecycle m b old cur)"
  by (simp add: emitLifecycle_def Let_def)

lemma claims_simps [simp]:
  "claims (r, cs, a) \<longleftrightarrow> KEnsureClaim \<in> set cs" "claims (patchThen n before app rq cs a) \<longleftrightarrow> KEnsureClaim \<in> set cs" "claims (finish n before app b cs a) \<longleftrightarrow> KEnsureClaim \<in> set cs"
  by (auto simp: claims_def finish_def patchThen_def patchStatusIfChanged_def split: option.splits)

lemma claiming_asks_gate:
  assumes "n_Get n = Ok app" "st_Phase (app_Status app) = PhaseClaiming" "claims (Reconcile n a)"
  shows "fst (n_Gate n (rt_Template (spec_Runtime (app_Spec app))))"
proof (cases "app_DeletionTimestamp app")
  case None
  from assms(1) None show ?thesis
  proof (cases rule: Reconcile_cases [where a = a])
    case (suspension out)
    have "\<not> claims out" using suspension(2) assms(2) by (auto simp: reconcileSuspension_def Let_def split: if_splits option.splits)
    then show ?thesis using suspension(3) assms(3) by simp
  next
    case fast
    have "\<not> claims (reconcileFastLane m b x a)" for m b x by (simp add: reconcileFastLane_def Let_def split: sum.split)
    then show ?thesis using fast(5) assms(3) by simp
  next
    case (general rq)
    then have "claims (reconcileClaiming (applyDelay n) (app_Status app) rq (setCondition (n_now n) ConditionSourceValid ConditionTrue ''Valid'' '''' app) a)"
      using assms(2,3) by (simp add: reconcilePhase_def)
    then show ?thesis by (cases "n_Gate n (rt_Template (spec_Runtime (app_Spec app)))") (auto simp: reconcileClaiming_def Let_def split: bool.splits)
  qed (use assms(3) in simp)
next
  case (Some t)
  then show ?thesis using assms(1,3) by (simp add: Reconcile_def Let_def)
qed

text \<open>C7: From the command line to the warm pool: a controller started with the strict validation takes a sandbox for a new app only if the last round of its validation talked to the agent of
  a usable pod of the app's template, that agent kept vibeD's contract, and a usable pod of the template runs that image at the time of the claim.\<close>

theorem strict_controller_claims_only_validated:
  assumes "cf_validateImages fl" "cf_strictValidation fl" "runValidation w got \<in> {Some (CMCreate d), Some (CMUpdate d)}" "cu_results cu = Ok d"
    "n_Get n = Ok app" "st_Phase (app_Status app) = PhaseClaiming" "pass sha256 fl cu n a = (r, calls, a')" "KEnsureClaim \<in> set calls"
  shows "\<exists>ps p info port now_ps q. vw_Pods w (rt_Template (spec_Runtime (app_Spec app))) = Ok ps \<and> p \<in> set ps \<and> usable p \<and>
     vw_Info w (pod_PodIP p @ '':'' @ port) = Ok info \<and> contract_ok (rt_Template (spec_Runtime (app_Spec app))) info \<and>
     cu_pods cu (rt_Template (spec_Runtime (app_Spec app))) = Ok now_ps \<and> q \<in> set now_ps \<and> usable q \<and> firstContainerImageID q = firstContainerImageID p \<and> firstContainerImageID p \<noteq> ''''"
proof -
  let ?n = "applyDefaults sha256 (wire fl cu) n"
  obtain results where v: "ValidateAll w = Ok results" "Persist got results \<in> {CMCreate d, CMUpdate d}" using assms(3) by (auto simp: runValidation_def split: sum.splits)
  have "n_Get ?n = Ok app" using assms(5) by (simp add: applyDefaults_def Let_def)
  from claiming_asks_gate [OF this assms(6), of a] assms(7,8) [unfolded pass_def]
  have "fst (Allowed True (Ok d) (cu_pods cu) (rt_Template (spec_Runtime (app_Spec app))))" using assms(1,2,4) by (simp add: applyDefaults_def wire_def Let_def)
  then obtain reason where "Allowed True (Ok d) (cu_pods cu) (rt_Template (spec_Runtime (app_Spec app))) = (True, reason)" by (metis (full_types) prod.collapse)
  from strict_gate_admits_only_validated [OF v this] show ?thesis .
qed

subsection \<open>The fast lane\<close>

text \<open>The default command line has no fast lane.  An app of that lane then stays in phase Claiming, whatever its phase was before it, and is tried again for ever; it is not failed.\<close>

theorem unconfigured_fast_lane_waits:
  assumes "cf_workerdReplicas fl \<le> 0" "n_Get n = Ok app" "app_DeletionTimestamp app = None" "validateSpec (app_Spec app) = None" "\<not> spec_Suspended (app_Spec app)"
    "isWorkerdFastLane app" "st_Phase (app_Status app) \<notin> {PhaseReady, PhaseSuspended}" "pass sha256 fl cu n a = (Ok rq, calls, a')"
  shows "rq \<noteq> None \<and> (\<forall>x. KStatusUpdate x \<in> set calls \<longrightarrow> st_Phase (app_Status x) = PhaseClaiming)"
proof -
  let ?n = "applyDefaults sha256 (wire fl cu) n"
  have f: "n_FastDeploy ?n x = Err ''fast lane (workerd) is not configured on this controller''" for x
    using assms(1) by (simp add: applyDefaults_def wire_def Let_def DummyFastLaneDeployer_def)
  have g: "n_Get ?n = Ok app" using assms(2) by (simp add: applyDefaults_def Let_def)
  from g assms(3) show ?thesis
  proof (cases rule: Reconcile_cases [where a = a])
    case (suspension out)
    then show ?thesis using assms(5,7) by (simp add: reconcileSuspension_def Let_def)
  next
    case fast
    let ?app = "setCondition (n_now ?n) ConditionSourceValid ConditionTrue ''Valid'' '''' app"
    have "(Ok rq, calls, a') = reconcileFastLane (applyDelay ?n) (app_Status app) ?app a" using fast(5) assms(8) by (simp add: pass_def)
    also have "\<dots> = patchThen (applyDelay ?n) (app_Status app) (notReady (applyDelay ?n) ''ClaimFailed'' ''fast lane (workerd) is not configured on this controller'' (setPhase PhaseClaiming ?app))
        (Some (transitionalRequeueAfter (n_RequeueDelay (applyDelay ?n)) ?app (n_now (applyDelay ?n)))) [KFastDeploy] a"
      using assms(7) by (simp add: reconcileFastLane_def f Let_def)
    finally show ?thesis by (auto simp: patchThen_def patchStatusIfChanged_def split: option.splits if_splits)
  qed (use assms in simp_all)
qed

text \<open>Two replicas have different names.\<close>

lemma Itoa_inj: "Itoa i = Itoa j \<Longrightarrow> 0 \<le> i \<Longrightarrow> 0 \<le> j \<Longrightarrow> i = j"
proof -
  assume e: "Itoa i = Itoa j" "0 \<le> i" "0 \<le> j"
  then have "digits_value (itoa_nat (nat i)) = digits_value (itoa_nat (nat j))" by (simp add: Itoa_def)
  then have "nat i = nat j" using itoa_nat_atoi by metis
  then show ?thesis using e(2,3) by simp
qed

lemma replica_hosts_differ: "0 \<le> i \<Longrightarrow> 0 \<le> j \<Longrightarrow> ReplicaHost svc ns i = ReplicaHost svc ns j \<Longrightarrow> i = j"
  by (rule Itoa_inj) (simp_all add: ReplicaHost_def)

definition strict_flags :: controller_flags where
  "strict_flags = (defaultFlags '''')\<lparr>cf_strictValidation := True\<rparr>"

definition sample_cluster :: cluster where
  "sample_cluster = \<lparr>cu_claims = (\<lambda>_. ClaimUnbound, \<lambda>_. None), cu_probe = (\<lambda>_ _. Ok True), cu_services = (\<lambda>_. Ok ''''), cu_loader = (\<lambda>_ _. Err ''''), cu_unload = (\<lambda>_. Err ''''),
     cu_results = Ok (resultData (map (validateSlot sample_world) [\<lparr>tm_Name = ''node-24'', tm_Containers = Nested [Some (Some ''img'')]\<rparr>])), cu_pods = (\<lambda>_. Ok [sample_pod])\<rparr>"

definition node_app :: VibedApp where
  "node_app = (in_phase PhaseClaiming)\<lparr>app_Spec := (app_Spec (in_phase PhaseClaiming))\<lparr>spec_Runtime := (spec_Runtime (app_Spec (in_phase PhaseClaiming)))\<lparr>rt_Lane := LaneGeneral, rt_Template := ''node-24''\<rparr>\<rparr>\<rparr>"

lemma node_admitted: "Allowed True (cu_results sample_cluster) (cu_pods sample_cluster) ''node-24'' = (True, '''')"
  by (simp add: sample_cluster_def sample_world_def sample_pod_def validateSlot_def readyPod_def evaluate_def newResult_def
        Let_def ExpectedLanguage_def slotLanguage_def Template_Gate.AgentContract_def resultData_def Allowed_def LoadResult_def CurrentImageID_def firstContainerImageID_def)

lemma node_fields:
  "app_DeletionTimestamp node_app = None" "validateSpec (app_Spec node_app) = None" "\<not> spec_Suspended (app_Spec node_app)" "\<not> isWorkerdFastLane node_app"
  "st_Phase (app_Status node_app) = PhaseClaiming" "rt_Template (spec_Runtime (app_Spec node_app)) = ''node-24''"
  by (simp_all add: node_app_def in_phase_def sample_app_def validateSpec_def isWorkerdFastLane_def WorkerdTemplate_def set_status_def empty_status_def)

lemma node_claims: "claims (pass id strict_flags sample_cluster (sample_answers node_app) (irun []))"
proof -
  let ?n = "applyDefaults id (wire strict_flags sample_cluster) (sample_answers node_app)"
  have n: "n_Get ?n = Ok node_app" by (simp add: applyDefaults_def sample_answers_def Let_def)
  have g: "n_Gate ?n ''node-24'' = (True, '''')" using node_admitted by (simp add: applyDefaults_def wire_def strict_flags_def defaultFlags_def Let_def)
  from n node_fields(1) have "claims (Reconcile ?n (irun []))"
  proof (cases rule: Reconcile_cases [where a = "irun []"])
    case (suspension out)
    then show ?thesis using node_fields by (simp add: reconcileSuspension_def Let_def)
  next
    case (general rq)
    then show ?thesis using node_fields g by (simp add: reconcilePhase_def reconcileClaiming_def Let_def split: claim_answer.split)
  qed (use node_fields in simp_all)
  then show ?thesis by (simp add: pass_def)
qed

theorem strict_controller_claims_only_validated_witness:
  "\<exists>info port. vw_Info sample_world (''10.0.0.1'' @ '':'' @ port) = Ok info \<and> contract_ok ''node-24'' info"
proof -
  let ?out = "pass id strict_flags sample_cluster (sample_answers node_app) (irun [])"
  have p: "?out = (fst ?out, fst (snd ?out), snd (snd ?out))" by simp
  have c: "KEnsureClaim \<in> set (fst (snd ?out))" using node_claims by (simp add: claims_def)
  have a: "n_Get (sample_answers node_app) = Ok node_app" "st_Phase (app_Status node_app) = PhaseClaiming" using node_fields by (simp_all add: sample_answers_def)
  obtain d where d: "cu_results sample_cluster = Ok d" "runValidation sample_world (Inl (KNotFound '''')) = Some (CMCreate d)"
    by (simp add: sample_cluster_def runValidation_def ValidateAll_def sample_world_def Persist_def)
  from strict_controller_claims_only_validated [OF _ _ _ d(1) a p c, of sample_world "Inl (KNotFound '''')"] d(2) show ?thesis
    by (auto simp: strict_flags_def defaultFlags_def node_fields sample_world_def sample_pod_def)
qed

end
