(* ===== verification/Spec2Isabelle.thy ===== *)
theory Spec2Isabelle
  imports Deploy_Examples Controller_Facts Sandbox Template_Gate Garbage_Collector Ring_Buffer Egress Store Agent_Facts
    Appspec Classifier Router Workerd Rate_Limit Events Sqlite Auth_Facts Extensions Configmap Blobs Agent_Client Cache_Scope Api_Routes Startup Controller_Main
begin

text \<open>
  \<^bold>\<open>vibeD\<close> deploys source trees that its users hand in (over MCP, HTTP or a dashboard) as small web apps on
  Kubernetes.  A deploy stores the source as a blob and writes a \<open>VibedApp\<close> resource; a controller brings every app
  to life in a sandbox pod (the general lane) or in a shared worker (the fast lane); a router keeps one Caddy route
  per ready app; an agent inside each sandbox unpacks the source and supervises the user's process.  This development
  models these parts as HOL functions over explicit state and proves what each of them promises.  Names of definitions
  are those of the Go code; the text at the head of each theory names its source files.

  \<^bold>\<open>How the code is rendered.\<close>  A Go string is the list of its bytes, an \<open>int\<close> is \<open>int\<close> with the wrap-around written out
  where it matters (\<open>Http_Api.int64\<close>, the hash words of \<open>Api_Types\<close>), a struct is a \<open>record\<close>, an error is a value of a
  datatype in \<open>(error, value) result\<close>, a nil pointer or a panic is \<open>None\<close> or a constructor of its own.  Code outside
  the repository (the API server, Caddy, the token bucket, SHA-256, JSON and YAML decoders, token signatures, DNS)
  is an argument of the definitions that use it; what a theorem needs of it is a named hypothesis, and the witness
  beside the theorem supplies a concrete function.  Concurrency is an \<open>inductive\<close> step relation over the critical
  sections of the code, and its invariants hold along every interleaving.  Loops over finite data are structural
  recursion; loops against a clock or a paged listing have a termination measure (\<open>Deploy.pollReady\<close>,
  \<open>Garbage_Collector.collect\<close>), so no definition carries fuel.

  \<^bold>\<open>Deploying.\<close>
  \<^item> \<open>Api_Types\<close>, \<open>Versions\<close>: the custom resource, labels, phases, and the capped version history in an annotation.
  \<^item> \<open>Quota\<close>: the ceilings and reservations of \<open>internal/quota\<close>; the contract of the reservation table is the locale
    \<open>reservation_table\<close>, interpreted on \<open>enf_inv\<close>.  No interleaving overshoots a ceiling if counts are fresh, and a
    rejected request leaves no reservation.
  \<^item> \<open>Deploy_Env\<close>, \<open>Deploy\<close>, \<open>Deploy_Facts\<close>, \<open>Deploy_Examples\<close>: \<open>Service.Deploy\<close> as a program over a trace of calls to its
    collaborators.  Each stage has a \<open>spec\<close> lemma, composed in \<open>Deploy_spec\<close>: owner gate, quota, one blob per deploy,
    history, eviction, audit.
  \<^item> \<open>Query\<close>: \<open>Get\<close>, \<open>List\<close>, \<open>SetSuspended\<close>, \<open>Delete\<close>, \<open>Rollback\<close> and the share links of the same service.
  \<^item> \<open>Blobs\<close>: the source blobs on a file system with hard links whose calls may fail; a put is atomic, and what was put
    is what the handler serves.
  \<^item> \<open>Classifier\<close>, \<open>Appspec\<close>: lane, template, language and run command of a source tree.

  \<^bold>\<open>Running.\<close>
  \<^item> \<open>Controller\<close>, \<open>Controller_Facts\<close>: a whole \<open>Reconcile\<close> pass, the phase machine as a relation, what Ready and Suspended
    mean, metering over sequences of passes, and that a new app becomes Ready.
  \<^item> \<open>Async_Inject\<close>, \<open>Sandbox\<close>, \<open>Template_Gate\<close>: the inject tracker on a heap of entries, claims and services, and the
    validation of template images.  \<open>Garbage_Collector\<close>: one cycle over paged listings.
  \<^item> \<open>Agent\<close>, \<open>Agent_Facts\<close>, \<open>Source_Fetch\<close>, \<open>Paths\<close>, \<open>Ring_Buffer\<close>: the agent's control API, its process supervisors as a
    step relation, the bounded unpacking of tarballs inside the work directory, and the log buffer, whose wrapping
    indices refine a log that forgets nothing (locale \<open>bounded_log\<close>).  \<open>Agent_Client\<close>: the client of that API; through it
    the agent's operations are as if they were called directly.
  \<^item> \<open>Cache_Scope\<close>, \<open>Controller_Main\<close>: the restricted cache through which the controller reads, which hides nothing of its own, and
    the reconciler that the command line makes: with strict validation only validated images are claimed.
  \<^item> \<open>Workerd\<close>, \<open>Router\<close>, \<open>Egress\<close>: workers and their ports, routes in Caddy, and the default-deny egress decision.

  \<^bold>\<open>Serving.\<close>
  \<^item> \<open>Store\<close>, \<open>Sqlite\<close>, \<open>Configmap\<close>: three artifact stores.  The locale \<open>artifact_store\<close> says that a store is a map from
    ids to artifacts; it is interpreted on the memory store and on SQLite, so the two agree.  SQLite's statements
    may fail; transactions roll back, and the share index always equals the share lists.  The ConfigMap store writes by
    read-modify-write; its successful writes are atomic under interference.  \<open>audit_store\<close>, \<open>user_store\<close> and
    \<open>admin_store\<close> (which extends \<open>user_store\<close>) are the contracts of the audit log and of the accounts.
  \<^item> \<open>Auth\<close>, \<open>Auth_Facts\<close>: verifiers, identity cache, provisioning, role and status middleware.  Facts about what a login
    may change are proved once in \<open>user_store\<close> and used for SQLite.
  \<^item> \<open>Http_Api\<close>, \<open>Http_Facts\<close>, \<open>Frontend\<close>, \<open>Frontend_Facts\<close>, \<open>Events\<close>, \<open>Rate_Limit\<close>: the handlers of \<open>/v1\<close> and \<open>/api\<close>, log and
    event streams with their caps, the event bus and its bridge, and the rate limiter.
  \<^item> \<open>Mcp\<close>: the tools; those that have an endpoint under \<open>/v1\<close> make exactly the calls of that endpoint.
  \<^item> \<open>Server\<close>, \<open>Config\<close>: the handler chain, from the socket to the deploy service, the checks at start, and the
    configuration with its defaults, overrides and validation.
  \<^item> \<open>Api_Routes\<close>: the routes of \<open>/v1\<close>, the binding of their parameters and the multiplexer.  No request has two routes, every
    operation is reached by its request, and no spelling of a path gets past the authentication.
  \<^item> \<open>Extensions\<close>, \<open>Startup\<close>: the seams for modules outside the tree and the start of the process.  The locale \<open>named_registry\<close> is the
    contract of the registries of stores, auth modes and secret schemes; a configuration that loads names what is
    registered, and starts unless something outside the process fails.  Readiness, TLS and the contributed routes are here too.

  \<^bold>\<open>Shared.\<close>  \<open>Prelude\<close> has the string and list functions of Go's standard library, the result type and the lemmas the
  components share; \<open>Kube\<close> the calls and errors of the Kubernetes client.

  \<^bold>\<open>Bounds.\<close>  Constants are those of the code: 512 MiB and 100000 entries per fetch, 64 events per subscriber, 900 KiB
  per ConfigMap, 10 and 100 log streams, 100 event streams, 50000 clients per rate-limit pool.  No bound was chosen for the
  model, apart from the concrete inputs of the witnesses.

  \<^bold>\<open>Not modelled.\<close>  The strict server in \<open>server.gen.go\<close>, which the program does not use, generated deep copies and the aliases of
  \<open>pkg/plugin\<close>; the assembly of the components in the other \<open>cmd\<close> programs; signals, listeners and shutdown; the counters and
  spans of the metrics and tracing libraries; the making of certificates; embedded pages; the client of an image
  registry; and the SQL schema text.  The protocol libraries for MCP, HTTP, YAML and JSON are parameters where a component
  depends on what they return.
\<close>

end
